(* ===== verification/Prelude.thy ===== *)
theory Prelude
  imports Main "HOL-Library.Word" "HOL-Library.AList" "HOL-Library.Signed_Division"
begin

text \<open>
  What the components share: the names of the machine types, failures as values, the
  sequencing of fallible computations, the little-endian byte coding of machine integers
  (the functions of Go's encoding/binary) and the collections of rewrite rules that the
  component proofs use.

  Conventions of the whole development. A Go value of an n-bit integer type is an n-bit
  word; \<open>sint\<close> and \<open>uint\<close> read it as signed or unsigned where the code converts it. A
  Go string is a list of characters, one per byte. A Go map whose iteration order can be
  seen is an association list: the list order is the iteration order of the run, so a
  theorem about every list is a theorem about every order.
\<close>

unbundle bit_operations_syntax

section \<open>Machine types\<close>

type_synonym byte = "8 word"
type_synonym i16 = "16 word"
type_synonym i32 = "32 word"
type_synonym i64 = "64 word"

named_theorems wire \<open>what a writer emits and what a reader accepts\<close>
named_theorems monad \<open>sequencing of fallible computations\<close>
named_theorems enc_len \<open>lengths of encodings\<close>

section \<open>Failures\<close>

text \<open>
  The error values of the client. \<open>ErrMsg\<close> is an error made by errors.New or fmt.Errorf,
  \<open>ErrWrap\<close> one that wraps another with the verb for wrapping, the others are the error
  types of client.go.
\<close>

datatype gerror =
    ErrMsg string
  | ErrWrap string gerror
  | ClientError string
  | ClientTimeoutError string
  | ClientConnectionError string "gerror option"
  | ClientProtocolError string
  | ClientAuthenticationError string
  | ClientServerError i32 string

text \<open>
  A computation returns a value, returns an error, panics, or, where the model gives it a
  step budget, runs out of it. That the budget suffices is proved where it is used.
\<close>

datatype failure = Fail gerror | Panic | NoFuel

type_synonym 'a res = "failure + 'a"

definition bindE :: "'e + 'a \<Rightarrow> ('a \<Rightarrow> 'e + 'b) \<Rightarrow> 'e + 'b" where
  "bindE m k = (case m of Inl e \<Rightarrow> Inl e | Inr x \<Rightarrow> k x)"

lemma bindE_simps [simp]:
  "bindE (Inl e) k = Inl e"
  "bindE (Inr x) k = k x"
  by (simp_all add: bindE_def)

lemma bindE_Inr_iff: "bindE m k = Inr y \<longleftrightarrow> (\<exists>x. m = Inr x \<and> k x = Inr y)"
  by (cases m) auto

lemma bindE_assoc: "bindE (bindE m k) h = bindE m (\<lambda>x. bindE (k x) h)"
  by (cases m) auto

section \<open>Lists\<close>

text \<open>Overwriting a stretch of a list, and growing the list where the stretch passes its end.\<close>

definition overwrite :: "nat \<Rightarrow> 'a list \<Rightarrow> 'a list \<Rightarrow> 'a list" where
  "overwrite p bs xs = take p xs @ bs @ drop (p + length bs) xs"

lemma length_overwrite: "p \<le> length xs \<Longrightarrow> length (overwrite p bs xs) = max (length xs) (p + length bs)"
  by (auto simp: overwrite_def max_def)

lemma take_overwrite: "p \<le> length xs \<Longrightarrow> take (p + length bs) (overwrite p bs xs) = take p xs @ bs"
  by (simp add: overwrite_def min_def)

lemma overwrite_Nil: "p \<le> length xs \<Longrightarrow> overwrite p [] xs = xs"
  by (simp add: overwrite_def)

lemma overwrite_overwrite:
  assumes "p \<le> length xs"
  shows "overwrite (p + length as) bs (overwrite p as xs) = overwrite p (as @ bs) xs"
proof -
  have "drop (p + length as + length bs) (overwrite p as xs)
      = drop (p + length as + length bs) xs"
    using assms by (simp add: overwrite_def min_def add.commute add.left_commute)
  then show ?thesis
    using take_overwrite [OF assms, of as]
    by (simp add: overwrite_def add.assoc)
qed

lemma take_drop_concat_chunks:
  assumes "\<And>i. i < n \<Longrightarrow> length (f i) = k" and "j < n"
  shows "take k (drop (k * j) (concat (map f [0..<n]))) = f j"
  using assms
proof (induction n)
  case 0
  then show ?case by simp
next
  case (Suc n)
  have len: "length (concat (map f [0..<n])) = k * n"
    using Suc.prems(1) by (simp add: length_concat comp_def sum_list_triv interv_sum_list_conv_sum_set_nat)
  show ?case
  proof (cases "j = n")
    case True
    then show ?thesis using len Suc.prems(1) [of n] by simp
  next
    case False
    with Suc.prems have j: "j < n" by simp
    then have "k * (j + 1) \<le> k * n" by (intro mult_le_mono2) simp
    with len have "length (drop (k * j) (concat (map f [0..<n]))) \<ge> k" by simp
    then show ?thesis using Suc.IH [OF _ j] Suc.prems(1) len by simp
  qed
qed

lemma length_concat_chunks:
  assumes "\<And>i. i < n \<Longrightarrow> length (f i) = k"
  shows "length (concat (map f [0..<n])) = k * n"
  using assms by (induction n) simp_all

lemma update_alist_map_of: "map_of (AList.update k v xs) = (map_of xs)(k \<mapsto> v)"
  by (rule update_conv')

section \<open>Bytes of machine integers\<close>

text \<open>
  \<open>to_le k n\<close> is the little-endian form of \<open>n\<close> in \<open>k\<close> bytes, \<open>of_le\<close> reads it back.
  The big-endian form is the reversed list.
\<close>

fun to_le :: "nat \<Rightarrow> nat \<Rightarrow> byte list" where
  "to_le 0 n = []"
| "to_le (Suc k) n = word_of_nat n # to_le k (n div 256)"

fun of_le :: "byte list \<Rightarrow> nat" where
  "of_le [] = 0"
| "of_le (b # bs) = unat b + 256 * of_le bs"

lemma length_to_le [simp]: "length (to_le k n) = k"
  by (induction k arbitrary: n) auto

lemma to_le_numeral:
  "to_le 1 n = [word_of_nat n]"
  "to_le (numeral v) n = word_of_nat n # to_le (pred_numeral v) (n div 256)"
   by (simp, subst numeral_eq_Suc, rule to_le.simps)

lemma unat_bound: "unat (w :: 'a::len word) < 2 ^ LENGTH('a)"
  by (rule unsigned_less)

lemma unat_byte_bound [simp]: "unat (b :: byte) < 256"
  using unat_bound [of b] by simp

lemma digit_bound: "a < 256 \<Longrightarrow> b < c \<Longrightarrow> a + 256 * b < 256 * (c::nat)"
proof -
  assume "a < 256" and "b < c"
  then have "a + 256 * b < 256 * (b + 1)" and "b + 1 \<le> c" by simp_all
  from this(2) have "256 * (b + 1) \<le> 256 * c" by (rule mult_le_mono2)
  with \<open>a + 256 * b < 256 * (b + 1)\<close> show ?thesis by (rule less_le_trans)
qed

lemma of_le_bound: "of_le bs < 256 ^ length bs"
proof (induction bs)
  case Nil
  then show ?case by simp
next
  case (Cons b bs)
  have "unat b + 256 * of_le bs < 256 * 256 ^ length bs"
    by (rule digit_bound [OF unat_byte_bound Cons])
  then show ?case by simp
qed

lemma unat_byte_of_nat [simp]: "unat (word_of_nat n :: byte) = n mod 256"
  by (simp add: unat_of_nat)

lemma of_le_to_le: "of_le (to_le k n) = n mod 256 ^ k"
  by (induction k arbitrary: n) (simp_all add: mod_mult2_eq mult.commute add.commute)

lemma byte_of_digit: "(word_of_nat (unat b + 256 * n) :: byte) = b"
proof -
  have "unat (word_of_nat (unat b + 256 * n) :: byte) = unat b"
    unfolding unat_byte_of_nat by (simp only: mod_mult_self2 mod_less [OF unat_byte_bound])
  then show ?thesis by (rule word_unat_eq_iff [THEN iffD2])
qed

lemma to_le_of_le: "to_le (length bs) (of_le bs) = bs"
proof (induction bs)
  case Nil
  then show ?case by simp
next
  case (Cons b bs)
  have "(unat b + 256 * of_le bs) div 256 = of_le bs"
    by simp
  with Cons show ?case by (simp only: list.size of_le.simps to_le.simps byte_of_digit add_Suc_right add_0_right)
qed

lemma to_le_of_le' [simp]: "length bs = k \<Longrightarrow> to_le k (of_le bs) = bs"
  using to_le_of_le [of bs] by simp

lemma word_of_le_to_le:
  assumes "LENGTH('a::len) = 8 * k"
  shows "(word_of_nat (of_le (to_le k (unat w))) :: 'a word) = w"
proof -
  have "(256::nat) ^ k = 2 ^ LENGTH('a)"
    by (simp add: assms power_mult)
  then show ?thesis
    using unat_bound [of w] by (simp add: of_le_to_le)
qed

lemma word_of_le_16 [simp]: "(word_of_nat (of_le (to_le 2 (unat w))) :: i16) = w"
  by (rule word_of_le_to_le) simp

lemma word_of_le_32 [simp]: "(word_of_nat (of_le (to_le 4 (unat w))) :: i32) = w"
  by (rule word_of_le_to_le) simp

lemma word_of_le_64 [simp]: "(word_of_nat (of_le (to_le 8 (unat w))) :: i64) = w"
  by (rule word_of_le_to_le) simp

lemma unat_of_le:
  assumes "LENGTH('a::len) = 8 * length bs"
  shows "unat (word_of_nat (of_le bs) :: 'a word) = of_le bs"
proof -
  have "(256::nat) ^ length bs = 2 ^ LENGTH('a)"
    by (simp add: assms power_mult)
  then show ?thesis
    using of_le_bound [of bs] by (simp add: unat_of_nat)
qed

section \<open>Strings and bytes\<close>

definition bytes_of_string :: "string \<Rightarrow> byte list" where
  "bytes_of_string s = map (\<lambda>c. word_of_nat (of_char c)) s"

definition string_of_bytes :: "byte list \<Rightarrow> string" where
  "string_of_bytes bs = map (\<lambda>b. char_of (unat b)) bs"

lemma string_of_bytes_of_string [simp]: "string_of_bytes (bytes_of_string s) = s"
proof -
  have "(of_char c :: nat) mod 256 = of_char c" for c
    by (rule of_char_mod_256)
  then show ?thesis
    by (simp add: bytes_of_string_def string_of_bytes_def comp_def)
qed

lemma bytes_of_string_of_bytes [simp]: "bytes_of_string (string_of_bytes bs) = bs"
proof -
  have "(word_of_nat (of_char (char_of (unat b))) :: byte) = b" for b :: byte
    by (simp add: mod_less)
  then show ?thesis
    by (simp add: bytes_of_string_def string_of_bytes_def comp_def)
qed

lemma length_bytes_of_string [simp]: "length (bytes_of_string s) = length s"
  by (simp add: bytes_of_string_def)

lemma length_string_of_bytes [simp]: "length (string_of_bytes bs) = length bs"
  by (simp add: string_of_bytes_def)

end
