(* ===== verification/Utils.thy ===== *)
theory Utils
  imports Prelude
begin

text \<open>
  internal/utils.go: the hash of a name (the protocol identifies caches, types and fields
  by it), the hash of a byte slice, and the small set helpers. A range loop over a Go string
  decodes UTF-8; \<open>decodeRune\<close> is the decoding of Go's unicode/utf8, with the replacement
  character and width one for an invalid byte.
\<close>

section \<open>Runes of a string\<close>

definition cont :: "nat \<Rightarrow> nat \<Rightarrow> nat \<Rightarrow> bool" where
  "cont lo hi b \<longleftrightarrow> lo \<le> b \<and> b \<le> hi"

definition runeError :: nat where
  "runeError = 0xFFFD"

definition decode3 :: "nat \<Rightarrow> nat \<Rightarrow> nat \<Rightarrow> nat list \<Rightarrow> nat \<times> nat" where
  "decode3 lo hi b0 bs = (case bs of
     b1 # b2 # _ \<Rightarrow> if cont lo hi b1 \<and> cont 0x80 0xBF b2
                   then ((b0 mod 16) * 4096 + (b1 mod 64) * 64 + b2 mod 64, 3)
                   else (runeError, 1)
   | _ \<Rightarrow> (runeError, 1))"

definition decode4 :: "nat \<Rightarrow> nat \<Rightarrow> nat \<Rightarrow> nat list \<Rightarrow> nat \<times> nat" where
  "decode4 lo hi b0 bs = (case bs of
     b1 # b2 # b3 # _ \<Rightarrow> if cont lo hi b1 \<and> cont 0x80 0xBF b2 \<and> cont 0x80 0xBF b3
                   then ((b0 mod 8) * 262144 + (b1 mod 64) * 4096 + (b2 mod 64) * 64 + b3 mod 64, 4)
                   else (runeError, 1)
   | _ \<Rightarrow> (runeError, 1))"

definition decodeRune :: "nat \<Rightarrow> nat list \<Rightarrow> nat \<times> nat" where
  "decodeRune b0 bs =
     (if b0 < 0x80 then (b0, 1)
      else if cont 0xC2 0xDF b0 then
        (case bs of b1 # _ \<Rightarrow> if cont 0x80 0xBF b1 then ((b0 mod 32) * 64 + b1 mod 64, 2) else (runeError, 1)
         | [] \<Rightarrow> (runeError, 1))
      else if b0 = 0xE0 then decode3 0xA0 0xBF b0 bs
      else if b0 = 0xED then decode3 0x80 0x9F b0 bs
      else if cont 0xE1 0xEF b0 then decode3 0x80 0xBF b0 bs
      else if b0 = 0xF0 then decode4 0x90 0xBF b0 bs
      else if cont 0xF1 0xF3 b0 then decode4 0x80 0xBF b0 bs
      else if b0 = 0xF4 then decode4 0x80 0x8F b0 bs
      else (runeError, 1))"

fun runes :: "nat list \<Rightarrow> nat list" where
  "runes [] = []"
| "runes (b # bs) = (case decodeRune b bs of (r, w) \<Rightarrow> r # runes (drop (w - 1) bs))"

definition runesOf :: "string \<Rightarrow> nat list" where
  "runesOf s = runes (map of_char s)"

section \<open>Hashes\<close>

definition maxUint16 :: nat where "maxUint16 = 0xFFFF"
definition maxCodePoint :: nat where "maxCodePoint = 0x10FFFF"
definition replaceChar :: nat where "replaceChar = 0xFFFD"

text \<open>utf16.EncodeRune: the surrogate pair of a rune outside the basic plane.\<close>

definition encodeRune16 :: "nat \<Rightarrow> nat \<times> nat" where
  "encodeRune16 r =
     (if r < 0x10000 \<or> r > maxCodePoint then (runeError, runeError)
      else (0xD800 + ((r - 0x10000) div 1024) mod 1024, 0xDC00 + (r - 0x10000) mod 1024))"

definition hashRune :: "i32 \<Rightarrow> nat \<Rightarrow> i32" where
  "hashRune hash r =
     (if r \<le> maxUint16 then 31 * hash + word_of_nat r
      else if r > maxUint16 \<and> r \<le> maxCodePoint then
        (case encodeRune16 r of (r1, r2) \<Rightarrow> 31 * (31 * hash + word_of_nat r1) + word_of_nat r2)
      else 31 * hash + word_of_nat replaceChar)"

definition HashCode :: "string \<Rightarrow> i32" where
  "HashCode name = (if length name = 0 then 0 else foldl hashRune 0 (runesOf name))"

definition SliceHashCode :: "byte list \<Rightarrow> i32" where
  "SliceHashCode data = foldl (\<lambda>hash b. 31 * hash + scast b) 1 data"

section \<open>Sets and keys\<close>

definition ToSet :: "'a list \<Rightarrow> 'a set" where
  "ToSet vals = set vals"

fun ToSetWithTransformer :: "'a list \<Rightarrow> ('a \<Rightarrow> gerror + 'b) \<Rightarrow> gerror + 'b set" where
  "ToSetWithTransformer [] transformer = Inr {}"
| "ToSetWithTransformer (val # vals) transformer =
     bindE (transformer val) (\<lambda>transformedVal.
       bindE (ToSetWithTransformer vals transformer) (\<lambda>res. Inr (insert transformedVal res)))"

definition MapKeys :: "('k \<times> 'v) list \<Rightarrow> 'k list" where
  "MapKeys m = map fst m"

section \<open>The reference: the hash of the UTF-16 code units\<close>

text \<open>
  The specification is the hash of the Java platform on the other end of the wire: the
  polynomial in 31 over the UTF-16 code units of the name.
\<close>

definition utf16Units :: "nat \<Rightarrow> nat list" where
  "utf16Units r = (if r < 0x10000 then [r]
     else [0xD800 + (r - 0x10000) div 1024, 0xDC00 + (r - 0x10000) mod 1024])"

definition javaHash :: "nat list \<Rightarrow> i32" where
  "javaHash us = foldl (\<lambda>h u. 31 * h + word_of_nat u) 0 us"

lemma six_bits: "a mod 64 \<le> (63::nat)"
  by (rule less_Suc_eq_le [THEN iffD1]) simp

lemma decode3_bound: "fst (decode3 lo hi b bs) \<le> maxCodePoint"
proof -
  have "b mod 16 \<le> 15" by (rule less_Suc_eq_le [THEN iffD1]) simp
  then have "(b mod 16) * 4096 + (x mod 64) * 64 + y mod 64 \<le> 0x10FFFF" for x y
    using six_bits [of x] six_bits [of y] by linarith
  then show ?thesis by (auto simp: decode3_def maxCodePoint_def runeError_def split: list.splits)
qed

lemma decode4_bound:
  assumes "b mod 8 \<le> 3 \<or> (b mod 8 = 4 \<and> lo = 0x80 \<and> hi = 0x8F)"
  shows "fst (decode4 lo hi b bs) \<le> maxCodePoint"
proof -
  have "(b mod 8) * 262144 + (x mod 64) * 4096 + (y mod 64) * 64 + z mod 64 \<le> 0x10FFFF"
    if "cont lo hi x" for x y z
  proof (cases "b mod 8 \<le> 3")
    case True
    then show ?thesis using six_bits [of x] six_bits [of y] six_bits [of z] by linarith
  next
    case False
    with assms that have b4: "b mod 8 = 4" and x: "128 \<le> x" "x \<le> 143" by (auto simp: cont_def)
    from x have "x mod 64 = (x - 128) mod 64" by (simp add: le_mod_geq)
    with x have "x mod 64 \<le> 15" by simp
    with b4 show ?thesis using six_bits [of y] six_bits [of z] by linarith
  qed
  then show ?thesis by (auto simp: decode4_def maxCodePoint_def runeError_def split: list.splits)
qed

lemma decode2_bound:
  "fst (case bs of b1 # _ \<Rightarrow> if cont 0x80 0xBF b1 then ((b mod 32) * 64 + b1 mod 64, 2)
      else (runeError, 1) | [] \<Rightarrow> (runeError, 1 :: nat)) \<le> maxCodePoint"
proof -
  have "b mod 32 \<le> 31" by (rule less_Suc_eq_le [THEN iffD1]) simp
  then have "(b mod 32) * 64 + x mod 64 \<le> 0x10FFFF" for x
    using six_bits [of x] by linarith
  then show ?thesis by (auto simp: maxCodePoint_def runeError_def split: list.splits)
qed

lemma lead4: "0xF0 \<le> b \<Longrightarrow> b \<le> 0xF3 \<Longrightarrow> b mod 8 \<le> (3::nat)"
proof -
  assume "0xF0 \<le> b" and "b \<le> 0xF3"
  then have "b = 0xF0 \<or> b = 0xF1 \<or> b = 0xF2 \<or> b = 0xF3" by auto
  then show ?thesis by auto
qed

lemma decodeRune_bound: "fst (decodeRune b bs) \<le> maxCodePoint"
proof -
  consider "b < 0x80" | "\<not> b < 0x80" "cont 0xC2 0xDF b" | "\<not> b < 0x80" "\<not> cont 0xC2 0xDF b" by blast
  then show ?thesis
  proof cases
    case 1
    then show ?thesis by (simp add: decodeRune_def maxCodePoint_def)
  next
    case 2
    then show ?thesis using decode2_bound [where b = b and bs = bs] by (simp add: decodeRune_def)
  next
    case 3
    have e: "runeError \<le> maxCodePoint" by (simp add: runeError_def maxCodePoint_def)
    have "decodeRune b bs \<in> {decode3 0xA0 0xBF b bs, decode3 0x80 0x9F b bs, decode3 0x80 0xBF b bs, (runeError, 1)}
      \<or> (decodeRune b bs \<in> {decode4 0x90 0xBF b bs, decode4 0x80 0xBF b bs} \<and> 0xF0 \<le> b \<and> b \<le> 0xF3)
      \<or> (decodeRune b bs = decode4 0x80 0x8F b bs \<and> b = 0xF4)"
      using 3 by (auto simp: decodeRune_def cont_def)
    then show ?thesis
      using decode3_bound [where b = b and bs = bs] lead4 [of b] e
        decode4_bound [where b = b and bs = bs and lo = "0x80" and hi = "0x8F"]
        decode4_bound [where b = b and bs = bs and lo = "0x90" and hi = "0xBF"]
        decode4_bound [where b = b and bs = bs and lo = "0x80" and hi = "0xBF"]
      by (elim disjE conjE insertE emptyE) simp_all
  qed
qed

lemma runes_bound: "r \<in> set (runes bs) \<Longrightarrow> r \<le> maxCodePoint"
proof (induction bs rule: runes.induct)
  case 1
  then show ?case by simp
next
  case (2 b bs)
  then show ?case using decodeRune_bound [of b bs] by (cases "decodeRune b bs") auto
qed

lemma hashRune_units:
  "r \<le> maxCodePoint \<Longrightarrow> hashRune h r = foldl (\<lambda>h u. 31 * h + word_of_nat u) h (utf16Units r)"
  by (auto simp: hashRune_def utf16Units_def encodeRune16_def maxCodePoint_def maxUint16_def)

lemma foldl_hashRune:
  "\<forall>r \<in> set rs. r \<le> maxCodePoint \<Longrightarrow>
    foldl hashRune h rs = foldl (\<lambda>h u. 31 * h + word_of_nat u) h (concat (map utf16Units rs))"
  by (induction rs arbitrary: h) (simp_all add: hashRune_units)

lemma runes_ascii: "\<forall>b \<in> set bs. b < 128 \<Longrightarrow> runes bs = bs"
  by (induction bs) (simp_all add: decodeRune_def)

lemma runesOf_ascii: "\<forall>c \<in> set name. of_char c < (128::nat) \<Longrightarrow> runesOf name = map of_char name"
  by (simp add: runesOf_def runes_ascii)

lemma HashCode_fold: "HashCode name = foldl hashRune 0 (runesOf name)"
  by (simp add: HashCode_def runesOf_def)

lemma concat_units_small: "\<forall>r \<in> set rs. r < 0x10000 \<Longrightarrow> concat (map utf16Units rs) = rs"
  by (induction rs) (simp_all add: utf16Units_def)

lemma SliceHashCode_append:
  "SliceHashCode (xs @ ys) = foldl (\<lambda>hash b. 31 * hash + scast b) (SliceHashCode xs) ys"
  by (simp add: SliceHashCode_def)

section \<open>Properties\<close>

text \<open>C26 The hash of a name is Java's string hash: the wrapping 32-bit polynomial in 31 over
  the UTF-16 code units of the decoded name, and over the bytes themselves for an ASCII name.\<close>

theorem HashCode_is_javaHash:
  "HashCode name = javaHash (concat (map utf16Units (runesOf name))) \<and>
   (list_all (\<lambda>c. of_char c < (128::nat)) name \<longrightarrow> HashCode name = javaHash (map of_char name))"
proof -
  have 1: "HashCode name = javaHash (concat (map utf16Units (runesOf name)))"
    unfolding HashCode_fold javaHash_def
    by (rule foldl_hashRune) (auto simp: runesOf_def intro: runes_bound)
  moreover have "concat (map utf16Units (runesOf name)) = map of_char name"
    if "\<forall>c \<in> set name. of_char c < (128::nat)"
  proof -
    have "concat (map utf16Units (map of_char name)) = (map of_char name :: nat list)"
      using that by (intro concat_units_small) force
    then show ?thesis using runesOf_ascii [OF that] by simp
  qed
  ultimately show ?thesis by (auto simp: list_all_iff)
qed

theorem HashCode_is_javaHash_witness:
  "HashCode ''default'' = 1544803905 \<and> HashCode ''default'' = javaHash (map of_char ''default'')"
proof -
  have "list_all (\<lambda>c. of_char c < (128::nat)) ''default''" by code_simp
  moreover have "javaHash (map of_char ''default'') = 1544803905" by code_simp
  moreover have "HashCode ''default'' = javaHash (map of_char ''default'')"
    using HashCode_is_javaHash [of "''default''"] calculation(1) by blast
  ultimately show ?thesis by (simp only: simp_thms)
qed

text \<open>The values of the repository's own test of the hash, a surrogate pair included.\<close>

lemmas hash_eval = HashCode_def runesOf_def hashRune_def encodeRune16_def decodeRune_def
  decode4_def decode3_def cont_def maxUint16_def maxCodePoint_def

lemma HashCode_tests:
  "HashCode ''myCache'' = 1482644790"
  "HashCode ''Cache-123'' = 1449161031"
  "HashCode (string_of_bytes [0xE7,0xA6,0x81,0xE6,0xAD,0xA2,0xE6,0x8A,0xBD,0xE7,0x83,0x9F,0x21,0xF0,0x9F,0x9A,0xAD]) = 1520184206"
  by (simp_all add: hash_eval string_of_bytes_def)

end
