(* ===== verification/Buffer.thy ===== *)
theory Buffer
  imports Utils
begin

text \<open>
  buffer.go: the output stream over a growing byte buffer, the input stream over a received
  one, and the loops that write and read slices, sequences and maps. A slice access out of
  range is \<open>Panic\<close>. A float is its IEEE bit pattern, as math.Float32bits gives it.
\<close>

section \<open>State\<close>

definition boolBytes :: nat where "boolBytes = 1"
definition byteBytes :: nat where "byteBytes = 1"
definition shortBytes :: nat where "shortBytes = 2"
definition charBytes :: nat where "charBytes = 2"
definition intBytes :: nat where "intBytes = 4"
definition longBytes :: nat where "longBytes = 8"

lemmas size_defs = boolBytes_def byteBytes_def shortBytes_def charBytes_def intBytes_def longBytes_def

definition maxInt32 :: nat where "maxInt32 = 2147483647"

record out_stream =
  obuf :: "byte list"
  opos :: nat

record in_stream =
  ibuf :: "byte list"
  ioff :: nat
  ipos :: nat

type_synonym writer = "out_stream \<Rightarrow> out_stream res"
type_synonym 'a reader = "in_stream \<Rightarrow> ('a \<times> in_stream) res"

text \<open>Sequencing of writers and of readers; a failure of one ends the whole.\<close>

definition thenW :: "writer \<Rightarrow> writer \<Rightarrow> writer" where
  "thenW f g = (\<lambda>bw. bindE (f bw) g)"

definition skipW :: writer where
  "skipW = Inr"

primrec seqW :: "writer list \<Rightarrow> writer" where
  "seqW [] = skipW"
| "seqW (f # fs) = thenW f (seqW fs)"

definition failW :: "gerror \<Rightarrow> writer" where
  "failW e = (\<lambda>bw. Inl (Fail e))"

definition returnR :: "'a \<Rightarrow> 'a reader" where
  "returnR x = (\<lambda>br. Inr (x, br))"

definition bindR :: "'a reader \<Rightarrow> ('a \<Rightarrow> 'b reader) \<Rightarrow> 'b reader" where
  "bindR m k = (\<lambda>br. bindE (m br) (\<lambda>(x, br'). k x br'))"

definition failR :: "gerror \<Rightarrow> 'a reader" where
  "failR e = (\<lambda>br. Inl (Fail e))"

definition panicR :: "'a reader" where
  "panicR = (\<lambda>br. Inl Panic)"

section \<open>The output stream\<close>

definition NewBinaryOutputStream :: "nat \<Rightarrow> out_stream" where
  "NewBinaryOutputStream len = \<lparr>obuf = replicate len 0, opos = 0\<rparr>"

definition NewBinaryInputStream :: "byte list \<Rightarrow> nat \<Rightarrow> in_stream" where
  "NewBinaryInputStream buffer offset = \<lparr>ibuf = buffer, ioff = offset, ipos = offset\<rparr>"

definition Data :: "out_stream \<Rightarrow> byte list" where
  "Data bw = take (opos bw) (obuf bw)"

definition Slice :: "nat \<Rightarrow> nat \<Rightarrow> out_stream \<Rightarrow> byte list res" where
  "Slice offset limit bw =
     (if offset \<le> limit \<and> limit \<le> length (obuf bw)
      then Inr (drop offset (take limit (obuf bw))) else Inl Panic)"

definition AvailableO :: "out_stream \<Rightarrow> int" where
  "AvailableO bw = int (length (obuf bw)) - int (opos bw)"

definition SetPositionO :: "nat \<Rightarrow> writer" where
  "SetPositionO p = (\<lambda>bw. Inr (bw\<lparr>opos := p\<rparr>))"

definition EnsureAvailable :: "nat \<Rightarrow> writer" where
  "EnsureAvailable sz = (\<lambda>bw.
     if int maxInt32 - int (opos bw) < int sz then Inl Panic
     else if AvailableO bw < int sz
          then Inr (bw\<lparr>obuf := take (opos bw + sz) (obuf bw) @
                      replicate (opos bw + sz - length (obuf bw)) 0\<rparr>)
          else Inr bw)"

text \<open>
  \<open>store\<close> is an indexed store or a Put of encoding/binary at the position, \<open>copyAt\<close> Go's
  copy into the buffer from the position on, \<open>copyRange\<close> a copy into a slice of it.
\<close>

definition store :: "byte list \<Rightarrow> writer" where
  "store bs = (\<lambda>bw.
     if opos bw + length bs \<le> length (obuf bw)
     then Inr (bw\<lparr>obuf := overwrite (opos bw) bs (obuf bw), opos := opos bw + length bs\<rparr>)
     else Inl Panic)"

definition copyAt :: "byte list \<Rightarrow> writer" where
  "copyAt v = (\<lambda>bw.
     if opos bw \<le> length (obuf bw)
     then Inr (bw\<lparr>obuf := overwrite (opos bw) (take (length (obuf bw) - opos bw) v) (obuf bw),
                  opos := opos bw + length v\<rparr>)
     else Inl Panic)"

definition copyRange :: "nat \<Rightarrow> byte list \<Rightarrow> writer" where
  "copyRange len raw = (\<lambda>bw.
     if opos bw + len \<le> length (obuf bw)
     then Inr (bw\<lparr>obuf := overwrite (opos bw) (take len raw) (obuf bw), opos := opos bw + len\<rparr>)
     else Inl Panic)"

definition boolByte :: "bool \<Rightarrow> byte" where
  "boolByte v = (if v then 1 else 0)"

definition WriteBool :: "bool \<Rightarrow> writer" where
  "WriteBool v = thenW (EnsureAvailable boolBytes) (store [boolByte v])"

definition WriteUInt8 :: "byte \<Rightarrow> writer" where
  "WriteUInt8 v = thenW (EnsureAvailable byteBytes) (store [v])"

definition WriteInt8 :: "byte \<Rightarrow> writer" where
  "WriteInt8 v = thenW (EnsureAvailable byteBytes) (store [v])"

definition WriteInt16 :: "i16 \<Rightarrow> writer" where
  "WriteInt16 v = thenW (EnsureAvailable shortBytes) (store (to_le 2 (unat v)))"

definition WriteUInt16 :: "i16 \<Rightarrow> writer" where
  "WriteUInt16 v = thenW (EnsureAvailable shortBytes) (store (to_le 2 (unat v)))"

definition WriteInt32 :: "i32 \<Rightarrow> writer" where
  "WriteInt32 v = thenW (EnsureAvailable intBytes) (store (to_le 4 (unat v)))"

definition WriteUInt32 :: "i32 \<Rightarrow> writer" where
  "WriteUInt32 v = thenW (EnsureAvailable intBytes) (store (to_le 4 (unat v)))"

definition WriteInt64 :: "i64 \<Rightarrow> writer" where
  "WriteInt64 v = thenW (EnsureAvailable longBytes) (store (to_le 8 (unat v)))"

definition WriteUInt64 :: "i64 \<Rightarrow> writer" where
  "WriteUInt64 v = thenW (EnsureAvailable longBytes) (store (to_le 8 (unat v)))"

definition WriteFloat32 :: "i32 \<Rightarrow> writer" where
  "WriteFloat32 bits = WriteUInt32 bits"

definition WriteFloat64 :: "i64 \<Rightarrow> writer" where
  "WriteFloat64 bits = WriteUInt64 bits"

definition WriteBytes :: "byte list \<Rightarrow> writer" where
  "WriteBytes v = thenW (EnsureAvailable (length v)) (copyAt v)"

subsection \<open>Slices of primitives\<close>

text \<open>
  isLittleEndian is computed from a conversion that is little-endian by definition, so it is
  true on every machine. The fast path copies the memory of the slice; the model's memory is
  that of a little-endian machine. \<open>val[0]\<close> of an empty slice panics.
\<close>

definition getNativeEndian :: bool where
  "getNativeEndian \<longleftrightarrow> of_le [0x12, 0x34] = 0x3412"

definition writePrimitiveSliceFast :: "('a \<Rightarrow> byte list) \<Rightarrow> 'a list \<Rightarrow> nat \<Rightarrow> writer" where
  "writePrimitiveSliceFast mem val elemSz = (\<lambda>bw.
     let len = length val * elemSz
     in bindE (EnsureAvailable len bw) (\<lambda>bw.
          if val = [] then Inl Panic else copyRange len (concat (map mem val)) bw))"

definition writeSlice :: "('a \<Rightarrow> byte list) \<Rightarrow> nat \<Rightarrow> ('a \<Rightarrow> writer) \<Rightarrow> 'a list \<Rightarrow> writer" where
  "writeSlice mem elemSz write1 val =
     (if getNativeEndian then writePrimitiveSliceFast mem val elemSz else seqW (map write1 val))"

definition mem16 :: "i16 \<Rightarrow> byte list" where "mem16 v = to_le 2 (unat v)"
definition mem32 :: "i32 \<Rightarrow> byte list" where "mem32 v = to_le 4 (unat v)"
definition mem64 :: "i64 \<Rightarrow> byte list" where "mem64 v = to_le 8 (unat v)"

definition WriteBoolSlice :: "bool list \<Rightarrow> writer" where
  "WriteBoolSlice val = writePrimitiveSliceFast (\<lambda>b. [boolByte b]) val boolBytes"

definition WriteInt8Slice :: "byte list \<Rightarrow> writer" where
  "WriteInt8Slice val = writePrimitiveSliceFast (\<lambda>b. [b]) val byteBytes"

definition WriteUInt16Slice :: "i16 list \<Rightarrow> writer" where
  "WriteUInt16Slice val = writeSlice mem16 charBytes WriteUInt16 val"

definition WriteInt16Slice :: "i16 list \<Rightarrow> writer" where
  "WriteInt16Slice val = writeSlice mem16 shortBytes WriteInt16 val"

definition WriteUInt32Slice :: "i32 list \<Rightarrow> writer" where
  "WriteUInt32Slice val = writeSlice mem32 intBytes WriteUInt32 val"

definition WriteInt32Slice :: "i32 list \<Rightarrow> writer" where
  "WriteInt32Slice val = writeSlice mem32 intBytes WriteInt32 val"

definition WriteUIntSlice :: "i64 list \<Rightarrow> writer" where
  "WriteUIntSlice val = writeSlice mem64 longBytes WriteUInt64 val"

definition WriteIntSlice :: "i64 list \<Rightarrow> writer" where
  "WriteIntSlice val = writeSlice mem64 longBytes WriteInt64 val"

definition WriteUInt64Slice :: "i64 list \<Rightarrow> writer" where
  "WriteUInt64Slice val = writeSlice mem64 longBytes WriteUInt64 val"

definition WriteInt64Slice :: "i64 list \<Rightarrow> writer" where
  "WriteInt64Slice val = writeSlice mem64 longBytes WriteInt64 val"

definition WriteFloat32Slice :: "i32 list \<Rightarrow> writer" where
  "WriteFloat32Slice val = writeSlice mem32 intBytes WriteFloat32 val"

definition WriteFloat64Slice :: "i64 list \<Rightarrow> writer" where
  "WriteFloat64Slice val = writeSlice mem64 longBytes WriteFloat64 val"

definition HashCodeO :: "int \<Rightarrow> int \<Rightarrow> out_stream \<Rightarrow> i32 res" where
  "HashCodeO start stop bw =
     (let bufLen = int (length (obuf bw))
      in if start > bufLen \<or> start < 0 \<or> stop > bufLen \<or> stop < 0 \<or> start > stop then Inl Panic
         else Inr (SliceHashCode (drop (nat start) (take (nat stop) (obuf bw)))))"

section \<open>The input stream\<close>

definition Available :: "in_stream \<Rightarrow> int" where
  "Available br = int (length (ibuf br)) - int (ipos br)"

definition SetPosition :: "int \<Rightarrow> unit reader" where
  "SetPosition p = (\<lambda>br. if p < 0 then Inl Panic
     else if int (length (ibuf br)) < p then Inl Panic
     else Inr ((), br\<lparr>ipos := nat p\<rparr>))"

text \<open>\<open>fetch n\<close> is the next \<open>n\<close> bytes of the buffer, read in place.\<close>

definition fetch :: "nat \<Rightarrow> byte list reader" where
  "fetch n = (\<lambda>br. if ipos br + n \<le> length (ibuf br)
     then Inr (take n (drop (ipos br) (ibuf br)), br\<lparr>ipos := ipos br + n\<rparr>) else Inl Panic)"

definition ReadUInt8 :: "byte reader" where
  "ReadUInt8 = bindR (fetch 1) (\<lambda>bs. returnR (word_of_nat (of_le bs)))"

definition ReadInt8 :: "byte reader" where
  "ReadInt8 = ReadUInt8"

definition ReadBool :: "bool reader" where
  "ReadBool = bindR (fetch 1) (\<lambda>bs. returnR (of_le bs = 1))"

definition ReadUInt16 :: "i16 reader" where
  "ReadUInt16 = bindR (fetch 2) (\<lambda>bs. returnR (word_of_nat (of_le bs)))"

definition ReadInt16 :: "i16 reader" where
  "ReadInt16 = ReadUInt16"

definition ReadUInt32 :: "i32 reader" where
  "ReadUInt32 = bindR (fetch 4) (\<lambda>bs. returnR (word_of_nat (of_le bs)))"

definition ReadInt32 :: "i32 reader" where
  "ReadInt32 = ReadUInt32"

definition ReadUInt64 :: "i64 reader" where
  "ReadUInt64 = bindR (fetch 8) (\<lambda>bs. returnR (word_of_nat (of_le bs)))"

definition ReadInt64 :: "i64 reader" where
  "ReadInt64 = ReadUInt64"

definition ReadFloat32 :: "i32 reader" where
  "ReadFloat32 = ReadUInt32"

definition ReadFloat64 :: "i64 reader" where
  "ReadFloat64 = ReadUInt64"

text \<open>make panics on a negative size; copy stops at the end of the buffer, and the rest of the
  new slice stays zero.\<close>

definition ReadBytes :: "int \<Rightarrow> byte list reader" where
  "ReadBytes sz = (\<lambda>br.
     if sz < 0 then Inl Panic
     else if ipos br > length (ibuf br) then Inl Panic
     else let got = take (nat sz) (drop (ipos br) (ibuf br))
          in Inr (got @ replicate (nat sz - length got) 0, br\<lparr>ipos := ipos br + length got\<rparr>))"

definition readPrimitiveSliceFast :: "(byte list \<Rightarrow> 'a) \<Rightarrow> nat \<Rightarrow> int \<Rightarrow> 'a list reader" where
  "readPrimitiveSliceFast elem elemSz sz =
     (if sz < 0 then panicR
      else if sz = 0 then panicR
      else bindR (fetch (nat sz * elemSz)) (\<lambda>raw.
             returnR (map (\<lambda>i. elem (take elemSz (drop (elemSz * i) raw))) [0..<nat sz])))"

fun readN :: "nat \<Rightarrow> 'a reader \<Rightarrow> 'a list reader" where
  "readN 0 r = returnR []"
| "readN (Suc n) r = bindR r (\<lambda>x. bindR (readN n r) (\<lambda>xs. returnR (x # xs)))"

definition readSliceOf :: "(byte list \<Rightarrow> 'a) \<Rightarrow> nat \<Rightarrow> 'a reader \<Rightarrow> int \<Rightarrow> 'a list reader" where
  "readSliceOf elem elemSz read1 sz =
     (if getNativeEndian then readPrimitiveSliceFast elem elemSz sz
      else if sz < 0 then panicR else readN (nat sz) read1)"

definition word16 :: "byte list \<Rightarrow> i16" where "word16 bs = word_of_nat (of_le bs)"
definition word32 :: "byte list \<Rightarrow> i32" where "word32 bs = word_of_nat (of_le bs)"
definition word64 :: "byte list \<Rightarrow> i64" where "word64 bs = word_of_nat (of_le bs)"

definition ReadBoolSlice :: "int \<Rightarrow> bool list reader" where
  "ReadBoolSlice sz = readPrimitiveSliceFast (\<lambda>bs. of_le bs \<noteq> 0) byteBytes sz"

definition ReadInt8Slice :: "int \<Rightarrow> byte list reader" where
  "ReadInt8Slice sz = readPrimitiveSliceFast (\<lambda>bs. word_of_nat (of_le bs)) byteBytes sz"

definition ReadUInt16Slice :: "int \<Rightarrow> i16 list reader" where
  "ReadUInt16Slice sz = readSliceOf word16 charBytes ReadUInt16 sz"

definition ReadInt16Slice :: "int \<Rightarrow> i16 list reader" where
  "ReadInt16Slice sz = readSliceOf word16 charBytes ReadInt16 sz"

definition ReadUInt32Slice :: "int \<Rightarrow> i32 list reader" where
  "ReadUInt32Slice sz = readSliceOf word32 intBytes ReadUInt32 sz"

definition ReadInt32Slice :: "int \<Rightarrow> i32 list reader" where
  "ReadInt32Slice sz = readSliceOf word32 intBytes ReadInt32 sz"

definition ReadUInt64Slice :: "int \<Rightarrow> i64 list reader" where
  "ReadUInt64Slice sz = readSliceOf word64 longBytes ReadUInt64 sz"

definition ReadInt64Slice :: "int \<Rightarrow> i64 list reader" where
  "ReadInt64Slice sz = readSliceOf word64 longBytes ReadInt64 sz"

definition ReadFloat32Slice :: "int \<Rightarrow> i32 list reader" where
  "ReadFloat32Slice sz = readSliceOf word32 intBytes ReadFloat32 sz"

definition ReadFloat64Slice :: "int \<Rightarrow> i64 list reader" where
  "ReadFloat64Slice sz = readSliceOf word64 longBytes ReadFloat64 sz"

section \<open>Sequences and maps\<close>

definition ensureAvailable :: "int \<Rightarrow> unit reader" where
  "ensureAvailable nBytes = (\<lambda>br.
     if Available br < nBytes then Inl (Fail (ErrMsg ''invalid binary stream'')) else Inr ((), br))"

text \<open>
  \<open>readFrom i n\<close> runs the element reader for the indices \<open>i, i + 1, \<dots>\<close>, \<open>n\<close> of them, and
  collects what the closure of the code stores; \<open>writeFrom\<close> is the same for a writer.
\<close>

fun readFrom :: "nat \<Rightarrow> nat \<Rightarrow> (nat \<Rightarrow> 'a reader) \<Rightarrow> 'a list reader" where
  "readFrom i 0 elemReader = returnR []"
| "readFrom i (Suc n) elemReader =
     bindR (elemReader i) (\<lambda>x. bindR (readFrom (Suc i) n elemReader) (\<lambda>xs. returnR (x # xs)))"

definition readSequence :: "int \<Rightarrow> (nat \<Rightarrow> 'a reader) \<Rightarrow> 'a list reader" where
  "readSequence len elemReader = readFrom 0 (nat len) elemReader"

definition readSlice :: "(nat \<Rightarrow> 'a reader) \<Rightarrow> 'a list reader" where
  "readSlice elemReader =
     bindR (ensureAvailable (int intBytes)) (\<lambda>_.
     bindR ReadInt32 (\<lambda>sz.
       if sint sz < 0 then panicR else readSequence (sint sz) elemReader))"

fun writeFrom :: "nat \<Rightarrow> nat \<Rightarrow> (nat \<Rightarrow> writer) \<Rightarrow> writer" where
  "writeFrom i 0 valueWriter = skipW"
| "writeFrom i (Suc n) valueWriter = thenW (valueWriter i) (writeFrom (Suc i) n valueWriter)"

definition writeSequence :: "nat \<Rightarrow> (nat \<Rightarrow> writer) \<Rightarrow> writer" where
  "writeSequence len valueWriter = thenW (WriteInt32 (word_of_nat len)) (writeFrom 0 len valueWriter)"

definition writeSequenceWithKind :: "nat \<Rightarrow> byte \<Rightarrow> (nat \<Rightarrow> writer) \<Rightarrow> writer" where
  "writeSequenceWithKind len kind valueWriter =
     seqW [WriteInt32 (word_of_nat len), WriteInt8 kind, writeFrom 0 len valueWriter]"

definition readMap :: "('k \<times> 'v) reader \<Rightarrow> ('k \<times> 'v) list reader" where
  "readMap kvReader =
     bindR ReadInt32 (\<lambda>len.
     bindR (readSequence (sint len) (\<lambda>_. kvReader)) (\<lambda>kvs.
       returnR (fold (\<lambda>(k, v). AList.update k v) kvs [])))"

definition writeMap :: "('k \<times> 'v) list \<Rightarrow> ('k \<Rightarrow> 'v \<Rightarrow> writer) \<Rightarrow> writer" where
  "writeMap inMap kvWriter =
     thenW (WriteInt32 (word_of_nat (length inMap))) (seqW (map (\<lambda>(k, v). kvWriter k v) inMap))"

end
