(* ===== verification/Wire.thy ===== *)
theory Wire
  imports Buffer
begin

text \<open>
  The abstract view of the streams: an output stream is the bytes before its position, and
  every writer of the code refines \<open>put bs\<close>, which places the bytes at the position; an
  input stream is the bytes after its position, and a reader consumes a known encoding. The
  component theories prove their encodings with the closure lemmas of this theory, and the
  locales at the end state once what a pair of a writer and a reader promises.
\<close>

section \<open>Writers refine placing bytes\<close>

definition wf_out :: "out_stream \<Rightarrow> bool" where
  "wf_out bw \<longleftrightarrow> opos bw \<le> length (obuf bw) \<and> opos bw \<le> maxInt32"

definition put :: "byte list \<Rightarrow> writer" where
  "put bs = (\<lambda>bw. if opos bw + length bs \<le> maxInt32
     then Inr (bw\<lparr>obuf := overwrite (opos bw) bs (obuf bw), opos := opos bw + length bs\<rparr>)
     else Inl Panic)"

definition writes :: "writer \<Rightarrow> byte list \<Rightarrow> bool" where
  "writes f bs \<longleftrightarrow> (\<forall>bw. wf_out bw \<longrightarrow> f bw = put bs bw)"

lemma writesD: "writes f bs \<Longrightarrow> wf_out bw \<Longrightarrow> f bw = put bs bw"
  by (simp add: writes_def)

lemma wf_out_New: "wf_out (NewBinaryOutputStream n)"
  by (simp add: wf_out_def NewBinaryOutputStream_def)

lemma wf_out_put: "wf_out bw \<Longrightarrow> put bs bw = Inr bw' \<Longrightarrow> wf_out bw'"
  by (auto simp: put_def wf_out_def length_overwrite split: if_splits)

lemma Data_put: "wf_out bw \<Longrightarrow> put bs bw = Inr bw' \<Longrightarrow> Data bw' = Data bw @ bs"
  by (auto simp: put_def wf_out_def Data_def take_overwrite split: if_splits)

lemma put_Nil: "wf_out bw \<Longrightarrow> put [] bw = Inr bw"
  by (simp add: put_def wf_out_def overwrite_Nil)

lemma put_append: "wf_out bw \<Longrightarrow> bindE (put as bw) (put bs) = put (as @ bs) bw"
  by (auto simp: put_def wf_out_def overwrite_overwrite add.assoc)

lemma put_ok:
  assumes "wf_out bw" and "opos bw + length bs \<le> maxInt32"
  shows "\<exists>bw'. put bs bw = Inr bw' \<and> wf_out bw' \<and> Data bw' = Data bw @ bs \<and>
    opos bw' = opos bw + length bs"
proof -
  obtain bw' where e: "put bs bw = Inr bw'" using assms(2) by (simp add: put_def)
  moreover have "opos bw' = opos bw + length bs" using e assms(2) by (auto simp: put_def)
  ultimately show ?thesis using wf_out_put [OF assms(1) e] Data_put [OF assms(1) e] by blast
qed

lemma writes_skip [wire]: "writes skipW []"
  by (simp add: writes_def skipW_def put_Nil)

lemma writes_then [wire]: "writes f as \<Longrightarrow> writes g bs \<Longrightarrow> writes (thenW f g) (as @ bs)"
  unfolding writes_def thenW_def
proof (intro allI impI)
  fix bw
  assume f: "\<forall>bw. wf_out bw \<longrightarrow> f bw = put as bw" and g: "\<forall>bw. wf_out bw \<longrightarrow> g bw = put bs bw"
    and wf: "wf_out bw"
  show "bindE (f bw) g = put (as @ bs) bw"
  proof (cases "put as bw")
    case (Inl e)
    then have "put (as @ bs) bw = Inl e" by (auto simp: put_def split: if_splits)
    with Inl f wf show ?thesis by simp
  next
    case (Inr bw')
    with wf have "wf_out bw'" by (rule wf_out_put)
    with Inr f g wf show ?thesis using put_append [OF wf, of as bs] by simp
  qed
qed

lemma writes_seq: "list_all2 writes fs bss \<Longrightarrow> writes (seqW fs) (concat bss)"
  by (induction rule: list_all2_induct) (simp_all add: wire)

lemma writes_seq_Nil [wire]: "writes (seqW []) []"
  by (simp add: writes_skip)

lemma writes_seq_Cons [wire]: "writes f as \<Longrightarrow> writes (seqW fs) bs \<Longrightarrow> writes (seqW (f # fs)) (as @ bs)"
  by (simp add: writes_then)

lemma writes_if: "(b \<Longrightarrow> writes f as) \<Longrightarrow> (\<not> b \<Longrightarrow> writes g bs) \<Longrightarrow>
    writes (if b then f else g) (if b then as else bs)"
  by simp

lemma writes_cong: "writes f as \<Longrightarrow> as = bs \<Longrightarrow> writes f bs"
  by simp

lemma upt_Suc_left: "[i..<i + Suc n] = i # [Suc i..<Suc i + n]"
  by (subst upt_conv_Cons) simp_all

lemma writes_from:
  "(\<And>k. k < n \<Longrightarrow> writes (f (i + k)) (g (i + k))) \<Longrightarrow>
    writes (writeFrom i n f) (concat (map g [i..<i + n]))"
proof (induction n arbitrary: i)
  case 0
  then show ?case by (simp add: wire)
next
  case (Suc n)
  have "writes (f i) (g i)" using Suc.prems [of 0] by simp
  moreover have "writes (writeFrom (Suc i) n f) (concat (map g [Suc i..<Suc i + n]))"
  proof (rule Suc.IH)
    fix k assume "k < n"
    then show "writes (f (Suc i + k)) (g (Suc i + k))" using Suc.prems [of "Suc k"] by simp
  qed
  ultimately have "writes (writeFrom i (Suc n) f) (g i @ concat (map g [Suc i..<Suc i + n]))"
    by (simp add: writes_then)
  then show ?case unfolding upt_Suc_left by simp
qed

subsection \<open>The primitive writers\<close>

lemma ensure_store:
  assumes "wf_out bw"
  shows "bindE (EnsureAvailable (length bs) bw) (store bs) = put bs bw"
  using assms
  by (auto simp: EnsureAvailable_def store_def put_def wf_out_def AvailableO_def overwrite_def)

lemma writes_store: "length bs = n \<Longrightarrow> writes (thenW (EnsureAvailable n) (store bs)) bs"
  unfolding writes_def thenW_def using ensure_store by blast

lemma writes_prims [wire]:
  "writes (WriteBool b) [boolByte b]"
  "writes (WriteUInt8 v8) [v8]"
  "writes (WriteInt8 v8) [v8]"
  "writes (WriteInt16 v16) (to_le 2 (unat v16))"
  "writes (WriteUInt16 v16) (to_le 2 (unat v16))"
  "writes (WriteInt32 v32) (to_le 4 (unat v32))"
  "writes (WriteUInt32 v32) (to_le 4 (unat v32))"
  "writes (WriteInt64 v64) (to_le 8 (unat v64))"
  "writes (WriteUInt64 v64) (to_le 8 (unat v64))"
  "writes (WriteFloat32 v32) (to_le 4 (unat v32))"
  "writes (WriteFloat64 v64) (to_le 8 (unat v64))"
  unfolding WriteBool_def WriteUInt8_def WriteInt8_def WriteInt16_def WriteUInt16_def
    WriteInt32_def WriteUInt32_def WriteInt64_def WriteUInt64_def WriteFloat32_def WriteFloat64_def
  by (rule writes_store, simp add: size_defs)+

lemma writes_WriteBytes [wire]: "writes (WriteBytes v) v"
  unfolding writes_def WriteBytes_def thenW_def
  by (auto simp: EnsureAvailable_def copyAt_def put_def wf_out_def AvailableO_def overwrite_def)

lemma getNativeEndian_always: "getNativeEndian"
  by (simp add: getNativeEndian_def)

lemma ensure_range:
  "wf_out bw \<Longrightarrow> length bs = m \<Longrightarrow> bindE (EnsureAvailable m bw) (copyRange m bs) = put bs bw"
  by (auto simp: EnsureAvailable_def copyRange_def put_def wf_out_def AvailableO_def overwrite_def)

lemma writes_fast:
  assumes "val \<noteq> []" and "\<And>x. length (mem x) = n"
  shows "writes (writePrimitiveSliceFast mem val n) (concat (map mem val))"
proof -
  have "length (concat (map mem val)) = length val * n"
    using assms(2) by (induction val) simp_all
  then show ?thesis
    unfolding writes_def writePrimitiveSliceFast_def Let_def
    using assms(1) ensure_range by simp
qed

lemma fast_empty: "wf_out bw \<Longrightarrow> writePrimitiveSliceFast mem [] n bw = Inl Panic"
  by (simp add: writePrimitiveSliceFast_def EnsureAvailable_def AvailableO_def wf_out_def)

lemma writes_slice:
  "val \<noteq> [] \<Longrightarrow> (\<And>x. length (mem x) = n) \<Longrightarrow> writes (writeSlice mem n w val) (concat (map mem val))"
  by (simp add: writeSlice_def getNativeEndian_always writes_fast)

lemma length_mem [simp]: "length (mem16 v) = 2" "length (mem32 w) = 4" "length (mem64 x) = 8"
  by (simp_all add: mem16_def mem32_def mem64_def)

lemma writes_slices [wire]:
  "bs \<noteq> [] \<Longrightarrow> writes (WriteBoolSlice bs) (map boolByte bs)"
  "v8 \<noteq> [] \<Longrightarrow> writes (WriteInt8Slice v8) v8"
  "v16 \<noteq> [] \<Longrightarrow> writes (WriteUInt16Slice v16) (concat (map mem16 v16))"
  "v16 \<noteq> [] \<Longrightarrow> writes (WriteInt16Slice v16) (concat (map mem16 v16))"
  "v32 \<noteq> [] \<Longrightarrow> writes (WriteUInt32Slice v32) (concat (map mem32 v32))"
  "v32 \<noteq> [] \<Longrightarrow> writes (WriteInt32Slice v32) (concat (map mem32 v32))"
  "v64 \<noteq> [] \<Longrightarrow> writes (WriteUIntSlice v64) (concat (map mem64 v64))"
  "v64 \<noteq> [] \<Longrightarrow> writes (WriteIntSlice v64) (concat (map mem64 v64))"
  "v64 \<noteq> [] \<Longrightarrow> writes (WriteUInt64Slice v64) (concat (map mem64 v64))"
  "v64 \<noteq> [] \<Longrightarrow> writes (WriteInt64Slice v64) (concat (map mem64 v64))"
  "v32 \<noteq> [] \<Longrightarrow> writes (WriteFloat32Slice v32) (concat (map mem32 v32))"
  "v64 \<noteq> [] \<Longrightarrow> writes (WriteFloat64Slice v64) (concat (map mem64 v64))"
  unfolding WriteUInt16Slice_def WriteInt16Slice_def WriteUInt32Slice_def WriteInt32Slice_def
    WriteUIntSlice_def WriteIntSlice_def WriteUInt64Slice_def WriteInt64Slice_def
    WriteFloat32Slice_def WriteFloat64Slice_def WriteBoolSlice_def WriteInt8Slice_def size_defs
  using writes_fast [of bs "\<lambda>b. [boolByte b]" 1] writes_fast [of v8 "\<lambda>b. [b]" 1]
  by (simp_all add: writes_slice)

section \<open>Readers consume an encoding\<close>

text \<open>
  \<open>reads r bs x\<close>: wherever the bytes \<open>bs\<close> stand at the position, the reader returns \<open>x\<close> and
  moves past them, whatever follows.
\<close>

definition reads :: "'a reader \<Rightarrow> byte list \<Rightarrow> 'a \<Rightarrow> bool" where
  "reads r bs x \<longleftrightarrow> (\<forall>pre post off.
     r \<lparr>ibuf = pre @ bs @ post, ioff = off, ipos = length pre\<rparr>
       = Inr (x, \<lparr>ibuf = pre @ bs @ post, ioff = off, ipos = length pre + length bs\<rparr>))"

lemma readsD: "reads r bs x \<Longrightarrow>
  r \<lparr>ibuf = pre @ bs @ post, ioff = off, ipos = length pre\<rparr>
    = Inr (x, \<lparr>ibuf = pre @ bs @ post, ioff = off, ipos = length pre + length bs\<rparr>)"
  by (simp add: reads_def)

lemma reads_from_start: "reads r bs x \<Longrightarrow>
  r (NewBinaryInputStream (bs @ post) 0) = Inr (x, \<lparr>ibuf = bs @ post, ioff = 0, ipos = length bs\<rparr>)"
  using readsD [of r bs x "[]" post 0] by (simp add: NewBinaryInputStream_def)

lemma reads_return [wire]: "reads (returnR x) [] x"
  by (simp add: reads_def returnR_def)

lemma reads_bind:
  assumes "reads m as x" and "reads (k x) bs y"
  shows "reads (bindR m k) (as @ bs) y"
  unfolding reads_def
proof (intro allI)
  fix pre post off
  have "m \<lparr>ibuf = pre @ as @ bs @ post, ioff = off, ipos = length pre\<rparr>
      = Inr (x, \<lparr>ibuf = pre @ as @ bs @ post, ioff = off, ipos = length pre + length as\<rparr>)"
    using readsD [OF assms(1), of pre "bs @ post"] by simp
  moreover have "k x \<lparr>ibuf = (pre @ as) @ bs @ post, ioff = off, ipos = length (pre @ as)\<rparr>
      = Inr (y, \<lparr>ibuf = (pre @ as) @ bs @ post, ioff = off, ipos = length (pre @ as) + length bs\<rparr>)"
    by (rule readsD [OF assms(2)])
  ultimately show "bindR m k \<lparr>ibuf = pre @ (as @ bs) @ post, ioff = off, ipos = length pre\<rparr>
      = Inr (y, \<lparr>ibuf = pre @ (as @ bs) @ post, ioff = off, ipos = length pre + length (as @ bs)\<rparr>)"
    by (simp add: bindR_def add.assoc)
qed

lemma reads_bind_return: "reads m bs x \<Longrightarrow> reads (bindR m (\<lambda>x. returnR (f x))) bs (f x)"
  using reads_bind [of m bs x "\<lambda>x. returnR (f x)" "[]"] by (simp add: reads_return)

lemma reads_cong: "reads r as x \<Longrightarrow> as = bs \<Longrightarrow> x = y \<Longrightarrow> reads r bs y"
  by simp

lemma reads_ensure: "int (length bs) \<ge> n \<Longrightarrow> reads r bs x \<Longrightarrow> reads (bindR (ensureAvailable n) (\<lambda>_. r)) bs x"
  by (auto simp: reads_def bindR_def ensureAvailable_def Available_def)

lemma reads_fetch [wire]: "length bs = n \<Longrightarrow> reads (fetch n) bs bs"
  by (auto simp: reads_def fetch_def)

lemma reads_fetch_map:
  "length bs = n \<Longrightarrow> f bs = x \<Longrightarrow> reads (bindR (fetch n) (\<lambda>bs. returnR (f bs))) bs x"
  using reads_bind_return [OF reads_fetch, of bs n f] by simp

lemma reads_prims [wire]:
  "reads ReadUInt8 [v8] v8"
  "reads ReadInt8 [v8] v8"
  "reads ReadBool [boolByte b] b"
  "reads ReadUInt16 (to_le 2 (unat v16)) v16"
  "reads ReadInt16 (to_le 2 (unat v16)) v16"
  "reads ReadUInt32 (to_le 4 (unat v32)) v32"
  "reads ReadInt32 (to_le 4 (unat v32)) v32"
  "reads ReadUInt64 (to_le 8 (unat v64)) v64"
  "reads ReadInt64 (to_le 8 (unat v64)) v64"
  "reads ReadFloat32 (to_le 4 (unat v32)) v32"
  "reads ReadFloat64 (to_le 8 (unat v64)) v64"
  unfolding ReadUInt8_def ReadInt8_def ReadBool_def ReadUInt16_def ReadInt16_def ReadUInt32_def
    ReadInt32_def ReadUInt64_def ReadInt64_def ReadFloat32_def ReadFloat64_def
  by (rule reads_fetch_map, simp, simp add: boolByte_def)+

lemma reads_ReadBytes: "n = int (length bs) \<Longrightarrow> reads (ReadBytes n) bs bs"
  by (auto simp: reads_def ReadBytes_def)

lemma reads_readFrom:
  "(\<And>k. k < n \<Longrightarrow> reads (f (i + k)) (g (i + k)) (h (i + k))) \<Longrightarrow>
    reads (readFrom i n f) (concat (map g [i..<i + n])) (map h [i..<i + n])"
proof (induction n arbitrary: i)
  case 0
  then show ?case by (simp add: wire)
next
  case (Suc n)
  have 1: "reads (f i) (g i) (h i)" using Suc.prems [of 0] by simp
  have 2: "reads (readFrom (Suc i) n f) (concat (map g [Suc i..<Suc i + n])) (map h [Suc i..<Suc i + n])"
  proof (rule Suc.IH)
    fix k assume "k < n"
    then show "reads (f (Suc i + k)) (g (Suc i + k)) (h (Suc i + k))" using Suc.prems [of "Suc k"] by simp
  qed
  have "reads (readFrom i (Suc n) f) (g i @ concat (map g [Suc i..<Suc i + n]))
      (h i # map h [Suc i..<Suc i + n])"
    unfolding readFrom.simps by (rule reads_bind [OF 1]) (rule reads_bind_return [OF 2])
  then show ?case unfolding upt_Suc_left by simp
qed

lemma reads_fast:
  assumes "xs \<noteq> []" and "\<And>x. length (mem x) = n" and "\<And>x. elem (mem x) = x"
    and "sz = int (length xs)"
  shows "reads (readPrimitiveSliceFast elem n sz) (concat (map mem xs)) xs"
proof -
  let ?raw = "concat (map mem xs)"
  have raw: "?raw = concat (map (\<lambda>i. mem (xs ! i)) [0..<length xs])"
    by (rule arg_cong [where f = concat], rule nth_equalityI) simp_all
  have len: "length ?raw = length xs * n"
    using assms(2) by (induction xs) simp_all
  have "map (\<lambda>i. elem (take n (drop (n * i) ?raw))) [0..<length xs] = map ((!) xs) [0..<length xs]"
  proof (rule map_cong [OF refl])
    fix i assume "i \<in> set [0..<length xs]"
    then have "take n (drop (n * i) ?raw) = mem (xs ! i)"
      unfolding raw using assms(2) by (intro take_drop_concat_chunks) simp_all
    then show "elem (take n (drop (n * i) ?raw)) = xs ! i" by (simp add: assms(3))
  qed
  then have eq: "map (\<lambda>i. elem (take n (drop (n * i) ?raw))) [0..<length xs] = xs"
    by (simp only: map_nth)
  have "reads (bindR (fetch (nat sz * n)) (\<lambda>raw. returnR (map (\<lambda>i. elem (take n (drop (n * i) raw))) [0..<nat sz])))
      ?raw (map (\<lambda>i. elem (take n (drop (n * i) ?raw))) [0..<nat sz])"
    by (rule reads_bind_return, rule reads_fetch) (simp only: len assms(4) nat_int)
  then have "reads (bindR (fetch (nat sz * n)) (\<lambda>raw. returnR (map (\<lambda>i. elem (take n (drop (n * i) raw))) [0..<nat sz])))
      ?raw xs"
    by (simp only: assms(4) nat_int eq)
  moreover have "\<not> sz < 0" and "sz \<noteq> 0" using assms(1,4) by simp_all
  ultimately show ?thesis by (simp only: readPrimitiveSliceFast_def if_False)
qed

lemma elem_mem [simp]: "word16 (mem16 v) = v" "word32 (mem32 w) = w" "word64 (mem64 x) = x"
  by (simp_all add: word16_def word32_def word64_def mem16_def mem32_def mem64_def)

lemma map_as_concat: "map f xs = concat (map (\<lambda>x. [f x]) xs)"
  by (induction xs) simp_all

lemma reads_slices [wire]:
  "bs \<noteq> [] \<Longrightarrow> reads (ReadBoolSlice (int (length bs))) (map boolByte bs) bs"
  "v8 \<noteq> [] \<Longrightarrow> reads (ReadInt8Slice (int (length v8))) v8 v8"
  "v16 \<noteq> [] \<Longrightarrow> reads (ReadUInt16Slice (int (length v16))) (concat (map mem16 v16)) v16"
  "v16 \<noteq> [] \<Longrightarrow> reads (ReadInt16Slice (int (length v16))) (concat (map mem16 v16)) v16"
  "v32 \<noteq> [] \<Longrightarrow> reads (ReadUInt32Slice (int (length v32))) (concat (map mem32 v32)) v32"
  "v32 \<noteq> [] \<Longrightarrow> reads (ReadInt32Slice (int (length v32))) (concat (map mem32 v32)) v32"
  "v64 \<noteq> [] \<Longrightarrow> reads (ReadUInt64Slice (int (length v64))) (concat (map mem64 v64)) v64"
  "v64 \<noteq> [] \<Longrightarrow> reads (ReadInt64Slice (int (length v64))) (concat (map mem64 v64)) v64"
  "v32 \<noteq> [] \<Longrightarrow> reads (ReadFloat32Slice (int (length v32))) (concat (map mem32 v32)) v32"
  "v64 \<noteq> [] \<Longrightarrow> reads (ReadFloat64Slice (int (length v64))) (concat (map mem64 v64)) v64"
proof -
  have "concat (map (\<lambda>b. [b]) v8) = v8" by (induction v8) simp_all
  then show "v8 \<noteq> [] \<Longrightarrow> reads (ReadInt8Slice (int (length v8))) v8 v8"
    using reads_fast [of v8 "\<lambda>b. [b]" 1 "\<lambda>bs. word_of_nat (of_le bs)" "int (length v8)"]
    by (simp add: ReadInt8Slice_def size_defs)
  show "bs \<noteq> [] \<Longrightarrow> reads (ReadBoolSlice (int (length bs))) (map boolByte bs) bs"
    unfolding map_as_concat [of boolByte bs]
    using reads_fast [of bs "\<lambda>b. [boolByte b]" 1 "\<lambda>bs. of_le bs \<noteq> 0" "int (length bs)"]
    by (simp add: ReadBoolSlice_def size_defs boolByte_def split: if_splits)
qed (simp_all add: ReadUInt16Slice_def ReadInt16Slice_def ReadUInt32Slice_def ReadInt32Slice_def
    ReadUInt64Slice_def ReadInt64Slice_def ReadFloat32Slice_def ReadFloat64Slice_def readSliceOf_def
    getNativeEndian_always size_defs reads_fast)

section \<open>Lengths on the wire\<close>

definition lenBytes :: "nat \<Rightarrow> byte list" where
  "lenBytes n = to_le 4 (unat (word_of_nat n :: i32))"

definition small :: "nat \<Rightarrow> bool" where
  "small n \<longleftrightarrow> n < 2 ^ 31"

lemma length_lenBytes [simp, enc_len]: "length (lenBytes n) = 4"
  by (simp add: lenBytes_def)

lemma sint_small: "small n \<Longrightarrow> sint (word_of_nat n :: i32) = int n"
  unfolding small_def by (simp add: signed_of_nat signed_take_bit_int_eq_self)

lemma writes_len [wire]: "writes (WriteInt32 (word_of_nat n)) (lenBytes n)"
  unfolding lenBytes_def by (rule writes_prims)

lemma reads_len [wire]: "reads ReadInt32 (lenBytes n) (word_of_nat n)"
  unfolding lenBytes_def by (rule reads_prims)

lemma concat_map_nth: "concat (map (\<lambda>i. f (xs ! i)) [0..<length xs]) = concat (map f xs)"
proof -
  have "map (\<lambda>i. f (xs ! i)) [0..<length xs] = map f xs"
    by (rule nth_equalityI) simp_all
  then show ?thesis by simp
qed

lemma map_map_nth: "map (\<lambda>i. f (xs ! i)) [0..<length xs] = map f xs"
  by (rule nth_equalityI) simp_all

lemma writes_elems:
  assumes "\<And>x. x \<in> set xs \<Longrightarrow> writes (w x) (enc x)"
  shows "writes (writeFrom 0 (length xs) (\<lambda>i. w (xs ! i))) (concat (map enc xs))"
  using writes_from [of "length xs" "\<lambda>i. w (xs ! i)" 0 "\<lambda>i. enc (xs ! i)"] assms
  by (simp add: concat_map_nth)

lemma writes_writeSequence:
  assumes "\<And>x. x \<in> set xs \<Longrightarrow> writes (w x) (enc x)"
  shows "writes (writeSequence (length xs) (\<lambda>i. w (xs ! i))) (lenBytes (length xs) @ concat (map enc xs))"
  unfolding writeSequence_def by (intro writes_then writes_len writes_elems assms)

lemma writes_writeSequenceWithKind:
  assumes "\<And>x. x \<in> set xs \<Longrightarrow> writes (w x) (enc x)"
  shows "writes (writeSequenceWithKind (length xs) kind (\<lambda>i. w (xs ! i)))
    (lenBytes (length xs) @ [kind] @ concat (map enc xs))"
proof -
  have "writes (writeSequenceWithKind (length xs) kind (\<lambda>i. w (xs ! i)))
    (lenBytes (length xs) @ [kind] @ concat (map enc xs) @ [])"
    unfolding writeSequenceWithKind_def
    by (intro writes_seq_Cons writes_seq_Nil writes_len writes_prims writes_elems assms)
  then show ?thesis by simp
qed

lemma reads_elems:
  assumes "\<And>x. x \<in> set xs \<Longrightarrow> reads r (enc x) (canon x)"
  shows "reads (readFrom 0 (length xs) (\<lambda>_. r)) (concat (map enc xs)) (map canon xs)"
  using reads_readFrom [of "length xs" "\<lambda>_. r" 0 "\<lambda>i. enc (xs ! i)" "\<lambda>i. canon (xs ! i)"] assms
  by (simp add: concat_map_nth map_map_nth)

lemma reads_readSequence:
  assumes "\<And>x. x \<in> set xs \<Longrightarrow> reads r (enc x) (canon x)" and "n = int (length xs)"
  shows "reads (readSequence n (\<lambda>_. r)) (concat (map enc xs)) (map canon xs)"
  using reads_elems [of xs r enc canon] assms by (simp add: readSequence_def)

lemma reads_readSlice:
  assumes "\<And>x. x \<in> set xs \<Longrightarrow> reads r (enc x) (canon x)" and "small (length xs)"
  shows "reads (readSlice (\<lambda>_. r)) (lenBytes (length xs) @ concat (map enc xs)) (map canon xs)"
  unfolding readSlice_def
  using assms
  by (intro reads_ensure reads_bind [OF reads_len]) (simp_all add: size_defs sint_small reads_readSequence)

section \<open>The contract of a writer and its reader\<close>

text \<open>
  A codec: the writer emits the encoding of every valid value, and the reader turns that
  encoding back into the canonical form of the value. What the code builds from a codec
  (sequences, slices, messages on a fresh stream) is proved once, here.
\<close>

locale codec =
  fixes wr :: "'a \<Rightarrow> writer"
    and rd :: "'b reader"
    and enc :: "'a \<Rightarrow> byte list"
    and canon :: "'a \<Rightarrow> 'b"
    and valid :: "'a \<Rightarrow> bool"
  assumes wr_enc: "valid x \<Longrightarrow> writes (wr x) (enc x)"
    and rd_enc: "valid x \<Longrightarrow> reads rd (enc x) (canon x)"
begin

lemma message:
  assumes "valid x" and "length (enc x) \<le> maxInt32"
  shows "\<exists>bw. wr x (NewBinaryOutputStream n) = Inr bw \<and> Data bw = enc x \<and>
    rd (NewBinaryInputStream (Data bw) 0) = Inr (canon x, \<lparr>ibuf = enc x, ioff = 0, ipos = length (enc x)\<rparr>)"
proof -
  let ?s = "NewBinaryOutputStream n"
  have "opos ?s = 0" and "Data ?s = []" by (simp_all add: NewBinaryOutputStream_def Data_def)
  then obtain bw where "put (enc x) ?s = Inr bw" "Data bw = enc x"
    using put_ok [OF wf_out_New, of n "enc x"] assms(2) by auto
  then show ?thesis
    using writesD [OF wr_enc [OF assms(1)] wf_out_New, of n]
      reads_from_start [OF rd_enc [OF assms(1)], of "[]"] by simp
qed

lemma sequence_wr:
  "\<forall>x \<in> set xs. valid x \<Longrightarrow>
    writes (writeSequence (length xs) (\<lambda>i. wr (xs ! i))) (lenBytes (length xs) @ concat (map enc xs))"
  by (intro writes_writeSequence wr_enc) simp

lemma slice_rd:
  "\<forall>x \<in> set xs. valid x \<Longrightarrow> small (length xs) \<Longrightarrow>
    reads (readSlice (\<lambda>_. rd)) (lenBytes (length xs) @ concat (map enc xs)) (map canon xs)"
  by (intro reads_readSlice rd_enc) simp_all

end

text \<open>Sequences of codec values form a codec again.\<close>

locale sequence_codec = codec
begin

sublocale seq: codec "\<lambda>xs. writeSequence (length xs) (\<lambda>i. wr (xs ! i))" "readSlice (\<lambda>_. rd)"
  "\<lambda>xs. lenBytes (length xs) @ concat (map enc xs)" "map canon"
  "\<lambda>xs. (\<forall>x \<in> set xs. valid x) \<and> small (length xs)"
  by unfold_locales (simp_all add: sequence_wr slice_rd)

end

interpretation i32: sequence_codec WriteInt32 ReadInt32 "\<lambda>v. to_le 4 (unat v)" "\<lambda>v. v" "\<lambda>_. True"
  by unfold_locales (simp_all add: wire)

interpretation i64: sequence_codec WriteInt64 ReadInt64 "\<lambda>v. to_le 8 (unat v)" "\<lambda>v. v" "\<lambda>_. True"
  by unfold_locales (simp_all add: wire)

interpretation b8: sequence_codec WriteBool ReadBool "\<lambda>b. [boolByte b]" "\<lambda>b. b" "\<lambda>_. True"
  by unfold_locales (simp_all add: wire)

section \<open>Properties\<close>

lemma length_concat_const: "(\<And>x. x \<in> set xs \<Longrightarrow> length (f x) = k) \<Longrightarrow> length (concat (map f xs)) = k * length xs"
  by (induction xs) simp_all

text \<open>Sequences of 32-bit integers survive the buffer: written on a fresh stream of any
  initial capacity (the buffer grows where it must), the data of the stream is the length and
  the elements in little-endian order, and readSlice on that data returns the same sequence
  and stops exactly at the end.\<close>

theorem int_sequence_roundtrip:
  assumes "4 + 4 * length xs \<le> maxInt32"
  shows "\<exists>bw. writeSequence (length xs) (\<lambda>i. WriteInt32 (xs ! i)) (NewBinaryOutputStream n) = Inr bw \<and>
    Data bw = lenBytes (length xs) @ concat (map mem32 xs) \<and>
    readSlice (\<lambda>_. ReadInt32) (NewBinaryInputStream (Data bw) 0)
      = Inr (xs, \<lparr>ibuf = Data bw, ioff = 0, ipos = 4 + 4 * length xs\<rparr>)"
proof -
  let ?e = "lenBytes (length xs) @ concat (map (\<lambda>v. to_le 4 (unat v)) xs)"
  have len: "length ?e = 4 + 4 * length xs" by (simp add: length_concat_const [where k = 4])
  moreover have "small (length xs)" using assms by (simp add: small_def maxInt32_def)
  ultimately obtain bw where "writeSequence (length xs) (\<lambda>i. WriteInt32 (xs ! i)) (NewBinaryOutputStream n) = Inr bw"
    "Data bw = ?e"
    "readSlice (\<lambda>_. ReadInt32) (NewBinaryInputStream (Data bw) 0) = Inr (xs, \<lparr>ibuf = ?e, ioff = 0, ipos = length ?e\<rparr>)"
    using i32.seq.message [of xs n] assms by auto
  moreover have "mem32 = (\<lambda>v. to_le 4 (unat v))" by (rule ext) (simp add: mem32_def)
  ultimately show ?thesis using len by simp
qed

theorem int_sequence_roundtrip_witness:
  "\<exists>bw. writeSequence 3 (\<lambda>i. WriteInt32 ([1, - 2, 0x7FFFFFFF] ! i)) (NewBinaryOutputStream 2) = Inr bw \<and>
    readSlice (\<lambda>_. ReadInt32) (NewBinaryInputStream (Data bw) 0)
      = Inr ([1, - 2, 0x7FFFFFFF], \<lparr>ibuf = Data bw, ioff = 0, ipos = 16\<rparr>)"
  using int_sequence_roundtrip [of "[1, - 2, 0x7FFFFFFF]" 2] by (auto simp: maxInt32_def numeral_3_eq_3)

text \<open>The memory copy of the slice writers is the loop over the elements that the code keeps
  for big-endian machines: on a stream of any content, a slice that is not empty gives the same
  stream (or the same panic when the buffer would pass the limit of int32), for each element
  width. An empty slice panics, because the copy takes the address of its first element.\<close>

theorem slice_copy_is_loop:
  assumes "wf_out bw"
  shows "(v16 \<noteq> [] \<longrightarrow> WriteInt16Slice v16 bw = seqW (map WriteInt16 v16) bw) \<and>
    (v32 \<noteq> [] \<longrightarrow> WriteInt32Slice v32 bw = seqW (map WriteInt32 v32) bw) \<and>
    (v64 \<noteq> [] \<longrightarrow> WriteInt64Slice v64 bw = seqW (map WriteInt64 v64) bw) \<and>
    WriteInt16Slice [] bw = Inl Panic \<and> WriteInt32Slice [] bw = Inl Panic \<and> WriteInt64Slice [] bw = Inl Panic"
proof -
  have loop: "writes (seqW (map w xs)) (concat (map e xs))" if "\<And>x. writes (w x) (e x)"
    for w :: "'c \<Rightarrow> writer" and e xs
    using that by (induction xs) (simp_all add: wire)
  have eq: "f bw = g bw" if "writes f bs" and "writes g bs" for f g bs
    using that assms by (simp add: writes_def)
  have 1: "v16 \<noteq> [] \<Longrightarrow> WriteInt16Slice v16 bw = seqW (map WriteInt16 v16) bw"
    by (rule eq, erule writes_slices, rule loop) (simp add: wire mem16_def)
  have 2: "v32 \<noteq> [] \<Longrightarrow> WriteInt32Slice v32 bw = seqW (map WriteInt32 v32) bw"
    by (rule eq, erule writes_slices, rule loop) (simp add: wire mem32_def)
  have 3: "v64 \<noteq> [] \<Longrightarrow> WriteInt64Slice v64 bw = seqW (map WriteInt64 v64) bw"
    by (rule eq, erule writes_slices, rule loop) (simp add: wire mem64_def)
  show ?thesis
    using assms 1 2 3 by (simp add: WriteInt16Slice_def WriteInt32Slice_def WriteInt64Slice_def writeSlice_def
        getNativeEndian_always fast_empty)
qed

theorem slice_copy_is_loop_witness:
  "WriteInt32Slice [7, 8] (NewBinaryOutputStream 1) = seqW (map WriteInt32 [7, 8]) (NewBinaryOutputStream 1) \<and>
   WriteInt32Slice [] (NewBinaryOutputStream 1) = Inl Panic"
  using slice_copy_is_loop [OF wf_out_New, where ?v32.0 = "[7, 8]"] by simp

end
