(* ===== verification/Primitives.thy ===== *)
theory Primitives
  imports Wire
begin

text \<open>
  The leaf encodings of marshaller.go: type codes, strings, byte arrays, UUIDs, dates, times,
  timestamps, decimals, class descriptors and the arrays of nullable elements. A UUID is its
  16 bytes. time.Time is the instant: seconds since the epoch and nanoseconds of the second.
  The package of arbitrary-precision decimals is not part of the repository: a record of the
  functions the code calls is a parameter, and \<open>apd_ok\<close> states what they are documented to do.
\<close>

section \<open>Type codes\<close>

datatype TypeDesc =
    optimizedMarshallerObjectType | objectType | unregisteredType
  | ByteType | ShortType | IntType | LongType | FloatType | DoubleType | CharType | BoolType
  | StringType | UuidType | DateType
  | ByteArrayType | ShortArrayType | IntArrayType | LongArrayType | FloatArrayType
  | DoubleArrayType | CharArrayType | BoolArrayType | StringArrayType | UuidArrayType
  | DateArrayType | ObjectArrayType | CollectionType | MapType | wrappedObjectType
  | EnumType | EnumArrayType | DecimalType | DecimalArrayType | ClassType | TimestampType
  | TimestampArrayType | proxyType | TimeType | TimeArrayType | BinaryEnumType | NullType
  | handleType | BinaryObjectType

fun typeCode :: "TypeDesc \<Rightarrow> byte" where
  "typeCode optimizedMarshallerObjectType = - 2"
| "typeCode objectType = - 1"
| "typeCode unregisteredType = 0"
| "typeCode ByteType = 1"
| "typeCode ShortType = 2"
| "typeCode IntType = 3"
| "typeCode LongType = 4"
| "typeCode FloatType = 5"
| "typeCode DoubleType = 6"
| "typeCode CharType = 7"
| "typeCode BoolType = 8"
| "typeCode StringType = 9"
| "typeCode UuidType = 10"
| "typeCode DateType = 11"
| "typeCode ByteArrayType = 12"
| "typeCode ShortArrayType = 13"
| "typeCode IntArrayType = 14"
| "typeCode LongArrayType = 15"
| "typeCode FloatArrayType = 16"
| "typeCode DoubleArrayType = 17"
| "typeCode CharArrayType = 18"
| "typeCode BoolArrayType = 19"
| "typeCode StringArrayType = 20"
| "typeCode UuidArrayType = 21"
| "typeCode DateArrayType = 22"
| "typeCode ObjectArrayType = 23"
| "typeCode CollectionType = 24"
| "typeCode MapType = 25"
| "typeCode wrappedObjectType = 27"
| "typeCode EnumType = 28"
| "typeCode EnumArrayType = 29"
| "typeCode DecimalType = 30"
| "typeCode DecimalArrayType = 31"
| "typeCode ClassType = 32"
| "typeCode TimestampType = 33"
| "typeCode TimestampArrayType = 34"
| "typeCode proxyType = 35"
| "typeCode TimeType = 36"
| "typeCode TimeArrayType = 37"
| "typeCode BinaryEnumType = 38"
| "typeCode NullType = 101"
| "typeCode handleType = 102"
| "typeCode BinaryObjectType = 103"

definition allTypes :: "TypeDesc list" where
  "allTypes = [optimizedMarshallerObjectType, objectType, unregisteredType,
    ByteType, ShortType, IntType, LongType, FloatType, DoubleType, CharType, BoolType,
    StringType, UuidType, DateType,
    ByteArrayType, ShortArrayType, IntArrayType, LongArrayType, FloatArrayType,
    DoubleArrayType, CharArrayType, BoolArrayType, StringArrayType, UuidArrayType,
    DateArrayType, ObjectArrayType, CollectionType, MapType, wrappedObjectType,
    EnumType, EnumArrayType, DecimalType, DecimalArrayType, ClassType, TimestampType,
    TimestampArrayType, proxyType, TimeType, TimeArrayType, BinaryEnumType, NullType,
    handleType, BinaryObjectType]"

text \<open>The named constant a byte from the wire is equal to, if there is one.\<close>

definition typeOf :: "byte \<Rightarrow> TypeDesc option" where
  "typeOf b = find (\<lambda>t. typeCode t = b) allTypes"

lemma typeOf_typeCode [simp]: "typeOf (typeCode t) = Some t"
  by (cases t) (simp_all add: typeOf_def allTypes_def)

lemma typeCode_inject [simp]: "typeCode s = typeCode t \<longleftrightarrow> s = t"
  by (metis option.inject typeOf_typeCode)

declare typeCode.simps [simp del]

definition WriteType :: "TypeDesc \<Rightarrow> writer" where
  "WriteType typ = WriteInt8 (typeCode typ)"

definition WriteNull :: writer where
  "WriteNull = WriteType NullType"

definition IsNull :: "bool reader" where
  "IsNull = (\<lambda>br. if ipos br < length (ibuf br)
     then if ibuf br ! ipos br = typeCode NullType
          then Inr (True, br\<lparr>ipos := ipos br + byteBytes\<rparr>) else Inr (False, br)
     else Inl Panic)"

lemma writes_type [wire]: "writes (WriteType t) [typeCode t]" "writes WriteNull [typeCode NullType]"
  by (simp_all add: WriteType_def WriteNull_def wire)

text \<open>Errors that name a type show its number here; the code prints its Go name.\<close>

definition unexpectedType :: "byte \<Rightarrow> gerror" where
  "unexpectedType t = ErrMsg ''unexpected type in stream''"

definition checkNotNull :: "TypeDesc \<Rightarrow> bool reader" where
  "checkNotNull expected =
     bindR (ensureAvailable (int byteBytes)) (\<lambda>_.
     bindR ReadInt8 (\<lambda>t.
       if t = typeCode NullType then returnR False
       else if t = typeCode expected then returnR True
       else failR (unexpectedType t)))"

section \<open>Strings and byte arrays\<close>

definition writeString :: "string \<Rightarrow> writer" where
  "writeString val =
     (let bytes = bytes_of_string val
      in seqW [WriteInt32 (word_of_nat (length bytes)), WriteBytes bytes])"

definition marshalString :: "string \<Rightarrow> writer" where
  "marshalString val = seqW [WriteType StringType, writeString val]"

definition marshalEmptyStringAsNull :: "string \<Rightarrow> writer" where
  "marshalEmptyStringAsNull val = (if length val = 0 then WriteNull else marshalString val)"

definition marshalByteArray :: "byte list option \<Rightarrow> writer" where
  "marshalByteArray val = (case val of None \<Rightarrow> WriteNull
     | Some v \<Rightarrow> seqW [WriteType ByteArrayType, WriteInt32 (word_of_nat (length v)), WriteBytes v])"

definition readByteArray :: "byte list reader" where
  "readByteArray =
     bindR (ensureAvailable (int intBytes)) (\<lambda>_.
     bindR ReadInt32 (\<lambda>bytesSz.
     bindR (ensureAvailable (sint bytesSz)) (\<lambda>_.
       ReadBytes (sint bytesSz))))"

definition unmarshalByteArray :: "byte list option reader" where
  "unmarshalByteArray = bindR (checkNotNull ByteArrayType) (\<lambda>isNotNull.
     if isNotNull then bindR readByteArray (\<lambda>v. returnR (Some v)) else returnR None)"

definition readString :: "string reader" where
  "readString =
     bindR (ensureAvailable (int intBytes)) (\<lambda>_.
     bindR ReadInt32 (\<lambda>strSz.
     bindR (ensureAvailable (sint strSz)) (\<lambda>_.
     bindR (ReadBytes (sint strSz)) (\<lambda>bytes.
       returnR (string_of_bytes bytes)))))"

definition unmarshalString :: "string reader" where
  "unmarshalString = bindR (checkNotNull StringType) (\<lambda>isNotNull.
     if isNotNull then readString else returnR [])"

section \<open>UUID, date, time, timestamp\<close>

type_synonym uuid = "byte list"

definition be64 :: "byte list \<Rightarrow> i64" where
  "be64 bs = word_of_nat (of_le (rev bs))"

definition putBe64 :: "i64 \<Rightarrow> byte list" where
  "putBe64 v = rev (to_le 8 (unat v))"

definition writeUuid :: "uuid \<Rightarrow> writer" where
  "writeUuid val = seqW [WriteUInt64 (be64 (take 8 val)), WriteUInt64 (be64 (drop 8 val))]"

definition marshalUuid :: "uuid option \<Rightarrow> writer" where
  "marshalUuid val = (case val of None \<Rightarrow> WriteNull
     | Some u \<Rightarrow> seqW [WriteType UuidType,
         WriteUInt64 (be64 (take 8 u)), WriteUInt64 (be64 (drop 8 u))])"

definition nilUuid :: uuid where "nilUuid = replicate 16 0"

definition readUuid :: "uuid reader" where
  "readUuid =
     bindR (ensureAvailable (2 * int longBytes)) (\<lambda>_.
     bindR ReadUInt64 (\<lambda>hi. bindR ReadUInt64 (\<lambda>lo. returnR (putBe64 hi @ putBe64 lo))))"

definition unmarshalUuid :: "uuid reader" where
  "unmarshalUuid = bindR (checkNotNull UuidType) (\<lambda>isNotNull.
     if isNotNull then readUuid else returnR nilUuid)"

definition writeDate :: "i64 \<Rightarrow> writer" where
  "writeDate val = WriteInt64 val"

definition writeTime :: "i64 \<Rightarrow> writer" where
  "writeTime val = WriteInt64 val"

definition readTime :: "i64 reader" where
  "readTime = bindR (ensureAvailable (int longBytes)) (\<lambda>_. ReadInt64)"

definition readDate :: "i64 reader" where
  "readDate = bindR (ensureAvailable (int longBytes)) (\<lambda>_. ReadInt64)"

record gotime =
  unixSec :: i64
  unixNsec :: int

text \<open>time.Unix carries the nanoseconds outside [0, 10^9) over to the seconds.\<close>

definition timeUnix :: "i64 \<Rightarrow> int \<Rightarrow> gotime" where
  "timeUnix sec nsec =
     \<lparr>unixSec = sec + word_of_int (nsec div 1000000000), unixNsec = nsec mod 1000000000\<rparr>"

definition writeTimestamp :: "gotime \<Rightarrow> writer" where
  "writeTimestamp val =
     (let millis = unixSec val * 1000;
          nanos = unixNsec val;
          millis = millis + word_of_int (nanos div 1000000);
          nanos = nanos mod 1000000
      in seqW [WriteInt64 millis, WriteInt32 (word_of_int nanos)])"

definition readTimestamp :: "gotime reader" where
  "readTimestamp =
     bindR (ensureAvailable (int (intBytes + longBytes))) (\<lambda>_.
     bindR ReadInt64 (\<lambda>millis.
     bindR ReadInt32 (\<lambda>n.
       let nanos = n + word_of_int ((sint millis smod 1000) * 1000000)
       in returnR (timeUnix (word_of_int (sint millis sdiv 1000)) (sint nanos)))))"

section \<open>Decimals\<close>

text \<open>
  The parts of the decimal package the code uses: the fields Exponent and Negative, the
  big-endian bytes of the coefficient (Coeff.Bytes), and the construction of a decimal from
  bytes, a sign and an exponent (SetBytes, Neg, NewWithBigInt).
\<close>

record 'd apd =
  apdExponent :: "'d \<Rightarrow> i32"
  apdNegative :: "'d \<Rightarrow> bool"
  apdCoeffBytes :: "'d \<Rightarrow> byte list"
  apdNewWithBigInt :: "bool \<Rightarrow> byte list \<Rightarrow> i32 \<Rightarrow> 'd"

text \<open>
  The documented behaviour: a finite decimal that is not a negative zero is rebuilt from its
  parts, and a leading zero byte does not change the number.
\<close>

definition apd_ok :: "'d apd \<Rightarrow> ('d \<Rightarrow> bool) \<Rightarrow> bool" where
  "apd_ok A finite_dec \<longleftrightarrow>
     (\<forall>d. finite_dec d \<and> (apdNegative A d \<longrightarrow> apdCoeffBytes A d \<noteq> []) \<longrightarrow>
        apdNewWithBigInt A (apdNegative A d) (apdCoeffBytes A d) (apdExponent A d) = d) \<and>
     (\<forall>neg bs e. apdNewWithBigInt A neg (0 # bs) e = apdNewWithBigInt A neg bs e)"

definition coeffField :: "bool \<Rightarrow> byte list \<Rightarrow> byte list" where
  "coeffField negative coeff =
     (let coeff = (if coeff = [] \<or> hd coeff > 0x7F then 0 # coeff else coeff)
      in if negative then (hd coeff OR 0x80) # tl coeff else coeff)"

definition writeDecimal :: "'d apd \<Rightarrow> 'd \<Rightarrow> writer" where
  "writeDecimal A val =
     (let coeff = coeffField (apdNegative A val) (apdCoeffBytes A val)
      in seqW [WriteInt32 (- apdExponent A val), WriteInt32 (word_of_nat (length coeff)), WriteBytes coeff])"

definition readDecimal :: "'d apd \<Rightarrow> 'd reader" where
  "readDecimal A =
     bindR (ensureAvailable (int intBytes)) (\<lambda>_.
     bindR ReadInt32 (\<lambda>scale.
     bindR ReadInt32 (\<lambda>coefSz.
       if coefSz = 0 then failR (ErrMsg ''invalid coef value: empty'')
       else bindR (ReadBytes (sint coefSz)) (\<lambda>coefData.
         let negative = (hd coefData AND 0x80 = 0x80);
             coefData = (if negative then (hd coefData AND 0x7F) # tl coefData else coefData)
         in returnR (apdNewWithBigInt A negative coefData (- scale))))))"

section \<open>Class descriptors\<close>

record igniteType =
  itypeId :: i32
  itypeName :: string

definition unregisteredId :: i32 where "unregisteredId = 0"

definition writeClass :: "igniteType \<Rightarrow> writer" where
  "writeClass cls =
     thenW (WriteInt32 (itypeId cls))
       (if itypeId cls = unregisteredId then marshalString (itypeName cls) else skipW)"

definition readClass :: "igniteType reader" where
  "readClass =
     bindR (ensureAvailable (int intBytes)) (\<lambda>_.
     bindR ReadInt32 (\<lambda>typeId.
       if typeId = unregisteredId
       then (\<lambda>br. case unmarshalString br of
               Inl (Fail e) \<Rightarrow> Inl (Fail (ErrWrap ''failed to read className'' e))
             | Inl f \<Rightarrow> Inl f
             | Inr (name, br') \<Rightarrow> Inr (\<lparr>itypeId = typeId, itypeName = name\<rparr>, br'))
       else returnR \<lparr>itypeId = typeId, itypeName = []\<rparr>))"

section \<open>Arrays of nullable elements\<close>

definition readIgniteTypedArray :: "TypeDesc \<Rightarrow> 'a reader \<Rightarrow> 'a option list reader" where
  "readIgniteTypedArray elType elemReader =
     readSlice (\<lambda>_. bindR (checkNotNull elType) (\<lambda>isNotNull.
       if isNotNull then bindR elemReader (\<lambda>x. returnR (Some x)) else returnR None))"

definition writeIgniteTypedArrayP :: "TypeDesc \<Rightarrow> 'a option list \<Rightarrow> ('a \<Rightarrow> writer) \<Rightarrow> writer" where
  "writeIgniteTypedArrayP elType arr elemWriter =
     writeSequence (length arr) (\<lambda>idx.
       case arr ! idx of None \<Rightarrow> WriteNull | Some el \<Rightarrow> thenW (WriteType elType) (elemWriter el))"

definition writeIgniteTypedArray :: "TypeDesc \<Rightarrow> 'a list \<Rightarrow> ('a \<Rightarrow> writer) \<Rightarrow> writer" where
  "writeIgniteTypedArray elType arr elemWriter =
     writeSequence (length arr) (\<lambda>idx. thenW (WriteType elType) (elemWriter (arr ! idx)))"

end
