(* ===== verification/PrimCodecs.thy ===== *)
theory PrimCodecs
  imports Primitives
begin

text \<open>
  The encodings of the leaf values and the proofs that the writers and readers of
  \<open>Primitives\<close> are codecs for them; the arrays of nullable elements are built from any codec
  by a locale that extends the contract.
\<close>

section \<open>Encodings\<close>

definition encStr :: "string \<Rightarrow> byte list" where
  "encStr s = lenBytes (length s) @ bytes_of_string s"

definition encBytes :: "byte list \<Rightarrow> byte list" where
  "encBytes v = lenBytes (length v) @ v"

definition encUuid :: "uuid \<Rightarrow> byte list" where
  "encUuid u = rev (take 8 u) @ rev (drop 8 u)"

definition encI64 :: "i64 \<Rightarrow> byte list" where
  "encI64 v = to_le 8 (unat v)"

definition encI32 :: "i32 \<Rightarrow> byte list" where
  "encI32 v = to_le 4 (unat v)"

definition encI16 :: "i16 \<Rightarrow> byte list" where
  "encI16 v = to_le 2 (unat v)"

definition encTimestamp :: "gotime \<Rightarrow> byte list" where
  "encTimestamp t =
     encI64 (unixSec t * 1000 + word_of_int (unixNsec t div 1000000)) @
     encI32 (word_of_int (unixNsec t mod 1000000))"

definition encDecimal :: "'d apd \<Rightarrow> 'd \<Rightarrow> byte list" where
  "encDecimal A d = encI32 (- apdExponent A d) @ encBytes (coeffField (apdNegative A d) (apdCoeffBytes A d))"

definition encClass :: "igniteType \<Rightarrow> byte list" where
  "encClass c = encI32 (itypeId c) @
     (if itypeId c = unregisteredId then typeCode StringType # encStr (itypeName c) else [])"

definition encNullable :: "TypeDesc \<Rightarrow> ('a \<Rightarrow> byte list) \<Rightarrow> 'a option \<Rightarrow> byte list" where
  "encNullable t enc x = (case x of None \<Rightarrow> [typeCode NullType] | Some y \<Rightarrow> typeCode t # enc y)"

lemma writes_i64 [wire]: "writes (WriteInt64 v) (encI64 v)" "writes (WriteUInt64 v) (encI64 v)"
  by (simp_all add: encI64_def wire)

lemma writes_i32 [wire]: "writes (WriteInt32 v) (encI32 v)" "writes (WriteUInt32 v) (encI32 v)"
  by (simp_all add: encI32_def wire)

lemma writes_i16 [wire]: "writes (WriteInt16 v) (encI16 v)" "writes (WriteUInt16 v) (encI16 v)"
  by (simp_all add: encI16_def wire)

lemma reads_words [wire]:
  "reads ReadInt64 (encI64 v) v" "reads ReadUInt64 (encI64 v) v"
  "reads ReadInt32 (encI32 w) w" "reads ReadUInt32 (encI32 w) w"
  "reads ReadInt16 (encI16 x) x" "reads ReadUInt16 (encI16 x) x"
  by (simp_all add: encI64_def encI32_def encI16_def wire)

lemma length_words [simp, enc_len]:
  "length (encI64 v) = 8" "length (encI32 w) = 4" "length (encI16 x) = 2"
  by (simp_all add: encI64_def encI32_def encI16_def)

section \<open>Writers\<close>

lemma writes_writeString [wire]: "writes (writeString s) (encStr s)"
  unfolding writeString_def Let_def encStr_def
  by (rule writes_cong, rule writes_seq_Cons [OF writes_len], rule writes_seq_Cons [OF writes_WriteBytes],
      rule writes_seq_Nil) simp

lemma writes_marshalString [wire]: "writes (marshalString s) (typeCode StringType # encStr s)"
  unfolding marshalString_def
  by (rule writes_cong, rule writes_seq_Cons [OF writes_type(1)],
      rule writes_seq_Cons [OF writes_writeString], rule writes_seq_Nil) simp

lemma writes_lenBytes_bytes: "writes (seqW [WriteInt32 (word_of_nat (length v)), WriteBytes v]) (encBytes v)"
  unfolding encBytes_def
  by (rule writes_cong, rule writes_seq_Cons [OF writes_len], rule writes_seq_Cons [OF writes_WriteBytes],
      rule writes_seq_Nil) simp

lemma writes_marshalByteArray [wire]: "writes (marshalByteArray (Some v)) (typeCode ByteArrayType # encBytes v)"
  unfolding marshalByteArray_def option.case encBytes_def
  by (rule writes_cong, rule writes_seq_Cons [OF writes_type(1)], rule writes_seq_Cons [OF writes_len],
      rule writes_seq_Cons [OF writes_WriteBytes], rule writes_seq_Nil) simp

lemma be64_enc: "length bs = 8 \<Longrightarrow> encI64 (be64 bs) = rev bs"
proof -
  assume "length bs = 8"
  then have "unat (word_of_nat (of_le (rev bs)) :: i64) = of_le (rev bs)"
    by (intro unat_of_le) simp
  then show ?thesis using \<open>length bs = 8\<close> by (simp add: encI64_def be64_def)
qed

lemma putBe64_be64: "length bs = 8 \<Longrightarrow> putBe64 (be64 bs) = bs"
  using be64_enc [of bs] by (simp add: putBe64_def encI64_def)

lemma writes_writeUuid [wire]: "length u = 16 \<Longrightarrow> writes (writeUuid u) (encUuid u)"
  unfolding writeUuid_def encUuid_def
  by (rule writes_cong, rule writes_seq_Cons [OF writes_i64(2)], rule writes_seq_Cons [OF writes_i64(2)],
      rule writes_seq_Nil) (simp add: be64_enc)

lemma writes_writeTimestamp [wire]: "writes (writeTimestamp t) (encTimestamp t)"
  unfolding writeTimestamp_def Let_def encTimestamp_def
  by (rule writes_cong, rule writes_seq_Cons [OF writes_i64(1)], rule writes_seq_Cons [OF writes_i32(1)],
      rule writes_seq_Nil) simp

lemma writes_writeDecimal [wire]: "writes (writeDecimal A d) (encDecimal A d)"
  unfolding writeDecimal_def Let_def encDecimal_def encBytes_def
  by (rule writes_cong, rule writes_seq_Cons [OF writes_i32(1)], rule writes_seq_Cons [OF writes_len],
      rule writes_seq_Cons [OF writes_WriteBytes], rule writes_seq_Nil) simp

lemma writes_writeClass [wire]: "writes (writeClass c) (encClass c)"
  unfolding writeClass_def encClass_def
  by (intro writes_then writes_i32 writes_if writes_marshalString writes_skip)

section \<open>Readers\<close>

lemma reads_checkNotNull [wire]:
  "t \<noteq> NullType \<Longrightarrow> reads (checkNotNull t) [typeCode t] True"
  "reads (checkNotNull t) [typeCode NullType] False"
proof -
  let ?k = "\<lambda>b. if b = typeCode NullType then returnR False
    else if b = typeCode t then returnR True else failR (unexpectedType b)"
  have "reads (bindR ReadInt8 ?k) ([typeCode t] @ []) True" if "t \<noteq> NullType"
    using that by (intro reads_bind [OF reads_prims(2)]) (simp add: reads_return)
  then show "t \<noteq> NullType \<Longrightarrow> reads (checkNotNull t) [typeCode t] True"
    unfolding checkNotNull_def by (intro reads_ensure) (simp_all add: size_defs)
  have "reads (bindR ReadInt8 ?k) ([typeCode NullType] @ []) False"
    by (intro reads_bind [OF reads_prims(2)]) (simp add: reads_return)
  then show "reads (checkNotNull t) [typeCode NullType] False"
    unfolding checkNotNull_def by (intro reads_ensure) (simp_all add: size_defs)
qed

lemma reads_lenBody:
  assumes "small (length bs)" and "reads (r (int (length bs))) bs x"
  shows "reads (bindR (ensureAvailable (int intBytes)) (\<lambda>_. bindR ReadInt32 (\<lambda>sz.
     bindR (ensureAvailable (sint sz)) (\<lambda>_. r (sint sz))))) (lenBytes (length bs) @ bs) x"
  using assms
  by (intro reads_ensure reads_bind [OF reads_len]) (simp_all add: size_defs sint_small reads_ensure)

lemma reads_readByteArray [wire]: "small (length v) \<Longrightarrow> reads readByteArray (encBytes v) v"
  unfolding readByteArray_def encBytes_def by (rule reads_lenBody) (simp_all add: reads_ReadBytes)

lemma reads_readString [wire]: "small (length s) \<Longrightarrow> reads readString (encStr s) s"
proof -
  assume "small (length s)"
  then have "reads readString (lenBytes (length (bytes_of_string s)) @ bytes_of_string s)
      (string_of_bytes (bytes_of_string s))"
    unfolding readString_def
    by (intro reads_lenBody [where r = "\<lambda>n. bindR (ReadBytes n) (\<lambda>bytes. returnR (string_of_bytes bytes))"])
       (simp_all only: length_bytes_of_string reads_bind_return reads_ReadBytes)
  then show ?thesis by (simp add: encStr_def)
qed

lemma reads_unmarshalString [wire]:
  "small (length s) \<Longrightarrow> reads unmarshalString (typeCode StringType # encStr s) s"
  "reads unmarshalString [typeCode NullType] []"
  unfolding unmarshalString_def
  by (rule reads_cong [OF reads_bind [OF reads_checkNotNull(1)]], simp_all add: reads_readString)
     (rule reads_cong [OF reads_bind [OF reads_checkNotNull(2)]], simp_all add: reads_return)

lemma reads_unmarshalByteArray: "small (length v) \<Longrightarrow> reads unmarshalByteArray (typeCode ByteArrayType # encBytes v) (Some v)"
  unfolding unmarshalByteArray_def
  by (rule reads_cong [OF reads_bind [OF reads_checkNotNull(1)]], simp_all)
     (rule reads_bind_return [OF reads_readByteArray])

lemma reads_readUuid [wire]: "length u = 16 \<Longrightarrow> reads readUuid (encUuid u) u"
proof -
  assume u: "length u = 16"
  have hi: "reads ReadUInt64 (rev (take 8 u)) (be64 (take 8 u))"
    using reads_words(2) [of "be64 (take 8 u)"] u by (simp add: be64_enc)
  have lo: "reads ReadUInt64 (rev (drop 8 u)) (be64 (drop 8 u))"
    using reads_words(2) [of "be64 (drop 8 u)"] u by (simp add: be64_enc)
  have "reads readUuid (rev (take 8 u) @ rev (drop 8 u)) (putBe64 (be64 (take 8 u)) @ putBe64 (be64 (drop 8 u)))"
    unfolding readUuid_def
    by (rule reads_ensure, simp add: u size_defs)
       (rule reads_bind [OF hi], rule reads_bind_return [OF lo])
  then show ?thesis using u by (simp add: encUuid_def putBe64_be64)
qed

lemma reads_unmarshalUuid: "length u = 16 \<Longrightarrow> reads unmarshalUuid (typeCode UuidType # encUuid u) u"
  unfolding unmarshalUuid_def
  by (rule reads_cong [OF reads_bind [OF reads_checkNotNull(1)]], simp_all add: reads_readUuid)

lemma reads_readDate [wire]: "reads readDate (encI64 v) v" "reads readTime (encI64 v) v"
  unfolding readDate_def readTime_def by (rule reads_ensure, simp_all add: size_defs wire)+

text \<open>A class descriptor keeps its name only when its id says the type is not registered.\<close>

definition canonClass :: "igniteType \<Rightarrow> igniteType" where
  "canonClass c = \<lparr>itypeId = itypeId c, itypeName = (if itypeId c = unregisteredId then itypeName c else [])\<rparr>"

lemma reads_readClass [wire]: "small (length (itypeName c)) \<Longrightarrow> reads readClass (encClass c) (canonClass c)"
proof -
  assume s: "small (length (itypeName c))"
  let ?un = "\<lambda>typeId br. case unmarshalString br of
               Inl (Fail e) \<Rightarrow> Inl (Fail (ErrWrap ''failed to read className'' e))
             | Inl f \<Rightarrow> Inl f
             | Inr (name, br') \<Rightarrow> Inr (\<lparr>itypeId = typeId, itypeName = name\<rparr>, br')"
  have "reads (?un (itypeId c)) (typeCode StringType # encStr (itypeName c))
      \<lparr>itypeId = itypeId c, itypeName = itypeName c\<rparr>"
    using reads_unmarshalString(1) [OF s] by (simp add: reads_def)
  then show ?thesis
    unfolding readClass_def encClass_def
    by (intro reads_ensure reads_bind [OF reads_words(3)])
       (auto simp: size_defs canonClass_def reads_return)
qed

section \<open>Timestamps\<close>

text \<open>
  An instant whose milliseconds fit a signed 64-bit integer comes back unchanged, before the
  epoch as well: the code's truncating division and remainder give a negative remainder there,
  which time.Unix carries back into the seconds.
\<close>

definition valid_time :: "gotime \<Rightarrow> bool" where
  "valid_time t \<longleftrightarrow> 0 \<le> unixNsec t \<and> unixNsec t < 1000000000 \<and>
     - (2 ^ 63) \<le> sint (unixSec t) * 1000 \<and> sint (unixSec t) * 1000 + 999 < 2 ^ 63"

lemma trunc_millis:
  fixes s n k m :: int
  assumes k: "k = n div 1000000" and n: "0 \<le> n" "n < 1000000000" and m: "m = s * 1000 + k"
  shows "(m sdiv 1000) + (n mod 1000000 + (m smod 1000) * 1000000) div 1000000000 = s"
    and "(n mod 1000000 + (m smod 1000) * 1000000) mod 1000000000 = n"
    and "- 1000000000 < n mod 1000000 + (m smod 1000) * 1000000"
    and "n mod 1000000 + (m smod 1000) * 1000000 < 1000000000"
proof -
  have kb: "0 \<le> k" "k \<le> 999" using n k by auto
  have nk: "n = n mod 1000000 + k * 1000000" using k by simp
  have r: "0 \<le> n mod 1000000" "n mod 1000000 < 1000000" by simp_all
  have cases: "(m smod 1000 = k \<and> m sdiv 1000 = s) \<or>
      (m smod 1000 = k - 1000 \<and> m sdiv 1000 = s + 1 \<and> 1 \<le> k)"
  proof (cases "0 \<le> m \<or> k = 0")
    case True
    then show ?thesis
    proof
      assume p: "0 \<le> m"
      have "m div 1000 = s" "m mod 1000 = k" using kb m by simp_all
      then show ?thesis using p by (cases "m = 0") (auto simp: signed_divide_int_def signed_modulo_int_def sgn_if)
    next
      assume "k = 0"
      then have "m = s * 1000" using m by simp
      then show ?thesis using \<open>k = 0\<close>
        by (auto simp: signed_divide_int_def signed_modulo_int_def sgn_if abs_if)
    qed
  next
    case False
    then have neg: "m < 0" and k0: "k \<noteq> 0" by auto
    have "- m = (- s - 1) * 1000 + (1000 - k)" using m by simp
    then have d: "(- m) div 1000 = - s - 1" "(- m) mod 1000 = 1000 - k"
      using kb k0 int_div_pos_eq [of "- m" 1000 "- s - 1" "1000 - k"]
        int_mod_pos_eq [of "- m" 1000 "- s - 1" "1000 - k"] by (simp_all add: algebra_simps)
    then show ?thesis
      using neg kb k0 by (simp add: signed_divide_int_def signed_modulo_int_def sgn_if)
  qed
  let ?y = "n mod 1000000 + (k - 1000) * 1000000"
  have y: "?y = 1000000000 * (- 1) + n" using nk by simp
  have e: "?y div 1000000000 = - 1" "?y mod 1000000000 = n"
    by (rule int_div_pos_eq [OF y n], rule int_mod_pos_eq [OF y n])
  from cases show "(m sdiv 1000) + (n mod 1000000 + (m smod 1000) * 1000000) div 1000000000 = s"
    using e(1) nk n by auto
  from cases show "(n mod 1000000 + (m smod 1000) * 1000000) mod 1000000000 = n"
    using e(2) nk n by auto
  from cases show "- 1000000000 < n mod 1000000 + (m smod 1000) * 1000000"
    using kb r by auto
  from cases show "n mod 1000000 + (m smod 1000) * 1000000 < 1000000000"
    using kb r by auto
qed

lemma reads_readTimestamp [wire]: "valid_time t \<Longrightarrow> reads readTimestamp (encTimestamp t) t"
proof -
  assume v: "valid_time t"
  let ?s = "sint (unixSec t)" and ?n = "unixNsec t"
  let ?m = "?s * 1000 + ?n div 1000000"
  let ?w = "unixSec t * 1000 + word_of_int (?n div 1000000) :: i64"
  let ?x = "?n mod 1000000 + (?m smod 1000) * 1000000"
  have n: "0 \<le> ?n" "?n < 1000000000" using v by (simp_all add: valid_time_def)
  then have k: "0 \<le> ?n div 1000000" "?n div 1000000 \<le> 999" by auto
  note T = trunc_millis [OF refl n refl, of ?s]
  have w: "?w = word_of_int ?m" by simp
  have "- (2 ^ 63) \<le> ?m" "?m < 2 ^ 63" using v k by (simp_all add: valid_time_def)
  then have sw: "sint ?w = ?m"
    unfolding w by (subst signed_of_int) (simp add: signed_take_bit_int_eq_self)
  have x: "sint (word_of_int (?n mod 1000000) + word_of_int ((sint ?w smod 1000) * 1000000) :: i32) = ?x"
  proof -
    have "(word_of_int (?n mod 1000000) + word_of_int ((sint ?w smod 1000) * 1000000) :: i32) = word_of_int ?x"
      unfolding sw by simp
    then show ?thesis
      using T(3,4) by (simp only: signed_of_int) (simp add: signed_take_bit_int_eq_self)
  qed
  let ?k = "\<lambda>millis n. let nanos = n + word_of_int ((sint millis smod 1000) * 1000000)
       in returnR (timeUnix (word_of_int (sint millis sdiv 1000)) (sint (nanos :: i32)))"
  have "timeUnix (word_of_int (sint ?w sdiv 1000)) ?x = t"
  proof -
    have "word_of_int (sint ?w sdiv 1000) + word_of_int (?x div 1000000000) = (word_of_int ?s :: i64)"
      unfolding sw using T(1) by (metis wi_hom_add)
    then show ?thesis using T(2) by (simp add: timeUnix_def)
  qed
  then have "reads (?k ?w (word_of_int (?n mod 1000000))) [] t"
    unfolding Let_def x by (simp only: reads_return)
  then have "reads (bindR ReadInt64 (\<lambda>millis. bindR ReadInt32 (?k millis)))
      (encI64 ?w @ encI32 (word_of_int (?n mod 1000000)) @ []) t"
    by (intro reads_bind [OF reads_words(1)] reads_bind [OF reads_words(3)])
  then show ?thesis
    unfolding readTimestamp_def encTimestamp_def by (intro reads_ensure) (simp_all add: size_defs)
qed

section \<open>Decimals\<close>

lemma coeffField_nonempty: "coeffField neg bs \<noteq> []"
  by (auto simp: coeffField_def Let_def)

lemma bit_0x80: "bit (0x80 :: byte) n \<longleftrightarrow> n = 7"
proof -
  have "(0x80 :: byte) = push_bit 7 1" by simp
  then show ?thesis by (simp only: bit_push_bit_iff bit_1_iff) auto
qed

lemma bit_0x7F: "bit (0x7F :: byte) n \<longleftrightarrow> n < 7"
proof -
  have "(0x7F :: byte) = mask 7" by (simp add: mask_eq_exp_minus_1)
  then show ?thesis by (simp only: bit_mask_iff) auto
qed

lemma bit_7F_bound: "b \<le> 0x7F \<Longrightarrow> bit (b :: byte) n \<Longrightarrow> n < 7"
proof -
  assume le: "b \<le> 0x7F" and b: "bit b n"
  have "take_bit 7 b = b"
    using le by (intro word_unat_eq_iff [THEN iffD2])
      (simp add: unsigned_take_bit_eq take_bit_nat_eq_self word_le_nat_alt)
  with b show "n < 7" by (metis bit_take_bit_iff)
qed

lemma byte_bits:
  fixes b :: byte
  shows "b \<le> 0x7F \<Longrightarrow> b AND 0x80 = 0"
    and "(b OR 0x80) AND 0x80 = 0x80"
    and "b \<le> 0x7F \<Longrightarrow> (b OR 0x80) AND 0x7F = b"
proof -
  show "b AND 0x80 = 0" if "b \<le> 0x7F"
  proof (rule bit_eqI)
    fix n
    show "bit (b AND 0x80) n \<longleftrightarrow> bit (0 :: byte) n"
      unfolding bit_and_iff bit_0x80 using bit_7F_bound [OF that, of 7] by auto
  qed
  show "(b OR 0x80) AND 0x80 = 0x80"
    by (rule bit_eqI) (simp only: bit_and_iff bit_or_iff bit_0x80, blast)
  show "(b OR 0x80) AND 0x7F = b" if "b \<le> 0x7F"
  proof (rule bit_eqI)
    fix n
    show "bit ((b OR 0x80) AND 0x7F) n \<longleftrightarrow> bit b n"
      unfolding bit_and_iff bit_or_iff bit_0x80 bit_0x7F using bit_7F_bound [OF that, of n] by auto
  qed
qed

section \<open>Decimals\<close>

text \<open>
  A finite decimal other than a negative zero whose coefficient is not too long. The lemma
  needs no bound on the scale: negating the exponent twice is the identity also at the least
  32-bit integer.
\<close>

definition valid_dec :: "'d apd \<Rightarrow> ('d \<Rightarrow> bool) \<Rightarrow> 'd \<Rightarrow> bool" where
  "valid_dec A finite_dec d \<longleftrightarrow> finite_dec d \<and> (apdNegative A d \<longrightarrow> apdCoeffBytes A d \<noteq> []) \<and>
     small (length (apdCoeffBytes A d) + 1)"

lemma coeffField_cases:
  "\<exists>b bs. coeffField neg c = (if neg then b OR 0x80 else b) # bs \<and> b \<le> 0x7F \<and>
     (b # bs = c \<or> b # bs = 0 # c)"
proof (cases "c = [] \<or> hd c > 0x7F")
  case True
  then show ?thesis by (intro exI [of _ 0] exI [of _ c]) (auto simp: coeffField_def Let_def)
next
  case False
  then have "c \<noteq> []" "hd c \<le> 0x7F" by auto
  then show ?thesis
    by (intro exI [of _ "hd c"] exI [of _ "tl c"]) (auto simp: coeffField_def Let_def)
qed

lemma coeff_sign:
  assumes "apd_ok A fin" and "c = coeffField neg d" and "neg \<longrightarrow> d \<noteq> []"
  shows "c \<noteq> [] \<and> ((hd c AND 0x80 = 0x80) = neg) \<and>
    apdNewWithBigInt A neg (if neg then (hd c AND 0x7F) # tl c else c) e = apdNewWithBigInt A neg d e"
proof -
  obtain b bs where c: "c = (if neg then b OR 0x80 else b) # bs" and b: "b \<le> 0x7F"
    and d: "b # bs = d \<or> b # bs = 0 # d"
    using coeffField_cases [of neg d] assms(2) by auto
  have "apdNewWithBigInt A neg (b # bs) e = apdNewWithBigInt A neg d e"
    using d assms(1) by (auto simp: apd_ok_def)
  then show ?thesis
    unfolding c using b by (cases neg) (simp_all add: byte_bits)
qed

lemma length_coeffField: "length (coeffField neg c) \<le> length c + 1"
  by (simp add: coeffField_def Let_def)

lemma reads_readDecimal [wire]:
  assumes "apd_ok A fin" and "valid_dec A fin d"
  shows "reads (readDecimal A) (encDecimal A d) d"
proof -
  let ?neg = "apdNegative A d" and ?co = "apdCoeffBytes A d"
  let ?c = "coeffField ?neg ?co" and ?e = "apdExponent A d"
  have nz: "?neg \<longrightarrow> ?co \<noteq> []" and fin: "fin d" and sm: "small (length ?co + 1)"
    using assms(2) by (simp_all add: valid_dec_def)
  have S: "?c \<noteq> []" "(hd ?c AND 0x80 = 0x80) = ?neg"
    "apdNewWithBigInt A ?neg (if ?neg then (hd ?c AND 0x7F) # tl ?c else ?c) ?e = apdNewWithBigInt A ?neg ?co ?e"
    using coeff_sign [OF assms(1) refl nz, where e = ?e] by blast+
  have re: "apdNewWithBigInt A ?neg ?co ?e = d"
    using assms(1) fin nz by (simp add: apd_ok_def)
  have len: "small (length ?c)" using sm length_coeffField [of ?neg ?co] by (simp add: small_def)
  then have ln: "sint (word_of_nat (length ?c) :: i32) = int (length ?c)" by (rule sint_small)
  have nzl: "(word_of_nat (length ?c) :: i32) \<noteq> 0"
  proof
    assume "(word_of_nat (length ?c) :: i32) = 0"
    with ln have "int (length ?c) = 0" by simp
    with S(1) show False by simp
  qed
  let ?k = "\<lambda>coefData. let negative = (hd coefData AND 0x80 = 0x80);
             coefData = (if negative then (hd coefData AND 0x7F) # tl coefData else coefData)
         in apdNewWithBigInt A negative coefData (- (- ?e))"
  have "?k ?c = d" unfolding Let_def S(2) minus_minus S(3) re by (rule refl)
  then have "reads (bindR (ReadBytes (sint (word_of_nat (length ?c) :: i32))) (\<lambda>coefData. returnR (?k coefData))) ?c d"
    using reads_bind_return [OF reads_ReadBytes, where f = ?k and bs = ?c] by (simp only: ln)
  then have "reads (bindR (ReadBytes (sint (word_of_nat (length ?c) :: i32))) (\<lambda>coefData.
         let negative = (hd coefData AND 0x80 = 0x80);
             coefData = (if negative then (hd coefData AND 0x7F) # tl coefData else coefData)
         in returnR (apdNewWithBigInt A negative coefData (- (- ?e))))) ?c d"
    by (simp only: Let_def)
  then show ?thesis
    unfolding readDecimal_def encDecimal_def encBytes_def
    by (intro reads_ensure reads_bind [OF reads_words(3)] reads_bind [OF reads_len])
       (simp_all add: size_defs nzl)
qed

section \<open>The leaf codecs, and arrays of nullable elements\<close>

interpretation str: sequence_codec writeString readString encStr "\<lambda>s. s" "\<lambda>s. small (length s)"
  by unfold_locales (simp_all add: wire)

interpretation uu: sequence_codec writeUuid readUuid encUuid "\<lambda>u. u" "\<lambda>u. length u = 16"
  by unfold_locales (simp_all add: wire)

interpretation ts: sequence_codec writeTimestamp readTimestamp encTimestamp "\<lambda>t. t" valid_time
  by unfold_locales (simp_all add: wire)

interpretation cls: sequence_codec writeClass readClass encClass canonClass "\<lambda>c. small (length (itypeName c))"
  by unfold_locales (simp_all add: wire)

text \<open>
  A codec whose values never start with the code of null, in the arrays where an element may
  be missing: what writeIgniteTypedArrayP writes, readIgniteTypedArray reads back.
\<close>

locale nullable_codec = codec wr rd enc canon valid
  for wr :: "'a \<Rightarrow> writer" and rd :: "'b reader" and enc :: "'a \<Rightarrow> byte list"
    and canon :: "'a \<Rightarrow> 'b" and valid :: "'a \<Rightarrow> bool" +
  fixes elType :: TypeDesc
  assumes elType_not_null: "elType \<noteq> NullType"
begin

lemma elem_wr: "valid x \<Longrightarrow> writes (thenW (WriteType elType) (wr x)) (encNullable elType enc (Some x))"
  unfolding encNullable_def option.case
  by (rule writes_cong [OF writes_then [OF writes_type(1) wr_enc]]) simp_all

lemma nullable_rd:
  "pred_option valid x \<Longrightarrow> reads (bindR (checkNotNull elType) (\<lambda>isNotNull.
       if isNotNull then bindR rd (\<lambda>x. returnR (Some x)) else returnR None))
     (encNullable elType enc x) (map_option canon x)"
proof (cases x)
  case None
  then show ?thesis
    by (simp add: encNullable_def) (rule reads_cong [OF reads_bind [OF reads_checkNotNull(2)]], simp_all add: wire)
next
  case (Some y)
  assume "pred_option valid x"
  then have "valid y" using Some by simp
  then show ?thesis
    unfolding Some encNullable_def option.case option.map
    by (intro reads_cong [OF reads_bind [OF reads_checkNotNull(1) [OF elType_not_null]]])
       (simp_all add: reads_bind_return [OF rd_enc])
qed

lemma array_wr:
  assumes "\<forall>x \<in> set xs. pred_option valid x"
  shows "writes (writeIgniteTypedArrayP elType xs wr) (lenBytes (length xs) @ concat (map (encNullable elType enc) xs))"
  unfolding writeIgniteTypedArrayP_def
proof (rule writes_writeSequence [where w = "\<lambda>x. case x of None \<Rightarrow> WriteNull | Some el \<Rightarrow> thenW (WriteType elType) (wr el)"])
  fix x assume "x \<in> set xs"
  with assms have "pred_option valid x" by simp
  then show "writes (case x of None \<Rightarrow> WriteNull | Some el \<Rightarrow> thenW (WriteType elType) (wr el)) (encNullable elType enc x)"
    by (cases x) (simp_all add: elem_wr, simp add: encNullable_def wire)
qed

lemma array_wr_all:
  assumes "\<forall>x \<in> set xs. valid x"
  shows "writes (writeIgniteTypedArray elType xs wr)
    (lenBytes (length xs) @ concat (map (\<lambda>x. encNullable elType enc (Some x)) xs))"
  unfolding writeIgniteTypedArray_def
  by (rule writes_writeSequence [where w = "\<lambda>x. thenW (WriteType elType) (wr x)"]) (use assms in \<open>simp add: elem_wr\<close>)

lemma array_rd:
  "\<forall>x \<in> set xs. pred_option valid x \<Longrightarrow> small (length xs) \<Longrightarrow>
    reads (readIgniteTypedArray elType rd) (lenBytes (length xs) @ concat (map (encNullable elType enc) xs))
      (map (map_option canon) xs)"
  unfolding readIgniteTypedArray_def by (intro reads_readSlice nullable_rd) simp_all

end

interpretation str_array: nullable_codec writeString readString encStr "\<lambda>s. s" "\<lambda>s. small (length s)" StringType
  by unfold_locales simp

interpretation uuid_array: nullable_codec writeUuid readUuid encUuid "\<lambda>u. u" "\<lambda>u. length u = 16" UuidType
  by unfold_locales simp

interpretation timestamp_array: nullable_codec writeTimestamp readTimestamp encTimestamp "\<lambda>t. t" valid_time TimestampType
  by unfold_locales simp

interpretation date_array: nullable_codec writeDate readDate encI64 "\<lambda>t. t" "\<lambda>_. True" DateType
  by unfold_locales (simp_all add: wire writeDate_def)

interpretation time_array: nullable_codec writeTime readTime encI64 "\<lambda>t. t" "\<lambda>_. True" TimeType
  by unfold_locales (simp_all add: wire writeTime_def)

section \<open>Properties\<close>

text \<open>A timestamp survives the wire exactly, nanoseconds included, before the epoch as well
  as after it, wherever its milliseconds fit a 64-bit integer.\<close>

theorem timestamp_roundtrip:
  assumes "valid_time t"
  shows "\<exists>bw. writeTimestamp t (NewBinaryOutputStream n) = Inr bw \<and>
    readTimestamp (NewBinaryInputStream (Data bw) 0) = Inr (t, \<lparr>ibuf = Data bw, ioff = 0, ipos = 12\<rparr>)"
proof -
  have "length (encTimestamp t) = 12" by (simp add: encTimestamp_def)
  then show ?thesis using ts.message [OF assms, of n] by (auto simp: maxInt32_def)
qed

theorem timestamp_roundtrip_witness:
  "\<exists>bw. writeTimestamp \<lparr>unixSec = - 1, unixNsec = 999999999\<rparr> (NewBinaryOutputStream 0) = Inr bw \<and>
    readTimestamp (NewBinaryInputStream (Data bw) 0)
      = Inr (\<lparr>unixSec = - 1, unixNsec = 999999999\<rparr>, \<lparr>ibuf = Data bw, ioff = 0, ipos = 12\<rparr>)"
  by (rule timestamp_roundtrip) (simp add: valid_time_def)

text \<open>A decimal survives the wire: given a decimal package that rebuilds a number from its
  sign, coefficient and exponent, the sign folded into the first byte of the coefficient and
  the negated exponent are undone by the reader, for every finite decimal that is not a
  negative zero and every exponent, the least one included.\<close>

theorem decimal_roundtrip:
  assumes "apd_ok A fin" and "valid_dec A fin d" and "length (apdCoeffBytes A d) + 9 \<le> maxInt32"
  shows "\<exists>bw. writeDecimal A d (NewBinaryOutputStream n) = Inr bw \<and>
    (\<exists>p. readDecimal A (NewBinaryInputStream (Data bw) 0) = Inr (d, \<lparr>ibuf = Data bw, ioff = 0, ipos = p\<rparr>) \<and>
      p = length (Data bw))"
proof -
  have "length (encDecimal A d) \<le> maxInt32"
    using assms(3) length_coeffField [of "apdNegative A d" "apdCoeffBytes A d"]
    by (simp add: encDecimal_def encBytes_def)
  then obtain bw where "writeDecimal A d (NewBinaryOutputStream n) = Inr bw" "Data bw = encDecimal A d"
    using put_ok [OF wf_out_New, of n "encDecimal A d"] writesD [OF writes_writeDecimal wf_out_New, of A d n]
    by (auto simp: NewBinaryOutputStream_def Data_def)
  then show ?thesis
    using reads_from_start [OF reads_readDecimal [OF assms(1,2)], of "[]"] by simp
qed

text \<open>The numbers as a sign, a coefficient without leading zeros and an exponent.\<close>

definition plainDec :: "(bool \<times> byte list \<times> i32) apd" where
  "plainDec = \<lparr>apdExponent = \<lambda>d. snd (snd d), apdNegative = fst, apdCoeffBytes = \<lambda>d. fst (snd d),
     apdNewWithBigInt = \<lambda>neg bs e. (neg, dropWhile (\<lambda>b. b = 0) bs, e)\<rparr>"

lemma plainDec_ok: "apd_ok plainDec (\<lambda>d. dropWhile (\<lambda>b. b = 0) (fst (snd d)) = fst (snd d))"
  by (simp add: apd_ok_def plainDec_def)

theorem decimal_roundtrip_witness:
  "\<exists>bw. writeDecimal plainDec (True, [0xC8, 0x01], 2) (NewBinaryOutputStream 0) = Inr bw \<and>
    (\<exists>p. readDecimal plainDec (NewBinaryInputStream (Data bw) 0)
        = Inr ((True, [0xC8, 0x01], 2), \<lparr>ibuf = Data bw, ioff = 0, ipos = p\<rparr>) \<and> p = length (Data bw))"
  by (rule decimal_roundtrip [OF plainDec_ok]) (simp_all add: valid_dec_def plainDec_def small_def maxInt32_def)

text \<open>An array of nullable strings survives the wire: a missing element is the code of null
  and comes back missing, a present one comes back as it was.\<close>

theorem string_array_roundtrip:
  assumes "\<forall>x \<in> set xs. pred_option (\<lambda>s. small (length s)) x" and "small (length xs)"
    and "4 + length (concat (map (encNullable StringType encStr) xs)) \<le> maxInt32"
  shows "\<exists>bw. writeIgniteTypedArrayP StringType xs writeString (NewBinaryOutputStream n) = Inr bw \<and>
    readIgniteTypedArray StringType readString (NewBinaryInputStream (Data bw) 0)
      = Inr (xs, \<lparr>ibuf = Data bw, ioff = 0, ipos = length (Data bw)\<rparr>)"
proof -
  let ?e = "lenBytes (length xs) @ concat (map (encNullable StringType encStr) xs)"
  obtain bw where bw: "put ?e (NewBinaryOutputStream n) = Inr bw" "Data bw = ?e"
    using put_ok [OF wf_out_New, of n ?e] assms(3) by (auto simp: NewBinaryOutputStream_def Data_def)
  have "writeIgniteTypedArrayP StringType xs writeString (NewBinaryOutputStream n) = Inr bw"
    using writesD [OF str_array.array_wr [OF assms(1)] wf_out_New, of n] bw(1) by simp
  moreover have "readIgniteTypedArray StringType readString (NewBinaryInputStream (?e @ []) 0)
      = Inr (map (map_option (\<lambda>s. s)) xs, \<lparr>ibuf = ?e @ [], ioff = 0, ipos = length ?e\<rparr>)"
    by (rule reads_from_start [OF str_array.array_rd [OF assms(1,2)]])
  ultimately show ?thesis using bw(2) by (simp add: list.map_ident_strong option.map_ident)
qed

theorem string_array_roundtrip_witness:
  "\<exists>bw. writeIgniteTypedArrayP StringType [Some ''ab'', None, Some []] writeString (NewBinaryOutputStream 0) = Inr bw \<and>
    readIgniteTypedArray StringType readString (NewBinaryInputStream (Data bw) 0)
      = Inr ([Some ''ab'', None, Some []], \<lparr>ibuf = Data bw, ioff = 0, ipos = length (Data bw)\<rparr>)"
  by (rule string_array_roundtrip) (simp_all add: small_def maxInt32_def encNullable_def encStr_def)

end
