(* ===== verification/Bitset.thy ===== *)
theory Bitset
  imports Prelude
begin

text \<open>
  internal/bitset/bitset.go: the growable bit set that carries the protocol feature flags.
  The state is the slice of 64-bit words and the number of words in use; a bit index is a
  Go uint. The bit inside a word is chosen by \<open>idx % wordIdx\<close> for every word but the first,
  as the code has it: the consequences are theorems below.
\<close>

section \<open>State and operations\<close>

record bitset =
  words :: "i64 list"
  wordsInUse :: nat

definition New :: bitset where
  "New = \<lparr>words = [0], wordsInUse = 0\<rparr>"

definition wordIndex :: "nat \<Rightarrow> nat" where
  "wordIndex bitIndex = bitIndex div 2 ^ 6"

definition maxUint :: "nat \<Rightarrow> nat \<Rightarrow> nat" where
  "maxUint x y = (if x > y then x else y)"

text \<open>The bit index inside the word, computed the same way in Test, Set and Clear.\<close>

definition bitInWord :: "nat \<Rightarrow> nat" where
  "bitInWord idx = (let wordIdx = wordIndex idx in if wordIdx > 0 then idx mod wordIdx else idx)"

definition Test :: "bitset \<Rightarrow> nat \<Rightarrow> bool" where
  "Test bs idx =
     (let wordIdx = wordIndex idx
      in if wordIdx \<ge> wordsInUse bs then False
         else words bs ! wordIdx AND push_bit (bitInWord idx) 1 \<noteq> 0)"

definition ensureCapacity :: "bitset \<Rightarrow> nat \<Rightarrow> bitset" where
  "ensureCapacity bs wordsRequired =
     (let n = length (words bs)
      in if n < wordsRequired
         then bs\<lparr>words := words bs @ replicate (maxUint wordsRequired (n * 2) - n) 0\<rparr>
         else bs)"

definition expandTo :: "bitset \<Rightarrow> nat \<Rightarrow> bitset" where
  "expandTo bs wordIdx =
     (let wordsRequired = wordIdx + 1
      in if wordsInUse bs < wordsRequired
         then (ensureCapacity bs wordsRequired)\<lparr>wordsInUse := wordsRequired\<rparr>
         else bs)"

definition Set :: "bitset \<Rightarrow> nat \<Rightarrow> bitset" where
  "Set bs idx =
     (let wordIdx = wordIndex idx; bs = expandTo bs wordIdx
      in bs\<lparr>words := (words bs)[wordIdx := words bs ! wordIdx OR push_bit (bitInWord idx) 1]\<rparr>)"

text \<open>
  The loop of recalculateWordsInUse walks down from the last word in use to the last one
  that is not zero; the argument is the loop variable plus one.
\<close>

fun lastNonZero :: "i64 list \<Rightarrow> nat \<Rightarrow> nat" where
  "lastNonZero ws 0 = 0"
| "lastNonZero ws (Suc i) = (if ws ! i \<noteq> 0 then Suc i else lastNonZero ws i)"

definition recalculateWordsInUse :: "bitset \<Rightarrow> bitset" where
  "recalculateWordsInUse bs = bs\<lparr>wordsInUse := lastNonZero (words bs) (wordsInUse bs)\<rparr>"

definition Clear :: "bitset \<Rightarrow> nat \<Rightarrow> bitset" where
  "Clear bs idx =
     (let wordIdx = wordIndex idx
      in if wordIdx \<ge> wordsInUse bs then bs
         else recalculateWordsInUse
           (bs\<lparr>words := (words bs)[wordIdx := words bs ! wordIdx AND NOT (push_bit (bitInWord idx) 1)]\<rparr>))"

definition Equals :: "bitset \<Rightarrow> bitset \<Rightarrow> bool" where
  "Equals bs other =
     (if wordsInUse bs \<noteq> wordsInUse other then False
      else list_all (\<lambda>i. words bs ! i = words other ! i) [0..<wordsInUse bs])"

text \<open>FromBytes pads to whole words and reads each word little-endian.\<close>

definition padBytes :: "byte list \<Rightarrow> byte list" where
  "padBytes data = (let x = length data mod 8 in if x > 0 then data @ replicate (8 - x) 0 else data)"

definition FromBytes :: "byte list \<Rightarrow> bitset" where
  "FromBytes data =
     (if length data = 0 then New
      else let data = padBytes data; len = length data div 8
           in recalculateWordsInUse
                \<lparr>words = map (\<lambda>i. word_of_nat (of_le (take 8 (drop (8 * i) data)))) [0..<len],
                 wordsInUse = len\<rparr>)"

definition Bytes :: "bitset \<Rightarrow> byte list" where
  "Bytes bs = (if wordsInUse bs = 0 then []
     else concat (map (\<lambda>i. to_le 8 (unat (words bs ! i))) [0..<wordsInUse bs]))"

section \<open>Invariant\<close>

text \<open>The words in use lie inside the slice, and every word past them is zero.\<close>

definition wf_bitset :: "bitset \<Rightarrow> bool" where
  "wf_bitset bs \<longleftrightarrow> wordsInUse bs \<le> length (words bs) \<and>
     (\<forall>i < length (words bs). wordsInUse bs \<le> i \<longrightarrow> words bs ! i = 0)"

lemma lastNonZero_le: "lastNonZero ws n \<le> n"
  by (induction n) (auto intro: le_SucI)

lemma lastNonZero_above: "lastNonZero ws n \<le> i \<Longrightarrow> i < n \<Longrightarrow> ws ! i = 0"
proof (induction n)
  case 0
  then show ?case by simp
next
  case (Suc n)
  then show ?case by (cases "i = n") (auto split: if_splits)
qed

lemma lastNonZero_last: "lastNonZero ws n = Suc k \<Longrightarrow> ws ! k \<noteq> 0"
  by (induction n) (auto split: if_splits)

lemma lastNonZero_self: "n = 0 \<or> ws ! (n - 1) \<noteq> 0 \<Longrightarrow> lastNonZero ws n = n"
  by (cases n) auto

lemma lastNonZero_cong: "(\<And>i. i < n \<Longrightarrow> ws ! i = vs ! i) \<Longrightarrow> lastNonZero ws n = lastNonZero vs n"
  by (induction n) auto

lemma words_expandTo:
  "words (expandTo bs w) =
     words bs @ replicate (length (words (expandTo bs w)) - length (words bs)) 0"
  by (simp add: expandTo_def ensureCapacity_def Let_def)

lemma length_words_expandTo: "wf_bitset bs \<Longrightarrow> w < length (words (expandTo bs w))"
  by (auto simp: wf_bitset_def expandTo_def ensureCapacity_def maxUint_def Let_def)

lemma length_words_expandTo_ge: "length (words bs) \<le> length (words (expandTo bs w))"
  by (simp add: expandTo_def ensureCapacity_def Let_def)

lemma wordsInUse_expandTo: "wordsInUse (expandTo bs w) = max (wordsInUse bs) (w + 1)"
  by (auto simp: expandTo_def Let_def max_def)

lemma nth_words_expandTo:
  assumes "wf_bitset bs" and "i < length (words (expandTo bs w))"
  shows "words (expandTo bs w) ! i = (if i < wordsInUse bs then words bs ! i else 0)"
proof -
  have "words (expandTo bs w) ! i = (if i < length (words bs) then words bs ! i else 0)"
    using assms(2) words_expandTo [of bs w]
    by (metis (no_types, lifting) add_diff_inverse_nat length_append length_replicate
        nat_add_left_cancel_less nth_append nth_replicate)
  then show ?thesis using assms(1) by (auto simp: wf_bitset_def)
qed

lemma wf_expandTo: "wf_bitset bs \<Longrightarrow> wf_bitset (expandTo bs w)"
  using length_words_expandTo [of bs w] length_words_expandTo_ge [of bs w]
  by (auto simp: wf_bitset_def wordsInUse_expandTo nth_words_expandTo)

lemma wf_New: "wf_bitset New"
  by (simp add: wf_bitset_def New_def)

lemma wf_recalculate: "wf_bitset bs \<Longrightarrow> wf_bitset (recalculateWordsInUse bs)"
  unfolding wf_bitset_def recalculateWordsInUse_def
  using lastNonZero_le [of "words bs" "wordsInUse bs"]
  by (auto intro: lastNonZero_above simp: not_less) (meson lastNonZero_above not_le)

lemma wf_Set: "wf_bitset bs \<Longrightarrow> wf_bitset (Set bs i)"
  using wf_expandTo [of bs "wordIndex i"]
  by (auto simp: Set_def Let_def wf_bitset_def wordsInUse_expandTo nth_list_update)

lemma wf_Clear: "wf_bitset bs \<Longrightarrow> wf_bitset (Clear bs i)"
  unfolding Clear_def Let_def
  by (auto intro!: wf_recalculate) (auto simp: wf_bitset_def nth_list_update)

lemma wf_FromBytes: "wf_bitset (FromBytes data)"
  by (auto simp: FromBytes_def Let_def wf_New intro!: wf_recalculate) (simp add: wf_bitset_def)

section \<open>What the operations do\<close>

lemma Test_bit:
  "Test bs j \<longleftrightarrow> wordIndex j < wordsInUse bs \<and> bit (words bs ! wordIndex j) (bitInWord j)"
  by (auto simp: Test_def Let_def bit_iff_and_push_bit_not_eq_0)

lemma bit_or_single:
  "bit (w OR push_bit k 1 :: i64) m \<longleftrightarrow> bit w m \<or> (m = k \<and> k < 64)"
  by (auto simp: bit_simps)

lemma bit_or_power:
  "bit (w OR 2 ^ k :: i64) m \<longleftrightarrow> bit w m \<or> (m = k \<and> k < 64)"
  "bit (2 ^ k :: i64) m \<longleftrightarrow> m = k \<and> k < 64"
  by (auto simp: bit_simps)

lemma bit_andnot_single:
  "bit (w AND NOT (push_bit k 1) :: i64) m \<longleftrightarrow> bit w m \<and> m \<noteq> k"
  by (auto simp: bit_simps dest: bit_imp_le_length)

lemma Test_Set_gen:
  assumes "wf_bitset bs"
  shows "Test (Set bs i) j \<longleftrightarrow>
    Test bs j \<or> (wordIndex j = wordIndex i \<and> bitInWord j = bitInWord i \<and> bitInWord i < 64)"
proof -
  let ?e = "expandTo bs (wordIndex i)"
  have i: "wordIndex i < length (words ?e)" using assms by (rule length_words_expandTo)
  have u: "wordsInUse (Set bs i) = max (wordsInUse bs) (wordIndex i + 1)"
    by (simp add: Set_def Let_def wordsInUse_expandTo)
  have w: "words (Set bs i) = (words ?e)[wordIndex i := words ?e ! wordIndex i OR push_bit (bitInWord i) 1]"
    by (simp add: Set_def Let_def)
  have "wordsInUse bs \<le> length (words ?e)"
    using assms length_words_expandTo_ge [of bs "wordIndex i"] by (simp add: wf_bitset_def)
  then show ?thesis
    using i assms unfolding Test_bit u w
    by (cases "wordIndex j = wordIndex i")
       (auto simp: nth_words_expandTo bit_or_power less_max_iff_disj nth_list_update split: if_splits)
qed

lemma bit_andnot_power:
  "bit (w AND NOT (2 ^ k) :: i64) m \<longleftrightarrow> bit w m \<and> m \<noteq> k"
  using bit_andnot_single [of w k m] by simp

lemma lastNonZero_bit:
  "k < lastNonZero ws n \<and> bit (ws ! k) m \<longleftrightarrow> k < n \<and> bit (ws ! k) m"
proof (cases "k < lastNonZero ws n")
  case True
  with lastNonZero_le [of ws n] show ?thesis by simp
next
  case False
  then have "k < n \<Longrightarrow> ws ! k = 0" by (intro lastNonZero_above) simp_all
  with False show ?thesis by auto
qed

lemma Test_Clear_gen:
  assumes "wf_bitset bs"
  shows "Test (Clear bs i) j \<longleftrightarrow>
    Test bs j \<and> \<not> (wordIndex j = wordIndex i \<and> bitInWord j = bitInWord i)"
proof (cases "wordIndex i < wordsInUse bs")
  case False
  then show ?thesis by (auto simp: Clear_def Let_def Test_bit)
next
  case True
  let ?ws = "(words bs)[wordIndex i := words bs ! wordIndex i AND NOT (push_bit (bitInWord i) 1)]"
  let ?n = "wordsInUse bs"
  have C: "words (Clear bs i) = ?ws" "wordsInUse (Clear bs i) = lastNonZero ?ws ?n"
    using True by (simp_all add: Clear_def Let_def recalculateWordsInUse_def)
  have len: "?n \<le> length (words bs)" using assms by (simp add: wf_bitset_def)
  have eq: "wordIndex j < lastNonZero ?ws ?n \<and> bit (?ws ! wordIndex j) (bitInWord j)
      \<longleftrightarrow> wordIndex j < ?n \<and> bit (?ws ! wordIndex j) (bitInWord j)"
    by (rule lastNonZero_bit)
  show ?thesis
    unfolding Test_bit C eq using True len
    by (cases "wordIndex j = wordIndex i") (auto simp: bit_andnot_power nth_list_update)
qed

lemma wordIndex_small [simp]: "i < 64 \<Longrightarrow> wordIndex i = 0"
  by (simp add: wordIndex_def)

lemma bitInWord_small [simp]: "i < 64 \<Longrightarrow> bitInWord i = i"
  by (simp add: bitInWord_def Let_def)

lemma bitInWord_bound: "i < 4160 \<Longrightarrow> bitInWord i < 64"
proof (cases "wordIndex i = 0")
  case True
  then show ?thesis by (auto simp: bitInWord_def Let_def wordIndex_def)
next
  case False
  assume "i < 4160"
  then have "wordIndex i \<le> 64" by (simp add: wordIndex_def)
  moreover have "bitInWord i < wordIndex i" using False by (simp add: bitInWord_def Let_def)
  ultimately show ?thesis by simp
qed

lemma second_word: "64 \<le> i \<Longrightarrow> i < 128 \<Longrightarrow> wordIndex i = 1 \<and> bitInWord i = 0"
proof -
  assume "64 \<le> i" and "i < 128"
  then have "i div 64 = 1" by (intro div_nat_eqI) simp_all
  then show ?thesis by (simp add: bitInWord_def wordIndex_def Let_def)
qed

lemma Bytes_words:
  assumes "wf_bitset bs" and "i < wordsInUse bs"
  shows "word_of_nat (of_le (take 8 (drop (8 * i) (Bytes bs)))) = words bs ! i"
proof -
  have "take 8 (drop (8 * i) (concat (map (\<lambda>i. to_le 8 (unat (words bs ! i))) [0..<wordsInUse bs])))
      = to_le 8 (unat (words bs ! i))"
    using assms(2) by (intro take_drop_concat_chunks) simp_all
  then show ?thesis using assms(2) by (simp add: Bytes_def)
qed

lemma length_Bytes: "length (Bytes bs) = 8 * wordsInUse bs"
  by (simp add: Bytes_def length_concat_chunks)

lemma FromBytes_Bytes:
  assumes "wf_bitset bs" and "wordsInUse bs \<noteq> 0"
  shows "FromBytes (Bytes bs) = recalculateWordsInUse
    \<lparr>words = map ((!) (words bs)) [0..<wordsInUse bs], wordsInUse = wordsInUse bs\<rparr>"
proof -
  have eq: "map (\<lambda>i. word_of_nat (of_le (take 8 (drop (8 * i) (Bytes bs))))) [0..<wordsInUse bs]
      = map ((!) (words bs)) [0..<wordsInUse bs]"
    using assms(1) by (intro map_cong) (simp_all add: Bytes_words)
  have "FromBytes (Bytes bs) = recalculateWordsInUse
    \<lparr>words = map (\<lambda>i. word_of_nat (of_le (take 8 (drop (8 * i) (Bytes bs))))) [0..<wordsInUse bs],
     wordsInUse = wordsInUse bs\<rparr>"
    using assms(2) by (simp add: FromBytes_def padBytes_def length_Bytes Let_def)
  then show ?thesis unfolding eq .
qed

lemma Test_recalculate: "Test (recalculateWordsInUse bs) j \<longleftrightarrow> Test bs j"
  by (simp add: Test_bit recalculateWordsInUse_def lastNonZero_bit)

lemma Test_FromBytes_Bytes:
  assumes "wf_bitset bs"
  shows "Test (FromBytes (Bytes bs)) j \<longleftrightarrow> Test bs j"
proof (cases "wordsInUse bs = 0")
  case True
  then show ?thesis by (simp add: Bytes_def FromBytes_def Test_bit New_def)
next
  case False
  then show ?thesis
    using assms by (simp add: FromBytes_Bytes Test_recalculate) (auto simp: Test_bit)
qed

lemma Equals_FromBytes_Bytes:
  assumes "wf_bitset bs" and "wordsInUse bs = 0 \<or> words bs ! (wordsInUse bs - 1) \<noteq> 0"
  shows "Equals (FromBytes (Bytes bs)) bs"
proof (cases "wordsInUse bs = 0")
  case True
  then show ?thesis by (simp add: Bytes_def FromBytes_def New_def Equals_def)
next
  case False
  let ?ws = "map ((!) (words bs)) [0..<wordsInUse bs]"
  have "lastNonZero ?ws (wordsInUse bs) = wordsInUse bs"
    using False assms(2) by (intro lastNonZero_self) simp
  then show ?thesis
    using assms(1) False by (simp add: FromBytes_Bytes recalculateWordsInUse_def Equals_def list_all_iff)
qed

section \<open>The interface the protocol context relies on\<close>

text \<open>
  A set of feature numbers below a bound: the bit set is one for the numbers of its first
  word, which is where every feature of the protocol lives.
\<close>

locale feature_set =
  fixes emp :: 's
    and ins :: "'s \<Rightarrow> nat \<Rightarrow> 's"
    and mem :: "'s \<Rightarrow> nat \<Rightarrow> bool"
    and inv :: "'s \<Rightarrow> bool"
    and bound :: nat
  assumes inv_emp: "inv emp"
    and inv_ins: "inv s \<Longrightarrow> inv (ins s i)"
    and mem_emp: "\<not> mem emp j"
    and mem_ins: "inv s \<Longrightarrow> i < bound \<Longrightarrow> j < bound \<Longrightarrow> mem (ins s i) j \<longleftrightarrow> j = i \<or> mem s j"
begin

lemma inv_fold: "inv s \<Longrightarrow> inv (fold (\<lambda>f s. ins s f) fs s)"
  by (induction fs arbitrary: s) (simp_all add: inv_ins)

lemma mem_fold:
  "inv s \<Longrightarrow> \<forall>f \<in> set fs. f < bound \<Longrightarrow> j < bound \<Longrightarrow>
    mem (fold (\<lambda>f s. ins s f) fs s) j \<longleftrightarrow> j \<in> set fs \<or> mem s j"
  by (induction fs arbitrary: s) (auto simp: inv_ins mem_ins)

lemma mem_of_list:
  "\<forall>f \<in> set fs. f < bound \<Longrightarrow> j < bound \<Longrightarrow>
    mem (fold (\<lambda>f s. ins s f) fs emp) j \<longleftrightarrow> j \<in> set fs"
  by (simp add: mem_fold inv_emp mem_emp)

end

interpretation fs: feature_set New Set Test wf_bitset 64
proof unfold_locales
  show "wf_bitset New" by (rule wf_New)
  show "wf_bitset (Set s i)" if "wf_bitset s" for s i using that by (rule wf_Set)
  show "\<not> Test New j" for j by (simp add: Test_bit New_def)
  show "Test (Set s i) j \<longleftrightarrow> j = i \<or> Test s j"
    if "wf_bitset s" "i < 64" "j < 64" for s i j
    using that by (auto simp: Test_Set_gen)
qed

section \<open>Properties\<close>

text \<open>A set of bits is updated exactly: after Set of a bit below 64 the test of any other
  bit below 64 is unchanged and the test of the bit itself is true, and Clear undoes it.\<close>

theorem bitset_first_word:
  assumes "wf_bitset bs" and "i < 64" and "j < 64"
  shows "(Test (Set bs i) j \<longleftrightarrow> j = i \<or> Test bs j) \<and> (Test (Clear bs i) j \<longleftrightarrow> j \<noteq> i \<and> Test bs j)"
  using assms by (auto simp: Test_Set_gen Test_Clear_gen)

theorem bitset_first_word_witness:
  "Test (Set (Set New 3) 5) 3 \<and> \<not> Test (Clear (Set New 3) 3) 3"
  using bitset_first_word [of "Set New 3" 5 3] bitset_first_word [of "Set New 3" 3 3]
    bitset_first_word [of New 3 3]
  by (simp add: wf_New wf_Set)

text \<open>Serialisation keeps the set: FromBytes after Bytes answers every test as before, and
  the result is equal to the original under Equals whenever the last word in use is not zero.\<close>

theorem bitset_bytes_roundtrip:
  assumes "wf_bitset bs"
  shows "(\<forall>j. Test (FromBytes (Bytes bs)) j = Test bs j) \<and>
    (wordsInUse bs = 0 \<or> words bs ! (wordsInUse bs - 1) \<noteq> 0 \<longrightarrow> Equals (FromBytes (Bytes bs)) bs)"
  using assms by (simp add: Test_FromBytes_Bytes Equals_FromBytes_Bytes)

theorem bitset_bytes_roundtrip_witness:
  "Equals (FromBytes (Bytes (Set New 5))) (Set New 5) \<and> Test (FromBytes (Bytes (Set New 5))) 5"
proof -
  have "wf_bitset (Set New 5)" by (simp add: wf_New wf_Set)
  moreover have "words (Set New 5) ! (wordsInUse (Set New 5) - 1) \<noteq> 0" by code_simp
  moreover have "Test (Set New 5) 5" by code_simp
  ultimately show ?thesis using bitset_bytes_roundtrip [of "Set New 5"] by simp
qed

text \<open>Past the first word the code's choice of the bit, idx mod wordIdx, makes bits share:
  setting any bit from 64 to 127 makes every bit from 64 to 127 test true, and clearing any
  one of them makes all of them test false. The test of the set bit itself is still true for
  every index below 4160.\<close>

theorem bitset_second_word_aliases:
  assumes "wf_bitset bs"
  shows "(\<forall>i j. 64 \<le> i \<and> i < 128 \<and> 64 \<le> j \<and> j < 128 \<longrightarrow>
           Test (Set bs i) j \<and> \<not> Test (Clear bs i) j) \<and>
         (\<forall>i < 4160. Test (Set bs i) i)"
  using assms second_word by (auto simp: Test_Set_gen Test_Clear_gen bitInWord_bound)

theorem bitset_second_word_aliases_witness:
  "Test (Set New 64) 100 \<and> \<not> Test (Clear (Set New 64) 100) 64"
proof -
  have "wf_bitset (Set New 64)" by (simp add: wf_New wf_Set)
  then show ?thesis
    using bitset_second_word_aliases [OF wf_New] bitset_second_word_aliases [of "Set New 64"] by simp
qed

end
