(* ===== verification/Proto.thy ===== *)
theory Proto
  imports Bitset Primitives
begin

text \<open>
  protocol_context.go: versions of the thin client protocol, the features negotiated for a
  connection and the bytes of both in the handshake. The constants of the features are their
  ordinals, as in the code.
\<close>

section \<open>State\<close>

datatype AttributeFeature =
    UserAttributesFeature | ExecuteTaskByNameFeature | ClusterStatesFeature
  | ClusterGroupGetNodesEndpointsFeature | ClusterGroupsFeature | ServiceInvokeFeature
  | DefaultQueryTimeoutFeature | QueryPartitionsBatchSizeFeature | BinaryConfigurationFeature
  | GetServiceDescriptorsFeature | ServiceInvokeCallContextFeature | HeartbeatFeature
  | DataReplicationOperationsFeature | AllAffinityMappingsFeature | IndexQueryFeature
  | IndexQueryLimitFeature | ServiceTopologyFeature

fun featureBit :: "AttributeFeature \<Rightarrow> nat" where
  "featureBit UserAttributesFeature = 0"
| "featureBit ExecuteTaskByNameFeature = 1"
| "featureBit ClusterStatesFeature = 2"
| "featureBit ClusterGroupGetNodesEndpointsFeature = 3"
| "featureBit ClusterGroupsFeature = 4"
| "featureBit ServiceInvokeFeature = 5"
| "featureBit DefaultQueryTimeoutFeature = 6"
| "featureBit QueryPartitionsBatchSizeFeature = 7"
| "featureBit BinaryConfigurationFeature = 8"
| "featureBit GetServiceDescriptorsFeature = 9"
| "featureBit ServiceInvokeCallContextFeature = 10"
| "featureBit HeartbeatFeature = 11"
| "featureBit DataReplicationOperationsFeature = 12"
| "featureBit AllAffinityMappingsFeature = 13"
| "featureBit IndexQueryFeature = 14"
| "featureBit IndexQueryLimitFeature = 15"
| "featureBit ServiceTopologyFeature = 16"

record ProtocolVersion =
  Major :: i16
  Minor :: i16
  Patch :: i16

definition ver :: "i16 \<Rightarrow> i16 \<Rightarrow> i16 \<Rightarrow> ProtocolVersion" where
  "ver a b c = \<lparr>Major = a, Minor = b, Patch = c\<rparr>"

record ProtocolContext =
  version :: ProtocolVersion
  features :: "bitset option"

section \<open>Operations\<close>

text \<open>The differences are taken in 16 bits and only then widened to int.\<close>

definition Compare :: "ProtocolVersion \<Rightarrow> ProtocolVersion \<Rightarrow> int" where
  "Compare cur other =
     (if Major cur - Major other \<noteq> 0 then sint (Major cur - Major other)
      else if Minor cur - Minor other \<noteq> 0 then sint (Minor cur - Minor other)
      else sint (Patch cur - Patch other))"

definition SupportsAuthorization :: "ProtocolContext \<Rightarrow> bool" where
  "SupportsAuthorization ctx \<longleftrightarrow> Compare (version ctx) (ver 1 1 0) \<ge> 0"

definition SupportsQueryEntityPrecisionAndScale :: "ProtocolContext \<Rightarrow> bool" where
  "SupportsQueryEntityPrecisionAndScale ctx \<longleftrightarrow> Compare (version ctx) (ver 1 2 0) \<ge> 0"

definition SupportsPartitionAwareness :: "ProtocolContext \<Rightarrow> bool" where
  "SupportsPartitionAwareness ctx \<longleftrightarrow> Compare (version ctx) (ver 1 4 0) \<ge> 0"

definition SupportsTransactions :: "ProtocolContext \<Rightarrow> bool" where
  "SupportsTransactions ctx \<longleftrightarrow> Compare (version ctx) (ver 1 5 0) \<ge> 0"

definition SupportsExpiryPolicy :: "ProtocolContext \<Rightarrow> bool" where
  "SupportsExpiryPolicy ctx \<longleftrightarrow> Compare (version ctx) (ver 1 6 0) \<ge> 0"

definition SupportsClusterApi :: "ProtocolContext \<Rightarrow> bool" where
  "SupportsClusterApi ctx \<longleftrightarrow> Compare (version ctx) (ver 1 6 0) \<ge> 0"

definition SupportsBitmapFeatures :: "ProtocolContext \<Rightarrow> bool" where
  "SupportsBitmapFeatures ctx \<longleftrightarrow> Compare (version ctx) (ver 1 7 0) \<ge> 0"

definition NewProtocolContext :: "ProtocolVersion \<Rightarrow> AttributeFeature list \<Rightarrow> ProtocolContext" where
  "NewProtocolContext v fs =
     (let ctx = \<lparr>version = v, features = None\<rparr>
      in if SupportsBitmapFeatures ctx
         then ctx\<lparr>features := Some (fold (\<lambda>f bs. Set bs (featureBit f)) fs New)\<rparr> else ctx)"

text \<open>\<open>ctx.features.Bytes()\<close> with nil features dereferences nil.\<close>

definition marshalProtocol :: "ProtocolContext \<Rightarrow> writer" where
  "marshalProtocol ctx =
     seqW [WriteInt16 (Major (version ctx)), WriteInt16 (Minor (version ctx)),
       WriteInt16 (Patch (version ctx)), WriteInt8 2,
       (if SupportsBitmapFeatures ctx
        then (case features ctx of None \<Rightarrow> (\<lambda>bw. Inl Panic)
              | Some bs \<Rightarrow> marshalByteArray (Some (Bytes bs))) else skipW)]"

definition updateAttributeFeatures :: "bitset option \<Rightarrow> ProtocolContext \<Rightarrow> ProtocolContext" where
  "updateAttributeFeatures bs ctx = (if bs \<noteq> None then ctx\<lparr>features := bs\<rparr> else ctx)"

definition SupportsAttributeFeature :: "ProtocolContext \<Rightarrow> AttributeFeature \<Rightarrow> bool" where
  "SupportsAttributeFeature ctx f =
     (case features ctx of None \<Rightarrow> False | Some bs \<Rightarrow> Test bs (featureBit f))"

subsection \<open>Parsing and printing of versions\<close>

text \<open>strings.Split with a one-character separator.\<close>

fun split :: "char \<Rightarrow> string \<Rightarrow> string list" where
  "split c [] = [[]]"
| "split c (x # xs) = (if x = c then [] # split c xs
     else (case split c xs of [] \<Rightarrow> [[x]] | p # ps \<Rightarrow> (x # p) # ps))"

definition digitVal :: "char \<Rightarrow> nat option" where
  "digitVal c = (let n = of_char c in if 48 \<le> n \<and> n \<le> 57 then Some (n - 48) else None)"

fun parseDigits :: "nat \<Rightarrow> string \<Rightarrow> nat option" where
  "parseDigits acc [] = Some acc"
| "parseDigits acc (c # cs) = (case digitVal c of None \<Rightarrow> None | Some d \<Rightarrow> parseDigits (10 * acc + d) cs)"

text \<open>strconv.ParseInt in base 10 with 16 bits: an optional sign, at least one digit, no value
  outside the range.\<close>

definition parseInt16 :: "string \<Rightarrow> i16 option" where
  "parseInt16 s =
     (let (neg, ds) = (if s \<noteq> [] \<and> hd s = CHR ''-'' then (True, tl s)
                       else if s \<noteq> [] \<and> hd s = CHR ''+'' then (False, tl s) else (False, s))
      in if ds = [] then None
         else (case parseDigits 0 ds of None \<Rightarrow> None
               | Some n \<Rightarrow>
                   if neg then if n \<le> 32768 then Some (word_of_int (- int n)) else None
                   else if n < 32768 then Some (word_of_nat n) else None))"

definition zeroVersion :: ProtocolVersion where
  "zeroVersion = ver 0 0 0"

fun parseParts :: "nat \<Rightarrow> string list \<Rightarrow> ProtocolVersion \<Rightarrow> ProtocolVersion \<times> bool" where
  "parseParts i [] res = (res, True)"
| "parseParts i (part # parts) res =
     (case parseInt16 part of
        None \<Rightarrow> (res, False)
      | Some cur \<Rightarrow> parseParts (Suc i) parts
          (if i = 0 then res\<lparr>Major := cur\<rparr>
           else if i = 1 then res\<lparr>Minor := cur\<rparr> else res\<lparr>Patch := cur\<rparr>))"

definition ParseVersion :: "string \<Rightarrow> ProtocolVersion \<times> bool" where
  "ParseVersion s =
     (let parts = split CHR ''.'' s
      in if length parts \<noteq> 3 then (zeroVersion, False) else parseParts 0 parts zeroVersion)"

fun showNat :: "nat \<Rightarrow> string" where
  "showNat n = (if n < 10 then [char_of (48 + n)] else showNat (n div 10) @ [char_of (48 + n mod 10)])"

declare showNat.simps [simp del]

text \<open>The decimal form of a signed integer, as fmt's verb for integers gives it.\<close>

definition showInt :: "int \<Rightarrow> string" where
  "showInt i = (if i < 0 then CHR ''-'' # showNat (nat (- i)) else showNat (nat i))"

definition versionString :: "ProtocolVersion \<Rightarrow> string" where
  "versionString v = showInt (sint (Major v)) @ ''.'' @ showInt (sint (Minor v)) @ ''.'' @ showInt (sint (Patch v))"

section \<open>Versions are compared in order\<close>

definition natural :: "ProtocolVersion \<Rightarrow> bool" where
  "natural v \<longleftrightarrow> 0 \<le> sint (Major v) \<and> 0 \<le> sint (Minor v) \<and> 0 \<le> sint (Patch v)"

definition lexLe :: "ProtocolVersion \<Rightarrow> ProtocolVersion \<Rightarrow> bool" where
  "lexLe a b \<longleftrightarrow> sint (Major a) < sint (Major b) \<or>
     (sint (Major a) = sint (Major b) \<and> (sint (Minor a) < sint (Minor b) \<or>
       (sint (Minor a) = sint (Minor b) \<and> sint (Patch a) \<le> sint (Patch b))))"

lemma sint16_bounds: "- 32768 \<le> sint (x :: i16)" "sint (x :: i16) < 32768"
  using sint_ge [of x] sint_lt [of x] by simp_all

lemma sint_diff16:
  fixes x y :: i16
  assumes "0 \<le> sint x" "0 \<le> sint y"
  shows "sint (x - y) = sint x - sint y"
proof -
  have "x - y = word_of_int (sint x - sint y)" by simp
  moreover have "- 32768 \<le> sint x - sint y" "sint x - sint y < 32768"
    using assms sint16_bounds(2) [of x] sint16_bounds(2) [of y] by linarith+
  ultimately show ?thesis by (simp only: signed_of_int) (simp add: signed_take_bit_int_eq_self)
qed

lemma Compare_natural:
  assumes "natural a" "natural b"
  shows "Compare a b =
    (if sint (Major a) \<noteq> sint (Major b) then sint (Major a) - sint (Major b)
     else if sint (Minor a) \<noteq> sint (Minor b) then sint (Minor a) - sint (Minor b)
     else sint (Patch a) - sint (Patch b))"
  using assms by (auto simp: Compare_def natural_def sint_diff16 signed_word_eqI)

lemma featureBit_bound: "featureBit f < 64"
  by (cases f) simp_all

lemma featureBit_inject: "featureBit f = featureBit g \<longleftrightarrow> f = g"
  by (cases f; cases g) simp_all

section \<open>Numbers printed and parsed\<close>

lemma digitVal_digit: "d < 10 \<Longrightarrow> digitVal (char_of (48 + d)) = Some d"
  by (simp add: digitVal_def Let_def)

lemma parseDigits_append:
  "parseDigits acc (xs @ ys) = (case parseDigits acc xs of None \<Rightarrow> None | Some n \<Rightarrow> parseDigits n ys)"
  by (induction acc xs rule: parseDigits.induct) (auto split: option.splits)

lemma parseDigits_showNat: "parseDigits 0 (showNat n) = Some n"
proof (induction n rule: showNat.induct)
  case (1 n)
  show ?case
  proof (cases "n < 10")
    case True
    then show ?thesis by (subst showNat.simps) (simp add: digitVal_digit)
  next
    case False
    then show ?thesis using 1
      by (subst showNat.simps) (simp add: parseDigits_append digitVal_digit)
  qed
qed

lemma showNat_digits: "c \<in> set (showNat n) \<Longrightarrow> 48 \<le> (of_char c :: nat) \<and> (of_char c :: nat) \<le> 57"
proof (induction n rule: showNat.induct)
  case (1 n)
  show ?case
  proof (cases "n < 10")
    case True
    then have "showNat n = [char_of (48 + n)]" by (subst showNat.simps) simp
    then have "c = char_of (48 + n)" using 1(2) by simp
    then show ?thesis using True by (simp add: mod_less)
  next
    case False
    then have "showNat n = showNat (n div 10) @ [char_of (48 + n mod 10)]" by (subst showNat.simps) simp
    then consider "c \<in> set (showNat (n div 10))" | "c = char_of (48 + n mod 10)" using 1(2) by auto
    then show ?thesis
    proof cases
      case 1
      then show ?thesis using \<open>\<not> n < 10\<close> "1.IH" by blast
    next
      case 2
      have "48 + n mod 10 < 256" "n mod 10 < 10" by simp_all
      then show ?thesis unfolding 2 by (simp add: mod_less)
    qed
  qed
qed

lemma showNat_not_Nil: "showNat n \<noteq> []"
  by (subst showNat.simps) simp

lemma char_not_digit: "c \<in> set (showNat n) \<Longrightarrow> c \<noteq> CHR ''-'' \<and> c \<noteq> CHR ''+'' \<and> c \<noteq> CHR ''.''"
  using showNat_digits [of c n] by auto

lemma parseInt16_showInt: "parseInt16 (showInt (sint w)) = Some w"
proof (cases "sint w < 0")
  case True
  then have "nat (- sint w) \<le> 32768" using sint16_bounds(1) [of w] by simp
  then show ?thesis
    using True showNat_not_Nil
    by (simp add: parseInt16_def showInt_def parseDigits_showNat)
next
  case False
  obtain c cs where s: "showNat (nat (sint w)) = c # cs" using showNat_not_Nil by (cases "showNat (nat (sint w))") auto
  then have "c \<noteq> CHR ''-''" "c \<noteq> CHR ''+''" using char_not_digit [of c "nat (sint w)"] by auto
  moreover have "parseDigits 0 (c # cs) = Some (nat (sint w))" using parseDigits_showNat [of "nat (sint w)"] s by simp
  moreover have "nat (sint w) < 32768" using sint16_bounds(2) [of w] False by simp
  moreover have "word_of_nat (nat (sint w)) = w" using False by (simp add: of_nat_nat)
  ultimately show ?thesis using False s by (simp add: parseInt16_def showInt_def del: parseDigits.simps)
qed

lemma showInt_no_dot: "CHR ''.'' \<notin> set (showInt i)"
  using char_not_digit by (auto simp: showInt_def)

lemma split_none: "c \<notin> set s \<Longrightarrow> split c s = [s]"
  by (induction s) auto

lemma split_append: "c \<notin> set s \<Longrightarrow> split c (s @ c # t) = s # split c t"
  by (induction s) auto

section \<open>Properties\<close>

text \<open>Versions are ordered component by component: for versions with no negative component
  the sign of Compare is that of the lexicographic order of (major, minor, patch), and zero
  means the same version. So each Supports flag is monotone along the versions.\<close>

theorem Compare_is_version_order:
  assumes "natural a" and "natural b"
  shows "(Compare a b \<ge> 0 \<longleftrightarrow> lexLe b a) \<and> (Compare a b = 0 \<longleftrightarrow> a = b) \<and>
    (lexLe a b \<and> SupportsBitmapFeatures \<lparr>version = a, features = f\<rparr>
      \<longrightarrow> SupportsBitmapFeatures \<lparr>version = b, features = g\<rparr>)"
proof (intro conjI)
  show le: "Compare a b \<ge> 0 \<longleftrightarrow> lexLe b a"
    using assms by (auto simp: Compare_natural lexLe_def)
  show "Compare a b = 0 \<longleftrightarrow> a = b"
    using assms by (cases a; cases b) (auto simp: Compare_natural signed_word_eqI)
  have n: "natural (ver 1 7 0)" by (simp add: natural_def ver_def)
  show "lexLe a b \<and> SupportsBitmapFeatures \<lparr>version = a, features = f\<rparr>
      \<longrightarrow> SupportsBitmapFeatures \<lparr>version = b, features = g\<rparr>"
    using assms n by (auto simp: SupportsBitmapFeatures_def Compare_natural split: if_splits) (auto simp: lexLe_def)
qed

theorem Compare_is_version_order_witness:
  "Compare (ver 1 7 0) (ver 1 6 9) \<ge> 0 \<and> Compare (ver 1 7 0) (ver 1 6 9) \<noteq> 0"
proof -
  have "natural (ver 1 7 0)" "natural (ver 1 6 9)" by (simp_all add: natural_def ver_def)
  from Compare_is_version_order [OF this] show ?thesis by (simp add: lexLe_def ver_def)
qed

text \<open>The 16-bit difference wraps when the components are far apart.\<close>

lemma Compare_wraps: "Compare (ver 32767 0 0) (ver (- 2) 0 0) < 0"
  by (simp add: Compare_def ver_def)

text \<open>A context answers for exactly the features it was made with, and for none when its
  version has no feature bitmap; updating the features replaces the answers of all of them.\<close>

theorem context_supports_its_features:
  "(SupportsAttributeFeature (NewProtocolContext v fs) f
      \<longleftrightarrow> SupportsBitmapFeatures (NewProtocolContext v fs) \<and> f \<in> set fs) \<and>
   SupportsAttributeFeature (updateAttributeFeatures (Some (fold (\<lambda>f bs. Set bs (featureBit f)) gs New))
      (NewProtocolContext v fs)) f = (f \<in> set gs)"
proof -
  have fold_map: "fold (\<lambda>f bs. Set bs (featureBit f)) hs s = fold (\<lambda>i bs. Set bs i) (map featureBit hs) s" for hs s
    by (simp add: fold_map comp_def)
  have mem: "Test (fold (\<lambda>f bs. Set bs (featureBit f)) hs New) (featureBit f) \<longleftrightarrow> f \<in> set hs" for hs
    unfolding fold_map using featureBit_bound
    by (subst fs.mem_of_list) (auto simp: featureBit_inject)
  show ?thesis
    by (simp add: NewProtocolContext_def Let_def SupportsAttributeFeature_def SupportsBitmapFeatures_def
        updateAttributeFeatures_def mem)
qed

text \<open>Every version survives printing and parsing, negative components included.\<close>

theorem ParseVersion_versionString: "ParseVersion (versionString v) = (v, True)"
proof -
  have "split CHR ''.'' (versionString v)
      = [showInt (sint (Major v)), showInt (sint (Minor v)), showInt (sint (Patch v))]"
    using showInt_no_dot by (simp add: versionString_def split_append split_none)
  then show ?thesis
    by (simp add: ParseVersion_def Let_def parseInt16_showInt zeroVersion_def ver_def)
qed

end
