(* ===== verification/Values.thy ===== *)
theory Values
  imports PrimCodecs
begin

text \<open>
  The Go values the marshaller takes and returns, by the cases of its type switch, and the
  value types of ignite_types.go. \<open>VNilOf\<close> is a nil pointer, slice or map of some Go type,
  with the type code getTypeId gives for that type, if it gives one. A value whose methods the
  marshaller calls back (a Binarylizable, an Enum) is what those methods do: the list of the
  writes of its Write method, the names and ordinals of its enum.
\<close>

section \<open>Values\<close>

datatype scalar =
    SBool bool | SUint8 byte | SInt8 byte | SUint16 i16 | SInt16 i16 | SUint32 i32 | SInt32 i32
  | SUint i64 | SInt i64 | SUint64 i64 | SInt64 i64 | SFloat32 i32 | SFloat64 i64

datatype prim_slice =
    PBool "bool list" | PByte "byte list" | PInt8 "byte list" | PUint16 "i16 list" | PInt16 "i16 list"
  | PUint32 "i32 list" | PInt32 "i32 list" | PUint "i64 list" | PInt "i64 list"
  | PUint64 "i64 list" | PInt64 "i64 list" | PFloat32 "i32 list" | PFloat64 "i64 list"

datatype 'd leaf =
    LString string | LUuid uuid | LTime i64 | LDate i64 | LTimestamp gotime | LDecimal 'd

datatype 'd leaf_array =
    AString "string list" | AStringP "string option list"
  | AUuid "uuid list" | AUuidP "uuid option list"
  | ATime "i64 list" | ATimeP "i64 option list"
  | ADate "i64 list" | ADateP "i64 option list"
  | ATimestamp "gotime list" | ATimestampP "gotime option list"
  | ADecimal "'d list" | ADecimalP "'d option list"

text \<open>A binary enum keeps its bytes beside the ordinal and the names.\<close>

record binary_enum =
  enumOrd :: i32
  enumValName :: string
  enumTypeId :: i32
  enumTypeName :: string
  enumData :: "byte list"

datatype MarshallerPlatform = JavaMarshaller | DotNetMarshaller

record go_enum =
  goEnumTypeName :: "gerror + string"
  goEnumOrdinal :: int
  goEnumValues :: "(string \<times> int) list"
  goEnumPlatform :: MarshallerPlatform

datatype 'd goval =
    VNil
  | VNilOf "TypeDesc option"
  | VScalar scalar
  | VSlice prim_slice
  | VLeaf "'d leaf"
  | VArray "'d leaf_array"
  | VObjects "'d goval list"
  | VCollection byte "'d goval list" bool
  | VMap byte "('d goval \<times> 'd goval) list" bool
  | VBinaryObject "byte list"
  | VBinaryEnum binary_enum
  | VBinarylizable "gerror + string" string MarshallerPlatform "(string \<times> i32 \<times> 'd goval) list" "gerror option"
  | VEnumArray "(i32 \<times> string) option" "binary_enum option list" bool
  | VEnum go_enum
  | VOptimized "byte list"
  | VGoMap "('d goval \<times> 'd goval) list"
  | VGoSlice "'d goval list"
  | VEnumSlice "gerror + string" "'d goval list"
  | VClass igniteType
  | VProxy "igniteType list"
  | VUnsupported

section \<open>Collections and maps\<close>

definition UserSet :: byte where "UserSet = - 1"
definition UserCollection :: byte where "UserCollection = 0"
definition ArrayList :: byte where "ArrayList = 1"
definition LinkedList :: byte where "LinkedList = 2"
definition HashSet :: byte where "HashSet = 3"
definition LinkedHashSet :: byte where "LinkedHashSet = 4"
definition SingletonList :: byte where "SingletonList = 5"
definition UserMap :: byte where "UserMap = 0"
definition HashMap :: byte where "HashMap = 1"
definition LinkedHashMap :: byte where "LinkedHashMap = 2"

definition newIgniteCollection :: "byte \<Rightarrow> 'd goval list \<Rightarrow> 'd goval" where
  "newIgniteCollection kind values = VCollection kind values True"

definition NewUserCollection :: "'d goval list \<Rightarrow> 'd goval" where
  "NewUserCollection = newIgniteCollection UserCollection"

definition NewArrayList :: "'d goval list \<Rightarrow> 'd goval" where
  "NewArrayList = newIgniteCollection ArrayList"

definition NewLinkedList :: "'d goval list \<Rightarrow> 'd goval" where
  "NewLinkedList = newIgniteCollection LinkedList"

definition NewSingletonList :: "'d goval \<Rightarrow> 'd goval" where
  "NewSingletonList v = newIgniteCollection SingletonList [v]"

definition NewHashSet :: "'d goval list \<Rightarrow> 'd goval" where
  "NewHashSet = newIgniteCollection HashSet"

definition NewLinkedHashSet :: "'d goval list \<Rightarrow> 'd goval" where
  "NewLinkedHashSet = newIgniteCollection LinkedHashSet"

definition newIgniteMap :: "byte \<Rightarrow> ('d goval \<times> 'd goval) list \<Rightarrow> 'd goval" where
  "newIgniteMap kind entries = VMap kind entries True"

definition NewUserMap :: "('d goval \<times> 'd goval) list \<Rightarrow> 'd goval" where
  "NewUserMap = newIgniteMap UserMap"

definition NewHashMap :: "('d goval \<times> 'd goval) list \<Rightarrow> 'd goval" where
  "NewHashMap = newIgniteMap HashMap"

definition NewLinkedHashMap :: "('d goval \<times> 'd goval) list \<Rightarrow> 'd goval" where
  "NewLinkedHashMap = newIgniteMap LinkedHashMap"

definition toIgniteMap :: "byte \<Rightarrow> ('d goval \<times> 'd goval) list option \<Rightarrow> 'd goval" where
  "toIgniteMap kind m = (case m of None \<Rightarrow> VMap kind [] False | Some es \<Rightarrow> newIgniteMap kind es)"

definition ToUserMap :: "('d goval \<times> 'd goval) list option \<Rightarrow> 'd goval" where
  "ToUserMap = toIgniteMap UserMap"

definition ToHashMap :: "('d goval \<times> 'd goval) list option \<Rightarrow> 'd goval" where
  "ToHashMap = toIgniteMap HashMap"

definition ToLinkedHashMap :: "('d goval \<times> 'd goval) list option \<Rightarrow> 'd goval" where
  "ToLinkedHashMap = toIgniteMap LinkedHashMap"

text \<open>
  \<open>conv\<close> is convertAssign into a fresh variable of the element type: the code of ToSlice and
  ToMap, generic in that type. A nil collection gives a nil slice.
\<close>

fun assignAll :: "('d goval \<Rightarrow> gerror + 'a) \<Rightarrow> 'd goval list \<Rightarrow> gerror + 'a list" where
  "assignAll conv [] = Inr []"
| "assignAll conv (v # vs) = (case conv v of
     Inl e \<Rightarrow> Inl (ErrWrap ''invalid key type'' e)
   | Inr x \<Rightarrow> bindE (assignAll conv vs) (\<lambda>xs. Inr (x # xs)))"

definition ToSlice :: "('d goval \<Rightarrow> gerror + 'a) \<Rightarrow> 'd goval list \<Rightarrow> bool \<Rightarrow> gerror + 'a list option" where
  "ToSlice conv values isNotNull =
     (if \<not> isNotNull then Inr None else bindE (assignAll conv values) (\<lambda>xs. Inr (Some xs)))"

fun assignEntries :: "('d goval \<Rightarrow> gerror + 'k) \<Rightarrow> ('d goval \<Rightarrow> gerror + 'v) \<Rightarrow> 'v \<Rightarrow>
    ('d goval \<times> 'd goval) list \<Rightarrow> ('k \<times> 'v) list \<Rightarrow> gerror + ('k \<times> 'v) list" where
  "assignEntries convK convV zeroV [] ret = Inr ret"
| "assignEntries convK convV zeroV ((k, v) # es) ret = (case convK k of
     Inl e \<Rightarrow> Inl (ErrWrap ''invalid key type'' e)
   | Inr key \<Rightarrow>
       (case (if v = VNil then Inr zeroV else convV v) of
          Inl e \<Rightarrow> Inl (ErrWrap ''invalid value type'' e)
        | Inr val \<Rightarrow> assignEntries convK convV zeroV es (AList.update key val ret)))"

definition ToMap :: "('d goval \<Rightarrow> gerror + 'k) \<Rightarrow> ('d goval \<Rightarrow> gerror + 'v) \<Rightarrow> 'v \<Rightarrow>
    ('d goval \<times> 'd goval) list \<Rightarrow> bool \<Rightarrow> gerror + ('k \<times> 'v) list option" where
  "ToMap convK convV zeroV entries isNotNull =
     (if \<not> isNotNull then Inr None
      else bindE (assignEntries convK convV zeroV entries []) (\<lambda>m. Inr (Some m)))"

section \<open>Dates and times of day\<close>

text \<open>
  An instant as seconds and nanoseconds; the UTC day starts at the multiples of 86400 seconds.
  \<open>zone\<close> gives the offset of the local time zone, in seconds, at an instant; \<open>dateLocal\<close> is
  the search of time.Date for the instant that shows a local wall clock time.
\<close>

definition NewTime :: "gotime \<Rightarrow> i64" where
  "NewTime val = word_of_int ((sint (unixSec val) mod 86400) * 1000 + unixNsec val div 1000000)"

definition NewDate :: "gotime \<Rightarrow> i64" where
  "NewDate val = unixSec val * 1000 + word_of_int (unixNsec val div 1000000)"

definition dateTime :: "i64 \<Rightarrow> gotime" where
  "dateTime d = timeUnix (word_of_int (sint d sdiv 1000)) ((sint d smod 1000) * 1000000)"

definition dateLocal :: "(int \<Rightarrow> int) \<Rightarrow> int \<Rightarrow> int" where
  "dateLocal zone wall = (if zone wall = 0 then wall else wall - zone (wall - zone wall))"

definition timeTime :: "(int \<Rightarrow> int) \<Rightarrow> i64 \<Rightarrow> gotime" where
  "timeTime zone t =
     (let sec = sint t div 1000;
          wall = (sec + zone sec) mod 86400
      in \<lparr>unixSec = word_of_int (dateLocal zone wall), unixNsec = (sint t mod 1000) * 1000000\<rparr>)"

lemma millis_word:
  assumes "valid_time t"
  shows "sint (unixSec t * 1000 + word_of_int (unixNsec t div 1000000) :: i64)
    = sint (unixSec t) * 1000 + unixNsec t div 1000000"
proof -
  let ?m = "sint (unixSec t) * 1000 + unixNsec t div 1000000"
  have "0 \<le> unixNsec t div 1000000" "unixNsec t div 1000000 \<le> 999"
    using assms by (auto simp: valid_time_def)
  then have "- (2 ^ 63) \<le> ?m" "?m < 2 ^ 63" using assms by (simp_all add: valid_time_def)
  moreover have "unixSec t * 1000 + word_of_int (unixNsec t div 1000000) = (word_of_int ?m :: i64)" by simp
  ultimately show ?thesis by (simp only: signed_of_int) (simp add: signed_take_bit_int_eq_self)
qed

text \<open>A date keeps its instant to the millisecond, before the epoch as well: converting it
  back gives the instant with the nanoseconds below a millisecond cut off. A time of day is in
  one day of milliseconds, and in UTC it shows the hours, minutes, seconds and milliseconds of
  the instant on the first day of the epoch.\<close>

theorem date_and_time_conversions:
  assumes "valid_time t"
  shows "dateTime (NewDate t) = \<lparr>unixSec = unixSec t, unixNsec = unixNsec t div 1000000 * 1000000\<rparr> \<and>
    0 \<le> sint (NewTime t) \<and> sint (NewTime t) < 86400000 \<and>
    timeTime (\<lambda>_. 0) (NewTime t)
      = \<lparr>unixSec = word_of_int (sint (unixSec t) mod 86400), unixNsec = unixNsec t div 1000000 * 1000000\<rparr>"
proof (intro conjI)
  let ?s = "sint (unixSec t)" and ?k = "unixNsec t div 1000000"
  let ?n = "?k * 1000000" and ?m = "sint (unixSec t) * 1000 + unixNsec t div 1000000"
  have n: "0 \<le> unixNsec t" "unixNsec t < 1000000000" using assms by (simp_all add: valid_time_def)
  then have k: "0 \<le> ?k" "?k \<le> 999" by auto
  then have b: "0 \<le> ?n" "?n < 1000000000" by simp_all
  have kk: "?k = ?n div 1000000" by simp
  have z: "?n mod 1000000 = 0" by simp
  note T = trunc_millis [OF kk b refl, of ?s, unfolded z add_0]
  have s: "sint (NewDate t) = ?m" unfolding NewDate_def by (rule millis_word [OF assms])
  have "word_of_int (?m sdiv 1000) + word_of_int ((?m smod 1000) * 1000000 div 1000000000) = (word_of_int ?s :: i64)"
    by (simp only: wi_hom_add T(1))
  then show "dateTime (NewDate t) = \<lparr>unixSec = unixSec t, unixNsec = ?n\<rparr>"
    unfolding dateTime_def timeUnix_def s T(2) by simp
  let ?d = "?s mod 86400 * 1000 + ?k"
  have m: "0 \<le> ?s mod 86400" "?s mod 86400 < 86400" by simp_all
  then have db: "0 \<le> ?d" "?d < 86400000" using k by linarith+
  have st: "sint (NewTime t) = ?d"
    unfolding NewTime_def using db by (simp only: signed_of_int) (simp add: signed_take_bit_int_eq_self)
  show "0 \<le> sint (NewTime t)" "sint (NewTime t) < 86400000" using st db by simp_all
  have "?d div 1000 = ?s mod 86400" "?d mod 1000 = ?k" using k by simp_all
  then show "timeTime (\<lambda>_. 0) (NewTime t) = \<lparr>unixSec = word_of_int (?s mod 86400), unixNsec = ?n\<rparr>"
    using m by (simp add: timeTime_def Let_def dateLocal_def st)
qed

theorem date_and_time_conversions_witness:
  "dateTime (NewDate \<lparr>unixSec = - 1, unixNsec = 1234567\<rparr>) = \<lparr>unixSec = - 1, unixNsec = 1000000\<rparr>"
proof -
  have "valid_time \<lparr>unixSec = - 1, unixNsec = 1234567\<rparr>" by (simp add: valid_time_def)
  from date_and_time_conversions [OF this] show ?thesis by simp
qed

end
