(* ===== verification/Effects.thy ===== *)
theory Effects
  imports Values
begin

text \<open>
  Computations over a state: the registry of types and the connection behind it. A result is
  paired with the state after it, so that an error keeps the effects that came before it.
  \<open>mwriter\<close> and \<open>mreader\<close> also thread a stream. The server is a parameter: a function from the
  operation code, the bytes of the request and the state of the world to the error or the
  bytes of the response.
\<close>

type_synonym ('s, 'a) prog = "'s \<Rightarrow> 'a res \<times> 's"
type_synonym 's mwriter = "out_stream \<Rightarrow> ('s, out_stream) prog"
type_synonym ('s, 'a) mreader = "in_stream \<Rightarrow> ('s, 'a \<times> in_stream) prog"
type_synonym 'w server = "i16 \<Rightarrow> byte list \<Rightarrow> 'w \<Rightarrow> (gerror + byte list) \<times> 'w"

definition liftP :: "'a res \<Rightarrow> ('s, 'a) prog" where
  "liftP r = (\<lambda>s. (r, s))"

definition returnP :: "'a \<Rightarrow> ('s, 'a) prog" where
  "returnP x = liftP (Inr x)"

definition failP :: "gerror \<Rightarrow> ('s, 'a) prog" where
  "failP e = liftP (Inl (Fail e))"

definition bindP :: "('s, 'a) prog \<Rightarrow> ('a \<Rightarrow> ('s, 'b) prog) \<Rightarrow> ('s, 'b) prog" where
  "bindP m k = (\<lambda>s. case m s of (Inl e, s') \<Rightarrow> (Inl e, s') | (Inr x, s') \<Rightarrow> k x s')"

text \<open>The error, when there is one, passed through a wrapper (fmt.Errorf with a wrapped error).\<close>

definition mapErr :: "(gerror \<Rightarrow> gerror) \<Rightarrow> 'a res \<Rightarrow> 'a res" where
  "mapErr f r = (case r of Inl (Fail e) \<Rightarrow> Inl (Fail (f e)) | Inl e \<Rightarrow> Inl e | Inr x \<Rightarrow> Inr x)"

definition wrapP :: "string \<Rightarrow> ('s, 'a) prog \<Rightarrow> ('s, 'a) prog" where
  "wrapP msg m = (\<lambda>s. case m s of (r, s') \<Rightarrow> (mapErr (ErrWrap msg) r, s'))"

definition liftW :: "writer \<Rightarrow> 's mwriter" where
  "liftW f = (\<lambda>bw. liftP (f bw))"

definition thenMW :: "'s mwriter \<Rightarrow> 's mwriter \<Rightarrow> 's mwriter" where
  "thenMW f g = (\<lambda>bw. bindP (f bw) g)"

definition doMW :: "('s, 'a) prog \<Rightarrow> ('a \<Rightarrow> 's mwriter) \<Rightarrow> 's mwriter" where
  "doMW m k = (\<lambda>bw. bindP m (\<lambda>x. k x bw))"

definition failMW :: "gerror \<Rightarrow> 's mwriter" where
  "failMW e = (\<lambda>bw. failP e)"

definition liftR :: "'a reader \<Rightarrow> ('s, 'a) mreader" where
  "liftR r = (\<lambda>br. liftP (r br))"

definition returnMR :: "'a \<Rightarrow> ('s, 'a) mreader" where
  "returnMR x = liftR (returnR x)"

definition failMR :: "gerror \<Rightarrow> ('s, 'a) mreader" where
  "failMR e = liftR (failR e)"

definition bindMR :: "('s, 'a) mreader \<Rightarrow> ('a \<Rightarrow> ('s, 'b) mreader) \<Rightarrow> ('s, 'b) mreader" where
  "bindMR m k = (\<lambda>br. bindP (m br) (\<lambda>(x, br'). k x br'))"

definition doMR :: "('s, 'a) prog \<Rightarrow> ('a \<Rightarrow> ('s, 'b) mreader) \<Rightarrow> ('s, 'b) mreader" where
  "doMR m k = (\<lambda>br. bindP m (\<lambda>x. k x br))"

definition wrapMR :: "string \<Rightarrow> ('s, 'a) mreader \<Rightarrow> ('s, 'a) mreader" where
  "wrapMR msg m = (\<lambda>br. wrapP msg (m br))"

lemma bindP_simps [simp, monad]:
  "bindP (returnP x) k = k x"
  "bindP (failP e) k = failP e"
  "bindP (liftP (Inr x)) k = k x"
  "bindP (liftP (Inl f)) k = liftP (Inl f)"
  by (simp_all add: bindP_def returnP_def failP_def liftP_def)

lemma bindP_assoc: "bindP (bindP p f) g = bindP p (\<lambda>x. bindP (f x) g)"
  by (rule ext) (simp add: bindP_def split: prod.split sum.split)

lemma bindP_return [simp]: "bindP m returnP = m"
  by (rule ext) (simp add: bindP_def returnP_def liftP_def split: prod.split sum.split)

lemma bindP_Inr_iff:
  "bindP m k s = (Inr y, s'') \<longleftrightarrow> (\<exists>x s'. m s = (Inr x, s') \<and> k x s' = (Inr y, s''))"
  by (cases "m s") (auto simp: bindP_def split: sum.splits)

lemma runP_simps [simp]:
  "returnP x s = (Inr x, s)" "failP e s = (Inl (Fail e), s)" "liftP r s = (r, s)"
  by (simp_all add: returnP_def failP_def liftP_def)

lemma mapErr_simps [simp]:
  "mapErr f (Inr x) = Inr x" "mapErr f (Inl (Fail e)) = Inl (Fail (f e))"
  "mapErr f (Inl Panic) = Inl Panic" "mapErr f (Inl NoFuel) = Inl NoFuel"
  by (simp_all add: mapErr_def)

text \<open>
  One request to the server: the request is written to a fresh stream, the response is read
  from its first byte.
\<close>

definition callServer :: "'w server \<Rightarrow> i16 \<Rightarrow> writer \<Rightarrow> 'a reader \<Rightarrow> ('w, 'a) prog" where
  "callServer srv opCode request response = (\<lambda>w.
     case request (NewBinaryOutputStream 0) of
       Inl f \<Rightarrow> (Inl f, w)
     | Inr bw \<Rightarrow>
         (case srv opCode (Data bw) w of
            (Inl e, w') \<Rightarrow> (Inl (Fail e), w')
          | (Inr bs, w') \<Rightarrow>
              (case response (NewBinaryInputStream bs 0) of
                 Inl f \<Rightarrow> (Inl f, w') | Inr (x, _) \<Rightarrow> (Inr x, w'))))"

section \<open>Writers and readers that leave the state alone\<close>

definition mwrites :: "'s mwriter \<Rightarrow> byte list \<Rightarrow> bool" where
  "mwrites f bs \<longleftrightarrow> (\<forall>bw s. wf_out bw \<longrightarrow> f bw s = (put bs bw, s))"

definition mreads :: "('s, 'a) mreader \<Rightarrow> byte list \<Rightarrow> 'a \<Rightarrow> bool" where
  "mreads r bs x \<longleftrightarrow> (\<forall>pre post off s.
     r \<lparr>ibuf = pre @ bs @ post, ioff = off, ipos = length pre\<rparr> s
       = (Inr (x, \<lparr>ibuf = pre @ bs @ post, ioff = off, ipos = length pre + length bs\<rparr>), s))"

lemma mwrites_lift: "writes f bs \<Longrightarrow> mwrites (liftW f) bs"
  by (simp add: mwrites_def liftW_def writesD)

lemma mwrites_then: "mwrites f as \<Longrightarrow> mwrites g bs \<Longrightarrow> mwrites (thenMW f g) (as @ bs)"
  unfolding mwrites_def thenMW_def
proof (intro allI impI)
  fix bw :: out_stream and s
  assume f: "\<forall>bw s. wf_out bw \<longrightarrow> f bw s = (put as bw, s)"
    and g: "\<forall>bw s. wf_out bw \<longrightarrow> g bw s = (put bs bw, s)" and wf: "wf_out bw"
  show "bindP (f bw) g s = (put (as @ bs) bw, s)"
  proof (cases "put as bw")
    case (Inl e)
    then have "put (as @ bs) bw = Inl e" by (auto simp: put_def split: if_splits)
    with Inl f wf show ?thesis by (simp add: bindP_def)
  next
    case (Inr bw')
    with f g wf wf_out_put [OF wf] put_append [OF wf, of as bs] show ?thesis by (simp add: bindP_def)
  qed
qed

lemma mreads_lift: "reads r bs x \<Longrightarrow> mreads (liftR r) bs x"
  by (simp add: mreads_def liftR_def readsD)

lemma mreads_return: "mreads (returnMR x) [] x"
  by (simp add: returnMR_def mreads_lift reads_return)

lemma mreadsD: "mreads r bs x \<Longrightarrow>
  r \<lparr>ibuf = pre @ bs @ post, ioff = off, ipos = length pre\<rparr> s
    = (Inr (x, \<lparr>ibuf = pre @ bs @ post, ioff = off, ipos = length pre + length bs\<rparr>), s)"
  by (simp add: mreads_def)

lemma mreads_bind:
  assumes "mreads m as x" and "mreads (k x) bs y"
  shows "mreads (bindMR m k) (as @ bs) y"
  unfolding mreads_def
proof (intro allI)
  fix pre post off s
  have "m \<lparr>ibuf = pre @ as @ bs @ post, ioff = off, ipos = length pre\<rparr> s
      = (Inr (x, \<lparr>ibuf = pre @ as @ bs @ post, ioff = off, ipos = length pre + length as\<rparr>), s)"
    using mreadsD [OF assms(1), of pre "bs @ post"] by simp
  moreover have "k x \<lparr>ibuf = (pre @ as) @ bs @ post, ioff = off, ipos = length (pre @ as)\<rparr> s
      = (Inr (y, \<lparr>ibuf = (pre @ as) @ bs @ post, ioff = off, ipos = length (pre @ as) + length bs\<rparr>), s)"
    by (rule mreadsD [OF assms(2)])
  ultimately show "bindMR m k \<lparr>ibuf = pre @ (as @ bs) @ post, ioff = off, ipos = length pre\<rparr> s
      = (Inr (y, \<lparr>ibuf = pre @ (as @ bs) @ post, ioff = off, ipos = length pre + length (as @ bs)\<rparr>), s)"
    by (simp add: bindMR_def bindP_def add.assoc)
qed

lemma mreads_bind_return: "mreads m bs x \<Longrightarrow> mreads (bindMR m (\<lambda>x. returnMR (f x))) bs (f x)"
  using mreads_bind [of m bs x "\<lambda>x. returnMR (f x)" "[]"] by (simp add: mreads_return)

lemma mreads_cong: "mreads r as x \<Longrightarrow> as = bs \<Longrightarrow> x = y \<Longrightarrow> mreads r bs y"
  by simp

lemma mwrites_cong: "mwrites f as \<Longrightarrow> as = bs \<Longrightarrow> mwrites f bs"
  by simp

lemma mreads_ensure:
  "int (length bs) \<ge> n \<Longrightarrow> mreads r bs x \<Longrightarrow> mreads (bindMR (liftR (ensureAvailable n)) (\<lambda>_. r)) bs x"
  by (auto simp: mreads_def bindMR_def liftR_def ensureAvailable_def Available_def)

lemma mreads_wrap: "mreads r bs x \<Longrightarrow> mreads (wrapMR msg r) bs x"
  by (simp add: mreads_def wrapMR_def wrapP_def)

end
