(* ===== verification/Schema.thy ===== *)
theory Schema
  imports Effects
begin

text \<open>
  binary_schema.go: the metadata of binary types, schemas and their footers, the merge of two
  versions of a type, the cache of the metadata and the registry that backs it with the
  server. A Go map is an association list; metadata is a value, because the code copies it
  wherever it hands it out.
\<close>

section \<open>State\<close>

record binaryFieldMeta =
  fldTypeId :: i32
  fldFieldId :: i32

record binarySchema =
  schemaId :: i32
  schFieldIds :: "i32 list"

record binaryMetadata =
  metaTypeId :: i32
  metaTypeName :: string
  affKeyName :: string
  isEnum :: bool
  metaFields :: "(string \<times> binaryFieldMeta) list"
  fieldsOrder :: "string list"
  schemas :: "(i32 \<times> binarySchema) list"
  ordToName :: "(i32 \<times> string) list"
  nameToOrd :: "(string \<times> i32) list"

definition newBinaryMetadata :: "i32 \<Rightarrow> string \<Rightarrow> string \<Rightarrow> binaryMetadata" where
  "newBinaryMetadata typeId typeName affKey =
     \<lparr>metaTypeId = typeId, metaTypeName = typeName, affKeyName = affKey, isEnum = False,
      metaFields = [], fieldsOrder = [], schemas = [], ordToName = [], nameToOrd = []\<rparr>"

definition newEnumMetadata :: "i32 \<Rightarrow> string \<Rightarrow> (string \<times> i32) list \<Rightarrow> binaryMetadata" where
  "newEnumMetadata typeId typeName names =
     \<lparr>metaTypeId = typeId, metaTypeName = typeName, affKeyName = [], isEnum = True,
      metaFields = [], fieldsOrder = [], schemas = [],
      ordToName = fold (\<lambda>(name, ord). AList.update ord name) names [],
      nameToOrd = fold (\<lambda>(name, ord). AList.update name ord) names []\<rparr>"

definition addField :: "string \<Rightarrow> i32 \<Rightarrow> i32 \<Rightarrow> binaryMetadata \<Rightarrow> binaryMetadata" where
  "addField name typeId fieldId meta =
     meta\<lparr>metaFields := AList.update name \<lparr>fldTypeId = typeId, fldFieldId = fieldId\<rparr> (metaFields meta),
          fieldsOrder := fieldsOrder meta @ [name]\<rparr>"

definition addSchema :: "binarySchema \<Rightarrow> binaryMetadata \<Rightarrow> binaryMetadata" where
  "addSchema schema meta = meta\<lparr>schemas := AList.update (schemaId schema) schema (schemas meta)\<rparr>"

text \<open>The copy of an enum is rebuilt from its ordinals and keeps no fields, that of another type
  keeps no enum constants.\<close>

definition copyMeta :: "binaryMetadata \<Rightarrow> binaryMetadata" where
  "copyMeta meta =
     (if isEnum meta
      then meta\<lparr>metaFields := [], fieldsOrder := [], schemas := [],
                ordToName := fold (\<lambda>(ord, name). AList.update ord name) (ordToName meta) [],
                nameToOrd := fold (\<lambda>(ord, name). AList.update name ord) (ordToName meta) []\<rparr>
      else meta\<lparr>ordToName := [], nameToOrd := []\<rparr>)"

definition EnumNames :: "binaryMetadata \<Rightarrow> (string \<times> i32) list option" where
  "EnumNames meta = (if \<not> isEnum meta then None else Some (nameToOrd meta))"

definition lookupName :: "(i32 \<times> string) list \<Rightarrow> i32 \<Rightarrow> string" where
  "lookupName m ord = (case map_of m ord of None \<Rightarrow> [] | Some n \<Rightarrow> n)"

definition EnumName :: "binaryMetadata \<Rightarrow> int \<Rightarrow> string" where
  "EnumName meta ord = (if \<not> isEnum meta then [] else lookupName (ordToName meta) (word_of_int ord))"

section \<open>Schemas and footers\<close>

record binarySchemaBuilder =
  bldSchemaId :: i32
  bldData :: "i32 list"

definition fnv1OffsetBasis :: i32 where "fnv1OffsetBasis = 0x811C9DC5"
definition fnv1Prime :: i32 where "fnv1Prime = 0x01000193"
definition maxOffset1 :: int where "maxOffset1 = 256"
definition maxOffset2 :: int where "maxOffset2 = 65536"

definition newBinarySchemaBuilder :: binarySchemaBuilder where
  "newBinarySchemaBuilder = \<lparr>bldSchemaId = fnv1OffsetBasis, bldData = []\<rparr>"

definition updateSchemaId :: "i32 \<Rightarrow> i32 \<Rightarrow> i32" where
  "updateSchemaId schId fieldId =
     (let schId = schId XOR (fieldId AND 0xFF);
          schId = schId * fnv1Prime;
          schId = schId XOR (signed_drop_bit 8 fieldId AND 0xFF);
          schId = schId * fnv1Prime;
          schId = schId XOR (signed_drop_bit 16 fieldId AND 0xFF);
          schId = schId * fnv1Prime;
          schId = schId XOR (signed_drop_bit 24 fieldId AND 0xFF);
          schId = schId * fnv1Prime
      in schId)"

definition AddField :: "i32 \<Rightarrow> i32 \<Rightarrow> binarySchemaBuilder \<Rightarrow> binarySchemaBuilder" where
  "AddField fieldId offset bld =
     \<lparr>bldSchemaId = updateSchemaId (bldSchemaId bld) fieldId,
      bldData = (bldData bld @ [fieldId]) @ [offset]\<rparr>"

text \<open>The even places of the builder's data.\<close>

fun everySecond :: "'a list \<Rightarrow> 'a list" where
  "everySecond [] = []"
| "everySecond [x] = [x]"
| "everySecond (x # y # zs) = x # everySecond zs"

definition BuildSchema :: "binarySchemaBuilder \<Rightarrow> binarySchema" where
  "BuildSchema bld = \<lparr>schemaId = bldSchemaId bld, schFieldIds = everySecond (bldData bld)\<rparr>"

definition offsetSize :: "i32 \<Rightarrow> nat" where
  "offsetSize lastOffset =
     (if sint lastOffset < maxOffset1 then 1 else if sint lastOffset < maxOffset2 then 2 else 4)"

definition writeOffset :: "nat \<Rightarrow> i32 \<Rightarrow> writer" where
  "writeOffset fldSize offset =
     (if fldSize = 1 then WriteInt8 (ucast offset)
      else if fldSize = 2 then WriteInt16 (ucast offset) else WriteInt32 offset)"

fun writeFooterFrom :: "nat \<Rightarrow> bool \<Rightarrow> i32 list \<Rightarrow> writer" where
  "writeFooterFrom fldSize compact (fieldId # offset # rest) =
     seqW [(if \<not> compact then WriteInt32 fieldId else skipW), writeOffset fldSize offset,
           writeFooterFrom fldSize compact rest]"
| "writeFooterFrom fldSize compact _ = skipW"

definition WriteFooter :: "bool \<Rightarrow> binarySchemaBuilder \<Rightarrow> out_stream \<Rightarrow> (nat \<times> out_stream) res" where
  "WriteFooter compact bld bw =
     (if length (bldData bld) div 2 = 0 then Inr (0, bw)
      else let fldSize = offsetSize (last (bldData bld))
           in bindE (writeFooterFrom fldSize compact (bldData bld) bw) (\<lambda>bw. Inr (fldSize, bw)))"

section \<open>Merging metadata\<close>

text \<open>The new names are added one by one; the first conflict ends the merge.\<close>

fun mergeEnum :: "(string \<times> i32) list \<Rightarrow> (string \<times> i32) list \<Rightarrow> (i32 \<times> string) list \<Rightarrow>
    gerror + ((string \<times> i32) list \<times> (i32 \<times> string) list)" where
  "mergeEnum [] names ords = Inr (names, ords)"
| "mergeEnum ((name, ord) # rest) names ords =
     (if (case map_of ords ord of Some prevName \<Rightarrow> prevName \<noteq> name | None \<Rightarrow> False)
      then Inl (ErrMsg ''conflicting enum names for ordinal'')
      else if (case map_of names name of Some prevOrd \<Rightarrow> prevOrd \<noteq> ord | None \<Rightarrow> False)
      then Inl (ErrMsg ''conflicting enum ordinals for name'')
      else mergeEnum rest (AList.update name ord names) (AList.update ord name ords))"

text \<open>A Go map gives the zero value for a missing key.\<close>

definition fieldOf :: "(string \<times> binaryFieldMeta) list \<Rightarrow> string \<Rightarrow> binaryFieldMeta" where
  "fieldOf m f = (case map_of m f of Some x \<Rightarrow> x | None \<Rightarrow> \<lparr>fldTypeId = 0, fldFieldId = 0\<rparr>)"

fun mergeFields :: "binaryMetadata \<Rightarrow> binaryMetadata \<Rightarrow> string list \<Rightarrow>
    bool \<times> (string \<times> binaryFieldMeta) list \<times> string list \<Rightarrow>
    gerror + (bool \<times> (string \<times> binaryFieldMeta) list \<times> string list)" where
  "mergeFields old new [] acc = Inr acc"
| "mergeFields old new (f # fs) (changed, mf, mo) =
     (let fieldMeta = fieldOf (metaFields new) f
      in case map_of (metaFields old) f of
           Some oldField \<Rightarrow>
             if fldTypeId oldField \<noteq> fldTypeId fieldMeta
             then Inl (ErrMsg ''different type for field'')
             else mergeFields old new fs (changed, mf, mo)
         | None \<Rightarrow> mergeFields old new fs (True, AList.update f fieldMeta mf, mo @ [f]))"

definition mergeSchemas :: "binaryMetadata \<Rightarrow> binaryMetadata \<Rightarrow> bool \<times> (i32 \<times> binarySchema) list" where
  "mergeSchemas old new =
     fold (\<lambda>(i, sch) (changed, ms).
         if map_of (schemas old) i = None then (True, AList.update i sch ms) else (changed, ms))
       (schemas new) (False, schemas old)"

text \<open>
  The result is whether the metadata changed and the new metadata, which the code overwrites in
  place. An enum with new names loses its affinity key: the code does not set it.
\<close>

definition mergeMetadata :: "binaryMetadata option \<Rightarrow> binaryMetadata \<Rightarrow> gerror + (bool \<times> binaryMetadata)" where
  "mergeMetadata oldMeta meta = (case oldMeta of
     None \<Rightarrow> Inr (True, meta)
   | Some old \<Rightarrow>
     if metaTypeId old \<noteq> metaTypeId meta then Inl (ErrMsg ''type ids do not match'')
     else if metaTypeName old \<noteq> metaTypeName meta then Inl (ErrMsg ''types have the same typeId'')
     else if isEnum old \<noteq> isEnum meta then Inl (ErrMsg ''both types must be either enums, or not'')
     else if affKeyName old \<noteq> affKeyName meta then Inl (ErrMsg ''different affinity key fields'')
     else if isEnum meta then
       if nameToOrd meta = [] then Inr (False, meta)
       else let names = fold (\<lambda>(name, ord). AList.update name ord) (nameToOrd old) [];
                ords = fold (\<lambda>(name, ord). AList.update ord name) (nameToOrd old) []
            in bindE (mergeEnum (nameToOrd meta) names ords) (\<lambda>(names', ords').
                 if length names' > length (nameToOrd old)
                 then Inr (True, \<lparr>metaTypeId = metaTypeId meta, metaTypeName = metaTypeName meta,
                        affKeyName = [], isEnum = True, metaFields = [], fieldsOrder = [], schemas = [],
                        ordToName = ords', nameToOrd = names'\<rparr>)
                 else Inr (False, meta))
     else
       let mf = fold (\<lambda>f. AList.update f (fieldOf (metaFields old) f)) (fieldsOrder old) []
       in bindE (mergeFields old meta (fieldsOrder meta) (False, mf, fieldsOrder old)) (\<lambda>(ch1, mf', mo').
            let (ch2, ms) = mergeSchemas old meta
            in if ch1 \<or> ch2
               then Inr (True, \<lparr>metaTypeId = metaTypeId meta, metaTypeName = metaTypeName meta,
                      affKeyName = affKeyName meta, isEnum = False, metaFields = mf', fieldsOrder = mo',
                      schemas = ms, ordToName = [], nameToOrd = []\<rparr>)
               else Inr (False, meta)))"

section \<open>The cache\<close>

text \<open>The cache holds its lock during each operation, so an operation is one step.\<close>

record metaCache =
  metaData :: "i32 \<Rightarrow> binaryMetadata option"
  nameMapping :: "i32 \<times> MarshallerPlatform \<Rightarrow> string option"

definition newBinaryMetadataCache :: metaCache where
  "newBinaryMetadataCache = \<lparr>metaData = \<lambda>_. None, nameMapping = \<lambda>_. None\<rparr>"

definition cacheGetMetadata :: "i32 \<Rightarrow> metaCache \<Rightarrow> binaryMetadata option" where
  "cacheGetMetadata typeId c = map_option copyMeta (metaData c typeId)"

definition cacheGetSchema :: "i32 \<Rightarrow> i32 \<Rightarrow> metaCache \<Rightarrow> binarySchema option" where
  "cacheGetSchema typeId schId c = (case metaData c typeId of
     None \<Rightarrow> None | Some meta \<Rightarrow> map_of (schemas meta) schId)"

definition cachePutMetadata :: "binaryMetadata \<Rightarrow> metaCache \<Rightarrow> gerror + (binaryMetadata \<times> metaCache)" where
  "cachePutMetadata meta c =
     bindE (mergeMetadata (metaData c (metaTypeId meta)) meta) (\<lambda>(changed, meta').
       Inr (meta', if changed then c\<lparr>metaData := (metaData c)(metaTypeId meta' \<mapsto> meta')\<rparr> else c))"

definition cacheGetClassName :: "MarshallerPlatform \<Rightarrow> i32 \<Rightarrow> metaCache \<Rightarrow> string" where
  "cacheGetClassName platform typeId c = (case nameMapping c (typeId, platform) of None \<Rightarrow> [] | Some n \<Rightarrow> n)"

definition cacheRegisterClassName :: "MarshallerPlatform \<Rightarrow> i32 \<Rightarrow> string \<Rightarrow> metaCache \<Rightarrow> metaCache" where
  "cacheRegisterClassName platform typeId clsName c =
     (if length clsName \<noteq> 0 then c\<lparr>nameMapping := (nameMapping c)((typeId, platform) \<mapsto> clsName)\<rparr> else c)"

definition cacheClearRegistry :: "metaCache \<Rightarrow> metaCache" where
  "cacheClearRegistry c = \<lparr>metaData = \<lambda>_. None, nameMapping = \<lambda>_. None\<rparr>"

section \<open>Metadata on the wire\<close>

definition writeFieldMeta :: "string \<Rightarrow> binaryFieldMeta \<Rightarrow> writer" where
  "writeFieldMeta fName fMeta =
     seqW [marshalString fName, WriteInt32 (fldTypeId fMeta), WriteInt32 (fldFieldId fMeta)]"

definition writeSchema :: "binarySchema \<Rightarrow> writer" where
  "writeSchema sch =
     seqW [WriteInt32 (schemaId sch),
           writeSequence (length (schFieldIds sch)) (\<lambda>idx. WriteInt32 (schFieldIds sch ! idx))]"

definition writeBinaryMeta :: "binaryMetadata \<Rightarrow> writer" where
  "writeBinaryMeta meta =
     seqW [WriteInt32 (metaTypeId meta),
       marshalString (metaTypeName meta),
       marshalEmptyStringAsNull (affKeyName meta),
       writeSequence (length (fieldsOrder meta)) (\<lambda>idx.
         let fName = fieldsOrder meta ! idx in writeFieldMeta fName (fieldOf (metaFields meta) fName)),
       WriteBool (isEnum meta),
       (if isEnum meta
        then writeMap (nameToOrd meta) (\<lambda>name ord. seqW [marshalString name, WriteInt32 ord]) else skipW),
       writeMap (schemas meta) (\<lambda>_ sch. writeSchema sch)]"

definition readFieldMeta :: "(string \<times> binaryFieldMeta) reader" where
  "readFieldMeta =
     bindR unmarshalString (\<lambda>key.
     bindR ReadInt32 (\<lambda>typeId.
     bindR ReadInt32 (\<lambda>fieldId.
       returnR (key, \<lparr>fldTypeId = typeId, fldFieldId = fieldId\<rparr>))))"

definition readNameOrd :: "(string \<times> i32) reader" where
  "readNameOrd = bindR unmarshalString (\<lambda>name. bindR ReadInt32 (\<lambda>ord. returnR (name, ord)))"

definition readSchema :: "(i32 \<times> binarySchema) reader" where
  "readSchema =
     bindR ReadInt32 (\<lambda>key.
     bindR (readSlice (\<lambda>_. ReadInt32)) (\<lambda>ids.
       returnR (key, \<lparr>schemaId = key, schFieldIds = ids\<rparr>)))"

text \<open>\<open>readEntries\<close> is readMap with the entries in the order of the stream, which the closures
  of the code record beside the map.\<close>

definition readEntries :: "('k \<times> 'v) reader \<Rightarrow> ('k \<times> 'v) list reader" where
  "readEntries kvReader = bindR ReadInt32 (\<lambda>len. readSequence (sint len) (\<lambda>_. kvReader))"

definition toMap :: "('k \<times> 'v) list \<Rightarrow> ('k \<times> 'v) list" where
  "toMap kvs = fold (\<lambda>(k, v). AList.update k v) kvs []"

text \<open>
  The schemas are read last, and an error among them is returned beside the metadata read so
  far; the schemas before the error are in it.
\<close>

fun readSchemasFrom :: "nat \<Rightarrow> (i32 \<times> binarySchema) list \<Rightarrow>
    ((i32 \<times> binarySchema) list \<times> gerror option) reader" where
  "readSchemasFrom 0 acc br = Inr ((acc, None), br)"
| "readSchemasFrom (Suc n) acc br = (case readSchema br of
     Inl (Fail e) \<Rightarrow> Inr ((acc, Some e), br)
   | Inl f \<Rightarrow> Inl f
   | Inr ((k, v), br') \<Rightarrow> readSchemasFrom n (AList.update k v acc) br')"

definition readSchemas :: "((i32 \<times> binarySchema) list \<times> gerror option) reader" where
  "readSchemas = bindR ReadInt32 (\<lambda>len. readSchemasFrom (nat (sint len)) [])"

definition unmarshalBinaryMeta :: "(binaryMetadata \<times> gerror option) reader" where
  "unmarshalBinaryMeta =
     bindR ReadInt32 (\<lambda>typeId.
     bindR unmarshalString (\<lambda>typeName.
     bindR unmarshalString (\<lambda>affKey.
     bindR (readEntries readFieldMeta) (\<lambda>fields.
     bindR ReadBool (\<lambda>enum.
     bindR (if enum then readEntries readNameOrd else returnR []) (\<lambda>names.
     bindR readSchemas (\<lambda>(schs, err).
       returnR (\<lparr>metaTypeId = typeId, metaTypeName = typeName, affKeyName = affKey, isEnum = enum,
         metaFields = toMap fields, fieldsOrder = map fst fields, schemas = schs,
         ordToName = toMap (map (\<lambda>(n, ord). (ord, n)) names), nameToOrd = toMap names\<rparr>, err))))))))"

section \<open>The registry\<close>

record 'w registry =
  regCache :: metaCache
  world :: 'w

definition onServer :: "('w, 'a) prog \<Rightarrow> ('w registry, 'a) prog" where
  "onServer m = (\<lambda>r. case m (world r) of (x, w) \<Rightarrow> (x, r\<lparr>world := w\<rparr>))"

definition onCache :: "(metaCache \<Rightarrow> metaCache) \<Rightarrow> ('w registry, unit) prog" where
  "onCache f = (\<lambda>r. (Inr (), r\<lparr>regCache := f (regCache r)\<rparr>))"

definition fromCache :: "(metaCache \<Rightarrow> 'a) \<Rightarrow> ('w registry, 'a) prog" where
  "fromCache f = (\<lambda>r. (Inr (f (regCache r)), r))"

definition opGetBinaryTypeName :: i16 where "opGetBinaryTypeName = 3000"
definition opRegisterBinaryTypeName :: i16 where "opRegisterBinaryTypeName = 3001"
definition opGetBinaryType :: i16 where "opGetBinaryType = 3002"
definition opPutBinaryType :: i16 where "opPutBinaryType = 3003"

definition platformCode :: "MarshallerPlatform \<Rightarrow> byte" where
  "platformCode p = (case p of JavaMarshaller \<Rightarrow> 0 | DotNetMarshaller \<Rightarrow> 1)"

definition cachePut :: "binaryMetadata \<Rightarrow> ('w registry, binaryMetadata) prog" where
  "cachePut meta = (\<lambda>r. case cachePutMetadata meta (regCache r) of
     Inl e \<Rightarrow> (Inl (Fail e), r) | Inr (meta', c) \<Rightarrow> (Inr meta', r\<lparr>regCache := c\<rparr>))"

text \<open>
  The error of the cache is dropped here, as in the code, and metadata that was read up to an
  error enters the cache all the same.
\<close>

definition requestAndCacheBinaryMeta :: "'w server \<Rightarrow> i32 \<Rightarrow> ('w registry, binaryMetadata option) prog" where
  "requestAndCacheBinaryMeta srv typeId =
     bindP (onServer (callServer srv opGetBinaryType (WriteInt32 typeId)
       (bindR ReadBool (\<lambda>found. if found then bindR unmarshalBinaryMeta (\<lambda>m. returnR (Some m)) else returnR None))))
     (\<lambda>res. case res of
        None \<Rightarrow> returnP None
      | Some (meta, err) \<Rightarrow> (\<lambda>r.
          let (meta', c) = (case cachePutMetadata meta (regCache r) of
                Inl _ \<Rightarrow> (meta, regCache r) | Inr (meta', c) \<Rightarrow> (meta', c))
          in ((case err of Some e \<Rightarrow> Inl (Fail e) | None \<Rightarrow> Inr (Some (copyMeta meta'))), r\<lparr>regCache := c\<rparr>)))"

definition getMetadata :: "'w server \<Rightarrow> i32 \<Rightarrow> ('w registry, binaryMetadata option) prog" where
  "getMetadata srv typeId =
     bindP (fromCache (cacheGetMetadata typeId)) (\<lambda>meta. case meta of
       Some m \<Rightarrow> returnP (Some m)
     | None \<Rightarrow> requestAndCacheBinaryMeta srv typeId)"

definition getSchema :: "'w server \<Rightarrow> i32 \<Rightarrow> i32 \<Rightarrow> ('w registry, binarySchema option) prog" where
  "getSchema srv typeId schId =
     bindP (fromCache (cacheGetSchema typeId schId)) (\<lambda>sch. case sch of
       Some s \<Rightarrow> returnP (Some s)
     | None \<Rightarrow> bindP (requestAndCacheBinaryMeta srv typeId) (\<lambda>_. fromCache (cacheGetSchema typeId schId)))"

definition sendBinaryMeta :: "'w server \<Rightarrow> binaryMetadata \<Rightarrow> ('w registry, unit) prog" where
  "sendBinaryMeta srv meta = onServer (callServer srv opPutBinaryType (writeBinaryMeta meta) (returnR ()))"

definition putMetadata :: "'w server \<Rightarrow> binaryMetadata \<Rightarrow> ('w registry, binaryMetadata) prog" where
  "putMetadata srv meta =
     bindP (fromCache (cacheGetMetadata (metaTypeId meta))) (\<lambda>old.
       case mergeMetadata old meta of
         Inl e \<Rightarrow> failP e
       | Inr (shouldSend, meta') \<Rightarrow>
           bindP (if shouldSend then sendBinaryMeta srv meta' else returnP ()) (\<lambda>_. cachePut meta'))"

definition requestAndCacheClassName :: "'w server \<Rightarrow> MarshallerPlatform \<Rightarrow> i32 \<Rightarrow> ('w registry, string) prog" where
  "requestAndCacheClassName srv platform typeId =
     bindP (onServer (callServer srv opGetBinaryTypeName
       (seqW [WriteInt8 (platformCode platform), WriteInt32 typeId]) unmarshalString)) (\<lambda>clsName.
     bindP (if length clsName > 0 then onCache (cacheRegisterClassName platform typeId clsName) else returnP ())
       (\<lambda>_. returnP clsName))"

definition getClassName :: "'w server \<Rightarrow> MarshallerPlatform \<Rightarrow> i32 \<Rightarrow> ('w registry, string) prog" where
  "getClassName srv platform typeId =
     bindP (fromCache (cacheGetClassName platform typeId)) (\<lambda>clsName.
       if length clsName = 0 then requestAndCacheClassName srv platform typeId else returnP clsName)"

definition sendClassName :: "'w server \<Rightarrow> MarshallerPlatform \<Rightarrow> i32 \<Rightarrow> string \<Rightarrow> ('w registry, bool) prog" where
  "sendClassName srv platform typeId clsName =
     onServer (callServer srv opRegisterBinaryTypeName
       (seqW [WriteInt8 (platformCode platform), WriteInt32 typeId, marshalString clsName]) ReadBool)"

definition registerClassName :: "'w server \<Rightarrow> MarshallerPlatform \<Rightarrow> i32 \<Rightarrow> string \<Rightarrow> ('w registry, unit) prog" where
  "registerClassName srv platform typeId clsName =
     bindP (fromCache (cacheGetClassName platform typeId)) (\<lambda>old.
       if length old > 0 then returnP ()
       else bindP (sendClassName srv platform typeId clsName) (\<lambda>shouldCache.
         if shouldCache then onCache (cacheRegisterClassName platform typeId clsName) else returnP ()))"

definition clearRegistry :: "('w registry, unit) prog" where
  "clearRegistry = onCache cacheClearRegistry"

end
