(* ===== verification/BinObj.thy ===== *)
theory BinObj
  imports Schema
begin

text \<open>
  binary_object.go: the layout of a binary object (header, fields, footer), access to a field
  through the footer, and the writer that builds an object and registers its type. The
  marshaller comes after this theory, so the operations that call it back take the result of
  that call (the writer of a value, the reader of a value) as an argument.
\<close>

section \<open>The environment\<close>

text \<open>
  What the marshaller is configured with: the decimal package, the server behind the registry,
  the footer format, the mapper of names to identifiers, the registered factories. A factory of
  a Binarylizable stands for the Read method of the value it makes, which gets the access to a
  field of the object; a factory of enums gives the values of the ordinals, the zero value of
  its type and the name of that type.
\<close>

datatype ('d, 'w) factory =
    BinFactory "(string \<Rightarrow> ('w registry, 'd goval) prog) \<Rightarrow> ('w registry, 'd goval) prog"
  | EnumFactory "int \<Rightarrow> 'd goval" "'d goval" "gerror + string"

record ('d, 'w) env =
  envApd :: "'d apd"
  envServer :: "'w server"
  envCompact :: bool
  envTypeId :: "string \<Rightarrow> i32"
  envFieldId :: "i32 \<Rightarrow> string \<Rightarrow> i32"
  envFactories :: "i32 \<Rightarrow> ('d, 'w) factory option"

text \<open>BinaryBasicIdMapper: strings.ToLower leaves the letters outside ASCII to the Unicode tables,
  a parameter.\<close>

definition asciiLower :: "char \<Rightarrow> char" where
  "asciiLower c = (let n = of_char c in if (65::nat) \<le> n \<and> n \<le> 90 then char_of (n + 32) else c)"

definition toLower :: "(string \<Rightarrow> string) \<Rightarrow> string \<Rightarrow> string" where
  "toLower unicode s =
     (if \<forall>c \<in> set s. of_char c < (128::nat) then map asciiLower s else unicode s)"

definition basicTypeId :: "(string \<Rightarrow> string) \<Rightarrow> string \<Rightarrow> i32" where
  "basicTypeId unicode typeName = HashCode (toLower unicode typeName)"

definition basicFieldId :: "(string \<Rightarrow> string) \<Rightarrow> i32 \<Rightarrow> string \<Rightarrow> i32" where
  "basicFieldId unicode typeId fldName = HashCode (toLower unicode fldName)"

definition registerTypeFactory ::
  "gerror + string \<Rightarrow> ('d, 'w) factory \<Rightarrow> ('d, 'w) env \<Rightarrow> ('d, 'w) env res" where
  "registerTypeFactory typeName f env = (case typeName of
     Inl _ \<Rightarrow> Inl Panic
   | Inr name \<Rightarrow> Inr (env\<lparr>envFactories := (envFactories env)(envTypeId env name \<mapsto> f)\<rparr>))"

definition getBinarylizableFactory where
  "getBinarylizableFactory env typeId = (case envFactories env typeId of
     Some (BinFactory f) \<Rightarrow> Some f | _ \<Rightarrow> None)"

definition getEnumFactory where
  "getEnumFactory env typeId = (case envFactories env typeId of
     Some (EnumFactory mk zero name) \<Rightarrow> Some (mk, zero, name) | _ \<Rightarrow> None)"

definition clearTypeFactories :: "('d, 'w) env \<Rightarrow> ('d, 'w) env" where
  "clearTypeFactories env = env\<lparr>envFactories := (\<lambda>_. None)\<rparr>"

section \<open>Layout\<close>

definition protoVersion :: byte where "protoVersion = 1"
definition flagsPos :: nat where "flagsPos = 2"
definition typeIdPos :: nat where "typeIdPos = 4"
definition hashCodePos :: nat where "hashCodePos = 8"
definition lenPos :: nat where "lenPos = 12"
definition schemaIdPos :: nat where "schemaIdPos = 16"
definition schemaOffsetPos :: nat where "schemaOffsetPos = 20"
definition headerLength :: nat where "headerLength = 24"

lemmas layout_defs = flagsPos_def typeIdPos_def hashCodePos_def lenPos_def schemaIdPos_def
  schemaOffsetPos_def headerLength_def

definition flagUserType :: i16 where "flagUserType = 0x0001"
definition flagHasSchema :: i16 where "flagHasSchema = 0x0002"
definition flagHasRaw :: i16 where "flagHasRaw = 0x0004"
definition flagOffsetOneByte :: i16 where "flagOffsetOneByte = 0x0008"
definition flagOffsetTwoBytes :: i16 where "flagOffsetTwoBytes = 0x0010"
definition flagCompactFooter :: i16 where "flagCompactFooter = 0x0020"

definition hasFlag :: "i16 \<Rightarrow> i16 \<Rightarrow> bool" where
  "hasFlag flags f \<longleftrightarrow> flags AND f = f"

text \<open>A little-endian number of \<open>n\<close> bytes in a slice; reading past the slice panics.\<close>

definition leAt :: "byte list \<Rightarrow> nat \<Rightarrow> nat \<Rightarrow> nat" where
  "leAt data pos n = of_le (take n (drop pos data))"

definition boFlags :: "byte list \<Rightarrow> i16" where
  "boFlags data = (if length data < headerLength then 0 else word_of_nat (leAt data flagsPos shortBytes))"

definition boSchemaId :: "byte list \<Rightarrow> i32" where
  "boSchemaId data = (if length data < headerLength then 0 else word_of_nat (leAt data schemaIdPos intBytes))"

definition boHashCode :: "byte list \<Rightarrow> i32" where
  "boHashCode data = (if length data < headerLength then 0 else word_of_nat (leAt data hashCodePos intBytes))"

definition boRawTypeId :: "byte list \<Rightarrow> i32" where
  "boRawTypeId data = word_of_nat (leAt data typeIdPos intBytes)"

definition boTypeId :: "('d, 'w) env \<Rightarrow> byte list \<Rightarrow> i32 res" where
  "boTypeId env data =
     (if length data < headerLength then Inl (Fail (ErrMsg ''invalid binary object, data is corrupted''))
      else if boRawTypeId data = unregisteredId
      then bindE (mapErr (ErrWrap ''invalid binary object, data is corrupted'')
             (unmarshalString (NewBinaryInputStream data headerLength))) (\<lambda>(clsName, _). Inr (envTypeId env clsName))
      else Inr (boRawTypeId data))"

text \<open>The bytes of the footer and the size of an offset in it.\<close>

definition boFooter :: "byte list \<Rightarrow> (byte list \<times> nat) res" where
  "boFooter data =
     (if length data < headerLength then Inr ([], 0)
      else let flags = boFlags data
      in if \<not> hasFlag flags flagHasSchema then Inr ([], 0)
      else let fldSize = (if hasFlag flags flagOffsetOneByte then 1
                          else if hasFlag flags flagOffsetTwoBytes then 2 else 4);
               schemaStart = leAt data schemaOffsetPos intBytes;
               end = int (length data) - (if hasFlag flags flagHasRaw then 4 else 0)
           in if int schemaStart \<le> end
              then Inr (drop schemaStart (take (nat end) data), fldSize) else Inl Panic)"

text \<open>The last index of a field id, as the loop over the schema keeps it; the first entry with the
  id in a full footer. Go may read past a footer into the capacity of the slice; here that is a
  panic.\<close>

fun lastIndex :: "nat \<Rightarrow> i32 \<Rightarrow> i32 list \<Rightarrow> int \<Rightarrow> int" where
  "lastIndex idx fieldId [] found = found"
| "lastIndex idx fieldId (i # ids) found =
     lastIndex (Suc idx) fieldId ids (if i = fieldId then int idx else found)"

function scanFooter :: "byte list \<Rightarrow> nat \<Rightarrow> i32 \<Rightarrow> nat \<Rightarrow> nat option res" where
  "scanFooter footer fldSize fieldId pos =
     (if pos < length footer
      then if pos + intBytes \<le> length footer
           then if (word_of_nat (leAt footer pos intBytes) :: i32) = fieldId then Inr (Some (pos + 4))
                else scanFooter footer fldSize fieldId (pos + (4 + fldSize))
           else Inl Panic
      else Inr None)"
  by pat_completeness auto
termination by (relation "measure (\<lambda>(footer, _, _, pos). length footer - pos)") auto

declare scanFooter.simps [simp del]

definition footerOffset :: "byte list \<Rightarrow> nat \<Rightarrow> nat \<Rightarrow> nat res" where
  "footerOffset footer fldSize idx =
     (if idx + fldSize \<le> length footer then Inr (leAt footer idx fldSize) else Inl Panic)"

text \<open>Where the value of a field starts, if the object has the field.\<close>

definition fieldOffset :: "('d, 'w) env \<Rightarrow> byte list \<Rightarrow> string \<Rightarrow> ('w registry, nat option) prog" where
  "fieldOffset env data fldName =
     (let flags = boFlags data in
      if \<not> hasFlag flags flagHasSchema then returnP None
      else bindP (liftP (boTypeId env data)) (\<lambda>typeId.
        let fieldId = envFieldId env typeId fldName in
        bindP (liftP (boFooter data)) (\<lambda>(footer, fldSize).
        bindP (if hasFlag flags flagCompactFooter
               then bindP (getSchema (envServer env) typeId (boSchemaId data)) (\<lambda>sch. case sch of
                      None \<Rightarrow> failP (ErrMsg ''schema not fount'')
                    | Some s \<Rightarrow>
                        let fieldIdx = lastIndex 0 fieldId (schFieldIds s) (- 1)
                        in returnP (if fieldIdx = - 1 then None else Some (nat fieldIdx * fldSize)))
               else liftP (scanFooter footer fldSize fieldId 0)) (\<lambda>idx. case idx of
          None \<Rightarrow> returnP None
        | Some i \<Rightarrow> bindP (liftP (footerOffset footer fldSize i)) (\<lambda>off. returnP (Some off))))))"

definition boField :: "('d, 'w) env \<Rightarrow> ('w registry, 'd goval) mreader \<Rightarrow> byte list \<Rightarrow> string \<Rightarrow>
    ('w registry, 'd goval) prog" where
  "boField env unmarsh data fldName =
     bindP (fieldOffset env data fldName) (\<lambda>off. case off of
       None \<Rightarrow> returnP VNil
     | Some o' \<Rightarrow> bindP (unmarsh (NewBinaryInputStream data o')) (\<lambda>(v, _). returnP v))"

definition boType :: "('d, 'w) env \<Rightarrow> byte list \<Rightarrow> ('w registry, binaryMetadata) prog" where
  "boType env data =
     bindP (liftP (boTypeId env data)) (\<lambda>typeId.
     bindP (getMetadata (envServer env) typeId) (\<lambda>meta. case meta of
       None \<Rightarrow> failP (ErrMsg ''no metadata found for typeId'') | Some m \<Rightarrow> returnP m))"

section \<open>Type codes of values\<close>

definition unsupported :: gerror where
  "unsupported = ErrMsg ''type is not supported''"

fun scalarType :: "scalar \<Rightarrow> TypeDesc" where
  "scalarType (SBool _) = BoolType"
| "scalarType (SUint8 _) = ByteType" | "scalarType (SInt8 _) = ByteType"
| "scalarType (SUint16 _) = CharType" | "scalarType (SInt16 _) = ShortType"
| "scalarType (SUint32 _) = IntType" | "scalarType (SInt32 _) = IntType"
| "scalarType (SUint _) = LongType" | "scalarType (SInt _) = LongType"
| "scalarType (SUint64 _) = LongType" | "scalarType (SInt64 _) = LongType"
| "scalarType (SFloat32 _) = FloatType" | "scalarType (SFloat64 _) = DoubleType"

text \<open>The cases of getTypeId have no []bool: it falls to the slices found by reflection.\<close>

fun sliceTypeId :: "prim_slice \<Rightarrow> TypeDesc" where
  "sliceTypeId (PBool _) = ObjectArrayType"
| "sliceTypeId (PByte _) = ByteArrayType" | "sliceTypeId (PInt8 _) = ByteArrayType"
| "sliceTypeId (PUint16 _) = CharArrayType" | "sliceTypeId (PInt16 _) = ShortArrayType"
| "sliceTypeId (PUint32 _) = IntArrayType" | "sliceTypeId (PInt32 _) = IntArrayType"
| "sliceTypeId (PUint _) = LongArrayType" | "sliceTypeId (PInt _) = LongArrayType"
| "sliceTypeId (PUint64 _) = LongArrayType" | "sliceTypeId (PInt64 _) = LongArrayType"
| "sliceTypeId (PFloat32 _) = FloatArrayType" | "sliceTypeId (PFloat64 _) = DoubleArrayType"

fun leafType :: "'d leaf \<Rightarrow> TypeDesc" where
  "leafType (LString _) = StringType" | "leafType (LUuid _) = UuidType" | "leafType (LTime _) = TimeType"
| "leafType (LDate _) = DateType" | "leafType (LTimestamp _) = TimestampType" | "leafType (LDecimal _) = DecimalType"

fun leafArrayType :: "'d leaf_array \<Rightarrow> TypeDesc" where
  "leafArrayType (AString _) = StringArrayType" | "leafArrayType (AStringP _) = StringArrayType"
| "leafArrayType (AUuid _) = UuidArrayType" | "leafArrayType (AUuidP _) = UuidArrayType"
| "leafArrayType (ATime _) = TimeArrayType" | "leafArrayType (ATimeP _) = TimeArrayType"
| "leafArrayType (ADate _) = DateArrayType" | "leafArrayType (ADateP _) = DateArrayType"
| "leafArrayType (ATimestamp _) = TimestampArrayType" | "leafArrayType (ATimestampP _) = TimestampArrayType"
| "leafArrayType (ADecimal _) = DecimalArrayType" | "leafArrayType (ADecimalP _) = DecimalArrayType"

fun getTypeId :: "'d goval \<Rightarrow> gerror + TypeDesc" where
  "getTypeId VNil = Inr NullType"
| "getTypeId (VNilOf t) = (case t of Some x \<Rightarrow> Inr x | None \<Rightarrow> Inl unsupported)"
| "getTypeId (VScalar s) = Inr (scalarType s)"
| "getTypeId (VSlice s) = Inr (sliceTypeId s)"
| "getTypeId (VLeaf l) = Inr (leafType l)"
| "getTypeId (VArray a) = Inr (leafArrayType a)"
| "getTypeId (VObjects _) = Inr ObjectArrayType"
| "getTypeId (VCollection _ _ _) = Inr CollectionType"
| "getTypeId (VMap _ _ _) = Inr MapType"
| "getTypeId (VBinaryObject _) = Inr BinaryObjectType"
| "getTypeId (VBinaryEnum _) = Inr EnumType"
| "getTypeId (VBinarylizable _ _ _ _ _) = Inr BinaryObjectType"
| "getTypeId (VEnumArray _ _ _) = Inr EnumArrayType"
| "getTypeId (VEnum _) = Inr EnumType"
| "getTypeId (VOptimized _) = Inr optimizedMarshallerObjectType"
| "getTypeId (VGoMap _) = Inr MapType"
| "getTypeId (VGoSlice _) = Inr ObjectArrayType"
| "getTypeId (VEnumSlice _ _) = Inr EnumArrayType"
| "getTypeId (VClass _) = Inl unsupported"
| "getTypeId (VProxy _) = Inl unsupported"
| "getTypeId VUnsupported = Inl unsupported"

section \<open>The writer of an object\<close>

record bin_writer =
  bwNewMeta :: binaryMetadata
  bwOldMeta :: "binaryMetadata option"
  bwSchemaBld :: binarySchemaBuilder
  bwStartPos :: nat
  bwOffset :: nat
  bwFlags :: i16

definition newBinaryWriter :: "('d, 'w) env \<Rightarrow> binaryMetadata \<Rightarrow> binaryMetadata option \<Rightarrow> out_stream \<Rightarrow>
    (bin_writer \<times> out_stream) res" where
  "newBinaryWriter env newMeta oldMeta bw =
     bindE (EnsureAvailable headerLength bw) (\<lambda>bw.
     let startPos = opos bw in
     bindE (SetPositionO (startPos + headerLength) bw) (\<lambda>bw.
     let flags = (if envCompact env then flagUserType OR flagCompactFooter else flagUserType) in
     bindE (if metaTypeId newMeta = unregisteredId then marshalString (metaTypeName newMeta) bw else Inr bw) (\<lambda>bw.
       Inr (\<lparr>bwNewMeta = newMeta, bwOldMeta = oldMeta, bwSchemaBld = newBinarySchemaBuilder,
             bwStartPos = startPos,
             bwOffset = (if metaTypeId newMeta = unregisteredId then opos bw - startPos else headerLength),
             bwFlags = flags\<rparr>, bw))))"

definition typeCode32 :: "TypeDesc \<Rightarrow> i32" where
  "typeCode32 t = scast (typeCode t)"

text \<open>The type of a field: as given, else that of its value, else the known one, else object.\<close>

definition fieldType :: "i32 \<Rightarrow> 'd goval \<Rightarrow> binaryFieldMeta option \<Rightarrow> gerror + i32" where
  "fieldType typeId v oldField =
     (if sint typeId < 0
      then if v \<noteq> VNil
           then (case getTypeId v of Inl e \<Rightarrow> Inl (ErrWrap ''failed to get type id for field'' e)
                 | Inr t \<Rightarrow> Inr (typeCode32 t))
           else (case oldField of Some f \<Rightarrow> Inr (fldTypeId f) | None \<Rightarrow> Inr (typeCode32 BinaryObjectType))
      else Inr typeId)"

definition oldFieldMeta :: "bin_writer \<Rightarrow> string \<Rightarrow> binaryFieldMeta option" where
  "oldFieldMeta wr fldName = (case bwOldMeta wr of None \<Rightarrow> None | Some m \<Rightarrow> map_of (metaFields m) fldName)"

definition writeField0 :: "('d, 'w) env \<Rightarrow> string \<Rightarrow> i32 \<Rightarrow> 'd goval \<Rightarrow> 'w registry mwriter \<Rightarrow>
    bin_writer \<Rightarrow> out_stream \<Rightarrow> ('w registry, bin_writer \<times> out_stream) prog" where
  "writeField0 env fldName typeId v marshalled wr bw =
     (let wr = wr\<lparr>bwFlags := bwFlags wr OR flagHasSchema\<rparr>;
          newMeta = bwNewMeta wr;
          fieldId = envFieldId env (metaTypeId newMeta) fldName;
          oldField = oldFieldMeta wr fldName
      in case fieldType typeId v oldField of
           Inl e \<Rightarrow> failP e
         | Inr ft \<Rightarrow>
             if (case oldField of Some f \<Rightarrow> ft \<noteq> fldTypeId f | None \<Rightarrow> False)
             then failP (ErrMsg ''different type for field'')
             else
               let wr = (if oldField = None then wr\<lparr>bwNewMeta := addField fldName ft fieldId newMeta\<rparr> else wr);
                   wr = wr\<lparr>bwSchemaBld := AddField fieldId (word_of_int (int (opos bw) - int (bwStartPos wr))) (bwSchemaBld wr)\<rparr>
               in bindP (wrapP ''failed to marshall field'' (marshalled bw)) (\<lambda>bw. returnP (wr, bw)))"

definition finalize :: "('d, 'w) env \<Rightarrow> bin_writer \<Rightarrow> 'w registry mwriter" where
  "finalize env wr bw =
     bindP (liftP (if hasFlag (bwFlags wr) flagHasSchema
        then bindE (WriteFooter (envCompact env) (bwSchemaBld wr) bw) (\<lambda>(fldSize, bw').
          Inr (wr\<lparr>bwOffset := opos bw - bwStartPos wr,
                  bwFlags := (if fldSize = 1 then bwFlags wr OR flagOffsetOneByte
                              else if fldSize = 2 then bwFlags wr OR flagOffsetTwoBytes else bwFlags wr)\<rparr>, bw'))
        else Inr (wr, bw))) (\<lambda>(wr, bw).
     let schema = BuildSchema (bwSchemaBld wr);
         retPos = opos bw;
         start = bwStartPos wr
     in bindP (liftP (seqW
          [SetPositionO start,
           WriteType BinaryObjectType,
           WriteInt8 protoVersion,
           WriteUInt16 (bwFlags wr),
           WriteInt32 (metaTypeId (bwNewMeta wr)),
           SetPositionO (start + lenPos),
           WriteInt32 (word_of_int (int retPos - int start)),
           WriteInt32 (schemaId schema),
           WriteInt32 (word_of_nat (bwOffset wr))] bw)) (\<lambda>bw.
        let meta = addSchema schema (bwNewMeta wr);
            meta = (if metaTypeId meta = unregisteredId
                    then (copyMeta meta)\<lparr>metaTypeId := envTypeId env (metaTypeName meta)\<rparr> else meta)
        in bindP (putMetadata (envServer env) meta) (\<lambda>_.
           bindP (liftP (HashCodeO (int (start + headerLength)) (int (start + bwOffset wr)) bw)) (\<lambda>hashCode.
           liftP (seqW [SetPositionO (start + hashCodePos), WriteInt32 hashCode, SetPositionO retPos] bw)))))"

text \<open>What newBinaryObject and marshalBinarylizable check of the registered type.\<close>

definition checkOldMeta :: "string \<Rightarrow> string \<Rightarrow> binaryMetadata option \<Rightarrow> gerror option" where
  "checkOldMeta typeName affKey oldMeta = (case oldMeta of
     None \<Rightarrow> None
   | Some m \<Rightarrow>
       if typeName \<noteq> metaTypeName m then Some (ErrMsg ''types have the same typeId'')
       else if affKey \<noteq> affKeyName m then Some (ErrMsg ''different affinity key field'')
       else if isEnum m then Some (ErrMsg ''already registered as enum'')
       else None)"

record 'd boOptions =
  optIsEnum :: bool
  optOrd :: i32
  optTypeName :: string
  optAffKeyName :: string
  optFields :: "(string \<times> i32 \<times> 'd goval) list"
  optPlatform :: MarshallerPlatform
  optSkipTypeRegistration :: bool

fun writeFields :: "('d, 'w) env \<Rightarrow> ('d goval \<Rightarrow> 'w registry mwriter) \<Rightarrow> (string \<times> i32 \<times> 'd goval) list \<Rightarrow>
    bin_writer \<Rightarrow> out_stream \<Rightarrow> ('w registry, bin_writer \<times> out_stream) prog" where
  "writeFields env marsh [] wr bw = returnP (wr, bw)"
| "writeFields env marsh ((fldName, typeId, v) # fs) wr bw =
     bindP (writeField0 env fldName typeId v (marsh v) wr bw) (\<lambda>(wr, bw). writeFields env marsh fs wr bw)"

definition newBinaryObject :: "('d, 'w) env \<Rightarrow> ('d goval \<Rightarrow> 'w registry mwriter) \<Rightarrow> 'd boOptions \<Rightarrow>
    ('w registry, byte list) prog" where
  "newBinaryObject env marsh opts =
     (let typeId = envTypeId env (optTypeName opts) in
      bindP (wrapP ''failed to get metadata'' (getMetadata (envServer env) typeId)) (\<lambda>oldMeta.
      case checkOldMeta (optTypeName opts) (optAffKeyName opts) oldMeta of
        Some e \<Rightarrow> failP e
      | None \<Rightarrow>
          let typeId = (if optSkipTypeRegistration opts then unregisteredId else typeId);
              newMeta = newBinaryMetadata typeId (optTypeName opts) (optAffKeyName opts)
          in bindP (liftP (newBinaryWriter env newMeta oldMeta (NewBinaryOutputStream headerLength))) (\<lambda>(wr, bw).
             bindP (writeFields env marsh (optFields opts) wr bw) (\<lambda>(wr, bw).
             bindP (finalize env wr bw) (\<lambda>bw.
             bindP (if typeId \<noteq> unregisteredId
                    then registerClassName (envServer env) (optPlatform opts) typeId (optTypeName opts)
                    else returnP ()) (\<lambda>_.
               liftP (Slice (bwStartPos wr) (opos bw) bw)))))))"

end
