(* ===== verification/Marshaller.thy ===== *)
theory Marshaller
  imports BinObj
begin

text \<open>
  marshaller.go and binary_enum.go: writing a value by the cases of its type, reading one by the
  type code in the stream. Reading recurses on nested data without a bound of its own, so
  \<open>unmarshal\<close> takes a budget of nested calls; \<open>Unmarshal\<close> of the code never runs out of it when
  the budget passes the number of bytes left, which is proved.
\<close>

section \<open>Writing\<close>

fun marshalScalar :: "scalar \<Rightarrow> writer" where
  "marshalScalar (SBool v) = seqW [WriteType BoolType, WriteBool v]"
| "marshalScalar (SUint8 v) = seqW [WriteType ByteType, WriteUInt8 v]"
| "marshalScalar (SInt8 v) = seqW [WriteType ByteType, WriteInt8 v]"
| "marshalScalar (SUint16 v) = seqW [WriteType CharType, WriteUInt16 v]"
| "marshalScalar (SInt16 v) = seqW [WriteType ShortType, WriteInt16 v]"
| "marshalScalar (SUint32 v) = seqW [WriteType IntType, WriteUInt32 v]"
| "marshalScalar (SInt32 v) = seqW [WriteType IntType, WriteInt32 v]"
| "marshalScalar (SUint v) = seqW [WriteType LongType, WriteUInt64 v]"
| "marshalScalar (SInt v) = seqW [WriteType LongType, WriteInt64 v]"
| "marshalScalar (SUint64 v) = seqW [WriteType LongType, WriteUInt64 v]"
| "marshalScalar (SInt64 v) = seqW [WriteType LongType, WriteInt64 v]"
| "marshalScalar (SFloat32 v) = seqW [WriteType FloatType, WriteFloat32 v]"
| "marshalScalar (SFloat64 v) = seqW [WriteType DoubleType, WriteFloat64 v]"

definition marshalPrims :: "TypeDesc \<Rightarrow> nat \<Rightarrow> writer \<Rightarrow> writer" where
  "marshalPrims t len w = seqW [WriteType t, WriteInt32 (word_of_nat len), w]"

fun marshalSlice :: "prim_slice \<Rightarrow> writer" where
  "marshalSlice (PBool v) = marshalPrims BoolArrayType (length v) (WriteBoolSlice v)"
| "marshalSlice (PByte v) = marshalByteArray (Some v)"
| "marshalSlice (PInt8 v) = marshalPrims ByteArrayType (length v) (WriteInt8Slice v)"
| "marshalSlice (PUint16 v) = marshalPrims CharArrayType (length v) (WriteUInt16Slice v)"
| "marshalSlice (PInt16 v) = marshalPrims ShortArrayType (length v) (WriteInt16Slice v)"
| "marshalSlice (PUint32 v) = marshalPrims IntArrayType (length v) (WriteUInt32Slice v)"
| "marshalSlice (PInt32 v) = marshalPrims IntArrayType (length v) (WriteInt32Slice v)"
| "marshalSlice (PUint v) = marshalPrims LongArrayType (length v) (WriteUIntSlice v)"
| "marshalSlice (PInt v) = marshalPrims LongArrayType (length v) (WriteIntSlice v)"
| "marshalSlice (PUint64 v) = marshalPrims LongArrayType (length v) (WriteUInt64Slice v)"
| "marshalSlice (PInt64 v) = marshalPrims LongArrayType (length v) (WriteInt64Slice v)"
| "marshalSlice (PFloat32 v) = marshalPrims FloatArrayType (length v) (WriteFloat32Slice v)"
| "marshalSlice (PFloat64 v) = marshalPrims DoubleArrayType (length v) (WriteFloat64Slice v)"

fun marshalLeaf :: "'d apd \<Rightarrow> 'd leaf \<Rightarrow> writer" where
  "marshalLeaf A (LString v) = marshalString v"
| "marshalLeaf A (LUuid v) = marshalUuid (Some v)"
| "marshalLeaf A (LTime v) = seqW [WriteType TimeType, writeTime v]"
| "marshalLeaf A (LDate v) = seqW [WriteType DateType, writeDate v]"
| "marshalLeaf A (LTimestamp v) = seqW [WriteType TimestampType, writeTimestamp v]"
| "marshalLeaf A (LDecimal v) = seqW [WriteType DecimalType, writeDecimal A v]"

fun marshalLeafArray :: "'d apd \<Rightarrow> 'd leaf_array \<Rightarrow> writer" where
  "marshalLeafArray A (AString v) = seqW [WriteType StringArrayType, writeIgniteTypedArray StringType v writeString]"
| "marshalLeafArray A (AStringP v) = seqW [WriteType StringArrayType, writeIgniteTypedArrayP StringType v writeString]"
| "marshalLeafArray A (AUuid v) = seqW [WriteType UuidArrayType, writeIgniteTypedArray UuidType v writeUuid]"
| "marshalLeafArray A (AUuidP v) = seqW [WriteType UuidArrayType, writeIgniteTypedArrayP UuidType v writeUuid]"
| "marshalLeafArray A (ATime v) = seqW [WriteType TimeArrayType, writeIgniteTypedArray TimeType v writeTime]"
| "marshalLeafArray A (ATimeP v) = seqW [WriteType TimeArrayType, writeIgniteTypedArrayP TimeType v writeTime]"
| "marshalLeafArray A (ADate v) = seqW [WriteType DateArrayType, writeIgniteTypedArray DateType v writeDate]"
| "marshalLeafArray A (ADateP v) = seqW [WriteType DateArrayType, writeIgniteTypedArrayP DateType v writeDate]"
| "marshalLeafArray A (ATimestamp v) = seqW [WriteType TimestampArrayType, writeIgniteTypedArray TimestampType v writeTimestamp]"
| "marshalLeafArray A (ATimestampP v) = seqW [WriteType TimestampArrayType, writeIgniteTypedArrayP TimestampType v writeTimestamp]"
| "marshalLeafArray A (ADecimal v) = seqW [WriteType DecimalArrayType, writeIgniteTypedArray DecimalType v (writeDecimal A)]"
| "marshalLeafArray A (ADecimalP v) = seqW [WriteType DecimalArrayType, writeIgniteTypedArrayP DecimalType v (writeDecimal A)]"

definition marshalBinaryEnumArray :: "(i32 \<times> string) option \<Rightarrow> binary_enum option list \<Rightarrow> bool \<Rightarrow> writer" where
  "marshalBinaryEnumArray elType data isNotNull =
     (if \<not> isNotNull then WriteType NullType
      else case elType of
        None \<Rightarrow> thenW (WriteType EnumArrayType) (\<lambda>bw. Inl Panic)
      | Some (typeId, typeName) \<Rightarrow>
          seqW [WriteType EnumArrayType,
                writeClass \<lparr>itypeId = typeId, itypeName = typeName\<rparr>,
                writeSequence (length data) (\<lambda>idx. case data ! idx of
                  Some enum \<Rightarrow> WriteBytes (enumData enum) | None \<Rightarrow> WriteType NullType)])"

definition marshalOptimized :: "byte list \<Rightarrow> writer" where
  "marshalOptimized payload =
     seqW [WriteType optimizedMarshallerObjectType, WriteInt32 (word_of_nat (length payload)), WriteBytes payload]"

text \<open>An unregistered enum is written with the bare string of its name, as the code does.\<close>

definition marshalEnum :: "('d, 'w) env \<Rightarrow> go_enum \<Rightarrow> 'w registry mwriter" where
  "marshalEnum env value = (case goEnumTypeName value of
     Inl e \<Rightarrow> failMW (ErrWrap ''invalid enum value'' e)
   | Inr typeName \<Rightarrow>
     let typeId = envTypeId env typeName in
     doMW (wrapP ''failed to get metadata'' (getMetadata (envServer env) typeId)) (\<lambda>meta.
     doMW (case meta of
         Some m \<Rightarrow> returnP m
       | None \<Rightarrow> putMetadata (envServer env) (newEnumMetadata typeId typeName
            (toMap (map (\<lambda>(name, ord). (name, word_of_int ord)) (goEnumValues value))))) (\<lambda>meta.
     let ord = word_of_int (goEnumOrdinal value) :: i32 in
     if map_of (ordToName meta) ord = None then failMW (ErrMsg ''invalid ordinal'')
     else thenMW (liftW (seqW [WriteType EnumType, WriteInt32 typeId,
              (if typeId = unregisteredId then writeString typeName else skipW), WriteInt32 ord]))
            (\<lambda>bw. if typeId \<noteq> unregisteredId
                   then bindP (registerClassName (envServer env) (goEnumPlatform value) typeId typeName)
                          (\<lambda>_. returnP bw)
                   else returnP bw))))"

definition isNil :: "'d goval \<Rightarrow> bool" where
  "isNil v = (case v of VNil \<Rightarrow> True | VNilOf _ \<Rightarrow> True | _ \<Rightarrow> False)"

definition objectArrayHead :: "nat \<Rightarrow> writer" where
  "objectArrayHead len =
     seqW [WriteType ObjectArrayType, WriteInt32 (typeCode32 objectType), WriteInt32 (word_of_nat len)]"

definition kindHead :: "TypeDesc \<Rightarrow> nat \<Rightarrow> byte \<Rightarrow> writer" where
  "kindHead t len kind = seqW [WriteType t, WriteInt32 (word_of_nat len), WriteInt8 kind]"

definition enumSliceHead :: "('d, 'w) env \<Rightarrow> gerror + string \<Rightarrow> nat \<Rightarrow> writer" where
  "enumSliceHead env name len =
     thenW (WriteType EnumArrayType) (case name of
       Inl e \<Rightarrow> failW (ErrWrap ''failed to marshal enum array'' e)
     | Inr typeName \<Rightarrow> seqW [writeClass \<lparr>itypeId = envTypeId env typeName, itypeName = typeName\<rparr>,
         WriteInt32 (word_of_nat len)])"

text \<open>What marshalBinarylizable does before the Write method of the value runs.\<close>

definition startBinarylizable :: "('d, 'w) env \<Rightarrow> gerror + string \<Rightarrow> string \<Rightarrow> out_stream \<Rightarrow>
    ('w registry, bin_writer \<times> out_stream) prog" where
  "startBinarylizable env name affKey bw = (case name of
     Inl e \<Rightarrow> failP (ErrWrap ''invalid binarylizable'' e)
   | Inr typeName \<Rightarrow>
     let typeId = envTypeId env typeName in
     bindP (wrapP ''failed to get metadata'' (getMetadata (envServer env) typeId)) (\<lambda>oldMeta.
     case checkOldMeta typeName affKey oldMeta of
       Some e \<Rightarrow> failP e
     | None \<Rightarrow> liftP (newBinaryWriter env (newBinaryMetadata typeId typeName affKey) oldMeta bw)))"

definition finishBinarylizable :: "('d, 'w) env \<Rightarrow> MarshallerPlatform \<Rightarrow> gerror option \<Rightarrow> bin_writer \<Rightarrow> 'w registry mwriter" where
  "finishBinarylizable env platform err wr bw = (case err of
     Some e \<Rightarrow> failP e
   | None \<Rightarrow>
       bindP (finalize env wr bw) (\<lambda>bw'.
       bindP (registerClassName (envServer env) platform (metaTypeId (bwNewMeta wr)) (metaTypeName (bwNewMeta wr)))
         (\<lambda>_. returnP bw')))"

text \<open>
  The recursive calls are those of the code: the loops of writeSequence over objects, entries
  and elements, and the field writes that the Write method of a Binarylizable makes.
\<close>

function (sequential) marshal :: "('d, 'w) env \<Rightarrow> 'd goval \<Rightarrow> 'w registry mwriter"
  and marshalAll :: "('d, 'w) env \<Rightarrow> 'd goval list \<Rightarrow> 'w registry mwriter"
  and marshalEntries :: "('d, 'w) env \<Rightarrow> ('d goval \<times> 'd goval) list \<Rightarrow> 'w registry mwriter"
  and marshalWrites :: "('d, 'w) env \<Rightarrow> (string \<times> i32 \<times> 'd goval) list \<Rightarrow> bin_writer \<Rightarrow> out_stream \<Rightarrow>
    ('w registry, bin_writer \<times> out_stream) prog" where
  "marshal env VNil = liftW WriteNull"
| "marshal env (VNilOf t) = liftW WriteNull"
| "marshal env (VScalar s) = liftW (marshalScalar s)"
| "marshal env (VSlice s) = liftW (marshalSlice s)"
| "marshal env (VLeaf l) = liftW (marshalLeaf (envApd env) l)"
| "marshal env (VArray a) = liftW (marshalLeafArray (envApd env) a)"
| "marshal env (VObjects vs) = thenMW (liftW (objectArrayHead (length vs))) (marshalAll env vs)"
| "marshal env (VCollection kind vs isNotNull) =
     (if \<not> isNotNull then liftW (WriteType NullType)
      else thenMW (liftW (kindHead CollectionType (length vs) kind)) (marshalAll env vs))"
| "marshal env (VMap kind es isNotNull) =
     (if \<not> isNotNull then liftW (WriteType NullType)
      else thenMW (liftW (kindHead MapType (length es) kind)) (marshalEntries env es))"
| "marshal env (VBinaryObject data) = liftW (WriteBytes data)"
| "marshal env (VBinaryEnum e) = liftW (WriteBytes (enumData e))"
| "marshal env (VBinarylizable name affKey platform ws err) =
     (\<lambda>bw. bindP (startBinarylizable env name affKey bw) (\<lambda>(wr, bw).
            bindP (marshalWrites env ws wr bw) (\<lambda>(wr, bw). finishBinarylizable env platform err wr bw)))"
| "marshal env (VEnumArray elType data isNotNull) = liftW (marshalBinaryEnumArray elType data isNotNull)"
| "marshal env (VEnum e) = marshalEnum env e"
| "marshal env (VOptimized payload) = liftW (marshalOptimized payload)"
| "marshal env (VGoMap es) = thenMW (liftW (kindHead MapType (length es) HashMap)) (marshalEntries env es)"
| "marshal env (VGoSlice vs) = thenMW (liftW (objectArrayHead (length vs))) (marshalAll env vs)"
| "marshal env (VEnumSlice name vs) = thenMW (liftW (enumSliceHead env name (length vs))) (marshalAll env vs)"
| "marshal env (VClass c) = failMW unsupported"
| "marshal env (VProxy p) = failMW unsupported"
| "marshal env VUnsupported = failMW unsupported"
| "marshalAll env [] = liftW skipW"
| "marshalAll env (v # vs) = thenMW (marshal env v) (marshalAll env vs)"
| "marshalEntries env [] = liftW skipW"
| "marshalEntries env ((k, v) # es) = thenMW (marshal env k) (thenMW (marshal env v) (marshalEntries env es))"
| "marshalWrites env [] wr bw = returnP (wr, bw)"
| "marshalWrites env ((fldName, typeId, v) # ws) wr bw =
     bindP (writeField0 env fldName typeId v (marshal env v) wr bw) (\<lambda>(wr, bw). marshalWrites env ws wr bw)"
  by pat_completeness auto
termination
  by (relation "measure (case_sum
       (case_sum (\<lambda>(_, v). size v) (\<lambda>(_, vs). size_list size vs))
       (case_sum (\<lambda>(_, es). size_list (size_prod size size) es)
         (\<lambda>(_, ws, _). size_list (size_prod (\<lambda>_. 0) (size_prod (\<lambda>_. 0) size)) ws)))") simp_all

section \<open>Reading\<close>

definition positionR :: "int reader" where
  "positionR = (\<lambda>br. Inr (int (ipos br), br))"

definition liftPanic :: "'a option \<Rightarrow> 'a reader" where
  "liftPanic x = (case x of None \<Rightarrow> panicR | Some v \<Rightarrow> returnR v)"

definition sized :: "nat \<Rightarrow> 'a reader \<Rightarrow> 'a reader" where
  "sized n r = bindR (ensureAvailable (int n)) (\<lambda>_. r)"

definition readPrims :: "nat \<Rightarrow> (int \<Rightarrow> 'a reader) \<Rightarrow> 'a reader" where
  "readPrims elemSz r =
     bindR (ensureAvailable (int intBytes)) (\<lambda>_.
     bindR ReadInt32 (\<lambda>sz.
     bindR (ensureAvailable (sint sz * int elemSz)) (\<lambda>_. r (sint sz))))"

text \<open>The cases of unmarshal without recursion; None when the type code is not one of them.\<close>

definition mapR :: "('a \<Rightarrow> 'b) \<Rightarrow> 'a reader \<Rightarrow> 'b reader" where
  "mapR f r = bindR r (\<lambda>x. returnR (f x))"

fun readScalar :: "TypeDesc \<Rightarrow> scalar reader option" where
  "readScalar BoolType = Some (sized boolBytes (mapR SBool ReadBool))"
| "readScalar ByteType = Some (sized byteBytes (mapR SInt8 ReadInt8))"
| "readScalar ShortType = Some (sized shortBytes (mapR SInt16 ReadInt16))"
| "readScalar CharType = Some (sized charBytes (mapR SUint16 ReadUInt16))"
| "readScalar IntType = Some (sized intBytes (mapR SInt32 ReadInt32))"
| "readScalar LongType = Some (sized longBytes (mapR SInt64 ReadInt64))"
| "readScalar FloatType = Some (sized intBytes (mapR SFloat32 ReadFloat32))"
| "readScalar DoubleType = Some (sized longBytes (mapR SFloat64 ReadFloat64))"
| "readScalar _ = None"

fun readPrimSlice :: "TypeDesc \<Rightarrow> prim_slice reader option" where
  "readPrimSlice ByteArrayType = Some (mapR PByte readByteArray)"
| "readPrimSlice BoolArrayType = Some (readPrims boolBytes (\<lambda>sz. mapR PBool (ReadBoolSlice sz)))"
| "readPrimSlice ShortArrayType = Some (readPrims shortBytes (\<lambda>sz. mapR PInt16 (ReadInt16Slice sz)))"
| "readPrimSlice CharArrayType = Some (readPrims charBytes (\<lambda>sz. mapR PUint16 (ReadUInt16Slice sz)))"
| "readPrimSlice IntArrayType = Some (readPrims intBytes (\<lambda>sz. mapR PInt32 (ReadInt32Slice sz)))"
| "readPrimSlice LongArrayType = Some (readPrims longBytes (\<lambda>sz. mapR PInt64 (ReadInt64Slice sz)))"
| "readPrimSlice FloatArrayType = Some (readPrims intBytes (\<lambda>sz. mapR PFloat32 (ReadFloat32Slice sz)))"
| "readPrimSlice DoubleArrayType = Some (readPrims longBytes (\<lambda>sz. mapR PFloat64 (ReadFloat64Slice sz)))"
| "readPrimSlice _ = None"

fun readLeaf :: "'d apd \<Rightarrow> TypeDesc \<Rightarrow> 'd leaf reader option" where
  "readLeaf A StringType = Some (mapR LString readString)"
| "readLeaf A UuidType = Some (mapR LUuid readUuid)"
| "readLeaf A TimeType = Some (mapR LTime readTime)"
| "readLeaf A DateType = Some (mapR LDate readDate)"
| "readLeaf A TimestampType = Some (mapR LTimestamp readTimestamp)"
| "readLeaf A DecimalType = Some (mapR LDecimal (readDecimal A))"
| "readLeaf A _ = None"

fun readLeafArray :: "'d apd \<Rightarrow> TypeDesc \<Rightarrow> 'd leaf_array reader option" where
  "readLeafArray A StringArrayType = Some (mapR AStringP (readIgniteTypedArray StringType readString))"
| "readLeafArray A UuidArrayType = Some (mapR AUuidP (readIgniteTypedArray UuidType readUuid))"
| "readLeafArray A TimeArrayType = Some (mapR ATimeP (readIgniteTypedArray TimeType readTime))"
| "readLeafArray A DateArrayType = Some (mapR ADateP (readIgniteTypedArray DateType readDate))"
| "readLeafArray A TimestampArrayType = Some (mapR ATimestampP (readIgniteTypedArray TimestampType readTimestamp))"
| "readLeafArray A DecimalArrayType = Some (mapR ADecimalP (readIgniteTypedArray DecimalType (readDecimal A)))"
| "readLeafArray A _ = None"

definition orElse :: "'a option \<Rightarrow> 'a option \<Rightarrow> 'a option" where
  "orElse x y = (case x of None \<Rightarrow> y | Some _ \<Rightarrow> x)"

definition readFlat :: "'d apd \<Rightarrow> TypeDesc \<Rightarrow> 'd goval reader option" where
  "readFlat A t =
     orElse (map_option (mapR VScalar) (readScalar t))
    (orElse (map_option (mapR VSlice) (readPrimSlice t))
    (orElse (map_option (mapR VLeaf) (readLeaf A t))
            (map_option (mapR VArray) (readLeafArray A t))))"

subsection \<open>Objects and enums\<close>

text \<open>The type byte has been consumed when the header length is checked.\<close>

definition readBinaryObject :: "bool \<Rightarrow> byte list reader" where
  "readBinaryObject wrapped =
     (if wrapped
      then bindR (ensureAvailable (int intBytes)) (\<lambda>_.
           bindR ReadInt32 (\<lambda>sz.
           bindR (ensureAvailable (sint sz + int intBytes)) (\<lambda>_.
           bindR (ReadBytes (sint sz)) (\<lambda>data.
           bindR ReadInt32 (\<lambda>offset.
             if sint offset < 0 \<or> int (length data) < sint offset then panicR
             else returnR (drop (nat (sint offset)) data))))))
      else bindR (ensureAvailable (int headerLength)) (\<lambda>_.
           bindR positionR (\<lambda>pos.
           let startPos = pos - 1 in
           bindR (SetPosition (startPos + int lenPos)) (\<lambda>_.
           bindR ReadInt32 (\<lambda>sz.
           bindR (SetPosition startPos) (\<lambda>_.
           bindR (ensureAvailable (sint sz)) (\<lambda>_. ReadBytes (sint sz))))))))"

text \<open>
  \<open>newBinaryReaderImpl\<close> sorts the names of the fields and ReadField searches them by bisection:
  the test is membership. The conversion into the destination of ReadField belongs to the Read
  method, which the factory stands for.
\<close>

definition readField :: "('d, 'w) env \<Rightarrow> ('w registry, 'd goval) mreader \<Rightarrow> byte list \<Rightarrow> binaryMetadata \<Rightarrow> string \<Rightarrow>
    ('w registry, 'd goval) prog" where
  "readField env unmarsh data meta fldName =
     (if fldName \<in> set (fieldsOrder meta) then boField env unmarsh data fldName
      else failP (ErrMsg ''field not found''))"

definition tryConvertToBinarylizable :: "('d, 'w) env \<Rightarrow> ('w registry, 'd goval) mreader \<Rightarrow> byte list \<Rightarrow>
    ('w registry, 'd goval) prog" where
  "tryConvertToBinarylizable env unmarsh data =
     bindP (wrapP ''failed to get binary object type'' (liftP (boTypeId env data))) (\<lambda>typeId.
     case getBinarylizableFactory env typeId of
       None \<Rightarrow> returnP (VBinaryObject data)
     | Some readObj \<Rightarrow>
         bindP (wrapP ''failed to get binary object metadata'' (getMetadata (envServer env) typeId)) (\<lambda>meta.
         case meta of
           None \<Rightarrow> liftP (Inl Panic)
         | Some m \<Rightarrow> wrapP ''failed to read object'' (readObj (readField env unmarsh data m))))"

definition readEnum :: "(int \<Rightarrow> 'd goval) \<Rightarrow> 'd goval reader" where
  "readEnum mk = bindR (ensureAvailable (int intBytes)) (\<lambda>_. bindR ReadInt32 (\<lambda>ord. returnR (mk (sint ord))))"

definition readEnumBytes :: "int \<Rightarrow> (i32 \<times> byte list) reader" where
  "readEnumBytes startPos =
     bindR (ensureAvailable (int intBytes)) (\<lambda>_.
     bindR ReadInt32 (\<lambda>ord.
     bindR positionR (\<lambda>pos.
     bindR (SetPosition startPos) (\<lambda>_.
     bindR (ReadBytes (pos - startPos)) (\<lambda>data.
       if data = [] then panicR else returnR (ord, typeCode EnumType # tl data))))))"

definition readBinaryEnum :: "('d, 'w) env \<Rightarrow> igniteType \<Rightarrow> int \<Rightarrow> ('w registry, binary_enum) mreader" where
  "readBinaryEnum env cls startPos =
     bindMR (liftR (readEnumBytes startPos)) (\<lambda>(ord, data).
     doMR (wrapP ''failed to get binary object metadata'' (getMetadata (envServer env) (itypeId cls))) (\<lambda>meta.
     case meta of
       None \<Rightarrow> liftR panicR
     | Some m \<Rightarrow>
         if \<not> isEnum m then failMR (ErrMsg ''invalid data from server: not an enum'')
         else returnMR \<lparr>enumOrd = ord, enumValName = lookupName (ordToName m) ord, enumTypeId = itypeId cls,
                enumTypeName = itypeName cls, enumData = data\<rparr>))"

fun readManyM :: "nat \<Rightarrow> ('s, 'a) mreader \<Rightarrow> ('s, 'a list) mreader" where
  "readManyM 0 r = returnMR []"
| "readManyM (Suc n) r = bindMR r (\<lambda>x. bindMR (readManyM n r) (\<lambda>xs. returnMR (x # xs)))"

definition readSizedM :: "int \<Rightarrow> ('s, 'a) mreader \<Rightarrow> ('s, 'a list) mreader" where
  "readSizedM sz r = (if sz < 0 then liftR panicR else readManyM (nat sz) r)"

definition readSliceM :: "('s, 'a) mreader \<Rightarrow> ('s, 'a list) mreader" where
  "readSliceM r =
     bindMR (liftR (bindR (ensureAvailable (int intBytes)) (\<lambda>_. ReadInt32))) (\<lambda>sz. readSizedM (sint sz) r)"

definition readTypeByte :: "byte reader" where
  "readTypeByte = bindR (ensureAvailable (int byteBytes)) (\<lambda>_. ReadInt8)"

text \<open>The code wraps the variable of its result, which is still nil, so the cause is lost.\<close>

definition replaceErr :: "gerror \<Rightarrow> ('s, 'a) prog \<Rightarrow> ('s, 'a) prog" where
  "replaceErr e m = (\<lambda>s. case m s of (r, s') \<Rightarrow> (mapErr (\<lambda>_. e) r, s'))"

definition readBinaryEnumArray :: "('d, 'w) env \<Rightarrow> igniteType \<Rightarrow> ('w registry, 'd goval) mreader" where
  "readBinaryEnumArray env cls =
     (let typeId = (if itypeId cls = unregisteredId then envTypeId env (itypeName cls) else itypeId cls) in
      doMR (replaceErr (ErrMsg ''failed to read enum array'') (getMetadata (envServer env) typeId)) (\<lambda>meta.
      case meta of
        None \<Rightarrow> failMR (ErrMsg ''no metadata found for typeId'')
      | Some m \<Rightarrow>
          bindMR (readSliceM (bindMR (liftR readTypeByte) (\<lambda>t.
            if t = typeCode NullType then returnMR None
            else if t = typeCode EnumType \<or> t = typeCode BinaryEnumType
            then bindMR (liftR positionR) (\<lambda>pos.
                 bindMR (wrapMR ''failed to read enum array'' (liftR readClass)) (\<lambda>c.
                 bindMR (readBinaryEnum env c (pos - 1)) (\<lambda>e. returnMR (Some e))))
            else failMR (ErrMsg ''failed to read enum array, type is not expected'')))) (\<lambda>es.
          returnMR (VEnumArray (Some (metaTypeId m, metaTypeName m)) es True))))"

definition readEnumElem :: "(int \<Rightarrow> 'd goval) \<Rightarrow> 'd goval \<Rightarrow> 'd goval reader" where
  "readEnumElem mk zero = bindR readTypeByte (\<lambda>t.
     if t = typeCode NullType then returnR zero
     else if t = typeCode EnumType \<or> t = typeCode BinaryEnumType
     then (\<lambda>br. mapErr (ErrWrap ''failed to read enum array'') (bindR readClass (\<lambda>_. readEnum mk) br))
     else failR (ErrMsg ''failed to read enum array, type is not expected''))"

definition readEnumArray :: "(int \<Rightarrow> 'd goval) \<Rightarrow> 'd goval \<Rightarrow> gerror + string \<Rightarrow> 'd goval reader" where
  "readEnumArray mk zero name =
     bindR (ensureAvailable (int intBytes)) (\<lambda>_.
     bindR ReadInt32 (\<lambda>sz.
       if sint sz < 0 then panicR
       else bindR (readSequence (sint sz) (\<lambda>_. readEnumElem mk zero)) (\<lambda>vs. returnR (VEnumSlice name vs))))"

definition readEnumValue :: "('d, 'w) env \<Rightarrow> bool \<Rightarrow> ('w registry, 'd goval) mreader" where
  "readEnumValue env isArray =
     bindMR (liftR positionR) (\<lambda>pos.
     bindMR (wrapMR ''failed to read enum cls'' (liftR readClass)) (\<lambda>cls.
     case getEnumFactory env (itypeId cls) of
       Some (mk, zero, name) \<Rightarrow> liftR (if isArray then readEnumArray mk zero name else readEnum mk)
     | None \<Rightarrow>
         if isArray then readBinaryEnumArray env cls
         else bindMR (readBinaryEnum env cls (pos - 1)) (\<lambda>e. returnMR (VBinaryEnum e))))"

subsection \<open>Nested values\<close>

definition readIgniteObjectArray :: "('s, 'd goval) mreader \<Rightarrow> ('s, 'd goval) mreader" where
  "readIgniteObjectArray unmarsh =
     bindMR (wrapMR ''failed to read object array'' (liftR readClass)) (\<lambda>_.
     bindMR (readSliceM unmarsh) (\<lambda>vs. returnMR (VObjects vs)))"

definition readKind :: "(i32 \<times> byte) reader" where
  "readKind =
     bindR (ensureAvailable (int intBytes)) (\<lambda>_.
     bindR ReadInt32 (\<lambda>sz.
     bindR (ensureAvailable (int byteBytes)) (\<lambda>_.
     bindR ReadInt8 (\<lambda>kind. returnR (sz, kind)))))"

definition readIgniteCollection :: "('s, 'd goval) mreader \<Rightarrow> ('s, 'd goval) mreader" where
  "readIgniteCollection unmarsh =
     bindMR (liftR readKind) (\<lambda>(sz, kind).
     bindMR (readSizedM (sint sz) unmarsh) (\<lambda>vs. returnMR (VCollection kind vs True)))"

definition readIgniteMap :: "('s, 'd goval) mreader \<Rightarrow> ('s, 'd goval) mreader" where
  "readIgniteMap unmarsh =
     bindMR (liftR readKind) (\<lambda>(sz, kind).
     bindMR (readSizedM (sint sz) (bindMR unmarsh (\<lambda>k. bindMR unmarsh (\<lambda>v. returnMR (k, v))))) (\<lambda>es.
       returnMR (VMap kind es True)))"

definition readIgniteProxy :: "('s, 'd goval) mreader \<Rightarrow> ('s, 'd goval) mreader" where
  "readIgniteProxy unmarsh =
     bindMR (liftR (readSlice (\<lambda>_. readClass))) (\<lambda>interfaces.
     bindMR unmarsh (\<lambda>_. returnMR (VProxy interfaces)))"

definition unmarshalBody :: "('d, 'w) env \<Rightarrow> ('w registry, 'd goval) mreader \<Rightarrow> TypeDesc \<Rightarrow> ('w registry, 'd goval) mreader" where
  "unmarshalBody env unmarsh t = (case readFlat (envApd env) t of
     Some r \<Rightarrow> liftR r
   | None \<Rightarrow>
     (case t of
        NullType \<Rightarrow> returnMR VNil
      | ObjectArrayType \<Rightarrow> readIgniteObjectArray unmarsh
      | CollectionType \<Rightarrow> readIgniteCollection unmarsh
      | MapType \<Rightarrow> readIgniteMap unmarsh
      | BinaryObjectType \<Rightarrow> bindMR (liftR (readBinaryObject False)) (\<lambda>bo.
          doMR (tryConvertToBinarylizable env unmarsh bo) returnMR)
      | EnumType \<Rightarrow> readEnumValue env False
      | BinaryEnumType \<Rightarrow> readEnumValue env False
      | EnumArrayType \<Rightarrow> readEnumValue env True
      | wrappedObjectType \<Rightarrow> bindMR (liftR (readBinaryObject True)) (\<lambda>bo.
          doMR (tryConvertToBinarylizable env unmarsh bo) returnMR)
      | ClassType \<Rightarrow> liftR (mapR VClass readClass)
      | optimizedMarshallerObjectType \<Rightarrow> liftR (mapR VOptimized readByteArray)
      | proxyType \<Rightarrow> readIgniteProxy unmarsh
      | _ \<Rightarrow> failMR unsupported))"

primrec unmarshal :: "('d, 'w) env \<Rightarrow> nat \<Rightarrow> ('w registry, 'd goval) mreader" where
  "unmarshal env 0 = (\<lambda>br. liftP (Inl NoFuel))"
| "unmarshal env (Suc n) =
     bindMR (liftR readTypeByte) (\<lambda>b. case typeOf b of
       None \<Rightarrow> failMR unsupported | Some t \<Rightarrow> unmarshalBody env (unmarshal env n) t)"

end
