(* ===== verification/MarshalRT.thy ===== *)
theory MarshalRT
  imports Marshaller
begin

text \<open>
  The wire form of values and the round trip of the marshaller: what marshal writes for a value
  that is data (scalars, slices, strings, arrays, collections, maps, nested to any depth),
  unmarshal reads back as the canonical form of the value.
\<close>

section \<open>Flat values\<close>

fun bodyScalar :: "scalar \<Rightarrow> byte list" where
  "bodyScalar (SBool v) = [boolByte v]"
| "bodyScalar (SUint8 v) = [v]" | "bodyScalar (SInt8 v) = [v]"
| "bodyScalar (SUint16 v) = encI16 v" | "bodyScalar (SInt16 v) = encI16 v"
| "bodyScalar (SUint32 v) = encI32 v" | "bodyScalar (SInt32 v) = encI32 v"
| "bodyScalar (SUint v) = encI64 v" | "bodyScalar (SInt v) = encI64 v"
| "bodyScalar (SUint64 v) = encI64 v" | "bodyScalar (SInt64 v) = encI64 v"
| "bodyScalar (SFloat32 v) = encI32 v" | "bodyScalar (SFloat64 v) = encI64 v"

fun canonScalar :: "scalar \<Rightarrow> scalar" where
  "canonScalar (SUint8 v) = SInt8 v"
| "canonScalar (SUint32 v) = SInt32 v"
| "canonScalar (SUint v) = SInt64 v" | "canonScalar (SInt v) = SInt64 v" | "canonScalar (SUint64 v) = SInt64 v"
| "canonScalar s = s"

definition enc32s :: "i32 list \<Rightarrow> byte list" where "enc32s v = concat (map encI32 v)"
definition enc16s :: "i16 list \<Rightarrow> byte list" where "enc16s v = concat (map encI16 v)"
definition enc64s :: "i64 list \<Rightarrow> byte list" where "enc64s v = concat (map encI64 v)"

lemma mem_enc: "mem16 = encI16" "mem32 = encI32" "mem64 = encI64"
  by (rule ext, simp add: mem16_def encI16_def mem32_def encI32_def mem64_def encI64_def)+

lemma length_encs [simp]: "length (enc16s v) = 2 * length v" "length (enc32s w) = 4 * length w" "length (enc64s x) = 8 * length x"
  by (simp_all add: enc16s_def enc32s_def enc64s_def length_concat_const)

text \<open>The type code in the stream: a []bool is written as an array of bool.\<close>

fun sliceType :: "prim_slice \<Rightarrow> TypeDesc" where
  "sliceType (PBool _) = BoolArrayType"
| "sliceType s = sliceTypeId s"

fun sliceLen :: "prim_slice \<Rightarrow> nat" where
  "sliceLen (PBool v) = length v"
| "sliceLen (PByte v) = length v" | "sliceLen (PInt8 v) = length v"
| "sliceLen (PUint16 v) = length v" | "sliceLen (PInt16 v) = length v"
| "sliceLen (PUint32 v) = length v" | "sliceLen (PInt32 v) = length v"
| "sliceLen (PUint v) = length v" | "sliceLen (PInt v) = length v"
| "sliceLen (PUint64 v) = length v" | "sliceLen (PInt64 v) = length v"
| "sliceLen (PFloat32 v) = length v" | "sliceLen (PFloat64 v) = length v"

fun bodySlice :: "prim_slice \<Rightarrow> byte list" where
  "bodySlice (PBool v) = map boolByte v"
| "bodySlice (PByte v) = v" | "bodySlice (PInt8 v) = v"
| "bodySlice (PUint16 v) = enc16s v" | "bodySlice (PInt16 v) = enc16s v"
| "bodySlice (PUint32 v) = enc32s v" | "bodySlice (PInt32 v) = enc32s v"
| "bodySlice (PUint v) = enc64s v" | "bodySlice (PInt v) = enc64s v"
| "bodySlice (PUint64 v) = enc64s v" | "bodySlice (PInt64 v) = enc64s v"
| "bodySlice (PFloat32 v) = enc32s v" | "bodySlice (PFloat64 v) = enc64s v"

fun canonSlice :: "prim_slice \<Rightarrow> prim_slice" where
  "canonSlice (PInt8 v) = PByte v"
| "canonSlice (PUint32 v) = PInt32 v"
| "canonSlice (PUint v) = PInt64 v" | "canonSlice (PInt v) = PInt64 v" | "canonSlice (PUint64 v) = PInt64 v"
| "canonSlice s = s"

text \<open>Every slice but one of bytes must have an element: the fast path panics on an empty one.\<close>

definition valid_slice :: "prim_slice \<Rightarrow> bool" where
  "valid_slice s \<longleftrightarrow> small (sliceLen s) \<and> (case s of PByte _ \<Rightarrow> True | _ \<Rightarrow> sliceLen s \<noteq> 0)"

fun bodyLeaf :: "'d apd \<Rightarrow> 'd leaf \<Rightarrow> byte list" where
  "bodyLeaf A (LString v) = encStr v"
| "bodyLeaf A (LUuid v) = encUuid v"
| "bodyLeaf A (LTime v) = encI64 v"
| "bodyLeaf A (LDate v) = encI64 v"
| "bodyLeaf A (LTimestamp v) = encTimestamp v"
| "bodyLeaf A (LDecimal v) = encDecimal A v"

fun valid_leaf :: "'d apd \<Rightarrow> ('d \<Rightarrow> bool) \<Rightarrow> 'd leaf \<Rightarrow> bool" where
  "valid_leaf A fin (LString v) = small (length v)"
| "valid_leaf A fin (LUuid v) = (length v = 16)"
| "valid_leaf A fin (LTimestamp v) = valid_time v"
| "valid_leaf A fin (LDecimal v) = valid_dec A fin v"
| "valid_leaf A fin _ = True"

definition encArr :: "TypeDesc \<Rightarrow> ('a \<Rightarrow> byte list) \<Rightarrow> 'a option list \<Rightarrow> byte list" where
  "encArr t enc v = lenBytes (length v) @ concat (map (encNullable t enc) v)"

fun bodyLeafArray :: "'d apd \<Rightarrow> 'd leaf_array \<Rightarrow> byte list" where
  "bodyLeafArray A (AString v) = encArr StringType encStr (map Some v)"
| "bodyLeafArray A (AStringP v) = encArr StringType encStr v"
| "bodyLeafArray A (AUuid v) = encArr UuidType encUuid (map Some v)"
| "bodyLeafArray A (AUuidP v) = encArr UuidType encUuid v"
| "bodyLeafArray A (ATime v) = encArr TimeType encI64 (map Some v)"
| "bodyLeafArray A (ATimeP v) = encArr TimeType encI64 v"
| "bodyLeafArray A (ADate v) = encArr DateType encI64 (map Some v)"
| "bodyLeafArray A (ADateP v) = encArr DateType encI64 v"
| "bodyLeafArray A (ATimestamp v) = encArr TimestampType encTimestamp (map Some v)"
| "bodyLeafArray A (ATimestampP v) = encArr TimestampType encTimestamp v"
| "bodyLeafArray A (ADecimal v) = encArr DecimalType (encDecimal A) (map Some v)"
| "bodyLeafArray A (ADecimalP v) = encArr DecimalType (encDecimal A) v"

text \<open>An array of values comes back as an array of pointers.\<close>

fun canonLeafArray :: "'d leaf_array \<Rightarrow> 'd leaf_array" where
  "canonLeafArray (AString v) = AStringP (map Some v)"
| "canonLeafArray (AUuid v) = AUuidP (map Some v)"
| "canonLeafArray (ATime v) = ATimeP (map Some v)"
| "canonLeafArray (ADate v) = ADateP (map Some v)"
| "canonLeafArray (ATimestamp v) = ATimestampP (map Some v)"
| "canonLeafArray (ADecimal v) = ADecimalP (map Some v)"
| "canonLeafArray a = a"

definition arr_ok :: "('a \<Rightarrow> bool) \<Rightarrow> 'a option list \<Rightarrow> bool" where
  "arr_ok P v \<longleftrightarrow> small (length v) \<and> (\<forall>x \<in> set v. pred_option P x)"

fun valid_leaf_array :: "'d apd \<Rightarrow> ('d \<Rightarrow> bool) \<Rightarrow> 'd leaf_array \<Rightarrow> bool" where
  "valid_leaf_array A fin (AString v) = arr_ok (\<lambda>s. small (length s)) (map Some v)"
| "valid_leaf_array A fin (AStringP v) = arr_ok (\<lambda>s. small (length s)) v"
| "valid_leaf_array A fin (AUuid v) = arr_ok (\<lambda>u. length u = 16) (map Some v)"
| "valid_leaf_array A fin (AUuidP v) = arr_ok (\<lambda>u. length u = 16) v"
| "valid_leaf_array A fin (ATime v) = small (length v)"
| "valid_leaf_array A fin (ATimeP v) = small (length v)"
| "valid_leaf_array A fin (ADate v) = small (length v)"
| "valid_leaf_array A fin (ADateP v) = small (length v)"
| "valid_leaf_array A fin (ATimestamp v) = arr_ok valid_time (map Some v)"
| "valid_leaf_array A fin (ATimestampP v) = arr_ok valid_time v"
| "valid_leaf_array A fin (ADecimal v) = arr_ok (valid_dec A fin) (map Some v)"
| "valid_leaf_array A fin (ADecimalP v) = arr_ok (valid_dec A fin) v"

section \<open>Flat values are written\<close>

declare seqW.simps [simp del]

lemma writes_two: "writes f as \<Longrightarrow> writes g bs \<Longrightarrow> writes (seqW [f, g]) (as @ bs)"
  by (rule writes_cong, rule writes_seq_Cons, assumption, rule writes_seq_Cons, assumption, rule writes_seq_Nil) simp

lemma writes_typed: "writes w bs \<Longrightarrow> writes (seqW [WriteType t, w]) (typeCode t # bs)"
  by (rule writes_cong [OF writes_two [OF writes_type(1)]]) simp_all

lemma writes_scalar: "writes (marshalScalar s) (typeCode (scalarType s) # bodyScalar s)"
  by (cases s) (simp_all only: marshalScalar.simps scalarType.simps bodyScalar.simps,
      (rule writes_typed, simp add: wire WriteFloat32_def WriteFloat64_def)+)

lemma writes_prims_len:
  "writes w bs \<Longrightarrow> writes (marshalPrims t n w) (typeCode t # lenBytes n @ bs)"
  unfolding marshalPrims_def
  by (rule writes_cong, rule writes_seq_Cons [OF writes_type(1)], rule writes_seq_Cons [OF writes_len],
      rule writes_seq_Cons, assumption, rule writes_seq_Nil) simp

lemma writes_marshalSlice:
  "valid_slice s \<Longrightarrow> writes (marshalSlice s) (typeCode (sliceType s) # lenBytes (sliceLen s) @ bodySlice s)"
proof (cases s)
  case (PByte v)
  then show ?thesis using writes_marshalByteArray [of v] by (simp add: encBytes_def)
qed (auto simp: valid_slice_def enc16s_def enc32s_def enc64s_def mem_enc [symmetric] intro!: writes_prims_len writes_slices)

lemma writes_marshalLeaf: "valid_leaf A fin l \<Longrightarrow> writes (marshalLeaf A l) (typeCode (leafType l) # bodyLeaf A l)"
proof (cases l)
  case (LUuid u)
  assume "valid_leaf A fin l"
  then have "length u = 16" using LUuid by simp
  then have "writes (marshalUuid (Some u)) (typeCode UuidType # encUuid u)"
    unfolding marshalUuid_def option.case
    by (intro writes_cong [OF writes_seq_Cons [OF writes_type(1) writes_seq_Cons [OF writes_i64(2)
        writes_seq_Cons [OF writes_i64(2) writes_seq_Nil]]]]) (simp add: encUuid_def be64_enc)
  then show ?thesis using LUuid by simp
qed (auto intro!: writes_typed wire simp: writeTime_def writeDate_def)

lemma dec_codec: "apd_ok A fin \<Longrightarrow>
    nullable_codec (writeDecimal A) (readDecimal A) (encDecimal A) (\<lambda>d. d) (valid_dec A fin) DecimalType"
  by unfold_locales (simp_all add: wire reads_readDecimal)

context nullable_codec
begin

lemma array_writes:
  "arr_ok valid xs \<Longrightarrow> writes (seqW [WriteType t, writeIgniteTypedArrayP elType xs wr]) (typeCode t # encArr elType enc xs)"
  unfolding encArr_def by (rule writes_typed, rule array_wr) (simp add: arr_ok_def)

lemma array_writes_all:
  "arr_ok valid (map Some xs) \<Longrightarrow>
    writes (seqW [WriteType t, writeIgniteTypedArray elType xs wr]) (typeCode t # encArr elType enc (map Some xs))"
  using array_wr_all [of xs]
  by (intro writes_typed) (simp add: arr_ok_def encArr_def comp_def)

lemma array_reads:
  "arr_ok valid xs \<Longrightarrow> reads (readIgniteTypedArray elType rd) (encArr elType enc xs) (map (map_option canon) xs)"
  unfolding encArr_def by (rule array_rd) (simp_all add: arr_ok_def)

end

lemmas array_writes = str_array.array_writes uuid_array.array_writes timestamp_array.array_writes
  date_array.array_writes time_array.array_writes
lemmas array_writes_all = str_array.array_writes_all uuid_array.array_writes_all timestamp_array.array_writes_all
  date_array.array_writes_all time_array.array_writes_all
lemmas array_reads = str_array.array_reads uuid_array.array_reads timestamp_array.array_reads
  date_array.array_reads time_array.array_reads

lemma arr_ok_True [simp]: "arr_ok (\<lambda>_. True) v \<longleftrightarrow> small (length v)"
proof -
  have "pred_option (\<lambda>_. True) x" for x :: "'x option" by (cases x) simp_all
  then show ?thesis unfolding arr_ok_def by blast
qed

lemma writes_marshalLeafArray:
  "apd_ok A fin \<Longrightarrow> valid_leaf_array A fin a \<Longrightarrow>
    writes (marshalLeafArray A a) (typeCode (leafArrayType a) # bodyLeafArray A a)"
  by (cases a) (auto intro!: array_writes array_writes_all nullable_codec.array_writes [OF dec_codec]
      nullable_codec.array_writes_all [OF dec_codec])

section \<open>Flat values are read\<close>

lemma reads_mapR: "reads r bs x \<Longrightarrow> reads (mapR f r) bs (f x)"
  unfolding mapR_def by (rule reads_bind_return)

lemma reads_sized: "reads r bs x \<Longrightarrow> length bs = n \<Longrightarrow> reads (sized n r) bs x"
  unfolding sized_def by (rule reads_ensure) simp_all

lemma reads_readPrims:
  assumes "reads (r (int n)) bs x" and "small n" and "length bs = n * elemSz"
  shows "reads (readPrims elemSz r) (lenBytes n @ bs) x"
  unfolding readPrims_def
  using assms by (intro reads_ensure reads_bind [OF reads_len]) (simp_all add: size_defs sint_small reads_ensure)

lemma reads_scalar: "\<exists>r. readScalar (scalarType s) = Some r \<and> reads r (bodyScalar s) (canonScalar s)"
  by (cases s) (auto intro!: reads_sized reads_mapR wire simp: size_defs encI16_def encI32_def encI64_def)

lemma reads_slice:
  "valid_slice s \<Longrightarrow>
    \<exists>r. readPrimSlice (sliceType s) = Some r \<and> reads r (lenBytes (sliceLen s) @ bodySlice s) (canonSlice s)"
proof (cases s)
  case (PByte v)
  assume "valid_slice s"
  then show ?thesis using PByte reads_mapR [OF reads_readByteArray, of v PByte] by (auto simp: valid_slice_def encBytes_def)
next
  case (PInt8 v)
  assume "valid_slice s"
  then show ?thesis using PInt8 reads_mapR [OF reads_readByteArray, of v PByte] by (auto simp: valid_slice_def encBytes_def)
qed (auto simp: valid_slice_def size_defs enc16s_def enc32s_def enc64s_def mem_enc [symmetric] length_concat_const
    intro!: reads_readPrims reads_mapR reads_slices)

lemma reads_leaf:
  "apd_ok A fin \<Longrightarrow> valid_leaf A fin l \<Longrightarrow> \<exists>r. readLeaf A (leafType l) = Some r \<and> reads r (bodyLeaf A l) l"
  by (cases l) (auto intro!: reads_mapR simp: wire reads_readDecimal)

lemma reads_leaf_array:
  "apd_ok A fin \<Longrightarrow> valid_leaf_array A fin a \<Longrightarrow>
    \<exists>r. readLeafArray A (leafArrayType a) = Some r \<and> reads r (bodyLeafArray A a) (canonLeafArray a)"
proof -
  assume A: "apd_ok A fin" and v: "valid_leaf_array A fin a"
  have id: "map (map_option (\<lambda>x. x)) xs = xs" for xs :: "'x option list"
    by (simp add: list.map_ident_strong option.map_ident)
  show ?thesis
    using v by (cases a) (auto intro!: reads_mapR array_reads [unfolded id]
        nullable_codec.array_reads [OF dec_codec [OF A], unfolded id] simp: id)
qed

lemma readFlat_scalar: "readFlat A (scalarType s) = map_option (mapR VScalar) (readScalar (scalarType s))"
  by (cases s) (simp_all add: readFlat_def orElse_def)

lemma readFlat_slice: "readFlat A (sliceType s) = map_option (mapR VSlice) (readPrimSlice (sliceType s))"
  by (cases s) (simp_all add: readFlat_def orElse_def)

lemma readFlat_leaf: "readFlat A (leafType l) = map_option (mapR VLeaf) (readLeaf A (leafType l))"
  by (cases l) (simp_all add: readFlat_def orElse_def)

lemma readFlat_leaf_array: "readFlat A (leafArrayType a) = map_option (mapR VArray) (readLeafArray A (leafArrayType a))"
  by (cases a) (simp_all add: readFlat_def orElse_def)

section \<open>Nested values\<close>

definition pairBytes :: "byte list \<times> byte list \<Rightarrow> byte list" where
  "pairBytes p = fst p @ snd p"

definition kindHeadBytes :: "TypeDesc \<Rightarrow> nat \<Rightarrow> byte \<Rightarrow> byte list" where
  "kindHeadBytes t n kind = typeCode t # lenBytes n @ [kind]"

definition objectHeadBytes :: "nat \<Rightarrow> byte list" where
  "objectHeadBytes n = typeCode ObjectArrayType # encI32 (- 1) @ lenBytes n"

primrec encode :: "'d apd \<Rightarrow> 'd goval \<Rightarrow> byte list" where
  "encode A VNil = [typeCode NullType]"
| "encode A (VNilOf t) = [typeCode NullType]"
| "encode A (VScalar s) = typeCode (scalarType s) # bodyScalar s"
| "encode A (VSlice s) = typeCode (sliceType s) # lenBytes (sliceLen s) @ bodySlice s"
| "encode A (VLeaf l) = typeCode (leafType l) # bodyLeaf A l"
| "encode A (VArray a) = typeCode (leafArrayType a) # bodyLeafArray A a"
| "encode A (VObjects vs) = objectHeadBytes (length vs) @ concat (map (encode A) vs)"
| "encode A (VCollection kind vs isNotNull) =
     (if isNotNull then kindHeadBytes CollectionType (length vs) kind @ concat (map (encode A) vs) else [typeCode NullType])"
| "encode A (VMap kind es isNotNull) =
     (if isNotNull then kindHeadBytes MapType (length es) kind @
        concat (map pairBytes (map (map_prod (encode A) (encode A)) es)) else [typeCode NullType])"
| "encode A (VBinaryObject data) = data"
| "encode A (VBinaryEnum e) = enumData e"
| "encode A (VBinarylizable name affKey platform ws err) = []"
| "encode A (VEnumArray elType data isNotNull) = []"
| "encode A (VEnum e) = []"
| "encode A (VOptimized payload) = typeCode optimizedMarshallerObjectType # encBytes payload"
| "encode A (VGoMap es) = kindHeadBytes MapType (length es) HashMap @
     concat (map pairBytes (map (map_prod (encode A) (encode A)) es))"
| "encode A (VGoSlice vs) = objectHeadBytes (length vs) @ concat (map (encode A) vs)"
| "encode A (VEnumSlice name vs) = []"
| "encode A (VClass c) = []"
| "encode A (VProxy p) = []"
| "encode A VUnsupported = []"

text \<open>What comes back: unsigned integers as signed, typed nils as nil, Go maps and slices as the
  map and the array of objects of the protocol.\<close>

primrec canon :: "'d goval \<Rightarrow> 'd goval" where
  "canon VNil = VNil"
| "canon (VNilOf t) = VNil"
| "canon (VScalar s) = VScalar (canonScalar s)"
| "canon (VSlice s) = VSlice (canonSlice s)"
| "canon (VLeaf l) = VLeaf l"
| "canon (VArray a) = VArray (canonLeafArray a)"
| "canon (VObjects vs) = VObjects (map canon vs)"
| "canon (VCollection kind vs isNotNull) = (if isNotNull then VCollection kind (map canon vs) True else VNil)"
| "canon (VMap kind es isNotNull) = (if isNotNull then VMap kind (map (map_prod canon canon) es) True else VNil)"
| "canon (VBinaryObject data) = VBinaryObject data"
| "canon (VBinaryEnum e) = VBinaryEnum e"
| "canon (VBinarylizable name affKey platform ws err) = VNil"
| "canon (VEnumArray elType data isNotNull) = VNil"
| "canon (VEnum e) = VEnum e"
| "canon (VOptimized payload) = VOptimized payload"
| "canon (VGoMap es) = VMap HashMap (map (map_prod canon canon) es) True"
| "canon (VGoSlice vs) = VObjects (map canon vs)"
| "canon (VEnumSlice name vs) = VNil"
| "canon (VClass c) = VNil"
| "canon (VProxy p) = VNil"
| "canon VUnsupported = VNil"

text \<open>Data: the values that need no type registered with the server.\<close>

definition both :: "bool \<times> bool \<Rightarrow> bool" where "both p \<longleftrightarrow> fst p \<and> snd p"

primrec plain :: "'d apd \<Rightarrow> ('d \<Rightarrow> bool) \<Rightarrow> 'd goval \<Rightarrow> bool" where
  "plain A fin VNil = True"
| "plain A fin (VNilOf t) = True"
| "plain A fin (VScalar s) = True"
| "plain A fin (VSlice s) = valid_slice s"
| "plain A fin (VLeaf l) = valid_leaf A fin l"
| "plain A fin (VArray a) = valid_leaf_array A fin a"
| "plain A fin (VObjects vs) = (small (length vs) \<and> list_all id (map (plain A fin) vs))"
| "plain A fin (VCollection kind vs isNotNull) = (small (length vs) \<and> list_all id (map (plain A fin) vs))"
| "plain A fin (VMap kind es isNotNull) =
     (small (length es) \<and> list_all both (map (map_prod (plain A fin) (plain A fin)) es))"
| "plain A fin (VBinaryObject data) = False"
| "plain A fin (VBinaryEnum e) = False"
| "plain A fin (VBinarylizable name affKey platform ws err) = False"
| "plain A fin (VEnumArray elType data isNotNull) = False"
| "plain A fin (VEnum e) = False"
| "plain A fin (VOptimized payload) = small (length payload)"
| "plain A fin (VGoMap es) = (small (length es) \<and> list_all both (map (map_prod (plain A fin) (plain A fin)) es))"
| "plain A fin (VGoSlice vs) = (small (length vs) \<and> list_all id (map (plain A fin) vs))"
| "plain A fin (VEnumSlice name vs) = False"
| "plain A fin (VClass c) = False"
| "plain A fin (VProxy p) = False"
| "plain A fin VUnsupported = False"

lemma list_all_id: "list_all id (map P vs) \<longleftrightarrow> (\<forall>v \<in> set vs. P v)"
  by (simp add: list_all_iff)

lemma list_all_both: "list_all both (map (map_prod P Q) es) \<longleftrightarrow> (\<forall>(k, v) \<in> set es. P k \<and> Q v)"
  by (auto simp: list_all_iff both_def)

lemma map_pairBytes: "map pairBytes (map (map_prod f g) es) = map (\<lambda>(k, v). f k @ g v) es"
  by (auto simp: pairBytes_def)

subsection \<open>Writing\<close>

lemma mwrites_all:
  "\<forall>v \<in> set vs. mwrites (marshal env v) (enc v) \<Longrightarrow> mwrites (marshalAll env vs) (concat (map enc vs))"
  by (induction vs) (simp_all add: mwrites_lift writes_skip mwrites_then)

lemma mwrites_entries:
  "\<forall>(k, v) \<in> set es. mwrites (marshal env k) (enc k) \<and> mwrites (marshal env v) (enc v) \<Longrightarrow>
    mwrites (marshalEntries env es) (concat (map (\<lambda>(k, v). enc k @ enc v) es))"
  by (induction es) (auto simp: mwrites_lift writes_skip intro!: mwrites_then)

lemma writes_kindHead: "writes (kindHead t n kind) (kindHeadBytes t n kind)"
  unfolding kindHead_def kindHeadBytes_def
  by (rule writes_cong, rule writes_seq_Cons [OF writes_type(1)], rule writes_seq_Cons [OF writes_len],
      rule writes_seq_Cons [OF writes_prims(3)], rule writes_seq_Nil) simp

lemma typeCode32_object: "typeCode32 objectType = - 1"
  by (simp add: typeCode32_def typeCode.simps)

lemma writes_objectHead: "writes (objectArrayHead n) (objectHeadBytes n)"
  unfolding objectArrayHead_def objectHeadBytes_def typeCode32_object
  by (rule writes_cong, rule writes_seq_Cons [OF writes_type(1)], rule writes_seq_Cons [OF writes_i32(1)],
      rule writes_seq_Cons [OF writes_len], rule writes_seq_Nil) simp

lemma writes_optimized: "writes (marshalOptimized p) (typeCode optimizedMarshallerObjectType # encBytes p)"
  unfolding marshalOptimized_def encBytes_def
  by (rule writes_cong, rule writes_seq_Cons [OF writes_type(1)], rule writes_seq_Cons [OF writes_len],
      rule writes_seq_Cons [OF writes_WriteBytes], rule writes_seq_Nil) simp

lemma mwrites_marshal:
  "apd_ok (envApd env) fin \<Longrightarrow> plain (envApd env) fin v \<Longrightarrow> mwrites (marshal env v) (encode (envApd env) v)"
proof (induction v)
  case (VSlice s)
  then show ?case by (simp add: mwrites_lift writes_marshalSlice)
next
  case (VLeaf l)
  then show ?case using writes_marshalLeaf [of "envApd env" fin l] by (simp add: mwrites_lift)
next
  case (VArray a)
  then show ?case using writes_marshalLeafArray [of "envApd env" fin a] by (simp add: mwrites_lift)
next
  case (VObjects vs)
  then show ?case by (simp add: list_all_id mwrites_then mwrites_lift writes_objectHead mwrites_all)
next
  case (VGoSlice vs)
  then show ?case by (simp add: list_all_id mwrites_then mwrites_lift writes_objectHead mwrites_all)
next
  case (VCollection kind vs b)
  then show ?case
    by (simp add: list_all_id mwrites_then mwrites_lift writes_kindHead mwrites_all writes_type)
next
  case (VMap kind es b)
  then have "\<forall>(k, v) \<in> set es. mwrites (marshal env k) (encode (envApd env) k) \<and> mwrites (marshal env v) (encode (envApd env) v)"
    by (fastforce simp: list_all_both)
  then show ?case
    by (simp add: mwrites_then mwrites_lift writes_kindHead writes_type map_pairBytes mwrites_entries del: map_map)
next
  case (VGoMap es)
  then have "\<forall>(k, v) \<in> set es. mwrites (marshal env k) (encode (envApd env) k) \<and> mwrites (marshal env v) (encode (envApd env) v)"
    by (fastforce simp: list_all_both)
  then show ?case
    by (simp add: mwrites_then mwrites_lift writes_kindHead map_pairBytes mwrites_entries del: map_map)
qed (simp_all add: mwrites_lift writes_type writes_scalar writes_optimized)

subsection \<open>Reading\<close>

lemma reads_readTypeByte: "reads readTypeByte [b] b"
  unfolding readTypeByte_def by (rule reads_ensure) (simp_all add: size_defs wire)

lemma mreads_unmarshal_Suc:
  assumes "mreads (unmarshalBody env (unmarshal env n) t) bs x"
  shows "mreads (unmarshal env (Suc n)) (typeCode t # bs) x"
proof -
  have "mreads (unmarshal env (Suc n)) ([typeCode t] @ bs) x"
    unfolding unmarshal.simps
    by (rule mreads_bind [OF mreads_lift [OF reads_readTypeByte]]) (simp add: assms)
  then show ?thesis by simp
qed

lemma mreads_flat:
  "readFlat (envApd env) t = Some r \<Longrightarrow> reads r bs x \<Longrightarrow> mreads (unmarshalBody env um t) bs x"
  by (simp add: unmarshalBody_def mreads_lift)

lemma mreads_many:
  "\<forall>v \<in> set vs. mreads r (enc v) (f v) \<Longrightarrow> mreads (readManyM (length vs) r) (concat (map enc vs)) (map f vs)"
proof (induction vs)
  case Nil
  then show ?case by (simp add: mreads_return)
next
  case (Cons v vs)
  then have 1: "mreads r (enc v) (f v)" and 2: "mreads (readManyM (length vs) r) (concat (map enc vs)) (map f vs)" by simp_all
  have "mreads (readManyM (length (v # vs)) r) (enc v @ concat (map enc vs)) (f v # map f vs)"
    unfolding list.size add_Suc_right add_0_right readManyM.simps by (rule mreads_bind [OF 1 mreads_bind_return [OF 2]])
  then show ?case by simp
qed

lemma mreads_sized:
  "\<forall>v \<in> set vs. mreads r (enc v) (f v) \<Longrightarrow> small (length vs) \<Longrightarrow>
    mreads (readSizedM (sint (word_of_nat (length vs) :: i32)) r) (concat (map enc vs)) (map f vs)"
  by (simp add: readSizedM_def sint_small mreads_many)

lemma mreads_readSliceM:
  assumes "\<forall>v \<in> set vs. mreads r (enc v) (f v)" and "small (length vs)"
  shows "mreads (readSliceM r) (lenBytes (length vs) @ concat (map enc vs)) (map f vs)"
proof -
  have "reads (bindR (ensureAvailable (int intBytes)) (\<lambda>_. ReadInt32)) (lenBytes (length vs)) (word_of_nat (length vs))"
    by (rule reads_ensure) (simp_all add: size_defs reads_len)
  then show ?thesis unfolding readSliceM_def
    by (rule mreads_bind [OF mreads_lift]) (rule mreads_sized [OF assms])
qed

lemma reads_readKind: "reads readKind (lenBytes n @ [kind]) (word_of_nat n, kind)"
  unfolding readKind_def
  by (intro reads_ensure reads_bind [OF reads_len] reads_bind_return [OF reads_prims(2)]) (simp_all add: size_defs)

lemma reads_readClass_object: "reads readClass (encI32 (- 1)) \<lparr>itypeId = - 1, itypeName = []\<rparr>"
  using reads_readClass [of "\<lparr>itypeId = - 1, itypeName = []\<rparr>"]
  by (simp add: encClass_def canonClass_def unregisteredId_def small_def)

lemma mreads_objects:
  assumes "\<forall>v \<in> set vs. mreads um (enc v) (f v)" and "small (length vs)"
  shows "mreads (readIgniteObjectArray um) (encI32 (- 1) @ lenBytes (length vs) @ concat (map enc vs)) (VObjects (map f vs))"
  unfolding readIgniteObjectArray_def
  by (rule mreads_bind [OF mreads_wrap [OF mreads_lift [OF reads_readClass_object]]])
     (rule mreads_bind_return [OF mreads_readSliceM [OF assms]])

lemma mreads_collection:
  assumes "\<forall>v \<in> set vs. mreads um (enc v) (f v)" and "small (length vs)"
  shows "mreads (readIgniteCollection um) ((lenBytes (length vs) @ [kind]) @ concat (map enc vs)) (VCollection kind (map f vs) True)"
  unfolding readIgniteCollection_def
  by (rule mreads_bind [OF mreads_lift [OF reads_readKind]])
     (unfold split_conv, rule mreads_bind_return [OF mreads_sized [OF assms]])

lemma mreads_map:
  assumes "\<forall>(k, v) \<in> set es. mreads um (enc k) (f k) \<and> mreads um (enc v) (f v)" and "small (length es)"
  shows "mreads (readIgniteMap um) ((lenBytes (length es) @ [kind]) @ concat (map (\<lambda>(k, v). enc k @ enc v) es))
    (VMap kind (map (map_prod f f) es) True)"
proof -
  let ?r = "bindMR um (\<lambda>k. bindMR um (\<lambda>v. returnMR (k, v)))"
  have "\<forall>p \<in> set es. mreads ?r ((\<lambda>(k, v). enc k @ enc v) p) (map_prod f f p)"
  proof
    fix p assume "p \<in> set es"
    then have kv: "mreads um (enc (fst p)) (f (fst p))" "mreads um (enc (snd p)) (f (snd p))" using assms(1) by auto
    have "mreads ?r (enc (fst p) @ enc (snd p)) (f (fst p), f (snd p))"
      by (rule mreads_bind [OF kv(1) mreads_bind_return [OF kv(2)]])
    then show "mreads ?r ((\<lambda>(k, v). enc k @ enc v) p) (map_prod f f p)" by (cases p) simp
  qed
  then show ?thesis unfolding readIgniteMap_def
    by (intro mreads_bind [OF mreads_lift [OF reads_readKind]])
       (unfold split_conv, rule mreads_bind_return [OF mreads_sized [OF _ assms(2)]])
qed

lemma body_simps:
  "unmarshalBody env um NullType = returnMR VNil"
  "unmarshalBody env um ObjectArrayType = readIgniteObjectArray um"
  "unmarshalBody env um CollectionType = readIgniteCollection um"
  "unmarshalBody env um MapType = readIgniteMap um"
  "unmarshalBody env um optimizedMarshallerObjectType = liftR (mapR VOptimized readByteArray)"
  by (simp_all add: unmarshalBody_def readFlat_def orElse_def)

lemma concat_elem_length: "v \<in> set vs \<Longrightarrow> length (f v) \<le> length (concat (map f vs))"
  by (induction vs) auto

lemma mreads_unmarshal_null: "n \<noteq> 0 \<Longrightarrow> mreads (unmarshal env n) [typeCode NullType] VNil"
  using mreads_unmarshal_Suc [of env "n - 1" NullType "[]" VNil] by (simp add: body_simps mreads_return)

text \<open>The three shapes of nested values; the budget shrinks by one and the encodings of the parts
  are shorter than that of the whole.\<close>

lemma unmarshal_objects:
  assumes "\<And>v m. v \<in> set vs \<Longrightarrow> length (enc v) \<le> m \<Longrightarrow> mreads (unmarshal env m) (enc v) (f v)"
    and "small (length vs)" and "length (objectHeadBytes (length vs) @ concat (map enc vs)) \<le> n"
  shows "mreads (unmarshal env n) (objectHeadBytes (length vs) @ concat (map enc vs)) (VObjects (map f vs))"
proof -
  obtain m where m: "n = Suc m" "length (concat (map enc vs)) \<le> m"
    using assms(3) by (cases n) (simp_all add: objectHeadBytes_def)
  have "\<forall>v \<in> set vs. mreads (unmarshal env m) (enc v) (f v)"
    using assms(1) m(2) concat_elem_length [of _ vs enc] by (meson le_trans)
  from mreads_unmarshal_Suc [of env m ObjectArrayType, unfolded body_simps, OF mreads_objects [OF this assms(2)]]
  show ?thesis by (simp add: m(1) objectHeadBytes_def)
qed

lemma unmarshal_collection:
  assumes "\<And>v m. v \<in> set vs \<Longrightarrow> length (enc v) \<le> m \<Longrightarrow> mreads (unmarshal env m) (enc v) (f v)"
    and "small (length vs)" and "length (kindHeadBytes CollectionType (length vs) kind @ concat (map enc vs)) \<le> n"
  shows "mreads (unmarshal env n) (kindHeadBytes CollectionType (length vs) kind @ concat (map enc vs))
    (VCollection kind (map f vs) True)"
proof -
  obtain m where m: "n = Suc m" "length (concat (map enc vs)) \<le> m"
    using assms(3) by (cases n) (simp_all add: kindHeadBytes_def)
  have "\<forall>v \<in> set vs. mreads (unmarshal env m) (enc v) (f v)"
    using assms(1) m(2) concat_elem_length [of _ vs enc] by (meson le_trans)
  from mreads_unmarshal_Suc [of env m CollectionType, unfolded body_simps, OF mreads_collection [OF this assms(2)]]
  show ?thesis by (simp add: m(1) kindHeadBytes_def)
qed

lemma unmarshal_map:
  assumes "\<And>k v m. (k, v) \<in> set es \<Longrightarrow> length (enc k) \<le> m \<Longrightarrow> mreads (unmarshal env m) (enc k) (f k)"
    and "\<And>k v m. (k, v) \<in> set es \<Longrightarrow> length (enc v) \<le> m \<Longrightarrow> mreads (unmarshal env m) (enc v) (f v)"
    and "small (length es)"
    and "length (kindHeadBytes MapType (length es) kind @ concat (map (\<lambda>(k, v). enc k @ enc v) es)) \<le> n"
  shows "mreads (unmarshal env n) (kindHeadBytes MapType (length es) kind @ concat (map (\<lambda>(k, v). enc k @ enc v) es))
    (VMap kind (map (map_prod f f) es) True)"
proof -
  obtain m where m: "n = Suc m" "length (concat (map (\<lambda>(k, v). enc k @ enc v) es)) \<le> m"
    using assms(4) by (cases n) (simp_all add: kindHeadBytes_def)
  have "length (enc k) \<le> m \<and> length (enc v) \<le> m" if "(k, v) \<in> set es" for k v
    using concat_elem_length [OF that, of "\<lambda>(k, v). enc k @ enc v"] m(2) by simp
  then have "\<forall>(k, v) \<in> set es. mreads (unmarshal env m) (enc k) (f k) \<and> mreads (unmarshal env m) (enc v) (f v)"
    using assms(1,2) by blast
  from mreads_unmarshal_Suc [of env m MapType, unfolded body_simps, OF mreads_map [OF this assms(3)]]
  show ?thesis by (simp add: m(1) kindHeadBytes_def)
qed

declare unmarshal.simps [simp del]

lemma unmarshal_flat:
  assumes "readFlat (envApd env) t = Some r" and "reads r bs x" and "n \<noteq> 0"
  shows "mreads (unmarshal env n) (typeCode t # bs) x"
  using mreads_unmarshal_Suc [OF mreads_flat [OF assms(1,2)], of "n - 1"] assms(3) by simp

lemma mreads_unmarshal:
  "apd_ok (envApd env) fin \<Longrightarrow> plain (envApd env) fin v \<Longrightarrow> length (encode (envApd env) v) \<le> n \<Longrightarrow>
    mreads (unmarshal env n) (encode (envApd env) v) (canon v)"
proof (induction v arbitrary: n)
  case (VScalar s)
  obtain r where "readScalar (scalarType s) = Some r" "reads r (bodyScalar s) (canonScalar s)"
    using reads_scalar by blast
  then show ?case using VScalar unmarshal_flat [of env "scalarType s" "mapR VScalar r"]
    by (cases n) (simp_all add: readFlat_scalar reads_mapR)
next
  case (VSlice s)
  obtain r where "readPrimSlice (sliceType s) = Some r" "reads r (lenBytes (sliceLen s) @ bodySlice s) (canonSlice s)"
    using reads_slice [of s] VSlice by auto
  then show ?case using VSlice unmarshal_flat [of env "sliceType s" "mapR VSlice r"]
    by (cases n) (simp_all add: readFlat_slice reads_mapR)
next
  case (VLeaf l)
  obtain r where "readLeaf (envApd env) (leafType l) = Some r" "reads r (bodyLeaf (envApd env) l) l"
    using reads_leaf [of "envApd env" fin l] VLeaf by auto
  then show ?case using VLeaf unmarshal_flat [of env "leafType l" "mapR VLeaf r"]
    by (cases n) (simp_all add: readFlat_leaf reads_mapR)
next
  case (VArray a)
  obtain r where "readLeafArray (envApd env) (leafArrayType a) = Some r"
    "reads r (bodyLeafArray (envApd env) a) (canonLeafArray a)"
    using reads_leaf_array [of "envApd env" fin a] VArray by auto
  then show ?case using VArray unmarshal_flat [of env "leafArrayType a" "mapR VArray r"]
    by (cases n) (simp_all add: readFlat_leaf_array reads_mapR)
next
  case (VObjects vs)
  then show ?case using unmarshal_objects [of vs "encode (envApd env)" env canon n] by (simp add: list_all_id)
next
  case (VGoSlice vs)
  then show ?case using unmarshal_objects [of vs "encode (envApd env)" env canon n] by (simp add: list_all_id)
next
  case (VCollection kind vs b)
  then show ?case
    using unmarshal_collection [of vs "encode (envApd env)" env canon kind n] mreads_unmarshal_null [of n env]
    by (cases b) (auto simp: list_all_id)
next
  case (VMap kind es b)
  have "small (length es)" using VMap.prems by simp
  moreover have "\<And>k v m. (k, v) \<in> set es \<Longrightarrow> length (encode (envApd env) k) \<le> m \<Longrightarrow> mreads (unmarshal env m) (encode (envApd env) k) (canon k)"
    "\<And>k v m. (k, v) \<in> set es \<Longrightarrow> length (encode (envApd env) v) \<le> m \<Longrightarrow> mreads (unmarshal env m) (encode (envApd env) v) (canon v)"
    using VMap by (fastforce simp: list_all_both)+
  ultimately show ?case
    using unmarshal_map [of es "encode (envApd env)" env canon kind n] mreads_unmarshal_null [of n env] VMap.prems(3)
    by (cases b) (auto simp: map_pairBytes simp del: map_map)
next
  case (VGoMap es)
  have "small (length es)" using VGoMap.prems by simp
  moreover have "\<And>k v m. (k, v) \<in> set es \<Longrightarrow> length (encode (envApd env) k) \<le> m \<Longrightarrow> mreads (unmarshal env m) (encode (envApd env) k) (canon k)"
    "\<And>k v m. (k, v) \<in> set es \<Longrightarrow> length (encode (envApd env) v) \<le> m \<Longrightarrow> mreads (unmarshal env m) (encode (envApd env) v) (canon v)"
    using VGoMap by (fastforce simp: list_all_both)+
  ultimately show ?case
    using unmarshal_map [of es "encode (envApd env)" env canon HashMap n] VGoMap.prems(3)
    by (auto simp: map_pairBytes simp del: map_map)
next
  case (VOptimized p)
  have "mreads (unmarshalBody env um optimizedMarshallerObjectType) (encBytes p) (VOptimized p)" for um
    unfolding body_simps using VOptimized.prems by (intro mreads_lift reads_mapR reads_readByteArray) simp
  then show ?case using VOptimized mreads_unmarshal_Suc [of env "n - 1" optimizedMarshallerObjectType]
    by (cases n) simp_all
qed (simp_all add: mreads_unmarshal_null)

section \<open>The round trip\<close>

text \<open>C4 Values survive the wire: for every value that is data, nested to any depth, marshal on a
  fresh stream succeeds, leaves the registry alone and writes the wire form of the value, and
  unmarshal of those bytes, with a budget of nested calls of as many as there are bytes, returns
  the canonical form of the value, leaves the registry alone and stops at the end.\<close>

theorem marshal_roundtrip:
  assumes "apd_ok (envApd env) fin" and "plain (envApd env) fin v"
    and "length (encode (envApd env) v) \<le> maxInt32"
  shows "\<exists>bw. marshal env v (NewBinaryOutputStream n) s = (Inr bw, s) \<and> Data bw = encode (envApd env) v \<and>
    unmarshal env (length (Data bw)) (NewBinaryInputStream (Data bw) 0) s'
      = (Inr (canon v, \<lparr>ibuf = Data bw, ioff = 0, ipos = length (Data bw)\<rparr>), s')"
proof -
  let ?e = "encode (envApd env) v"
  obtain bw where bw: "put ?e (NewBinaryOutputStream n) = Inr bw" "Data bw = ?e"
    using put_ok [OF wf_out_New, of n ?e] assms(3) by (auto simp: NewBinaryOutputStream_def Data_def)
  have "marshal env v (NewBinaryOutputStream n) s = (Inr bw, s)"
    using mwrites_marshal [OF assms(1,2)] wf_out_New bw(1) by (simp add: mwrites_def)
  moreover have "unmarshal env (length ?e) (NewBinaryInputStream ?e 0) s'
      = (Inr (canon v, \<lparr>ibuf = ?e, ioff = 0, ipos = length ?e\<rparr>), s')"
    using mreadsD [OF mreads_unmarshal [OF assms(1,2) order_refl], of "[]" "[]"] by (simp add: NewBinaryInputStream_def)
  ultimately show ?thesis using bw(2) by auto
qed

definition sampleEnv :: "(bool \<times> byte list \<times> i32, unit) env" where
  "sampleEnv = \<lparr>envApd = plainDec, envServer = \<lambda>_ _ w. (Inr [0], w), envCompact = True,
     envTypeId = basicTypeId id, envFieldId = basicFieldId id, envFactories = \<lambda>_. None\<rparr>"

definition sampleReg :: "unit registry" where
  "sampleReg = \<lparr>regCache = newBinaryMetadataCache, world = ()\<rparr>"

theorem marshal_roundtrip_witness:
  "\<exists>bw. marshal sampleEnv (VMap HashMap [(VLeaf (LString ''a''), VObjects [VScalar (SUint32 7), VNil])] True)
      (NewBinaryOutputStream 0) sampleReg = (Inr bw, sampleReg) \<and>
    unmarshal sampleEnv (length (Data bw)) (NewBinaryInputStream (Data bw) 0) sampleReg
      = (Inr (VMap HashMap [(VLeaf (LString ''a''), VObjects [VScalar (SInt32 7), VNil])] True,
          \<lparr>ibuf = Data bw, ioff = 0, ipos = length (Data bw)\<rparr>), sampleReg)"
proof -
  have "apd_ok (envApd sampleEnv) (\<lambda>d. dropWhile (\<lambda>b. b = 0) (fst (snd d)) = fst (snd d))"
    using plainDec_ok by (simp add: sampleEnv_def)
  from marshal_roundtrip [OF this, where v = "VMap HashMap [(VLeaf (LString ''a''), VObjects [VScalar (SUint32 7), VNil])] True"
      and n = 0 and s = sampleReg and s' = sampleReg]
  show ?thesis
    by (auto simp: both_def small_def maxInt32_def kindHeadBytes_def objectHeadBytes_def pairBytes_def encStr_def)
qed

end
