(* ===== verification/MarshalTotal.thy ===== *)
theory MarshalTotal
  imports MarshalRT
begin

text \<open>
  Reading ends: with a budget above the number of bytes left, unmarshal never runs out of it,
  whatever the bytes are. A nested call starts behind the type code of its parent, so the depth
  of the calls is at most the number of bytes; some values set the position back to their own
  start, never before it.
\<close>

named_theorems goes \<open>readers that never run out of budget and where they leave the position\<close>

definition okR :: "nat \<Rightarrow> byte list \<Rightarrow> ('a \<times> in_stream) res \<Rightarrow> bool" where
  "okR b buf r = (case r of Inl f \<Rightarrow> f \<noteq> NoFuel | Inr (_, br) \<Rightarrow> ibuf br = buf \<and> b \<le> ipos br)"

definition rgoes :: "nat \<Rightarrow> nat \<Rightarrow> 'a reader \<Rightarrow> bool" where
  "rgoes a b r \<longleftrightarrow> (\<forall>br. a \<le> ipos br \<longrightarrow> okR b (ibuf br) (r br))"

definition mgoes :: "byte list \<Rightarrow> nat \<Rightarrow> nat \<Rightarrow> ('s, 'a) mreader \<Rightarrow> bool" where
  "mgoes buf a b m \<longleftrightarrow> (\<forall>br s. ibuf br = buf \<longrightarrow> a \<le> ipos br \<longrightarrow> okR b buf (fst (m br s)))"

definition pgoes :: "('s, 'a) prog \<Rightarrow> bool" where
  "pgoes m \<longleftrightarrow> (\<forall>s. fst (m s) \<noteq> Inl NoFuel)"

lemma okR_simps [simp]:
  "okR b buf (Inl f) \<longleftrightarrow> f \<noteq> NoFuel" "okR b buf (Inr (x, br)) \<longleftrightarrow> ibuf br = buf \<and> b \<le> ipos br"
  by (simp_all add: okR_def)

lemma okR_cases: "okR b buf r \<Longrightarrow> (\<And>f. r = Inl f \<Longrightarrow> f \<noteq> NoFuel \<Longrightarrow> P) \<Longrightarrow>
    (\<And>x br. r = Inr (x, br) \<Longrightarrow> ibuf br = buf \<Longrightarrow> b \<le> ipos br \<Longrightarrow> P) \<Longrightarrow> P"
  by (auto simp: okR_def split: sum.splits)

section \<open>Readers\<close>

lemma rgoes_bind:
  assumes "rgoes a b m" and "\<And>x. rgoes b c (k x)"
  shows "rgoes a c (bindR m k)"
  unfolding rgoes_def
proof (intro allI impI)
  fix br :: in_stream assume "a \<le> ipos br"
  then have "okR b (ibuf br) (m br)" using assms(1) by (simp add: rgoes_def)
  then show "okR c (ibuf br) (bindR m k br)"
  proof (rule okR_cases)
    fix f assume "m br = Inl f" "f \<noteq> NoFuel"
    then show ?thesis by (simp add: bindR_def)
  next
    fix x br' assume m: "m br = Inr (x, br')" "ibuf br' = ibuf br" "b \<le> ipos br'"
    have "okR c (ibuf br') (k x br')" using assms(2) m(3) unfolding rgoes_def by blast
    then show ?thesis using m by (simp add: bindR_def)
  qed
qed

lemma rgoes_return [goes]: "rgoes a a (returnR x)" and rgoes_fail [goes]: "rgoes a b (failR e)"
  and rgoes_panic [goes]: "rgoes a b panicR"
  by (simp_all add: rgoes_def returnR_def failR_def panicR_def)

lemma okR_weaken: "okR b buf r \<Longrightarrow> c \<le> b \<Longrightarrow> okR c buf r"
  by (erule okR_cases) simp_all

lemma okR_mapErr: "okR b buf r \<Longrightarrow> okR b buf (mapErr f r)"
  by (erule okR_cases) (auto simp: mapErr_def split: failure.split)

lemma rgoes_weaken: "rgoes a b r \<Longrightarrow> c \<le> b \<Longrightarrow> rgoes a c r"
  unfolding rgoes_def using okR_weaken by blast

lemma rgoes_fetch [goes]: "rgoes a a (fetch n)"
  by (auto simp: rgoes_def fetch_def)

lemma rgoes_fetch_by: "rgoes a (a + n) (fetch n)"
  by (auto simp: rgoes_def fetch_def)

lemma rgoes_ensure [goes]: "rgoes a a (ensureAvailable n)"
  by (auto simp: rgoes_def ensureAvailable_def)

lemma rgoes_bind1 [goes]: "rgoes a a m \<Longrightarrow> (\<And>x. rgoes a b (k x)) \<Longrightarrow> rgoes a b (bindR m k)"
  by (rule rgoes_bind)

lemma rgoes_if [goes]: "rgoes a b r \<Longrightarrow> rgoes a b r' \<Longrightarrow> rgoes a b (if c then r else r')"
  by simp

lemma rgoes_prims [goes]:
  "rgoes a a ReadUInt8" "rgoes a a ReadInt8" "rgoes a a ReadBool" "rgoes a a ReadUInt16" "rgoes a a ReadInt16"
  "rgoes a a ReadUInt32" "rgoes a a ReadInt32" "rgoes a a ReadUInt64" "rgoes a a ReadInt64"
  "rgoes a a ReadFloat32" "rgoes a a ReadFloat64"
  unfolding ReadUInt8_def ReadInt8_def ReadBool_def ReadUInt16_def ReadInt16_def ReadUInt32_def
    ReadInt32_def ReadUInt64_def ReadInt64_def ReadFloat32_def ReadFloat64_def
  by (intro goes)+

lemma rgoes_ReadBytes [goes]: "rgoes a a (ReadBytes n)"
  by (auto simp: rgoes_def ReadBytes_def Let_def)

lemma rgoes_SetPosition: "a \<le> nat p \<Longrightarrow> rgoes b a (SetPosition p)"
  by (auto simp: rgoes_def SetPosition_def)

lemma rgoes_position: "(\<And>p. int a \<le> p \<Longrightarrow> rgoes a b (k p)) \<Longrightarrow> rgoes a b (bindR positionR k)"
  by (auto simp: rgoes_def bindR_def positionR_def)

lemma rgoes_readFrom [goes]: "(\<And>i. rgoes a a (f i)) \<Longrightarrow> rgoes a a (readFrom i n f)"
  by (induction n arbitrary: i) (simp_all add: goes)

lemma rgoes_readN [goes]: "rgoes a a r \<Longrightarrow> rgoes a a (readN n r)"
  by (induction n) (simp_all add: goes)

lemma rgoes_readSequence [goes]: "(\<And>i. rgoes a a (f i)) \<Longrightarrow> rgoes a a (readSequence n f)"
  unfolding readSequence_def by (intro goes)

lemma rgoes_readSlice [goes]: "(\<And>i. rgoes a a (f i)) \<Longrightarrow> rgoes a a (readSlice f)"
  unfolding readSlice_def by (intro goes)

lemma rgoes_mapErr: "rgoes a b r \<Longrightarrow> rgoes a b (\<lambda>br. mapErr f (r br))"
  unfolding rgoes_def using okR_mapErr by blast

lemma rgoes_sized [goes]: "rgoes a b r \<Longrightarrow> rgoes a b (sized n r)"
  unfolding sized_def by (intro goes)

lemma rgoes_mapR [goes]: "rgoes a b r \<Longrightarrow> rgoes a b (mapR f r)"
  unfolding mapR_def by (rule rgoes_bind, assumption) (rule goes)

lemma rgoes_checkNotNull [goes]: "rgoes a a (checkNotNull t)"
  unfolding checkNotNull_def by (intro goes)

lemma rgoes_leaves [goes]:
  "rgoes a a readByteArray" "rgoes a a readString" "rgoes a a readUuid" "rgoes a a readDate" "rgoes a a readTime"
  "rgoes a a readTimestamp" "rgoes a a unmarshalString"
  unfolding readByteArray_def readString_def readUuid_def readDate_def readTime_def readTimestamp_def
    unmarshalString_def Let_def
  by (intro goes)+

lemma rgoes_readDecimal [goes]: "rgoes a a (readDecimal A)"
  unfolding readDecimal_def Let_def by (intro goes)

lemma rgoes_readClass [goes]: "rgoes a a readClass"
proof -
  have "okR a (ibuf br) (case unmarshalString br of
               Inl (Fail e) \<Rightarrow> Inl (Fail (ErrWrap msg e))
             | Inl f \<Rightarrow> Inl f
             | Inr (name, br') \<Rightarrow> Inr (\<lparr>itypeId = t, itypeName = name\<rparr>, br'))" if "a \<le> ipos br" for msg t br
  proof -
    have "okR a (ibuf br) (unmarshalString br)" using rgoes_leaves(7) [of a] that by (simp add: rgoes_def)
    then show ?thesis by (rule okR_cases) (auto split: failure.split)
  qed
  then have "rgoes a a (\<lambda>br. case unmarshalString br of
               Inl (Fail e) \<Rightarrow> Inl (Fail (ErrWrap msg e))
             | Inl f \<Rightarrow> Inl f
             | Inr (name, br') \<Rightarrow> Inr (\<lparr>itypeId = t, itypeName = name\<rparr>, br'))" for msg t
    unfolding rgoes_def by blast
  then show ?thesis unfolding readClass_def by (intro goes)
qed

lemma rgoes_fast [goes]: "rgoes a a (readPrimitiveSliceFast f n sz)"
  unfolding readPrimitiveSliceFast_def by (intro goes)

lemma rgoes_slices [goes]:
  "rgoes a a (ReadBoolSlice sz)" "rgoes a a (ReadInt16Slice sz)" "rgoes a a (ReadUInt16Slice sz)"
  "rgoes a a (ReadInt32Slice sz)" "rgoes a a (ReadInt64Slice sz)" "rgoes a a (ReadFloat32Slice sz)"
  "rgoes a a (ReadFloat64Slice sz)"
  unfolding ReadBoolSlice_def ReadInt16Slice_def ReadUInt16Slice_def ReadInt32Slice_def ReadInt64Slice_def
    ReadFloat32Slice_def ReadFloat64Slice_def readSliceOf_def
  by (intro goes)+

lemma rgoes_readPrims [goes]: "(\<And>n. rgoes a a (r n)) \<Longrightarrow> rgoes a a (readPrims k r)"
  unfolding readPrims_def by (intro goes)

lemma rgoes_typed_array [goes]: "rgoes a a r \<Longrightarrow> rgoes a a (readIgniteTypedArray t r)"
  unfolding readIgniteTypedArray_def by (intro goes)

lemma rgoes_readFlat: "readFlat A t = Some r \<Longrightarrow> rgoes a a r"
  by (cases t) (auto simp: readFlat_def orElse_def intro!: goes)

lemma rgoes_readTypeByte: "rgoes a (Suc a) readTypeByte"
proof -
  have "rgoes a (a + 1) (bindR (fetch 1) (\<lambda>bs. returnR (f bs)))" for f :: "byte list \<Rightarrow> byte"
    by (rule rgoes_bind [OF rgoes_fetch_by]) (rule goes)
  then show ?thesis
    unfolding readTypeByte_def ReadInt8_def ReadUInt8_def Suc_eq_plus1 by (rule rgoes_bind [OF rgoes_ensure])
qed

text \<open>The readers that go back to the type code of their value.\<close>

lemma rgoes_readBinaryObject: "rgoes (Suc a) a (readBinaryObject wrapped)"
proof (cases wrapped)
  case True
  have "rgoes (Suc a) (Suc a) (readBinaryObject True)"
    unfolding readBinaryObject_def if_True by (intro goes)
  from rgoes_weaken [OF this, of a] show ?thesis using True by simp
next
  case False
  have "rgoes (Suc a) a (bindR (SetPosition (p - 1 + int lenPos)) (\<lambda>_. bindR ReadInt32 (\<lambda>sz.
      bindR (SetPosition (p - 1)) (\<lambda>_. bindR (ensureAvailable (sint sz)) (\<lambda>_. ReadBytes (sint sz))))))"
    if "int (Suc a) \<le> p" for p
    using that by (intro rgoes_bind [OF rgoes_SetPosition [where a = a]] rgoes_bind [OF rgoes_prims(7)]
        rgoes_bind [OF rgoes_ensure] rgoes_ReadBytes) (auto simp: lenPos_def)
  then show ?thesis using False
    unfolding readBinaryObject_def if_False Let_def
    by (simp only: if_False) (intro rgoes_bind [OF rgoes_ensure] rgoes_position)
qed

lemma rgoes_readEnumBytes: "int a \<le> p \<Longrightarrow> rgoes a a (readEnumBytes p)"
  unfolding readEnumBytes_def
  by (intro rgoes_bind [OF rgoes_ensure] rgoes_bind [OF rgoes_prims(7)] rgoes_position
      rgoes_bind [OF rgoes_SetPosition [where a = a]] rgoes_bind [OF rgoes_ReadBytes] rgoes_if rgoes_panic rgoes_return) auto

lemma rgoes_readEnum [goes]: "rgoes a a (readEnum mk)"
  unfolding readEnum_def by (intro goes)

lemma rgoes_readEnumArray [goes]: "rgoes a a (readEnumArray mk zero name)"
proof -
  have "rgoes a a (readEnumElem mk zero)"
    unfolding readEnumElem_def
    by (rule rgoes_bind [OF rgoes_weaken [OF rgoes_readTypeByte, of a a]]) (simp, intro goes rgoes_mapErr)
  then show ?thesis unfolding readEnumArray_def by (intro goes)
qed

section \<open>The registry\<close>

lemma pgoes_bind: "pgoes m \<Longrightarrow> (\<And>x. pgoes (k x)) \<Longrightarrow> pgoes (bindP m k)"
  unfolding pgoes_def
proof (intro allI)
  fix s assume m: "\<forall>s. fst (m s) \<noteq> Inl NoFuel" and k: "\<And>x. \<forall>s. fst (k x s) \<noteq> Inl NoFuel"
  obtain r s' where r: "m s = (r, s')" by (cases "m s")
  show "fst (bindP m k s) \<noteq> Inl NoFuel"
    using m [rule_format, of s] k r by (cases r) (auto simp: bindP_def)
qed

lemma pgoes_simps [goes]: "pgoes (returnP x)" "pgoes (failP e)" "f \<noteq> NoFuel \<Longrightarrow> pgoes (liftP (Inl f))"
  "pgoes (liftP (Inr y))" "pgoes (fromCache g)" "pgoes (onCache h)"
  by (simp_all add: pgoes_def fromCache_def onCache_def)

lemma pgoes_wrap [goes]: "pgoes m \<Longrightarrow> pgoes (wrapP msg m)"
  unfolding pgoes_def
proof
  fix s assume "\<forall>s. fst (m s) \<noteq> Inl NoFuel"
  then have "fst (m s) \<noteq> Inl NoFuel" by blast
  then show "fst (wrapP msg m s) \<noteq> Inl NoFuel"
    by (auto simp: wrapP_def mapErr_def split: prod.split sum.split failure.split)
qed

lemma pgoes_replaceErr [goes]: "pgoes m \<Longrightarrow> pgoes (replaceErr e m)"
  unfolding pgoes_def
proof
  fix s assume "\<forall>s. fst (m s) \<noteq> Inl NoFuel"
  then have "fst (m s) \<noteq> Inl NoFuel" by blast
  then show "fst (replaceErr e m s) \<noteq> Inl NoFuel"
    by (auto simp: replaceErr_def mapErr_def split: prod.split sum.split failure.split)
qed

lemma pgoes_onServer [goes]: "pgoes m \<Longrightarrow> pgoes (onServer m)"
  by (auto simp: pgoes_def onServer_def split: prod.splits) (metis fst_conv)

lemma pgoes_callServer:
  assumes "writes req bs" and "rgoes 0 0 rd"
  shows "pgoes (callServer srv opc req rd)"
  unfolding pgoes_def
proof
  fix w
  have req: "req (NewBinaryOutputStream 0) = put bs (NewBinaryOutputStream 0)"
    using assms(1) wf_out_New by (simp add: writesD)
  have rd: "okR 0 b (rd (NewBinaryInputStream b 0))" for b
    using assms(2) unfolding rgoes_def by (metis NewBinaryInputStream_def in_stream.select_convs(1) le0)
  show "fst (callServer srv opc req rd w) \<noteq> Inl NoFuel"
  proof (cases "put bs (NewBinaryOutputStream 0)")
    case (Inl f)
    then have "f = Panic" by (simp add: put_def split: if_splits)
    then show ?thesis using Inl req by (simp add: callServer_def)
  next
    case (Inr bw)
    obtain r w' where r: "srv opc (Data bw) w = (r, w')" by (cases "srv opc (Data bw) w")
    show ?thesis
    proof (cases r)
      case (Inl e)
      then show ?thesis using Inr req r by (simp add: callServer_def)
    next
      case (Inr b)
      show ?thesis using rd [of b]
        by (rule okR_cases) (use \<open>put bs (NewBinaryOutputStream 0) = Inr bw\<close> req r Inr in \<open>simp_all add: callServer_def\<close>)
    qed
  qed
qed

lemma rgoes_readEntries [goes]: "rgoes a a r \<Longrightarrow> rgoes a a (readEntries r)"
  unfolding readEntries_def by (intro goes)

lemma rgoes_readSchema: "rgoes a a readSchema"
  unfolding readSchema_def by (intro goes)

lemma rgoes_readSchemasFrom: "rgoes a a (readSchemasFrom n acc)"
proof (induction n arbitrary: acc)
  case 0
  then show ?case by (simp add: rgoes_def)
next
  case (Suc n)
  show ?case unfolding rgoes_def
  proof (intro allI impI)
    fix br :: in_stream assume a: "a \<le> ipos br"
    then have "okR a (ibuf br) (readSchema br)" using rgoes_readSchema by (simp add: rgoes_def)
    then show "okR a (ibuf br) (readSchemasFrom (Suc n) acc br)"
    proof (rule okR_cases)
      fix f assume "readSchema br = Inl f" "f \<noteq> NoFuel"
      then show ?thesis using a by (cases f) simp_all
    next
      fix x br' assume r: "readSchema br = Inr (x, br')" "ibuf br' = ibuf br" "a \<le> ipos br'"
      have "okR a (ibuf br') (readSchemasFrom n acc' br')" for acc' using Suc r(3) unfolding rgoes_def by blast
      then show ?thesis using r by (cases x) simp
    qed
  qed
qed

lemma rgoes_unmarshalBinaryMeta: "rgoes a a unmarshalBinaryMeta"
  unfolding unmarshalBinaryMeta_def readFieldMeta_def readNameOrd_def readSchemas_def split_def
  by (intro goes rgoes_readSchemasFrom)

lemma pgoes_request: "pgoes (requestAndCacheBinaryMeta srv t)"
proof -
  have w: "writes (WriteInt32 t) (to_le 4 (unat t))" by (rule writes_prims)
  have r: "rgoes 0 0 (bindR ReadBool (\<lambda>found. if found then bindR unmarshalBinaryMeta (\<lambda>m. returnR (Some m)) else returnR None))"
    by (intro goes rgoes_unmarshalBinaryMeta)
  show ?thesis unfolding requestAndCacheBinaryMeta_def
    by (rule pgoes_bind [OF pgoes_onServer [OF pgoes_callServer [OF w r]]])
       (auto simp: pgoes_def Let_def split: option.split sum.split prod.split)
qed

lemma pgoes_getMetadata [goes]: "pgoes (getMetadata srv t)"
  unfolding getMetadata_def
  by (rule pgoes_bind) (auto intro!: goes pgoes_request split: option.split)

section \<open>Values\<close>

lemma mgoes_bind:
  assumes "mgoes buf a b m" and "\<And>x. mgoes buf b c (k x)"
  shows "mgoes buf a c (bindMR m k)"
  unfolding mgoes_def
proof (intro allI impI)
  fix br :: in_stream and s assume i: "ibuf br = buf" and a: "a \<le> ipos br"
  obtain r s' where r: "m br s = (r, s')" by (cases "m br s")
  then have "okR b buf r" using assms(1) i a unfolding mgoes_def by (metis fst_conv)
  then show "okR c buf (fst (bindMR m k br s))"
  proof (rule okR_cases)
    fix f assume "r = Inl f" "f \<noteq> NoFuel"
    then show ?thesis using r by (simp add: bindMR_def bindP_def)
  next
    fix x br' assume x: "r = Inr (x, br')" "ibuf br' = buf" "b \<le> ipos br'"
    have "okR c buf (fst (k x br' s'))" using assms(2) x(2,3) unfolding mgoes_def by blast
    then show ?thesis using r x by (simp add: bindMR_def bindP_def)
  qed
qed

lemma mgoes_lift: "rgoes a b r \<Longrightarrow> mgoes buf a b (liftR r)"
  by (auto simp: mgoes_def rgoes_def liftR_def)

lemma mgoes_simps: "mgoes buf a a (returnMR x)" "mgoes buf a b (failMR e)"
  unfolding returnMR_def failMR_def by (intro mgoes_lift goes)+

lemma mgoes_weaken: "mgoes buf a b m \<Longrightarrow> c \<le> b \<Longrightarrow> mgoes buf a c m"
  unfolding mgoes_def using okR_weaken by blast

lemma mgoes_start: "mgoes buf a b m \<Longrightarrow> a \<le> c \<Longrightarrow> mgoes buf c b m"
  unfolding mgoes_def using le_trans by blast

lemma mgoes_wrap: "mgoes buf a b m \<Longrightarrow> mgoes buf a b (wrapMR msg m)"
  unfolding mgoes_def wrapMR_def wrapP_def
  by (auto split: prod.split) (metis fst_conv okR_mapErr)

lemma mgoes_do:
  assumes "pgoes m" and "\<And>x. mgoes buf a b (k x)"
  shows "mgoes buf a b (doMR m k)"
  unfolding mgoes_def
proof (intro allI impI)
  fix br :: in_stream and s assume i: "ibuf br = buf" and a: "a \<le> ipos br"
  obtain r s' where r: "m s = (r, s')" by (cases "m s")
  show "okR b buf (fst (doMR m k br s))"
  proof (cases r)
    case (Inl f)
    then have "f \<noteq> NoFuel" using assms(1) r unfolding pgoes_def by (metis fst_conv)
    then show ?thesis using Inl r by (simp add: doMR_def bindP_def)
  next
    case (Inr x)
    then show ?thesis using assms(2) [of x] r i a by (simp add: doMR_def bindP_def mgoes_def)
  qed
qed

lemma mgoes_position: "(\<And>p. int a \<le> p \<Longrightarrow> mgoes buf a b (k p)) \<Longrightarrow> mgoes buf a b (bindMR (liftR positionR) k)"
  by (auto simp: mgoes_def bindMR_def liftR_def positionR_def)

lemma mgoes_many: "mgoes buf a a r \<Longrightarrow> mgoes buf a a (readManyM n r)"
  by (induction n) (auto intro!: mgoes_simps mgoes_bind)

lemma mgoes_sizedM: "mgoes buf a a r \<Longrightarrow> mgoes buf a a (readSizedM n r)"
  unfolding readSizedM_def by (auto intro!: mgoes_many mgoes_lift goes)

lemma mgoes_sliceM: "mgoes buf a a r \<Longrightarrow> mgoes buf a a (readSliceM r)"
proof -
  assume r: "mgoes buf a a r"
  have "rgoes a a (bindR (ensureAvailable (int intBytes)) (\<lambda>_. ReadInt32))" by (intro goes)
  then show ?thesis unfolding readSliceM_def by (rule mgoes_bind [OF mgoes_lift]) (rule mgoes_sizedM [OF r])
qed

lemma mgoes_readBinaryEnum: "int a \<le> p \<Longrightarrow> mgoes buf a a (readBinaryEnum env cls p)"
  unfolding readBinaryEnum_def split_def
  by (intro mgoes_bind [OF mgoes_lift [OF rgoes_readEnumBytes]] mgoes_do goes)
     (auto split: option.split intro!: mgoes_lift goes mgoes_simps)

lemma mgoes_readBinaryEnumArray: "mgoes buf a a (readBinaryEnumArray env cls)"
proof -
  have e: "mgoes buf (Suc a) a (if t = typeCode NullType then returnMR None
            else if t = typeCode EnumType \<or> t = typeCode BinaryEnumType
            then bindMR (liftR positionR) (\<lambda>pos.
                 bindMR (wrapMR msg (liftR readClass)) (\<lambda>c.
                 bindMR (readBinaryEnum env c (pos - 1)) (\<lambda>e. returnMR (Some e))))
            else failMR err)" for t msg err
  proof -
    have "mgoes buf (Suc a) a (bindMR (wrapMR msg (liftR readClass)) (\<lambda>c.
                 bindMR (readBinaryEnum env c (pos - 1)) (\<lambda>e. returnMR (Some e))))" if "int (Suc a) \<le> pos" for pos
    proof -
      have c: "mgoes buf (Suc a) a (wrapMR msg (liftR readClass))"
        by (rule mgoes_weaken [OF mgoes_wrap [OF mgoes_lift [OF rgoes_readClass]]]) simp
      have "mgoes buf a a (readBinaryEnum env c (pos - 1))" for c using that by (intro mgoes_readBinaryEnum) simp
      from mgoes_bind [OF c mgoes_bind [OF this mgoes_simps(1)]] show ?thesis .
    qed
    moreover have "mgoes buf (Suc a) a (returnMR x)" for x :: "binary_enum option"
      by (rule mgoes_weaken [OF mgoes_simps(1)]) simp
    ultimately show ?thesis by (auto intro!: mgoes_position mgoes_simps)
  qed
  show ?thesis
    unfolding readBinaryEnumArray_def Let_def
    by (rule mgoes_do [OF pgoes_replaceErr [OF pgoes_getMetadata]])
       (auto split: option.split intro!: mgoes_simps mgoes_bind [OF mgoes_sliceM]
         mgoes_bind [OF mgoes_lift [OF rgoes_readTypeByte]] e)
qed

lemma mgoes_readEnumValue: "mgoes buf (Suc a) a (readEnumValue env arr)"
proof -
  have "mgoes buf (Suc a) a (case getEnumFactory env (itypeId cls) of
       Some (mk, zero, name) \<Rightarrow> liftR (if arr then readEnumArray mk zero name else readEnum mk)
     | None \<Rightarrow> if arr then readBinaryEnumArray env cls
               else bindMR (readBinaryEnum env cls (pos - 1)) (\<lambda>e. returnMR (VBinaryEnum e)))"
    if "int (Suc a) \<le> pos" for pos and cls
  proof -
    have "mgoes buf (Suc a) a (liftR (readEnumArray mk zero name))" "mgoes buf (Suc a) a (liftR (readEnum mk))" for mk zero name
      by (rule mgoes_weaken [OF mgoes_lift [OF rgoes_readEnumArray]], simp)
         (rule mgoes_weaken [OF mgoes_lift [OF rgoes_readEnum]], simp)
    moreover have "mgoes buf (Suc a) a (readBinaryEnumArray env cls)"
      by (rule mgoes_weaken [OF mgoes_readBinaryEnumArray]) simp
    moreover have "mgoes buf a a (bindMR (readBinaryEnum env cls (pos - 1)) (\<lambda>e. returnMR (VBinaryEnum e)))"
      by (rule mgoes_bind [OF mgoes_readBinaryEnum mgoes_simps(1)]) (use that in simp)
    from mgoes_start [OF this, of "Suc a"]
    have "mgoes buf (Suc a) a (bindMR (readBinaryEnum env cls (pos - 1)) (\<lambda>e. returnMR (VBinaryEnum e)))" by simp
    ultimately show ?thesis by (auto split: option.split)
  qed
  then show ?thesis
    unfolding readEnumValue_def
    by (intro mgoes_position mgoes_bind [OF mgoes_wrap [OF mgoes_lift [OF rgoes_readClass]]])
qed

lemma mgoes_objects: "mgoes buf a a um \<Longrightarrow> mgoes buf a a (readIgniteObjectArray um)"
  unfolding readIgniteObjectArray_def
  by (rule mgoes_bind [OF mgoes_wrap [OF mgoes_lift [OF rgoes_readClass]]])
     (rule mgoes_bind [OF mgoes_sliceM mgoes_simps(1)])

lemma rgoes_readKind: "rgoes a a readKind"
  unfolding readKind_def by (intro goes)

lemma mgoes_collection: "mgoes buf a a um \<Longrightarrow> mgoes buf a a (readIgniteCollection um)"
  unfolding readIgniteCollection_def split_def
  by (rule mgoes_bind [OF mgoes_lift [OF rgoes_readKind]]) (rule mgoes_bind [OF mgoes_sizedM mgoes_simps(1)])

lemma mgoes_map: "mgoes buf a a um \<Longrightarrow> mgoes buf a a (readIgniteMap um)"
  unfolding readIgniteMap_def split_def
  by (rule mgoes_bind [OF mgoes_lift [OF rgoes_readKind]])
     (rule mgoes_bind [OF mgoes_sizedM [OF mgoes_bind [OF _ mgoes_bind [OF _ mgoes_simps(1)]]] mgoes_simps(1)])

lemma mgoes_proxy: "mgoes buf a a um \<Longrightarrow> mgoes buf a a (readIgniteProxy um)"
  unfolding readIgniteProxy_def
  by (rule mgoes_bind [OF mgoes_lift [OF rgoes_readSlice [OF rgoes_readClass]]]) (rule mgoes_bind [OF _ mgoes_simps(1)])

lemma mgoes_object:
  assumes "\<And>t. getBinarylizableFactory env t = None"
  shows "mgoes buf (Suc a) a (bindMR (liftR (readBinaryObject w)) (\<lambda>bo. doMR (tryConvertToBinarylizable env um bo) returnMR))"
proof -
  have "pgoes (liftP (boTypeId env data))" for data
  proof -
    have "okR 0 data (unmarshalString (NewBinaryInputStream data headerLength))"
      using rgoes_leaves(7) [of 0] unfolding rgoes_def by (metis NewBinaryInputStream_def in_stream.select_convs(1) le0)
    from okR_mapErr [OF this] have o: "okR 0 data (mapErr (ErrWrap msg) (unmarshalString (NewBinaryInputStream data headerLength)))" for msg .
    have "bindE (mapErr (ErrWrap msg) (unmarshalString (NewBinaryInputStream data headerLength))) k \<noteq> Inl NoFuel"
      if t: "\<And>x. k x \<noteq> Inl NoFuel" for msg and k :: "string \<times> in_stream \<Rightarrow> i32 res"
      by (rule okR_cases [OF o [of msg]])
         (use t in simp_all)
    then show ?thesis by (auto simp: pgoes_def boTypeId_def)
  qed
  then have "pgoes (tryConvertToBinarylizable env um bo)" for bo
    unfolding tryConvertToBinarylizable_def assms option.case by (intro pgoes_bind pgoes_wrap goes)
  then show ?thesis
    by (intro mgoes_bind [OF mgoes_lift [OF rgoes_readBinaryObject]] mgoes_do mgoes_simps)
qed

lemma mgoes_body:
  assumes "\<And>t. getBinarylizableFactory env t = None" and "mgoes buf (Suc a) (Suc a) um"
  shows "mgoes buf (Suc a) a (unmarshalBody env um t)"
proof (cases "readFlat (envApd env) t")
  case (Some r)
  have "mgoes buf (Suc a) a (liftR r)" by (rule mgoes_weaken [OF mgoes_lift [OF rgoes_readFlat [OF Some]]]) simp
  then show ?thesis using Some by (simp add: unmarshalBody_def)
next
  case None
  have w: "mgoes buf (Suc a) (Suc a) m \<Longrightarrow> mgoes buf (Suc a) a m" for m :: "('w registry, 'd goval) mreader"
    by (erule mgoes_weaken) simp
  show ?thesis unfolding unmarshalBody_def None option.case
    by (cases t) (simp_all add: w mgoes_simps mgoes_objects mgoes_collection mgoes_map mgoes_proxy assms(2)
        mgoes_object [OF assms(1)] mgoes_readEnumValue mgoes_lift rgoes_mapR rgoes_readClass rgoes_leaves)
qed

lemma mgoes_unmarshal:
  assumes "\<And>t. getBinarylizableFactory env t = None"
  shows "length buf - a < n \<Longrightarrow> mgoes buf a a (unmarshal env n)"
proof (induction n arbitrary: a)
  case 0
  then show ?case by simp
next
  case (Suc n)
  have nest: "mgoes buf (Suc c) (Suc c) (unmarshal env n)" if "c < length buf" "a \<le> c" for c
    using Suc that by (intro Suc.IH) simp
  show ?case unfolding mgoes_def
  proof (intro allI impI)
    fix br :: in_stream and s assume i: "ibuf br = buf" and a: "a \<le> ipos br"
    show "okR a buf (fst (unmarshal env (Suc n) br s))"
    proof (cases "readTypeByte br")
      case (Inl f)
      then have "f \<noteq> NoFuel" using rgoes_readTypeByte [of a] a by (auto simp: rgoes_def dest!: spec [of _ br])
      then show ?thesis using Inl by (simp add: unmarshal.simps bindMR_def bindP_def liftR_def liftP_def)
    next
      case (Inr p)
      obtain b br1 where p: "p = (b, br1)" by (cases p)
      have "okR (Suc (ipos br)) buf (readTypeByte br)" using rgoes_readTypeByte [of "ipos br"] i unfolding rgoes_def by blast
      then have br1: "ibuf br1 = buf" "Suc (ipos br) \<le> ipos br1" using Inr p by simp_all
      have lt: "ipos br < length buf"
        using Inr p i by (auto simp: readTypeByte_def bindR_def ensureAvailable_def Available_def size_defs bindE_def
            split: if_splits)
      have "mgoes buf (Suc (ipos br)) (ipos br) (unmarshalBody env (unmarshal env n) t)" for t
        by (rule mgoes_body [OF assms nest [OF lt a]])
      then have "okR (ipos br) buf (fst (unmarshalBody env (unmarshal env n) t br1 s))" for t
        using br1 unfolding mgoes_def by blast
      then have "okR a buf (fst (unmarshalBody env (unmarshal env n) t br1 s))" for t
        using a okR_weaken by blast
      then show ?thesis
        using Inr p
        by (simp add: unmarshal.simps bindMR_def bindP_def liftR_def liftP_def failMR_def failR_def split: option.split)
    qed
  qed
qed

text \<open>C8 With no factory of Binarylizable values registered, reading a value ends on every input: a
  budget of nested calls above the number of bytes from the position on is never used up,
  whatever the bytes and the server answer; and the position is never left before the value.
  With a factory this does not hold: \<open>self_reference_never_ends\<close> in the theory UserTypes.\<close>

theorem unmarshal_terminates:
  assumes "\<forall>t. getBinarylizableFactory env t = None" and "length (ibuf br) - ipos br < n"
  shows "fst (unmarshal env n br s) \<noteq> Inl NoFuel \<and>
    (\<forall>v br'. fst (unmarshal env n br s) = Inr (v, br') \<longrightarrow> ibuf br' = ibuf br \<and> ipos br \<le> ipos br')"
proof -
  have "mgoes (ibuf br) (ipos br) (ipos br) (unmarshal env n)"
    using assms by (intro mgoes_unmarshal) simp_all
  then have "okR (ipos br) (ibuf br) (fst (unmarshal env n br s))" by (simp add: mgoes_def)
  then show ?thesis by (rule okR_cases) simp_all
qed

theorem unmarshal_terminates_witness:
  "fst (unmarshal sampleEnv 12 (NewBinaryInputStream (replicate 11 23) 0) sampleReg) \<noteq> Inl NoFuel"
  using unmarshal_terminates [of sampleEnv "NewBinaryInputStream (replicate 11 23) 0" 12 sampleReg]
  by (simp add: sampleEnv_def getBinarylizableFactory_def NewBinaryInputStream_def)

end
