(* ===== verification/SchemaMerge.thy ===== *)
theory SchemaMerge
  imports Schema
begin

text \<open>
  What the merge of metadata promises: what was known stays known with its types, what is new
  becomes known, and merging the same again changes nothing. The contract of a store of
  metadata is a locale, and the cache of the code is an interpretation of it.
\<close>

section \<open>Association lists\<close>

lemma update_absent: "k \<notin> fst ` set xs \<Longrightarrow> AList.update k v xs = xs @ [(k, v)]"
  by (induction xs) auto

lemma update_same: "map_of xs k = Some v \<Longrightarrow> AList.update k v xs = xs"
  by (induction xs) (auto split: if_splits)

lemma map_of_None_fst: "map_of xs k = None \<longleftrightarrow> k \<notin> fst ` set xs"
  by (rule map_of_eq_None_iff)

lemma map_of_distinct: "distinct (map fst xs) \<Longrightarrow> map_of xs k = Some v \<longleftrightarrow> (k, v) \<in> set xs"
  by (metis map_of_SomeD map_of_is_SomeI)

lemma fold_update_distinct:
  "distinct (map fst (ys @ xs)) \<Longrightarrow> fold (\<lambda>(k, v). AList.update k v) xs ys = ys @ xs"
proof (induction xs arbitrary: ys)
  case Nil
  then show ?case by simp
next
  case (Cons p xs)
  obtain k v where p: "p = (k, v)" by (cases p)
  have "k \<notin> fst ` set ys" using Cons.prems p by auto
  then show ?case using Cons.IH [of "ys @ [(k, v)]"] Cons.prems p by (simp add: update_absent)
qed

lemma toMap_distinct: "distinct (map fst xs) \<Longrightarrow> toMap xs = xs"
  using fold_update_distinct [of "[]" xs] by (simp add: toMap_def)

lemma fold_update_swap:
  "fold (\<lambda>(a, b). AList.update b a) xs ys = fold (\<lambda>(k, v). AList.update k v) (map prod.swap xs) ys"
  by (induction xs arbitrary: ys) (auto simp: prod.swap_def split: prod.splits)

lemma map_fst_swap: "map fst (map prod.swap xs) = map snd xs"
  by (induction xs) auto

section \<open>Enums\<close>

definition wf_enum :: "(string \<times> i32) list \<Rightarrow> (i32 \<times> string) list \<Rightarrow> bool" where
  "wf_enum names ords \<longleftrightarrow> distinct (map fst names) \<and> distinct (map snd names) \<and>
     distinct (map fst ords) \<and> set ords = prod.swap ` set names"

lemma wf_enum_iff: "wf_enum names ords \<Longrightarrow> map_of ords ord = Some name \<longleftrightarrow> map_of names name = Some ord"
  by (force simp: wf_enum_def map_of_distinct)

lemma wf_enum_snd: "wf_enum names ords \<Longrightarrow> map_of ords ord = None \<longleftrightarrow> ord \<notin> snd ` set names"
  unfolding map_of_None_fst wf_enum_def by (force simp: image_iff)

lemma wf_enum_append:
  "wf_enum names ords \<Longrightarrow> map_of names name = None \<Longrightarrow> map_of ords ord = None \<Longrightarrow>
    wf_enum (names @ [(name, ord)]) (ords @ [(ord, name)])"
  using wf_enum_snd [of names ords ord]
  by (auto simp: wf_enum_def map_of_None_fst)

lemma mergeEnum_spec:
  "mergeEnum kvs names ords = Inr (names', ords') \<Longrightarrow> wf_enum names ords \<Longrightarrow>
    wf_enum names' ords' \<and> set names' = set names \<union> set kvs \<and> length names \<le> length names' \<and>
    (length names' = length names \<longrightarrow> names' = names)"
proof (induction kvs names ords rule: mergeEnum.induct)
  case (1 names ords)
  then show ?case by simp
next
  case (2 name ord rest names ords)
  have c1: "\<not> (case map_of ords ord of Some prevName \<Rightarrow> prevName \<noteq> name | None \<Rightarrow> False)"
    using "2.prems"(1) by (auto split: if_splits)
  have c2: "\<not> (case map_of names name of Some prevOrd \<Rightarrow> prevOrd \<noteq> ord | None \<Rightarrow> False)"
    using "2.prems"(1) by (auto split: if_splits)
  have r: "mergeEnum rest (AList.update name ord names) (AList.update ord name ords) = Inr (names', ords')"
    using "2.prems"(1) c1 c2 by simp
  note IH = "2.IH" [OF c1 c2 r]
  show ?case
  proof (cases "map_of names name")
    case None
    then have n: "map_of ords ord = None"
      using c1 wf_enum_iff [OF "2.prems"(2), of ord name] by (cases "map_of ords ord") auto
    have u: "AList.update name ord names = names @ [(name, ord)]" "AList.update ord name ords = ords @ [(ord, name)]"
      using None n by (simp_all add: update_absent map_of_None_fst)
    show ?thesis
      using IH wf_enum_append [OF "2.prems"(2) None n] unfolding u by auto
  next
    case (Some o')
    then have "o' = ord" using c2 by simp
    then have s: "map_of names name = Some ord" "map_of ords ord = Some name"
      using Some wf_enum_iff [OF "2.prems"(2)] by simp_all
    then have u: "AList.update name ord names = names" "AList.update ord name ords = ords"
      by (simp_all add: update_same)
    have "(name, ord) \<in> set names" using s(1) by (rule map_of_SomeD)
    then show ?thesis using IH "2.prems"(2) unfolding u by auto
  qed
qed

lemma mergeEnum_again:
  "set kvs \<subseteq> set names \<Longrightarrow> wf_enum names ords \<Longrightarrow> mergeEnum kvs names ords = Inr (names, ords)"
proof (induction kvs)
  case Nil
  then show ?case by simp
next
  case (Cons p kvs)
  obtain name ord where p: "p = (name, ord)" by (cases p)
  have "map_of names name = Some ord" using Cons.prems p by (simp add: wf_enum_def map_of_distinct)
  moreover then have "map_of ords ord = Some name" using Cons.prems by (simp add: wf_enum_iff)
  ultimately show ?case using Cons p by (simp add: update_same)
qed

section \<open>Fields and schemas\<close>

lemma mergeFields_Cons:
  "mergeFields old new (f # fs) (ch, mf, mo) = Inr r \<longleftrightarrow>
    (case map_of (metaFields old) f of
       Some x \<Rightarrow> fldTypeId x = fldTypeId (fieldOf (metaFields new) f) \<and> mergeFields old new fs (ch, mf, mo) = Inr r
     | None \<Rightarrow> mergeFields old new fs (True, AList.update f (fieldOf (metaFields new) f) mf, mo @ [f]) = Inr r)"
  by (simp add: Let_def split: option.split)

lemma mergeFields_step:
  assumes "mergeFields old new (f # fs) (ch, mf, mo) = Inr r"
  obtains (absent) "map_of (metaFields old) f = None"
      "mergeFields old new fs (True, AList.update f (fieldOf (metaFields new) f) mf, mo @ [f]) = Inr r"
    | (present) x where "map_of (metaFields old) f = Some x"
      "fldTypeId x = fldTypeId (fieldOf (metaFields new) f)" "mergeFields old new fs (ch, mf, mo) = Inr r"
  using assms unfolding mergeFields_Cons by (cases "map_of (metaFields old) f") simp_all

lemma mergeFields_map:
  "mergeFields old new fs (ch, mf, mo) = Inr (ch', mf', mo') \<Longrightarrow>
    map_of mf' f = (if f \<in> set fs \<and> map_of (metaFields old) f = None
       then Some (fieldOf (metaFields new) f) else map_of mf f)"
proof (induction fs arbitrary: ch mf mo)
  case Nil
  then show ?case by simp
next
  case (Cons f1 fs)
  from Cons.prems show ?case
  proof (cases rule: mergeFields_step)
    case absent
    then show ?thesis using Cons.IH [OF absent(2)] by (simp add: update_alist_map_of)
  next
    case (present x)
    then show ?thesis using Cons.IH [OF present(3)] by auto
  qed
qed

lemma mergeFields_types:
  "mergeFields old new fs (ch, mf, mo) = Inr (ch', mf', mo') \<Longrightarrow> f \<in> set fs \<Longrightarrow>
    map_of (metaFields old) f = Some x \<Longrightarrow> fldTypeId x = fldTypeId (fieldOf (metaFields new) f)"
proof (induction fs arbitrary: ch mf mo)
  case Nil
  then show ?case by simp
next
  case (Cons f1 fs)
  from Cons.prems(1) show ?case
  proof (cases rule: mergeFields_step)
    case absent
    then show ?thesis using Cons.IH [OF absent(2) _ Cons.prems(3)] Cons.prems(2,3) by auto
  next
    case (present y)
    then show ?thesis using Cons.IH [OF present(3) _ Cons.prems(3)] Cons.prems(2,3) by auto
  qed
qed

lemma mergeFields_order:
  "mergeFields old new fs (ch, mf, mo) = Inr (ch', mf', mo') \<Longrightarrow>
    set mo' = set mo \<union> {f \<in> set fs. map_of (metaFields old) f = None} \<and>
    (ch' \<longleftrightarrow> ch \<or> (\<exists>f \<in> set fs. map_of (metaFields old) f = None))"
proof (induction fs arbitrary: ch mf mo)
  case Nil
  then show ?case by simp
next
  case (Cons f fs)
  from Cons.prems show ?case
  proof (cases rule: mergeFields_step)
    case absent
    have "{g \<in> set (f # fs). map_of (metaFields old) g = None} = insert f {g \<in> set fs. map_of (metaFields old) g = None}"
      using absent(1) by auto
    then show ?thesis using Cons.IH [OF absent(2)] absent(1) by simp
  next
    case (present x)
    then have "{g \<in> set (f # fs). map_of (metaFields old) g = None} = {g \<in> set fs. map_of (metaFields old) g = None}"
      by auto
    then show ?thesis using Cons.IH [OF present(3)] present(1) by simp
  qed
qed

lemma mergeFields_again:
  "\<forall>f \<in> set fs. \<exists>x. map_of (metaFields old) f = Some x \<and> fldTypeId x = fldTypeId (fieldOf (metaFields new) f) \<Longrightarrow>
    mergeFields old new fs (ch, mf, mo) = Inr (ch, mf, mo)"
  by (induction fs) (auto simp: Let_def)

lemma mergeSchemas_fold:
  "fold (\<lambda>(i, sch) (changed, ms). if map_of so i = None then (True, AList.update i sch ms) else (changed, ms))
      ss (ch, ms) = (ch', ms') \<Longrightarrow>
    (map_of so j = Some x \<longrightarrow> map_of ms' j = map_of ms j) \<and>
    (j \<in> dom (map_of ms') \<longleftrightarrow> j \<in> dom (map_of ms) \<or> j \<in> fst ` set ss \<and> map_of so j = None) \<and>
    (ch' \<longleftrightarrow> ch \<or> (\<exists>i \<in> fst ` set ss. map_of so i = None))"
proof (induction ss arbitrary: ch ms)
  case Nil
  then show ?case by simp
next
  case (Cons p ss)
  obtain i sch where p: "p = (i, sch)" by (cases p)
  have d: "j \<in> dom (map_of (AList.update i sch ms)) \<longleftrightarrow> j = i \<or> j \<in> dom (map_of ms)"
    by (simp only: update_alist_map_of) simp
  show ?case
  proof (cases "map_of so i = None")
    case True
    then have "map_of so j = Some x \<longrightarrow> map_of (AList.update i sch ms) j = map_of ms j"
      by (auto simp: update_alist_map_of)
    moreover have "fold (\<lambda>(i, sch) (changed, ms). if map_of so i = None then (True, AList.update i sch ms) else (changed, ms))
      ss (True, AList.update i sch ms) = (ch', ms')"
      using Cons.prems p True by simp
    note Cons.IH [OF this]
    ultimately show ?thesis unfolding d using p True by (auto simp del: domIff)
  next
    case False
    then have "fold (\<lambda>(i, sch) (changed, ms). if map_of so i = None then (True, AList.update i sch ms) else (changed, ms))
      ss (ch, ms) = (ch', ms')" using Cons.prems p by auto
    note Cons.IH [OF this]
    then show ?thesis using p False by auto
  qed
qed

text \<open>What the merge of schemas holds: the old ones, and of the new ones those under other ids.\<close>

lemma mergeSchemas_fold_map:
  "fold (\<lambda>(i, sch) (changed, ms). if map_of so i = None then (True, AList.update i sch ms) else (changed, ms))
      ss (ch, ms) = (ch', ms') \<Longrightarrow> distinct (map fst ss) \<Longrightarrow>
    map_of ms' j = (if map_of so j = None \<and> j \<in> fst ` set ss then map_of ss j else map_of ms j)"
proof (induction ss arbitrary: ch ms)
  case (Cons p ss)
  obtain i sch where p: "p = (i, sch)" by (cases p)
  show ?case
    using Cons.IH [of "if map_of so i = None then True else ch" "if map_of so i = None then AList.update i sch ms else ms"]
      Cons.prems p by (auto simp: update_alist_map_of split: if_splits)
qed simp

lemma mergeSchemas_map:
  assumes "mergeSchemas old new = (ch, ms)" and "distinct (map fst (schemas new))"
  shows "map_of ms = map_of (schemas new) ++ map_of (schemas old)"
proof
  fix j
  show "map_of ms j = (map_of (schemas new) ++ map_of (schemas old)) j"
    using mergeSchemas_fold_map [OF assms(1) [unfolded mergeSchemas_def] assms(2), of j]
    by (cases "map_of (schemas old) j"; cases "map_of (schemas new) j")
       (auto simp: map_add_def map_of_None_fst [symmetric] simp del: map_of_eq_None_iff)
qed

lemma mergeSchemas_spec:
  assumes "mergeSchemas old new = (ch, ms)"
  shows "map_of (schemas old) i = Some x \<Longrightarrow> map_of ms i = Some x"
    and "dom (map_of ms) = dom (map_of (schemas old)) \<union> dom (map_of (schemas new))"
    and "ch \<longleftrightarrow> \<not> dom (map_of (schemas new)) \<subseteq> dom (map_of (schemas old))"
proof -
  note F = mergeSchemas_fold [OF assms [unfolded mergeSchemas_def]]
  show "map_of (schemas old) i = Some x \<Longrightarrow> map_of ms i = Some x" using F [of i x] by simp
  have n: "fst ` set (schemas new) = dom (map_of (schemas new))" by (simp add: dom_map_of_conv_image_fst)
  show "dom (map_of ms) = dom (map_of (schemas old)) \<union> dom (map_of (schemas new))"
    using F unfolding n by blast
  show "ch \<longleftrightarrow> \<not> dom (map_of (schemas new)) \<subseteq> dom (map_of (schemas old))"
    using F unfolding n by blast
qed

section \<open>Metadata\<close>

definition wf_meta :: "binaryMetadata \<Rightarrow> bool" where
  "wf_meta m \<longleftrightarrow>
     (if isEnum m
      then affKeyName m = [] \<and> metaFields m = [] \<and> fieldsOrder m = [] \<and> schemas m = [] \<and>
           wf_enum (nameToOrd m) (ordToName m)
      else nameToOrd m = [] \<and> ordToName m = [] \<and> set (fieldsOrder m) = dom (map_of (metaFields m)))"

text \<open>What is known of a type is still known: the fields with their types, the schemas, the
  constants of an enum.\<close>

definition knows :: "binaryMetadata \<Rightarrow> binaryMetadata \<Rightarrow> bool" where
  "knows new old \<longleftrightarrow> metaTypeId new = metaTypeId old \<and> metaTypeName new = metaTypeName old \<and>
     isEnum new = isEnum old \<and>
     (\<forall>f x. map_of (metaFields old) f = Some x \<longrightarrow>
        (\<exists>y. map_of (metaFields new) f = Some y \<and> fldTypeId y = fldTypeId x)) \<and>
     dom (map_of (schemas old)) \<subseteq> dom (map_of (schemas new)) \<and>
     set (nameToOrd old) \<subseteq> set (nameToOrd new)"

lemma knows_refl: "knows m m"
  by (simp add: knows_def)

lemma knows_trans: "knows c b \<Longrightarrow> knows b a \<Longrightarrow> knows c a"
  unfolding knows_def by (metis (no_types, lifting) subset_trans)

lemma fold_fields:
  "map_of (fold (\<lambda>f. AList.update f (g f)) fs m) f = (if f \<in> set fs then Some (g f) else map_of m f)"
  by (induction fs arbitrary: m) (auto simp: update_alist_map_of)

lemma merge_old_fields:
  assumes "wf_meta old" and "\<not> isEnum old"
  shows "map_of (fold (\<lambda>f. AList.update f (fieldOf (metaFields old) f)) (fieldsOrder old) []) f = map_of (metaFields old) f"
  using assms by (cases "map_of (metaFields old) f") (auto simp: fold_fields wf_meta_def fieldOf_def domIff)

lemma merge_type_case:
  assumes wf: "wf_meta old" "wf_meta new" and e: "\<not> isEnum old" "\<not> isEnum new"
    and same: "metaTypeId old = metaTypeId new" "metaTypeName old = metaTypeName new" "affKeyName old = affKeyName new"
    and m: "mergeMetadata (Some old) new = Inr (ch, m)"
  shows "wf_meta (if ch then m else old) \<and> knows (if ch then m else old) old \<and> knows (if ch then m else old) new \<and>
    affKeyName (if ch then m else old) = affKeyName new \<and> (\<not> ch \<longrightarrow> m = new)"
proof -
  let ?mf = "fold (\<lambda>f. AList.update f (fieldOf (metaFields old) f)) (fieldsOrder old) []"
  obtain ch1 mf' mo' where f: "mergeFields old new (fieldsOrder new) (False, ?mf, fieldsOrder old) = Inr (ch1, mf', mo')"
    using m e same by (auto simp: mergeMetadata_def Let_def bindE_Inr_iff)
  obtain ch2 ms where s: "mergeSchemas old new = (ch2, ms)" by fastforce
  have ch: "ch \<longleftrightarrow> ch1 \<or> ch2" and mm: "ch \<Longrightarrow> m = \<lparr>metaTypeId = metaTypeId new, metaTypeName = metaTypeName new,
      affKeyName = affKeyName new, isEnum = False, metaFields = mf', fieldsOrder = mo', schemas = ms,
      ordToName = [], nameToOrd = []\<rparr>" and mn: "\<not> ch \<Longrightarrow> m = new"
    using m e same f s by (auto simp: mergeMetadata_def Let_def split: if_splits)
  note M = mergeFields_map [OF f] and T = mergeFields_types [OF f] and O = mergeFields_order [OF f, THEN conjunct1]
    and C = mergeFields_order [OF f, THEN conjunct2]
  have ord: "set (fieldsOrder new) = dom (map_of (metaFields new))" "set (fieldsOrder old) = dom (map_of (metaFields old))"
    using wf e by (simp_all add: wf_meta_def)
  have getNew: "map_of (metaFields new) f = Some x \<Longrightarrow> fieldOf (metaFields new) f = x" for f x
    by (simp add: fieldOf_def)
  have fields: "map_of mf' f = (case map_of (metaFields old) f of Some x \<Rightarrow> Some x | None \<Rightarrow> map_of (metaFields new) f)" for f
    using M [of f] getNew [of f] unfolding merge_old_fields [OF wf(1) e(1)] ord
    by (cases "map_of (metaFields new) f") (auto simp: domIff split: option.split)
  have types: "map_of (metaFields old) f = Some x \<Longrightarrow> map_of (metaFields new) f = Some y \<Longrightarrow> fldTypeId x = fldTypeId y" for f x y
    using T [of f x] getNew [of f y] ord by (auto simp: domIff)
  show ?thesis
  proof (cases ch)
    case True
    have "set mo' = dom (map_of mf')"
      unfolding O ord using fields by (auto simp: domIff split: option.splits)
    then have "wf_meta m" using mm [OF True] by (simp add: wf_meta_def)
    moreover have "knows m old"
      using mm [OF True] same e fields mergeSchemas_spec(2) [OF s] wf by (auto simp: knows_def wf_meta_def)
    moreover have "knows m new"
      using mm [OF True] fields types mergeSchemas_spec(2) [OF s] wf e by (auto simp: knows_def wf_meta_def split: option.splits)
    ultimately show ?thesis using True mm by simp
  next
    case False
    have "dom (map_of (metaFields new)) \<subseteq> dom (map_of (metaFields old))"
      using C ch False ord(1) by (auto simp: domIff)
    moreover have "dom (map_of (schemas new)) \<subseteq> dom (map_of (schemas old))"
      using mergeSchemas_spec(3) [OF s] ch False by simp
    moreover have "nameToOrd new = []" using wf e by (simp add: wf_meta_def)
    ultimately have "knows old new"
      unfolding knows_def using types same e by (auto simp: dom_def subset_iff)
    then show ?thesis using False wf(1) knows_refl same mn by simp
  qed
qed

lemma wf_enum_rebuild:
  assumes "wf_enum names ords"
  shows "fold (\<lambda>(name, ord). AList.update name ord) names [] = names"
    and "wf_enum names (fold (\<lambda>(name, ord). AList.update ord name) names [])"
proof -
  have d: "distinct (map fst names)" "distinct (map fst (map prod.swap names))"
    using assms by (simp_all only: wf_enum_def map_fst_swap)
  show "fold (\<lambda>(name, ord). AList.update name ord) names [] = names"
    using fold_update_distinct [of "[]" names] d by simp
  have "fold (\<lambda>(name, ord). AList.update ord name) names [] = map prod.swap names"
    unfolding fold_update_swap using fold_update_distinct [of "[]" "map prod.swap names"] d by simp
  then show "wf_enum names (fold (\<lambda>(name, ord). AList.update ord name) names [])"
    using assms d(2) by (simp add: wf_enum_def)
qed

lemma merge_enum_case:
  assumes wf: "wf_meta old" "wf_meta new" and e: "isEnum old" "isEnum new"
    and same: "metaTypeId old = metaTypeId new" "metaTypeName old = metaTypeName new" "affKeyName old = affKeyName new"
    and m: "mergeMetadata (Some old) new = Inr (ch, m)"
  shows "wf_meta (if ch then m else old) \<and> knows (if ch then m else old) old \<and> knows (if ch then m else old) new \<and>
    affKeyName (if ch then m else old) = affKeyName new \<and> (\<not> ch \<longrightarrow> m = new)"
proof (cases "nameToOrd new = []")
  case True
  then have "\<not> ch" "m = new" using m e same by (simp_all add: mergeMetadata_def)
  moreover have "knows old new" using True wf e same by (simp add: knows_def wf_meta_def)
  ultimately show ?thesis using wf knows_refl same by simp
next
  case False
  let ?names = "nameToOrd old" and ?ords = "fold (\<lambda>(name, ord). AList.update ord name) (nameToOrd old) []"
  have we: "wf_enum ?names (ordToName old)" using wf e by (simp add: wf_meta_def)
  note R = wf_enum_rebuild [OF we]
  obtain names' ords' where me: "mergeEnum (nameToOrd new) ?names ?ords = Inr (names', ords')"
    and ch: "ch \<longleftrightarrow> length names' > length ?names"
    and mm: "ch \<Longrightarrow> m = \<lparr>metaTypeId = metaTypeId new, metaTypeName = metaTypeName new,
                        affKeyName = [], isEnum = True, metaFields = [], fieldsOrder = [], schemas = [],
                        ordToName = ords', nameToOrd = names'\<rparr>" and mn: "\<not> ch \<Longrightarrow> m = new"
    using m e same False by (auto simp: mergeMetadata_def Let_def bindE_Inr_iff R(1) split: if_splits)
  note S = mergeEnum_spec [OF me R(2)]
  show ?thesis
  proof (cases ch)
    case True
    have "wf_meta m" using S mm [OF True] by (simp add: wf_meta_def)
    moreover have "knows m old" "knows m new"
      using S mm [OF True] same e wf by (auto simp: knows_def wf_meta_def)
    ultimately show ?thesis using True mm wf e by (simp add: wf_meta_def)
  next
    case False
    then have "names' = ?names" using S ch by simp
    then have "knows old new" using S same e wf by (auto simp: knows_def wf_meta_def)
    then show ?thesis using False wf knows_refl same mn by simp
  qed
qed

lemma mergeMetadata_Inr_same:
  "mergeMetadata (Some old) new = Inr r \<Longrightarrow> metaTypeId old = metaTypeId new \<and> metaTypeName old = metaTypeName new \<and>
    isEnum old = isEnum new \<and> affKeyName old = affKeyName new"
  by (auto simp: mergeMetadata_def split: if_splits)

lemma merge_spec:
  assumes "wf_meta old" and "wf_meta new" and "mergeMetadata (Some old) new = Inr (ch, m)"
  shows "wf_meta (if ch then m else old) \<and> knows (if ch then m else old) old \<and> knows (if ch then m else old) new \<and>
    affKeyName (if ch then m else old) = affKeyName new \<and> (\<not> ch \<longrightarrow> m = new)"
  using merge_type_case [OF assms(1,2)] merge_enum_case [OF assms(1,2)] mergeMetadata_Inr_same [OF assms(3)] assms(3)
  by (cases "isEnum new") blast+

section \<open>The content of metadata\<close>

text \<open>The fields with their metadata, the schemas with their field ids, and the constants of an enum, as maps.
  What is added to a content gives way to what is there.\<close>

type_synonym content = "(string \<Rightarrow> binaryFieldMeta option) \<times> (i32 \<Rightarrow> binarySchema option) \<times> (string \<Rightarrow> i32 option)"

definition content :: "binaryMetadata \<Rightarrow> content" where
  "content m = (map_of (metaFields m), map_of (schemas m), map_of (nameToOrd m))"

definition addTo :: "content \<Rightarrow> content \<Rightarrow> content" where
  "addTo old new = (fst new ++ fst old, fst (snd new) ++ fst (snd old), snd (snd new) ++ snd (snd old))"

definition noContent :: content where
  "noContent = (Map.empty, Map.empty, Map.empty)"

lemma addTo_noContent [simp]: "addTo noContent c = c" "addTo c noContent = c"
  by (simp_all add: addTo_def noContent_def)

text \<open>A version as it is put: the schemas are a map, with one schema for an id.\<close>

definition wf_version :: "binaryMetadata \<Rightarrow> bool" where
  "wf_version m \<longleftrightarrow> wf_meta m \<and> distinct (map fst (schemas m))"

lemma map_add_old: "dom n \<subseteq> dom m \<Longrightarrow> n ++ m = m"
  by (rule ext) (auto simp: map_add_def split: option.split)

lemma enum_content:
  assumes "wf_enum names' ords'" and "distinct (map fst kvs)" and "distinct (map fst names)"
    and "set names' = set names \<union> set kvs"
  shows "map_of names' = map_of kvs ++ map_of names"
proof
  fix n
  have d: "distinct (map fst names')" using assms(1) by (simp add: wf_enum_def)
  show "map_of names' n = (map_of kvs ++ map_of names) n"
  proof (cases "map_of names n")
    case (Some x)
    then have "(n, x) \<in> set names'" using assms(4) by (auto dest: map_of_SomeD)
    then show ?thesis using Some map_of_is_SomeI [OF d] by (simp add: map_add_def)
  next
    case None
    show ?thesis
    proof (cases "map_of kvs n")
      case (Some x)
      then have "(n, x) \<in> set names'" using assms(4) by (auto dest: map_of_SomeD)
      then show ?thesis using Some None map_of_is_SomeI [OF d] by (simp add: map_add_def)
    next
      case none: None
      have "map_of names' n = None"
        unfolding map_of_None_fst using None none unfolding map_of_None_fst assms(4) by auto
      then show ?thesis using None none by (simp add: map_add_def)
    qed
  qed
qed

lemma merge_content:
  assumes wf: "wf_meta old" "wf_version new" and m: "mergeMetadata (Some old) new = Inr (ch, m)"
  shows "content (if ch then m else old) = addTo (content old) (content new)"
proof -
  have wn: "wf_meta new" "distinct (map fst (schemas new))" using wf(2) by (simp_all add: wf_version_def)
  have same: "metaTypeId old = metaTypeId new" "metaTypeName old = metaTypeName new" "isEnum old = isEnum new" "affKeyName old = affKeyName new"
    using mergeMetadata_Inr_same [OF m] by simp_all
  show ?thesis
  proof (cases "isEnum new")
    case False
    let ?mf = "fold (\<lambda>f. AList.update f (fieldOf (metaFields old) f)) (fieldsOrder old) []"
    obtain ch1 mf' mo' where f: "mergeFields old new (fieldsOrder new) (False, ?mf, fieldsOrder old) = Inr (ch1, mf', mo')"
      using m False same by (auto simp: mergeMetadata_def Let_def bindE_Inr_iff)
    obtain ch2 ms where s: "mergeSchemas old new = (ch2, ms)" by fastforce
    have ch: "ch \<longleftrightarrow> ch1 \<or> ch2" and mm: "ch \<Longrightarrow> metaFields m = mf' \<and> schemas m = ms \<and> nameToOrd m = []"
      using m False same f s by (auto simp: mergeMetadata_def Let_def split: if_splits)
    have ord: "set (fieldsOrder new) = dom (map_of (metaFields new))" using wn False by (simp add: wf_meta_def)
    have n: "nameToOrd new = []" "nameToOrd old = []" using wn wf(1) False same by (simp_all add: wf_meta_def)
    have "map_of mf' = map_of (metaFields new) ++ map_of (metaFields old)"
    proof
      fix g
      show "map_of mf' g = (map_of (metaFields new) ++ map_of (metaFields old)) g"
        using mergeFields_map [OF f, of g] merge_old_fields [OF wf(1), of g] False same ord
        by (cases "map_of (metaFields old) g"; cases "map_of (metaFields new) g")
           (auto simp: map_add_def fieldOf_def domIff)
    qed
    note fields = this and schs = mergeSchemas_map [OF s wn(2)]
    show ?thesis
    proof (cases ch)
      case True
      then show ?thesis using mm fields schs n by (simp add: content_def addTo_def)
    next
      case no: False
      have "dom (map_of (metaFields new)) \<subseteq> dom (map_of (metaFields old))"
        using mergeFields_order [OF f] ch no ord by (auto simp: domIff)
      moreover have "dom (map_of (schemas new)) \<subseteq> dom (map_of (schemas old))"
        using mergeSchemas_spec(3) [OF s] ch no by simp
      ultimately show ?thesis using no n by (simp add: content_def addTo_def map_add_old)
    qed
  next
    case True
    have e: "metaFields old = []" "metaFields new = []" "schemas old = []" "schemas new = []"
      using wf(1) wn True same by (simp_all add: wf_meta_def)
    show ?thesis
    proof (cases "nameToOrd new = []")
      case True
      then have "\<not> ch" using m same \<open>isEnum new\<close> by (simp add: mergeMetadata_def)
      then show ?thesis using True e by (simp add: content_def addTo_def)
    next
      case ne: False
      let ?names = "nameToOrd old" and ?ords = "fold (\<lambda>(name, ord). AList.update ord name) (nameToOrd old) []"
      have we: "wf_enum ?names (ordToName old)" "wf_enum (nameToOrd new) (ordToName new)"
        using wf(1) wn True same by (simp_all add: wf_meta_def)
      note R = wf_enum_rebuild [OF we(1)]
      obtain names' ords' where me: "mergeEnum (nameToOrd new) ?names ?ords = Inr (names', ords')"
        and ch: "ch \<longleftrightarrow> length names' > length ?names"
        and mm: "ch \<Longrightarrow> metaFields m = [] \<and> schemas m = [] \<and> nameToOrd m = names'"
        using m True same ne by (auto simp: mergeMetadata_def Let_def bindE_Inr_iff R(1) split: if_splits)
      note S = mergeEnum_spec [OF me R(2)]
      have "map_of names' = map_of (nameToOrd new) ++ map_of ?names"
        by (rule enum_content) (use S we in \<open>auto simp: wf_enum_def\<close>)
      moreover have "nameToOrd (if ch then m else old) = names'" using S ch mm by auto
      ultimately show ?thesis using e mm by (simp add: content_def addTo_def)
    qed
  qed
qed

text \<open>Merging what is known already changes nothing.\<close>

lemma merge_known:
  assumes wf: "wf_meta old" "wf_meta new" and k: "knows old new" and aff: "affKeyName old = affKeyName new"
  shows "mergeMetadata (Some old) new = Inr (False, new)"
proof (cases "isEnum new")
  case True
  then have we: "wf_enum (nameToOrd old) (ordToName old)" using wf k by (simp add: wf_meta_def knows_def)
  note R = wf_enum_rebuild [OF we]
  have "mergeEnum (nameToOrd new) (nameToOrd old) (fold (\<lambda>(name, ord). AList.update ord name) (nameToOrd old) [])
      = Inr (nameToOrd old, fold (\<lambda>(name, ord). AList.update ord name) (nameToOrd old) [])"
    using k R(2) by (intro mergeEnum_again) (simp_all add: knows_def)
  then show ?thesis using k True aff by (simp add: mergeMetadata_def knows_def Let_def R(1))
next
  case False
  obtain ch2 ms where s: "mergeSchemas old new = (ch2, ms)" by fastforce
  have "\<not> ch2" using mergeSchemas_spec(3) [OF s] k by (simp add: knows_def)
  moreover have "\<forall>f \<in> set (fieldsOrder new). \<exists>x. map_of (metaFields old) f = Some x \<and> fldTypeId x = fldTypeId (fieldOf (metaFields new) f)"
    using k False wf by (fastforce simp: knows_def wf_meta_def fieldOf_def)
  note mergeFields_again [OF this]
  ultimately show ?thesis using k False aff s by (simp add: mergeMetadata_def knows_def Let_def)
qed

lemma wf_copy: "wf_meta m \<Longrightarrow> wf_meta (copyMeta m) \<and> knows (copyMeta m) m \<and> knows m (copyMeta m) \<and>
    affKeyName (copyMeta m) = affKeyName m"
proof (cases "isEnum m")
  case False
  then show "wf_meta m \<Longrightarrow> ?thesis" by (simp add: copyMeta_def wf_meta_def knows_def)
next
  case True
  assume wf: "wf_meta m"
  then have we: "wf_enum (nameToOrd m) (ordToName m)" using True by (simp add: wf_meta_def)
  have sw: "map prod.swap (ordToName m) = map prod.swap (ordToName m)" ..
  have se: "set (map prod.swap (ordToName m)) = set (nameToOrd m)"
    using we by (simp add: wf_enum_def image_image)
  have dsnd: "distinct (map snd (ordToName m))"
  proof -
    have "inj_on snd (set (ordToName m))"
      using we by (auto simp: wf_enum_def inj_on_def distinct_map image_iff)
    moreover have "distinct (ordToName m)" using we by (simp add: wf_enum_def distinct_map)
    ultimately show ?thesis by (simp add: distinct_map)
  qed
  have o: "fold (\<lambda>(ord, name). AList.update ord name) (ordToName m) [] = ordToName m"
    using fold_update_distinct [of "[]" "ordToName m"] we by (simp add: wf_enum_def)
  have n: "fold (\<lambda>(ord, name). AList.update name ord) (ordToName m) [] = map prod.swap (ordToName m)"
    unfolding fold_update_swap
    using fold_update_distinct [of "[]" "map prod.swap (ordToName m)"] dsnd by (simp only: append_Nil map_fst_swap)
  have "map snd (map prod.swap (ordToName m)) = map fst (ordToName m)" by (induction "ordToName m") auto
  then have "wf_enum (map prod.swap (ordToName m)) (ordToName m)"
    using we dsnd by (simp only: wf_enum_def map_fst_swap) (auto simp: image_image)
  then show ?thesis
    using wf True se by (simp add: copyMeta_def o n wf_meta_def knows_def)
qed

lemma content_copy: "wf_meta m \<Longrightarrow> content (copyMeta m) = content m"
proof (cases "isEnum m")
  case False
  then show "wf_meta m \<Longrightarrow> ?thesis" by (simp add: copyMeta_def wf_meta_def content_def)
next
  case True
  assume wf: "wf_meta m"
  have c: "wf_meta (copyMeta m)" "knows (copyMeta m) m" "knows m (copyMeta m)" using wf_copy [OF wf] by simp_all
  then have i: "isEnum (copyMeta m)" "set (nameToOrd (copyMeta m)) = set (nameToOrd m)" using True by (auto simp: knows_def)
  then have "distinct (map fst (nameToOrd (copyMeta m)))" "distinct (map fst (nameToOrd m))"
    using c(1) wf True by (simp_all add: wf_meta_def wf_enum_def)
  then have "map_of (nameToOrd (copyMeta m)) = map_of (nameToOrd m)" using i(2) by (simp add: map_of_inject_set)
  then show ?thesis using c(1) wf True i(1) by (simp add: content_def wf_meta_def)
qed

end
