(* ===== verification/SchemaStore.thy ===== *)
theory SchemaStore
  imports SchemaMerge
begin

text \<open>
  The contract of a store of metadata and the cache as its provider; schema identifiers,
  footers and the wire form of metadata.
\<close>

section \<open>Stores of metadata\<close>

text \<open>What is known of a type that may be absent, and what a sequence of versions makes of it: the first
  version that has a field, a schema or a constant decides.\<close>

definition contentOf :: "binaryMetadata option \<Rightarrow> content" where
  "contentOf g = (case g of None \<Rightarrow> noContent | Some m \<Rightarrow> content m)"

definition firstCome :: "i32 \<Rightarrow> binaryMetadata list \<Rightarrow> content \<Rightarrow> content" where
  "firstCome t ms c = fold (\<lambda>m c. if metaTypeId m = t then addTo c (content m) else c) ms c"

text \<open>
  The laws a client of a store relies on: what it puts is known afterwards, what was known is
  still known, other types are untouched. The lemmas hold for every sequence of puts.
\<close>

locale metadata_store =
  fixes get :: "i32 \<Rightarrow> 's \<Rightarrow> binaryMetadata option"
    and put :: "binaryMetadata \<Rightarrow> 's \<Rightarrow> gerror + (binaryMetadata \<times> 's)"
    and inv :: "'s \<Rightarrow> bool"
  assumes put_inv: "inv s \<Longrightarrow> wf_version m \<Longrightarrow> put m s = Inr (m', s') \<Longrightarrow> inv s'"
    and put_get: "inv s \<Longrightarrow> wf_version m \<Longrightarrow> put m s = Inr (m', s') \<Longrightarrow>
      \<exists>g. get (metaTypeId m) s' = Some g \<and> knows g m"
    and put_keeps: "inv s \<Longrightarrow> wf_version m \<Longrightarrow> put m s = Inr (m', s') \<Longrightarrow> get t s = Some g \<Longrightarrow>
      \<exists>g'. get t s' = Some g' \<and> knows g' g"
    and put_content: "inv s \<Longrightarrow> wf_version m \<Longrightarrow> put m s = Inr (m', s') \<Longrightarrow>
      contentOf (get t s') = (if metaTypeId m = t then addTo (contentOf (get t s)) (content m) else contentOf (get t s))"
begin

fun putAll :: "binaryMetadata list \<Rightarrow> 's \<Rightarrow> gerror + 's" where
  "putAll [] s = Inr s"
| "putAll (m # ms) s = bindE (put m s) (\<lambda>(_, s'). putAll ms s')"

lemma putAll_Cons_iff:
  "putAll (m # ms) s = Inr s'' \<longleftrightarrow> (\<exists>m' s'. put m s = Inr (m', s') \<and> putAll ms s' = Inr s'')"
  by (auto simp: bindE_Inr_iff)

lemma putAll_inv: "putAll ms s = Inr s' \<Longrightarrow> inv s \<Longrightarrow> \<forall>m \<in> set ms. wf_version m \<Longrightarrow> inv s'"
proof (induction ms arbitrary: s)
  case Nil
  then show ?case by simp
next
  case (Cons m ms)
  obtain m' s1 where "put m s = Inr (m', s1)" "putAll ms s1 = Inr s'"
    using Cons.prems(1) unfolding putAll_Cons_iff by blast
  then show ?case using Cons put_inv [of s m m' s1] by simp
qed

lemma putAll_keeps:
  "putAll ms s = Inr s' \<Longrightarrow> inv s \<Longrightarrow> \<forall>m \<in> set ms. wf_version m \<Longrightarrow> get t s = Some g \<Longrightarrow>
    \<exists>g'. get t s' = Some g' \<and> knows g' g"
proof (induction ms arbitrary: s g)
  case Nil
  then show ?case by (auto simp: knows_refl)
next
  case (Cons m ms)
  obtain m' s1 where p: "put m s = Inr (m', s1)" and r: "putAll ms s1 = Inr s'"
    using Cons.prems(1) unfolding putAll_Cons_iff by blast
  have wf: "wf_version m" using Cons.prems(3) by simp
  obtain g1 where "get t s1 = Some g1" "knows g1 g"
    using put_keeps [OF Cons.prems(2) wf p Cons.prems(4)] by blast
  then show ?case
    using Cons.IH [OF r put_inv [OF Cons.prems(2) wf p]] Cons.prems(3) knows_trans by fastforce
qed

lemma putAll_known:
  "putAll ms s = Inr s' \<Longrightarrow> inv s \<Longrightarrow> \<forall>m \<in> set ms. wf_version m \<Longrightarrow> m \<in> set ms \<Longrightarrow>
    \<exists>g. get (metaTypeId m) s' = Some g \<and> knows g m"
proof (induction ms arbitrary: s)
  case Nil
  then show ?case by simp
next
  case (Cons m1 ms)
  obtain m' s1 where p: "put m1 s = Inr (m', s1)" and r: "putAll ms s1 = Inr s'"
    using Cons.prems(1) unfolding putAll_Cons_iff by blast
  have wf: "wf_version m1" "\<forall>m \<in> set ms. wf_version m" using Cons.prems(3) by simp_all
  have i: "inv s1" by (rule put_inv [OF Cons.prems(2) wf(1) p])
  show ?case
  proof (cases "m \<in> set ms")
    case True
    then show ?thesis using Cons.IH [OF r i wf(2)] by simp
  next
    case False
    then have "m = m1" using Cons.prems(4) by simp
    then obtain g where "get (metaTypeId m) s1 = Some g" "knows g m"
      using put_get [OF Cons.prems(2) wf(1) p] by blast
    then show ?thesis using putAll_keeps [OF r i wf(2)] knows_trans by blast
  qed
qed

lemma putAll_content:
  "putAll ms s = Inr s' \<Longrightarrow> inv s \<Longrightarrow> \<forall>m \<in> set ms. wf_version m \<Longrightarrow>
    contentOf (get t s') = firstCome t ms (contentOf (get t s))"
proof (induction ms arbitrary: s)
  case Nil
  then show ?case by (simp add: firstCome_def)
next
  case (Cons m ms)
  obtain m' s1 where p: "put m s = Inr (m', s1)" and r: "putAll ms s1 = Inr s'"
    using Cons.prems(1) unfolding putAll_Cons_iff by blast
  have wf: "wf_version m" "\<forall>m \<in> set ms. wf_version m" using Cons.prems(3) by simp_all
  show ?case
    using Cons.IH [OF r put_inv [OF Cons.prems(2) wf(1) p] wf(2)] put_content [OF Cons.prems(2) wf(1) p, of t]
    by (simp add: firstCome_def)
qed

end

definition wf_cache :: "metaCache \<Rightarrow> bool" where
  "wf_cache c \<longleftrightarrow> (\<forall>t m. metaData c t = Some m \<longrightarrow> wf_meta m \<and> metaTypeId m = t)"

lemma cachePut_cases:
  assumes "wf_cache c" and "wf_version m" and "cachePutMetadata m c = Inr (m', c')"
  shows "\<exists>g. metaData c' = (metaData c)(metaTypeId m \<mapsto> g) \<and> wf_meta g \<and> metaTypeId g = metaTypeId m \<and> knows g m \<and>
    (\<forall>old. metaData c (metaTypeId m) = Some old \<longrightarrow> knows g old) \<and>
    content g = addTo (contentOf (metaData c (metaTypeId m))) (content m)"
proof (cases "metaData c (metaTypeId m)")
  case None
  then have "c' = c\<lparr>metaData := (metaData c)(metaTypeId m \<mapsto> m)\<rparr>"
    using assms(3) by (auto simp: cachePutMetadata_def mergeMetadata_def)
  then show ?thesis using None assms(2) knows_refl by (intro exI [of _ m]) (simp add: wf_version_def contentOf_def)
next
  case (Some old)
  then obtain ch where me: "mergeMetadata (Some old) m = Inr (ch, m')"
    and c': "c' = (if ch then c\<lparr>metaData := (metaData c)(metaTypeId m' \<mapsto> m')\<rparr> else c)"
    using assms(3) by (auto simp: cachePutMetadata_def bindE_Inr_iff)
  have old: "wf_meta old" "metaTypeId old = metaTypeId m" using assms(1) Some by (simp_all add: wf_cache_def)
  have wf: "wf_meta m" using assms(2) by (simp add: wf_version_def)
  note S = merge_spec [OF old(1) wf me] and C = merge_content [OF old(1) assms(2) me]
  show ?thesis
  proof (cases ch)
    case True
    then have "knows m' m" using S by simp
    then have "metaTypeId m' = metaTypeId m" by (simp add: knows_def)
    then show ?thesis using True c' S C Some by (intro exI [of _ m']) (simp add: contentOf_def)
  next
    case False
    then have "metaData c' = (metaData c)(metaTypeId m \<mapsto> old)" using c' Some by (simp add: fun_upd_idem)
    then show ?thesis using False S C Some old by (intro exI [of _ old]) (simp add: contentOf_def)
  qed
qed

interpretation meta_cache: metadata_store cacheGetMetadata cachePutMetadata wf_cache
proof unfold_locales
  fix s m m' s'
  assume i: "wf_cache s" and wf: "wf_version m" and p: "cachePutMetadata m s = Inr (m', s')"
  obtain g where g: "metaData s' = (metaData s)(metaTypeId m \<mapsto> g)" "wf_meta g" "metaTypeId g = metaTypeId m" "knows g m"
    "\<forall>old. metaData s (metaTypeId m) = Some old \<longrightarrow> knows g old"
    "content g = addTo (contentOf (metaData s (metaTypeId m))) (content m)"
    using cachePut_cases [OF i wf p] by blast
  have get: "contentOf (cacheGetMetadata t c) = contentOf (metaData c t)" if "wf_cache c" for t c
    using that content_copy by (auto simp: contentOf_def cacheGetMetadata_def wf_cache_def split: option.split)
  show wc: "wf_cache s'" using i g by (simp add: wf_cache_def)
  show "contentOf (cacheGetMetadata t s') = (if metaTypeId m = t then addTo (contentOf (cacheGetMetadata t s)) (content m)
      else contentOf (cacheGetMetadata t s))" for t
    unfolding get [OF wc] get [OF i] using g(1,6) by (auto simp: contentOf_def)
  show "\<exists>g. cacheGetMetadata (metaTypeId m) s' = Some g \<and> knows g m"
    using g wf_copy [OF g(2)] knows_trans by (auto simp: cacheGetMetadata_def)
  fix t old
  assume "cacheGetMetadata t s = Some old"
  then obtain o0 where o0: "metaData s t = Some o0" "old = copyMeta o0" by (auto simp: cacheGetMetadata_def)
  have w0: "wf_meta o0" using i o0(1) by (simp add: wf_cache_def)
  have ko: "knows o0 old" using wf_copy [OF w0] o0(2) by simp
  show "\<exists>g'. cacheGetMetadata t s' = Some g' \<and> knows g' old"
  proof (cases "t = metaTypeId m")
    case True
    then have "knows g o0" using g(5) o0(1) by simp
    then have "knows (copyMeta g) old" using ko wf_copy [OF g(2)] knows_trans by blast
    then show ?thesis using g(1) True by (simp add: cacheGetMetadata_def)
  next
    case False
    then show ?thesis using g(1) o0 knows_refl by (simp add: cacheGetMetadata_def)
  qed
qed

section \<open>Properties of the store\<close>

text \<open>C18 Merging keeps both versions and is idempotent: when the merge of two well-formed versions of a type
  succeeds, the metadata that is kept (the merged one when it changed, else the old) is well-formed, and
  its content is that of the old version with what only the new one has: fields with type and id, schemas
  with their field ids, constants of an enum. Fields of both versions have one type, and merging the same
  version once more reports no change.\<close>

theorem merge_keeps_both:
  assumes "wf_meta old" and "wf_version new" and "mergeMetadata (Some old) new = Inr (ch, m)"
  shows "let kept = (if ch then m else old) in
    wf_meta kept \<and> content kept = addTo (content old) (content new) \<and>
    knows kept old \<and> knows kept new \<and> mergeMetadata (Some kept) new = Inr (False, new)"
proof -
  have wf: "wf_meta new" using assms(2) by (simp add: wf_version_def)
  show ?thesis
    using merge_spec [OF assms(1) wf assms(3)] merge_known wf merge_content [OF assms] by (simp add: Let_def)
qed

definition personV1 :: binaryMetadata where
  "personV1 = addField ''name'' 9 1 (newBinaryMetadata 7 ''Person'' [])"

definition personV2 :: binaryMetadata where
  "personV2 = addSchema \<lparr>schemaId = 5, schFieldIds = [2]\<rparr> (addField ''age'' 3 2 (newBinaryMetadata 7 ''Person'' []))"

lemma wf_person: "wf_meta personV1" "wf_version personV1" "wf_version personV2"
  by (simp_all add: wf_version_def personV1_def personV2_def wf_meta_def addField_def addSchema_def newBinaryMetadata_def)

lemma merge_person: "\<exists>m. mergeMetadata (Some personV1) personV2 = Inr (True, m) \<and> fieldsOrder m = [''name'', ''age'']"
  by (simp add: mergeMetadata_def personV1_def personV2_def addField_def addSchema_def newBinaryMetadata_def
      mergeSchemas_def Let_def)

theorem merge_keeps_both_witness:
  "\<exists>m. mergeMetadata (Some personV1) personV2 = Inr (True, m) \<and> knows m personV1 \<and> knows m personV2 \<and>
    fst (snd (content m)) 5 = Some \<lparr>schemaId = 5, schFieldIds = [2]\<rparr>"
proof -
  obtain m where m: "mergeMetadata (Some personV1) personV2 = Inr (True, m)" using merge_person by blast
  from merge_keeps_both [OF wf_person(1,3) this]
  have "knows m personV1" "knows m personV2" "content m = addTo (content personV1) (content personV2)" by (simp_all add: Let_def)
  then show ?thesis using m by (simp add: content_def addTo_def personV1_def personV2_def addSchema_def addField_def newBinaryMetadata_def)
qed

text \<open>C11 The cache never forgets: after any sequence of successful puts of well-formed metadata on a cache
  that satisfies its invariant, the invariant holds, and what is looked up for a type is what was there
  before with what the versions of that type added in turn, each field with type and id, each schema with
  its field ids and each constant of an enum as it came first. In particular every version that was put
  is known under its type id, and everything that could be looked up before is still known.\<close>

theorem cache_never_forgets:
  assumes "wf_cache c" and "\<forall>m \<in> set ms. wf_version m" and "meta_cache.putAll ms c = Inr c'"
  shows "wf_cache c' \<and>
    (\<forall>t. contentOf (cacheGetMetadata t c') = firstCome t ms (contentOf (cacheGetMetadata t c))) \<and>
    (\<forall>m \<in> set ms. \<exists>g. cacheGetMetadata (metaTypeId m) c' = Some g \<and> knows g m) \<and>
    (\<forall>t g. cacheGetMetadata t c = Some g \<longrightarrow> (\<exists>g'. cacheGetMetadata t c' = Some g' \<and> knows g' g))"
  using meta_cache.putAll_inv [OF assms(3,1,2)] meta_cache.putAll_known [OF assms(3,1,2)]
    meta_cache.putAll_keeps [OF assms(3,1,2)] meta_cache.putAll_content [OF assms(3,1,2)] by blast

lemma put_person: "\<exists>c'. meta_cache.putAll [personV1, personV2] newBinaryMetadataCache = Inr c'"
proof -
  have i: "metaTypeId personV1 = 7" "metaTypeId personV2 = 7"
    by (simp_all add: personV1_def personV2_def addField_def addSchema_def newBinaryMetadata_def)
  have "mergeMetadata None personV1 = Inr (True, personV1)" by (simp add: mergeMetadata_def)
  moreover obtain m where "mergeMetadata (Some personV1) personV2 = Inr (True, m)" using merge_person by blast
  ultimately show ?thesis
    by (simp add: newBinaryMetadataCache_def cachePutMetadata_def i)
qed

theorem cache_never_forgets_witness:
  "\<exists>c' g. meta_cache.putAll [personV1, personV2] newBinaryMetadataCache = Inr c' \<and>
    cacheGetMetadata 7 c' = Some g \<and> knows g personV1 \<and> fst (snd (content g)) 5 = Some \<lparr>schemaId = 5, schFieldIds = [2]\<rparr>"
proof -
  obtain c' where c': "meta_cache.putAll [personV1, personV2] newBinaryMetadataCache = Inr c'" using put_person by blast
  have w: "wf_cache newBinaryMetadataCache" by (simp add: wf_cache_def newBinaryMetadataCache_def)
  have v: "\<forall>m \<in> set [personV1, personV2]. wf_version m" using wf_person by simp
  have i: "metaTypeId personV1 = 7" "metaTypeId personV2 = 7"
    by (simp_all add: personV1_def personV2_def addSchema_def addField_def newBinaryMetadata_def)
  have "cacheGetMetadata 7 newBinaryMetadataCache = None" by (simp add: cacheGetMetadata_def newBinaryMetadataCache_def)
  with cache_never_forgets [OF w v c'] i obtain g where g: "cacheGetMetadata 7 c' = Some g" "knows g personV1"
    "contentOf (cacheGetMetadata 7 c') = firstCome 7 [personV1, personV2] noContent"
    by (metis contentOf_def list.set_intros(1) option.case(1))
  then have "content g = addTo (content personV1) (content personV2)" by (simp add: contentOf_def firstCome_def i)
  then show ?thesis using g c'
    by (simp add: content_def addTo_def personV1_def personV2_def addSchema_def addField_def newBinaryMetadata_def)
qed

end
