(* ===== verification/SchemaWire.thy ===== *)
theory SchemaWire
  imports SchemaStore
begin

text \<open>Schema identifiers as a hash, and metadata on the wire.\<close>

section \<open>Schema identifiers\<close>

text \<open>The 32-bit FNV-1a hash: each byte is xored into the hash, which is then multiplied by the
  prime.\<close>

definition fnv1a :: "byte list \<Rightarrow> i32 \<Rightarrow> i32" where
  "fnv1a = fold (\<lambda>b h. (h XOR ucast b) * 0x01000193)"

lemma mask8: "(0xFF :: i32) = mask 8"
  by (simp add: mask_eq_exp_minus_1)

lemma byte_of_word:
  assumes "n \<le> 24"
  shows "signed_drop_bit n (f :: i32) AND 0xFF = ucast (word_of_nat (unat f div 2 ^ n) :: byte)"
proof (rule bit_word_eqI)
  fix k
  assume k: "k < LENGTH(32)"
  have "bit (unat f div 2 ^ n) k \<longleftrightarrow> bit f (n + k)"
    unfolding drop_bit_eq_div [symmetric] by (simp add: bit_simps)
  then show "bit (signed_drop_bit n f AND 0xFF) k = bit (ucast (word_of_nat (unat f div 2 ^ n) :: byte) :: i32) k"
    unfolding mask8 using k assms by (auto simp: bit_simps)
qed

lemma updateSchemaId_fnv1a: "updateSchemaId h f = fnv1a (encI32 f) h"
proof -
  have b: "f AND 0xFF = ucast (word_of_nat (unat f) :: byte)"
    "signed_drop_bit 8 f AND 0xFF = ucast (word_of_nat (unat f div 256) :: byte)"
    "signed_drop_bit 16 f AND 0xFF = ucast (word_of_nat (unat f div 65536) :: byte)"
    "signed_drop_bit 24 f AND 0xFF = ucast (word_of_nat (unat f div 16777216) :: byte)"
    using byte_of_word [of 0 f] byte_of_word [of 8 f] byte_of_word [of 16 f] byte_of_word [of 24 f]
    by (simp_all del: of_nat_unat)
  have e: "encI32 f = [word_of_nat (unat f), word_of_nat (unat f div 256),
      word_of_nat (unat f div 65536), word_of_nat (unat f div 16777216)]"
    by (simp add: encI32_def to_le_numeral div_mult2_eq [symmetric] del: of_nat_unat)
  show ?thesis
    unfolding updateSchemaId_def Let_def fnv1a_def e b fnv1Prime_def by (simp only: fold_simps)
qed

lemma everySecond_append2: "even (length xs) \<Longrightarrow> everySecond (xs @ [a, b]) = everySecond xs @ [a]"
  by (induction xs rule: everySecond.induct) auto

lemma BuildSchema_fold:
  assumes "even (length (bldData bld))"
  shows "BuildSchema (fold (\<lambda>(fid, off). AddField fid off) fs bld)
    = \<lparr>schemaId = fnv1a (concat (map (\<lambda>p. encI32 (fst p)) fs)) (bldSchemaId bld),
       schFieldIds = everySecond (bldData bld) @ map fst fs\<rparr>"
  using assms
proof (induction fs arbitrary: bld)
  case Nil
  then show ?case by (simp add: BuildSchema_def fnv1a_def)
next
  case (Cons p fs)
  obtain fid off where p: "p = (fid, off)" by (cases p)
  have "even (length (bldData (AddField fid off bld)))" using Cons.prems by (simp add: AddField_def)
  then show ?case
    using Cons.IH [of "AddField fid off bld"] Cons.prems p
    by (simp add: AddField_def updateSchemaId_fnv1a everySecond_append2) (simp add: fnv1a_def)
qed

text \<open>The identifier of a schema is the FNV-1a hash of its field ids: for any sequence of
  added fields it is the hash, from the offset basis, of the little-endian bytes of the ids in
  order, whatever the offsets are, and the schema lists the ids in that order.\<close>

theorem schema_id_is_fnv1a:
  "BuildSchema (fold (\<lambda>(fid, off). AddField fid off) fs newBinarySchemaBuilder)
    = \<lparr>schemaId = fnv1a (concat (map (\<lambda>p. encI32 (fst p)) fs)) 0x811C9DC5, schFieldIds = map fst fs\<rparr>"
  using BuildSchema_fold [of newBinarySchemaBuilder fs]
  by (simp add: newBinarySchemaBuilder_def fnv1OffsetBasis_def)

section \<open>Metadata on the wire\<close>

definition encString :: "string \<Rightarrow> byte list" where
  "encString s = typeCode StringType # encStr s"

definition encOptString :: "string \<Rightarrow> byte list" where
  "encOptString s = (if s = [] then [typeCode NullType] else encString s)"

definition encField :: "string \<times> binaryFieldMeta \<Rightarrow> byte list" where
  "encField p = encString (fst p) @ encI32 (fldTypeId (snd p)) @ encI32 (fldFieldId (snd p))"

definition encNameOrd :: "string \<times> i32 \<Rightarrow> byte list" where
  "encNameOrd p = encString (fst p) @ encI32 (snd p)"

definition encSchema :: "i32 \<times> binarySchema \<Rightarrow> byte list" where
  "encSchema p = encI32 (schemaId (snd p)) @ lenBytes (length (schFieldIds (snd p))) @ concat (map encI32 (schFieldIds (snd p)))"

definition encSeq :: "('a \<Rightarrow> byte list) \<Rightarrow> 'a list \<Rightarrow> byte list" where
  "encSeq enc xs = lenBytes (length xs) @ concat (map enc xs)"

definition encMeta :: "binaryMetadata \<Rightarrow> byte list" where
  "encMeta m = encI32 (metaTypeId m) @ encString (metaTypeName m) @ encOptString (affKeyName m) @
     encSeq encField (metaFields m) @ [boolByte (isEnum m)] @
     (if isEnum m then encSeq encNameOrd (nameToOrd m) else []) @ encSeq encSchema (schemas m)"

text \<open>Metadata as the code builds it: the fields in the order of addition, the maps with
  different keys, an enum with its two maps inverse to each other, lengths in 31 bits.\<close>

definition wire_meta :: "binaryMetadata \<Rightarrow> bool" where
  "wire_meta m \<longleftrightarrow> small (length (metaTypeName m)) \<and> small (length (affKeyName m)) \<and>
     fieldsOrder m = map fst (metaFields m) \<and> distinct (map fst (metaFields m)) \<and> small (length (metaFields m)) \<and>
     (\<forall>p \<in> set (metaFields m). small (length (fst p))) \<and>
     (if isEnum m then ordToName m = map prod.swap (nameToOrd m) \<and> distinct (map fst (nameToOrd m)) \<and>
        distinct (map snd (nameToOrd m)) \<and> small (length (nameToOrd m)) \<and> (\<forall>p \<in> set (nameToOrd m). small (length (fst p)))
      else ordToName m = [] \<and> nameToOrd m = []) \<and>
     distinct (map fst (schemas m)) \<and> small (length (schemas m)) \<and>
     (\<forall>p \<in> set (schemas m). schemaId (snd p) = fst p \<and> small (length (schFieldIds (snd p))))"

lemma writes_encString [wire]: "writes (marshalString s) (encString s)"
  by (simp add: encString_def wire)

lemma writes_encOptString [wire]: "writes (marshalEmptyStringAsNull s) (encOptString s)"
  by (simp add: encOptString_def marshalEmptyStringAsNull_def wire)

lemma reads_encString [wire]: "small (length s) \<Longrightarrow> reads unmarshalString (encString s) s"
  by (simp add: encString_def wire)

lemma reads_encOptString [wire]: "small (length s) \<Longrightarrow> reads unmarshalString (encOptString s) s"
  using reads_unmarshalString(2) by (simp add: encOptString_def wire)

lemma writes_writeMap:
  assumes "\<And>k v. (k, v) \<in> set m \<Longrightarrow> writes (w k v) (enc (k, v))"
  shows "writes (writeMap m w) (encSeq enc m)"
proof -
  have "writes (seqW (map (\<lambda>(k, v). w k v) m)) (concat (map enc m))"
    using assms by (induction m) (auto intro!: writes_then simp: wire)
  then show ?thesis unfolding writeMap_def encSeq_def by (intro writes_then writes_len)
qed

lemma writes_field: "writes (writeFieldMeta n f) (encField (n, f))"
  unfolding writeFieldMeta_def encField_def fst_conv snd_conv
  by (rule writes_cong, rule writes_seq_Cons [OF writes_encString], rule writes_seq_Cons [OF writes_i32(1)],
      rule writes_seq_Cons [OF writes_i32(1)], rule writes_seq_Nil) simp

lemma writes_schema: "writes (writeSchema sch) (encSchema (k, sch))"
  unfolding writeSchema_def encSchema_def snd_conv
  by (rule writes_cong, rule writes_seq_Cons [OF writes_i32(1)],
      rule writes_seq_Cons [OF writes_writeSequence [OF writes_i32(1)]], rule writes_seq_Nil) simp

lemma writes_nameOrd: "writes (seqW [marshalString n, WriteInt32 ord]) (encNameOrd (n, ord))"
  unfolding encNameOrd_def fst_conv snd_conv
  by (rule writes_cong, rule writes_seq_Cons [OF writes_encString], rule writes_seq_Cons [OF writes_i32(1)],
      rule writes_seq_Nil) simp

lemma writes_fields:
  assumes "fieldsOrder m = map fst (metaFields m)" and "distinct (map fst (metaFields m))"
  shows "writes (writeSequence (length (fieldsOrder m)) (\<lambda>idx.
         let fName = fieldsOrder m ! idx in writeFieldMeta fName (fieldOf (metaFields m) fName)))
    (encSeq encField (metaFields m))"
proof -
  have "map (\<lambda>n. encField (n, fieldOf (metaFields m) n)) (fieldsOrder m) = map encField (metaFields m)"
    unfolding assms(1) map_map
  proof (intro map_cong refl)
    fix p assume "p \<in> set (metaFields m)"
    then have "map_of (metaFields m) (fst p) = Some (snd p)"
      using assms by (simp add: map_of_distinct)
    then show "((\<lambda>n. encField (n, fieldOf (metaFields m) n)) \<circ> fst) p = encField p"
      by (simp add: fieldOf_def)
  qed
  then have "encSeq encField (metaFields m) = lenBytes (length (fieldsOrder m)) @
      concat (map (\<lambda>n. encField (n, fieldOf (metaFields m) n)) (fieldsOrder m))"
    unfolding encSeq_def by (simp only: assms(1) length_map)
  then show ?thesis unfolding Let_def
    using writes_writeSequence [where w = "\<lambda>n. writeFieldMeta n (fieldOf (metaFields m) n)"
        and xs = "fieldsOrder m" and enc = "\<lambda>n. encField (n, fieldOf (metaFields m) n)", OF writes_field]
    by simp
qed

lemma writes_writeBinaryMeta:
  assumes "wire_meta m"
  shows "writes (writeBinaryMeta m) (encMeta m)"
proof -
  have "writes (if isEnum m then writeMap (nameToOrd m) (\<lambda>name ord. seqW [marshalString name, WriteInt32 ord]) else skipW)
      (if isEnum m then encSeq encNameOrd (nameToOrd m) else [])"
    by (intro writes_if writes_writeMap writes_nameOrd writes_skip)
  moreover have "writes (writeMap (schemas m) (\<lambda>_ sch. writeSchema sch)) (encSeq encSchema (schemas m))"
    by (intro writes_writeMap writes_schema)
  moreover have f: "fieldsOrder m = map fst (metaFields m)" "distinct (map fst (metaFields m))"
    using assms by (simp_all add: wire_meta_def)
  ultimately show ?thesis
    unfolding writeBinaryMeta_def encMeta_def
    by (intro writes_cong [OF writes_seq_Cons [OF writes_i32(1) writes_seq_Cons [OF writes_encString
          writes_seq_Cons [OF writes_encOptString writes_seq_Cons [OF writes_fields [OF f]
          writes_seq_Cons [OF writes_prims(1) writes_seq_Cons [OF _ writes_seq_Cons [OF _ writes_seq_Nil]]]]]]]])
       simp_all
qed

lemma reads_readEntries:
  assumes "\<And>p. p \<in> set ps \<Longrightarrow> reads r (enc p) p" and "small (length ps)"
  shows "reads (readEntries r) (encSeq enc ps) ps"
  unfolding readEntries_def encSeq_def
  using assms reads_readSequence [of ps r enc "\<lambda>p. p"]
  by (intro reads_bind [OF reads_len]) (simp add: sint_small)

lemma reads_field: "small (length (fst p)) \<Longrightarrow> reads readFieldMeta (encField p) p"
  unfolding readFieldMeta_def encField_def
  by (cases p, cases "snd p") (rule reads_cong [OF reads_bind [OF reads_encString reads_bind [OF reads_words(3) reads_bind_return [OF reads_words(3)]]]],
     simp_all)

lemma reads_nameOrd: "small (length (fst p)) \<Longrightarrow> reads readNameOrd (encNameOrd p) p"
  unfolding readNameOrd_def encNameOrd_def
  by (cases p) (rule reads_cong [OF reads_bind [OF reads_encString reads_bind_return [OF reads_words(3)]]], simp_all)

lemma reads_schema:
  assumes "schemaId (snd p) = fst p" and "small (length (schFieldIds (snd p)))"
  shows "reads readSchema (encSchema p) p"
proof -
  obtain k ids where p: "p = (k, \<lparr>schemaId = k, schFieldIds = ids\<rparr>)"
    using assms(1) by (cases p, cases "snd p") auto
  have "reads (readSlice (\<lambda>_. ReadInt32)) (lenBytes (length ids) @ concat (map encI32 ids)) ids"
    using reads_readSlice [of ids ReadInt32 encI32 "\<lambda>x. x"] assms(2) reads_words(3) by (simp add: p)
  then have "reads readSchema (encI32 k @ lenBytes (length ids) @ concat (map encI32 ids)) p"
    unfolding readSchema_def p by (rule reads_bind [OF reads_words(3) reads_bind_return])
  then show ?thesis by (simp add: encSchema_def p)
qed

lemma reads_readSchemasFrom:
  "\<forall>p \<in> set ps. schemaId (snd p) = fst p \<and> small (length (schFieldIds (snd p))) \<Longrightarrow>
    reads (readSchemasFrom (length ps) acc) (concat (map encSchema ps)) (fold (\<lambda>(k, v). AList.update k v) ps acc, None)"
proof (induction ps arbitrary: acc)
  case Nil
  then show ?case by (simp add: reads_def)
next
  case (Cons p ps)
  obtain k v where p: "p = (k, v)" by (cases p)
  have e: "readSchemasFrom (length (p # ps)) acc br =
      bindR readSchema (\<lambda>(k, v). readSchemasFrom (length ps) (AList.update k v acc)) br"
    if "\<exists>x br'. readSchema br = Inr (x, br')" for br
    using that by (auto simp: bindR_def)
  have r: "reads readSchema (encSchema p) p" using Cons.prems by (intro reads_schema) simp_all
  have "reads (bindR readSchema (\<lambda>(k, v). readSchemasFrom (length ps) (AList.update k v acc)))
      (encSchema p @ concat (map encSchema ps)) (fold (\<lambda>(k, v). AList.update k v) ps (AList.update k v acc), None)"
    using Cons.prems by (intro reads_bind [OF r]) (simp add: p Cons.IH)
  moreover have "\<exists>x br'. readSchema \<lparr>ibuf = pre @ (encSchema p @ concat (map encSchema ps)) @ post, ioff = off, ipos = length pre\<rparr>
      = Inr (x, br')" for pre post off
    using readsD [OF r, of pre "concat (map encSchema ps) @ post"] by simp
  ultimately show ?case unfolding reads_def using e by (simp add: p)
qed

lemma reads_readSchemas:
  assumes "\<forall>p \<in> set ps. schemaId (snd p) = fst p \<and> small (length (schFieldIds (snd p)))"
    and "small (length ps)" and "distinct (map fst ps)"
  shows "reads readSchemas (encSeq encSchema ps) (ps, None)"
  unfolding readSchemas_def encSeq_def
  using reads_readSchemasFrom [OF assms(1), of "[]"] toMap_distinct [OF assms(3)] assms(2)
  by (intro reads_bind [OF reads_len]) (simp add: sint_small toMap_def)

lemma reads_unmarshalBinaryMeta:
  assumes "wire_meta m"
  shows "reads unmarshalBinaryMeta (encMeta m) (m, None)"
proof -
  have s: "small (length (metaTypeName m))" "small (length (affKeyName m))" using assms by (simp_all add: wire_meta_def)
  have f: "reads (readEntries readFieldMeta) (encSeq encField (metaFields m)) (metaFields m)"
    using assms by (intro reads_readEntries reads_field) (simp_all add: wire_meta_def)
  have n: "reads (if isEnum m then readEntries readNameOrd else returnR [])
      (if isEnum m then encSeq encNameOrd (nameToOrd m) else []) (nameToOrd m)"
    using assms by (cases "isEnum m")
      (simp_all add: wire_meta_def reads_return reads_readEntries reads_nameOrd)
  have c: "reads readSchemas (encSeq encSchema (schemas m)) (schemas m, None)"
    using assms by (intro reads_readSchemas) (simp_all add: wire_meta_def)
  have mf: "toMap (metaFields m) = metaFields m" "toMap (nameToOrd m) = nameToOrd m"
    using assms by (simp_all add: toMap_distinct wire_meta_def split: if_splits)
  have sw: "map (\<lambda>(n, ord). (ord, n)) (nameToOrd m) = map prod.swap (nameToOrd m)" by auto
  have "toMap (map (\<lambda>(n, ord). (ord, n)) (nameToOrd m)) = ordToName m"
  proof (cases "isEnum m")
    case True
    then have "distinct (map fst (map prod.swap (nameToOrd m)))" using assms by (simp only: map_fst_swap) (simp add: wire_meta_def)
    then show ?thesis unfolding sw using True assms by (simp only: toMap_distinct) (simp add: wire_meta_def)
  next
    case False
    then show ?thesis using assms by (simp add: wire_meta_def toMap_def)
  qed
  then show ?thesis
    unfolding unmarshalBinaryMeta_def encMeta_def
    using mf assms
    by (intro reads_bind [OF reads_words(3)] reads_bind [OF reads_encString [OF s(1)]]
        reads_bind [OF reads_encOptString [OF s(2)]] reads_bind [OF f] reads_bind [OF reads_prims(3)]
        reads_bind [OF n] reads_cong [OF reads_bind [OF c, where bs = "[]"]])
       (auto simp: wire_meta_def intro!: reads_cong [OF reads_return])
qed

text \<open>C14 Metadata survives the wire: what the registry sends for a type, the registry of another
  client reads back as the same metadata, for types with fields and schemas as well as enums.\<close>

theorem metadata_roundtrip:
  assumes "wire_meta m" and "length (encMeta m) \<le> maxInt32"
  shows "\<exists>bw. writeBinaryMeta m (NewBinaryOutputStream 0) = Inr bw \<and>
    (\<exists>br. unmarshalBinaryMeta (NewBinaryInputStream (Data bw) 0) = Inr ((m, None), br) \<and> Available br = 0)"
proof -
  obtain bw where "writeBinaryMeta m (NewBinaryOutputStream 0) = Inr bw" "Data bw = encMeta m"
    using put_ok [OF wf_out_New, of 0 "encMeta m"] assms(2) writesD [OF writes_writeBinaryMeta [OF assms(1)] wf_out_New, of 0]
    by (auto simp: NewBinaryOutputStream_def Data_def)
  then show ?thesis
    using reads_from_start [OF reads_unmarshalBinaryMeta [OF assms(1)], of "[]"] by (simp add: Available_def)
qed

theorem metadata_roundtrip_witness:
  "\<exists>bw. writeBinaryMeta (newEnumMetadata 7 ''Rank'' [(''A'', 0), (''B'', 1)]) (NewBinaryOutputStream 0) = Inr bw \<and>
    (\<exists>br. unmarshalBinaryMeta (NewBinaryInputStream (Data bw) 0)
        = Inr ((newEnumMetadata 7 ''Rank'' [(''A'', 0), (''B'', 1)], None), br) \<and> Available br = 0)"
  by (rule metadata_roundtrip)
     (simp_all add: wire_meta_def newEnumMetadata_def small_def encMeta_def encSeq_def encString_def encOptString_def
       encStr_def encNameOrd_def maxInt32_def)

end
