(* ===== verification/Packet.thy ===== *)
theory Packet
  imports PrimCodecs
begin

text \<open>
  channel.go, the bytes on a connection: the accumulator that cuts the received bytes into
  packets, the request as it is sent, and the header of a response. A packet is four bytes of
  length, little-endian, and that many bytes.
\<close>

section \<open>The packet accumulator\<close>

text \<open>The unread bytes of the buffer, and the size of the packet whose length has been read.\<close>

record packetAccumulator =
  paBuf :: "byte list"
  currentSize :: i32

definition newPacketAccumulator :: packetAccumulator where
  "newPacketAccumulator = \<lparr>paBuf = [], currentSize = 0\<rparr>"

definition paAppend :: "packetAccumulator \<Rightarrow> byte list \<Rightarrow> packetAccumulator" where
  "paAppend pa buf = pa\<lparr>paBuf := paBuf pa @ buf\<rparr>"

definition processData :: "packetAccumulator \<Rightarrow> (bool \<times> packetAccumulator) res" where
  "processData pa =
     (if sint (currentSize pa) \<le> 0
      then if length (paBuf pa) < intBytes then Inr (False, pa)
           else let sz = word_of_nat (of_le (take intBytes (paBuf pa))) :: i32;
                    pa' = \<lparr>paBuf = drop intBytes (paBuf pa), currentSize = sz\<rparr>
                in if sint sz < int byteBytes then Inl Panic
                   else Inr (int (length (paBuf pa')) \<ge> sint sz, pa')
      else Inr (int (length (paBuf pa)) \<ge> sint (currentSize pa), pa))"

definition packetData :: "packetAccumulator \<Rightarrow> (byte list option \<times> packetAccumulator) res" where
  "packetData pa = bindE (processData pa) (\<lambda>(ready, pa).
     if \<not> ready then Inr (None, pa)
     else let sz = nat (sint (currentSize pa))
          in Inr (Some (take sz (paBuf pa)), \<lparr>paBuf = drop sz (paBuf pa), currentSize = 0\<rparr>))"

text \<open>The inner loop of readLoop: packets are taken until none is complete.\<close>

lemma packetData_shorter:
  assumes "packetData pa = Inr (Some d, pa')"
  shows "length (paBuf pa') < length (paBuf pa)"
  using assms
  by (auto simp: packetData_def processData_def Let_def size_defs bindE_def split: if_splits)

function drain :: "packetAccumulator \<Rightarrow> byte list list \<times> packetAccumulator res" where
  "drain pa = (case packetData pa of
     Inl f \<Rightarrow> ([], Inl f)
   | Inr (None, pa') \<Rightarrow> ([], Inr pa')
   | Inr (Some d, pa') \<Rightarrow> (case drain pa' of (ds, r) \<Rightarrow> (d # ds, r)))"
  by pat_completeness auto
termination by (relation "measure (\<lambda>pa. length (paBuf pa))") (auto dest: packetData_shorter)

declare drain.simps [simp del]

text \<open>Its outer loop over the pieces in which the socket delivers the bytes.\<close>

fun feed :: "packetAccumulator \<Rightarrow> byte list list \<Rightarrow> byte list list \<times> packetAccumulator res" where
  "feed pa [] = ([], Inr pa)"
| "feed pa (c # cs) = (case drain (paAppend pa c) of
     (ds, Inl f) \<Rightarrow> (ds, Inl f)
   | (ds, Inr pa') \<Rightarrow> (case feed pa' cs of (es, r) \<Rightarrow> (ds @ es, r)))"

section \<open>Requests\<close>

definition handshakeId :: i64 where "handshakeId = - 1"

definition newRequest :: "i64 \<Rightarrow> i16 \<Rightarrow> writer \<Rightarrow> byte list res" where
  "newRequest rid opCode requestWriter =
     bindE (seqW
       [WriteInt32 0,
        (if rid \<noteq> handshakeId then seqW [WriteInt16 opCode, WriteInt64 rid] else skipW),
        requestWriter] (NewBinaryOutputStream 64)) (\<lambda>bw.
     let currPosition = opos bw in
     bindE (seqW
       [SetPositionO 0,
        WriteInt32 (word_of_int (int currPosition - int intBytes)),
        SetPositionO currPosition] bw) (\<lambda>bw. Inr (Data bw)))"

section \<open>Responses\<close>

definition responseId :: "byte list \<Rightarrow> i64 option" where
  "responseId packet =
     (if length packet \<ge> longBytes then Some (word_of_nat (of_le (take longBytes packet))) else None)"

definition errorFlag :: i16 where "errorFlag = 1"
definition affinityTopologyChangedFlag :: i16 where "affinityTopologyChangedFlag = 2"
definition notificationFlag :: i16 where "notificationFlag = 4"

definition checkFlag :: "i16 \<Rightarrow> i16 \<Rightarrow> bool" where
  "checkFlag fl f \<longleftrightarrow> fl AND f \<noteq> 0"

record topology =
  topVer :: i64
  minTopVer :: i32

datatype reply = Reply in_stream | ReplyError gerror

text \<open>What send0 does with the bytes of a response before the response reader runs.\<close>

definition decodeResponse :: "i64 \<Rightarrow> byte list \<Rightarrow> topology \<Rightarrow> (reply \<times> topology) res" where
  "decodeResponse reqId responseData tp =
     (let input = NewBinaryInputStream responseData 0 in
      if reqId = handshakeId then Inr (Reply input, tp)
      else bindE (ReadInt64 input) (\<lambda>(resId, input).
        if resId \<noteq> reqId then Inl Panic
        else bindE (ReadInt16 input) (\<lambda>(fl, input).
        bindE (if checkFlag fl affinityTopologyChangedFlag
               then bindE (ReadInt64 input) (\<lambda>(tv, input).
                    bindE (ReadInt32 input) (\<lambda>(mtv, input). Inr (\<lparr>topVer = tv, minTopVer = mtv\<rparr>, input)))
               else Inr (tp, input)) (\<lambda>(tp, input).
        if checkFlag fl errorFlag
        then bindE (ReadInt32 input) (\<lambda>(statusCode, input).
             case unmarshalString input of
               Inr (errMsg, input) \<Rightarrow> Inr (ReplyError (ClientServerError statusCode errMsg), tp)
             | Inl (Fail e) \<Rightarrow> Inr (ReplyError (ClientConnectionError ''broken output from server'' (Some e)), tp)
             | Inl f \<Rightarrow> Inl f)
        else Inr (Reply input, tp)))))"

section \<open>Lemmas on the accumulator\<close>

lemma take_drop_extend: "k \<le> length xs \<Longrightarrow> take k (xs @ ys) = take k xs" "k \<le> length xs \<Longrightarrow> drop k (xs @ ys) = drop k xs @ ys"
  by simp_all

lemma processData_cases:
  assumes "processData pa = r"
  obtains (short) "sint (currentSize pa) \<le> 0" "length (paBuf pa) < 4" "r = Inr (False, pa)"
  | (bad) "sint (currentSize pa) \<le> 0" "4 \<le> length (paBuf pa)"
      "sint (word_of_nat (of_le (take 4 (paBuf pa))) :: i32) < 1" "r = Inl Panic"
  | (head) sz where "sint (currentSize pa) \<le> 0" "4 \<le> length (paBuf pa)"
      "sz = (word_of_nat (of_le (take 4 (paBuf pa))) :: i32)" "1 \<le> sint sz"
      "r = Inr (int (length (paBuf pa)) \<ge> sint sz + 4, \<lparr>paBuf = drop 4 (paBuf pa), currentSize = sz\<rparr>)"
  | (body) "0 < sint (currentSize pa)" "r = Inr (int (length (paBuf pa)) \<ge> sint (currentSize pa), pa)"
proof (cases "0 < sint (currentSize pa)")
  case True
  then show thesis using assms by (intro body) (simp_all add: processData_def)
next
  case no: False
  show thesis
  proof (cases "length (paBuf pa) < 4")
    case True
    then show thesis using assms no by (intro short) (simp_all add: processData_def size_defs)
  next
    case False
    define sz where "sz = (word_of_nat (of_le (take 4 (paBuf pa))) :: i32)"
    show thesis
    proof (cases "sint sz < 1")
      case True
      then show thesis using assms no False by (intro bad) (simp_all add: processData_def size_defs Let_def sz_def)
    next
      case ok: False
      have "r = Inr (int (length (paBuf pa)) \<ge> sint sz + 4, \<lparr>paBuf = drop 4 (paBuf pa), currentSize = sz\<rparr>)"
        using assms no False ok unfolding processData_def size_defs Let_def sz_def [symmetric]
        by (simp add: le_diff_eq of_nat_diff)
      then show thesis using no False ok by (intro head [OF _ _ sz_def]) simp_all
    qed
  qed
qed

lemma packetData_steps:
  "processData pa = Inl f \<Longrightarrow> packetData pa = Inl f"
  "processData pa = Inr (False, pa') \<Longrightarrow> packetData pa = Inr (None, pa')"
  "processData pa = Inr (True, pa') \<Longrightarrow> packetData pa = Inr (Some (take (nat (sint (currentSize pa'))) (paBuf pa')),
     \<lparr>paBuf = drop (nat (sint (currentSize pa'))) (paBuf pa'), currentSize = 0\<rparr>)"
  by (simp_all add: packetData_def Let_def)

text \<open>Bytes that arrive later change neither a panic nor a complete packet, and an incomplete
  packet is the same whether its length has been read or not.\<close>

lemma processData_append:
  assumes "processData pa = r"
  shows "r = Inl f \<Longrightarrow> processData (paAppend pa b) = Inl f"
    and "r = Inr (True, pa') \<Longrightarrow> processData (paAppend pa b) = Inr (True, paAppend pa' b)"
    and "r = Inr (False, pa') \<Longrightarrow> processData (paAppend pa b) = processData (paAppend pa' b)"
proof -
  have e: "paAppend pa b = \<lparr>paBuf = paBuf pa @ b, currentSize = currentSize pa\<rparr>" by (simp add: paAppend_def)
  show "r = Inl f \<Longrightarrow> processData (paAppend pa b) = Inl f"
    "r = Inr (True, pa') \<Longrightarrow> processData (paAppend pa b) = Inr (True, paAppend pa' b)"
    "r = Inr (False, pa') \<Longrightarrow> processData (paAppend pa b) = processData (paAppend pa' b)"
    using assms
    by (cases rule: processData_cases,
      simp_all add: e processData_def paAppend_def size_defs Let_def take_drop_extend of_nat_diff
        split del: if_split, (auto split: if_splits)?)+
qed

lemma packetData_Inl: "packetData pa = Inl f \<Longrightarrow> packetData (paAppend pa b) = Inl f"
  using processData_append(1) [of pa "processData pa"] packetData_steps(1)
  by (cases "processData pa") (auto simp: packetData_def Let_def split: if_splits)

lemma packetData_Some:
  assumes "packetData pa = Inr (Some d, pa')"
  shows "packetData (paAppend pa b) = Inr (Some d, paAppend pa' b)"
proof -
  obtain q where q: "processData pa = Inr (True, q)"
    and d: "d = take (nat (sint (currentSize q))) (paBuf q)"
      "pa' = \<lparr>paBuf = drop (nat (sint (currentSize q))) (paBuf q), currentSize = 0\<rparr>"
    using assms by (auto simp: packetData_def bindE_def Let_def split: sum.splits if_splits)
  have "nat (sint (currentSize q)) \<le> length (paBuf q)"
    using q by (cases rule: processData_cases [OF q]) auto
  then show ?thesis
    using packetData_steps(3) [OF processData_append(2) [OF q refl]] d
    by (simp add: paAppend_def)
qed

lemma packetData_None: "packetData pa = Inr (None, pa') \<Longrightarrow> packetData (paAppend pa b) = packetData (paAppend pa' b)"
proof -
  assume "packetData pa = Inr (None, pa')"
  then have q: "processData pa = Inr (False, pa')"
    by (auto simp: packetData_def bindE_def Let_def split: sum.splits if_splits)
  show ?thesis using processData_append(3) [OF q refl] by (simp add: packetData_def)
qed

lemma drain_append:
  "drain pa = (ds, r) \<Longrightarrow> drain (paAppend pa b) = (case r of Inl f \<Rightarrow> (ds, Inl f)
     | Inr pa' \<Rightarrow> (case drain (paAppend pa' b) of (es, r') \<Rightarrow> (ds @ es, r')))"
proof (induction pa arbitrary: ds r rule: drain.induct)
  case (1 pa)
  show ?case
  proof (cases "packetData pa")
    case (Inl f)
    then show ?thesis using 1(2) packetData_Inl [OF Inl]
      by (auto simp: drain.simps [of pa] drain.simps [of "paAppend pa b"])
  next
    case (Inr p)
    obtain d pa' where p: "p = (d, pa')" by (cases p)
    show ?thesis
    proof (cases d)
      case None
      then have "packetData (paAppend pa b) = packetData (paAppend pa' b)" using Inr p packetData_None by simp
      then have "drain (paAppend pa b) = drain (paAppend pa' b)"
        by (simp add: drain.simps [of "paAppend pa b"] drain.simps [of "paAppend pa' b"])
      then show ?thesis using 1(2) Inr p None
        by (auto simp: drain.simps [of pa] split: prod.split)
    next
      case (Some x)
      obtain es r' where e: "drain pa' = (es, r')" by (cases "drain pa'")
      have "packetData (paAppend pa b) = Inr (Some x, paAppend pa' b)" using Inr p Some packetData_Some by simp
      then have "drain (paAppend pa b) = (case drain (paAppend pa' b) of (ds, r) \<Rightarrow> (x # ds, r))"
        by (simp add: drain.simps [of "paAppend pa b"])
      then show ?thesis using 1(1) [OF Inr [unfolded p Some] refl refl e] 1(2) Inr p Some e
        by (auto simp: drain.simps [of pa] split: prod.split sum.split)
    qed
  qed
qed

lemma feed_is_drain: "cs \<noteq> [] \<Longrightarrow> feed pa cs = drain (paAppend pa (concat cs))"
proof (induction cs arbitrary: pa)
  case Nil
  then show ?case by simp
next
  case (Cons c cs)
  obtain ds r where d: "drain (paAppend pa c) = (ds, r)" by (cases "drain (paAppend pa c)")
  have a: "paAppend pa (concat (c # cs)) = paAppend (paAppend pa c) (concat cs)" by (simp add: paAppend_def)
  show ?case
  proof (cases "cs = []")
    case True
    then show ?thesis using d by (simp split: sum.split)
  next
    case False
    then have "feed pa' cs = drain (paAppend pa' (concat cs))" for pa' by (rule Cons.IH)
    then show ?thesis unfolding a drain_append [OF d] using d by (simp split: sum.split)
  qed
qed

text \<open>The wire form of a packet.\<close>

definition frame :: "byte list \<Rightarrow> byte list" where
  "frame p = lenBytes (length p) @ p"

definition sendable :: "byte list \<Rightarrow> bool" where
  "sendable p \<longleftrightarrow> 0 < length p \<and> small (length p)"

lemma packetData_frame:
  assumes "sendable p"
  shows "packetData \<lparr>paBuf = frame p @ rest, currentSize = 0\<rparr> = Inr (Some p, \<lparr>paBuf = rest, currentSize = 0\<rparr>)"
proof -
  have len: "length (lenBytes (length p)) = 4" by simp
  have sz: "word_of_nat (of_le (lenBytes (length p))) = (word_of_nat (length p) :: i32)"
    by (simp add: lenBytes_def)
  have s: "sint (word_of_nat (length p) :: i32) = int (length p)" "0 < length p"
    using assms sint_small by (auto simp: sendable_def)
  have "take 4 (frame p @ rest) = lenBytes (length p)" "drop 4 (frame p @ rest) = p @ rest"
    using len by (simp_all add: frame_def)
  then show ?thesis
    using s sz len
    by (simp add: packetData_def processData_def Let_def size_defs) (simp add: frame_def)
qed

lemma drain_frames:
  assumes "\<forall>p \<in> set ps. sendable p" and "length rest < 4"
  shows "drain \<lparr>paBuf = concat (map frame ps) @ rest, currentSize = 0\<rparr> = (ps, Inr \<lparr>paBuf = rest, currentSize = 0\<rparr>)"
  using assms(1)
proof (induction ps)
  case Nil
  then show ?case using assms(2)
    by (simp add: drain.simps packetData_def processData_def size_defs)
next
  case (Cons p ps)
  then show ?case using packetData_frame [of p "concat (map frame ps) @ rest"]
    by (subst drain.simps) simp
qed

lemma feed_frames:
  assumes "\<forall>p \<in> set ps. sendable p" and "length rest < 4" and "concat cs = concat (map frame ps) @ rest"
  shows "feed newPacketAccumulator cs = (ps, Inr \<lparr>paBuf = rest, currentSize = 0\<rparr>)"
proof (cases "cs = []")
  case True
  then have "concat (map frame ps) = []" "rest = []" using assms(3) by simp_all
  moreover from this(1) have "ps = []" using assms(1) by (cases ps) (simp_all add: frame_def sendable_def)
  ultimately show ?thesis using True by (simp add: newPacketAccumulator_def)
next
  case False
  then show ?thesis
    using drain_frames [OF assms(1,2)] assms(3) by (simp add: feed_is_drain newPacketAccumulator_def paAppend_def)
qed

section \<open>Lemmas on requests and responses\<close>

lemma overwrite_prefix: "length as = length bs \<Longrightarrow> overwrite 0 bs (as @ cs) = bs @ cs"
  by (simp add: overwrite_def)

definition requestHead :: "i64 \<Rightarrow> i16 \<Rightarrow> byte list" where
  "requestHead rid opCode =
     (if rid \<noteq> handshakeId then to_le 2 (unat opCode) @ to_le 8 (unat rid) else [])"

lemma newRequest_frame:
  assumes w: "writes requestWriter body" and sm: "small (length (requestHead rid opCode @ body) + 4)"
  shows "newRequest rid opCode requestWriter = Inr (frame (requestHead rid opCode @ body))"
proof -
  define p where "p = requestHead rid opCode @ body"
  define bw0 where "bw0 = NewBinaryOutputStream 64"
  have "writes (seqW [WriteInt32 0,
      (if rid \<noteq> handshakeId then seqW [WriteInt16 opCode, WriteInt64 rid] else skipW), requestWriter])
      (to_le 4 0 @ p)"
  proof -
    have i: "writes (WriteInt32 0) (to_le 4 0)" using writes_prims(6) [of 0] by simp
    have h: "writes (if rid \<noteq> handshakeId then seqW [WriteInt16 opCode, WriteInt64 rid] else skipW) (requestHead rid opCode)"
    proof (cases "rid = handshakeId")
      case True
      then show ?thesis by (simp add: requestHead_def writes_skip)
    next
      case False
      have "writes (seqW [WriteInt16 opCode, WriteInt64 rid]) (to_le 2 (unat opCode) @ to_le 8 (unat rid))"
        using writes_seq_Cons [OF writes_prims(4) writes_seq_Cons [OF writes_prims(8) writes_seq_Nil]] by simp
      then show ?thesis using False by (simp add: requestHead_def)
    qed
    show ?thesis
      using writes_seq_Cons [OF i writes_seq_Cons [OF h writes_seq_Cons [OF w writes_seq_Nil]]]
      unfolding p_def by simp
  qed
  then have first: "seqW [WriteInt32 0,
      (if rid \<noteq> handshakeId then seqW [WriteInt16 opCode, WriteInt64 rid] else skipW), requestWriter] bw0
      = put (to_le 4 0 @ p) bw0"
    unfolding bw0_def by (rule writesD [OF _ wf_out_New])
  obtain bw1 where b1: "put (to_le 4 0 @ p) bw0 = Inr bw1" "wf_out bw1" "Data bw1 = to_le 4 0 @ p"
      "opos bw1 = 4 + length p"
    using put_ok [of bw0 "to_le 4 0 @ p"] sm wf_out_New [of 64]
    by (auto simp: bw0_def p_def NewBinaryOutputStream_def Data_def small_def maxInt32_def)
  have buf: "\<exists>rest. obuf bw1 = to_le 4 0 @ p @ rest"
    using b1(3,4) append_take_drop_id [of "opos bw1" "obuf bw1"] by (metis Data_def append.assoc)
  then obtain rest where rest: "obuf bw1 = to_le 4 0 @ p @ rest" by blast
  have w0: "wf_out (bw1\<lparr>opos := 0\<rparr>)" by (simp add: wf_out_def)
  have len: "WriteInt32 (word_of_nat (length p)) (bw1\<lparr>opos := 0\<rparr>) = put (lenBytes (length p)) (bw1\<lparr>opos := 0\<rparr>)"
    by (rule writesD [OF writes_len w0])
  have place: "put (lenBytes (length p)) (bw1\<lparr>opos := 0\<rparr>) = Inr (bw1\<lparr>obuf := lenBytes (length p) @ p @ rest, opos := 4\<rparr>)"
    using rest overwrite_prefix [of "to_le 4 0" "lenBytes (length p)" "p @ rest"]
    by (simp add: put_def maxInt32_def)
  have "int (opos bw1) - int intBytes = int (length p)" by (simp add: b1(4) size_defs)
  then have "word_of_int (int (opos bw1) - int intBytes) = (word_of_nat (length p) :: i32)" by simp
  then show ?thesis
    unfolding newRequest_def bw0_def [symmetric] Let_def p_def [symmetric] first b1(1) bindE_simps
    using len place by (simp add: thenW_def SetPositionO_def skipW_def Data_def frame_def b1(4))
qed

section \<open>Properties\<close>

text \<open>C12 However the network cuts the bytes of a connection into pieces, the same packets come
  out: feeding two lists of pieces with the same bytes to an accumulator in any state gives the
  same packets and leaves the same state, or panics after the same packets.\<close>

theorem packets_any_chunking:
  assumes "cs \<noteq> []" and "ds \<noteq> []" and "concat cs = concat ds"
  shows "feed pa cs = feed pa ds"
  using assms by (simp add: feed_is_drain)

theorem packets_any_chunking_witness:
  "feed newPacketAccumulator [[1], [0, 0, 0, 7, 2], [0]] = feed newPacketAccumulator [[1, 0, 0], [0, 7, 2, 0]]"
  by (rule packets_any_chunking) simp_all

text \<open>What is sent arrives: the requests that newRequest frames, sent one after another and cut
  into pieces anywhere, are given out by the accumulator of the other side one by one, each
  with its operation code, its id and its body, and nothing is left over.\<close>

theorem requests_arrive:
  assumes "\<And>i. i < n \<Longrightarrow> writes (w i) (body i) \<and>
      0 < length (requestHead (rid i) (op i) @ body i) \<and> small (length (requestHead (rid i) (op i) @ body i) + 4)"
    and "\<And>i. i < n \<Longrightarrow> newRequest (rid i) (op i) (w i) = Inr (sent i)"
    and "concat cs = concat (map sent [0..<n])"
  shows "feed newPacketAccumulator cs
    = (map (\<lambda>i. requestHead (rid i) (op i) @ body i) [0..<n], Inr newPacketAccumulator)"
proof -
  let ?p = "\<lambda>i. requestHead (rid i) (op i) @ body i"
  have "sent i = frame (?p i)" if "i < n" for i
    using newRequest_frame [of "w i" "body i" "rid i" "op i"] assms(1,2) [OF that] by simp
  then have "map sent [0..<n] = map frame (map ?p [0..<n])" by simp
  then have "concat cs = concat (map frame (map ?p [0..<n])) @ []"
    using assms(3) by (simp only: append_Nil2)
  moreover have "\<forall>p \<in> set (map ?p [0..<n]). sendable p"
    using assms(1) by (force simp: sendable_def small_def)
  ultimately show ?thesis
    unfolding newPacketAccumulator_def by (intro feed_frames [unfolded newPacketAccumulator_def]) simp_all
qed

theorem requests_arrive_witness:
  "feed newPacketAccumulator [[14, 0, 0, 0, 232, 3, 5], [0, 0, 0, 0, 0, 0, 0, 9, 0, 0, 0]]
    = ([[232, 3, 5, 0, 0, 0, 0, 0, 0, 0, 9, 0, 0, 0]], Inr newPacketAccumulator)"
proof -
  have w: "writes (WriteInt32 9) (to_le 4 (unat (9 :: i32)))" by (rule writes_prims)
  have h: "requestHead 5 1000 = [232, 3, 5, 0, 0, 0, 0, 0, 0, 0]" "to_le 4 (unat (9 :: i32)) = [9, 0, 0, 0]"
    by (simp_all add: requestHead_def handshakeId_def to_le_numeral)
  have n: "to_le 4 9 = [9, 0, 0, 0]" by (simp add: to_le_numeral)
  have f: "newRequest 5 1000 (WriteInt32 9) = Inr (frame (requestHead 5 1000 @ to_le 4 (unat (9 :: i32))))"
    by (rule newRequest_frame [OF w]) (simp add: h small_def maxInt32_def)
  have "frame (requestHead 5 1000 @ to_le 4 (unat (9 :: i32))) = [14, 0, 0, 0, 232, 3, 5, 0, 0, 0, 0, 0, 0, 0, 9, 0, 0, 0]"
    by (simp add: h frame_def lenBytes_def to_le_numeral)
  with f w show ?thesis
    using requests_arrive [of 1 "\<lambda>_. WriteInt32 9" "\<lambda>_. to_le 4 (unat (9 :: i32))" "\<lambda>_. 5" "\<lambda>_. 1000"
        "\<lambda>_. frame (requestHead 5 1000 @ to_le 4 (unat (9 :: i32)))"
        "[[14, 0, 0, 0, 232, 3, 5], [0, 0, 0, 0, 0, 0, 0, 9, 0, 0, 0]]"]
    by (simp add: h n small_def maxInt32_def del: feed.simps)
qed

text \<open>The bytes of a response with the given flags.\<close>

definition responseBytes :: "i64 \<Rightarrow> i16 \<Rightarrow> topology \<Rightarrow> i32 \<Rightarrow> string \<Rightarrow> byte list \<Rightarrow> byte list" where
  "responseBytes rid fl tp status msg payload =
     to_le 8 (unat rid) @ to_le 2 (unat fl)
     @ (if checkFlag fl affinityTopologyChangedFlag then to_le 8 (unat (topVer tp)) @ to_le 4 (unat (minTopVer tp)) else [])
     @ (if checkFlag fl errorFlag then to_le 4 (unat status) @ typeCode StringType # encStr msg else payload)"

lemma read_on:
  assumes "reads r bs x" and "i = length pre" and "buf = pre @ bs @ post"
  shows "r \<lparr>ibuf = buf, ioff = off, ipos = i\<rparr> = Inr (x, \<lparr>ibuf = buf, ioff = off, ipos = length (pre @ bs)\<rparr>)"
  using readsD [OF assms(1)] assms(2,3) by simp

lemma decode_head:
  assumes "rid \<noteq> handshakeId" and d: "d = to_le 8 (unat rid) @ to_le 2 (unat fl) @ rest"
  shows "decodeResponse rid d tp = bindE (if checkFlag fl affinityTopologyChangedFlag
               then bindE (ReadInt64 \<lparr>ibuf = d, ioff = 0, ipos = 10\<rparr>) (\<lambda>(tv, input).
                    bindE (ReadInt32 input) (\<lambda>(mtv, input). Inr (\<lparr>topVer = tv, minTopVer = mtv\<rparr>, input)))
               else Inr (tp, \<lparr>ibuf = d, ioff = 0, ipos = 10\<rparr>)) (\<lambda>(tp, input).
        if checkFlag fl errorFlag
        then bindE (ReadInt32 input) (\<lambda>(statusCode, input).
             case unmarshalString input of
               Inr (errMsg, input) \<Rightarrow> Inr (ReplyError (ClientServerError statusCode errMsg), tp)
             | Inl (Fail e) \<Rightarrow> Inr (ReplyError (ClientConnectionError ''broken output from server'' (Some e)), tp)
             | Inl f \<Rightarrow> Inl f)
        else Inr (Reply input, tp))"
proof -
  have "ReadInt64 \<lparr>ibuf = d, ioff = 0, ipos = 0\<rparr> = Inr (rid, \<lparr>ibuf = d, ioff = 0, ipos = 8\<rparr>)"
    using read_on [OF reads_prims(9) [of rid], of 0 "[]" d "to_le 2 (unat fl) @ rest" 0] d by simp
  moreover have "ReadInt16 \<lparr>ibuf = d, ioff = 0, ipos = 8\<rparr> = Inr (fl, \<lparr>ibuf = d, ioff = 0, ipos = 10\<rparr>)"
    using read_on [OF reads_prims(5) [of fl], of 8 "to_le 8 (unat rid)" d "rest" 0] d by simp
  ultimately show ?thesis
    using assms(1) by (simp add: decodeResponse_def NewBinaryInputStream_def)
qed

text \<open>A response is decoded by its flags: the topology is taken over exactly when the flag of
  a topology change is set, the error of the server is reported with its status and message
  exactly when the error flag is set, and otherwise the reader of the operation starts at the
  first byte of the payload and reads from it what its encoding says.\<close>

theorem response_decodes:
  assumes "rid \<noteq> handshakeId" and "small (length msg)" and "reads r payload x"
  shows "let d = responseBytes rid fl new status msg payload;
             tp' = (if checkFlag fl affinityTopologyChangedFlag then new else tp)
         in if checkFlag fl errorFlag
            then decodeResponse rid d tp = Inr (ReplyError (ClientServerError status msg), tp')
            else (\<exists>input. decodeResponse rid d tp = Inr (Reply input, tp') \<and>
                   (\<exists>rest. r input = Inr (x, rest)))"
proof -
  define d where "d = responseBytes rid fl new status msg payload"
  define h where "h = to_le 8 (unat rid) @ to_le 2 (unat fl)"
  define t where "t = (if checkFlag fl affinityTopologyChangedFlag
      then to_le 8 (unat (topVer new)) @ to_le 4 (unat (minTopVer new)) else [])"
  define b where "b = (if checkFlag fl errorFlag then to_le 4 (unat status) @ typeCode StringType # encStr msg else payload)"
  define tp' where "tp' = (if checkFlag fl affinityTopologyChangedFlag then new else tp)"
  have d: "d = h @ t @ b" by (simp add: d_def responseBytes_def h_def t_def b_def)
  have lh: "length h = 10" by (simp add: h_def)
  let ?at = "\<lambda>n. \<lparr>ibuf = d, ioff = 0, ipos = n\<rparr>"
  have top: "(if checkFlag fl affinityTopologyChangedFlag
       then bindE (ReadInt64 (?at 10)) (\<lambda>(tv, input).
            bindE (ReadInt32 input) (\<lambda>(mtv, input). Inr (\<lparr>topVer = tv, minTopVer = mtv\<rparr>, input)))
       else Inr (tp, ?at 10)) = Inr (tp', ?at (10 + length t))"
  proof (cases "checkFlag fl affinityTopologyChangedFlag")
    case True
    then have "t = to_le 8 (unat (topVer new)) @ to_le 4 (unat (minTopVer new))" by (simp add: t_def)
    then have "ReadInt64 (?at 10) = Inr (topVer new, ?at 18)" "ReadInt32 (?at 18) = Inr (minTopVer new, ?at 22)"
      using read_on [OF reads_prims(9) [of "topVer new"], of 10 h d "to_le 4 (unat (minTopVer new)) @ b" 0]
        read_on [OF reads_prims(7) [of "minTopVer new"], of 18 "h @ to_le 8 (unat (topVer new))" d b 0] d lh
      by simp_all
    then show ?thesis using True by (simp add: tp'_def t_def)
  next
    case False
    then show ?thesis by (simp add: tp'_def t_def)
  qed
  have dec: "decodeResponse rid d tp = (if checkFlag fl errorFlag
        then bindE (ReadInt32 (?at (10 + length t))) (\<lambda>(statusCode, input).
             case unmarshalString input of
               Inr (errMsg, input) \<Rightarrow> Inr (ReplyError (ClientServerError statusCode errMsg), tp')
             | Inl (Fail e) \<Rightarrow> Inr (ReplyError (ClientConnectionError ''broken output from server'' (Some e)), tp')
             | Inl f \<Rightarrow> Inl f)
        else Inr (Reply (?at (10 + length t)), tp'))"
    using decode_head [OF assms(1), of d fl "t @ b" tp] d unfolding h_def top by simp
  have "if checkFlag fl errorFlag
            then decodeResponse rid d tp = Inr (ReplyError (ClientServerError status msg), tp')
            else (\<exists>input. decodeResponse rid d tp = Inr (Reply input, tp') \<and> (\<exists>rest. r input = Inr (x, rest)))"
  proof (cases "checkFlag fl errorFlag")
    case True
    then have b: "b = to_le 4 (unat status) @ (typeCode StringType # encStr msg)" by (simp add: b_def)
    have "ReadInt32 (?at (10 + length t)) = Inr (status, ?at (14 + length t))"
      using read_on [OF reads_prims(7) [of status], of "10 + length t" "h @ t" d "typeCode StringType # encStr msg" 0] d b lh
      by simp
    moreover obtain rest where "unmarshalString (?at (14 + length t)) = Inr (msg, rest)"
      using read_on [OF reads_unmarshalString(1) [OF assms(2)], of "14 + length t" "h @ t @ to_le 4 (unat status)" d "[]" 0] d b lh
      by simp
    ultimately show ?thesis using True dec by simp
  next
    case False
    then have "b = payload" by (simp add: b_def)
    then have "\<exists>rest. r (?at (10 + length t)) = Inr (x, rest)"
      using read_on [OF assms(3), of "10 + length t" "h @ t" d "[]" 0] d lh by simp
    then show ?thesis using False dec by simp
  qed
  then show ?thesis unfolding d_def tp'_def Let_def .
qed

theorem response_decodes_witness:
  "decodeResponse 7 (responseBytes 7 3 \<lparr>topVer = 4, minTopVer = 1\<rparr> 1 ''no'' []) \<lparr>topVer = 0, minTopVer = 0\<rparr>
     = Inr (ReplyError (ClientServerError 1 ''no''), \<lparr>topVer = 4, minTopVer = 1\<rparr>)"
proof -
  have "checkFlag 3 errorFlag" "checkFlag 3 affinityTopologyChangedFlag"
    by (simp_all add: checkFlag_def errorFlag_def affinityTopologyChangedFlag_def)
  moreover have "small (length ''no'')" by (simp add: small_def maxInt32_def)
  ultimately show ?thesis
    using response_decodes [of 7 "''no''" "returnR ()" "[]" "()" 3 "\<lparr>topVer = 4, minTopVer = 1\<rparr>" 1
        "\<lparr>topVer = 0, minTopVer = 0\<rparr>"] reads_return [of "()"]
    by (simp add: handshakeId_def Let_def)
qed

end
