(* ===== verification/Channel.thy ===== *)
theory Channel
  imports Packet
begin

text \<open>
  channel.go, one connection used by many goroutines: callers of send0, the write loop, the
  read loop and whoever closes the channel. A step is one atomic action of one of them, so a
  run is any interleaving. A caller and its request are one number; the map of pending requests
  holds that number. What a caller writes is drawn from a parameter, the set of operations and
  request writers in use. The socket is the sequence of bytes handed to it, and any packet or
  failure it may deliver. safeClose is one step, as the code relies on no other write to a
  request it closes. A call remembers whether it is the handshake, which has writers of its own.
\<close>

section \<open>State\<close>

datatype outcome = Answer reply | Crash

text \<open>Where a caller of send0 is: before it, after taking an id, with its request built, in the
  map of pending requests, in the queue and waiting, with its outcome, back from the call.\<close>

datatype phase = Fresh | Begun | Ready | Stored | Waiting | Leaving outcome | Finished outcome

record call =
  callId :: i64
  forHandshake :: bool
  phaseOf :: phase
  requestData :: "byte list"
  responseData :: "byte list"
  reqErr :: "gerror option"
  reqDone :: bool

datatype writer_pc = WSelect | WFlush | WStopped
datatype close_pc = NotClosing | CloseStart "gerror option" | Draining "gerror option" "i64 set" | CloseFinished

record chan =
  idGen :: i64
  calls :: "nat \<Rightarrow> call"
  pendingRequests :: "i64 \<Rightarrow> nat option"
  pendingCh :: "i64 list"
  writeBuf :: "byte list"
  socketOut :: "byte list"
  sentLog :: "byte list list"
  writerPc :: writer_pc
  readerRuns :: bool
  handshakeDone :: bool
  protocolSet :: bool
  topologyOf :: topology
  isClosed :: bool
  closeErr :: "gerror option"
  closePc :: close_pc
  doneClosed :: bool

definition freshCall :: call where
  "freshCall = \<lparr>callId = 0, forHandshake = False, phaseOf = Fresh, requestData = [], responseData = [], reqErr = None, reqDone = False\<rparr>"

definition newChannel :: chan where
  "newChannel = \<lparr>idGen = 1, calls = (\<lambda>_. freshCall), pendingRequests = (\<lambda>_. None), pendingCh = [],
     writeBuf = [], socketOut = [], sentLog = [], writerPc = WSelect, readerRuns = True,
     handshakeDone = False, protocolSet = False, topologyOf = \<lparr>topVer = 0, minTopVer = 0\<rparr>,
     isClosed = False, closeErr = None, closePc = NotClosing, doneClosed = False\<rparr>"

definition queueSize :: nat where "queueSize = 1024"
definition writeBufferSize :: nat where "writeBufferSize = 16384"

abbreviation updCall :: "nat \<Rightarrow> (call \<Rightarrow> call) \<Rightarrow> chan \<Rightarrow> chan" where
  "updCall c f s \<equiv> s\<lparr>calls := (calls s)(c := f (calls s c))\<rparr>"

section \<open>Operations\<close>

text \<open>requestId, for an ordinary request; a handshake uses its fixed id.\<close>

definition beginCall :: "nat \<Rightarrow> bool \<Rightarrow> chan \<Rightarrow> chan" where
  "beginCall c handshake s =
     (if handshake then updCall c (\<lambda>r. r\<lparr>callId := handshakeId, forHandshake := True, phaseOf := Begun\<rparr>) s
      else let n = idGen s + 1
           in (updCall c (\<lambda>r. r\<lparr>callId := n, forHandshake := False, phaseOf := Begun\<rparr>) s)\<lparr>idGen := n\<rparr>)"

definition buildRequest :: "nat \<Rightarrow> i16 \<Rightarrow> writer \<Rightarrow> chan \<Rightarrow> chan" where
  "buildRequest c opCode w s =
     updCall c (\<lambda>r.
       if isClosed s
       then r\<lparr>phaseOf := Finished (Answer (ReplyError (ClientConnectionError ''channel is closed'' None)))\<rparr>
       else case newRequest (callId r) opCode w of
         Inr d \<Rightarrow> r\<lparr>requestData := d, phaseOf := Ready\<rparr>
       | Inl (Fail e) \<Rightarrow> r\<lparr>phaseOf := Finished (Answer (ReplyError e))\<rparr>
       | Inl f \<Rightarrow> r\<lparr>phaseOf := Finished Crash\<rparr>) s"

definition storeRequest :: "nat \<Rightarrow> chan \<Rightarrow> chan" where
  "storeRequest c s =
     (updCall c (\<lambda>r. r\<lparr>phaseOf := Stored\<rparr>) s)\<lparr>pendingRequests := (pendingRequests s)(callId (calls s c) := Some c)\<rparr>"

definition enqueueRequest :: "nat \<Rightarrow> chan \<Rightarrow> chan" where
  "enqueueRequest c s =
     (updCall c (\<lambda>r. r\<lparr>phaseOf := Waiting\<rparr>) s)\<lparr>pendingCh := pendingCh s @ [callId (calls s c)]\<rparr>"

definition processCloseError :: "string \<Rightarrow> bool \<Rightarrow> chan \<Rightarrow> gerror" where
  "processCloseError defaultMsg isTimeout s = (case closeErr s of
     None \<Rightarrow> if isTimeout then ClientTimeoutError defaultMsg else ClientError defaultMsg
   | Some e \<Rightarrow> ClientConnectionError ''connection error'' (Some e))"

definition leaveWith :: "nat \<Rightarrow> outcome \<Rightarrow> chan \<Rightarrow> chan" where
  "leaveWith c out s = updCall c (\<lambda>r. r\<lparr>phaseOf := Leaving out\<rparr>) s"

definition cancelled :: "nat \<Rightarrow> chan \<Rightarrow> chan" where
  "cancelled c s = leaveWith c (Answer (ReplyError (processCloseError ''request cancelled'' True s))) s"

definition connectionGone :: "nat \<Rightarrow> chan \<Rightarrow> chan" where
  "connectionGone c s = leaveWith c (Answer (ReplyError (processCloseError ''connection closed'' False s))) s"

definition answered :: "nat \<Rightarrow> chan \<Rightarrow> chan" where
  "answered c s = (let r = calls s c in case reqErr r of
     Some e \<Rightarrow> leaveWith c (Answer (ReplyError e)) s
   | None \<Rightarrow> (case decodeResponse (callId r) (responseData r) (topologyOf s) of
       Inl f \<Rightarrow> leaveWith c Crash s
     | Inr (rep, tp) \<Rightarrow> (leaveWith c (Answer rep) s)\<lparr>topologyOf := tp\<rparr>))"

text \<open>The deferred Delete removes whatever the map holds for the id.\<close>

definition finishCall :: "nat \<Rightarrow> outcome \<Rightarrow> chan \<Rightarrow> chan" where
  "finishCall c out s =
     (updCall c (\<lambda>r. r\<lparr>phaseOf := Finished out\<rparr>) s)\<lparr>pendingRequests := (pendingRequests s)(callId (calls s c) := None)\<rparr>"

definition safeClose :: "gerror option \<Rightarrow> call \<Rightarrow> call" where
  "safeClose err r = r\<lparr>reqErr := err, reqDone := True\<rparr>"

text \<open>The first caller of beginClose goes on to close, any other returns at once.\<close>

definition beginClose :: "gerror option \<Rightarrow> chan \<Rightarrow> chan" where
  "beginClose err s = (if isClosed s then s else s\<lparr>isClosed := True, closePc := CloseStart err\<rparr>)"

definition startDrain :: "gerror option \<Rightarrow> chan \<Rightarrow> chan" where
  "startDrain err s = s\<lparr>closeErr := (if err \<noteq> None then err else closeErr s),
     closePc := Draining err (dom (pendingRequests s))\<rparr>"

definition drainOne :: "gerror option \<Rightarrow> i64 set \<Rightarrow> i64 \<Rightarrow> chan \<Rightarrow> chan" where
  "drainOne err ids i s = (case pendingRequests s i of
     None \<Rightarrow> s\<lparr>closePc := Draining err (ids - {i})\<rparr>
   | Some c \<Rightarrow> (updCall c (safeClose (Some (ClientConnectionError ''connection closed'' err))) s)
        \<lparr>pendingRequests := (pendingRequests s)(i := None), closePc := Draining err (ids - {i})\<rparr>)"

definition finishClose :: "chan \<Rightarrow> chan" where
  "finishClose s = s\<lparr>closePc := CloseFinished, doneClosed := True\<rparr>"

text \<open>bufio.Writer: what goes to the socket and what stays in the buffer.\<close>

definition bufWrite :: "nat \<Rightarrow> byte list \<Rightarrow> byte list \<Rightarrow> byte list \<times> byte list" where
  "bufWrite cap buf p =
     (if length p \<le> cap - length buf then ([], buf @ p)
      else if buf = [] then (p, [])
      else let k = cap - length buf; rest = drop k p
           in if length rest \<le> cap then (buf @ take k p, rest) else (buf @ p, []))"

definition writeNext :: "i64 \<Rightarrow> i64 list \<Rightarrow> chan \<Rightarrow> chan" where
  "writeNext i rest s = (case pendingRequests s i of
     None \<Rightarrow> s\<lparr>pendingCh := rest\<rparr>
   | Some c \<Rightarrow>
       (case bufWrite writeBufferSize (writeBuf s) (requestData (calls s c)) of (out, buf) \<Rightarrow>
          s\<lparr>pendingCh := rest, writeBuf := buf, socketOut := socketOut s @ out,
            sentLog := sentLog s @ [requestData (calls s c)], writerPc := WFlush\<rparr>))"

definition flushIfIdle :: "chan \<Rightarrow> chan" where
  "flushIfIdle s =
     (if pendingCh s = [] then s\<lparr>socketOut := socketOut s @ writeBuf s, writeBuf := [], writerPc := WSelect\<rparr>
      else s\<lparr>writerPc := WSelect\<rparr>)"

definition writeFails :: "gerror \<Rightarrow> chan \<Rightarrow> chan" where
  "writeFails e s = beginClose (Some e) (s\<lparr>writerPc := WStopped\<rparr>)"

definition receivePacket :: "byte list \<Rightarrow> chan \<Rightarrow> chan" where
  "receivePacket d s =
     (let s = s\<lparr>handshakeDone := handshakeDone s \<or> protocolSet s\<rparr>
      in case (if \<not> handshakeDone s then Some handshakeId else responseId d) of
           None \<Rightarrow> beginClose (Some (ClientConnectionError ''failed to parse response id'' None)) (s\<lparr>readerRuns := False\<rparr>)
         | Some i \<Rightarrow> (case pendingRequests s i of
             None \<Rightarrow> s
           | Some c \<Rightarrow> updCall c (\<lambda>r. safeClose None (r\<lparr>responseData := d\<rparr>)) s))"

definition readFails :: "gerror option \<Rightarrow> chan \<Rightarrow> chan" where
  "readFails e s = beginClose e (s\<lparr>readerRuns := False\<rparr>)"

section \<open>Steps\<close>

text \<open>The operation codes with the request writers in use: those of the handshake and those of the others.\<close>

type_synonym requests = "bool \<Rightarrow> (i16 \<times> writer) set"

inductive step :: "requests \<Rightarrow> chan \<Rightarrow> chan \<Rightarrow> bool" for W where
  begin_call: "phaseOf (calls s c) = Fresh \<Longrightarrow> step W s (beginCall c handshake s)"
| build: "phaseOf (calls s c) = Begun \<Longrightarrow> (opCode, w) \<in> W (forHandshake (calls s c)) \<Longrightarrow> step W s (buildRequest c opCode w s)"
| store: "phaseOf (calls s c) = Ready \<Longrightarrow> step W s (storeRequest c s)"
| enqueue: "phaseOf (calls s c) = Stored \<Longrightarrow> length (pendingCh s) < queueSize \<Longrightarrow> step W s (enqueueRequest c s)"
| cancel: "phaseOf (calls s c) = Waiting \<Longrightarrow> step W s (cancelled c s)"
| gone: "phaseOf (calls s c) = Waiting \<Longrightarrow> doneClosed s \<Longrightarrow> step W s (connectionGone c s)"
| answer: "phaseOf (calls s c) = Waiting \<Longrightarrow> reqDone (calls s c) \<Longrightarrow> step W s (answered c s)"
| agreed: "phaseOf (calls s c) = Leaving (Answer (Reply input)) \<Longrightarrow> callId (calls s c) = handshakeId \<Longrightarrow>
    step W s (s\<lparr>protocolSet := True\<rparr>)"
| finish: "phaseOf (calls s c) = Leaving out \<Longrightarrow> step W s (finishCall c out s)"
| write_next: "writerPc s = WSelect \<Longrightarrow> pendingCh s = i # rest \<Longrightarrow> step W s (writeNext i rest s)"
| flush: "writerPc s = WFlush \<Longrightarrow> step W s (flushIfIdle s)"
| write_fails: "writerPc s = WFlush \<Longrightarrow> step W s (writeFails e s)"
| write_stops: "writerPc s = WSelect \<Longrightarrow> doneClosed s \<Longrightarrow> step W s (s\<lparr>writerPc := WStopped\<rparr>)"
| packet: "readerRuns s \<Longrightarrow> step W s (receivePacket d s)"
| read_fails: "readerRuns s \<Longrightarrow> step W s (readFails (Some e) s)"
| read_stops: "readerRuns s \<Longrightarrow> isClosed s \<Longrightarrow> step W s (readFails None s)"
| close: "step W s (beginClose None s)"
| drain: "closePc s = CloseStart err \<Longrightarrow> step W s (startDrain err s)"
| drain_one: "closePc s = Draining err ids \<Longrightarrow> step W s (drainOne err ids i s)"
| drained: "closePc s = Draining err {} \<Longrightarrow> step W s (finishClose s)"

inductive reachable :: "requests \<Rightarrow> chan \<Rightarrow> bool" for W where
  start: "reachable W newChannel"
| more: "reachable W s \<Longrightarrow> step W s t \<Longrightarrow> reachable W t"

inductive_cases stepE: "step W s t"

text \<open>The steps of the goroutine that closes the channel.\<close>

inductive closing :: "chan \<Rightarrow> chan \<Rightarrow> bool" where
  closing_start: "closePc s = CloseStart err \<Longrightarrow> closing s (startDrain err s)"
| closing_one: "closePc s = Draining err ids \<Longrightarrow> closing s (drainOne err ids i s)"
| closing_end: "closePc s = Draining err {} \<Longrightarrow> closing s (finishClose s)"

lemma closing_step: "closing s t \<Longrightarrow> step W s t"
  by (induction rule: closing.induct) (auto intro: drain drain_one drained)

named_theorems chan_ops \<open>the operations of the channel\<close>
lemmas [chan_ops] = beginCall_def buildRequest_def storeRequest_def enqueueRequest_def cancelled_def
  connectionGone_def answered_def finishCall_def leaveWith_def beginClose_def startDrain_def drainOne_def
  finishClose_def writeNext_def flushIfIdle_def writeFails_def receivePacket_def readFails_def safeClose_def Let_def

section \<open>Invariants\<close>

text \<open>A proof for a step has one case per action; an invariant that looks only at calls and the
  map has nothing to show where neither changes.\<close>

lemma reachable_induct [consumes 1, case_names start more]:
  assumes "reachable W s" and "P newChannel" and "\<And>s t. reachable W s \<Longrightarrow> P s \<Longrightarrow> step W s t \<Longrightarrow> P t"
  shows "P s"
  using assms(1) by (induction rule: reachable.induct) (rule assms; assumption)+

subsection \<open>Calls and the map of pending requests\<close>

definition registered :: "phase \<Rightarrow> bool" where
  "registered p \<longleftrightarrow> (case p of Stored \<Rightarrow> True | Waiting \<Rightarrow> True | Leaving _ \<Rightarrow> True | _ \<Rightarrow> False)"

lemma registered_simps [simp]:
  "\<not> registered Fresh" "\<not> registered Begun" "\<not> registered Ready" "registered Stored" "registered Waiting"
  "registered (Leaving x)" "\<not> registered (Finished x)"
  by (simp_all add: registered_def)

definition framed :: "byte list \<Rightarrow> bool" where
  "framed d \<longleftrightarrow> (\<exists>p. sendable p \<and> d = frame p)"

text \<open>A call that is done without an error holds the response to its own id.\<close>

definition callOk :: "call \<Rightarrow> bool" where
  "callOk r \<longleftrightarrow>
     (phaseOf r \<in> {Fresh, Begun, Ready} \<longrightarrow> \<not> reqDone r) \<and>
     (reqDone r \<and> reqErr r = None \<and> callId r \<noteq> handshakeId \<longrightarrow> responseId (responseData r) = Some (callId r))"

definition tableOk :: "(nat \<Rightarrow> call) \<Rightarrow> (i64 \<Rightarrow> nat option) \<Rightarrow> bool" where
  "tableOk cs pm \<longleftrightarrow> (\<forall>c. callOk (cs c)) \<and>
     (\<forall>i c. pm i = Some c \<longrightarrow> callId (cs c) = i \<and> registered (phaseOf (cs c)))"

lemma table_call: "tableOk cs pm \<Longrightarrow> callOk (cs c)"
  by (simp add: tableOk_def)

lemma table_entry: "tableOk cs pm \<Longrightarrow> pm i = Some c \<Longrightarrow> callId (cs c) = i \<and> registered (phaseOf (cs c))"
  by (simp add: tableOk_def)

lemma table_upd: "tableOk cs pm \<Longrightarrow> callOk r \<Longrightarrow>
  (registered (phaseOf (cs c)) \<Longrightarrow> callId r = callId (cs c) \<and> registered (phaseOf r)) \<Longrightarrow> tableOk (cs(c := r)) pm"
  by (auto simp: tableOk_def)

lemma table_delete: "tableOk cs pm \<Longrightarrow> tableOk cs (pm(i := None))"
  by (auto simp: tableOk_def)

lemma table_finish: "tableOk cs pm \<Longrightarrow> callOk r \<Longrightarrow> tableOk (cs(c := r)) (pm(callId (cs c) := None))"
  unfolding tableOk_def by (auto split: if_splits)

lemma table_store: "tableOk cs pm \<Longrightarrow> callOk r \<Longrightarrow> callId r = callId (cs c) \<Longrightarrow> registered (phaseOf r) \<Longrightarrow>
  tableOk (cs(c := r)) (pm(callId (cs c) := Some c))"
  unfolding tableOk_def by auto

abbreviation chanOk :: "chan \<Rightarrow> bool" where
  "chanOk s \<equiv> tableOk (calls s) (pendingRequests s)"

lemma chanOk_begin:
  assumes "chanOk s" and "phaseOf (calls s c) = Fresh"
  shows "chanOk (beginCall c h s)"
proof -
  have "callOk (r\<lparr>callId := i, forHandshake := b, phaseOf := Begun\<rparr>)" if "callOk r" "phaseOf r = Fresh" for r i b
    using that by (simp add: callOk_def)
  then show ?thesis using assms table_call [OF assms(1)]
    by (auto simp: beginCall_def Let_def intro!: table_upd)
qed

lemma chanOk_build:
  assumes "chanOk s" and "phaseOf (calls s c) = Begun"
  shows "chanOk (buildRequest c opCode w s)"
proof -
  have "callOk (r\<lparr>phaseOf := Finished x\<rparr>)" "callOk (r\<lparr>requestData := d, phaseOf := Ready\<rparr>)"
    if "callOk r" "phaseOf r = Begun" for r x d
    using that by (auto simp: callOk_def)
  then show ?thesis using assms table_call [OF assms(1)]
    by (auto simp: buildRequest_def intro!: table_upd split: sum.split failure.split)
qed

lemma chanOk_store:
  assumes "chanOk s" and "phaseOf (calls s c) = Ready"
  shows "chanOk (storeRequest c s)"
proof -
  have "callOk ((calls s c)\<lparr>phaseOf := Stored\<rparr>)" using assms(2) table_call [OF assms(1), of c] by (simp add: callOk_def)
  then show ?thesis using assms by (simp add: storeRequest_def table_store)
qed

lemma callOk_phase: "callOk r \<Longrightarrow> registered (phaseOf r) \<Longrightarrow> registered p \<Longrightarrow> callOk (r\<lparr>phaseOf := p\<rparr>)"
  by (auto simp: callOk_def)

lemma chanOk_phase:
  assumes "chanOk s" and "registered (phaseOf (calls s c))" and "registered p"
  shows "tableOk ((calls s)(c := (calls s c)\<lparr>phaseOf := p\<rparr>)) (pendingRequests s)"
  using assms by (intro table_upd callOk_phase table_call) auto

lemma chanOk_leave: "chanOk s \<Longrightarrow> registered (phaseOf (calls s c)) \<Longrightarrow> chanOk (leaveWith c x s)"
  by (simp add: leaveWith_def chanOk_phase)

lemma chanOk_finish: "chanOk s \<Longrightarrow> phaseOf (calls s c) = Leaving x \<Longrightarrow> chanOk (finishCall c x s)"
proof -
  assume a: "chanOk s" "phaseOf (calls s c) = Leaving x"
  then have "callOk ((calls s c)\<lparr>phaseOf := Finished x\<rparr>)" using table_call [OF a(1), of c] by (auto simp: callOk_def)
  then show ?thesis using a by (simp add: finishCall_def table_finish)
qed

lemma callOk_safeClose:
  "callOk r \<Longrightarrow> registered (phaseOf r) \<Longrightarrow> callOk (safeClose (Some e) r)"
  "callOk r \<Longrightarrow> registered (phaseOf r) \<Longrightarrow> callId r = handshakeId \<or> responseId d = Some (callId r) \<Longrightarrow>
    callOk (safeClose None (r\<lparr>responseData := d\<rparr>))"
  by (auto simp: callOk_def safeClose_def)

lemma chanOk_drain: "chanOk s \<Longrightarrow> chanOk (drainOne err ids i s)"
proof (cases "pendingRequests s i")
  case None
  then show "chanOk s \<Longrightarrow> ?thesis" by (simp add: drainOne_def)
next
  case (Some c)
  assume a: "chanOk s"
  then have "callOk (safeClose (Some e) (calls s c))" for e
    using callOk_safeClose(1) [OF table_call] table_entry [OF a Some] by blast
  then have "tableOk ((calls s)(c := safeClose (Some e) (calls s c))) (pendingRequests s)" for e
    using a table_entry [OF a Some] by (intro table_upd) (simp_all add: safeClose_def)
  then show ?thesis using Some by (simp add: drainOne_def table_delete)
qed

lemma beginClose_same [simp]: "calls (beginClose e s) = calls s" "pendingRequests (beginClose e s) = pendingRequests s"
  by (simp_all add: beginClose_def)

lemma chanOk_packet: "chanOk s \<Longrightarrow> chanOk (receivePacket d s)"
proof -
  assume a: "chanOk s"
  define i where "i = (if \<not> (handshakeDone s \<or> protocolSet s) then Some handshakeId else responseId d)"
  have "tableOk ((calls s)(c := safeClose None ((calls s c)\<lparr>responseData := d\<rparr>))) (pendingRequests s)"
    if "i = Some j" "pendingRequests s j = Some c" for j c
  proof -
    have e: "callId (calls s c) = j" "registered (phaseOf (calls s c))" using table_entry [OF a that(2)] by simp_all
    then have "callOk (safeClose None ((calls s c)\<lparr>responseData := d\<rparr>))"
      using that(1) table_call [OF a] by (intro callOk_safeClose) (auto simp: i_def split: if_splits)
    then show ?thesis using a e by (intro table_upd) (simp_all add: safeClose_def)
  qed
  then show ?thesis using a unfolding receivePacket_def Let_def by (auto simp: i_def split: option.split)
qed

lemma chanOk_step:
  assumes "step W s t" and "chanOk s"
  shows "chanOk t"
  using assms(1)
proof (cases rule: step.cases)
  case (answer c)
  then have "chanOk (leaveWith c x s)" for x using assms(2) by (simp add: chanOk_leave)
  then show ?thesis using answer by (auto simp: answered_def Let_def split: option.split sum.split prod.split)
next
  case (write_next i rest)
  then show ?thesis using assms(2) by (simp add: writeNext_def split: option.split prod.split)
qed (use assms(2) in \<open>simp_all add: chanOk_begin chanOk_build chanOk_store chanOk_leave chanOk_finish chanOk_drain
    chanOk_packet enqueueRequest_def chanOk_phase cancelled_def connectionGone_def flushIfIdle_def writeFails_def
    readFails_def startDrain_def finishClose_def\<close>)

lemma chanOk_new: "chanOk newChannel"
  by (simp add: newChannel_def tableOk_def callOk_def freshCall_def)

lemma chanOk_reachable: "reachable W s \<Longrightarrow> chanOk s"
  by (induction rule: reachable_induct) (rule chanOk_new, rule chanOk_step)

subsection \<open>The requests of calls\<close>

text \<open>A request writer appends a body of its own to the stream or fails, and the handshake never has an empty
  body: it begins with the version. Any other request may have one.\<close>

definition goodWriters :: "requests \<Rightarrow> bool" where
  "goodWriters W \<longleftrightarrow> (\<forall>h. \<forall>(opCode, w) \<in> W h. \<exists>body. (h \<longrightarrow> body \<noteq> []) \<and>
     (\<forall>bw. wf_out bw \<longrightarrow> w bw = put body bw \<or> (\<exists>f. w bw = Inl f)))"

lemma seqW_prefix: "bindE (a bw) b = Inr bw1 \<Longrightarrow> seqW [a, b, w] bw = thenW w skipW bw1"
  by (cases "a bw") (simp_all add: thenW_def)

lemma newRequest_start:
  obtains bw1 where "wf_out bw1" "opos bw1 = 4 + length (requestHead i opCode)"
    "\<And>w. seqW [WriteInt32 0, (if i \<noteq> handshakeId then seqW [WriteInt16 opCode, WriteInt64 i] else skipW), w] (NewBinaryOutputStream 64)
      = thenW w skipW bw1"
proof -
  let ?h = "if i \<noteq> handshakeId then seqW [WriteInt16 opCode, WriteInt64 i] else skipW"
  let ?b = "to_le 4 0 @ requestHead i opCode" and ?bw = "NewBinaryOutputStream 64"
  have a: "writes (WriteInt32 0) (to_le 4 0)" using writes_prims(6) [of 0] by simp
  have h: "writes ?h (requestHead i opCode)"
    using writes_seq_Cons [OF writes_prims(4) writes_seq_Cons [OF writes_prims(8) writes_seq_Nil]]
    by (simp add: requestHead_def writes_skip)
  obtain bw1 where b: "put ?b ?bw = Inr bw1" "wf_out bw1" "opos bw1 = 4 + length (requestHead i opCode)"
  proof -
    have l: "length (requestHead i opCode) \<le> 10" by (simp add: requestHead_def)
    have "opos ?bw + length ?b \<le> maxInt32" using l by (simp add: NewBinaryOutputStream_def maxInt32_def)
    from put_ok [OF wf_out_New this] show ?thesis using that by (auto simp: NewBinaryOutputStream_def)
  qed
  have "bindE (WriteInt32 0 ?bw) ?h = Inr bw1"
    using writesD [OF writes_then [OF a h] wf_out_New] b(1) by (simp add: thenW_def)
  then have "seqW [WriteInt32 0, ?h, w] ?bw = thenW w skipW bw1" for w
    by (rule seqW_prefix)
  then show ?thesis using that b(2,3) by blast
qed

lemma newRequest_framed:
  assumes "goodWriters W" and "(opCode, w) \<in> W h" and "newRequest i opCode w = Inr d" and "h \<or> i \<noteq> handshakeId"
  shows "framed d"
proof -
  obtain body where b: "h \<longrightarrow> body \<noteq> []" "\<And>bw. wf_out bw \<Longrightarrow> w bw = put body bw \<or> (\<exists>f. w bw = Inl f)"
    using assms(1,2) unfolding goodWriters_def by blast
  let ?p = "requestHead i opCode @ body"
  obtain bw1 where s: "wf_out bw1" "opos bw1 = 4 + length (requestHead i opCode)"
    "\<And>w. seqW [WriteInt32 0, (if i \<noteq> handshakeId then seqW [WriteInt16 opCode, WriteInt64 i] else skipW), w] (NewBinaryOutputStream 64)
      = thenW w skipW bw1" by (rule newRequest_start [of i opCode]) blast
  have r: "\<exists>bw. w bw1 = Inr bw"
    using assms(3) unfolding newRequest_def s(3) thenW_def by (cases "w bw1") (simp_all only: bindE_simps, blast+)
  then have w: "w bw1 = put body bw1" using b(2) [OF s(1)] by auto
  then have p: "\<exists>bw. put body bw1 = Inr bw" using r by simp
  have "newRequest i opCode (put body) = Inr d"
    using assms(3) unfolding newRequest_def s(3) thenW_def w .
  moreover have sm: "small (length ?p + 4)" using p s(2) by (auto simp: put_def small_def maxInt32_def split: if_splits)
  then have "newRequest i opCode (put body) = Inr (frame ?p)"
    by (intro newRequest_frame) (simp_all add: writes_def)
  moreover have "0 < length ?p"
  proof (cases "i = handshakeId")
    case True
    then show ?thesis using b(1) assms(4) by simp
  next
    case False
    then have "length (requestHead i opCode) = 10" by (simp add: requestHead_def)
    then show ?thesis by simp
  qed
  then have "sendable ?p" using sm by (simp add: sendable_def small_def)
  ultimately show ?thesis by (auto simp: framed_def)
qed

end
