(* ===== verification/ChannelProps.thy ===== *)
theory ChannelProps
  imports Channel
begin

text \<open>
  What holds of a connection in every interleaving: bytes are sent as whole requests, a response
  goes to the request with its id, ids do not repeat, the table of pending requests is exact, closing
  completes the requests and releases the callers. And two runs in which a request is not served.
\<close>

section \<open>Ids\<close>

text \<open>Runs with their number of steps.\<close>

inductive runs :: "requests \<Rightarrow> nat \<Rightarrow> chan \<Rightarrow> bool" for W where
  none: "runs W 0 newChannel"
| one_more: "runs W n s \<Longrightarrow> step W s t \<Longrightarrow> runs W (Suc n) t"

lemma runs_reachable: "runs W n s \<Longrightarrow> reachable W s"
  by (induction rule: runs.induct) (auto intro: reachable.intros)

lemma reachable_runs: "reachable W s \<Longrightarrow> \<exists>n. runs W n s"
  by (induction rule: reachable.induct) (auto intro: runs.intros)

text \<open>The ids given out so far are among the numbers from 2 on, one call each.\<close>

definition numbered :: "chan \<Rightarrow> nat \<Rightarrow> bool" where
  "numbered s c \<longleftrightarrow> phaseOf (calls s c) \<noteq> Fresh \<and> callId (calls s c) \<noteq> handshakeId"

definition idsOk :: "nat \<Rightarrow> chan \<Rightarrow> bool" where
  "idsOk k s \<longleftrightarrow> idGen s = word_of_nat (k + 1) \<and>
     (\<forall>c. numbered s c \<longrightarrow> (\<exists>n \<le> k + 1. callId (calls s c) = word_of_nat n)) \<and>
     (\<forall>c d. numbered s c \<and> numbered s d \<and> c \<noteq> d \<longrightarrow> callId (calls s c) \<noteq> callId (calls s d))"

lemma step_keeps_ids:
  assumes "step W s t"
  obtains (begin_call) c h where "phaseOf (calls s c) = Fresh" "t = beginCall c h s"
  | (same) "idGen t = idGen s" "\<And>c. callId (calls t c) = callId (calls s c)"
      "\<And>c. phaseOf (calls t c) = Fresh \<longleftrightarrow> phaseOf (calls s c) = Fresh"
  using assms
proof (cases rule: step.cases)
  case (begin_call c h)
  then show thesis using that(1) by blast
qed (rule that(2); auto simp: chan_ops split: option.split sum.split prod.split failure.split)+

lemma word_of_nat_inject64: "m < 2 ^ 64 \<Longrightarrow> n < 2 ^ 64 \<Longrightarrow> (word_of_nat m :: i64) = word_of_nat n \<longleftrightarrow> m = n"
proof -
  assume "m < 2 ^ 64" "n < 2 ^ 64"
  then have "unat (word_of_nat m :: i64) = m" "unat (word_of_nat n :: i64) = n" by (simp_all add: unat_of_nat)
  then show ?thesis by metis
qed

lemma idsOk_step:
  assumes "step W s t" and "idsOk k s" and "k + 2 < 2 ^ 64"
  shows "idsOk k t \<or> idsOk (k + 1) t"
  using assms(1)
proof (cases rule: step_keeps_ids)
  case same
  then have "idsOk k t" using assms(2) by (simp add: idsOk_def numbered_def)
  then show ?thesis ..
next
  case (begin_call c h)
  show ?thesis
  proof (cases h)
    case True
    then have "numbered t d \<longleftrightarrow> numbered s d" "numbered t d \<Longrightarrow> callId (calls t d) = callId (calls s d)" for d
      using begin_call True by (auto simp: numbered_def beginCall_def split: if_splits)
    then have "idsOk k t" using assms(2) begin_call True unfolding idsOk_def by (simp add: beginCall_def)
    then show ?thesis ..
  next
    case False
    define i where "i = (word_of_nat (k + 2) :: i64)"
    have gen: "idGen t = i" and c: "callId (calls t c) = i" and o: "\<And>d. d \<noteq> c \<Longrightarrow> calls t d = calls s d"
      using begin_call(2) False assms(2) by (simp_all add: beginCall_def Let_def idsOk_def i_def)
    have n: "numbered t d \<longleftrightarrow> numbered s d" if "d \<noteq> c" for d using o that by (simp add: numbered_def)
    have new: "callId (calls s d) \<noteq> i" if nd: "numbered s d" for d
    proof -
      obtain m where "m \<le> k + 1" "callId (calls s d) = word_of_nat m" using assms(2) nd unfolding idsOk_def by metis
      then show ?thesis using word_of_nat_inject64 [of m "k + 2"] assms(3) by (simp add: i_def)
    qed
    have "\<exists>m \<le> k + 2. callId (calls t d) = word_of_nat m" if nt: "numbered t d" for d
    proof (cases "d = c")
      case True
      then show ?thesis using c i_def by blast
    next
      case False
      then obtain m where "m \<le> k + 1" "callId (calls t d) = word_of_nat m"
        using assms(2) n [OF False] o [OF False] nt unfolding idsOk_def by metis
      then show ?thesis by (intro exI [of _ m]) simp
    qed
    moreover have "callId (calls t a) \<noteq> callId (calls t b)" if nab: "numbered t a" "numbered t b" "a \<noteq> b" for a b
    proof -
      consider "a = c" "b \<noteq> c" | "b = c" "a \<noteq> c" | "a \<noteq> c" "b \<noteq> c" using nab(3) by blast
      then show ?thesis using nab n o c new assms(2) by cases (auto simp: idsOk_def)
    qed
    ultimately have "idsOk (k + 1) t" using gen by (simp add: idsOk_def i_def)
    then show ?thesis ..
  qed
qed

lemma runs_ids: "runs W n s \<Longrightarrow> n + 2 < 2 ^ 64 \<Longrightarrow> \<exists>k \<le> n. idsOk k s"
proof (induction rule: runs.induct)
  case none
  then show ?case by (simp add: idsOk_def newChannel_def numbered_def freshCall_def)
next
  case (one_more n s t)
  then obtain k where k: "k \<le> n" "idsOk k s" by auto
  then have "idsOk k t \<or> idsOk (k + 1) t" using one_more by (intro idsOk_step) auto
  then show ?case using k by (metis Suc_eq_plus1 Suc_le_mono le_Suc_eq)
qed

text \<open>Only a handshake has the id of the handshake.\<close>

lemma runs_handshake_id:
  "runs W n s \<Longrightarrow> n + 2 < 2 ^ 64 \<Longrightarrow> phaseOf (calls s c) \<noteq> Fresh \<Longrightarrow> forHandshake (calls s c) \<or> callId (calls s c) \<noteq> handshakeId"
proof (induction arbitrary: c rule: runs.induct)
  case none
  then show ?case by (simp add: newChannel_def freshCall_def)
next
  case (one_more n s t)
  obtain k where k: "k \<le> n" "idsOk k s" using runs_ids [OF one_more.hyps(1)] one_more.prems(1) by auto
  have old: "phaseOf (calls s d) \<noteq> Fresh \<Longrightarrow> forHandshake (calls s d) \<or> callId (calls s d) \<noteq> handshakeId" for d
    using one_more.IH one_more.prems(1) by simp
  from one_more.hyps(2) show ?case
  proof (cases rule: step.cases)
    case (begin_call d h)
    have "(word_of_nat (k + 2) :: i64) \<noteq> word_of_nat (2 ^ 64 - 1)"
      using word_of_nat_inject64 [of "k + 2" "2 ^ 64 - 1"] k(1) one_more.prems(1) by simp
    moreover have "(word_of_nat (2 ^ 64 - 1) :: i64) = handshakeId" by (simp add: handshakeId_def)
    moreover have "idGen s + 1 = word_of_nat (k + 2)" using k(2) by (simp add: idsOk_def)
    ultimately have "idGen s + 1 \<noteq> handshakeId" by (simp only: not_False_eq_True)
    then show ?thesis using begin_call old [of c] one_more.prems(2) by (auto simp: beginCall_def Let_def split: if_splits)
  qed (use old [of c] one_more.prems(2) in
    \<open>auto simp: chan_ops split: option.splits sum.splits prod.splits failure.splits if_splits\<close>)
qed

section \<open>What the socket carries\<close>

definition outOk :: "chan \<Rightarrow> bool" where
  "outOk s \<longleftrightarrow> socketOut s @ writeBuf s = concat (sentLog s) \<and> (\<forall>d \<in> set (sentLog s). framed d)"

lemma bufWrite_all: "bufWrite cap buf p = (out, b) \<Longrightarrow> out @ b = buf @ p"
  by (auto simp: bufWrite_def Let_def split: if_splits)

definition built :: "phase \<Rightarrow> bool" where
  "built p \<longleftrightarrow> p = Ready \<or> registered p"

definition builtOk :: "chan \<Rightarrow> bool" where
  "builtOk s \<longleftrightarrow> (\<forall>c. built (phaseOf (calls s c)) \<longrightarrow> framed (requestData (calls s c)))"

lemma built_simps [simp]:
  "\<not> built Fresh" "\<not> built Begun" "built Ready" "built Stored" "built Waiting" "built (Leaving x)" "\<not> built (Finished x)"
  by (simp_all add: built_def)

lemma builtOk_step:
  assumes "step W s t" and "builtOk s" and "goodWriters W"
    and "\<And>c. phaseOf (calls s c) \<noteq> Fresh \<Longrightarrow> forHandshake (calls s c) \<or> callId (calls s c) \<noteq> handshakeId"
  shows "builtOk t"
  using assms(1)
proof (cases rule: step.cases)
  case (build c opCode w)
  have "framed d" if "newRequest (callId (calls s c)) opCode w = Inr d" for d
    using newRequest_framed [OF assms(3) build(3) that] assms(4) [of c] build(2) by simp
  then show ?thesis using build(1,2) assms(2)
    by (auto simp: builtOk_def buildRequest_def split: sum.split failure.split)
next
  case (write_next i rest)
  then show ?thesis using assms(2) by (simp add: builtOk_def writeNext_def split: option.split prod.split)
next
  case (packet d)
  then show ?thesis using assms(2) by (auto simp: builtOk_def receivePacket_def safeClose_def beginClose_def Let_def split: option.split)
qed (use assms(2) in \<open>auto simp: builtOk_def chan_ops split: option.split sum.split prod.split\<close>)

lemma outOk_step:
  assumes "step W s t" and "chanOk s" and "builtOk s" and "outOk s"
  shows "outOk t"
  using assms(1)
proof (cases rule: step.cases)
  case (write_next i rest)
  show ?thesis
  proof (cases "pendingRequests s i")
    case None
    then show ?thesis using write_next assms(4) by (simp add: writeNext_def outOk_def)
  next
    case (Some c)
    obtain out b where b: "bufWrite writeBufferSize (writeBuf s) (requestData (calls s c)) = (out, b)"
      by (cases "bufWrite writeBufferSize (writeBuf s) (requestData (calls s c))")
    have "framed (requestData (calls s c))"
      using assms(3) table_entry [OF assms(2) Some] by (simp add: builtOk_def built_def)
    then show ?thesis using write_next Some b assms(4) bufWrite_all [OF b]
      by (simp add: writeNext_def outOk_def)
  qed
qed (use assms(4) in \<open>auto simp: outOk_def chan_ops split: option.split sum.split prod.split\<close>)

lemma runs_outOk: "runs W n s \<Longrightarrow> n + 2 < 2 ^ 64 \<Longrightarrow> goodWriters W \<Longrightarrow> builtOk s \<and> outOk s"
proof (induction rule: runs.induct)
  case none
  then show ?case by (simp add: newChannel_def outOk_def builtOk_def freshCall_def)
next
  case (one_more n s t)
  then have s: "builtOk s" "outOk s" by simp_all
  have ok: "chanOk s" by (rule chanOk_reachable [OF runs_reachable [OF one_more.hyps(1)]])
  have "forHandshake (calls s c) \<or> callId (calls s c) \<noteq> handshakeId" if "phaseOf (calls s c) \<noteq> Fresh" for c
    using runs_handshake_id [OF one_more.hyps(1) _ that] one_more.prems(1) by simp
  then show ?case
    using builtOk_step [OF one_more.hyps(2) s(1) one_more.prems(2)] outOk_step [OF one_more.hyps(2) ok s] by blast
qed

lemma feed_snoc: "feed pa (cs @ [b]) = (case feed pa cs of (ds, Inl f) \<Rightarrow> (ds, Inl f)
    | (ds, Inr pa') \<Rightarrow> (case drain (paAppend pa' b) of (es, r) \<Rightarrow> (ds @ es, r)))"
proof (induction cs arbitrary: pa)
  case Nil
  then show ?case by (simp split: prod.split sum.split)
next
  case (Cons c cs)
  then show ?case by (simp split: prod.split sum.split)
qed

lemma framed_list: "\<forall>d \<in> set ds. framed d \<Longrightarrow> \<exists>ps. ds = map frame ps \<and> (\<forall>p \<in> set ps. sendable p)"
proof (induction ds)
  case Nil
  then show ?case by simp
next
  case (Cons d ds)
  then obtain ps p where "ds = map frame ps" "\<forall>p \<in> set ps. sendable p" "d = frame p" "sendable p"
    by (auto simp: framed_def)
  then show ?case by (intro exI [of _ "p # ps"]) simp
qed

section \<open>Closing\<close>

definition closeOk :: "chan \<Rightarrow> bool" where
  "closeOk s \<longleftrightarrow> finite (dom (pendingRequests s)) \<and>
     (isClosed s \<longleftrightarrow> closePc s \<noteq> NotClosing) \<and> (doneClosed s \<longleftrightarrow> closePc s = CloseFinished) \<and>
     (\<forall>err ids. closePc s = Draining err ids \<longrightarrow> finite ids)"

lemma finite_dom_upd: "finite (dom m) \<Longrightarrow> finite (dom (m(x := y)))"
  by (rule finite_subset [of _ "insert x (dom m)"]) (auto split: if_splits)

lemma closeOk_step: "step W s t \<Longrightarrow> closeOk s \<Longrightarrow> closeOk t"
proof (erule step.cases)
qed (auto simp: closeOk_def chan_ops finite_dom_upd simp del: dom_fun_upd
    split: option.split sum.split prod.split failure.split)

lemma closeOk_reachable: "reachable W s \<Longrightarrow> closeOk s"
  by (induction rule: reachable_induct) (simp add: closeOk_def newChannel_def, rule closeOk_step)

definition steps :: "requests \<Rightarrow> chan \<Rightarrow> chan \<Rightarrow> bool" where
  "steps W = (step W)\<^sup>*\<^sup>*"

lemma steps_refl: "steps W s s"
  by (simp add: steps_def)

lemma steps_step: "step W s t \<Longrightarrow> steps W t u \<Longrightarrow> steps W s u"
  by (auto simp: steps_def intro: converse_rtranclp_into_rtranclp)

lemma steps_trans: "steps W s t \<Longrightarrow> steps W t u \<Longrightarrow> steps W s u"
  by (auto simp: steps_def)

lemma reachable_steps: "steps W s t \<Longrightarrow> reachable W s \<Longrightarrow> reachable W t"
  unfolding steps_def by (induction rule: rtranclp_induct) (auto intro: reachable.more)

definition untouched :: "chan \<Rightarrow> chan \<Rightarrow> bool" where
  "untouched s t \<longleftrightarrow> (\<forall>c. phaseOf (calls t c) = phaseOf (calls s c)) \<and> pendingCh t = pendingCh s \<and> writerPc t = writerPc s"

lemma untouched_refl: "untouched s s"
  by (simp add: untouched_def)

lemma untouched_trans: "untouched s t \<Longrightarrow> untouched t u \<Longrightarrow> untouched s u"
  by (simp add: untouched_def)

text \<open>A call that was completed with the error of the close.\<close>

definition ended :: "gerror option \<Rightarrow> chan \<Rightarrow> nat \<Rightarrow> bool" where
  "ended err s c \<longleftrightarrow> reqDone (calls s c) \<and> reqErr (calls s c) = Some (ClientConnectionError ''connection closed'' err)"

lemma closing_steps: "closing\<^sup>*\<^sup>* s t \<Longrightarrow> steps W s t"
  unfolding steps_def by (induction rule: rtranclp_induct) (auto intro: closing_step rtranclp.rtrancl_into_rtrancl)

text \<open>The closer alone empties its set of ids, and then the channel that callers wait for is closed.\<close>

lemma drain_all:
  assumes "finite ids" and "closePc s = Draining err ids"
  shows "\<exists>t. closing\<^sup>*\<^sup>* s t \<and> closePc t = Draining err {} \<and> untouched s t \<and> closeErr t = closeErr s \<and>
    (\<forall>i. pendingRequests t i = (if i \<in> ids then None else pendingRequests s i)) \<and>
    (\<forall>c. ended err s c \<longrightarrow> ended err t c) \<and> (\<forall>i \<in> ids. \<forall>c. pendingRequests s i = Some c \<longrightarrow> ended err t c)"
  using assms
proof (induction ids arbitrary: s rule: finite_induct)
  case empty
  then show ?case using untouched_refl by (intro exI [of _ s]) simp
next
  case (insert i ids)
  define u where "u = drainOne err (insert i ids) i s"
  have u: "closing s u" unfolding u_def using insert.prems by (rule closing_one)
  have c: "closePc u = Draining err ids" "untouched s u" "closeErr u = closeErr s"
    "pendingRequests u = (pendingRequests s)(i := None)" "\<And>c. ended err s c \<Longrightarrow> ended err u c"
    "\<And>c. pendingRequests s i = Some c \<Longrightarrow> ended err u c"
    using insert.hyps by (auto simp: u_def drainOne_def safeClose_def untouched_def ended_def split: option.split)
  obtain t where t: "closing\<^sup>*\<^sup>* u t" "closePc t = Draining err {}" "untouched u t" "closeErr t = closeErr u"
    "\<forall>j. pendingRequests t j = (if j \<in> ids then None else pendingRequests u j)"
    "\<forall>c. ended err u c \<longrightarrow> ended err t c" "\<forall>j \<in> ids. \<forall>c. pendingRequests u j = Some c \<longrightarrow> ended err t c"
    using insert.IH [OF c(1)] by blast
  have "ended err t d" if "j \<in> insert i ids" "pendingRequests s j = Some d" for j d
    using that t(6,7) c(4,6) by (cases "j = i") auto
  then show ?case using u c t insert.hyps untouched_trans
    by (intro exI [of _ t]) (auto intro: converse_rtranclp_into_rtranclp)
qed

lemma finish_from_drain:
  assumes "closePc s = Draining err {}"
  shows "\<exists>t. closing\<^sup>*\<^sup>* s t \<and> doneClosed t \<and> untouched s t \<and> calls t = calls s \<and> pendingRequests t = pendingRequests s \<and> closeErr t = closeErr s"
proof (intro exI conjI)
  show "closing\<^sup>*\<^sup>* s (finishClose s)" using closing_end [OF assms] by (rule r_into_rtranclp)
qed (simp_all add: finishClose_def untouched_def)

lemma close_from_drain:
  assumes "finite ids" and "closePc s = Draining err ids"
  shows "\<exists>t. closing\<^sup>*\<^sup>* s t \<and> doneClosed t \<and> untouched s t \<and> closeErr t = closeErr s \<and>
    (\<forall>i. pendingRequests t i = (if i \<in> ids then None else pendingRequests s i)) \<and>
    (\<forall>i \<in> ids. \<forall>c. pendingRequests s i = Some c \<longrightarrow> ended err t c)"
proof -
  obtain v where v: "closing\<^sup>*\<^sup>* s v" "closePc v = Draining err {}" "untouched s v" "closeErr v = closeErr s"
    "\<forall>i. pendingRequests v i = (if i \<in> ids then None else pendingRequests s i)"
    "\<forall>i \<in> ids. \<forall>c. pendingRequests s i = Some c \<longrightarrow> ended err v c"
    using drain_all [OF assms] by blast
  obtain t where "closing\<^sup>*\<^sup>* v t" "doneClosed t" "untouched v t" "calls t = calls v" "pendingRequests t = pendingRequests v"
    "closeErr t = closeErr v" using finish_from_drain [OF v(2)] by blast
  then show ?thesis using v untouched_trans by (intro exI [of _ t]) (auto simp: ended_def)
qed

lemma close_completes:
  assumes "closeOk s" and "isClosed s"
  shows "\<exists>t. closing\<^sup>*\<^sup>* s t \<and> doneClosed t \<and> untouched s t \<and>
    (\<forall>err. closePc s = CloseStart err \<longrightarrow> pendingRequests t = Map.empty \<and> closeErr t = (if err \<noteq> None then err else closeErr s) \<and>
       (\<forall>i c. pendingRequests s i = Some c \<longrightarrow> ended err t c))"
proof (cases "closePc s")
  case NotClosing
  then show ?thesis using assms by (simp add: closeOk_def)
next
  case (CloseStart err)
  define u where "u = startDrain err s"
  have u: "closing s u" "closePc u = Draining err (dom (pendingRequests s))" "untouched s u"
    "pendingRequests u = pendingRequests s" "closeErr u = (if err \<noteq> None then err else closeErr s)"
    using closing_start [OF CloseStart] by (simp_all add: u_def startDrain_def untouched_def)
  obtain t where t: "closing\<^sup>*\<^sup>* u t" "doneClosed t" "untouched u t" "closeErr t = closeErr u"
    "\<forall>i. pendingRequests t i = (if i \<in> dom (pendingRequests s) then None else pendingRequests u i)"
    "\<forall>i \<in> dom (pendingRequests s). \<forall>c. pendingRequests u i = Some c \<longrightarrow> ended err t c"
    using close_from_drain [OF _ u(2)] assms(1) by (auto simp: closeOk_def)
  have "pendingRequests t = Map.empty" using t(5) u(4) by (intro ext) (auto simp: domIff)
  then show ?thesis using u t CloseStart untouched_trans
    by (intro exI [of _ t]) (auto intro: converse_rtranclp_into_rtranclp)
next
  case (Draining err ids)
  then show ?thesis using close_from_drain [OF _ Draining] assms(1) by (auto simp: closeOk_def)
next
  case CloseFinished
  then show ?thesis using assms(1) untouched_refl by (intro exI [of _ s]) (simp add: closeOk_def)
qed

section \<open>The table of pending requests\<close>

text \<open>On an open channel the table holds every ordinary request from when it is stored to the end of its call.\<close>

definition tableFull :: "chan \<Rightarrow> bool" where
  "tableFull s \<longleftrightarrow> isClosed s \<or>
     (\<forall>c. numbered s c \<and> registered (phaseOf (calls s c)) \<longrightarrow> pendingRequests s (callId (calls s c)) = Some c)"

lemma runs_tableFull: "runs W n s \<Longrightarrow> n + 2 < 2 ^ 64 \<Longrightarrow> tableFull s"
proof (induction rule: runs.induct)
  case none
  then show ?case by (simp add: tableFull_def newChannel_def freshCall_def)
next
  case (one_more n s t)
  then have IH: "tableFull s" by simp
  obtain k where "idsOk k s" using runs_ids [OF one_more.hyps(1)] one_more.prems by auto
  then have d: "numbered s c \<Longrightarrow> numbered s d \<Longrightarrow> c \<noteq> d \<Longrightarrow> callId (calls s c) \<noteq> callId (calls s d)" for c d
    unfolding idsOk_def by blast
  have nh: "numbered s c \<Longrightarrow> \<not> numbered s d \<Longrightarrow> phaseOf (calls s d) \<noteq> Fresh \<Longrightarrow> callId (calls s c) \<noteq> callId (calls s d)" for c d
    by (auto simp: numbered_def)
  have cl: "closeOk s" by (rule closeOk_reachable [OF runs_reachable [OF one_more.hyps(1)]])
  have other: "callId (calls s c) \<noteq> callId (calls s d)"
    if "numbered s c" "c \<noteq> d" "phaseOf (calls s d) \<noteq> Fresh" for c d
    using that d nh by (cases "numbered s d") auto
  from one_more.hyps(2) show ?case
  proof (cases rule: step.cases)
    case (store c)
    have "pendingRequests t (callId (calls t x)) = Some x"
      if "\<not> isClosed t" "numbered t x" "registered (phaseOf (calls t x))" for x
    proof (cases "x = c")
      case False
      then have "numbered s x" "registered (phaseOf (calls s x))" "\<not> isClosed s" "calls t x = calls s x"
        using that store by (simp_all add: storeRequest_def numbered_def)
      then show ?thesis using IH other [of x c] False store by (simp add: tableFull_def storeRequest_def)
    qed (use store in \<open>simp add: storeRequest_def\<close>)
    then show ?thesis by (auto simp: tableFull_def)
  next
    case (finish c out)
    have "pendingRequests t (callId (calls t x)) = Some x"
      if "\<not> isClosed t" "numbered t x" "registered (phaseOf (calls t x))" for x
    proof -
      have x: "x \<noteq> c" using that(3) finish by (auto simp: finishCall_def)
      then have "numbered s x" "registered (phaseOf (calls s x))" "\<not> isClosed s" "calls t x = calls s x"
        using that finish by (simp_all add: finishCall_def numbered_def)
      then show ?thesis using IH other [of x c] x finish by (simp add: tableFull_def finishCall_def)
    qed
    then show ?thesis by (auto simp: tableFull_def)
  next
    case (drain_one err ids i)
    then have "isClosed s" using cl by (simp add: closeOk_def)
    then show ?thesis using drain_one by (simp add: tableFull_def drainOne_def split: option.split)
  next
    case (write_next i rest)
    then show ?thesis using IH by (simp add: tableFull_def numbered_def writeNext_def split: option.split prod.split)
  qed (use IH in \<open>auto simp: tableFull_def numbered_def chan_ops split: option.splits sum.splits prod.splits failure.splits if_splits\<close>)
qed

section \<open>A sample run\<close>

text \<open>A request with a body of four bytes, one without a body and one whose writer fails; the handshake has the first.\<close>

definition sampleW :: requests where
  "sampleW h = {(1000, WriteInt32 9)} \<union> (if h then {} else {(1050, skipW), (1001, failW (ErrMsg ''no''))})"

lemma sampleW_good: "goodWriters sampleW"
proof -
  have w: "wf_out bw \<Longrightarrow> WriteInt32 9 bw = put [9, 0, 0, 0] bw" for bw
    using writesD [OF writes_prims(6) [of 9]] by (simp add: to_le_numeral)
  have "\<exists>body. (h \<longrightarrow> body \<noteq> []) \<and> (\<forall>bw. wf_out bw \<longrightarrow> v bw = put body bw \<or> (\<exists>f. v bw = Inl f))"
    if "(opCode, v) \<in> sampleW h" for h opCode v
    using that w put_Nil
    by (auto simp: sampleW_def skipW_def failW_def split: if_splits intro: exI [of _ "[9, 0, 0, 0]"] exI [of _ "[]"])
  then show ?thesis unfolding goodWriters_def by blast
qed

definition sampleFrame :: "i64 \<Rightarrow> byte list" where
  "sampleFrame i = frame (requestHead i 1000 @ [9, 0, 0, 0])"

lemma sample_request: "newRequest i 1000 (WriteInt32 9) = Inr (sampleFrame i)"
proof -
  have w: "writes (WriteInt32 9) [9, 0, 0, 0]"
    using writes_prims(6) [of 9] by (simp add: to_le_numeral)
  show ?thesis unfolding sampleFrame_def
    by (rule newRequest_frame [OF w]) (simp add: small_def maxInt32_def requestHead_def)
qed

definition submit :: "nat \<Rightarrow> bool \<Rightarrow> chan \<Rightarrow> chan" where
  "submit c handshake s = enqueueRequest c (storeRequest c (buildRequest c 1000 (WriteInt32 9) (beginCall c handshake s)))"

lemma submit_path:
  assumes "phaseOf (calls s c) = Fresh" and "\<not> isClosed s" and "length (pendingCh s) < queueSize"
  obtains s1 s2 s3 where "step sampleW s s1" "step sampleW s1 s2" "step sampleW s2 s3" "step sampleW s3 (submit c h s)"
proof -
  let ?s1 = "beginCall c h s"
  let ?s2 = "buildRequest c 1000 (WriteInt32 9) ?s1"
  let ?s3 = "storeRequest c ?s2"
  have p1: "phaseOf (calls ?s1 c) = Begun" "\<not> isClosed ?s1" "pendingCh ?s1 = pendingCh s"
    using assms by (simp_all add: beginCall_def Let_def)
  have p2: "phaseOf (calls ?s2 c) = Ready" "pendingCh ?s2 = pendingCh s"
    using p1 by (simp_all add: buildRequest_def sample_request)
  have p3: "phaseOf (calls ?s3 c) = Stored" "length (pendingCh ?s3) < queueSize"
    using p2 assms(3) by (simp_all add: storeRequest_def)
  have "step sampleW s ?s1" using assms(1) by (rule begin_call)
  moreover have "step sampleW ?s1 ?s2" using p1(1) by (rule build [where opCode = 1000]) (simp add: sampleW_def)
  moreover have "step sampleW ?s2 ?s3" using p2(1) by (rule store)
  moreover have "step sampleW ?s3 (submit c h s)" unfolding submit_def using p3 by (rule enqueue)
  ultimately show ?thesis by (rule that)
qed

lemma submit_steps:
  assumes "phaseOf (calls s c) = Fresh" and "\<not> isClosed s" and "length (pendingCh s) < queueSize"
  shows "steps sampleW s (submit c h s)"
  by (rule submit_path [OF assms, of h]) (meson steps_step steps_refl)

lemma submit_runs:
  assumes "runs sampleW n s" and "phaseOf (calls s c) = Fresh" and "\<not> isClosed s" and "length (pendingCh s) < queueSize"
  shows "runs sampleW (n + 4) (submit c h s)"
proof -
  obtain s1 s2 s3 where "step sampleW s s1" "step sampleW s1 s2" "step sampleW s2 s3" "step sampleW s3 (submit c h s)"
    by (rule submit_path [OF assms(2-4)])
  then have "runs sampleW (Suc (Suc (Suc (Suc n)))) (submit c h s)" using assms(1) by (blast intro: runs.one_more)
  then show ?thesis by (simp add: numeral_eq_Suc)
qed

lemma submit_simps:
  assumes "\<not> isClosed s"
  shows "submit c h s = (let i = (if h then handshakeId else idGen s + 1) in
    s\<lparr>idGen := (if h then idGen s else i), pendingRequests := (pendingRequests s)(i \<mapsto> c),
      calls := (calls s)(c := (calls s c)\<lparr>callId := i, forHandshake := h, requestData := sampleFrame i, phaseOf := Waiting\<rparr>),
      pendingCh := pendingCh s @ [i]\<rparr>)"
  using assms by (cases h) (simp_all add: submit_def enqueueRequest_def storeRequest_def buildRequest_def beginCall_def
      sample_request Let_def)

text \<open>A handshake, and a request whose response has arrived.\<close>
definition agreedState :: chan where
  "agreedState = finishCall 0 (Answer (Reply (NewBinaryInputStream [1] 0)))
     ((answered 0 (receivePacket [1] (submit 0 True newChannel)))\<lparr>protocolSet := True\<rparr>)"

definition answeredState :: chan where
  "answeredState = receivePacket (to_le 8 2 @ [0, 0, 7]) (submit 2 False agreedState)"

lemma runs_new: "runs sampleW 4 (submit c h newChannel)"
  using submit_runs [OF runs.none, of c h] by (simp add: newChannel_def freshCall_def queueSize_def)

lemma runs_agreed: "runs sampleW 8 agreedState"
proof -
  let ?s = "submit 0 True newChannel"
  let ?t = "receivePacket [1] ?s"
  have "runs sampleW 4 ?s" by (rule runs_new)
  then have "runs sampleW (Suc 4) ?t" by (rule runs.one_more) (rule packet, simp add: submit_simps newChannel_def)
  then have "runs sampleW (Suc (Suc 4)) (answered 0 ?t)"
    by (rule runs.one_more) (rule answer; simp add: submit_simps newChannel_def Let_def receivePacket_def safeClose_def)
  then have "runs sampleW (Suc (Suc (Suc 4))) ((answered 0 ?t)\<lparr>protocolSet := True\<rparr>)"
    by (rule runs.one_more) (rule agreed [where c = 0 and input = "NewBinaryInputStream [1] 0"];
      simp add: submit_simps newChannel_def Let_def receivePacket_def safeClose_def answered_def leaveWith_def decodeResponse_def freshCall_def)
  then have "runs sampleW (Suc (Suc (Suc (Suc 4)))) agreedState" unfolding agreedState_def
    by (rule runs.one_more) (rule finish;
      simp add: submit_simps newChannel_def Let_def receivePacket_def safeClose_def answered_def leaveWith_def decodeResponse_def freshCall_def)
  then show ?thesis by simp
qed

lemma reachable_agreed: "reachable sampleW agreedState"
  by (rule runs_reachable [OF runs_agreed])

lemma agreed_simps:
  "calls agreedState 2 = freshCall" "idGen agreedState = 1" "isClosed agreedState = False" "protocolSet agreedState = True"
  "pendingCh agreedState = [handshakeId]" "readerRuns agreedState"
  by (simp_all add: agreedState_def submit_simps newChannel_def finishCall_def receivePacket_def safeClose_def answered_def
      leaveWith_def decodeResponse_def freshCall_def)

lemma reachable_answered: "reachable sampleW answeredState"
  unfolding answeredState_def
  by (rule reachable.more [OF reachable_steps [OF submit_steps reachable_agreed] packet])
     (simp_all add: agreed_simps freshCall_def queueSize_def submit_simps)

lemma answered_simps:
  "reqDone (calls answeredState 2)" "reqErr (calls answeredState 2) = None" "callId (calls answeredState 2) = 2"
  by (simp_all add: answeredState_def submit_simps agreed_simps receivePacket_def responseId_def size_defs safeClose_def
     handshakeId_def of_le_to_le freshCall_def Let_def)

section \<open>Properties\<close>

text \<open>C9 A response goes to the request it answers: in every interleaving, whatever the request writers do, a
  request that was completed without an error holds a response whose first eight bytes are its own id, so
  the comparison of the ids in send0, which panics on a difference, never fails.\<close>

theorem responses_reach_their_requests:
  assumes "reachable W s"
    and "reqDone (calls s c)" and "reqErr (calls s c) = None" and "callId (calls s c) \<noteq> handshakeId"
  shows "responseId (responseData (calls s c)) = Some (callId (calls s c)) \<and>
    (\<exists>rest. ReadInt64 (NewBinaryInputStream (responseData (calls s c)) 0) = Inr (callId (calls s c), rest))"
proof -
  let ?d = "responseData (calls s c)"
  have r: "responseId ?d = Some (callId (calls s c))"
    using table_call [OF chanOk_reachable [OF assms(1)], of c] assms(2-4) by (simp add: callOk_def)
  then have "length ?d \<ge> 8" and i: "callId (calls s c) = word_of_nat (of_le (take 8 ?d))"
    by (auto simp: responseId_def size_defs split: if_splits)
  then have d: "?d = take 8 ?d @ drop 8 ?d" "length (take 8 ?d) = 8" by simp_all
  then have "take 8 ?d = to_le 8 (unat (callId (calls s c)))"
    unfolding i by (simp add: unat_of_le)
  then have "reads ReadInt64 (take 8 ?d) (callId (calls s c))" using reads_prims(9) by metis
  from read_on [OF this, of 0 "[]" ?d "drop 8 ?d" 0] d show ?thesis using r by (simp add: NewBinaryInputStream_def)
qed

text \<open>C27 The server can always cut what it receives: in every interleaving of fewer than 2 to the 64 less two
  steps the bytes handed to the socket are whole requests in the order they were taken from the queue, up
  to the last one that is still in part in the buffer; cut into any pieces they give a prefix of these
  requests. A request writer appends a body, which may be empty, or fails, in which case nothing is sent;
  the handshake, which has no head, has a body.\<close>

theorem socket_carries_requests:
  assumes "runs W n s" and "n + 2 < 2 ^ 64" and "goodWriters W" and "concat cs = socketOut s"
  shows "\<exists>ps qs pa. sentLog s = map frame (ps @ qs) \<and> feed newPacketAccumulator cs = (ps, Inr pa)"
proof -
  have o: "outOk s" using runs_outOk [OF assms(1-3)] by blast
  then obtain rs where rs: "sentLog s = map frame rs" "\<forall>p \<in> set rs. sendable p"
    using framed_list [of "sentLog s"] by (auto simp: outOk_def)
  have "feed newPacketAccumulator (cs @ [writeBuf s]) = (rs, Inr \<lparr>paBuf = [], currentSize = 0\<rparr>)"
    using o rs assms(4) by (intro feed_frames) (simp_all add: outOk_def)
  then show ?thesis using rs(1) unfolding feed_snoc
    by (auto split: prod.splits sum.splits)
qed

text \<open>C29 Ids are not reused: within 2 to the 64 less three steps of a new connection no two
  requests other than the handshake have the same id.\<close>

theorem ids_are_unique:
  assumes "runs W n s" and "n + 2 < 2 ^ 64" and "c \<noteq> d" and "numbered s c" and "numbered s d"
  shows "callId (calls s c) \<noteq> callId (calls s d)"
  using runs_ids [OF assms(1,2)] assms(3-5) by (auto simp: idsOk_def)

text \<open>C28 The table of pending requests is exact: in every interleaving of fewer than 2 to the 64 less two
  steps, what the table holds under an id is a call with this id that was stored and has not returned yet,
  and on an open channel every ordinary call is there from when it is stored until it returns. So a
  response finds its call, and no call that returned stays in the table.\<close>

theorem pending_table_exact:
  assumes "runs W n s" and "n + 2 < 2 ^ 64"
  shows "(pendingRequests s i = Some c \<longrightarrow> callId (calls s c) = i \<and> registered (phaseOf (calls s c))) \<and>
    (\<not> isClosed s \<and> numbered s c \<and> registered (phaseOf (calls s c)) \<longrightarrow> pendingRequests s (callId (calls s c)) = Some c)"
  using table_entry [OF chanOk_reachable [OF runs_reachable [OF assms(1)]]] runs_tableFull [OF assms]
  by (auto simp: tableFull_def)

text \<open>C21 Closing ends and releases the callers: from every reachable state of a closed channel the steps of
  the closer alone lead to a state in which doneCh is closed. There each caller that waits can leave, by
  the branch of its select for doneCh, with the error of the close. And when the closer is at its start,
  every request in the table is completed with the error of the connection, the table is left empty, and
  the cause is kept.\<close>

theorem closing_releases_callers:
  assumes "reachable W s" and "isClosed s"
  shows "\<exists>t. closing\<^sup>*\<^sup>* s t \<and> doneClosed t \<and>
    (\<forall>c. phaseOf (calls s c) = Waiting \<longrightarrow> step W t (connectionGone c t) \<and>
       phaseOf (calls (connectionGone c t) c) = Leaving (Answer (ReplyError (processCloseError ''connection closed'' False t)))) \<and>
    (\<forall>err. closePc s = CloseStart err \<longrightarrow> pendingRequests t = Map.empty \<and> closeErr t = (if err \<noteq> None then err else closeErr s) \<and>
       (\<forall>i c. pendingRequests s i = Some c \<longrightarrow> reqDone (calls t c) \<and>
          reqErr (calls t c) = Some (ClientConnectionError ''connection closed'' err)))"
proof -
  obtain t where t: "closing\<^sup>*\<^sup>* s t" "doneClosed t" "untouched s t"
    "\<forall>err. closePc s = CloseStart err \<longrightarrow> pendingRequests t = Map.empty \<and> closeErr t = (if err \<noteq> None then err else closeErr s) \<and>
       (\<forall>i c. pendingRequests s i = Some c \<longrightarrow> ended err t c)"
    using close_completes [OF closeOk_reachable [OF assms(1)] assms(2)] by blast
  have "step W t (connectionGone c t)" if "phaseOf (calls s c) = Waiting" for c
    by (rule gone) (use t(2,3) that in \<open>simp_all add: untouched_def\<close>)
  then show ?thesis using t unfolding ended_def
    by (intro exI [of _ t]) (simp add: connectionGone_def leaveWith_def)
qed

section \<open>Witnesses\<close>

theorem responses_reach_their_requests_witness:
  "responseId (responseData (calls answeredState 2)) = Some 2"
  using responses_reach_their_requests [OF reachable_answered, of 2]
  by (simp add: answered_simps handshakeId_def)

theorem socket_carries_requests_witness:
  "\<exists>n ps qs pa. runs sampleW n agreedState \<and> sentLog agreedState = map frame (ps @ qs) \<and> feed newPacketAccumulator [] = (ps, Inr pa)"
proof -
  have "concat [] = socketOut agreedState"
    by (simp add: agreedState_def submit_simps newChannel_def finishCall_def receivePacket_def safeClose_def
        answered_def leaveWith_def decodeResponse_def freshCall_def)
  have "\<exists>ps qs pa. sentLog agreedState = map frame (ps @ qs) \<and> feed newPacketAccumulator [] = (ps, Inr pa)"
    by (rule socket_carries_requests [OF runs_agreed _ sampleW_good]) (simp, fact)
  then show ?thesis using runs_agreed by blast
qed

theorem pending_table_exact_witness:
  "pendingRequests (submit 2 False newChannel) 2 = Some 2"
  using pending_table_exact [OF runs_new, where i = 2 and c = 2 and c1 = 2 and h1 = False]
  by (simp add: submit_simps newChannel_def numbered_def handshakeId_def)

theorem closing_releases_callers_witness:
  "\<exists>t. closing\<^sup>*\<^sup>* (beginClose None (submit 2 False agreedState)) t \<and> doneClosed t \<and> pendingRequests t = Map.empty \<and>
    step sampleW t (connectionGone 2 t) \<and>
    reqErr (calls t 2) = Some (ClientConnectionError ''connection closed'' None)"
proof -
  let ?s = "submit 2 False agreedState"
  have "reachable sampleW ?s"
    by (rule reachable_steps [OF submit_steps reachable_agreed]) (simp_all add: agreed_simps freshCall_def queueSize_def)
  then have r: "reachable sampleW (beginClose None ?s)" by (rule reachable.more) (rule close)
  have c: "isClosed (beginClose None ?s)" "closePc (beginClose None ?s) = CloseStart None"
    "phaseOf (calls (beginClose None ?s) 2) = Waiting" "pendingRequests (beginClose None ?s) 2 = Some 2"
    by (simp_all add: beginClose_def submit_simps agreed_simps)
  show ?thesis using closing_releases_callers [OF r c(1)] c(2-4) by blast
qed

theorem ids_are_unique_witness:
  "callId (calls (beginCall 5 False (beginCall 3 False newChannel)) 3)
     \<noteq> callId (calls (beginCall 5 False (beginCall 3 False newChannel)) 5)"
proof (rule ids_are_unique)
  have "runs sampleW (Suc 0) (beginCall 3 False newChannel)"
    by (rule runs.one_more [OF runs.none begin_call]) (simp add: newChannel_def freshCall_def)
  then show "runs sampleW (Suc (Suc 0)) (beginCall 5 False (beginCall 3 False newChannel))"
    by (rule runs.one_more) (rule begin_call, simp add: beginCall_def newChannel_def freshCall_def)
qed (simp_all add: numbered_def beginCall_def newChannel_def handshakeId_def Let_def)

section \<open>Requests that are not served\<close>

lemma idle_writer_sends_nothing:
  assumes "step W s t" and "pendingCh s = []" and "writerPc s = WSelect" and "pendingCh t = []"
  shows "socketOut t = socketOut s \<and> writerPc t \<noteq> WFlush"
  using assms(1)
proof (cases rule: step.cases)
qed (use assms(2-4) in \<open>auto simp: chan_ops split: option.split sum.split prod.split failure.split\<close>)

text \<open>The second of two requests is cancelled after the writer took the first and before it takes
  the second.\<close>

definition unflushedState :: chan where
  "unflushedState =
     writeNext 3 [] (finishCall 2 (Answer (ReplyError (ClientTimeoutError ''request cancelled''))) (cancelled 2
       (flushIfIdle (writeNext 2 [3] (submit 2 False (submit 0 False newChannel))))))"

text \<open>A request can stay in the buffer of the writer: there is a run at whose end a caller
  waits on an open connection, the queue is empty and the writer idle, and nothing was handed
  to the socket; and as long as no other request comes, no step hands it over. The writer skips
  a request that was cancelled without flushing what it wrote before.\<close>

theorem request_stays_in_buffer:
  "reachable sampleW unflushedState \<and> \<not> isClosed unflushedState \<and>
   phaseOf (calls unflushedState 0) = Waiting \<and> pendingCh unflushedState = [] \<and> writerPc unflushedState = WSelect \<and>
   sentLog unflushedState = [requestData (calls unflushedState 0)] \<and> socketOut unflushedState = [] \<and>
   (\<forall>t. step sampleW unflushedState t \<and> pendingCh t = [] \<longrightarrow> socketOut t = [])"
proof -
  define A where "A = submit 2 False (submit 0 False newChannel)"
  define B where "B = writeNext 2 [3] A"
  define C where "C = flushIfIdle B"
  define E where "E = finishCall 2 (Answer (ReplyError (ClientTimeoutError ''request cancelled''))) (cancelled 2 C)"
  have u: "unflushedState = writeNext 3 [] E" by (simp add: unflushedState_def E_def C_def B_def A_def)
  have a: "A = newChannel\<lparr>idGen := 3, pendingRequests := [2 \<mapsto> 0, 3 \<mapsto> 2],
      calls := (\<lambda>_. freshCall)(0 := freshCall\<lparr>callId := 2, requestData := sampleFrame 2, phaseOf := Waiting\<rparr>,
        2 := freshCall\<lparr>callId := 3, requestData := sampleFrame 3, phaseOf := Waiting\<rparr>), pendingCh := [2, 3]\<rparr>"
    by (simp add: A_def submit_simps newChannel_def Let_def freshCall_def)
  have len: "length (sampleFrame 2) = 18" by (simp add: sampleFrame_def frame_def requestHead_def handshakeId_def)
  have b: "B = A\<lparr>pendingCh := [3], writeBuf := sampleFrame 2, sentLog := [sampleFrame 2], writerPc := WFlush\<rparr>"
    unfolding B_def by (simp add: a writeNext_def newChannel_def bufWrite_def writeBufferSize_def len)
  have c: "C = A\<lparr>pendingCh := [3], writeBuf := sampleFrame 2, sentLog := [sampleFrame 2]\<rparr>"
    unfolding C_def b by (simp add: a flushIfIdle_def newChannel_def)
  have "reachable sampleW A" unfolding A_def
    by (rule reachable_steps [OF steps_trans [OF submit_steps submit_steps] reachable.start])
       (simp_all add: newChannel_def freshCall_def queueSize_def submit_simps)
  then have "reachable sampleW B" unfolding B_def by (rule reachable.more) (rule write_next; simp add: a newChannel_def)
  then have "reachable sampleW C" unfolding C_def by (rule reachable.more) (rule flush, simp add: b)
  then have "reachable sampleW (cancelled 2 C)" by (rule reachable.more) (rule cancel, simp add: c a)
  then have "reachable sampleW E" unfolding E_def
    by (rule reachable.more)
       (rule finish, simp add: c a cancelled_def leaveWith_def processCloseError_def newChannel_def)
  then have r: "reachable sampleW unflushedState" unfolding u
    by (rule reachable.more)
       (rule write_next; simp add: E_def c a cancelled_def leaveWith_def finishCall_def newChannel_def)
  have f: "\<not> isClosed unflushedState" "phaseOf (calls unflushedState 0) = Waiting" "pendingCh unflushedState = []"
    "writerPc unflushedState = WSelect" "sentLog unflushedState = [requestData (calls unflushedState 0)]"
    "socketOut unflushedState = []"
    unfolding u E_def by (simp_all add: c a writeNext_def finishCall_def cancelled_def leaveWith_def newChannel_def)
  have "socketOut t = []" if "step sampleW unflushedState t" "pendingCh t = []" for t
    using idle_writer_sends_nothing [OF that(1) f(3,4) that(2)] f(6) by simp
  then show ?thesis using r f by blast
qed

theorem request_stays_in_buffer_witness:
  "step sampleW unflushedState (beginClose None unflushedState) \<and> socketOut (beginClose None unflushedState) = []"
proof -
  have "pendingCh (beginClose None unflushedState) = []" using request_stays_in_buffer by (simp add: beginClose_def)
  then show ?thesis using request_stays_in_buffer close by blast
qed

text \<open>A caller in front of a full queue that no one empties stays there.\<close>

definition stuck :: "chan \<Rightarrow> nat \<Rightarrow> bool" where
  "stuck s c \<longleftrightarrow> phaseOf (calls s c) = Stored \<and> queueSize \<le> length (pendingCh s) \<and> writerPc s = WStopped"

lemma stuck_step: "step W s t \<Longrightarrow> stuck s c \<Longrightarrow> stuck t c"
proof (erule step.cases)
qed (auto simp: stuck_def chan_ops split: option.split sum.split prod.split failure.split)

lemma stuck_steps: "steps W s t \<Longrightarrow> stuck s c \<Longrightarrow> stuck t c"
  unfolding steps_def by (induction rule: rtranclp_induct) (auto intro: stuck_step)

lemma filled_queue:
  "n \<le> queueSize \<Longrightarrow> \<exists>s. reachable sampleW s \<and> \<not> isClosed s \<and> length (pendingCh s) = n \<and> writerPc s = WSelect \<and>
     (\<forall>c \<ge> n. phaseOf (calls s c) = Fresh)"
proof (induction n)
  case 0
  then show ?case by (intro exI [of _ newChannel]) (simp add: reachable.start, simp add: newChannel_def freshCall_def)
next
  case (Suc n)
  then obtain s where s: "reachable sampleW s" "\<not> isClosed s" "length (pendingCh s) = n" "writerPc s = WSelect"
    "\<forall>c \<ge> n. phaseOf (calls s c) = Fresh" by auto
  then have "reachable sampleW (submit n False s)"
    using Suc.prems by (intro reachable_steps [OF submit_steps]) auto
  then show ?case using s by (intro exI [of _ "submit n False s"]) (simp add: submit_simps Let_def)
qed

text \<open>A call can hang past its timeout and past the close of the channel: there is a run that
  leads to a closed channel with a caller that stays in front of the queue of pending requests
  in every state reached afterwards. The send to the queue waits for neither the context nor the
  close, and the writer has ended.\<close>

theorem call_can_hang_forever:
  "\<exists>s c. reachable sampleW s \<and> doneClosed s \<and> phaseOf (calls s c) = Stored \<and>
     (\<forall>t. steps sampleW s t \<longrightarrow> phaseOf (calls t c) = Stored)"
proof -
  let ?c = queueSize
  obtain s where s: "reachable sampleW s" "\<not> isClosed s" "length (pendingCh s) = queueSize" "writerPc s = WSelect"
    "phaseOf (calls s ?c) = Fresh" using filled_queue [of queueSize] by auto
  define s1 where "s1 = beginCall ?c False s"
  define s2 where "s2 = buildRequest ?c 1000 (WriteInt32 9) s1"
  define s3 where "s3 = storeRequest ?c s2"
  define s4 where "s4 = beginClose None s3"
  have p1: "phaseOf (calls s1 ?c) = Begun" "\<not> isClosed s1" "pendingCh s1 = pendingCh s" "writerPc s1 = WSelect"
    using s by (simp_all add: s1_def beginCall_def Let_def)
  have p2: "phaseOf (calls s2 ?c) = Ready" "\<not> isClosed s2" "pendingCh s2 = pendingCh s" "writerPc s2 = WSelect"
    using p1 by (simp_all add: s2_def buildRequest_def sample_request)
  have p4: "phaseOf (calls s4 ?c) = Stored" "isClosed s4" "pendingCh s4 = pendingCh s" "writerPc s4 = WSelect"
    using p2 by (simp_all add: s4_def s3_def storeRequest_def beginClose_def)
  have "step sampleW s s1" unfolding s1_def using s(5) by (rule begin_call)
  moreover have "step sampleW s1 s2" unfolding s2_def using p1(1) by (rule build) (simp add: sampleW_def)
  moreover have "step sampleW s2 s3" unfolding s3_def using p2(1) by (rule store)
  moreover have "step sampleW s3 s4" unfolding s4_def by (rule close)
  ultimately have r: "reachable sampleW s4" using s(1) by (meson reachable.more)
  obtain t where t: "steps sampleW s4 t" "doneClosed t" "untouched s4 t"
    using close_completes [OF closeOk_reachable [OF r] p4(2)] closing_steps by blast
  define u where "u = t\<lparr>writerPc := WStopped\<rparr>"
  have "step sampleW t u" unfolding u_def by (rule write_stops) (use t p4 in \<open>simp_all add: untouched_def\<close>)
  then have "reachable sampleW u" using reachable_steps [OF t(1) r] by (rule reachable.more [rotated])
  moreover have "stuck u ?c" "doneClosed u" using t p4 s(3) by (simp_all add: u_def stuck_def untouched_def)
  ultimately show ?thesis using stuck_steps unfolding stuck_def by blast
qed

theorem call_can_hang_forever_witness:
  "\<exists>s c. reachable sampleW s \<and> doneClosed s \<and> phaseOf (calls (beginClose None s) c) = Stored"
proof -
  obtain s c where s: "reachable sampleW s" "doneClosed s" "\<forall>t. steps sampleW s t \<longrightarrow> phaseOf (calls t c) = Stored"
    using call_can_hang_forever by blast
  have "steps sampleW s (beginClose None s)" by (rule steps_step [OF close steps_refl])
  with s show ?thesis by blast
qed

end
