(* ===== verification/Handshake.thy ===== *)
theory Handshake
  imports Packet Proto Effects
begin

text \<open>
  channel.go, the handshake on a new connection: the client proposes the version and features of
  its configuration; a server of another version answers with its own, which the client then
  proposes. The other side is a parameter, a function from the bytes of the request to the bytes
  of the answer. The loop over the rounds has no bound in the code; here it has a budget, which
  is proved to suffice for a server that keeps to its version, and not for others.
\<close>

section \<open>State\<close>

text \<open>The attributes of the client in the order in which the code ranges over the map.\<close>

record hs_config =
  cfgAttrs :: "(string \<times> string) list"
  cfgUser :: string
  cfgPassword :: string

type_synonym 'w peer = "byte list \<Rightarrow> 'w \<Rightarrow> (gerror + byte list) \<times> 'w"

text \<open>What a round ends with: the connection set up, with the id of the server, or the context of
  the server to try next.\<close>

datatype round = Agreed "uuid option" | TryVersion ProtocolContext

definition supportedVersions :: "ProtocolVersion list" where
  "supportedVersions = [ver 1 0 0, ver 1 1 0, ver 1 2 0, ver 1 3 0, ver 1 4 0, ver 1 4 0, ver 1 5 0, ver 1 6 0, ver 1 7 0]"

section \<open>Operations\<close>

definition writeAttrs :: "(string \<times> string) list \<Rightarrow> writer" where
  "writeAttrs attrs =
     (if attrs = [] then WriteNull
      else seqW ([WriteType MapType, WriteInt32 (word_of_nat (length attrs)), WriteInt8 HashMap]
        @ concat (map (\<lambda>(k, v). [marshalString k, marshalString v]) attrs)))"

definition writeHandshake :: "hs_config \<Rightarrow> ProtocolContext \<Rightarrow> writer" where
  "writeHandshake cfg cli = seqW
     [WriteInt8 1,
      marshalProtocol cli,
      (if SupportsAttributeFeature cli UserAttributesFeature then writeAttrs (cfgAttrs cfg) else skipW),
      (if SupportsAuthorization cli \<and> cfgUser cfg \<noteq> [] then
         seqW [marshalString (cfgUser cfg), marshalString (cfgPassword cfg)] else skipW)]"

definition authFailed :: i32 where "authFailed = 2000"
definition failed :: i32 where "failed = 1"

definition broken :: "gerror \<Rightarrow> gerror" where
  "broken e = ErrWrap ''broken output from server'' e"

text \<open>The features of the context of the client are overwritten before the id of the server is
  read, also when reading it fails. The context is the second component.\<close>

definition readAccepted :: "ProtocolContext \<Rightarrow> in_stream \<Rightarrow> ((gerror + round) \<times> ProtocolContext) res" where
  "readAccepted cli input =
     bindE (if SupportsBitmapFeatures cli
            then (case unmarshalByteArray input of
                Inl (Fail e) \<Rightarrow> Inr (Inl (broken e), input)
              | Inl f \<Rightarrow> Inl f
              | Inr (None, input) \<Rightarrow> Inr (Inr cli, input)
              | Inr (Some bs, input) \<Rightarrow> Inr (Inr (updateAttributeFeatures (Some (FromBytes bs)) cli), input))
            else Inr (Inr cli, input)) (\<lambda>(r, input).
     case r of
       Inl e \<Rightarrow> Inr (Inl e, cli)
     | Inr cli \<Rightarrow>
         if SupportsPartitionAwareness cli
         then (case unmarshalUuid input of
             Inl (Fail e) \<Rightarrow> Inr (Inl (broken e), cli)
           | Inl f \<Rightarrow> Inl f
           | Inr (serverId, _) \<Rightarrow> Inr (Inr (Agreed (Some serverId)), cli))
         else Inr (Inr (Agreed None), cli))"

definition readRejected :: "hs_config \<Rightarrow> ProtocolContext \<Rightarrow> in_stream \<Rightarrow> ((gerror + round) \<times> ProtocolContext) res" where
  "readRejected cfg cli input =
     bindE (ReadInt16 input) (\<lambda>(major, input).
     bindE (ReadInt16 input) (\<lambda>(minor, input).
     bindE (ReadInt16 input) (\<lambda>(patch, input).
     let srv = NewProtocolContext (ver major minor patch) [] in
     case unmarshalString input of
       Inl (Fail e) \<Rightarrow> Inr (Inl (broken e), cli)
     | Inl f \<Rightarrow> Inl f
     | Inr (errMsg, input) \<Rightarrow>
         bindE (if Available input > 0 then ReadUInt32 input else Inr (failed, input)) (\<lambda>(errCode, _).
           Inr (if errCode = authFailed then Inl (ClientAuthenticationError errMsg)
                else if Compare (version cli) (version srv) = 0 then Inl (ClientProtocolError errMsg)
                else if version cli \<notin> set supportedVersions \<or> (\<not> SupportsAuthorization cli \<and> cfgUser cfg \<noteq> [])
                then Inl (ClientProtocolError ''Protocol version mismatch'')
                else Inr (TryVersion srv), cli)))))"

definition readHandshake :: "hs_config \<Rightarrow> ProtocolContext \<Rightarrow> in_stream \<Rightarrow> ((gerror + round) \<times> ProtocolContext) res" where
  "readHandshake cfg cli input = bindE (ReadBool input) (\<lambda>(success, input).
     if success then readAccepted cli input else readRejected cfg cli input)"

definition handshakeRound :: "hs_config \<Rightarrow> 'w peer \<Rightarrow> ProtocolContext \<Rightarrow> ('w, (gerror + round) \<times> ProtocolContext) prog" where
  "handshakeRound cfg srv cli = (\<lambda>w. case newRequest handshakeId 0 (writeHandshake cfg cli) of
     Inl (Fail e) \<Rightarrow> (Inr (Inl e, cli), w)
   | Inl f \<Rightarrow> (Inl f, w)
   | Inr req \<Rightarrow> (case srv req w of
       (Inl e, w) \<Rightarrow> (Inr (Inl e, cli), w)
     | (Inr resp, w) \<Rightarrow> (readHandshake cfg cli (NewBinaryInputStream resp 0), w)))"

text \<open>On success, the context of the connection and the id of the server.\<close>

primrec handshake :: "nat \<Rightarrow> hs_config \<Rightarrow> 'w peer \<Rightarrow> ProtocolContext \<Rightarrow> ('w, gerror + (ProtocolContext \<times> uuid option)) prog" where
  "handshake 0 cfg srv cli = liftP (Inl NoFuel)"
| "handshake (Suc n) cfg srv cli = bindP (handshakeRound cfg srv cli) (\<lambda>(r, cli). case r of
     Inl e \<Rightarrow> returnP (Inl e)
   | Inr (Agreed serverId) \<Rightarrow> returnP (Inr (cli, serverId))
   | Inr (TryVersion srvCtx) \<Rightarrow> handshake n cfg srv srvCtx)"

text \<open>createTcpChannel checks the version of the configuration before it dials.\<close>

definition checkVersion :: "ProtocolContext option \<Rightarrow> gerror option" where
  "checkVersion cfgCtx = (case cfgCtx of
     None \<Rightarrow> Some (ClientProtocolError ''protocol context is not set'')
   | Some c \<Rightarrow> if version c \<in> set supportedVersions then None
               else Some (ClientProtocolError (''version '' @ versionString (version c) @ '' is not supported'')))"

section \<open>The bytes of a handshake\<close>

definition ready :: "ProtocolContext \<Rightarrow> bool" where
  "ready c \<longleftrightarrow> (SupportsBitmapFeatures c \<longrightarrow> features c \<noteq> None)"

lemma ready_New: "ready (NewProtocolContext v fs)"
  by (simp add: ready_def NewProtocolContext_def Let_def SupportsBitmapFeatures_def)

definition encVersion :: "ProtocolVersion \<Rightarrow> byte list" where
  "encVersion v = encI16 (Major v) @ encI16 (Minor v) @ encI16 (Patch v)"

lemma length_encVersion [simp]: "length (encVersion v) = 6"
  by (simp add: encVersion_def)

definition encFeatures :: "ProtocolContext \<Rightarrow> byte list" where
  "encFeatures c = (if SupportsBitmapFeatures c then typeCode ByteArrayType # encBytes (Bytes (the (features c))) else [])"

definition encMarshalled :: "string \<Rightarrow> byte list" where
  "encMarshalled s = typeCode StringType # encStr s"

definition encAttrs :: "(string \<times> string) list \<Rightarrow> byte list" where
  "encAttrs attrs = (if attrs = [] then [typeCode NullType]
     else typeCode MapType # lenBytes (length attrs) @ HashMap # concat (map (\<lambda>(k, v). encMarshalled k @ encMarshalled v) attrs))"

definition encHandshake :: "hs_config \<Rightarrow> ProtocolContext \<Rightarrow> byte list" where
  "encHandshake cfg c = 1 # encVersion (version c) @ 2 # encFeatures c
     @ (if SupportsAttributeFeature c UserAttributesFeature then encAttrs (cfgAttrs cfg) else [])
     @ (if SupportsAuthorization c \<and> cfgUser cfg \<noteq> [] then encMarshalled (cfgUser cfg) @ encMarshalled (cfgPassword cfg) else [])"

lemma writes_marshalProtocol: "ready c \<Longrightarrow> writes (marshalProtocol c) (encVersion (version c) @ 2 # encFeatures c)"
proof -
  assume "ready c"
  then have f: "writes (if SupportsBitmapFeatures c
        then (case features c of None \<Rightarrow> (\<lambda>bw. Inl Panic) | Some bs \<Rightarrow> marshalByteArray (Some (Bytes bs))) else skipW)
      (encFeatures c)"
    by (auto simp: ready_def encFeatures_def writes_marshalByteArray writes_skip split: option.split)
  show ?thesis unfolding marshalProtocol_def
    by (rule writes_cong, rule writes_seq_Cons [OF writes_i16(1)], rule writes_seq_Cons [OF writes_i16(1)],
        rule writes_seq_Cons [OF writes_i16(1)], rule writes_seq_Cons [OF writes_prims(3)],
        rule writes_seq_Cons [OF f], rule writes_seq_Nil) (simp add: encVersion_def)
qed

lemma writes_pairs: "writes (seqW (concat (map (\<lambda>(k, v). [marshalString k, marshalString v]) attrs)))
    (concat (map (\<lambda>(k, v). encMarshalled k @ encMarshalled v) attrs))"
proof (induction attrs)
  case Nil
  then show ?case by (simp add: writes_skip)
next
  case (Cons a attrs)
  obtain k v where a: "a = (k, v)" by (cases a)
  from writes_seq_Cons [OF writes_marshalString [of k] writes_seq_Cons [OF writes_marshalString [of v] Cons]]
  show ?case by (simp add: a encMarshalled_def)
qed

lemma writes_attrs: "writes (writeAttrs attrs) (encAttrs attrs)"
proof (cases "attrs = []")
  case True
  then show ?thesis by (simp add: writeAttrs_def encAttrs_def writes_type)
next
  case False
  from writes_seq_Cons [OF writes_type(1) [of MapType] writes_seq_Cons [OF writes_len [of "length attrs"]
      writes_seq_Cons [OF writes_prims(3) [of HashMap] writes_pairs [of attrs]]]]
  show ?thesis using False by (simp add: writeAttrs_def encAttrs_def)
qed

lemma writes_handshake:
  assumes "ready c"
  shows "writes (writeHandshake cfg c) (encHandshake cfg c)"
proof -
  have a: "writes (if SupportsAttributeFeature c UserAttributesFeature then writeAttrs (cfgAttrs cfg) else skipW)
      (if SupportsAttributeFeature c UserAttributesFeature then encAttrs (cfgAttrs cfg) else [])"
    by (simp add: writes_attrs writes_skip)
  have "writes (seqW [marshalString (cfgUser cfg), marshalString (cfgPassword cfg)])
      (encMarshalled (cfgUser cfg) @ encMarshalled (cfgPassword cfg))"
    using writes_seq_Cons [OF writes_marshalString writes_seq_Cons [OF writes_marshalString writes_seq_Nil]]
    by (simp add: encMarshalled_def)
  then have u: "writes (if SupportsAuthorization c \<and> cfgUser cfg \<noteq> [] then
         seqW [marshalString (cfgUser cfg), marshalString (cfgPassword cfg)] else skipW)
      (if SupportsAuthorization c \<and> cfgUser cfg \<noteq> [] then encMarshalled (cfgUser cfg) @ encMarshalled (cfgPassword cfg) else [])"
    by (intro writes_if writes_skip)
  show ?thesis unfolding writeHandshake_def
    by (rule writes_cong, rule writes_seq_Cons [OF writes_prims(3)], rule writes_seq_Cons [OF writes_marshalProtocol [OF assms]],
        rule writes_seq_Cons [OF a], rule writes_seq_Cons [OF u], rule writes_seq_Nil) (simp add: encHandshake_def)
qed

text \<open>The version a server finds in the request, after the length, and its rejection and acceptance.\<close>

definition askedVersion :: "byte list \<Rightarrow> ProtocolVersion" where
  "askedVersion req = ver (word_of_nat (of_le (take 2 (drop 5 req)))) (word_of_nat (of_le (take 2 (drop 7 req))))
     (word_of_nat (of_le (take 2 (drop 9 req))))"

definition rejectBytes :: "ProtocolVersion \<Rightarrow> string \<Rightarrow> byte list" where
  "rejectBytes s msg = 0 # encVersion s @ encMarshalled msg"

definition acceptBytes :: "ProtocolVersion \<Rightarrow> byte list \<Rightarrow> uuid \<Rightarrow> byte list" where
  "acceptBytes s feats serverId = 1 #
     (if SupportsBitmapFeatures \<lparr>version = s, features = None\<rparr> then typeCode ByteArrayType # encBytes feats else [])
     @ (if SupportsPartitionAwareness \<lparr>version = s, features = None\<rparr> then typeCode UuidType # encUuid serverId else [])"

definition peerOf :: "(ProtocolVersion \<Rightarrow> byte list) \<Rightarrow> 'w peer" where
  "peerOf f = (\<lambda>req w. (Inr (f (askedVersion req)), w))"

lemma asked_request:
  assumes "ready c" and "small (length (encHandshake cfg c) + 4)"
  shows "\<exists>req. newRequest handshakeId 0 (writeHandshake cfg c) = Inr req \<and> askedVersion req = version c"
proof -
  let ?b = "encHandshake cfg c"
  have "newRequest handshakeId 0 (writeHandshake cfg c) = Inr (frame ?b)"
    using newRequest_frame [OF writes_handshake [OF assms(1)], of handshakeId 0 cfg] assms(2) by (simp add: requestHead_def)
  moreover have fr: "frame ?b = lenBytes (length ?b) @ 1 # encI16 (Major (version c)) @ encI16 (Minor (version c))
      @ encI16 (Patch (version c)) @ drop 7 ?b"
    by (simp add: frame_def encHandshake_def encVersion_def)
  have d: "take 2 (drop 5 (frame ?b)) = encI16 (Major (version c))"
    "take 2 (drop 7 (frame ?b)) = encI16 (Minor (version c))" "take 2 (drop 9 (frame ?b)) = encI16 (Patch (version c))"
    unfolding fr by simp_all
  have "askedVersion (frame ?b) = version c"
    unfolding askedVersion_def d by (simp add: encI16_def ver_def)
  ultimately show ?thesis by blast
qed

lemma round_peer:
  assumes "ready c" and "small (length (encHandshake cfg c) + 4)"
  shows "handshakeRound cfg (peerOf f) c w = (readHandshake cfg c (NewBinaryInputStream (f (version c)) 0), w)"
  using asked_request [OF assms] by (auto simp: handshakeRound_def peerOf_def)

section \<open>Reading the answers\<close>

lemma flags_of_version:
  "SupportsBitmapFeatures c = SupportsBitmapFeatures \<lparr>version = version c, features = None\<rparr>"
  "SupportsPartitionAwareness c = SupportsPartitionAwareness \<lparr>version = version c, features = None\<rparr>"
  by (simp_all add: SupportsBitmapFeatures_def SupportsPartitionAwareness_def)

lemma read_rejection:
  assumes "small (length msg)"
  shows "readHandshake cfg c (NewBinaryInputStream (rejectBytes s msg) 0) =
    Inr (if Compare (version c) s = 0 then Inl (ClientProtocolError msg)
         else if version c \<notin> set supportedVersions \<or> (\<not> SupportsAuthorization c \<and> cfgUser cfg \<noteq> [])
         then Inl (ClientProtocolError ''Protocol version mismatch'')
         else Inr (TryVersion (NewProtocolContext s [])), c)"
proof -
  let ?d = "rejectBytes s msg"
  let ?at = "\<lambda>n. \<lparr>ibuf = ?d, ioff = 0, ipos = n\<rparr>"
  have "ReadBool (?at 0) = Inr (False, ?at 1)"
    using read_on [OF reads_prims(3) [of False], of 0 "[]" ?d "encVersion s @ encMarshalled msg" 0]
    by (simp add: rejectBytes_def boolByte_def)
  moreover have "ReadInt16 (?at 1) = Inr (Major s, ?at 3)"
    using read_on [OF reads_words(5) [of "Major s"], of 1 "[0]" ?d "encI16 (Minor s) @ encI16 (Patch s) @ encMarshalled msg" 0]
    by (simp add: rejectBytes_def encVersion_def)
  moreover have "ReadInt16 (?at 3) = Inr (Minor s, ?at 5)"
    using read_on [OF reads_words(5) [of "Minor s"], of 3 "0 # encI16 (Major s)" ?d "encI16 (Patch s) @ encMarshalled msg" 0]
    by (simp add: rejectBytes_def encVersion_def)
  moreover have "ReadInt16 (?at 5) = Inr (Patch s, ?at 7)"
    using read_on [OF reads_words(5) [of "Patch s"], of 5 "0 # encI16 (Major s) @ encI16 (Minor s)" ?d "encMarshalled msg" 0]
    by (simp add: rejectBytes_def encVersion_def)
  moreover have "unmarshalString (?at 7) = Inr (msg, ?at (length ?d))"
    using read_on [OF reads_unmarshalString(1) [OF assms], of 7 "0 # encVersion s" ?d "[]" 0]
    by (simp add: rejectBytes_def encMarshalled_def)
  moreover have "ver (Major s) (Minor s) (Patch s) = s" by (simp add: ver_def)
  moreover have "Available (?at (length ?d)) = 0" by (simp add: Available_def)
  moreover have "version (NewProtocolContext s []) = s" by (simp add: NewProtocolContext_def Let_def)
  ultimately show ?thesis
    by (simp add: readHandshake_def readRejected_def NewBinaryInputStream_def Let_def failed_def authFailed_def)
qed

definition negotiated :: "byte list \<Rightarrow> ProtocolContext \<Rightarrow> ProtocolContext" where
  "negotiated feats c = (if SupportsBitmapFeatures c then c\<lparr>features := Some (FromBytes feats)\<rparr> else c)"

definition toldServer :: "uuid \<Rightarrow> ProtocolContext \<Rightarrow> uuid option" where
  "toldServer u c = (if SupportsPartitionAwareness c then Some u else None)"

lemma read_acceptance:
  assumes "small (length feats)" and "length u = 16"
  shows "readHandshake cfg c (NewBinaryInputStream (acceptBytes (version c) feats u) 0) =
    Inr (Inr (Agreed (toldServer u c)), negotiated feats c)"
proof -
  let ?d = "acceptBytes (version c) feats u"
  let ?at = "\<lambda>n. \<lparr>ibuf = ?d, ioff = 0, ipos = n\<rparr>"
  define fb where "fb = (if SupportsBitmapFeatures c then typeCode ByteArrayType # encBytes feats else [])"
  define ub where "ub = (if SupportsPartitionAwareness c then typeCode UuidType # encUuid u else [])"
  have d: "?d = 1 # fb @ ub"
    by (simp add: acceptBytes_def fb_def ub_def flags_of_version [of c])
  have b: "ReadBool (?at 0) = Inr (True, ?at 1)"
    using read_on [OF reads_prims(3) [of True], of 0 "[]" ?d "fb @ ub" 0] d by (simp add: boolByte_def)
  have uu: "unmarshalUuid (?at (1 + length fb)) = Inr (u, ?at (1 + length fb + length ub))"
    if "SupportsPartitionAwareness c"
    using read_on [OF reads_unmarshalUuid [OF assms(2)], of "1 + length fb" "1 # fb" ?d "[]" 0] d that
    by (simp add: ub_def)
  have pa: "SupportsPartitionAwareness (negotiated feats c) = SupportsPartitionAwareness c"
    by (simp add: negotiated_def SupportsPartitionAwareness_def)
  show ?thesis
  proof (cases "SupportsBitmapFeatures c")
    case True
    then have "unmarshalByteArray (?at 1) = Inr (Some feats, ?at (1 + length fb))"
      using read_on [OF reads_unmarshalByteArray [OF assms(1)], of 1 "[1]" ?d ub 0] d by (simp add: fb_def)
    then show ?thesis using True b uu pa
      by (simp add: readHandshake_def readAccepted_def NewBinaryInputStream_def toldServer_def
          negotiated_def updateAttributeFeatures_def)
  next
    case False
    then show ?thesis using b uu
      by (simp add: readHandshake_def readAccepted_def NewBinaryInputStream_def toldServer_def negotiated_def fb_def)
  qed
qed

text \<open>The rounds with a server of one version: it accepts its own version, and rejects any other by
  naming its own.\<close>

lemma one_version_rounds:
  assumes c: "ready c" "version c \<in> set supportedVersions" "cfgUser cfg = [] \<or> SupportsAuthorization c"
      "small (length (encHandshake cfg c) + 4)"
    and s: "natural s" "small (length (encHandshake cfg (NewProtocolContext s [])) + 4)"
    and f: "f s = acceptBytes s feats u" "small (length feats)" "length u = 16"
      "version c \<noteq> s \<Longrightarrow> f (version c) = rejectBytes s msg" "small (length msg)"
  shows "version c = s \<Longrightarrow> handshakeRound cfg (peerOf f) c w = (Inr (Inr (Agreed (toldServer u c)), negotiated feats c), w)"
    and "version c \<noteq> s \<Longrightarrow> handshakeRound cfg (peerOf f) c w = (Inr (Inr (TryVersion (NewProtocolContext s [])), c), w)"
    and "handshakeRound cfg (peerOf f) (NewProtocolContext s []) w =
      (Inr (Inr (Agreed (toldServer u (NewProtocolContext s []))), negotiated feats (NewProtocolContext s [])), w)"
proof -
  let ?s = "NewProtocolContext s []"
  have v: "version ?s = s" by (simp add: NewProtocolContext_def Let_def)
  show "handshakeRound cfg (peerOf f) c w = (Inr (Inr (Agreed (toldServer u c)), negotiated feats c), w)" if "version c = s"
    using read_acceptance [OF f(2,3), of cfg c] f(1) that by (simp only: round_peer [OF c(1,4)])
  show "handshakeRound cfg (peerOf f) ?s w = (Inr (Inr (Agreed (toldServer u ?s)), negotiated feats ?s), w)"
    using read_acceptance [OF f(2,3), of cfg ?s] by (simp only: round_peer [OF ready_New s(2)] f(1) v)
  show "handshakeRound cfg (peerOf f) c w = (Inr (Inr (TryVersion ?s), c), w)" if ne: "version c \<noteq> s"
  proof -
    have "natural (version c)" using c(2) by (auto simp: supportedVersions_def natural_def ver_def)
    then have "Compare (version c) s \<noteq> 0"
      using ne s(1) by (cases "version c"; cases s) (auto simp: Compare_natural signed_word_eqI split: if_splits)
    then have "readHandshake cfg c (NewBinaryInputStream (f (version c)) 0) = Inr (Inr (TryVersion ?s), c)"
      using read_rejection [OF f(5), of cfg c s] f(4) [OF ne] c(2,3) by auto
    then show ?thesis by (simp only: round_peer [OF c(1,4)])
  qed
qed

lemma negotiated_simps [simp]:
  "version (negotiated feats x) = version x" "toldServer u (negotiated feats x) = toldServer u x"
  "SupportsBitmapFeatures (negotiated feats x) = SupportsBitmapFeatures x"
  by (simp_all add: negotiated_def toldServer_def SupportsPartitionAwareness_def SupportsBitmapFeatures_def)

lemma features_negotiated: "SupportsBitmapFeatures x \<Longrightarrow> features (negotiated feats x) = Some (FromBytes feats)"
  by (simp add: negotiated_def)

section \<open>Properties\<close>

text \<open>C15 Against a server of one version the handshake ends within two rounds with the version of
  the server, its features and its id: the server accepts its own version and rejects any other
  by naming its own. That version need not be among the supported ones: the code looks up the
  version the client proposed, which it checked before, instead of the one it is offered.\<close>

theorem handshake_negotiates:
  assumes c: "ready c" "version c \<in> set supportedVersions" "cfgUser cfg = [] \<or> SupportsAuthorization c"
      "small (length (encHandshake cfg c) + 4)"
    and s: "natural s" "small (length (encHandshake cfg (NewProtocolContext s [])) + 4)"
    and f: "f s = acceptBytes s feats u" "small (length feats)" "length u = 16"
      "version c \<noteq> s \<Longrightarrow> f (version c) = rejectBytes s msg" "small (length msg)"
  shows "\<exists>ctx. handshake 2 cfg (peerOf f) c w = (Inr (Inr (ctx, toldServer u ctx)), w) \<and>
    version ctx = s \<and> (SupportsBitmapFeatures ctx \<longrightarrow> features ctx = Some (FromBytes feats))"
proof (cases "version c = s")
  case True
  then have "handshake 2 cfg (peerOf f) c w = (Inr (Inr (negotiated feats c, toldServer u c)), w)"
    using one_version_rounds(1) [OF assms True, of w] by (simp add: numeral_2_eq_2 bindP_def)
  then show ?thesis using True by (intro exI [of _ "negotiated feats c"]) (simp add: features_negotiated)
next
  case False
  let ?s = "NewProtocolContext s []"
  have "handshake 2 cfg (peerOf f) c w = (Inr (Inr (negotiated feats ?s, toldServer u ?s)), w)"
    using one_version_rounds(2) [OF assms False, of w] one_version_rounds(3) [OF assms, of w] by (simp add: numeral_2_eq_2 bindP_def)
  then show ?thesis
    by (intro exI [of _ "negotiated feats ?s"]) (simp add: features_negotiated, simp add: NewProtocolContext_def Let_def)
qed

lemma encFeatures_New: "length (encFeatures (NewProtocolContext v [])) \<le> 5"
  by (simp add: encFeatures_def NewProtocolContext_def Let_def Bytes_def New_def encBytes_def SupportsBitmapFeatures_def)

lemma no_features_New: "\<not> SupportsAttributeFeature (NewProtocolContext v []) f"
  using featureBit_bound [of f]
  by (simp add: SupportsAttributeFeature_def NewProtocolContext_def Let_def Test_def New_def wordIndex_def)

lemma plain_handshake_small:
  "small (length (encHandshake \<lparr>cfgAttrs = [], cfgUser = [], cfgPassword = []\<rparr> (NewProtocolContext v [])) + 4)"
  using encFeatures_New [of v] by (simp add: encHandshake_def no_features_New small_def maxInt32_def)

theorem handshake_negotiates_witness:
  "\<exists>ctx. handshake 2 \<lparr>cfgAttrs = [], cfgUser = [], cfgPassword = []\<rparr>
     (peerOf (\<lambda>v. if v = ver 9 9 9 then acceptBytes (ver 9 9 9) [] (replicate 16 7) else rejectBytes (ver 9 9 9) ''no''))
     (NewProtocolContext (ver 1 7 0) []) () = (Inr (Inr (ctx, toldServer (replicate 16 7) ctx)), ()) \<and>
   version ctx = ver 9 9 9 \<and> (SupportsBitmapFeatures ctx \<longrightarrow> features ctx = Some (FromBytes []))"
proof -
  have v: "version (NewProtocolContext x []) = x" for x by (simp add: NewProtocolContext_def Let_def)
  have n: "ver 1 7 0 \<noteq> ver 9 9 9" by (simp add: ver_def)
  have z: "small (length [])" "small (length ''no'')" by (simp_all add: small_def maxInt32_def)
  have s: "version (NewProtocolContext (ver 1 7 0) []) \<in> set supportedVersions" by (simp add: v supportedVersions_def)
  have nat: "natural (ver 9 9 9)" by (simp add: natural_def ver_def)
  show ?thesis
  proof (rule handshake_negotiates [OF ready_New s _ plain_handshake_small nat plain_handshake_small _ z(1) _ _ z(2)])
    show "length (replicate 16 7 :: byte list) = 16" by simp
    show "(if ver 9 9 9 = ver 9 9 9 then acceptBytes (ver 9 9 9) [] (replicate 16 7) else rejectBytes (ver 9 9 9) ''no'')
      = acceptBytes (ver 9 9 9) [] (replicate 16 7)" by (simp only: refl if_True)
    show "(if version (NewProtocolContext (ver 1 7 0) []) = ver 9 9 9 then acceptBytes (ver 9 9 9) [] (replicate 16 7)
      else rejectBytes (ver 9 9 9) ''no'') = rejectBytes (ver 9 9 9) ''no''" by (simp only: v n if_False)
  qed simp
qed

text \<open>The rounds have no bound of their own: a server that answers every proposal with another
  supported version keeps the client in the handshake, whatever the budget.\<close>

theorem handshake_can_go_on:
  "fst (handshake n \<lparr>cfgAttrs = [], cfgUser = [], cfgPassword = []\<rparr>
     (peerOf (\<lambda>v. rejectBytes (if v = ver 1 6 0 then ver 1 5 0 else ver 1 6 0) []))
     (NewProtocolContext (ver 1 7 0) []) w) = Inl NoFuel"
proof -
  let ?cfg = "\<lparr>cfgAttrs = [], cfgUser = [], cfgPassword = []\<rparr>"
  let ?p = "peerOf (\<lambda>v. rejectBytes (if v = ver 1 6 0 then ver 1 5 0 else ver 1 6 0) [])"
  have v: "version (NewProtocolContext x []) = x" for x by (simp add: NewProtocolContext_def Let_def)
  have r: "handshakeRound ?cfg ?p (NewProtocolContext x []) w
      = (Inr (Inr (TryVersion (NewProtocolContext (if x = ver 1 6 0 then ver 1 5 0 else ver 1 6 0) [])),
          NewProtocolContext x []), w)"
    if "x \<in> {ver 1 5 0, ver 1 6 0, ver 1 7 0}" for x w
  proof -
    define y where "y = (if x = ver 1 6 0 then ver 1 5 0 else ver 1 6 0)"
    have d: "ver 1 5 0 \<noteq> ver 1 6 0" "ver 1 7 0 \<noteq> ver 1 6 0" by (simp_all add: ver_def)
    have "Compare (ver 1 5 0) (ver 1 6 0) \<noteq> 0" "Compare (ver 1 6 0) (ver 1 5 0) \<noteq> 0" "Compare (ver 1 7 0) (ver 1 6 0) \<noteq> 0"
      by (simp_all add: Compare_def ver_def)
    then have "Compare x y \<noteq> 0" using that d by (elim insertE) (simp_all only: y_def if_True if_False refl empty_iff not_False_eq_True)
    moreover have "x \<in> set supportedVersions" using that by (elim insertE) (simp_all add: supportedVersions_def)
    ultimately have xy: "Compare x y \<noteq> 0" "x \<in> set supportedVersions" by blast+
    have "small (length [])" by (simp add: small_def maxInt32_def)
    from read_rejection [OF this, of ?cfg "NewProtocolContext x []" y] xy
    have "readHandshake ?cfg (NewProtocolContext x []) (NewBinaryInputStream (rejectBytes y []) 0)
        = Inr (Inr (TryVersion (NewProtocolContext y [])), NewProtocolContext x [])"
      by (simp only: v hs_config.select_convs simp_thms if_False if_True)
    then show ?thesis unfolding round_peer [OF ready_New plain_handshake_small] v y_def [symmetric] by simp
  qed
  have "fst (handshake n ?cfg ?p (NewProtocolContext x []) w) = Inl NoFuel"
    if "x \<in> {ver 1 5 0, ver 1 6 0, ver 1 7 0}" for x
    using that
  proof (induction n arbitrary: x)
    case 0
    then show ?case by simp
  next
    case (Suc n)
    have "fst (handshake n ?cfg ?p (NewProtocolContext (if x = ver 1 6 0 then ver 1 5 0 else ver 1 6 0) []) w) = Inl NoFuel"
      by (rule Suc.IH) simp
    then show ?case by (simp add: bindP_def r [OF Suc.prems])
  qed
  then show ?thesis by simp
qed

end
