(* ===== verification/Reliable.thy ===== *)
theory Reliable
  imports Effects
begin

text \<open>
  reliable_channel.go: one logical channel over the addresses of a cluster. A connection, the
  supplier of addresses and the shuffling are parameters; the world they act on is threaded. The
  loops of send and currentChannel have no bound in the code and take a budget here. The mutex
  makes initConnection one step.
\<close>

section \<open>State\<close>

record ('c, 'w, 'q) net =
  connectTo :: "string \<Rightarrow> 'w \<Rightarrow> (gerror + 'c) \<times> 'w"
  addrOfCh :: "'c \<Rightarrow> string"
  chClosed :: "'c \<Rightarrow> 'w \<Rightarrow> bool"
  sendOn :: "'c \<Rightarrow> 'q \<Rightarrow> 'w \<Rightarrow> (gerror + byte list) \<times> 'w"
  addressesOf :: "'w \<Rightarrow> (gerror + string list) \<times> 'w"
  shuffled :: "string list \<Rightarrow> string list"
  closeCh :: "'c \<Rightarrow> 'w \<Rightarrow> 'w"
  retryLimit :: int
  shuffleAddresses :: bool

text \<open>\<open>sentOn\<close> records the channels on which requests were sent; the code has no such field.\<close>

record ('c, 'w) reliableChannel =
  currCh :: "'c option"
  attemptsLimit :: int
  relClosed :: bool
  sentOn :: "'c list"
  outside :: 'w

section \<open>Operations\<close>

text \<open>errors.As follows wrapped errors; a ClientConnectionError does not unwrap.\<close>

fun isConnectionError :: "gerror \<Rightarrow> bool" where
  "isConnectionError (ErrWrap m e) = isConnectionError e"
| "isConnectionError (ClientConnectionError m e) = True"
| "isConnectionError _ = False"

fun isHandshakeError :: "gerror \<Rightarrow> bool" where
  "isHandshakeError (ErrWrap m e) = isHandshakeError e"
| "isHandshakeError (ClientAuthenticationError m) = True"
| "isHandshakeError (ClientProtocolError m) = True"
| "isHandshakeError _ = False"

definition connectionFailed :: "gerror option \<Rightarrow> gerror" where
  "connectionFailed err = (case err of
     Some e \<Rightarrow> if isConnectionError e \<or> isHandshakeError e then e
               else ClientConnectionError ''connection failed to channels'' (Some e)
   | None \<Rightarrow> ClientConnectionError ''connection failed to channels'' None)"

definition limitFor :: "('c, 'w, 'q) net \<Rightarrow> string list \<Rightarrow> int" where
  "limitFor net addrs =
     (if retryLimit net > 0 \<and> retryLimit net < int (length addrs) then retryLimit net else int (length addrs))"

text \<open>The loop over the addresses: that of the old connection is passed over.\<close>

fun tryAddresses :: "('c, 'w, 'q) net \<Rightarrow> int \<Rightarrow> 'c option \<Rightarrow> string list \<Rightarrow> gerror option \<Rightarrow>
    ('c, 'w) reliableChannel \<Rightarrow> gerror option \<times> ('c, 'w) reliableChannel" where
  "tryAddresses net limit old [] err s = (Some (connectionFailed err), s)"
| "tryAddresses net limit old (a # as) err s =
     (if old \<noteq> None \<and> addrOfCh net (the old) = a then tryAddresses net limit old as err s
      else case connectTo net a (outside s) of
        (Inr ch, w) \<Rightarrow> (None, s\<lparr>attemptsLimit := limit, currCh := Some ch, outside := w\<rparr>)
      | (Inl e, w) \<Rightarrow>
          if as = [] \<or> \<not> isConnectionError e then (Some (connectionFailed (Some e)), s\<lparr>outside := w\<rparr>)
          else tryAddresses net limit old as (Some e) (s\<lparr>outside := w\<rparr>))"

definition initConnection :: "('c, 'w, 'q) net \<Rightarrow> ('c, 'w) reliableChannel \<Rightarrow> gerror option \<times> ('c, 'w) reliableChannel" where
  "initConnection net s =
     (if currCh s \<noteq> None \<and> \<not> chClosed net (the (currCh s)) (outside s) then (None, s)
      else case addressesOf net (outside s) of
        (Inl e, w) \<Rightarrow> (Some (ErrWrap ''failed to obtain addresses'' e), s\<lparr>outside := w\<rparr>)
      | (Inr addrs, w) \<Rightarrow>
          if addrs = [] then (Some (ErrMsg ''addresses are empty''), s\<lparr>outside := w\<rparr>)
          else tryAddresses net (limitFor net addrs) (currCh s)
                 (if length addrs > 1 \<and> shuffleAddresses net then shuffled net addrs else addrs)
                 None (s\<lparr>outside := w\<rparr>))"

primrec connectLoop :: "nat \<Rightarrow> ('c, 'w, 'q) net \<Rightarrow> (('c, 'w) reliableChannel, 'c) prog" where
  "connectLoop 0 net = (\<lambda>s. (Inl NoFuel, s))"
| "connectLoop (Suc n) net = (\<lambda>s.
     if currCh s \<noteq> None \<and> \<not> chClosed net (the (currCh s)) (outside s) then (Inr (the (currCh s)), s)
     else case initConnection net s of
       (Some e, s) \<Rightarrow> (Inl (Fail e), s)
     | (None, s) \<Rightarrow> connectLoop n net s)"

definition currentChannel :: "nat \<Rightarrow> ('c, 'w, 'q) net \<Rightarrow> (('c, 'w) reliableChannel, 'c) prog" where
  "currentChannel n net = (\<lambda>s.
     if relClosed s then (Inl (Fail (ErrMsg ''channel is closed'')), s) else connectLoop n net s)"

text \<open>One attempt after another; \<open>connectFailed\<close> is set by a connection error and never reset.
  What is returned is what the response reader of the caller is given.\<close>

primrec sendLoop :: "nat \<Rightarrow> ('c, 'w, 'q) net \<Rightarrow> 'q \<Rightarrow> bool \<Rightarrow> int \<Rightarrow> (('c, 'w) reliableChannel, byte list) prog" where
  "sendLoop 0 net q connectFailed attemptsCnt = (\<lambda>s. (Inl NoFuel, s))"
| "sendLoop (Suc n) net q connectFailed attemptsCnt = (\<lambda>s.
     case currentChannel (Suc n) net s of
       (Inl e, s) \<Rightarrow> (Inl e, s)
     | (Inr ch, s) \<Rightarrow>
         (let attemptsLim = attemptsLimit s;
              attemptsCnt = attemptsCnt + 1
          in case net.sendOn net ch q (outside s) of (r, w) \<Rightarrow>
             (let s = s\<lparr>sentOn := sentOn s @ [ch], outside := w\<rparr>;
                  connectFailed = (connectFailed \<or> (case r of Inl e \<Rightarrow> isConnectionError e | Inr _ \<Rightarrow> False))
              in if \<not> connectFailed \<or> attemptsCnt = attemptsLim
                 then (case r of Inl e \<Rightarrow> Inl (Fail e) | Inr bs \<Rightarrow> Inr bs, s)
                 else sendLoop n net q connectFailed attemptsCnt s)))"

definition reliableSend :: "nat \<Rightarrow> ('c, 'w, 'q) net \<Rightarrow> 'q \<Rightarrow> (('c, 'w) reliableChannel, byte list) prog" where
  "reliableSend n net q = (\<lambda>s.
     if relClosed s then (Inl (Fail (ClientConnectionError ''channel is closed'' None)), s)
     else sendLoop n net q False 0 s)"

definition closeReliable :: "('c, 'w, 'q) net \<Rightarrow> ('c, 'w) reliableChannel \<Rightarrow> ('c, 'w) reliableChannel" where
  "closeReliable net s =
     (if relClosed s then s
      else s\<lparr>relClosed := True,
             outside := (case currCh s of None \<Rightarrow> outside s | Some ch \<Rightarrow> closeCh net ch (outside s))\<rparr>)"

definition createReliableChannel :: "('c, 'w, 'q) net \<Rightarrow> 'w \<Rightarrow> (gerror + ('c, 'w) reliableChannel) \<times> 'w" where
  "createReliableChannel net w =
     (case initConnection net \<lparr>currCh = None, attemptsLimit = 0, relClosed = False, sentOn = [], outside = w\<rparr> of
        (Some e, s) \<Rightarrow> (Inl e, outside s) | (None, s) \<Rightarrow> (Inr s, outside s))"

section \<open>Lemmas\<close>

text \<open>A cluster whose number of addresses does not change, and whose fresh connections are open.\<close>

definition steady :: "('c, 'w, 'q) net \<Rightarrow> int \<Rightarrow> bool" where
  "steady net L \<longleftrightarrow> 1 \<le> L \<and>
     (\<forall>w. case fst (addressesOf net w) of Inl _ \<Rightarrow> True | Inr as \<Rightarrow> as \<noteq> [] \<longrightarrow> limitFor net as = L) \<and>
     (\<forall>a w. case connectTo net a w of (Inr ch, w') \<Rightarrow> \<not> chClosed net ch w' | _ \<Rightarrow> True)"

definition usable :: "('c, 'w, 'q) net \<Rightarrow> int \<Rightarrow> ('c, 'w) reliableChannel \<Rightarrow> bool" where
  "usable net L s \<longleftrightarrow> attemptsLimit s = L \<and> currCh s \<noteq> None \<and> \<not> chClosed net (the (currCh s)) (outside s)"

lemma tryAddresses_spec:
  assumes "steady net L"
  shows "tryAddresses net L old as err s = (r, t) \<Longrightarrow>
    sentOn t = sentOn s \<and> (r = None \<longrightarrow> usable net L t) \<and> (r \<noteq> None \<longrightarrow> currCh t = currCh s \<and> attemptsLimit t = attemptsLimit s)"
proof (induction as arbitrary: err s)
  case Nil
  then show ?case by auto
next
  case (Cons a as)
  show ?case
  proof (cases "old \<noteq> None \<and> addrOfCh net (the old) = a")
    case True
    then have "tryAddresses net L old as err s = (r, t)" using Cons.prems by simp
    from Cons.IH [OF this] show ?thesis .
  next
    case False
    obtain x w where c: "connectTo net a (outside s) = (x, w)" by (cases "connectTo net a (outside s)")
    show ?thesis
    proof (cases x)
      case (Inl e)
      show ?thesis
      proof (cases "as = [] \<or> \<not> isConnectionError e")
        case True
        then show ?thesis using Cons.prems False c Inl by auto
      next
        case no: False
        then have "tryAddresses net L old as (Some e) (s\<lparr>outside := w\<rparr>) = (r, t)"
          using Cons.prems False c Inl by auto
        from Cons.IH [OF this] show ?thesis by simp
      qed
    next
      case (Inr ch)
      have "\<not> chClosed net ch w"
        using assms c Inr unfolding steady_def by (auto dest!: spec [of _ a] spec [of _ "outside s"])
      then show ?thesis using Cons.prems False c Inr by (auto simp: usable_def)
    qed
  qed
qed

lemma initConnection_spec:
  assumes "steady net L" and "initConnection net s = (r, t)"
    and "currCh s \<noteq> None \<Longrightarrow> attemptsLimit s = L"
  shows "sentOn t = sentOn s \<and> (r = None \<longrightarrow> usable net L t) \<and> (currCh t \<noteq> None \<longrightarrow> attemptsLimit t = L)"
proof (cases "currCh s \<noteq> None \<and> \<not> chClosed net (the (currCh s)) (outside s)")
  case True
  then show ?thesis using assms(2,3) by (auto simp: initConnection_def usable_def)
next
  case False
  obtain x w where a: "addressesOf net (outside s) = (x, w)" by (cases "addressesOf net (outside s)")
  have lim: "limitFor net as = L" if "x = Inr as" "as \<noteq> []" for as
    using assms(1) a that unfolding steady_def by (auto dest!: spec [of _ "outside s"])
  show ?thesis
  proof (cases x)
    case (Inl e)
    then have "r \<noteq> None" "t = s\<lparr>outside := w\<rparr>" using assms(2) a False by (auto simp: initConnection_def)
    then show ?thesis using assms(3) by auto
  next
    case (Inr as)
    show ?thesis
    proof (cases "as = []")
      case True
      then have "r \<noteq> None" "t = s\<lparr>outside := w\<rparr>" using assms(2) a False Inr by (auto simp: initConnection_def)
      then show ?thesis using assms(3) by auto
    next
      case no: False
      have "tryAddresses net L (currCh s) (if length as > 1 \<and> shuffleAddresses net then shuffled net as else as) None
          (s\<lparr>outside := w\<rparr>) = (r, t)"
        using assms(2) a False Inr no lim [OF Inr no] by (auto simp: initConnection_def)
      from tryAddresses_spec [OF assms(1) this] show ?thesis using assms(3) by (cases r) (auto simp: usable_def)
    qed
  qed
qed

text \<open>Two rounds of currentChannel are enough.\<close>

lemma currentChannel_spec:
  assumes "steady net L" and "currentChannel (Suc (Suc n)) net s = (r, t)"
    and "currCh s \<noteq> None \<Longrightarrow> attemptsLimit s = L"
  shows "r \<noteq> Inl NoFuel \<and> sentOn t = sentOn s \<and> (currCh t \<noteq> None \<longrightarrow> attemptsLimit t = L) \<and>
    (\<forall>ch. r = Inr ch \<longrightarrow> attemptsLimit t = L)"
proof (cases "relClosed s \<or> (currCh s \<noteq> None \<and> \<not> chClosed net (the (currCh s)) (outside s))")
  case True
  then show ?thesis using assms(2,3) by (auto simp: currentChannel_def split: if_splits)
next
  case False
  obtain x u where i: "initConnection net s = (x, u)" by (cases "initConnection net s")
  note spec = initConnection_spec [OF assms(1) i assms(3)]
  show ?thesis
  proof (cases x)
    case (Some e)
    then have "r = Inl (Fail e)" "t = u" using assms(2) False i by (auto simp: currentChannel_def)
    then show ?thesis using spec by simp
  next
    case None
    then have "usable net L u" using spec by simp
    then have "r = Inr (the (currCh u))" "t = u"
      using assms(2) False i None by (auto simp: currentChannel_def usable_def)
    then show ?thesis using spec \<open>usable net L u\<close> by (simp add: usable_def)
  qed
qed

lemma sendLoop_bound:
  assumes "steady net L"
  shows "1 \<le> L - cnt \<Longrightarrow> nat (L - cnt) < n \<Longrightarrow> (currCh s \<noteq> None \<Longrightarrow> attemptsLimit s = L) \<Longrightarrow>
    sendLoop n net q cf cnt s = (r, t) \<Longrightarrow>
    r \<noteq> Inl NoFuel \<and> length (sentOn t) \<le> length (sentOn s) + nat (L - cnt)"
proof (induction n arbitrary: cf cnt s)
  case 0
  then show ?case by simp
next
  case (Suc n)
  then obtain m where m: "n = Suc m" by (cases n) auto
  obtain x u where c: "currentChannel (Suc n) net s = (x, u)" by (cases "currentChannel (Suc n) net s")
  note spec = currentChannel_spec [OF assms c [unfolded m] Suc.prems(3)]
  show ?case
  proof (cases x)
    case (Inl f)
    then have "r = Inl f" "t = u" using Suc.prems(4) c by auto
    then show ?thesis using spec Inl by auto
  next
    case (Inr ch)
    obtain y w where y: "net.sendOn net ch q (outside u) = (y, w)" by (cases "net.sendOn net ch q (outside u)")
    define u' where "u' = u\<lparr>sentOn := sentOn u @ [ch], outside := w\<rparr>"
    define cf' where "cf' = (cf \<or> (case y of Inl e \<Rightarrow> isConnectionError e | Inr _ \<Rightarrow> False))"
    have lim: "attemptsLimit u = L" using spec Inr by blast
    have run: "(if \<not> cf' \<or> cnt + 1 = L then (case y of Inl e \<Rightarrow> Inl (Fail e) | Inr bs \<Rightarrow> Inr bs, u')
       else sendLoop n net q cf' (cnt + 1) u') = (r, t)"
      using Suc.prems(4) by (simp only: sendLoop.simps c Inr prod.case sum.case y Let_def lim u'_def cf'_def)
    show ?thesis
    proof (cases "\<not> cf' \<or> cnt + 1 = L")
      case True
      then have "t = u'" "r \<noteq> Inl NoFuel" using run by (auto split: sum.splits)
      then show ?thesis using spec Suc.prems(1) by (simp add: u'_def)
    next
      case False
      then have "sendLoop n net q cf' (cnt + 1) u' = (r, t)" using run by simp
      moreover have "1 \<le> L - (cnt + 1)" "nat (L - (cnt + 1)) < n" using False Suc.prems(1,2) by auto
      moreover have "attemptsLimit u' = L" using lim by (simp add: u'_def)
      ultimately have "r \<noteq> Inl NoFuel \<and> length (sentOn t) \<le> length (sentOn u') + nat (L - (cnt + 1))"
        by (intro Suc.IH) auto
      then show ?thesis using spec Suc.prems(1) by (auto simp: u'_def)
    qed
  qed
qed

section \<open>Properties\<close>

text \<open>C17 An operation is sent at most once for each attempt that is allowed, and send returns: on a
  cluster whose number of addresses stays the same and whose fresh connections are open, a
  budget above the limit of attempts is not used up, and no more requests than the limit are sent.\<close>

theorem send_attempts_bounded:
  assumes "steady net L" and "currCh s \<noteq> None \<Longrightarrow> attemptsLimit s = L" and "nat L < n"
  shows "fst (reliableSend n net q s) \<noteq> Inl NoFuel \<and>
    length (sentOn (snd (reliableSend n net q s))) \<le> length (sentOn s) + nat L"
proof (cases "relClosed s")
  case True
  then show ?thesis by (simp add: reliableSend_def)
next
  case False
  obtain r t where r: "sendLoop n net q False 0 s = (r, t)" by (cases "sendLoop n net q False 0 s")
  have "1 \<le> L" using assms(1) by (simp add: steady_def)
  then show ?thesis using sendLoop_bound [OF assms(1) _ _ _ r] assms(2,3) r False by (simp add: reliableSend_def)
qed

text \<open>On an open connection that answers, with a result or an error of the server, an operation
  is sent once and the answer is handed on as it is.\<close>

theorem healthy_send_once:
  assumes "\<not> relClosed s" and "currCh s = Some ch" and "\<not> chClosed net ch (outside s)"
    and "net.sendOn net ch q (outside s) = (r, w)" and "\<And>e. r = Inl e \<Longrightarrow> \<not> isConnectionError e"
  shows "reliableSend (Suc n) net q s =
    ((case r of Inl e \<Rightarrow> Inl (Fail e) | Inr bs \<Rightarrow> Inr bs), s\<lparr>sentOn := sentOn s @ [ch], outside := w\<rparr>)"
  using assms by (auto simp: reliableSend_def currentChannel_def Let_def split: sum.split)

text \<open>A client of one node does not come back: when the only address is that of the connection
  that was lost, no connection is tried, every operation fails, and nothing changes.\<close>

theorem lost_single_node_is_final:
  assumes "currCh s = Some ch" and "chClosed net ch (outside s)" and "\<not> relClosed s"
    and "addressesOf net (outside s) = (Inr [addrOfCh net ch], outside s)"
  shows "reliableSend (Suc n) net q s = (Inl (Fail (ClientConnectionError ''connection failed to channels'' None)), s)"
  using assms by (simp add: reliableSend_def currentChannel_def initConnection_def connectionFailed_def)

text \<open>
  Three nodes; the world counts what they carried out. The connection to the first is lost when
  the request is sent, the others carry it out.
\<close>

definition sampleNet :: "(nat, nat \<times> bool, unit) net" where
  "sampleNet = \<lparr>connectTo = (\<lambda>a w. (if length a = 1 \<and> snd w then Inl (ClientConnectionError ''refused'' None) else Inr (length a), w)), addrOfCh = (\<lambda>ch. replicate ch CHR ''a''),
     chClosed = (\<lambda>ch w. ch = 1 \<and> snd w),
     sendOn = (\<lambda>ch q w. if ch = 1 then (Inl (ClientConnectionError ''connection error'' None), (fst w, True))
       else (Inr [1], (fst w + 1, snd w))),
     addressesOf = (\<lambda>w. (Inr [''a'', ''aa'', ''aaa''], w)), shuffled = (\<lambda>as. as), closeCh = (\<lambda>ch w. w),
     retryLimit = 0, shuffleAddresses = False\<rparr>"

definition sampleClient :: "(nat, nat \<times> bool) reliableChannel" where
  "sampleClient = \<lparr>currCh = Some 1, attemptsLimit = 3, relClosed = False, sentOn = [], outside = (0, False)\<rparr>"

text \<open>After one lost connection an operation is repeated although it succeeded: connectFailed is
  not reset, so the answer of the second attempt is dropped and the operation sent again until
  the limit of attempts; one call is carried out twice.\<close>

theorem send_repeats_after_success:
  "reliableSend 4 sampleNet () sampleClient = (Inr [1], sampleClient\<lparr>currCh := Some 2, sentOn := [1, 2, 2], outside := (2, True)\<rparr>)"
  by (simp add: reliableSend_def currentChannel_def initConnection_def sampleNet_def sampleClient_def Let_def limitFor_def
      eval_nat_numeral)

lemma sampleNet_steady: "steady sampleNet 3"
  unfolding steady_def sampleNet_def by (auto simp: limitFor_def length_Suc_conv)

theorem send_attempts_bounded_witness:
  "length (sentOn (snd (reliableSend 4 sampleNet () sampleClient))) \<le> 3"
  using send_attempts_bounded [OF sampleNet_steady, of sampleClient 4 "()"] by (simp add: sampleClient_def)

theorem healthy_send_once_witness:
  "reliableSend 1 sampleNet () (sampleClient\<lparr>currCh := Some 2\<rparr>)
     = (Inr [1], sampleClient\<lparr>currCh := Some 2, sentOn := [2], outside := (1, False)\<rparr>)"
  using healthy_send_once [of "sampleClient\<lparr>currCh := Some 2\<rparr>" 2 sampleNet "()" "Inr [1]" "(1, False)" 0]
  by (simp add: sampleNet_def sampleClient_def)

theorem lost_single_node_is_final_witness:
  "let net = sampleNet\<lparr>addressesOf := (\<lambda>w. (Inr [''a''], w))\<rparr>; s = sampleClient\<lparr>outside := (0, True)\<rparr>
   in reliableSend 1 net () s = (Inl (Fail (ClientConnectionError ''connection failed to channels'' None)), s)"
  using lost_single_node_is_final [of "sampleClient\<lparr>outside := (0, True)\<rparr>" 1
      "sampleNet\<lparr>addressesOf := (\<lambda>w. (Inr [''a''], w))\<rparr>" 0 "()"]
  by (simp add: sampleNet_def sampleClient_def)

end
