(* ===== verification/Ops.thy ===== *)
theory Ops
  imports MarshalRT Proto
begin

text \<open>
  What the operations of the client are made of: a channel as they see it (the interface
  channel of client.go), the client, the transaction a context carries, and one request with
  its response. A channel is a parameter: the bytes of a request go in, an error or the bytes of
  the response come out. How a connection moves them is the subject of Packet, Channel and
  Reliable.
\<close>

section \<open>State\<close>

record 'w link =
  linkServer :: "'w server"
  linkProto :: ProtocolContext

record ('d, 'w) client =
  cliCh :: "'w link"
  cliEnv :: "('d, 'w) env"

record 'w txSession =
  txId :: i32
  txCh :: "'w link"

text \<open>The value of a context under txKey: none outside of transactions.\<close>

type_synonym 'w ctx = "'w txSession option"

section \<open>One request\<close>

definition callLink :: "'w server \<Rightarrow> i16 \<Rightarrow> byte list \<Rightarrow> ('w, byte list) prog" where
  "callLink srv opCode bs = (\<lambda>w. case srv opCode bs w of (Inl e, w') \<Rightarrow> (Inl (Fail e), w') | (Inr r, w') \<Rightarrow> (Inr r, w'))"

definition sendOp :: "'w link \<Rightarrow> i16 \<Rightarrow> 'w registry mwriter \<Rightarrow> ('w registry, 'a) mreader \<Rightarrow> ('w registry, 'a) prog" where
  "sendOp ch opCode request response =
     bindP (request (NewBinaryOutputStream 0)) (\<lambda>bw.
     bindP (onServer (callLink (linkServer ch) opCode (Data bw))) (\<lambda>bs.
     bindP (response (NewBinaryInputStream bs 0)) (\<lambda>(x, _). returnP x)))"

definition emptyRequest :: "'s mwriter" where
  "emptyRequest = liftW skipW"

definition noResponse :: "('s, unit) mreader" where
  "noResponse = returnMR ()"

text \<open>One value of the response. The budget passes the number of bytes, so that it is never used up.\<close>

definition readValue :: "('d, 'w) env \<Rightarrow> ('w registry, 'd goval) mreader" where
  "readValue env = (\<lambda>br. unmarshal env (Suc (length (ibuf br))) br)"

section \<open>Sequences\<close>

primrec eachMW :: "('a \<Rightarrow> 's mwriter) \<Rightarrow> 'a list \<Rightarrow> 's mwriter" where
  "eachMW f [] = liftW skipW"
| "eachMW f (x # xs) = thenMW (f x) (eachMW f xs)"

definition writeListM :: "('a \<Rightarrow> 's mwriter) \<Rightarrow> 'a list \<Rightarrow> 's mwriter" where
  "writeListM f xs = thenMW (liftW (WriteInt32 (word_of_nat (length xs)))) (eachMW f xs)"

section \<open>Lemmas\<close>

declare seqW.simps [simp del] unmarshal.simps [simp del]

text \<open>The bytes of a composed writer, part by part.\<close>

lemmas writes_parts = writes_seq_Cons writes_seq_Nil writes_then writes_skip writes_i64 writes_i32 writes_i16
  writes_prims writes_type

lemma callLink_Inr: "srv opCode bs w = (Inr r, w') \<Longrightarrow> callLink srv opCode bs w = (Inr r, w')"
  by (simp add: callLink_def)

lemma callLink_Inl: "srv opCode bs w = (Inl e, w') \<Longrightarrow> callLink srv opCode bs w = (Inl (Fail e), w')"
  by (simp add: callLink_def)

lemma mwritesD: "mwrites f bs \<Longrightarrow> wf_out bw \<Longrightarrow> f bw s = (put bs bw, s)"
  by (simp add: mwrites_def)

lemma mwrites_fresh:
  assumes "mwrites f bs" and "length bs \<le> maxInt32"
  shows "\<exists>bw. f (NewBinaryOutputStream n) s = (Inr bw, s) \<and> Data bw = bs"
proof -
  obtain bw where "put bs (NewBinaryOutputStream n) = Inr bw" "Data bw = bs"
    using put_ok [OF wf_out_New, of n bs] assms(2) by (auto simp: NewBinaryOutputStream_def Data_def)
  then show ?thesis using assms(1) wf_out_New by (simp add: mwrites_def)
qed

text \<open>What a request is to the world: when the writer emits known bytes and the server answers
  them with bytes the reader accepts, only the world changes.\<close>

lemma sendOp_run:
  assumes "mwrites request bs" and "length bs \<le> maxInt32"
    and "linkServer ch opCode bs (world s) = (Inr (rs @ rest), w)" and "mreads response rs x"
  shows "sendOp ch opCode request response s = (Inr x, s\<lparr>world := w\<rparr>)"
proof -
  obtain bw where bw: "request (NewBinaryOutputStream 0) s = (Inr bw, s)" "Data bw = bs"
    using mwrites_fresh [OF assms(1,2)] by blast
  have "response (NewBinaryInputStream (rs @ rest) 0) (s\<lparr>world := w\<rparr>)
      = (Inr (x, \<lparr>ibuf = rs @ rest, ioff = 0, ipos = length rs\<rparr>), s\<lparr>world := w\<rparr>)"
    using mreadsD [OF assms(4), of "[]" rest] by (simp add: NewBinaryInputStream_def)
  then show ?thesis
    using bw callLink_Inr [of "linkServer ch" opCode bs "world s" "rs @ rest" w] assms(3)
    by (simp add: sendOp_def bindP_def onServer_def)
qed

lemma sendOp_error:
  assumes "mwrites request bs" and "length bs \<le> maxInt32"
    and "linkServer ch opCode bs (world s) = (Inl e, w)"
  shows "sendOp ch opCode request response s = (Inl (Fail e), s\<lparr>world := w\<rparr>)"
proof -
  obtain bw where bw: "request (NewBinaryOutputStream 0) s = (Inr bw, s)" "Data bw = bs"
    using mwrites_fresh [OF assms(1,2)] by blast
  then show ?thesis
    using callLink_Inl [of "linkServer ch" opCode bs "world s" e w] assms(3)
    by (simp add: sendOp_def bindP_def onServer_def)
qed

lemma sendOp_request_fails:
  "request (NewBinaryOutputStream 0) s = (Inl f, s') \<Longrightarrow> sendOp ch opCode request response s = (Inl f, s')"
  by (simp add: sendOp_def bindP_def)

lemma mwrites_empty: "mwrites emptyRequest []"
  unfolding emptyRequest_def by (rule mwrites_lift [OF writes_skip])

lemma mreads_noResponse: "mreads noResponse [] ()"
  unfolding noResponse_def by (rule mreads_return)

lemma mwrites_each:
  "(\<And>x. x \<in> set xs \<Longrightarrow> mwrites (f x) (enc x)) \<Longrightarrow> mwrites (eachMW f xs) (concat (map enc xs))"
  by (induction xs) (simp_all add: mwrites_lift writes_skip mwrites_then)

lemma mwrites_listM:
  "(\<And>x. x \<in> set xs \<Longrightarrow> mwrites (f x) (enc x)) \<Longrightarrow>
    mwrites (writeListM f xs) (lenBytes (length xs) @ concat (map enc xs))"
  unfolding writeListM_def by (intro mwrites_then mwrites_lift writes_len mwrites_each)

lemma mreads_readValue:
  assumes "apd_ok (envApd env) fin" and "plain (envApd env) fin v"
  shows "mreads (readValue env) (encode (envApd env) v) (canon v)"
  unfolding mreads_def readValue_def
proof (intro allI)
  fix pre post :: "byte list" and off s
  let ?e = "encode (envApd env) v"
  have "mreads (unmarshal env (Suc (length (pre @ ?e @ post)))) ?e (canon v)"
    by (rule mreads_unmarshal [OF assms]) simp
  from mreadsD [OF this, of pre post off s]
  show "unmarshal env (Suc (length (ibuf \<lparr>ibuf = pre @ ?e @ post, ioff = off, ipos = length pre\<rparr>)))
      \<lparr>ibuf = pre @ ?e @ post, ioff = off, ipos = length pre\<rparr> s =
    (Inr (canon v, \<lparr>ibuf = pre @ ?e @ post, ioff = off, ipos = length pre + length ?e\<rparr>), s)"
    by simp
qed

lemma put_backpatch:
  assumes "wf_out bw" and "put (h0 @ body) bw = Inr bw'" and "length h = length h0"
  shows "bindE (SetPositionO (opos bw) bw') (\<lambda>b. bindE (put h b) (SetPositionO (opos bw'))) = put (h @ body) bw"
proof -
  have p: "opos bw \<le> length (obuf bw)" using assms(1) by (simp add: wf_out_def)
  have "overwrite (opos bw) h (overwrite (opos bw) (h0 @ body) (obuf bw)) = overwrite (opos bw) (h @ body) (obuf bw)"
    using p assms(3) by (simp add: overwrite_def min_def)
  then show ?thesis using assms by (auto simp: put_def SetPositionO_def split: if_splits)
qed

text \<open>A length written over the four bytes reserved for it, once the body is known.\<close>

lemma backpatch_run:
  assumes wf: "wf_out bw" and f: "f bw s = (put (h0 @ body) bw, s)" and h0: "length h0 = 4"
    and g: "g (opos bw + 4 + length body) = v"
  shows "bindP (f bw) (\<lambda>bw'. liftW (seqW [SetPositionO (opos bw), WriteInt32 (g (opos bw')), SetPositionO (opos bw')]) bw') s
    = (put (encI32 v @ body) bw, s)"
proof (cases "put (h0 @ body) bw")
  case (Inl e)
  then have "put (encI32 v @ body) bw = Inl e" using h0 by (auto simp: put_def split: if_splits)
  then show ?thesis using f Inl by (simp add: bindP_def)
next
  case (Inr bw')
  then have pos: "opos bw' = opos bw + 4 + length body" using h0 by (auto simp: put_def split: if_splits)
  have "wf_out bw'" by (rule wf_out_put [OF wf Inr])
  then have wf': "wf_out (bw'\<lparr>opos := opos bw\<rparr>)" using pos by (simp add: wf_out_def)
  have "seqW [SetPositionO (opos bw), WriteInt32 v, SetPositionO (opos bw')] bw'
      = bindE (SetPositionO (opos bw) bw') (\<lambda>b. bindE (put (encI32 v) b) (SetPositionO (opos bw')))"
    using writesD [OF writes_i32(1) wf']
    by (cases "put (encI32 v) (bw'\<lparr>opos := opos bw\<rparr>)") (simp_all add: seqW.simps thenW_def SetPositionO_def skipW_def)
  also have "\<dots> = put (encI32 v @ body) bw"
    by (rule put_backpatch [OF wf Inr]) (use h0 in simp)
  finally show ?thesis using f Inr g pos by (simp add: bindP_def liftW_def liftP_def)
qed

lemma mwrites_backpatch:
  assumes "mwrites f (h0 @ body)" and "length h0 = 4" and "\<And>p. g p (p + 4 + length body) = v"
  shows "mwrites (\<lambda>bw. bindP (f bw) (\<lambda>bw'. liftW (seqW [SetPositionO (opos bw),
      WriteInt32 (g (opos bw) (opos bw')), SetPositionO (opos bw')]) bw')) (encI32 v @ body)"
  unfolding mwrites_def
  by (intro allI impI backpatch_run [where g = "g (opos _)", OF _ mwritesD [OF assms(1)]] assms)

text \<open>Bytes reserved, whatever they hold.\<close>

lemma reserve_run:
  assumes "wf_out bw"
  obtains h0 where "length h0 = n" "bindE (EnsureAvailable n bw) (SetPositionO (opos bw + n)) = put h0 bw"
proof -
  define h where "h = take n (drop (opos bw) (obuf bw) @ replicate n 0)"
  have len: "length h = n" by (simp add: h_def)
  have "bindE (EnsureAvailable n bw) (SetPositionO (opos bw + n)) = put h bw"
  proof (cases "AvailableO bw < int n")
    case True
    then obtain k where "length (obuf bw) = opos bw + k" "k < n"
      using assms le_Suc_ex by (fastforce simp: AvailableO_def wf_out_def)
    then have "take (opos bw) (obuf bw) @ h = take (opos bw + n) (obuf bw) @ replicate (opos bw + n - length (obuf bw)) 0"
      "drop (opos bw + n) (obuf bw) = []"
      by (simp_all add: h_def flip: append_assoc)
    then show ?thesis using True len
      by (auto simp: EnsureAvailable_def SetPositionO_def put_def overwrite_def)
  next
    case False
    then have h: "h = take n (drop (opos bw) (obuf bw))" by (simp add: AvailableO_def h_def)
    have "drop (opos bw + n) (obuf bw) = drop n (drop (opos bw) (obuf bw))" by (simp add: add.commute)
    then have "take (opos bw) (obuf bw) @ h @ drop (opos bw + n) (obuf bw) = obuf bw"
      unfolding h by (simp only: append_take_drop_id)
    then show ?thesis using False len
      by (auto simp: EnsureAvailable_def SetPositionO_def put_def overwrite_def)
  qed
  with len show ?thesis by (rule that)
qed

lemma reserve_four:
  assumes "wf_out bw"
  obtains h0 where "length h0 = 4" "seqW [EnsureAvailable 4, SetPositionO (opos bw + 4)] bw = put h0 bw"
proof -
  obtain h0 where "length h0 = 4" "bindE (EnsureAvailable 4 bw) (SetPositionO (opos bw + 4)) = put h0 bw"
    using reserve_run [OF assms, of 4] by blast
  moreover have "seqW [EnsureAvailable 4, SetPositionO (opos bw + 4)] bw = bindE (EnsureAvailable 4 bw) (SetPositionO (opos bw + 4))"
    by (simp add: seqW.simps thenW_def skipW_def bindE_def SetPositionO_def split: sum.split)
  ultimately show ?thesis by (intro that) simp_all
qed

end
