(* ===== verification/Cache.thy ===== *)
theory Cache
  imports Ops
begin

text \<open>
  cache.go: expiry policies, the head of every request to a cache, and the operations of a
  cache. Each operation is the request it writes and the response it reads over the channel of
  the cache, or of the transaction that the context carries. A result beside an error (the pairs
  GetAll read before it failed) is not kept.
\<close>

section \<open>Constants and state\<close>

definition DurationUnchanged :: i64 where "DurationUnchanged = - 2"
definition DurationEternal :: i64 where "DurationEternal = - 1"
definition DurationZero :: i64 where "DurationZero = 0"

datatype CachePeekMode = PeekAll | PeekNear | PeekPrimary | PeekBackup | PeekOnHeap | PeekOffHeap

fun peekCode :: "CachePeekMode \<Rightarrow> byte" where
  "peekCode PeekAll = 0" | "peekCode PeekNear = 1" | "peekCode PeekPrimary = 2"
| "peekCode PeekBackup = 3" | "peekCode PeekOnHeap = 4" | "peekCode PeekOffHeap = 5"

definition keepBinaryMask :: byte where "keepBinaryMask = 0x01"
definition transactionalMask :: byte where "transactionalMask = 0x02"
definition expiryPolicyMask :: byte where "expiryPolicyMask = 0x04"

definition opCacheGet :: i16 where "opCacheGet = 1000"
definition opCachePut :: i16 where "opCachePut = 1001"
definition opCachePutIfAbsent :: i16 where "opCachePutIfAbsent = 1002"
definition opCacheGetAll :: i16 where "opCacheGetAll = 1003"
definition opCachePutAll :: i16 where "opCachePutAll = 1004"
definition opCacheGetAndPut :: i16 where "opCacheGetAndPut = 1005"
definition opCacheGetAndReplace :: i16 where "opCacheGetAndReplace = 1006"
definition opCacheGetAndRemove :: i16 where "opCacheGetAndRemove = 1007"
definition opCacheGetAndPutIfAbsent :: i16 where "opCacheGetAndPutIfAbsent = 1008"
definition opCacheReplace :: i16 where "opCacheReplace = 1009"
definition opCacheReplaceIfEquals :: i16 where "opCacheReplaceIfEquals = 1010"
definition opCacheContainsKey :: i16 where "opCacheContainsKey = 1011"
definition opCacheContainsKeys :: i16 where "opCacheContainsKeys = 1012"
definition opCacheClear :: i16 where "opCacheClear = 1013"
definition opCacheClearKey :: i16 where "opCacheClearKey = 1014"
definition opCacheClearKeys :: i16 where "opCacheClearKeys = 1015"
definition opCacheRemoveKey :: i16 where "opCacheRemoveKey = 1016"
definition opCacheRemoveIfEquals :: i16 where "opCacheRemoveIfEquals = 1017"
definition opCacheRemoveKeys :: i16 where "opCacheRemoveKeys = 1018"
definition opCacheRemoveAll :: i16 where "opCacheRemoveAll = 1019"
definition opCacheGetSize :: i16 where "opCacheGetSize = 1020"
definition opCacheGetConfiguration :: i16 where "opCacheGetConfiguration = 1055"

text \<open>A duration is its count of nanoseconds.\<close>

record ExpiryPolicy =
  creation :: i64
  access :: i64
  expUpdate :: i64

record ('d, 'w) Cache =
  cacheCli :: "('d, 'w) client"
  cacheExpiry :: "ExpiryPolicy option"
  cacheName :: string
  cacheId :: i32

definition cacheEnv :: "('d, 'w) Cache \<Rightarrow> ('d, 'w) env" where
  "cacheEnv c = cliEnv (cacheCli c)"

definition newCache :: "('d, 'w) client \<Rightarrow> string \<Rightarrow> ('d, 'w) Cache" where
  "newCache cli name = \<lparr>cacheCli = cli, cacheExpiry = None, cacheName = name, cacheId = HashCode name\<rparr>"

definition CacheWithExpiryPolicy :: "i64 \<Rightarrow> i64 \<Rightarrow> i64 \<Rightarrow> ('d, 'w) Cache \<Rightarrow> ('d, 'w) Cache" where
  "CacheWithExpiryPolicy creationD accessD updateD c =
     \<lparr>cacheCli = cacheCli c,
      cacheExpiry = Some \<lparr>creation = creationD, access = accessD, expUpdate = updateD\<rparr>,
      cacheName = cacheName c, cacheId = cacheId c\<rparr>"

definition cacheChannel :: "'w ctx \<Rightarrow> ('d, 'w) Cache \<Rightarrow> 'w link" where
  "cacheChannel ctx c = (case ctx of None \<Rightarrow> cliCh (cacheCli c) | Some tx \<Rightarrow> txCh tx)"

section \<open>The head of a request\<close>

definition durationToMillis :: "i64 \<Rightarrow> i64" where
  "durationToMillis dur =
     (if 0 < sint dur then word_of_int (sint dur sdiv 1000000)
      else if sint dur \<le> sint DurationUnchanged then DurationUnchanged
      else dur)"

definition millisToDuration :: "i64 \<Rightarrow> i64" where
  "millisToDuration millis = (if 0 < sint millis then millis * 1000000 else millis)"

definition writeExpiry :: "ExpiryPolicy \<Rightarrow> writer" where
  "writeExpiry e = seqW
     [WriteInt64 (durationToMillis (creation e)),
      WriteInt64 (durationToMillis (expUpdate e)),
      WriteInt64 (durationToMillis (access e))]"

text \<open>The error comes after the id was written, as in the code.\<close>

definition writeCacheInfo :: "'w ctx \<Rightarrow> ProtocolContext \<Rightarrow> i32 \<Rightarrow> ExpiryPolicy option \<Rightarrow> bool \<Rightarrow> writer" where
  "writeCacheInfo ctx protoCtx cId expiry keepBinary =
     thenW (WriteInt32 cId)
       (if expiry \<noteq> None \<and> \<not> SupportsExpiryPolicy protoCtx
        then failW (ErrMsg ''expiry policies are not supported for protocol'')
        else
          let flag = (if keepBinary then keepBinaryMask else 0);
              flag = (if expiry \<noteq> None then flag OR expiryPolicyMask else flag);
              flag = (if ctx \<noteq> None then flag OR transactionalMask else flag)
          in seqW
            [WriteUInt8 flag,
             (if flag AND expiryPolicyMask \<noteq> 0 then (case expiry of Some e \<Rightarrow> writeExpiry e | None \<Rightarrow> skipW) else skipW),
             (if flag AND transactionalMask \<noteq> 0 then (case ctx of Some tx \<Rightarrow> WriteInt32 (txId tx) | None \<Rightarrow> skipW) else skipW)])"

definition cacheInfo :: "'w ctx \<Rightarrow> ('d, 'w) Cache \<Rightarrow> bool \<Rightarrow> 's mwriter" where
  "cacheInfo ctx c keepBinary =
     liftW (writeCacheInfo ctx (linkProto (cacheChannel ctx c)) (cacheId c) (cacheExpiry c) keepBinary)"

section \<open>Operations\<close>

text \<open>A request to the cache: its head, then what the operation writes.\<close>

definition cacheOp :: "'w ctx \<Rightarrow> ('d, 'w) Cache \<Rightarrow> i16 \<Rightarrow> 'w registry mwriter \<Rightarrow> ('w registry, 'a) mreader \<Rightarrow>
    ('w registry, 'a) prog" where
  "cacheOp ctx c opCode args response =
     sendOp (cacheChannel ctx c) opCode (thenMW (cacheInfo ctx c False) args) response"

definition nilKey :: gerror where "nilKey = ErrMsg ''nil key''"
definition nilValue :: gerror where "nilValue = ErrMsg ''nil value''"
definition nilOldValue :: gerror where "nilOldValue = ErrMsg ''nil oldValue''"
definition nilNewValue :: gerror where "nilNewValue = ErrMsg ''nil newValue''"

definition marshalKey :: "('d, 'w) Cache \<Rightarrow> 'd goval \<Rightarrow> 'w registry mwriter" where
  "marshalKey c = marshal (cacheEnv c)"

definition marshalPair :: "('d, 'w) Cache \<Rightarrow> 'd goval \<Rightarrow> 'd goval \<Rightarrow> 'w registry mwriter" where
  "marshalPair c key v = thenMW (marshalKey c key) (marshalKey c v)"

definition CacheGet :: "'w ctx \<Rightarrow> ('d, 'w) Cache \<Rightarrow> 'd goval \<Rightarrow> ('w registry, 'd goval) prog" where
  "CacheGet ctx c key =
     (if key = VNil then failP nilKey
      else cacheOp ctx c opCacheGet (marshalKey c key) (readValue (cacheEnv c)))"

definition CacheGetAndPut :: "'w ctx \<Rightarrow> ('d, 'w) Cache \<Rightarrow> 'd goval \<Rightarrow> 'd goval \<Rightarrow> ('w registry, 'd goval) prog" where
  "CacheGetAndPut ctx c key v =
     (if key = VNil then failP nilKey else if v = VNil then failP nilValue
      else cacheOp ctx c opCacheGetAndPut (marshalPair c key v) (readValue (cacheEnv c)))"

definition CacheGetAndReplace :: "'w ctx \<Rightarrow> ('d, 'w) Cache \<Rightarrow> 'd goval \<Rightarrow> 'd goval \<Rightarrow> ('w registry, 'd goval) prog" where
  "CacheGetAndReplace ctx c key v =
     (if key = VNil then failP nilKey else if v = VNil then failP nilValue
      else cacheOp ctx c opCacheGetAndReplace (marshalPair c key v) (readValue (cacheEnv c)))"

definition CachePut :: "'w ctx \<Rightarrow> ('d, 'w) Cache \<Rightarrow> 'd goval \<Rightarrow> 'd goval \<Rightarrow> ('w registry, unit) prog" where
  "CachePut ctx c key v =
     (if key = VNil then failP nilKey else if v = VNil then failP nilValue
      else cacheOp ctx c opCachePut (marshalPair c key v) noResponse)"

definition CachePutIfAbsent :: "'w ctx \<Rightarrow> ('d, 'w) Cache \<Rightarrow> 'd goval \<Rightarrow> 'd goval \<Rightarrow> ('w registry, bool) prog" where
  "CachePutIfAbsent ctx c key v =
     (if key = VNil then failP nilKey else if v = VNil then failP nilValue
      else cacheOp ctx c opCachePutIfAbsent (marshalPair c key v) (liftR ReadBool))"

definition CacheGetAndPutIfAbsent :: "'w ctx \<Rightarrow> ('d, 'w) Cache \<Rightarrow> 'd goval \<Rightarrow> 'd goval \<Rightarrow> ('w registry, 'd goval) prog" where
  "CacheGetAndPutIfAbsent ctx c key v =
     (if key = VNil then failP nilKey else if v = VNil then failP nilValue
      else cacheOp ctx c opCacheGetAndPutIfAbsent (marshalPair c key v) (readValue (cacheEnv c)))"

definition CacheContainsKey :: "'w ctx \<Rightarrow> ('d, 'w) Cache \<Rightarrow> 'd goval \<Rightarrow> ('w registry, bool) prog" where
  "CacheContainsKey ctx c key =
     (if key = VNil then failP nilKey
      else cacheOp ctx c opCacheContainsKey (marshalKey c key) (liftR ReadBool))"

text \<open>A nil key in a sequence is found when its turn to be written comes.\<close>

definition marshalNonNil :: "('d, 'w) Cache \<Rightarrow> string \<Rightarrow> 'd goval \<Rightarrow> 'w registry mwriter" where
  "marshalNonNil c msg key = (if key = VNil then failMW (ErrMsg msg) else marshalKey c key)"

definition CacheContainsKeys :: "'w ctx \<Rightarrow> ('d, 'w) Cache \<Rightarrow> 'd goval list \<Rightarrow> ('w registry, bool) prog" where
  "CacheContainsKeys ctx c keys =
     (if keys = [] then returnP True
      else cacheOp ctx c opCacheContainsKeys
             (writeListM (marshalNonNil c ''nil key passed to ContainsKeys'') keys) (liftR ReadBool))"

definition readKeyValue :: "('d, 'w) env \<Rightarrow> ('w registry, 'd goval \<times> 'd goval) mreader" where
  "readKeyValue env = bindMR (readValue env) (\<lambda>key. bindMR (readValue env) (\<lambda>v. returnMR (key, v)))"

definition readKeyValues :: "('d, 'w) env \<Rightarrow> ('w registry, ('d goval \<times> 'd goval) list) mreader" where
  "readKeyValues env =
     bindMR (liftR ReadInt32) (\<lambda>sz. if sz = 0 then returnMR [] else readManyM (nat (sint sz)) (readKeyValue env))"

definition CacheGetAll :: "'w ctx \<Rightarrow> ('d, 'w) Cache \<Rightarrow> 'd goval list \<Rightarrow> ('w registry, ('d goval \<times> 'd goval) list) prog" where
  "CacheGetAll ctx c keys =
     (if keys = [] then returnP []
      else cacheOp ctx c opCacheGetAll
             (writeListM (marshalNonNil c ''nil key passed to GetAll'') keys) (readKeyValues (cacheEnv c)))"

definition marshalKeyValue :: "('d, 'w) Cache \<Rightarrow> 'd goval \<times> 'd goval \<Rightarrow> 'w registry mwriter" where
  "marshalKeyValue c kv =
     (if fst kv = VNil then failMW (ErrMsg ''nil key passed to PutAll'')
      else if snd kv = VNil then failMW (ErrMsg ''nil value passed to PutAll'')
      else marshalPair c (fst kv) (snd kv))"

definition CachePutAll :: "'w ctx \<Rightarrow> ('d, 'w) Cache \<Rightarrow> ('d goval \<times> 'd goval) list \<Rightarrow> ('w registry, unit) prog" where
  "CachePutAll ctx c keysAndValues =
     (if keysAndValues = [] then returnP ()
      else cacheOp ctx c opCachePutAll (writeListM (marshalKeyValue c) keysAndValues) noResponse)"

definition CacheReplaceIfEquals :: "'w ctx \<Rightarrow> ('d, 'w) Cache \<Rightarrow> 'd goval \<Rightarrow> 'd goval \<Rightarrow> 'd goval \<Rightarrow> ('w registry, bool) prog" where
  "CacheReplaceIfEquals ctx c key oldValue newValue =
     (if key = VNil then failP nilKey else if oldValue = VNil then failP nilOldValue
      else if newValue = VNil then failP nilNewValue
      else cacheOp ctx c opCacheReplaceIfEquals
             (thenMW (marshalPair c key oldValue) (marshalKey c newValue)) (liftR ReadBool))"

definition CacheReplace :: "'w ctx \<Rightarrow> ('d, 'w) Cache \<Rightarrow> 'd goval \<Rightarrow> 'd goval \<Rightarrow> ('w registry, bool) prog" where
  "CacheReplace ctx c key v =
     (if key = VNil then failP nilKey else if v = VNil then failP nilValue
      else cacheOp ctx c opCacheReplace (marshalPair c key v) (liftR ReadBool))"

definition CacheRemove :: "'w ctx \<Rightarrow> ('d, 'w) Cache \<Rightarrow> 'd goval \<Rightarrow> ('w registry, bool) prog" where
  "CacheRemove ctx c key =
     (if key = VNil then failP nilKey
      else cacheOp ctx c opCacheRemoveKey (marshalKey c key) (liftR ReadBool))"

definition CacheGetAndRemove :: "'w ctx \<Rightarrow> ('d, 'w) Cache \<Rightarrow> 'd goval \<Rightarrow> ('w registry, 'd goval) prog" where
  "CacheGetAndRemove ctx c key =
     (if key = VNil then failP nilKey
      else cacheOp ctx c opCacheGetAndRemove (marshalKey c key) (readValue (cacheEnv c)))"

definition CacheRemoveIfEquals :: "'w ctx \<Rightarrow> ('d, 'w) Cache \<Rightarrow> 'd goval \<Rightarrow> 'd goval \<Rightarrow> ('w registry, bool) prog" where
  "CacheRemoveIfEquals ctx c key oldValue =
     (if key = VNil then failP nilKey else if oldValue = VNil then failP nilOldValue
      else cacheOp ctx c opCacheRemoveIfEquals (marshalPair c key oldValue) (liftR ReadBool))"

definition CacheRemoveKeys :: "'w ctx \<Rightarrow> ('d, 'w) Cache \<Rightarrow> 'd goval list \<Rightarrow> ('w registry, unit) prog" where
  "CacheRemoveKeys ctx c keys =
     (if keys = [] then returnP ()
      else cacheOp ctx c opCacheRemoveKeys (writeListM (marshalNonNil c ''nil key passed to RemoveKeys'') keys) noResponse)"

definition CacheRemoveAll :: "'w ctx \<Rightarrow> ('d, 'w) Cache \<Rightarrow> ('w registry, unit) prog" where
  "CacheRemoveAll ctx c = cacheOp ctx c opCacheRemoveAll emptyRequest noResponse"

definition CacheClear :: "'w ctx \<Rightarrow> ('d, 'w) Cache \<Rightarrow> 'd goval \<Rightarrow> ('w registry, unit) prog" where
  "CacheClear ctx c key =
     (if key = VNil then failP nilKey
      else cacheOp ctx c opCacheClearKey (marshalKey c key) noResponse)"

definition CacheClearKeys :: "'w ctx \<Rightarrow> ('d, 'w) Cache \<Rightarrow> 'd goval list \<Rightarrow> ('w registry, unit) prog" where
  "CacheClearKeys ctx c keys =
     (if keys = [] then returnP ()
      else cacheOp ctx c opCacheClearKeys (writeListM (marshalNonNil c ''nil key passed to ClearKeys'') keys) noResponse)"

definition CacheClearAll :: "'w ctx \<Rightarrow> ('d, 'w) Cache \<Rightarrow> ('w registry, unit) prog" where
  "CacheClearAll ctx c = cacheOp ctx c opCacheClear emptyRequest noResponse"

definition CacheSize :: "'w ctx \<Rightarrow> ('d, 'w) Cache \<Rightarrow> CachePeekMode list \<Rightarrow> ('w registry, i64) prog" where
  "CacheSize ctx c peekModes =
     cacheOp ctx c opCacheGetSize
       (liftW (thenW (WriteInt32 (word_of_nat (length peekModes))) (seqW (map (\<lambda>m. WriteInt8 (peekCode m)) peekModes))))
       (liftR ReadUInt64)"

end
