(* ===== verification/Canon.thy ===== *)
theory Canon
  imports Ops
begin

text \<open>
  The canonical form of a value is what its bytes mean: a value and its canonical form have the
  same encoding, and two values of data with the same encoding have the same canonical form.
  Servers compare keys by their bytes, so this is the equality of keys.
\<close>

lemma canon_leaf_array: "bodyLeafArray A (canonLeafArray a) = bodyLeafArray A a"
  "leafArrayType (canonLeafArray a) = leafArrayType a"
  "valid_leaf_array A fin (canonLeafArray a) = valid_leaf_array A fin a"
  "canonLeafArray (canonLeafArray a) = canonLeafArray a"
  by (cases a; simp)+

lemma canon_slice: "sliceType (canonSlice s) = sliceType s" "sliceLen (canonSlice s) = sliceLen s"
  "bodySlice (canonSlice s) = bodySlice s" "canonSlice (canonSlice s) = canonSlice s"
  by (cases s; simp)+

lemma canon_valid_slice: "valid_slice s \<Longrightarrow> valid_slice (canonSlice s)"
  by (cases s) (simp_all add: valid_slice_def)

lemma canon_scalar: "scalarType (canonScalar s) = scalarType s" "bodyScalar (canonScalar s) = bodyScalar s"
  "canonScalar (canonScalar s) = canonScalar s"
  by (cases s; simp)+

lemma concat_cong: "(\<And>x. x \<in> set xs \<Longrightarrow> f x = g x) \<Longrightarrow> concat (map f xs) = concat (map g xs)"
  by (induction xs) simp_all

text \<open>What the induction over a value gives for the entries of a map.\<close>

lemma entries_IH:
  assumes "\<And>p k. p \<in> set es \<Longrightarrow> k \<in> Basic_BNFs.fsts p \<Longrightarrow> plain A fin k \<Longrightarrow> P k"
    and "\<And>p v. p \<in> set es \<Longrightarrow> v \<in> Basic_BNFs.snds p \<Longrightarrow> plain A fin v \<Longrightarrow> P v"
    and "list_all both (map (map_prod (plain A fin) (plain A fin)) es)"
  shows "\<forall>p \<in> set es. P (fst p) \<and> P (snd p)"
  using assms unfolding list_all_both by (fastforce simp: fsts.simps snds.simps)

lemma encode_entries:
  "\<forall>p \<in> set es. f (c (fst p)) = f (fst p) \<and> f (c (snd p)) = f (snd p) \<Longrightarrow>
    concat (map pairBytes (map (map_prod f f) (map (map_prod c c) es))) = concat (map pairBytes (map (map_prod f f) es))"
  by (induction es) (auto simp: pairBytes_def)

lemma encode_canon: "plain A fin v \<Longrightarrow> encode A (canon v) = encode A v"
proof (induction v)
  case (VObjects vs)
  then have "concat (map (\<lambda>v. encode A (canon v)) vs) = concat (map (encode A) vs)"
    by (intro concat_cong) (simp add: list_all_id)
  then show ?case by (simp add: comp_def)
next
  case (VGoSlice vs)
  then have "concat (map (\<lambda>v. encode A (canon v)) vs) = concat (map (encode A) vs)"
    by (intro concat_cong) (simp add: list_all_id)
  then show ?case by (simp add: comp_def)
next
  case (VCollection kind vs b)
  then have "concat (map (\<lambda>v. encode A (canon v)) vs) = concat (map (encode A) vs)"
    by (intro concat_cong) (simp add: list_all_id)
  then show ?case by (simp add: comp_def)
next
  case (VMap kind es b)
  then have "\<forall>p \<in> set es. encode A (canon (fst p)) = encode A (fst p) \<and> encode A (canon (snd p)) = encode A (snd p)"
    by (intro entries_IH [where P = "\<lambda>v. encode A (canon v) = encode A v"]) auto
  then have "concat (map pairBytes (map (map_prod (encode A) (encode A)) (map (map_prod canon canon) es)))
      = concat (map pairBytes (map (map_prod (encode A) (encode A)) es))"
    by (rule encode_entries)
  then show ?case by (simp del: map_map)
next
  case (VGoMap es)
  then have "\<forall>p \<in> set es. encode A (canon (fst p)) = encode A (fst p) \<and> encode A (canon (snd p)) = encode A (snd p)"
    by (intro entries_IH [where P = "\<lambda>v. encode A (canon v) = encode A v"]) auto
  then have "concat (map pairBytes (map (map_prod (encode A) (encode A)) (map (map_prod canon canon) es)))
      = concat (map pairBytes (map (map_prod (encode A) (encode A)) es))"
    by (rule encode_entries)
  then show ?case by (simp del: map_map)
qed (simp_all add: canon_leaf_array canon_slice canon_scalar)

lemma plain_canon: "plain A fin v \<Longrightarrow> plain A fin (canon v)"
proof (induction v)
  case (VMap kind es b)
  then have "\<forall>p \<in> set es. plain A fin (canon (fst p)) \<and> plain A fin (canon (snd p))"
    by (intro entries_IH [where P = "\<lambda>v. plain A fin (canon v)"]) auto
  then show ?case using VMap.prems by (auto simp: list_all_iff both_def)
next
  case (VGoMap es)
  then have "\<forall>p \<in> set es. plain A fin (canon (fst p)) \<and> plain A fin (canon (snd p))"
    by (intro entries_IH [where P = "\<lambda>v. plain A fin (canon v)"]) auto
  then show ?case using VGoMap.prems by (auto simp: list_all_iff both_def)
qed (auto simp: canon_leaf_array canon_valid_slice list_all_id)

lemma canon_canon: "plain A fin v \<Longrightarrow> canon (canon v) = canon v"
proof (induction v)
  case (VMap kind es b)
  then have "\<forall>p \<in> set es. canon (canon (fst p)) = canon (fst p) \<and> canon (canon (snd p)) = canon (snd p)"
    by (intro entries_IH [where P = "\<lambda>v. canon (canon v) = canon v"]) auto
  then show ?case using VMap.prems by (auto simp: list_all_iff both_def)
next
  case (VGoMap es)
  then have "\<forall>p \<in> set es. canon (canon (fst p)) = canon (fst p) \<and> canon (canon (snd p)) = canon (snd p)"
    by (intro entries_IH [where P = "\<lambda>v. canon (canon v) = canon v"]) auto
  then show ?case using VGoMap.prems by (auto simp: list_all_iff both_def)
qed (auto simp: canon_leaf_array canon_slice canon_scalar list_all_id)

text \<open>Reading decides: equal bytes are read as equal values.\<close>

lemma mreads_unique: "mreads r bs x \<Longrightarrow> mreads r bs y \<Longrightarrow> x = y"
proof -
  assume "mreads r bs x" "mreads r bs y"
  from mreadsD [OF this(1), of "[]" "[]" 0] mreadsD [OF this(2), of "[]" "[]" 0] show ?thesis by simp
qed

text \<open>An environment that only has the decimals of another.\<close>

definition bareEnv :: "'d apd \<Rightarrow> ('d, unit) env" where
  "bareEnv A = \<lparr>envApd = A, envServer = (\<lambda>_ _ w. (Inr [], w)), envCompact = True,
     envTypeId = (\<lambda>_. 0), envFieldId = (\<lambda>_ _. 0), envFactories = (\<lambda>_. None)\<rparr>"

lemma encode_eq_canon:
  assumes "apd_ok A fin" and "plain A fin k" and "plain A fin k'"
  shows "encode A k = encode A k' \<longleftrightarrow> canon k = canon k'"
proof
  assume e: "encode A k = encode A k'"
  have A: "envApd (bareEnv A) = A" by (simp add: bareEnv_def)
  show "canon k = canon k'"
    by (rule mreads_unique [OF mreads_readValue [where env = "bareEnv A" and fin = fin and v = k, unfolded A, OF assms(1,2)]])
       (use mreads_readValue [where env = "bareEnv A" and fin = fin and v = k', unfolded A, OF assms(1,3)] e in simp)
next
  assume "canon k = canon k'"
  then show "encode A k = encode A k'" using encode_canon [OF assms(2)] encode_canon [OF assms(3)] by simp
qed

lemma encode_nonempty: "plain A fin v \<Longrightarrow> encode A v \<noteq> []"
  by (cases v) (auto simp: objectHeadBytes_def kindHeadBytes_def)

end
