(* ===== verification/CacheProps.thy ===== *)
theory CacheProps
  imports Cache Canon
begin

text \<open>
  What the operations of a cache mean. The bytes of every request are computed, the server is
  assumed to do what the protocol documents for each operation code on a table of encoded keys
  and values, and the operations of the client over it are shown to be those of an abstract map
  over the canonical forms of the values.
\<close>

section \<open>The bytes of a request\<close>

definition infoFlag :: "bool \<Rightarrow> bool \<Rightarrow> bool \<Rightarrow> byte" where
  "infoFlag keepBinary inTx expiring = (if keepBinary then 1 else 0) + (if inTx then 2 else 0) + (if expiring then 4 else 0)"

definition expiryBytes :: "ExpiryPolicy \<Rightarrow> byte list" where
  "expiryBytes e = encI64 (durationToMillis (creation e)) @ encI64 (durationToMillis (expUpdate e)) @
     encI64 (durationToMillis (access e))"

definition infoBytes :: "'w ctx \<Rightarrow> i32 \<Rightarrow> ExpiryPolicy option \<Rightarrow> bool \<Rightarrow> byte list" where
  "infoBytes ctx cId expiry keepBinary =
     encI32 cId @ [infoFlag keepBinary (ctx \<noteq> None) (expiry \<noteq> None)] @
     (case expiry of None \<Rightarrow> [] | Some e \<Rightarrow> expiryBytes e) @
     (case ctx of None \<Rightarrow> [] | Some tx \<Rightarrow> encI32 (txId tx))"

lemma writes_expiry: "writes (writeExpiry e) (expiryBytes e)"
  unfolding writeExpiry_def expiryBytes_def
  by (rule writes_cong, (rule writes_seq_Cons, rule writes_i64(1))+, rule writes_seq_Nil) simp

lemma writes_cacheInfo:
  assumes "expiry \<noteq> None \<Longrightarrow> SupportsExpiryPolicy protoCtx"
  shows "writes (writeCacheInfo ctx protoCtx cId expiry keepBinary) (infoBytes ctx cId expiry keepBinary)"
proof -
  have three: "writes (seqW [WriteUInt8 f, a, b]) (f # as @ bs)" if "writes a as" "writes b bs" for f a b as bs
    by (rule writes_cong, (rule writes_parts that)+) simp
  show ?thesis
    using assms unfolding writeCacheInfo_def infoBytes_def
    by (cases keepBinary; cases ctx; cases expiry)
       (auto simp: Let_def infoFlag_def keepBinaryMask_def expiryPolicyMask_def transactionalMask_def
          intro!: writes_then writes_i32(1) writes_expiry
          three [OF writes_skip writes_skip, simplified] three [OF writes_skip writes_i32(1), simplified]
          three [OF writes_expiry writes_skip, simplified] three [OF writes_expiry writes_i32(1)])
qed

section \<open>What the server promises\<close>

text \<open>
  The protocol of a cache on a table of encoded keys and values: the response to an operation
  code with its arguments, and the table after it. A missing value is the code of null.
\<close>

type_synonym table = "byte list \<Rightarrow> byte list option"

definition valueBytes :: "byte list option \<Rightarrow> byte list" where
  "valueBytes v = (case v of None \<Rightarrow> [typeCode NullType] | Some bs \<Rightarrow> bs)"

fun putPairs :: "byte list list \<Rightarrow> table \<Rightarrow> table" where
  "putPairs (k # v # r) t = putPairs r (t(k \<mapsto> v))"
| "putPairs _ t = t"

definition dropKeys :: "byte list list \<Rightarrow> table \<Rightarrow> table" where
  "dropKeys ks t = (\<lambda>k. if k \<in> set ks then None else t k)"

definition tableReply :: "i16 \<Rightarrow> byte list list \<Rightarrow> table \<Rightarrow> byte list \<times> table" where
  "tableReply op args t =
     (let k = args ! 0; v = args ! 1; yes = [boolByte True]; no = [boolByte False]; old = valueBytes (t k) in
      if op = opCacheGet then (old, t)
      else if op = opCachePut then ([], t(k \<mapsto> v))
      else if op = opCachePutIfAbsent then (if t k = None then (yes, t(k \<mapsto> v)) else (no, t))
      else if op = opCachePutAll then ([], putPairs args t)
      else if op = opCacheGetAndPut then (old, t(k \<mapsto> v))
      else if op = opCacheGetAndReplace then (old, if t k = None then t else t(k \<mapsto> v))
      else if op = opCacheGetAndRemove then (old, t(k := None))
      else if op = opCacheGetAndPutIfAbsent then (old, if t k = None then t(k \<mapsto> v) else t)
      else if op = opCacheReplace then (if t k = None then (no, t) else (yes, t(k \<mapsto> v)))
      else if op = opCacheReplaceIfEquals then (if t k = Some v then (yes, t(k \<mapsto> args ! 2)) else (no, t))
      else if op = opCacheContainsKey then ([boolByte (t k \<noteq> None)], t)
      else if op = opCacheContainsKeys then ([boolByte (\<forall>k \<in> set args. t k \<noteq> None)], t)
      else if op = opCacheClearKey then ([], t(k := None))
      else if op = opCacheClearKeys \<or> op = opCacheRemoveKeys then ([], dropKeys args t)
      else if op = opCacheRemoveKey then ([boolByte (t k \<noteq> None)], t(k := None))
      else if op = opCacheRemoveIfEquals then (if t k = Some v then (yes, t(k := None)) else (no, t))
      else ([], Map.empty))"

text \<open>Operations on many keys send the number of elements first; an element of PutAll is a key and
  a value.\<close>

definition countOf :: "i16 \<Rightarrow> byte list list \<Rightarrow> byte list" where
  "countOf op args =
     (if op = opCachePutAll then lenBytes (length args div 2)
      else if op \<in> {opCacheContainsKeys, opCacheRemoveKeys, opCacheClearKeys} then lenBytes (length args) else [])"

definition cacheOps :: "i16 set" where
  "cacheOps = {opCacheGet, opCachePut, opCachePutIfAbsent, opCachePutAll, opCacheGetAndPut, opCacheGetAndReplace,
     opCacheGetAndRemove, opCacheGetAndPutIfAbsent, opCacheReplace, opCacheReplaceIfEquals, opCacheContainsKey,
     opCacheContainsKeys, opCacheClear, opCacheClearKey, opCacheClearKeys, opCacheRemoveKey, opCacheRemoveIfEquals,
     opCacheRemoveKeys, opCacheRemoveAll}"

lemma known_codes [simp]:
  "opCacheGet \<in> cacheOps" "opCachePut \<in> cacheOps" "opCachePutIfAbsent \<in> cacheOps" "opCacheGetAndPut \<in> cacheOps"
  "opCacheGetAndReplace \<in> cacheOps" "opCacheGetAndRemove \<in> cacheOps" "opCacheGetAndPutIfAbsent \<in> cacheOps"
  "opCacheReplace \<in> cacheOps" "opCacheReplaceIfEquals \<in> cacheOps" "opCacheContainsKey \<in> cacheOps"
  "opCacheContainsKeys \<in> cacheOps" "opCacheClear \<in> cacheOps" "opCacheClearKey \<in> cacheOps" "opCacheClearKeys \<in> cacheOps"
  "opCacheRemoveKey \<in> cacheOps" "opCacheRemoveIfEquals \<in> cacheOps" "opCacheRemoveKeys \<in> cacheOps"
  "opCacheRemoveAll \<in> cacheOps" "opCachePutAll \<in> cacheOps"
  by (simp_all add: cacheOps_def)

text \<open>The protocol holds in the worlds of \<open>I\<close>, which the server keeps: what else it holds besides the table.\<close>

definition cacheServer :: "'w server \<Rightarrow> byte list \<Rightarrow> byte list set \<Rightarrow> ('w \<Rightarrow> table) \<Rightarrow> ('w \<Rightarrow> bool) \<Rightarrow> bool" where
  "cacheServer srv info E view I \<longleftrightarrow> (\<forall>op args w. op \<in> cacheOps \<longrightarrow> set args \<subseteq> E \<longrightarrow> I w \<longrightarrow>
     (\<exists>w'. srv op (info @ countOf op args @ concat args) w = (Inr (fst (tableReply op args (view w))), w') \<and>
       view w' = snd (tableReply op args (view w)) \<and> I w'))"

lemmas opcode_defs = opCacheGet_def opCachePut_def opCachePutIfAbsent_def opCacheGetAll_def opCachePutAll_def
  opCacheGetAndPut_def opCacheGetAndReplace_def opCacheGetAndRemove_def opCacheGetAndPutIfAbsent_def opCacheReplace_def
  opCacheReplaceIfEquals_def opCacheContainsKey_def opCacheContainsKeys_def opCacheClear_def opCacheClearKey_def
  opCacheClearKeys_def opCacheRemoveKey_def opCacheRemoveIfEquals_def opCacheRemoveKeys_def opCacheRemoveAll_def

section \<open>The abstract cache\<close>

datatype 'd cmd =
    CGet "'d goval" | CPut "'d goval" "'d goval" | CPutIfAbsent "'d goval" "'d goval"
  | CGetAndPut "'d goval" "'d goval" | CGetAndPutIfAbsent "'d goval" "'d goval" | CGetAndReplace "'d goval" "'d goval"
  | CGetAndRemove "'d goval" | CReplace "'d goval" "'d goval" | CReplaceIfEquals "'d goval" "'d goval" "'d goval"
  | CContainsKey "'d goval" | CContainsKeys "'d goval list" | CPutAll "('d goval \<times> 'd goval) list"
  | CRemove "'d goval" | CRemoveIfEquals "'d goval" "'d goval" | CRemoveKeys "'d goval list" | CRemoveAll
  | CClear "'d goval" | CClearKeys "'d goval list" | CClearAll

datatype 'd result = RUnit | RBool bool | RVal "'d goval" | RError gerror | RPanic | RNoFuel

definition outcome :: "('a \<Rightarrow> 'd result) \<Rightarrow> ('s, 'a) prog \<Rightarrow> 's \<Rightarrow> 'd result \<times> 's" where
  "outcome f m s = (case m s of
     (Inr x, s') \<Rightarrow> (f x, s') | (Inl (Fail e), s') \<Rightarrow> (RError e, s')
   | (Inl Panic, s') \<Rightarrow> (RPanic, s') | (Inl NoFuel, s') \<Rightarrow> (RNoFuel, s'))"

fun runCmd :: "'w ctx \<Rightarrow> ('d, 'w) Cache \<Rightarrow> 'd cmd \<Rightarrow> 'w registry \<Rightarrow> 'd result \<times> 'w registry" where
  "runCmd ctx c (CGet k) = outcome RVal (CacheGet ctx c k)"
| "runCmd ctx c (CPut k v) = outcome (\<lambda>_. RUnit) (CachePut ctx c k v)"
| "runCmd ctx c (CPutIfAbsent k v) = outcome RBool (CachePutIfAbsent ctx c k v)"
| "runCmd ctx c (CGetAndPut k v) = outcome RVal (CacheGetAndPut ctx c k v)"
| "runCmd ctx c (CGetAndPutIfAbsent k v) = outcome RVal (CacheGetAndPutIfAbsent ctx c k v)"
| "runCmd ctx c (CGetAndReplace k v) = outcome RVal (CacheGetAndReplace ctx c k v)"
| "runCmd ctx c (CGetAndRemove k) = outcome RVal (CacheGetAndRemove ctx c k)"
| "runCmd ctx c (CReplace k v) = outcome RBool (CacheReplace ctx c k v)"
| "runCmd ctx c (CReplaceIfEquals k v v') = outcome RBool (CacheReplaceIfEquals ctx c k v v')"
| "runCmd ctx c (CContainsKey k) = outcome RBool (CacheContainsKey ctx c k)"
| "runCmd ctx c (CContainsKeys ks) = outcome RBool (CacheContainsKeys ctx c ks)"
| "runCmd ctx c (CPutAll kvs) = outcome (\<lambda>_. RUnit) (CachePutAll ctx c kvs)"
| "runCmd ctx c (CRemove k) = outcome RBool (CacheRemove ctx c k)"
| "runCmd ctx c (CRemoveIfEquals k v) = outcome RBool (CacheRemoveIfEquals ctx c k v)"
| "runCmd ctx c (CRemoveKeys ks) = outcome (\<lambda>_. RUnit) (CacheRemoveKeys ctx c ks)"
| "runCmd ctx c CRemoveAll = outcome (\<lambda>_. RUnit) (CacheRemoveAll ctx c)"
| "runCmd ctx c (CClear k) = outcome (\<lambda>_. RUnit) (CacheClear ctx c k)"
| "runCmd ctx c (CClearKeys ks) = outcome (\<lambda>_. RUnit) (CacheClearKeys ctx c ks)"
| "runCmd ctx c CClearAll = outcome (\<lambda>_. RUnit) (CacheClearAll ctx c)"

text \<open>
  The map the user has in mind. Its keys and values are canonical forms; a nil argument is an
  error that changes nothing.
\<close>

type_synonym 'd vmap = "'d goval \<Rightarrow> 'd goval option"

definition lookupV :: "'d vmap \<Rightarrow> 'd goval \<Rightarrow> 'd goval" where
  "lookupV m k = (case m (canon k) of None \<Rightarrow> VNil | Some v \<Rightarrow> v)"

definition updateV :: "'d goval \<Rightarrow> 'd goval \<Rightarrow> 'd vmap \<Rightarrow> 'd vmap" where
  "updateV k v m = m(canon k \<mapsto> canon v)"

definition removeV :: "'d goval list \<Rightarrow> 'd vmap \<Rightarrow> 'd vmap" where
  "removeV ks m = (\<lambda>k. if k \<in> canon ` set ks then None else m k)"

definition hasV :: "'d vmap \<Rightarrow> 'd goval \<Rightarrow> bool" where
  "hasV m k \<longleftrightarrow> m (canon k) \<noteq> None"

definition firstNil :: "(gerror \<times> 'd goval) list \<Rightarrow> gerror option" where
  "firstNil args = map_option fst (find (\<lambda>(e, v). v = VNil) args)"

definition orNil :: "(gerror \<times> 'd goval) list \<Rightarrow> 'd result \<times> 'd vmap \<Rightarrow> 'd vmap \<Rightarrow> 'd result \<times> 'd vmap" where
  "orNil args r m = (case firstNil args of Some e \<Rightarrow> (RError e, m) | None \<Rightarrow> r)"

definition nilArg :: "string \<Rightarrow> 'd goval \<Rightarrow> (gerror \<times> 'd goval) list" where
  "nilArg msg k = [(ErrMsg msg, k)]"

definition nilPair :: "'d goval \<times> 'd goval \<Rightarrow> (gerror \<times> 'd goval) list" where
  "nilPair kv = [(ErrMsg ''nil key passed to PutAll'', fst kv), (ErrMsg ''nil value passed to PutAll'', snd kv)]"

fun mapCmd :: "'d cmd \<Rightarrow> 'd vmap \<Rightarrow> 'd result \<times> 'd vmap" where
  "mapCmd (CGet k) m = orNil [(nilKey, k)] (RVal (lookupV m k), m) m"
| "mapCmd (CPut k v) m = orNil [(nilKey, k), (nilValue, v)] (RUnit, updateV k v m) m"
| "mapCmd (CPutIfAbsent k v) m = orNil [(nilKey, k), (nilValue, v)]
     (if hasV m k then (RBool False, m) else (RBool True, updateV k v m)) m"
| "mapCmd (CGetAndPut k v) m = orNil [(nilKey, k), (nilValue, v)] (RVal (lookupV m k), updateV k v m) m"
| "mapCmd (CGetAndPutIfAbsent k v) m = orNil [(nilKey, k), (nilValue, v)]
     (RVal (lookupV m k), if hasV m k then m else updateV k v m) m"
| "mapCmd (CGetAndReplace k v) m = orNil [(nilKey, k), (nilValue, v)]
     (RVal (lookupV m k), if hasV m k then updateV k v m else m) m"
| "mapCmd (CGetAndRemove k) m = orNil [(nilKey, k)] (RVal (lookupV m k), removeV [k] m) m"
| "mapCmd (CReplace k v) m = orNil [(nilKey, k), (nilValue, v)]
     (if hasV m k then (RBool True, updateV k v m) else (RBool False, m)) m"
| "mapCmd (CReplaceIfEquals k v v') m = orNil [(nilKey, k), (nilOldValue, v), (nilNewValue, v')]
     (if m (canon k) = Some (canon v) then (RBool True, updateV k v' m) else (RBool False, m)) m"
| "mapCmd (CContainsKey k) m = orNil [(nilKey, k)] (RBool (hasV m k), m) m"
| "mapCmd (CContainsKeys ks) m = orNil (concat (map (nilArg ''nil key passed to ContainsKeys'') ks)) (RBool (\<forall>k \<in> set ks. hasV m k), m) m"
| "mapCmd (CPutAll kvs) m = orNil (concat (map nilPair kvs)) (RUnit, fold (\<lambda>(k, v). updateV k v) kvs m) m"
| "mapCmd (CRemove k) m = orNil [(nilKey, k)] (RBool (hasV m k), removeV [k] m) m"
| "mapCmd (CRemoveIfEquals k v) m = orNil [(nilKey, k), (nilOldValue, v)]
     (if m (canon k) = Some (canon v) then (RBool True, removeV [k] m) else (RBool False, m)) m"
| "mapCmd (CRemoveKeys ks) m = orNil (concat (map (nilArg ''nil key passed to RemoveKeys'') ks)) (RUnit, removeV ks m) m"
| "mapCmd CRemoveAll m = (RUnit, Map.empty)"
| "mapCmd (CClear k) m = orNil [(nilKey, k)] (RUnit, removeV [k] m) m"
| "mapCmd (CClearKeys ks) m = orNil (concat (map (nilArg ''nil key passed to ClearKeys'') ks)) (RUnit, removeV ks m) m"
| "mapCmd CClearAll m = (RUnit, Map.empty)"

fun runAll :: "('c \<Rightarrow> 's \<Rightarrow> 'r \<times> 's) \<Rightarrow> 'c list \<Rightarrow> 's \<Rightarrow> 'r list \<times> 's" where
  "runAll step [] s = ([], s)"
| "runAll step (c # cs) s = (let (r, s') = step c s; (rs, s'') = runAll step cs s' in (r # rs, s''))"

fun cmdArgs :: "'d cmd \<Rightarrow> 'd goval list" where
  "cmdArgs (CGet k) = [k]" | "cmdArgs (CPut k v) = [k, v]" | "cmdArgs (CPutIfAbsent k v) = [k, v]"
| "cmdArgs (CGetAndPut k v) = [k, v]" | "cmdArgs (CGetAndPutIfAbsent k v) = [k, v]"
| "cmdArgs (CGetAndReplace k v) = [k, v]" | "cmdArgs (CGetAndRemove k) = [k]" | "cmdArgs (CReplace k v) = [k, v]"
| "cmdArgs (CReplaceIfEquals k v v') = [k, v, v']" | "cmdArgs (CContainsKey k) = [k]" | "cmdArgs (CContainsKeys ks) = ks"
| "cmdArgs (CPutAll kvs) = concat (map (\<lambda>(k, v). [k, v]) kvs)" | "cmdArgs (CRemove k) = [k]"
| "cmdArgs (CRemoveIfEquals k v) = [k, v]" | "cmdArgs (CRemoveKeys ks) = ks" | "cmdArgs CRemoveAll = []"
| "cmdArgs (CClear k) = [k]" | "cmdArgs (CClearKeys ks) = ks" | "cmdArgs CClearAll = []"

section \<open>The table and the map\<close>

definition repr :: "'d apd \<Rightarrow> ('d \<Rightarrow> bool) \<Rightarrow> table \<Rightarrow> 'd vmap \<Rightarrow> bool" where
  "repr A fin t m \<longleftrightarrow> (\<forall>k. plain A fin k \<longrightarrow> t (encode A k) = map_option (encode A) (m (canon k))) \<and>
     (\<forall>k v. m k = Some v \<longrightarrow> plain A fin v \<and> canon v = v)"

lemma reprD: "repr A fin t m \<Longrightarrow> plain A fin k \<Longrightarrow> t (encode A k) = map_option (encode A) (m (canon k))"
  by (simp add: repr_def)

lemma repr_value: "repr A fin t m \<Longrightarrow> m k = Some v \<Longrightarrow> plain A fin v \<and> canon v = v"
  by (simp add: repr_def)

lemma repr_has: "repr A fin t m \<Longrightarrow> plain A fin k \<Longrightarrow> t (encode A k) = None \<longleftrightarrow> \<not> hasV m k"
  by (simp add: reprD hasV_def)

lemma repr_equals:
  assumes "apd_ok A fin" and "repr A fin t m" and "plain A fin k" and "plain A fin v"
  shows "t (encode A k) = Some (encode A v) \<longleftrightarrow> m (canon k) = Some (canon v)"
proof (cases "m (canon k)")
  case (Some u)
  then have "plain A fin u" "canon u = u" using repr_value [OF assms(2)] by auto
  then show ?thesis using encode_eq_canon [OF assms(1), of u v] assms(4) Some reprD [OF assms(2,3)] by simp
qed (simp add: reprD [OF assms(2,3)])

lemma repr_update:
  assumes "apd_ok A fin" and "repr A fin t m" and "plain A fin k" and "plain A fin v"
  shows "repr A fin (t(encode A k \<mapsto> encode A v)) (updateV k v m)"
  using assms encode_canon [OF assms(4)] plain_canon [OF assms(4)] canon_canon [OF assms(4)]
  by (auto simp: repr_def updateV_def encode_eq_canon [OF assms(1)])

lemma repr_remove:
  assumes "apd_ok A fin" and "repr A fin t m" and "\<forall>k \<in> set ks. plain A fin k"
  shows "repr A fin (dropKeys (map (encode A) ks) t) (removeV ks m)"
proof -
  have "encode A k \<in> encode A ` set ks \<longleftrightarrow> canon k \<in> canon ` set ks" if "plain A fin k" for k
    using encode_eq_canon [OF assms(1) that] assms(3) by (auto simp: image_iff)
  then show ?thesis using assms(2) by (auto simp: repr_def dropKeys_def removeV_def)
qed

lemma repr_delete:
  "apd_ok A fin \<Longrightarrow> repr A fin t m \<Longrightarrow> plain A fin k \<Longrightarrow> repr A fin (t(encode A k := None)) (removeV [k] m)"
  using repr_remove [of A fin t m "[k]"] by (simp add: dropKeys_def fun_upd_def)

lemma repr_empty: "repr A fin Map.empty Map.empty"
  by (simp add: repr_def)

lemma repr_pairs:
  "apd_ok A fin \<Longrightarrow> repr A fin t m \<Longrightarrow> \<forall>(k, v) \<in> set kvs. plain A fin k \<and> plain A fin v \<Longrightarrow>
    repr A fin (putPairs (concat (map (\<lambda>(k, v). [encode A k, encode A v]) kvs)) t) (fold (\<lambda>(k, v). updateV k v) kvs m)"
proof (induction kvs arbitrary: t m)
  case (Cons kv kvs)
  then show ?case by (cases kv) (simp add: repr_update)
qed simp

lemma reads_lookup:
  assumes "apd_ok (envApd env) fin" and "repr (envApd env) fin t m" and "plain (envApd env) fin k"
  shows "mreads (readValue env) (valueBytes (t (encode (envApd env) k))) (lookupV m k)"
proof (cases "m (canon k)")
  case None
  then show ?thesis
    using mreads_readValue [OF assms(1), of VNil] reprD [OF assms(2,3)] by (simp add: valueBytes_def lookupV_def)
next
  case (Some v)
  then show ?thesis
    using mreads_readValue [OF assms(1), of v] repr_value [OF assms(2) Some] reprD [OF assms(2,3)]
    by (simp add: valueBytes_def lookupV_def)
qed

lemma reads_bool: "mreads (liftR ReadBool) [boolByte b] b"
  by (rule mreads_lift) (simp add: wire)

section \<open>One operation against the server\<close>

definition encoded :: "'d apd \<Rightarrow> ('d \<Rightarrow> bool) \<Rightarrow> byte list set" where
  "encoded A fin = encode A ` Collect (plain A fin)"

text \<open>The cache can be used in this context, and its server follows the protocol.\<close>

definition ready :: "('d \<Rightarrow> bool) \<Rightarrow> 'w ctx \<Rightarrow> ('d, 'w) Cache \<Rightarrow> ('w \<Rightarrow> table) \<Rightarrow> ('w \<Rightarrow> bool) \<Rightarrow> bool" where
  "ready fin ctx c view I \<longleftrightarrow>
     apd_ok (envApd (cacheEnv c)) fin \<and>
     (cacheExpiry c \<noteq> None \<longrightarrow> SupportsExpiryPolicy (linkProto (cacheChannel ctx c))) \<and>
     cacheServer (linkServer (cacheChannel ctx c)) (infoBytes ctx (cacheId c) (cacheExpiry c) False)
       (encoded (envApd (cacheEnv c)) fin) view I"

text \<open>The longest head has 33 bytes, a count has four; an argument that is nil one.\<close>

definition fits :: "'d apd \<Rightarrow> 'd goval list \<Rightarrow> bool" where
  "fits A vs \<longleftrightarrow> length (concat (map (encode A) vs)) + 37 \<le> maxInt32"

lemma length_info: "length (infoBytes ctx i e b) \<le> 33"
  by (auto simp: infoBytes_def expiryBytes_def split: option.split)

lemma length_count: "length (countOf op args) \<le> 4"
  by (simp add: countOf_def)

lemma mwrites_cacheInfo: "ready fin ctx c view I \<Longrightarrow> mwrites (cacheInfo ctx c False) (infoBytes ctx (cacheId c) (cacheExpiry c) False)"
  unfolding cacheInfo_def ready_def by (intro mwrites_lift writes_cacheInfo) simp

lemma op_sim:
  assumes rdy: "ready fin ctx c view I" and A: "A = envApd (cacheEnv c)" and J: "I (world s)" and op: "op \<in> cacheOps"
    and vs: "\<forall>v \<in> set vs. plain A fin v" and fit: "fits A vs"
    and wr: "mwrites args (countOf op (map (encode A) vs) @ concat (map (encode A) vs))"
    and rd: "mreads response (fst (tableReply op (map (encode A) vs) (view (world s)))) x"
    and rep: "repr A fin (snd (tableReply op (map (encode A) vs) (view (world s)))) m'"
  shows "\<exists>s'. outcome f (cacheOp ctx c op args response) s = (f x, s') \<and> repr A fin (view (world s')) m' \<and> I (world s')"
proof -
  let ?i = "infoBytes ctx (cacheId c) (cacheExpiry c) False" and ?as = "map (encode A) vs"
  have "set ?as \<subseteq> encoded A fin" using vs by (auto simp: encoded_def)
  then obtain w' where w': "linkServer (cacheChannel ctx c) op (?i @ countOf op ?as @ concat ?as) (world s)
        = (Inr (fst (tableReply op ?as (view (world s)))), w')"
      "view w' = snd (tableReply op ?as (view (world s)))" "I w'"
    using rdy J op unfolding ready_def cacheServer_def A by blast
  have "length (?i @ countOf op ?as @ concat ?as) \<le> maxInt32"
    using fit length_info [of ctx "cacheId c" "cacheExpiry c" False] length_count [of op ?as]
    by (simp add: fits_def)
  from sendOp_run [OF mwrites_then [OF mwrites_cacheInfo [OF rdy] wr] this, where rest = "[]", unfolded append_Nil2, OF w'(1) rd]
  have "outcome f (cacheOp ctx c op args response) s = (f x, s\<lparr>world := w'\<rparr>)"
    by (simp add: cacheOp_def outcome_def)
  then show ?thesis using w'(2,3) rep by simp
qed

lemma op_codes_apart:
  "tableReply opCacheGet [k] t = (valueBytes (t k), t)"
  "tableReply opCachePut [k, v] t = ([], t(k \<mapsto> v))"
  "tableReply opCachePutIfAbsent [k, v] t = (if t k = None then ([boolByte True], t(k \<mapsto> v)) else ([boolByte False], t))"
  "tableReply opCachePutAll as t = ([], putPairs as t)"
  "tableReply opCacheGetAndPut [k, v] t = (valueBytes (t k), t(k \<mapsto> v))"
  "tableReply opCacheGetAndReplace [k, v] t = (valueBytes (t k), if t k = None then t else t(k \<mapsto> v))"
  "tableReply opCacheGetAndRemove [k] t = (valueBytes (t k), t(k := None))"
  "tableReply opCacheGetAndPutIfAbsent [k, v] t = (valueBytes (t k), if t k = None then t(k \<mapsto> v) else t)"
  "tableReply opCacheReplace [k, v] t = (if t k = None then ([boolByte False], t) else ([boolByte True], t(k \<mapsto> v)))"
  "tableReply opCacheReplaceIfEquals [k, v, v'] t = (if t k = Some v then ([boolByte True], t(k \<mapsto> v')) else ([boolByte False], t))"
  "tableReply opCacheContainsKey [k] t = ([boolByte (t k \<noteq> None)], t)"
  "tableReply opCacheContainsKeys as t = ([boolByte (\<forall>k \<in> set as. t k \<noteq> None)], t)"
  "tableReply opCacheClearKey [k] t = ([], t(k := None))"
  "tableReply opCacheClearKeys as t = ([], dropKeys as t)"
  "tableReply opCacheRemoveKeys as t = ([], dropKeys as t)"
  "tableReply opCacheRemoveKey [k] t = ([boolByte (t k \<noteq> None)], t(k := None))"
  "tableReply opCacheRemoveIfEquals [k, v] t = (if t k = Some v then ([boolByte True], t(k := None)) else ([boolByte False], t))"
  "tableReply opCacheRemoveAll as t = ([], Map.empty)"
  "tableReply opCacheClear as t = ([], Map.empty)"
  by (simp_all add: tableReply_def Let_def opcode_defs)

definition manyOps :: "i16 set" where
  "manyOps = {opCachePutAll, opCacheContainsKeys, opCacheRemoveKeys, opCacheClearKeys}"

lemma count_none: "op \<notin> manyOps \<Longrightarrow> countOf op as = []"
  by (simp add: countOf_def manyOps_def)

lemma single_codes:
  "opCacheGet \<notin> manyOps" "opCachePut \<notin> manyOps" "opCachePutIfAbsent \<notin> manyOps" "opCacheGetAndPut \<notin> manyOps"
  "opCacheGetAndReplace \<notin> manyOps" "opCacheGetAndRemove \<notin> manyOps" "opCacheGetAndPutIfAbsent \<notin> manyOps"
  "opCacheReplace \<notin> manyOps" "opCacheReplaceIfEquals \<notin> manyOps" "opCacheContainsKey \<notin> manyOps"
  "opCacheClear \<notin> manyOps" "opCacheClearKey \<notin> manyOps" "opCacheRemoveKey \<notin> manyOps"
  "opCacheRemoveIfEquals \<notin> manyOps" "opCacheRemoveAll \<notin> manyOps"
  by (simp_all add: manyOps_def opcode_defs)

lemma count_keys:
  "countOf opCacheContainsKeys as = lenBytes (length as)" "countOf opCacheRemoveKeys as = lenBytes (length as)"
  "countOf opCacheClearKeys as = lenBytes (length as)" "countOf opCachePutAll as = lenBytes (length as div 2)"
  by (simp_all add: countOf_def opcode_defs)

lemma mwrites_key:
  "ready fin ctx c view I \<Longrightarrow> A = envApd (cacheEnv c) \<Longrightarrow> plain A fin k \<Longrightarrow> mwrites (marshalKey c k) (encode A k)"
  unfolding marshalKey_def by (auto simp: ready_def intro: mwrites_marshal)

lemma mwrites_args:
  assumes "ready fin ctx c view I" and "A = envApd (cacheEnv c)" and "\<forall>v \<in> set vs. plain A fin v"
  shows "vs = [k] \<Longrightarrow> mwrites (marshalKey c k) (concat (map (encode A) vs))"
    and "vs = [k, v] \<Longrightarrow> mwrites (marshalPair c k v) (concat (map (encode A) vs))"
    and "vs = [k, v, v'] \<Longrightarrow> mwrites (thenMW (marshalPair c k v) (marshalKey c v')) (concat (map (encode A) vs))"
proof -
  note K = mwrites_key [OF assms(1,2)]
  show "vs = [k] \<Longrightarrow> mwrites (marshalKey c k) (concat (map (encode A) vs))" using K assms(3) by simp
  show "vs = [k, v] \<Longrightarrow> mwrites (marshalPair c k v) (concat (map (encode A) vs))"
    using mwrites_then [OF K K, of k v] assms(3) by (simp add: marshalPair_def)
  show "vs = [k, v, v'] \<Longrightarrow> mwrites (thenMW (marshalPair c k v) (marshalKey c v')) (concat (map (encode A) vs))"
    using mwrites_then [OF mwrites_then [OF K K] K, of k v v'] assms(3) by (simp add: marshalPair_def)
qed

text \<open>An operation on keys and values one by one.\<close>

lemma single_sim:
  assumes "ready fin ctx c view I" and "A = envApd (cacheEnv c)" and "I (world s)" and "op \<in> cacheOps"
    and "\<forall>v \<in> set vs. plain A fin v" and "fits A vs"
    and "mwrites args (concat (map (encode A) vs))"
    and "op \<notin> manyOps"
    and "mreads response (fst (tableReply op (map (encode A) vs) (view (world s)))) x"
    and "repr A fin (snd (tableReply op (map (encode A) vs) (view (world s)))) m'"
  shows "\<exists>s'. outcome f (cacheOp ctx c op args response) s = (f x, s') \<and> repr A fin (view (world s')) m' \<and> I (world s')"
  using assms by (intro op_sim [where vs = vs]) (simp_all add: count_none)

text \<open>A nil among many ends the writing before anything is sent.\<close>

lemma eachMW_nil:
  assumes "\<And>x. x \<in> set xs \<Longrightarrow> err x = None \<Longrightarrow> mwrites (f x) (enc x)"
    and "\<And>x e. x \<in> set xs \<Longrightarrow> err x = Some e \<Longrightarrow> f x = failMW e"
    and "List.find (\<lambda>x. err x \<noteq> None) xs = Some y" and "err y = Some e"
    and "wf_out bw" and "opos bw + length (concat (map enc xs)) \<le> maxInt32"
  shows "eachMW f xs bw s = (Inl (Fail e), s)"
  using assms
proof (induction xs arbitrary: bw)
  case (Cons x xs)
  show ?case
  proof (cases "err x")
    case None
    obtain bw' where bw': "put (enc x) bw = Inr bw'" "wf_out bw'" "opos bw' = opos bw + length (enc x)"
      using put_ok [OF Cons.prems(5), of "enc x"] Cons.prems(6) by auto
    then have "f x bw s = (Inr bw', s)" using Cons.prems(1) [of x] None Cons.prems(5) by (simp add: mwrites_def)
    moreover have "eachMW f xs bw' s = (Inl (Fail e), s)"
      by (rule Cons.IH) (use Cons.prems None bw' in auto)
    ultimately show ?thesis by (simp add: thenMW_def bindP_def)
  next
    case (Some e')
    then have "y = x" using Cons.prems(3) by simp
    then show ?thesis using Some Cons.prems(2) [of x e'] Cons.prems(4)
      by (simp add: thenMW_def bindP_def failMW_def)
  qed
qed simp

lemma listM_nil:
  assumes "\<And>x. x \<in> set xs \<Longrightarrow> err x = None \<Longrightarrow> mwrites (f x) (enc x)"
    and "\<And>x e. x \<in> set xs \<Longrightarrow> err x = Some e \<Longrightarrow> f x = failMW e"
    and "List.find (\<lambda>x. err x \<noteq> None) xs = Some y" and "err y = Some e"
    and rdy: "ready fin ctx c view I" and fit: "length (concat (map enc xs)) + 37 \<le> maxInt32"
  shows "outcome g (cacheOp ctx c op (writeListM f xs) response) s = (RError e, s)"
proof -
  let ?i = "infoBytes ctx (cacheId c) (cacheExpiry c) False" and ?n = "lenBytes (length xs)"
  have "length (?i @ ?n) + length (concat (map enc xs)) \<le> maxInt32"
    using fit length_info [of ctx "cacheId c" "cacheExpiry c" False] by simp
  moreover obtain bw where bw: "put (?i @ ?n) (NewBinaryOutputStream 0) = Inr bw" "wf_out bw" "opos bw = length (?i @ ?n)"
    using put_ok [OF wf_out_New, of 0 "?i @ ?n"] calculation by (auto simp: NewBinaryOutputStream_def)
  ultimately have "eachMW f xs bw s = (Inl (Fail e), s)" using bw(2,3)
    by (intro eachMW_nil [where enc = enc, OF assms(1-4)]) simp_all
  moreover have "thenMW (cacheInfo ctx c False) (liftW (WriteInt32 (word_of_nat (length xs)))) (NewBinaryOutputStream 0) s = (Inr bw, s)"
    by (simp only: mwritesD [OF mwrites_then [OF mwrites_cacheInfo [OF rdy] mwrites_lift [OF writes_len]] wf_out_New] bw(1))
  ultimately have "thenMW (cacheInfo ctx c False) (writeListM f xs) (NewBinaryOutputStream 0) s = (Inl (Fail e), s)"
    by (auto simp: thenMW_def writeListM_def bindP_def split: prod.splits sum.splits)
  then have "sendOp (cacheChannel ctx c) op (thenMW (cacheInfo ctx c False) (writeListM f xs)) response s = (Inl (Fail e), s)"
    by (rule sendOp_request_fails)
  then show ?thesis by (simp add: cacheOp_def outcome_def)
qed

section \<open>Every operation refines that of the map\<close>

lemma orNil_cases:
  "orNil [] r m = r" "orNil ((e, VNil) # xs) r m = (RError e, m)"
  "v \<noteq> VNil \<Longrightarrow> orNil ((e, v) # xs) r m = orNil xs r m"
  by (simp_all add: orNil_def firstNil_def)

lemma outcome_failP [simp]: "outcome f (failP e) s = (RError e, s)" "outcome f (returnP x) s = (f x, s)"
  by (simp_all add: outcome_def)

definition simulates :: "'d apd \<Rightarrow> ('d \<Rightarrow> bool) \<Rightarrow> ('w \<Rightarrow> table) \<Rightarrow> ('w \<Rightarrow> bool) \<Rightarrow> 'd result \<times> 'w registry \<Rightarrow> 'd result \<times> 'd vmap \<Rightarrow> bool" where
  "simulates A fin view I r r' \<longleftrightarrow> fst r = fst r' \<and> repr A fin (view (world (snd r))) (snd r') \<and> I (world (snd r))"

lemma simulatesI: "\<exists>s'. r = (x, s') \<and> repr A fin (view (world s')) m' \<and> I (world s') \<Longrightarrow> simulates A fin view I r (x, m')"
  by (auto simp: simulates_def)

lemma simulates_error: "repr A fin (view (world s)) m \<Longrightarrow> I (world s) \<Longrightarrow> simulates A fin view I (RError e, s) (RError e, m)"
  by (simp add: simulates_def)

lemmas single_ops = CacheGet_def CachePut_def CachePutIfAbsent_def CacheGetAndPut_def CacheGetAndPutIfAbsent_def
  CacheGetAndReplace_def CacheGetAndRemove_def CacheReplace_def CacheReplaceIfEquals_def CacheContainsKey_def
  CacheRemove_def CacheRemoveIfEquals_def CacheClear_def CacheRemoveAll_def CacheClearAll_def

lemma read_intros:
  "mreads noResponse [] ()" "mreads (liftR ReadBool) [boolByte b] b"
  by (rule mreads_noResponse, rule reads_bool)

lemma sim_keyed:
  assumes R: "ready fin ctx c view I" and A: "A = envApd (cacheEnv c)" and P: "\<forall>v \<in> set (cmdArgs cmd). plain A fin v"
    and F: "fits A (cmdArgs cmd)" and M: "repr A fin (view (world s)) m" and J: "I (world s)"
    and cmd: "cmd \<in> {CGet k, CGetAndRemove k, CContainsKey k, CRemove k, CClear k}"
  shows "simulates A fin view I (runCmd ctx c cmd s) (mapCmd cmd m)"
proof (cases "k = VNil")
  case True
  then show ?thesis using cmd M J by (auto simp: single_ops orNil_cases simulates_error)
next
  case False
  have ap: "apd_ok A fin" using R A by (simp add: ready_def)
  have k: "plain A fin k" and vs: "\<forall>v \<in> set [k]. plain A fin v" and f: "fits A [k]" using P F cmd by auto
  note one = simulatesI [OF single_sim [OF R A J _ vs f mwrites_args(1) [OF R A vs refl]]]
  note lk = reads_lookup [OF ap [unfolded A] M [unfolded A] k [unfolded A], folded A]
  show ?thesis
    using cmd False
    by (elim insertE; simp add: single_ops orNil_cases)
       (rule one; simp add: op_codes_apart single_codes repr_has [OF M k] lk read_intros M repr_delete [OF ap M k])+
qed

lemma sim_paired:
  assumes R: "ready fin ctx c view I" and A: "A = envApd (cacheEnv c)" and P: "\<forall>v \<in> set (cmdArgs cmd). plain A fin v"
    and F: "fits A (cmdArgs cmd)" and M: "repr A fin (view (world s)) m" and J: "I (world s)"
    and cmd: "cmd \<in> {CPut k v, CPutIfAbsent k v, CGetAndPut k v, CGetAndPutIfAbsent k v, CGetAndReplace k v, CReplace k v, CRemoveIfEquals k v}"
  shows "simulates A fin view I (runCmd ctx c cmd s) (mapCmd cmd m)"
proof (cases "k = VNil \<or> v = VNil")
  case True
  then show ?thesis using cmd M J by (cases "k = VNil") (auto simp: single_ops orNil_cases simulates_error)
next
  case False
  have ap: "apd_ok A fin" using R A by (simp add: ready_def)
  have k: "plain A fin k" and v: "plain A fin v" and vs: "\<forall>x \<in> set [k, v]. plain A fin x" and f: "fits A [k, v]"
    using P F cmd by auto
  note two = simulatesI [OF single_sim [OF R A J _ vs f mwrites_args(2) [OF R A vs refl]]]
  note lk = reads_lookup [OF ap [unfolded A] M [unfolded A] k [unfolded A], folded A]
  note facts = op_codes_apart single_codes repr_has [OF M k] repr_equals [OF ap M k v] lk read_intros M
    repr_update [OF ap M k v] repr_delete [OF ap M k]
  show ?thesis
    using cmd False
    by (elim insertE; simp add: single_ops orNil_cases)
       ((intro conjI impI)?; rule two; simp add: facts)+
qed

lemma sim_replaceIfEquals:
  assumes R: "ready fin ctx c view I" and A: "A = envApd (cacheEnv c)" and P: "\<forall>x \<in> set [k, v, v']. plain A fin x"
    and F: "fits A [k, v, v']" and M: "repr A fin (view (world s)) m" and J: "I (world s)"
  shows "simulates A fin view I (runCmd ctx c (CReplaceIfEquals k v v') s) (mapCmd (CReplaceIfEquals k v v') m)"
proof (cases "k = VNil \<or> v = VNil \<or> v' = VNil")
  case True
  then show ?thesis using M J
    by (cases "k = VNil"; cases "v = VNil") (auto simp: single_ops orNil_cases simulates_error)
next
  case False
  have ap: "apd_ok A fin" using R A by (simp add: ready_def)
  have k: "plain A fin k" and v: "plain A fin v" and v': "plain A fin v'" using P by auto
  note three = simulatesI [OF single_sim [OF R A J _ P F mwrites_args(3) [OF R A P refl]]]
  note facts = op_codes_apart single_codes repr_equals [OF ap M k v] read_intros M repr_update [OF ap M k v']
  show ?thesis
    using False
    by (cases "m (canon k) = Some (canon v)"; simp add: single_ops orNil_cases) (rule three; simp add: facts)+
qed

lemma sim_all:
  assumes R: "ready fin ctx c view I" and A: "A = envApd (cacheEnv c)" and J: "I (world s)" and cmd: "cmd \<in> {CRemoveAll, CClearAll}"
  shows "simulates A fin view I (runCmd ctx c cmd s) (mapCmd cmd m)"
proof -
  have w: "mwrites emptyRequest (concat (map (encode A) []))" by (simp add: mwrites_empty)
  have f: "fits A []" by (simp add: fits_def maxInt32_def)
  note zero = simulatesI [OF single_sim [OF R A J _ _ f w]]
  show ?thesis using cmd
    by (elim insertE; simp add: single_ops)
       (rule zero; simp add: op_codes_apart single_codes read_intros repr_empty)+
qed

lemma firstNil_simps [simp]:
  "firstNil [] = None" "firstNil ((e, v) # xs) = (if v = VNil then Some e else firstNil xs)"
  by (simp_all add: firstNil_def)

lemma firstNil_append: "firstNil (xs @ ys) = (case firstNil xs of Some e \<Rightarrow> Some e | None \<Rightarrow> firstNil ys)"
  by (induction xs) auto

lemma firstNil_concat_None: "firstNil (concat (map g xs)) = None \<longleftrightarrow> (\<forall>x \<in> set xs. firstNil (g x) = None)"
  by (induction xs) (auto simp: firstNil_append split: option.split)

lemma firstNil_concat_Some:
  "firstNil (concat (map g xs)) = Some e \<Longrightarrow>
    \<exists>y. List.find (\<lambda>x. firstNil (g x) \<noteq> None) xs = Some y \<and> firstNil (g y) = Some e"
  by (induction xs) (auto simp: firstNil_append split: option.splits)

text \<open>An operation on many: \<open>g\<close> are the arguments of an element with the errors for a nil.\<close>

lemma many_sim:
  assumes R: "ready fin ctx c view I" and A: "A = envApd (cacheEnv c)" and vs: "vs = concat (map (\<lambda>x. map snd (g x)) xs)"
    and P: "\<forall>v \<in> set vs. plain A fin v" and F: "fits A vs" and M: "repr A fin (view (world s)) m" and J: "I (world s)"
    and wr: "\<And>x. x \<in> set xs \<Longrightarrow> firstNil (g x) = None \<Longrightarrow> mwrites (f x) (concat (map (encode A) (map snd (g x))))"
    and er: "\<And>x e. x \<in> set xs \<Longrightarrow> firstNil (g x) = Some e \<Longrightarrow> f x = failMW e"
    and op: "op \<in> cacheOps" and cnt: "countOf op (map (encode A) vs) = lenBytes (length xs)"
    and rd: "mreads response (fst (tableReply op (map (encode A) vs) (view (world s)))) x"
    and rep: "repr A fin (snd (tableReply op (map (encode A) vs) (view (world s)))) m'"
  shows "simulates A fin view I (outcome h (cacheOp ctx c op (writeListM f xs) response) s)
    (orNil (concat (map g xs)) (h x, m') m)"
proof -
  have cat: "concat (map (encode A) vs) = concat (map (\<lambda>x. concat (map (encode A) (map snd (g x)))) xs)"
    unfolding vs by (induction xs) simp_all
  show ?thesis
  proof (cases "firstNil (concat (map g xs))")
    case None
    then have all: "firstNil (g y) = None" if "y \<in> set xs" for y
      using that None by (simp add: firstNil_concat_None)
    have "mwrites (writeListM f xs) (countOf op (map (encode A) vs) @ concat (map (encode A) vs))"
      unfolding cnt cat using mwrites_listM [of xs f "\<lambda>x. concat (map (encode A) (map snd (g x)))"] wr all by simp
    from simulatesI [OF op_sim [OF R A J op P F this rd rep]] show ?thesis using None by (simp add: orNil_def)
  next
    case (Some e)
    then obtain y where y: "List.find (\<lambda>x. firstNil (g x) \<noteq> None) xs = Some y" "firstNil (g y) = Some e"
      using firstNil_concat_Some by blast
    have "length (concat (map (\<lambda>x. concat (map (encode A) (map snd (g x)))) xs)) + 37 \<le> maxInt32"
      using F unfolding fits_def cat .
    then have eq: "outcome h (cacheOp ctx c op (writeListM f xs) response) s = (RError e, s)"
      by (intro listM_nil [OF wr er y R])
    show ?thesis unfolding eq orNil_def Some option.case using M J by (rule simulates_error)
  qed
qed

lemma sim_many:
  assumes R: "ready fin ctx c view I" and A: "A = envApd (cacheEnv c)" and P: "\<forall>v \<in> set (cmdArgs cmd). plain A fin v"
    and F: "fits A (cmdArgs cmd)" and M: "repr A fin (view (world s)) m" and J: "I (world s)"
    and cmd: "cmd \<in> {CContainsKeys ks, CRemoveKeys ks, CClearKeys ks}"
  shows "simulates A fin view I (runCmd ctx c cmd s) (mapCmd cmd m)"
proof (cases "ks = []")
  case True
  have "removeV [] m = m" by (simp add: removeV_def)
  then show ?thesis using cmd M J True
    by (auto simp: CacheContainsKeys_def CacheRemoveKeys_def CacheClearKeys_def orNil_cases simulates_def)
next
  case False
  have ap: "apd_ok A fin" using R A by (simp add: ready_def)
  have P': "\<forall>v \<in> set ks. plain A fin v" and F': "fits A ks" using P F cmd by auto
  have vs: "ks = concat (map (\<lambda>k. map snd (nilArg msg k)) ks)" for msg
    by (induction ks) (simp_all add: nilArg_def)
  have wr: "mwrites (marshalNonNil c msg k) (concat (map (encode A) (map snd (nilArg msg k))))"
    if "k \<in> set ks" "firstNil (nilArg msg k) = None" for k msg
    using that P' mwrites_key [OF R A] by (auto simp: marshalNonNil_def nilArg_def split: if_splits)
  have er: "marshalNonNil c msg k = failMW e" if "k \<in> set ks" "firstNil (nilArg msg k) = Some e" for k e msg
    using that by (auto simp: marshalNonNil_def nilArg_def split: if_splits)
  have has: "(\<forall>k \<in> set ks. \<exists>y. view (world s) (encode A k) = Some y) \<longleftrightarrow> (\<forall>k \<in> set ks. hasV m k)"
    using repr_has [OF M] P' by (metis not_None_eq)
  note many = many_sim [OF R A vs P' F' M J wr er]
  show ?thesis
    using cmd False
    by (elim insertE; simp add: CacheContainsKeys_def CacheRemoveKeys_def CacheClearKeys_def)
       (rule many; simp add: count_keys op_codes_apart read_intros M repr_remove [OF ap M P'] has)+
qed

lemma sim_putAll:
  assumes R: "ready fin ctx c view I" and A: "A = envApd (cacheEnv c)" and P: "\<forall>v \<in> set (cmdArgs (CPutAll kvs)). plain A fin v"
    and F: "fits A (cmdArgs (CPutAll kvs))" and M: "repr A fin (view (world s)) m" and J: "I (world s)"
  shows "simulates A fin view I (runCmd ctx c (CPutAll kvs) s) (mapCmd (CPutAll kvs) m)"
proof (cases "kvs = []")
  case True
  then show ?thesis using M J by (simp add: CachePutAll_def orNil_cases simulates_def)
next
  case False
  have ap: "apd_ok A fin" using R A by (simp add: ready_def)
  have vs: "cmdArgs (CPutAll kvs) = concat (map (\<lambda>kv. map snd (nilPair kv)) kvs)"
    by (simp add: case_prod_unfold nilPair_def)
  have "fst kv \<in> set (cmdArgs (CPutAll kvs)) \<and> snd kv \<in> set (cmdArgs (CPutAll kvs))" if "kv \<in> set kvs" for kv
    using that by (induction kvs) auto
  then have pl: "plain A fin (fst kv)" "plain A fin (snd kv)" if "kv \<in> set kvs" for kv using P that by blast+
  have enc: "map (encode A) (cmdArgs (CPutAll kvs)) = concat (map (\<lambda>(k, v). [encode A k, encode A v]) kvs)"
    by (induction kvs) auto
  have len: "length (cmdArgs (CPutAll kvs)) div 2 = length kvs" by (induction kvs) auto
  have wr: "mwrites (marshalKeyValue c kv) (concat (map (encode A) (map snd (nilPair kv))))"
    if "kv \<in> set kvs" "firstNil (nilPair kv) = None" for kv
    using that mwrites_then [OF mwrites_key [OF R A pl(1)] mwrites_key [OF R A pl(2)], of kv kv]
    by (auto simp: marshalKeyValue_def marshalPair_def nilPair_def split: if_splits)
  have er: "marshalKeyValue c kv = failMW e" if "kv \<in> set kvs" "firstNil (nilPair kv) = Some e" for kv e
    using that by (auto simp: marshalKeyValue_def nilPair_def split: if_splits)
  have "repr A fin (putPairs (map (encode A) (cmdArgs (CPutAll kvs))) (view (world s))) (fold (\<lambda>(k, v). updateV k v) kvs m)"
    unfolding enc using pl by (intro repr_pairs ap M) auto
  then have "simulates A fin view I (outcome (\<lambda>_. RUnit) (cacheOp ctx c opCachePutAll (writeListM (marshalKeyValue c) kvs) noResponse) s)
      (orNil (concat (map nilPair kvs)) (RUnit, fold (\<lambda>(k, v). updateV k v) kvs m) m)"
    by (intro many_sim [where h = "\<lambda>_. RUnit", OF R A vs P F M J wr er])
       (simp_all add: count_keys op_codes_apart read_intros len del: cmdArgs.simps)
  then show ?thesis using False by (simp add: CachePutAll_def)
qed

lemma sim_cmd:
  assumes R: "ready fin ctx c view I" and A: "A = envApd (cacheEnv c)" and P: "\<forall>v \<in> set (cmdArgs cmd). plain A fin v"
    and F: "fits A (cmdArgs cmd)" and M: "repr A fin (view (world s)) m" and J: "I (world s)"
  shows "simulates A fin view I (runCmd ctx c cmd s) (mapCmd cmd m)"
proof (cases cmd)
  case (CReplaceIfEquals k v v')
  then show ?thesis using sim_replaceIfEquals [OF R A _ _ M J] P F by simp
next
  case (CPutAll kvs)
  then show ?thesis using sim_putAll [OF R A _ _ M J] P F by simp
qed ((rule sim_keyed [OF R A P F M J], blast) | (rule sim_paired [OF R A P F M J], blast) |
    (rule sim_many [OF R A P F M J], blast) | (rule sim_all [OF R A J], blast))+

text \<open>And so does a sequence of them.\<close>

lemma runAll_refines:
  assumes "ready fin ctx c view I" and "A = envApd (cacheEnv c)"
    and "\<forall>cmd \<in> set cmds. (\<forall>v \<in> set (cmdArgs cmd). plain A fin v) \<and> fits A (cmdArgs cmd)"
    and "repr A fin (view (world s)) m" and "I (world s)"
  shows "fst (runAll (runCmd ctx c) cmds s) = fst (runAll mapCmd cmds m) \<and>
    repr A fin (view (world (snd (runAll (runCmd ctx c) cmds s)))) (snd (runAll mapCmd cmds m)) \<and>
    I (world (snd (runAll (runCmd ctx c) cmds s)))"
  using assms(3-5)
proof (induction cmds arbitrary: s m)
  case Nil
  then show ?case by simp
next
  case (Cons cmd cmds)
  then have "simulates A fin view I (runCmd ctx c cmd s) (mapCmd cmd m)"
    by (intro sim_cmd [OF assms(1,2)]) simp_all
  then show ?case
    using Cons.IH [of "snd (runCmd ctx c cmd s)" "snd (mapCmd cmd m)"] Cons.prems(1)
    by (simp add: simulates_def case_prod_unfold Let_def)
qed

section \<open>A server that follows the protocol\<close>

text \<open>It finds the end of each argument by reading it.\<close>

definition argLength :: "'d apd \<Rightarrow> byte list \<Rightarrow> nat" where
  "argLength A bs = (case readValue (bareEnv A) (NewBinaryInputStream bs 0) \<lparr>regCache = newBinaryMetadataCache, world = ()\<rparr> of
     (Inr (_, br), _) \<Rightarrow> ipos br | _ \<Rightarrow> 0)"

primrec parseArgs :: "nat \<Rightarrow> 'd apd \<Rightarrow> byte list \<Rightarrow> byte list list" where
  "parseArgs 0 A bs = []"
| "parseArgs (Suc n) A bs =
     (if bs = [] then [] else take (argLength A bs) bs # parseArgs n A (drop (argLength A bs) bs))"

definition tableServer :: "'d apd \<Rightarrow> byte list \<Rightarrow> table server" where
  "tableServer A info op bs t =
     (let body = drop (length info + (if op \<in> manyOps then 4 else 0)) bs;
          (r, t') = tableReply op (parseArgs (length body) A body) t
      in (Inr r, t'))"

lemma argLength_encode:
  assumes "apd_ok A fin" and "plain A fin v"
  shows "argLength A (encode A v @ rest) = length (encode A v)"
proof -
  have A: "envApd (bareEnv A) = A" by (simp add: bareEnv_def)
  show ?thesis
    using mreadsD [OF mreads_readValue [where env = "bareEnv A" and fin = fin and v = v, unfolded A, OF assms], of "[]" rest]
    by (simp add: argLength_def NewBinaryInputStream_def)
qed

lemma parseArgs_encode:
  "apd_ok A fin \<Longrightarrow> \<forall>v \<in> set vs. plain A fin v \<Longrightarrow> length (concat (map (encode A) vs)) \<le> n \<Longrightarrow>
    parseArgs n A (concat (map (encode A) vs)) = map (encode A) vs"
proof (induction vs arbitrary: n)
  case Nil
  then show ?case by (cases n) simp_all
next
  case (Cons v vs)
  have v: "encode A v \<noteq> []" using Cons.prems encode_nonempty by auto
  then obtain k where "n = Suc k" "length (concat (map (encode A) vs)) \<le> k"
    using Cons.prems(3) by (cases n; cases "encode A v") auto
  then show ?case using Cons v argLength_encode [OF Cons.prems(1)] by simp
qed

lemma tableServer_ok:
  assumes "apd_ok A fin"
  shows "cacheServer (tableServer A info) info (encoded A fin) (\<lambda>t. t) (\<lambda>_. True)"
  unfolding cacheServer_def
proof (intro allI impI)
  fix op args and t :: table
  assume "op \<in> cacheOps" and "set args \<subseteq> encoded A fin"
  then have "\<exists>vs. args = map (encode A) vs \<and> (\<forall>v \<in> set vs. plain A fin v)"
  proof (induction args)
    case (Cons a args)
    then obtain v vs where "a = encode A v" "plain A fin v" "args = map (encode A) vs" "\<forall>v \<in> set vs. plain A fin v"
      by (auto simp: encoded_def)
    then show ?case by (intro exI [of _ "v # vs"]) simp
  qed simp
  then obtain vs where vs: "args = map (encode A) vs" "\<forall>v \<in> set vs. plain A fin v" by blast
  have "length (countOf op args) = (if op \<in> manyOps then 4 else 0)" by (auto simp: countOf_def manyOps_def)
  then have "drop (length info + (if op \<in> manyOps then 4 else 0)) (info @ countOf op args @ concat args) = concat args"
    by simp
  then have "tableServer A info op (info @ countOf op args @ concat args) t = (Inr (fst (tableReply op args t)), snd (tableReply op args t))"
    using parseArgs_encode [OF assms vs(2) order_refl] vs(1) by (simp only: tableServer_def Let_def) (simp add: case_prod_unfold)
  then show "\<exists>w'. tableServer A info op (info @ countOf op args @ concat args) t = (Inr (fst (tableReply op args t)), w') \<and>
      w' = snd (tableReply op args t) \<and> True" by simp
qed

section \<open>Properties\<close>

text \<open>C1 The operations of a cache are those of a map. Against a server that follows the protocol
  on its table of encoded keys and values, any sequence of Get, Put, PutIfAbsent, GetAndPut,
  GetAndPutIfAbsent, GetAndReplace, GetAndRemove, Replace, ReplaceIfEquals, ContainsKey(s), PutAll,
  Remove, RemoveIfEquals, RemoveKeys, RemoveAll, Clear, ClearKeys and ClearAll, inside or outside
  of a transaction, with or without an expiry policy, returns what the abstract map returns, nil
  arguments as errors included, and leaves a table that represents the abstract map and whatever
  else the server promises to keep as it is.\<close>

theorem cache_refines_map:
  assumes "ready fin ctx c view I" and "A = envApd (cacheEnv c)"
    and "\<forall>cmd \<in> set cmds. (\<forall>v \<in> set (cmdArgs cmd). plain A fin v) \<and> fits A (cmdArgs cmd)"
    and "repr A fin (view (world s)) m" and "I (world s)"
  shows "fst (runAll (runCmd ctx c) cmds s) = fst (runAll mapCmd cmds m) \<and>
    repr A fin (view (world (snd (runAll (runCmd ctx c) cmds s)))) (snd (runAll mapCmd cmds m)) \<and>
    I (world (snd (runAll (runCmd ctx c) cmds s)))"
  using assms by (rule runAll_refines)

definition sampleCache :: "(bool \<times> byte list \<times> i32, table) Cache" where
  "sampleCache =
     (let srv = tableServer plainDec (infoBytes (None :: table ctx) 7 None False) in
      \<lparr>cacheCli = \<lparr>cliCh = \<lparr>linkServer = srv, linkProto = NewProtocolContext (ver 1 7 0) []\<rparr>,
                   cliEnv = \<lparr>envApd = plainDec, envServer = srv, envCompact = True, envTypeId = basicTypeId id,
                     envFieldId = basicFieldId id, envFactories = \<lambda>_. None\<rparr>\<rparr>,
       cacheExpiry = None, cacheName = ''people'', cacheId = 7\<rparr>)"

lemma sampleCache_ready: "ready (\<lambda>d. dropWhile (\<lambda>b. b = 0) (fst (snd d)) = fst (snd d)) None sampleCache (\<lambda>t. t) (\<lambda>_. True)"
  using plainDec_ok tableServer_ok [OF plainDec_ok]
  by (simp add: ready_def sampleCache_def Let_def cacheEnv_def cacheChannel_def infoBytes_def)

theorem cache_refines_map_witness:
  "fst (runAll (runCmd None sampleCache)
      [CPut (VLeaf (LString ''a'')) (VScalar (SUint32 7)), CGet (VLeaf (LString ''a'')),
       CReplaceIfEquals (VLeaf (LString ''a'')) (VScalar (SInt32 7)) (VScalar (SBool True)),
       CRemove (VLeaf (LString ''a'')), CGet (VLeaf (LString ''a'')), CGet VNil]
      \<lparr>regCache = newBinaryMetadataCache, world = Map.empty\<rparr>)
    = [RUnit, RVal (VScalar (SInt32 7)), RBool True, RBool True, RVal VNil, RError nilKey]"
proof -
  let ?k = "VLeaf (LString ''a'') :: (bool \<times> byte list \<times> i32) goval"
  let ?cmds = "[CPut ?k (VScalar (SUint32 7)), CGet ?k, CReplaceIfEquals ?k (VScalar (SInt32 7)) (VScalar (SBool True)),
      CRemove ?k, CGet ?k, CGet VNil]"
  have "fst (runAll mapCmd ?cmds Map.empty)
      = [RUnit, RVal (VScalar (SInt32 7)), RBool True, RBool True, RVal VNil, RError nilKey]"
    by (simp add: orNil_cases lookupV_def updateV_def hasV_def removeV_def)
  moreover have "envApd (cacheEnv sampleCache) = plainDec" by (simp add: sampleCache_def cacheEnv_def Let_def)
  ultimately show ?thesis
    using cache_refines_map [OF sampleCache_ready refl, of ?cmds "\<lparr>regCache = newBinaryMetadataCache, world = Map.empty\<rparr>" Map.empty]
    by (simp add: small_def fits_def maxInt32_def encStr_def repr_empty encI32_def)
qed

text \<open>C31 The head of a request: the id of the cache, one byte of flags, the times of the expiry policy
  in the order creation, update, access in milliseconds, and the id of the transaction. With an
  expiry policy that the protocol of the connection does not support, the operation fails, and
  neither the registry nor the server sees anything of it.\<close>

theorem cache_request_head:
  "(cacheExpiry c \<noteq> None \<and> \<not> SupportsExpiryPolicy (linkProto (cacheChannel ctx c)) \<longrightarrow>
      cacheOp ctx c op args response s
        = (Inl (Fail (ErrMsg ''expiry policies are not supported for protocol'')), s)) \<and>
   (cacheExpiry c = None \<or> SupportsExpiryPolicy (linkProto (cacheChannel ctx c)) \<longrightarrow>
      (\<exists>bw. writeCacheInfo ctx (linkProto (cacheChannel ctx c)) (cacheId c) (cacheExpiry c) keepBinary (NewBinaryOutputStream n)
          = Inr bw \<and> Data bw = infoBytes ctx (cacheId c) (cacheExpiry c) keepBinary))"
proof (intro conjI impI)
  let ?p = "linkProto (cacheChannel ctx c)"
  assume un: "cacheExpiry c \<noteq> None \<and> \<not> SupportsExpiryPolicy ?p"
  obtain bw where bw: "put (encI32 (cacheId c)) (NewBinaryOutputStream 0) = Inr bw"
    using put_ok [OF wf_out_New, of 0 "encI32 (cacheId c)"] by (auto simp: NewBinaryOutputStream_def maxInt32_def)
  then have "WriteInt32 (cacheId c) (NewBinaryOutputStream 0) = Inr bw"
    by (simp only: writesD [OF writes_i32(1) wf_out_New])
  then have "cacheInfo ctx c False (NewBinaryOutputStream 0) s
      = (Inl (Fail (ErrMsg ''expiry policies are not supported for protocol'')), s)"
    using un by (simp add: cacheInfo_def writeCacheInfo_def liftW_def thenW_def failW_def)
  then have "thenMW (cacheInfo ctx c False) args (NewBinaryOutputStream 0) s
      = (Inl (Fail (ErrMsg ''expiry policies are not supported for protocol'')), s)"
    by (simp add: thenMW_def bindP_def)
  then show "cacheOp ctx c op args response s
      = (Inl (Fail (ErrMsg ''expiry policies are not supported for protocol'')), s)"
    unfolding cacheOp_def by (rule sendOp_request_fails)
next
  let ?i = "infoBytes ctx (cacheId c) (cacheExpiry c) keepBinary" and ?p = "linkProto (cacheChannel ctx c)"
  assume "cacheExpiry c = None \<or> SupportsExpiryPolicy ?p"
  then have "writes (writeCacheInfo ctx ?p (cacheId c) (cacheExpiry c) keepBinary) ?i"
    by (intro writes_cacheInfo) simp
  moreover have "length ?i \<le> maxInt32"
    using length_info [of ctx "cacheId c" "cacheExpiry c" keepBinary] by (simp add: maxInt32_def)
  then obtain bw where "put ?i (NewBinaryOutputStream n) = Inr bw" "Data bw = ?i"
    using put_ok [OF wf_out_New, of n ?i] by (auto simp: NewBinaryOutputStream_def Data_def)
  ultimately show "\<exists>bw. writeCacheInfo ctx ?p (cacheId c) (cacheExpiry c) keepBinary (NewBinaryOutputStream n)
      = Inr bw \<and> Data bw = ?i"
    using wf_out_New by (auto simp: writes_def)
qed

lemma version_NewProtocolContext [simp]: "version (NewProtocolContext v fs) = v"
  by (simp add: NewProtocolContext_def Let_def)

definition sampleTx :: "table txSession" where
  "sampleTx = \<lparr>txId = 9, txCh = \<lparr>linkServer = \<lambda>_ _ t. (Inr [], t), linkProto = NewProtocolContext (ver 1 6 0) []\<rparr>\<rparr>"

theorem cache_request_head_witness:
  "(\<exists>bw. writeCacheInfo (Some sampleTx) (linkProto (txCh sampleTx)) 7 (Some \<lparr>creation = 5000000, access = - 2, expUpdate = - 1\<rparr>) False
      (NewBinaryOutputStream 0) = Inr bw \<and>
     Data bw = encI32 7 @ [6] @ encI64 5 @ encI64 (- 1) @ encI64 (- 2) @ encI32 9) \<and>
   CacheRemoveAll None (CacheWithExpiryPolicy 1 2 3
     (sampleCache\<lparr>cacheCli := \<lparr>cliCh = \<lparr>linkServer = \<lambda>_ _ t. (Inr [], t), linkProto = NewProtocolContext (ver 1 5 0) []\<rparr>,
        cliEnv = cacheEnv sampleCache\<rparr>\<rparr>)) \<lparr>regCache = newBinaryMetadataCache, world = Map.empty\<rparr>
     = (Inl (Fail (ErrMsg ''expiry policies are not supported for protocol'')), \<lparr>regCache = newBinaryMetadataCache, world = Map.empty\<rparr>)"
proof -
  have sup: "SupportsExpiryPolicy (linkProto (txCh sampleTx))"
    by (simp add: sampleTx_def SupportsExpiryPolicy_def ver_def Compare_def)
  have b: "infoBytes (Some sampleTx) 7 (Some \<lparr>creation = 5000000, access = - 2, expUpdate = - 1\<rparr>) False
      = encI32 7 @ [6] @ encI64 5 @ encI64 (- 1) @ encI64 (- 2) @ encI32 9"
    by (simp add: infoBytes_def expiryBytes_def infoFlag_def durationToMillis_def DurationUnchanged_def sampleTx_def
        signed_divide_int_def)
  have 1: "\<exists>bw. writeCacheInfo (Some sampleTx) (linkProto (txCh sampleTx)) 7 (Some \<lparr>creation = 5000000, access = - 2, expUpdate = - 1\<rparr>) False
      (NewBinaryOutputStream 0) = Inr bw \<and>
     Data bw = encI32 7 @ [6] @ encI64 5 @ encI64 (- 1) @ encI64 (- 2) @ encI32 9"
    using cache_request_head [where c = "CacheWithExpiryPolicy 5000000 (- 2) (- 1) sampleCache" and ctx = "Some sampleTx"
        and keepBinary = False and n = 0] sup b
    by (simp add: CacheWithExpiryPolicy_def cacheChannel_def sampleCache_def Let_def)
  show ?thesis
    using 1 cache_request_head [where ctx = None and op = opCacheRemoveAll and args = emptyRequest and response = noResponse
        and c = "CacheWithExpiryPolicy 1 2 3
     (sampleCache\<lparr>cacheCli := \<lparr>cliCh = \<lparr>linkServer = \<lambda>_ _ t. (Inr [], t), linkProto = NewProtocolContext (ver 1 5 0) []\<rparr>,
        cliEnv = cacheEnv sampleCache\<rparr>\<rparr>)"]
    by (simp add: CacheRemoveAll_def CacheWithExpiryPolicy_def cacheChannel_def SupportsExpiryPolicy_def
        ver_def Compare_def)
qed

end
