(* ===== verification/Trim.thy ===== *)
theory Trim
  imports Utils
begin

text \<open>
  strings.TrimSpace of the Go library, which the options of the client put every name through:
  white space of Unicode, in UTF-8, is cut from both ends. The string is taken apart into runes
  with their bytes; an invalid byte is a rune of its own and no space.
\<close>

definition spaceRunes :: "nat list" where
  "spaceRunes = [9, 10, 11, 12, 13, 32, 0x85, 0xA0, 0x1680, 0x2000, 0x2001, 0x2002, 0x2003, 0x2004, 0x2005, 0x2006,
     0x2007, 0x2008, 0x2009, 0x200A, 0x2028, 0x2029, 0x202F, 0x205F, 0x3000]"

definition isSpace :: "nat \<Rightarrow> bool" where
  "isSpace r = (r \<in> set spaceRunes)"

function runeChunks :: "string \<Rightarrow> (nat \<times> string) list" where
  "runeChunks s = (case s of [] \<Rightarrow> []
   | c # cs \<Rightarrow> (case decodeRune (of_char c) (map of_char cs) of
       (r, w) \<Rightarrow> (r, c # take (w - 1) cs) # runeChunks (drop (w - 1) cs)))"
  by pat_completeness auto
termination by (relation "measure length") auto

declare runeChunks.simps [simp del]

definition TrimSpace :: "string \<Rightarrow> string" where
  "TrimSpace s =
     (let space = (\<lambda>p. isSpace (fst p))
      in concat (map snd (rev (dropWhile space (rev (dropWhile space (runeChunks s)))))))"

lemma runeChunks_simps [simp]:
  "runeChunks [] = []"
  "of_char c < (0x80 :: nat) \<Longrightarrow> runeChunks (c # cs) = (of_char c, [c]) # runeChunks cs"
  by (subst runeChunks.simps, simp add: decodeRune_def)+

lemma concat_runeChunks: "concat (map snd (runeChunks s)) = s"
proof (induction s rule: runeChunks.induct)
  case (1 s)
  show ?case
  proof (cases s)
    case (Cons c cs)
    obtain r w where d: "decodeRune (of_char c) (map of_char cs) = (r, w)" by fastforce
    then show ?thesis using 1 [OF Cons d [symmetric]] Cons by (subst runeChunks.simps) simp
  qed simp
qed

text \<open>What is left is a part of the string.\<close>

lemma TrimSpace_part: "\<exists>pre post. s = pre @ TrimSpace s @ post"
proof -
  let ?space = "\<lambda>p :: nat \<times> string. isSpace (fst p)" and ?c = "runeChunks s"
  let ?d = "dropWhile ?space ?c"
  have "?c = takeWhile ?space ?c @ ?d" by simp
  moreover have "?d = rev (dropWhile ?space (rev ?d)) @ rev (takeWhile ?space (rev ?d))"
    by (metis rev_append rev_rev_ident takeWhile_dropWhile_id)
  ultimately have "?c = takeWhile ?space ?c @ rev (dropWhile ?space (rev ?d)) @ rev (takeWhile ?space (rev ?d))"
    by simp
  then have "s = concat (map snd (takeWhile ?space ?c)) @ TrimSpace s @ concat (map snd (rev (takeWhile ?space (rev ?d))))"
    using concat_runeChunks [of s] unfolding TrimSpace_def Let_def by (metis concat_append map_append)
  then show ?thesis by blast
qed

lemma TrimSpace_length: "length (TrimSpace s) \<le> length s"
proof -
  obtain pre post where "s = pre @ TrimSpace s @ post" using TrimSpace_part by blast
  from arg_cong [where f = length, OF this] show ?thesis by simp
qed

lemma TrimSpace_word: "\<forall>c \<in> set s. of_char c < (0x80 :: nat) \<and> \<not> isSpace (of_char c) \<Longrightarrow> TrimSpace s = s"
proof -
  assume a: "\<forall>c \<in> set s. of_char c < (0x80 :: nat) \<and> \<not> isSpace (of_char c)"
  then have c: "runeChunks s = map (\<lambda>c. (of_char c, [c])) s" by (induction s) simp_all
  have d: "dropWhile (\<lambda>p. isSpace (fst p)) xs = xs" if "\<forall>p \<in> set xs. \<not> isSpace (fst p)" for xs :: "(nat \<times> string) list"
    using that by (cases xs) simp_all
  have "dropWhile (\<lambda>p. isSpace (fst p)) (runeChunks s) = runeChunks s"
    and "dropWhile (\<lambda>p. isSpace (fst p)) (rev (runeChunks s)) = rev (runeChunks s)"
    unfolding c using a by (intro d; simp)+
  then have "TrimSpace s = concat (map snd (runeChunks s))" by (simp add: TrimSpace_def)
  then show ?thesis by (simp only: concat_runeChunks)
qed

end
