(* ===== verification/CacheConfig.thy ===== *)
theory CacheConfig
  imports Cache Trim
begin

text \<open>
  cache_configuration.go: the configuration of a cache as a map from property codes to values of
  any type, its options and getters, how it is written for the server, and how the configuration
  the server describes is read. The two wire forms differ: the client sends coded properties, the
  server a fixed sequence of fields.
\<close>

section \<open>Data\<close>

record CacheKeyConfig =
  keyTypeName :: string
  affKeyFldName :: string

record 'd QueryField =
  qfName :: string
  qfTypeName :: string
  qfIsKey :: bool
  qfIsNotNull :: bool
  qfPrecision :: i64
  qfScale :: i64
  qfDfltVal :: "'d goval"

record IndexField =
  ifName :: string
  ifAsc :: bool

record QueryIndex =
  qiName :: string
  qiType :: byte
  qiInlineSz :: i64
  qiFields :: "IndexField list"

record 'd QueryEntity =
  qeKeyType :: string
  qeValType :: string
  qeTblName :: string
  qeKeyFldName :: string
  qeValFldName :: string
  qeFields :: "'d QueryField list"
  qeAliases :: "(string \<times> string) list"
  qeIndexes :: "QueryIndex list"

text \<open>The dynamic values of the properties, by their Go types; an int has 64 bits.\<close>

datatype 'd propValue =
    PropString string | PropBool bool | PropInt i64 | PropInt32 i32 | PropInt64 i64
  | PropMode i32 | PropAtomicity i32 | PropLoss i32 | PropSync i32 | PropRebalance i32
  | PropExpiry "ExpiryPolicy option" | PropKeys "CacheKeyConfig list" | PropEntities "'d QueryEntity list"

type_synonym 'd CacheConfiguration = "(i16 \<times> 'd propValue) list"
type_synonym 'd configOption = "'d CacheConfiguration \<Rightarrow> 'd CacheConfiguration"
definition cacheNameProp :: i16 where "cacheNameProp = 0"
definition cacheModeProp :: i16 where "cacheModeProp = 1"
definition cacheAtomicityModeProp :: i16 where "cacheAtomicityModeProp = 2"
definition backupsProp :: i16 where "backupsProp = 3"
definition writeSyncModeProp :: i16 where "writeSyncModeProp = 4"
definition copyOnReadProp :: i16 where "copyOnReadProp = 5"
definition readFromBackupProp :: i16 where "readFromBackupProp = 6"
definition dataRegionNameProp :: i16 where "dataRegionNameProp = 100"
definition onHeapCacheEnabledProp :: i16 where "onHeapCacheEnabledProp = 101"
definition queryEntitiesProp :: i16 where "queryEntitiesProp = 200"
definition queryParallelismProp :: i16 where "queryParallelismProp = 201"
definition queryDetailsMetricSizeProp :: i16 where "queryDetailsMetricSizeProp = 202"
definition sqlSchemaProp :: i16 where "sqlSchemaProp = 203"
definition sqlIndexMaxInlineSizeProp :: i16 where "sqlIndexMaxInlineSizeProp = 204"
definition sqlEscapeAllProp :: i16 where "sqlEscapeAllProp = 205"
definition maxQueryIteratorsProp :: i16 where "maxQueryIteratorsProp = 206"
definition rebalanceModeProp :: i16 where "rebalanceModeProp = 300"
definition rebalanceOrderProp :: i16 where "rebalanceOrderProp = 305"
definition groupNameProp :: i16 where "groupNameProp = 400"
definition cacheKeyConfigProp :: i16 where "cacheKeyConfigProp = 401"
definition maxAsyncOpsProp :: i16 where "maxAsyncOpsProp = 403"
definition partitionLossPolicyProp :: i16 where "partitionLossPolicyProp = 404"
definition eagerTtlProp :: i16 where "eagerTtlProp = 405"
definition statsEnabledProp :: i16 where "statsEnabledProp = 406"
definition expirePolicyProp :: i16 where "expirePolicyProp = 407"

lemmas prop_codes = cacheNameProp_def cacheModeProp_def cacheAtomicityModeProp_def backupsProp_def writeSyncModeProp_def
  copyOnReadProp_def readFromBackupProp_def dataRegionNameProp_def onHeapCacheEnabledProp_def queryEntitiesProp_def
  queryParallelismProp_def queryDetailsMetricSizeProp_def sqlSchemaProp_def sqlIndexMaxInlineSizeProp_def
  sqlEscapeAllProp_def maxQueryIteratorsProp_def rebalanceModeProp_def rebalanceOrderProp_def groupNameProp_def
  cacheKeyConfigProp_def maxAsyncOpsProp_def partitionLossPolicyProp_def eagerTtlProp_def statsEnabledProp_def
  expirePolicyProp_def

section \<open>Writing\<close>

definition marshalQueryField :: "ProtocolContext \<Rightarrow> ('d, 'w) env \<Rightarrow> 'd QueryField \<Rightarrow> 'w registry mwriter" where
  "marshalQueryField protoCtx env field =
     thenMW (liftW (seqW [marshalString (qfName field), marshalString (qfTypeName field),
               WriteBool (qfIsKey field), WriteBool (qfIsNotNull field)]))
     (thenMW (marshal env (qfDfltVal field))
       (liftW (if SupportsQueryEntityPrecisionAndScale protoCtx
               then seqW [WriteInt32 (ucast (qfPrecision field)), WriteInt32 (ucast (qfScale field))] else skipW)))"

definition marshalQueryIndex :: "QueryIndex \<Rightarrow> writer" where
  "marshalQueryIndex index =
     seqW [marshalString (qiName index), WriteInt8 (qiType index), WriteInt32 (ucast (qiInlineSz index)),
       writeSequence (length (qiFields index)) (\<lambda>idx.
         seqW [marshalString (ifName (qiFields index ! idx)), WriteBool (ifAsc (qiFields index ! idx))])]"

definition marshalQueryEntity :: "ProtocolContext \<Rightarrow> ('d, 'w) env \<Rightarrow> 'd QueryEntity \<Rightarrow> 'w registry mwriter" where
  "marshalQueryEntity protoCtx env entity =
     thenMW (liftW (seqW [marshalString (qeKeyType entity), marshalString (qeValType entity),
               marshalEmptyStringAsNull (qeTblName entity), marshalEmptyStringAsNull (qeKeyFldName entity),
               marshalEmptyStringAsNull (qeValFldName entity)]))
     (thenMW (writeListM (marshalQueryField protoCtx env) (qeFields entity))
     (thenMW (liftW (writeMap (qeAliases entity) (\<lambda>orig alias. seqW [marshalString orig, marshalString alias])))
       (liftW (writeSequence (length (qeIndexes entity)) (\<lambda>idx. marshalQueryIndex (qeIndexes entity ! idx))))))"

definition marshalKeyConfig :: "CacheKeyConfig \<Rightarrow> writer" where
  "marshalKeyConfig keyCfg = seqW [marshalString (keyTypeName keyCfg), marshalString (affKeyFldName keyCfg)]"

fun marshalProp :: "ProtocolContext \<Rightarrow> ('d, 'w) env \<Rightarrow> 'd propValue \<Rightarrow> 'w registry mwriter" where
  "marshalProp protoCtx env (PropString v) = liftW (marshalString v)"
| "marshalProp protoCtx env (PropBool v) = liftW (WriteBool v)"
| "marshalProp protoCtx env (PropInt v) = liftW (WriteInt32 (ucast v))"
| "marshalProp protoCtx env (PropInt32 v) = liftW (WriteInt32 v)"
| "marshalProp protoCtx env (PropInt64 v) = liftW (WriteInt64 v)"
| "marshalProp protoCtx env (PropMode v) = liftW (WriteInt32 v)"
| "marshalProp protoCtx env (PropAtomicity v) = liftW (WriteInt32 v)"
| "marshalProp protoCtx env (PropLoss v) = liftW (WriteInt32 v)"
| "marshalProp protoCtx env (PropSync v) = liftW (WriteInt32 v)"
| "marshalProp protoCtx env (PropRebalance v) = liftW (WriteInt32 v)"
| "marshalProp protoCtx env (PropExpiry v) =
     (if \<not> SupportsExpiryPolicy protoCtx
      then failMW (ErrMsg ''expiry policies are not supported on protocol version'')
      else liftW (case v of None \<Rightarrow> WriteBool False | Some e \<Rightarrow> thenW (WriteBool True) (writeExpiry e)))"
| "marshalProp protoCtx env (PropKeys v) = liftW (writeSequence (length v) (\<lambda>idx. marshalKeyConfig (v ! idx)))"
| "marshalProp protoCtx env (PropEntities v) = writeListM (marshalQueryEntity protoCtx env) v"

definition marshalProps :: "ProtocolContext \<Rightarrow> ('d, 'w) env \<Rightarrow> i16 \<times> 'd propValue \<Rightarrow> 'w registry mwriter" where
  "marshalProps protoCtx env p = thenMW (liftW (WriteInt16 (fst p))) (marshalProp protoCtx env (snd p))"

definition marshalConfig :: "ProtocolContext \<Rightarrow> ('d, 'w) env \<Rightarrow> 'd CacheConfiguration \<Rightarrow> 'w registry mwriter" where
  "marshalConfig protoCtx env config = (\<lambda>bw.
     let origPos = opos bw in
     bindP (liftW (seqW [WriteInt32 0, WriteInt16 (word_of_nat (length config))]) bw) (\<lambda>bw.
     bindP (eachMW (marshalProps protoCtx env) config bw) (\<lambda>bw.
     let finalPos = opos bw in
     liftW (seqW [SetPositionO origPos, WriteInt32 (word_of_int (int finalPos - int origPos - 4)),
       SetPositionO finalPos]) bw)))"

section \<open>Reading\<close>

definition unmarshalQueryField :: "ProtocolContext \<Rightarrow> ('d, 'w) env \<Rightarrow> ('w registry, 'd QueryField) mreader" where
  "unmarshalQueryField protoCtx env =
     bindMR (liftR unmarshalString) (\<lambda>name.
     bindMR (liftR unmarshalString) (\<lambda>tname.
     bindMR (liftR ReadBool) (\<lambda>isKey.
     bindMR (liftR ReadBool) (\<lambda>notNull.
     bindMR (readValue env) (\<lambda>dflt.
     let fld = \<lparr>qfName = name, qfTypeName = tname, qfIsKey = isKey, qfIsNotNull = notNull,
                qfPrecision = - 1, qfScale = - 1, qfDfltVal = dflt\<rparr>
     in if SupportsQueryEntityPrecisionAndScale protoCtx
        then bindMR (liftR ReadInt32) (\<lambda>prec. bindMR (liftR ReadInt32) (\<lambda>sc.
               returnMR (fld\<lparr>qfPrecision := scast prec, qfScale := scast sc\<rparr>)))
        else returnMR fld)))))"

definition readIndexField :: "IndexField reader" where
  "readIndexField = bindR unmarshalString (\<lambda>name. bindR ReadBool (\<lambda>asc. returnR \<lparr>ifName = name, ifAsc = asc\<rparr>))"

definition unmarshalQueryIndex :: "QueryIndex reader" where
  "unmarshalQueryIndex =
     bindR unmarshalString (\<lambda>name.
     bindR ReadInt8 (\<lambda>idxType.
     bindR ReadInt32 (\<lambda>inlineSz.
     bindR (readSlice (\<lambda>_. readIndexField)) (\<lambda>fields.
       returnR \<lparr>qiName = name, qiType = idxType, qiInlineSz = scast inlineSz, qiFields = fields\<rparr>))))"

definition readAlias :: "(string \<times> string) reader" where
  "readAlias = bindR unmarshalString (\<lambda>key. bindR unmarshalString (\<lambda>val. returnR (key, val)))"

text \<open>A count below zero gives no aliases: make of a map takes it for a hint, the loop does not run.\<close>

definition readAliases :: "(string \<times> string) list reader" where
  "readAliases = bindR ReadInt32 (\<lambda>sz. bindR (readN (nat (sint sz)) readAlias) (\<lambda>kvs.
     returnR (fold (\<lambda>(k, v). AList.update k v) kvs [])))"

definition unmarshalQueryEntity :: "ProtocolContext \<Rightarrow> ('d, 'w) env \<Rightarrow> ('w registry, 'd QueryEntity) mreader" where
  "unmarshalQueryEntity protoCtx env =
     bindMR (liftR unmarshalString) (\<lambda>keyT.
     bindMR (liftR unmarshalString) (\<lambda>valT.
     bindMR (liftR unmarshalString) (\<lambda>tbl.
     bindMR (liftR unmarshalString) (\<lambda>keyF.
     bindMR (liftR unmarshalString) (\<lambda>valF.
     bindMR (readSliceM (unmarshalQueryField protoCtx env)) (\<lambda>fields.
     bindMR (liftR readAliases) (\<lambda>aliases.
     bindMR (liftR (readSlice (\<lambda>_. unmarshalQueryIndex))) (\<lambda>indexes.
       returnMR \<lparr>qeKeyType = keyT, qeValType = valT, qeTblName = tbl, qeKeyFldName = keyF, qeValFldName = valF,
                 qeFields = fields, qeAliases = aliases, qeIndexes = indexes\<rparr>))))))))"

definition unmarshalKeyConfig :: "CacheKeyConfig reader" where
  "unmarshalKeyConfig =
     bindR unmarshalString (\<lambda>t. bindR unmarshalString (\<lambda>f. returnR \<lparr>keyTypeName = t, affKeyFldName = f\<rparr>))"

text \<open>The configuration the server sends is read step by step into the map of properties.\<close>

type_synonym ('s, 'd) configStep = "'d CacheConfiguration \<Rightarrow> ('s, 'd CacheConfiguration) mreader"

definition readProp :: "i16 \<Rightarrow> ('s, 'd propValue) mreader \<Rightarrow> ('s, 'd) configStep" where
  "readProp code r config = bindMR r (\<lambda>v. returnMR (AList.update code v config))"

definition skipField :: "'a reader \<Rightarrow> ('s, 'd) configStep" where
  "skipField r config = bindMR (liftR r) (\<lambda>_. returnMR config)"

definition setStringProperty :: "i16 \<Rightarrow> ('s, 'd) configStep" where
  "setStringProperty code config = bindMR (liftR unmarshalString) (\<lambda>val.
     returnMR (if length val > 0 then AList.update code (PropString val) config else config))"

primrec runSteps :: "('s, 'd) configStep list \<Rightarrow> ('s, 'd) configStep" where
  "runSteps [] config = returnMR config"
| "runSteps (f # fs) config = bindMR (f config) (runSteps fs)"

definition mapMR :: "('a \<Rightarrow> 'b) \<Rightarrow> ('s, 'a) mreader \<Rightarrow> ('s, 'b) mreader" where
  "mapMR f r = bindMR r (\<lambda>x. returnMR (f x))"

definition intProp :: "i16 \<Rightarrow> ('s, 'd) configStep" where
  "intProp code = readProp code (mapMR (\<lambda>v. PropInt (scast v)) (liftR ReadInt32))"

definition boolProp :: "i16 \<Rightarrow> ('s, 'd) configStep" where
  "boolProp code = readProp code (mapMR PropBool (liftR ReadBool))"

definition enumProp :: "i16 \<Rightarrow> (i32 \<Rightarrow> 'd propValue) \<Rightarrow> ('s, 'd) configStep" where
  "enumProp code f = readProp code (mapMR f (liftR ReadInt32))"

definition readExpiry :: "('s, 'd) configStep" where
  "readExpiry = readProp expirePolicyProp
     (bindMR (liftR ReadInt64) (\<lambda>c. bindMR (liftR ReadInt64) (\<lambda>u. bindMR (liftR ReadInt64) (\<lambda>a.
        returnMR (PropExpiry (Some
          \<lparr>creation = millisToDuration c, access = millisToDuration a, expUpdate = millisToDuration u\<rparr>))))))"

definition expiryProp :: "ProtocolContext \<Rightarrow> ('s, 'd) configStep" where
  "expiryProp protoCtx config =
     (if \<not> SupportsExpiryPolicy protoCtx then returnMR config
      else bindMR (liftR ReadBool) (\<lambda>has. if \<not> has then returnMR config else readExpiry config))"

definition unmarshalCacheConfiguration :: "ProtocolContext \<Rightarrow> ('d, 'w) env \<Rightarrow> ('w registry, 'd CacheConfiguration) mreader" where
  "unmarshalCacheConfiguration protoCtx env = runSteps
     [skipField ReadInt32,
      enumProp cacheAtomicityModeProp PropAtomicity,
      intProp backupsProp,
      enumProp cacheModeProp PropMode,
      boolProp copyOnReadProp,
      setStringProperty dataRegionNameProp,
      boolProp eagerTtlProp,
      boolProp statsEnabledProp,
      setStringProperty groupNameProp,
      skipField ReadInt64,
      intProp maxAsyncOpsProp,
      intProp maxQueryIteratorsProp,
      setStringProperty cacheNameProp,
      boolProp onHeapCacheEnabledProp,
      enumProp partitionLossPolicyProp PropLoss,
      intProp queryDetailsMetricSizeProp,
      intProp queryParallelismProp,
      boolProp readFromBackupProp,
      skipField ReadInt32,
      skipField ReadInt64,
      skipField ReadInt64,
      enumProp rebalanceModeProp PropRebalance,
      intProp rebalanceOrderProp,
      skipField ReadInt64,
      skipField ReadInt64,
      boolProp sqlEscapeAllProp,
      intProp sqlIndexMaxInlineSizeProp,
      setStringProperty sqlSchemaProp,
      enumProp writeSyncModeProp PropSync,
      readProp cacheKeyConfigProp (mapMR PropKeys (liftR (readSlice (\<lambda>_. unmarshalKeyConfig)))),
      readProp queryEntitiesProp (mapMR PropEntities (readSliceM (unmarshalQueryEntity protoCtx env))),
      expiryProp protoCtx] []"

text \<open>The operation of a cache that asks for its configuration; the marshaller looks at the protocol
  of the client's own channel.\<close>

definition CacheGetConfiguration :: "'w ctx \<Rightarrow> ('d, 'w) Cache \<Rightarrow> ('w registry, 'd CacheConfiguration) prog" where
  "CacheGetConfiguration ctx c =
     cacheOp ctx c opCacheGetConfiguration emptyRequest
       (unmarshalCacheConfiguration (linkProto (cliCh (cacheCli c))) (cacheEnv c))"

section \<open>Getters\<close>

text \<open>A type assertion on the value of a property, one for each type the getters use.\<close>

definition asString :: "'d propValue \<Rightarrow> string option" where
  "asString p = (case p of PropString v \<Rightarrow> Some v | _ \<Rightarrow> None)"
definition asBool :: "'d propValue \<Rightarrow> bool option" where
  "asBool p = (case p of PropBool v \<Rightarrow> Some v | _ \<Rightarrow> None)"
definition asInt :: "'d propValue \<Rightarrow> i64 option" where
  "asInt p = (case p of PropInt v \<Rightarrow> Some v | _ \<Rightarrow> None)"
definition asMode :: "'d propValue \<Rightarrow> i32 option" where
  "asMode p = (case p of PropMode v \<Rightarrow> Some v | _ \<Rightarrow> None)"
definition asAtomicity :: "'d propValue \<Rightarrow> i32 option" where
  "asAtomicity p = (case p of PropAtomicity v \<Rightarrow> Some v | _ \<Rightarrow> None)"
definition asLoss :: "'d propValue \<Rightarrow> i32 option" where
  "asLoss p = (case p of PropLoss v \<Rightarrow> Some v | _ \<Rightarrow> None)"
definition asSync :: "'d propValue \<Rightarrow> i32 option" where
  "asSync p = (case p of PropSync v \<Rightarrow> Some v | _ \<Rightarrow> None)"
definition asRebalance :: "'d propValue \<Rightarrow> i32 option" where
  "asRebalance p = (case p of PropRebalance v \<Rightarrow> Some v | _ \<Rightarrow> None)"
definition asExpiry :: "'d propValue \<Rightarrow> ExpiryPolicy option option" where
  "asExpiry p = (case p of PropExpiry v \<Rightarrow> Some v | _ \<Rightarrow> None)"
definition asKeys :: "'d propValue \<Rightarrow> CacheKeyConfig list option" where
  "asKeys p = (case p of PropKeys v \<Rightarrow> Some v | _ \<Rightarrow> None)"
definition asEntities :: "'d propValue \<Rightarrow> 'd QueryEntity list option" where
  "asEntities p = (case p of PropEntities v \<Rightarrow> Some v | _ \<Rightarrow> None)"

lemmas as_defs = asString_def asBool_def asInt_def asMode_def asAtomicity_def asLoss_def asSync_def asRebalance_def
  asExpiry_def asKeys_def asEntities_def

definition getProperty :: "('d propValue \<Rightarrow> 'a option) \<Rightarrow> 'd CacheConfiguration \<Rightarrow> i16 \<Rightarrow> 'a \<Rightarrow> 'a" where
  "getProperty as config code defaultValue =
     (case map_of config code of None \<Rightarrow> defaultValue
      | Some data \<Rightarrow> (case as data of None \<Rightarrow> defaultValue | Some ret \<Rightarrow> ret))"

definition ConfigName :: "'d CacheConfiguration \<Rightarrow> string" where
  "ConfigName config = getProperty asString config cacheNameProp []"

definition Backups :: "'d CacheConfiguration \<Rightarrow> i64" where
  "Backups config = getProperty asInt config backupsProp 0"

definition ConfigCacheMode :: "'d CacheConfiguration \<Rightarrow> i32" where
  "ConfigCacheMode config = getProperty asMode config cacheModeProp (- 1)"

definition ConfigAtomicityMode :: "'d CacheConfiguration \<Rightarrow> i32" where
  "ConfigAtomicityMode config = getProperty asAtomicity config cacheAtomicityModeProp (- 1)"

definition IsCopyOnRead :: "'d CacheConfiguration \<Rightarrow> bool" where
  "IsCopyOnRead config = getProperty asBool config copyOnReadProp False"

definition DataRegionName :: "'d CacheConfiguration \<Rightarrow> string" where
  "DataRegionName config = getProperty asString config dataRegionNameProp []"

definition IsEagerTtl :: "'d CacheConfiguration \<Rightarrow> bool" where
  "IsEagerTtl config = getProperty asBool config eagerTtlProp False"

definition CacheGroupName :: "'d CacheConfiguration \<Rightarrow> string" where
  "CacheGroupName config = getProperty asString config groupNameProp []"

definition MaxConcurrentAsyncOperations :: "'d CacheConfiguration \<Rightarrow> i64" where
  "MaxConcurrentAsyncOperations config = getProperty asInt config maxAsyncOpsProp 0"

definition MaxQueryIteratorsCount :: "'d CacheConfiguration \<Rightarrow> i64" where
  "MaxQueryIteratorsCount config = getProperty asInt config maxQueryIteratorsProp 0"

definition IsOnHeapCacheEnabled :: "'d CacheConfiguration \<Rightarrow> bool" where
  "IsOnHeapCacheEnabled config = getProperty asBool config onHeapCacheEnabledProp False"

definition ConfigLossPolicy :: "'d CacheConfiguration \<Rightarrow> i32" where
  "ConfigLossPolicy config = getProperty asLoss config partitionLossPolicyProp (- 1)"

definition QueryDetailsMetricsSize :: "'d CacheConfiguration \<Rightarrow> i64" where
  "QueryDetailsMetricsSize config = getProperty asInt config queryDetailsMetricSizeProp 0"

definition QueryParallelism :: "'d CacheConfiguration \<Rightarrow> i64" where
  "QueryParallelism config = getProperty asInt config queryParallelismProp 0"

definition IsReadFromBackup :: "'d CacheConfiguration \<Rightarrow> bool" where
  "IsReadFromBackup config = getProperty asBool config readFromBackupProp False"

definition RebalanceMode :: "'d CacheConfiguration \<Rightarrow> i32" where
  "RebalanceMode config = getProperty asRebalance config rebalanceModeProp 0"

definition RebalanceOrder :: "'d CacheConfiguration \<Rightarrow> i64" where
  "RebalanceOrder config = getProperty asInt config rebalanceOrderProp 0"

definition IsSqlEscapeAll :: "'d CacheConfiguration \<Rightarrow> bool" where
  "IsSqlEscapeAll config = getProperty asBool config sqlEscapeAllProp False"

definition IsStatsEnabled :: "'d CacheConfiguration \<Rightarrow> bool" where
  "IsStatsEnabled config = getProperty asBool config statsEnabledProp False"

definition SqlIndexMaxInlineSize :: "'d CacheConfiguration \<Rightarrow> i64" where
  "SqlIndexMaxInlineSize config = getProperty asInt config sqlIndexMaxInlineSizeProp 0"

definition SqlSchema :: "'d CacheConfiguration \<Rightarrow> string" where
  "SqlSchema config = getProperty asString config sqlSchemaProp []"

definition WriteSynchronizationMode :: "'d CacheConfiguration \<Rightarrow> i32" where
  "WriteSynchronizationMode config = getProperty asSync config writeSyncModeProp (- 1)"

definition ConfigExpiryPolicy :: "'d CacheConfiguration \<Rightarrow> ExpiryPolicy option" where
  "ConfigExpiryPolicy config = getProperty asExpiry config expirePolicyProp None"

definition KeyConfiguration :: "'d CacheConfiguration \<Rightarrow> CacheKeyConfig list" where
  "KeyConfiguration config = getProperty asKeys config cacheKeyConfigProp []"

definition QueryEntities :: "'d CacheConfiguration \<Rightarrow> 'd QueryEntity list" where
  "QueryEntities config = getProperty asEntities config queryEntitiesProp []"

section \<open>Options\<close>

definition setProperty :: "i16 \<Rightarrow> 'd propValue \<Rightarrow> 'd configOption" where
  "setProperty code v config = AList.update code v config"

text \<open>A name of white space only is ignored.\<close>

definition setName :: "i16 \<Rightarrow> string \<Rightarrow> 'd configOption" where
  "setName code name config =
     (let name = TrimSpace name in if length name > 0 then setProperty code (PropString name) config else config)"

definition WithCacheName :: "string \<Rightarrow> 'd configOption" where
  "WithCacheName = setName cacheNameProp"

definition WithCacheGroupName :: "string \<Rightarrow> 'd configOption" where
  "WithCacheGroupName = setName groupNameProp"

definition WithDataRegionName :: "string \<Rightarrow> 'd configOption" where
  "WithDataRegionName = setName dataRegionNameProp"

definition WithSqlSchema :: "string \<Rightarrow> 'd configOption" where
  "WithSqlSchema = setName sqlSchemaProp"

definition WithBackupsCount :: "i64 \<Rightarrow> 'd configOption" where
  "WithBackupsCount v = setProperty backupsProp (PropInt v)"

definition WithWriteSynchronizationMode :: "i32 \<Rightarrow> 'd configOption" where
  "WithWriteSynchronizationMode v = setProperty writeSyncModeProp (PropSync v)"

definition WithCopyOnRead :: "bool \<Rightarrow> 'd configOption" where
  "WithCopyOnRead v = setProperty copyOnReadProp (PropBool v)"

definition WithReadFromBackup :: "bool \<Rightarrow> 'd configOption" where
  "WithReadFromBackup v = setProperty readFromBackupProp (PropBool v)"

definition WithOnHeapCacheEnabled :: "bool \<Rightarrow> 'd configOption" where
  "WithOnHeapCacheEnabled v = setProperty onHeapCacheEnabledProp (PropBool v)"

definition WithCacheMode :: "i32 \<Rightarrow> 'd configOption" where
  "WithCacheMode v = setProperty cacheModeProp (PropMode v)"

definition WithCacheAtomicityMode :: "i32 \<Rightarrow> 'd configOption" where
  "WithCacheAtomicityMode v = setProperty cacheAtomicityModeProp (PropAtomicity v)"

definition WithQueryParallelism :: "i64 \<Rightarrow> 'd configOption" where
  "WithQueryParallelism v = setProperty queryParallelismProp (PropInt v)"

definition WithQueryDetailsMetricsSize :: "i64 \<Rightarrow> 'd configOption" where
  "WithQueryDetailsMetricsSize v = setProperty queryDetailsMetricSizeProp (PropInt v)"

definition WithSqlIndexMaxInlineSize :: "i64 \<Rightarrow> 'd configOption" where
  "WithSqlIndexMaxInlineSize v = setProperty sqlIndexMaxInlineSizeProp (PropInt v)"

definition WithSqlEscapeAll :: "bool \<Rightarrow> 'd configOption" where
  "WithSqlEscapeAll v = setProperty sqlEscapeAllProp (PropBool v)"

definition WithRebalanceMode :: "i32 \<Rightarrow> 'd configOption" where
  "WithRebalanceMode v = setProperty rebalanceModeProp (PropRebalance v)"

definition WithRebalanceOrder :: "i64 \<Rightarrow> 'd configOption" where
  "WithRebalanceOrder v = setProperty rebalanceOrderProp (PropInt v)"

definition WithMaxConcurrentAsyncOperations :: "i64 \<Rightarrow> 'd configOption" where
  "WithMaxConcurrentAsyncOperations v = setProperty maxAsyncOpsProp (PropInt v)"

definition WithPartitionLossPolicy :: "i32 \<Rightarrow> 'd configOption" where
  "WithPartitionLossPolicy v = setProperty partitionLossPolicyProp (PropLoss v)"

definition WithMaxQueryIteratorsCount :: "i64 \<Rightarrow> 'd configOption" where
  "WithMaxQueryIteratorsCount v = setProperty maxQueryIteratorsProp (PropInt v)"

definition WithEagerTtl :: "bool \<Rightarrow> 'd configOption" where
  "WithEagerTtl v = setProperty eagerTtlProp (PropBool v)"

definition WithStatsEnabled :: "bool \<Rightarrow> 'd configOption" where
  "WithStatsEnabled v = setProperty statsEnabledProp (PropBool v)"

definition ConfigWithExpiryPolicy :: "i64 \<Rightarrow> i64 \<Rightarrow> i64 \<Rightarrow> 'd configOption" where
  "ConfigWithExpiryPolicy creationD accessD updateD =
     setProperty expirePolicyProp (PropExpiry (Some \<lparr>creation = creationD, access = accessD, expUpdate = updateD\<rparr>))"

text \<open>The value of the property is of the asserted type in every configuration made by the options.\<close>

definition WithCacheKeyConfiguration :: "string \<Rightarrow> string \<Rightarrow> 'd configOption" where
  "WithCacheKeyConfiguration typeName affinityKeyField config =
     (let keyConfigs = getProperty asKeys config cacheKeyConfigProp [] in
      if \<exists>keyConfig \<in> set keyConfigs. affKeyFldName keyConfig = affinityKeyField then config
      else setProperty cacheKeyConfigProp
             (PropKeys (keyConfigs @ [\<lparr>keyTypeName = typeName, affKeyFldName = affinityKeyField\<rparr>])) config)"

definition WithQueryEntity :: "string \<Rightarrow> string \<Rightarrow> ('d QueryEntity \<Rightarrow> 'd QueryEntity) list \<Rightarrow> 'd configOption" where
  "WithQueryEntity keyType valueType opts config =
     (let queryEntities = getProperty asEntities config queryEntitiesProp [] in
      if \<exists>ent \<in> set queryEntities. valueType = qeValType ent then config
      else
        let entity = \<lparr>qeKeyType = keyType, qeValType = valueType, qeTblName = [], qeKeyFldName = [], qeValFldName = [],
              qeFields = [], qeAliases = [], qeIndexes = []\<rparr>;
            entity = fold (\<lambda>opt. opt) opts entity
        in setProperty queryEntitiesProp (PropEntities (queryEntities @ [entity])) config)"

definition WithTableName :: "string \<Rightarrow> 'd QueryEntity \<Rightarrow> 'd QueryEntity" where
  "WithTableName name entity =
     (let name = TrimSpace name in if length name > 0 then entity\<lparr>qeTblName := name\<rparr> else entity)"

definition WithKeyFieldName :: "string \<Rightarrow> 'd QueryEntity \<Rightarrow> 'd QueryEntity" where
  "WithKeyFieldName name entity =
     (let name = TrimSpace name in if length name > 0 then entity\<lparr>qeKeyFldName := name\<rparr> else entity)"

definition WithValueFieldName :: "string \<Rightarrow> 'd QueryEntity \<Rightarrow> 'd QueryEntity" where
  "WithValueFieldName name entity =
     (let name = TrimSpace name in if length name > 0 then entity\<lparr>qeValFldName := name\<rparr> else entity)"

definition WithQueryField :: "string \<Rightarrow> string \<Rightarrow> ('d QueryField \<Rightarrow> 'd QueryField) list \<Rightarrow> 'd QueryEntity \<Rightarrow> 'd QueryEntity" where
  "WithQueryField name typeName opts entity =
     (let field = \<lparr>qfName = name, qfTypeName = typeName, qfIsKey = False, qfIsNotNull = False,
            qfPrecision = - 1, qfScale = - 1, qfDfltVal = VNil\<rparr>
      in entity\<lparr>qeFields := qeFields entity @ [fold (\<lambda>opt. opt) opts field]\<rparr>)"

definition WithNotNull :: "'d QueryField \<Rightarrow> 'd QueryField" where
  "WithNotNull field = field\<lparr>qfIsNotNull := True\<rparr>"

definition WithKey :: "'d QueryField \<Rightarrow> 'd QueryField" where
  "WithKey field = field\<lparr>qfIsKey := True\<rparr>"

definition WithDefaultValue :: "'d goval \<Rightarrow> 'd QueryField \<Rightarrow> 'd QueryField" where
  "WithDefaultValue val field = field\<lparr>qfDfltVal := val\<rparr>"

definition WithScale :: "i64 \<Rightarrow> 'd QueryField \<Rightarrow> 'd QueryField" where
  "WithScale sc field = field\<lparr>qfScale := sc\<rparr>"

definition WithPrecision :: "i64 \<Rightarrow> 'd QueryField \<Rightarrow> 'd QueryField" where
  "WithPrecision prec field = field\<lparr>qfPrecision := prec\<rparr>"

definition WithFieldAlias :: "string \<Rightarrow> string \<Rightarrow> 'd QueryEntity \<Rightarrow> 'd QueryEntity" where
  "WithFieldAlias origName alias entity = entity\<lparr>qeAliases := AList.update origName alias (qeAliases entity)\<rparr>"

definition WithIndex :: "string \<Rightarrow> (QueryIndex \<Rightarrow> QueryIndex) list \<Rightarrow> 'd QueryEntity \<Rightarrow> 'd QueryEntity" where
  "WithIndex name opts entity =
     (if \<exists>idx \<in> set (qeIndexes entity). qiName idx = name then entity
      else let idx = \<lparr>qiName = name, qiType = 0, qiInlineSz = - 1, qiFields = []\<rparr>
           in entity\<lparr>qeIndexes := qeIndexes entity @ [fold (\<lambda>opt. opt) opts idx]\<rparr>)"

definition WithIndexType :: "byte \<Rightarrow> QueryIndex \<Rightarrow> QueryIndex" where
  "WithIndexType indexType index = index\<lparr>qiType := indexType\<rparr>"

definition WithInlineSize :: "i64 \<Rightarrow> QueryIndex \<Rightarrow> QueryIndex" where
  "WithInlineSize inlineSize index = index\<lparr>qiInlineSz := inlineSize\<rparr>"

definition WithIndexField :: "IndexField \<Rightarrow> QueryIndex \<Rightarrow> QueryIndex" where
  "WithIndexField field index =
     (if \<exists>f \<in> set (qiFields index). ifName f = ifName field then index
      else index\<lparr>qiFields := qiFields index @ [field]\<rparr>)"

section \<open>Making and copying configurations\<close>

definition CreateCacheConfiguration :: "string \<Rightarrow> 'd configOption list \<Rightarrow> 'd CacheConfiguration" where
  "CreateCacheConfiguration name opts = fold (\<lambda>opt. opt) opts [(cacheNameProp, PropString name)]"

text \<open>Slices and maps are values here, so that a copy of one is itself; what is left of Copy is what
  it does with empty ones.\<close>

definition copyIndex :: "QueryIndex \<Rightarrow> QueryIndex" where
  "copyIndex q = \<lparr>qiName = qiName q, qiType = qiType q, qiInlineSz = qiInlineSz q,
     qiFields = (if length (qiFields q) > 0 then qiFields q else [])\<rparr>"

definition copyEntity :: "'d QueryEntity \<Rightarrow> 'd QueryEntity" where
  "copyEntity q = \<lparr>qeKeyType = qeKeyType q, qeValType = qeValType q, qeTblName = qeTblName q,
     qeKeyFldName = qeKeyFldName q, qeValFldName = qeValFldName q,
     qeFields = (if length (qeFields q) > 0 then qeFields q else []),
     qeAliases = (if length (qeAliases q) > 0 then qeAliases q else []),
     qeIndexes = (if length (qeIndexes q) > 0 then map copyIndex (qeIndexes q) else [])\<rparr>"

definition copyProp :: "i16 \<times> 'd propValue \<Rightarrow> 'd CacheConfiguration" where
  "copyProp p = (case snd p of
     PropEntities val \<Rightarrow> if length val > 0 then [(fst p, PropEntities (map copyEntity val))] else []
   | PropKeys val \<Rightarrow> if length val > 0 then [p] else []
   | _ \<Rightarrow> [p])"

definition CopyConfiguration :: "'d configOption list \<Rightarrow> 'd CacheConfiguration \<Rightarrow> 'd CacheConfiguration" where
  "CopyConfiguration opts config = fold (\<lambda>opt. opt) opts (concat (map copyProp config))"

end
