(* ===== verification/CacheConfigProps.thy ===== *)
theory CacheConfigProps
  imports CacheConfig SchemaWire CacheProps
begin

text \<open>
  Query entities and configurations on the wire: what the writers of cache_configuration.go emit,
  what the readers make of it, and the values of all getters as one record. The properties are in
  CacheOptions.
\<close>

declare seqW.simps [simp del] unmarshal.simps [simp del]

section \<open>Query entities on the wire\<close>

definition encQField :: "ProtocolContext \<Rightarrow> 'd apd \<Rightarrow> 'd QueryField \<Rightarrow> byte list" where
  "encQField P A f = encString (qfName f) @ encString (qfTypeName f) @ [boolByte (qfIsKey f)] @ [boolByte (qfIsNotNull f)] @
     encode A (qfDfltVal f) @
     (if SupportsQueryEntityPrecisionAndScale P then encI32 (ucast (qfPrecision f)) @ encI32 (ucast (qfScale f)) else [])"

definition canonQField :: "ProtocolContext \<Rightarrow> 'd QueryField \<Rightarrow> 'd QueryField" where
  "canonQField P f =
     (let int32 = (\<lambda>v. if SupportsQueryEntityPrecisionAndScale P then scast (ucast (v :: i64) :: i32) else - 1)
      in f\<lparr>qfPrecision := int32 (qfPrecision f), qfScale := int32 (qfScale f), qfDfltVal := canon (qfDfltVal f)\<rparr>)"

definition qfield_ok :: "'d apd \<Rightarrow> ('d \<Rightarrow> bool) \<Rightarrow> 'd QueryField \<Rightarrow> bool" where
  "qfield_ok A fin f \<longleftrightarrow> small (length (qfName f)) \<and> small (length (qfTypeName f)) \<and> plain A fin (qfDfltVal f)"

definition encIndexField :: "IndexField \<Rightarrow> byte list" where
  "encIndexField f = encString (ifName f) @ [boolByte (ifAsc f)]"

definition encIndex :: "QueryIndex \<Rightarrow> byte list" where
  "encIndex i = encString (qiName i) @ [qiType i] @ encI32 (ucast (qiInlineSz i)) @
     lenBytes (length (qiFields i)) @ concat (map encIndexField (qiFields i))"

definition canonIndex :: "QueryIndex \<Rightarrow> QueryIndex" where
  "canonIndex i = i\<lparr>qiInlineSz := scast (ucast (qiInlineSz i) :: i32)\<rparr>"

definition index_ok :: "QueryIndex \<Rightarrow> bool" where
  "index_ok i \<longleftrightarrow> small (length (qiName i)) \<and> small (length (qiFields i)) \<and>
     (\<forall>f \<in> set (qiFields i). small (length (ifName f)))"

definition encAlias :: "string \<times> string \<Rightarrow> byte list" where
  "encAlias p = encString (fst p) @ encString (snd p)"

definition encEntity :: "ProtocolContext \<Rightarrow> 'd apd \<Rightarrow> 'd QueryEntity \<Rightarrow> byte list" where
  "encEntity P A e = encString (qeKeyType e) @ encString (qeValType e) @ encOptString (qeTblName e) @
     encOptString (qeKeyFldName e) @ encOptString (qeValFldName e) @
     (lenBytes (length (qeFields e)) @ concat (map (encQField P A) (qeFields e))) @
     (lenBytes (length (qeAliases e)) @ concat (map encAlias (qeAliases e))) @
     (lenBytes (length (qeIndexes e)) @ concat (map encIndex (qeIndexes e)))"

definition canonEntity :: "ProtocolContext \<Rightarrow> 'd QueryEntity \<Rightarrow> 'd QueryEntity" where
  "canonEntity P e = e\<lparr>qeFields := map (canonQField P) (qeFields e), qeIndexes := map canonIndex (qeIndexes e)\<rparr>"

definition entity_ok :: "'d apd \<Rightarrow> ('d \<Rightarrow> bool) \<Rightarrow> 'd QueryEntity \<Rightarrow> bool" where
  "entity_ok A fin e \<longleftrightarrow> small (length (qeKeyType e)) \<and> small (length (qeValType e)) \<and> small (length (qeTblName e)) \<and>
     small (length (qeKeyFldName e)) \<and> small (length (qeValFldName e)) \<and>
     small (length (qeFields e)) \<and> (\<forall>f \<in> set (qeFields e). qfield_ok A fin f) \<and>
     small (length (qeAliases e)) \<and> distinct (map fst (qeAliases e)) \<and>
     (\<forall>(k, v) \<in> set (qeAliases e). small (length k) \<and> small (length v)) \<and>
     small (length (qeIndexes e)) \<and> (\<forall>i \<in> set (qeIndexes e). index_ok i)"

subsection \<open>Writing\<close>

lemmas string_writes = writes_encString writes_encOptString

lemma mwrites_field:
  assumes "apd_ok (envApd env) fin" and "qfield_ok (envApd env) fin f"
  shows "mwrites (marshalQueryField P env f) (encQField P (envApd env) f)"
proof -
  have 1: "writes (seqW [marshalString (qfName f), marshalString (qfTypeName f), WriteBool (qfIsKey f), WriteBool (qfIsNotNull f)])
      (encString (qfName f) @ encString (qfTypeName f) @ [boolByte (qfIsKey f)] @ [boolByte (qfIsNotNull f)])"
    by (rule writes_cong, (rule writes_parts string_writes)+) simp
  have 2: "writes (if SupportsQueryEntityPrecisionAndScale P
        then seqW [WriteInt32 (ucast (qfPrecision f)), WriteInt32 (ucast (qfScale f))] else skipW)
      (if SupportsQueryEntityPrecisionAndScale P then encI32 (ucast (qfPrecision f)) @ encI32 (ucast (qfScale f)) else [])"
    by (simp add: writes_skip writes_two writes_i32)
  have "plain (envApd env) fin (qfDfltVal f)" using assms(2) by (simp add: qfield_ok_def)
  then show ?thesis unfolding marshalQueryField_def encQField_def
    by (intro mwrites_cong [OF mwrites_then [OF mwrites_lift [OF 1] mwrites_then [OF mwrites_marshal [OF assms(1)] mwrites_lift [OF 2]]]])
       simp_all
qed

lemma writes_index: "writes (marshalQueryIndex i) (encIndex i)"
proof -
  have "writes (seqW [marshalString (ifName f), WriteBool (ifAsc f)]) (encIndexField f)" for f
    unfolding encIndexField_def by (rule writes_two) (simp_all add: string_writes wire)
  then have f: "writes (writeSequence (length (qiFields i)) (\<lambda>idx.
         seqW [marshalString (ifName (qiFields i ! idx)), WriteBool (ifAsc (qiFields i ! idx))]))
      (lenBytes (length (qiFields i)) @ concat (map encIndexField (qiFields i)))"
    by (rule writes_writeSequence [where w = "\<lambda>f. seqW [marshalString (ifName f), WriteBool (ifAsc f)]"])
  show ?thesis unfolding marshalQueryIndex_def encIndex_def
    by (rule writes_cong, (rule writes_parts string_writes f)+) simp
qed

lemma writes_aliases:
  "writes (writeMap m (\<lambda>orig alias. seqW [marshalString orig, marshalString alias])) (lenBytes (length m) @ concat (map encAlias m))"
  using writes_writeMap [of m "\<lambda>orig alias. seqW [marshalString orig, marshalString alias]" encAlias]
  by (simp add: encAlias_def encSeq_def writes_two string_writes)

lemma mwrites_entity:
  assumes "apd_ok (envApd env) fin" and "entity_ok (envApd env) fin e"
  shows "mwrites (marshalQueryEntity P env e) (encEntity P (envApd env) e)"
proof -
  have 1: "writes (seqW [marshalString (qeKeyType e), marshalString (qeValType e),
               marshalEmptyStringAsNull (qeTblName e), marshalEmptyStringAsNull (qeKeyFldName e),
               marshalEmptyStringAsNull (qeValFldName e)])
      (encString (qeKeyType e) @ encString (qeValType e) @ encOptString (qeTblName e) @
       encOptString (qeKeyFldName e) @ encOptString (qeValFldName e))"
    by (rule writes_cong, (rule writes_parts string_writes)+) simp
  have 2: "mwrites (writeListM (marshalQueryField P env) (qeFields e))
      (lenBytes (length (qeFields e)) @ concat (map (encQField P (envApd env)) (qeFields e)))"
    using assms by (intro mwrites_listM mwrites_field) (auto simp: entity_ok_def)
  have 3: "writes (writeSequence (length (qeIndexes e)) (\<lambda>idx. marshalQueryIndex (qeIndexes e ! idx)))
      (lenBytes (length (qeIndexes e)) @ concat (map encIndex (qeIndexes e)))"
    by (rule writes_writeSequence [OF writes_index])
  show ?thesis unfolding marshalQueryEntity_def encEntity_def
    by (rule mwrites_cong [OF mwrites_then [OF mwrites_lift [OF 1] mwrites_then [OF 2
        mwrites_then [OF mwrites_lift [OF writes_aliases] mwrites_lift [OF 3]]]]]) simp
qed

subsection \<open>Reading\<close>

lemma reads_readN:
  "(\<And>x. x \<in> set xs \<Longrightarrow> reads r (enc x) (f x)) \<Longrightarrow> reads (readN (length xs) r) (concat (map enc xs)) (map f xs)"
proof (induction xs)
  case (Cons x xs)
  then have 1: "reads r (enc x) (f x)" and 2: "reads (readN (length xs) r) (concat (map enc xs)) (map f xs)" by simp_all
  have "reads (readN (length (x # xs)) r) (enc x @ concat (map enc xs)) (f x # map f xs)"
    unfolding list.size add_Suc_right add_0_right readN.simps by (rule reads_bind [OF 1 reads_bind_return [OF 2]])
  then show ?case by simp
qed (simp add: reads_return)

lemma reads_indexField: "small (length (ifName f)) \<Longrightarrow> reads readIndexField (encIndexField f) f"
proof -
  have "reads (bindR ReadBool (\<lambda>asc. returnR \<lparr>ifName = ifName f, ifAsc = asc\<rparr>)) [boolByte (ifAsc f)]
      \<lparr>ifName = ifName f, ifAsc = ifAsc f\<rparr>" by (rule reads_bind_return [OF reads_prims(3)])
  then have "reads (bindR ReadBool (\<lambda>asc. returnR \<lparr>ifName = ifName f, ifAsc = asc\<rparr>)) [boolByte (ifAsc f)] f"
    by (cases f) simp
  moreover assume "small (length (ifName f))"
  ultimately show ?thesis unfolding readIndexField_def encIndexField_def by (intro reads_bind [OF reads_encString])
qed

lemma reads_index: "index_ok i \<Longrightarrow> reads unmarshalQueryIndex (encIndex i) (canonIndex i)"
proof -
  assume ok: "index_ok i"
  then have s: "small (length (qiName i))" and n: "small (length (qiFields i))"
    and f: "\<And>f. f \<in> set (qiFields i) \<Longrightarrow> reads readIndexField (encIndexField f) f"
    by (auto simp: index_ok_def reads_indexField)
  have fs: "reads (readSlice (\<lambda>_. readIndexField)) (lenBytes (length (qiFields i)) @ concat (map encIndexField (qiFields i))) (qiFields i)"
    using reads_readSlice [where canon = "\<lambda>f. f", OF f n] by simp
  show ?thesis unfolding unmarshalQueryIndex_def encIndex_def canonIndex_def
    by (rule reads_bind [OF reads_encString [OF s]], rule reads_bind [OF reads_prims(2)], rule reads_bind [OF reads_words(3)],
        rule reads_cong [OF reads_bind_return [OF fs]]) simp_all
qed

lemma reads_aliases:
  assumes "small (length m)" and "distinct (map fst m)" and "\<forall>(k, v) \<in> set m. small (length k) \<and> small (length v)"
  shows "reads readAliases (lenBytes (length m) @ concat (map encAlias m)) m"
proof -
  have a: "reads readAlias (encAlias p) p" if "p \<in> set m" for p
  proof -
    have "small (length (fst p))" "small (length (snd p))" using assms(3) that by auto
    then show ?thesis unfolding readAlias_def encAlias_def
      by (cases p) (intro reads_bind [OF reads_encString] reads_cong [OF reads_bind_return [OF reads_encString]]; simp)
  qed
  have "reads (readN (nat (sint (word_of_nat (length m) :: i32))) readAlias) (concat (map encAlias m)) m"
    using reads_readN [where f = "\<lambda>p. p", OF a] assms(1) by (simp add: sint_small)
  then have "reads (bindR (readN (nat (sint (word_of_nat (length m) :: i32))) readAlias) (\<lambda>kvs. returnR (toMap kvs)))
      (concat (map encAlias m)) (toMap m)" by (rule reads_bind_return)
  then have "reads (bindR (readN (nat (sint (word_of_nat (length m) :: i32))) readAlias) (\<lambda>kvs.
      returnR (fold (\<lambda>(k, v). AList.update k v) kvs []))) (concat (map encAlias m)) m"
    using toMap_distinct [OF assms(2)] by (simp add: toMap_def)
  then show ?thesis unfolding readAliases_def by (rule reads_bind [OF reads_len])
qed

lemma canonQField_eq:
  "canonQField P f = \<lparr>qfName = qfName f, qfTypeName = qfTypeName f, qfIsKey = qfIsKey f, qfIsNotNull = qfIsNotNull f,
     qfPrecision = (if SupportsQueryEntityPrecisionAndScale P then scast (ucast (qfPrecision f) :: i32) else - 1),
     qfScale = (if SupportsQueryEntityPrecisionAndScale P then scast (ucast (qfScale f) :: i32) else - 1),
     qfDfltVal = canon (qfDfltVal f)\<rparr>"
  by (cases f) (simp add: canonQField_def)

lemma canonEntity_eq:
  "canonEntity P e = \<lparr>qeKeyType = qeKeyType e, qeValType = qeValType e, qeTblName = qeTblName e,
     qeKeyFldName = qeKeyFldName e, qeValFldName = qeValFldName e, qeFields = map (canonQField P) (qeFields e),
     qeAliases = qeAliases e, qeIndexes = map canonIndex (qeIndexes e)\<rparr>"
  by (cases e) (simp add: canonEntity_def)

lemma mreads_field:
  assumes "apd_ok (envApd env) fin" and "qfield_ok (envApd env) fin f"
  shows "mreads (unmarshalQueryField P env) (encQField P (envApd env) f) (canonQField P f)"
proof -
  have s: "small (length (qfName f))" "small (length (qfTypeName f))" and p: "plain (envApd env) fin (qfDfltVal f)"
    using assms(2) by (simp_all add: qfield_ok_def)
  let ?k = "\<lambda>dflt. let fld = \<lparr>qfName = qfName f, qfTypeName = qfTypeName f, qfIsKey = qfIsKey f, qfIsNotNull = qfIsNotNull f,
                qfPrecision = - 1, qfScale = - 1, qfDfltVal = dflt\<rparr>
     in if SupportsQueryEntityPrecisionAndScale P
        then bindMR (liftR ReadInt32) (\<lambda>prec. bindMR (liftR ReadInt32) (\<lambda>sc.
               returnMR (fld\<lparr>qfPrecision := scast prec, qfScale := scast sc\<rparr>)))
        else returnMR fld"
  have "mreads (?k (canon (qfDfltVal f)))
     (if SupportsQueryEntityPrecisionAndScale P then encI32 (ucast (qfPrecision f)) @ encI32 (ucast (qfScale f)) else [])
     (canonQField P f)"
    by (auto simp: Let_def canonQField_eq mreads_return intro!: mreads_bind [OF mreads_lift [OF reads_words(3)]]
          mreads_cong [OF mreads_bind_return [OF mreads_lift [OF reads_words(3)]]])
  then show ?thesis unfolding unmarshalQueryField_def encQField_def
    by (rule mreads_bind [OF mreads_lift [OF reads_encString [OF s(1)]] mreads_bind [OF mreads_lift [OF reads_encString [OF s(2)]]
        mreads_bind [OF mreads_lift [OF reads_prims(3)] mreads_bind [OF mreads_lift [OF reads_prims(3)]
        mreads_bind [OF mreads_readValue [OF assms(1) p]]]]]])
qed

lemma mreads_entity:
  assumes "apd_ok (envApd env) fin" and "entity_ok (envApd env) fin e"
  shows "mreads (unmarshalQueryEntity P env) (encEntity P (envApd env) e) (canonEntity P e)"
proof -
  have s: "small (length (qeKeyType e))" "small (length (qeValType e))" "small (length (qeTblName e))"
    "small (length (qeKeyFldName e))" "small (length (qeValFldName e))"
    using assms(2) by (simp_all add: entity_ok_def)
  have f: "mreads (readSliceM (unmarshalQueryField P env))
      (lenBytes (length (qeFields e)) @ concat (map (encQField P (envApd env)) (qeFields e))) (map (canonQField P) (qeFields e))"
    using assms by (intro mreads_readSliceM ballI mreads_field) (auto simp: entity_ok_def)
  have a: "reads readAliases (lenBytes (length (qeAliases e)) @ concat (map encAlias (qeAliases e))) (qeAliases e)"
    using assms(2) by (intro reads_aliases) (simp_all add: entity_ok_def)
  have i: "reads (readSlice (\<lambda>_. unmarshalQueryIndex))
      (lenBytes (length (qeIndexes e)) @ concat (map encIndex (qeIndexes e))) (map canonIndex (qeIndexes e))"
    using assms(2) by (intro reads_readSlice reads_index) (auto simp: entity_ok_def)
  show ?thesis unfolding unmarshalQueryEntity_def encEntity_def canonEntity_eq
    by (rule mreads_bind [OF mreads_lift [OF reads_encString [OF s(1)]]], rule mreads_bind [OF mreads_lift [OF reads_encString [OF s(2)]]],
        rule mreads_bind [OF mreads_lift [OF reads_encOptString [OF s(3)]]], rule mreads_bind [OF mreads_lift [OF reads_encOptString [OF s(4)]]],
        rule mreads_bind [OF mreads_lift [OF reads_encOptString [OF s(5)]]], rule mreads_bind [OF f], rule mreads_bind [OF mreads_lift [OF a]],
        rule mreads_bind_return [OF mreads_lift [OF i]])
qed

section \<open>The configuration of the server\<close>

text \<open>What the server says of a cache, field by field; the deprecated fields it still sends are
  arbitrary.\<close>

record 'd serverConfig =
  scAtomicity :: i32
  scBackups :: i32
  scMode :: i32
  scCopyOnRead :: bool
  scDataRegion :: string
  scEagerTtl :: bool
  scStats :: bool
  scGroup :: string
  scMaxAsync :: i32
  scMaxIterators :: i32
  scName :: string
  scOnHeap :: bool
  scLoss :: i32
  scMetrics :: i32
  scParallelism :: i32
  scFromBackup :: bool
  scRebalance :: i32
  scRebalanceOrder :: i32
  scEscapeAll :: bool
  scMaxInline :: i32
  scSchema :: string
  scSync :: i32
  scKeys :: "CacheKeyConfig list"
  scEntities :: "'d QueryEntity list"
  scExpiry :: "(i64 \<times> i64 \<times> i64) option"
  scOld32 :: "i32 \<times> i32"
  scOld64 :: "i64 \<times> i64 \<times> i64 \<times> i64 \<times> i64"

definition encKeyConfig :: "CacheKeyConfig \<Rightarrow> byte list" where
  "encKeyConfig k = encString (keyTypeName k) @ encString (affKeyFldName k)"

definition encServerExpiry :: "ProtocolContext \<Rightarrow> (i64 \<times> i64 \<times> i64) option \<Rightarrow> byte list" where
  "encServerExpiry P e =
     (if \<not> SupportsExpiryPolicy P then []
      else case e of None \<Rightarrow> [boolByte False] | Some (c, u, a) \<Rightarrow> [boolByte True] @ encI64 c @ encI64 u @ encI64 a)"

definition serverBytes :: "ProtocolContext \<Rightarrow> 'd apd \<Rightarrow> 'd serverConfig \<Rightarrow> byte list" where
  "serverBytes P A c = (case scOld64 c of (l, p, d, t, o') \<Rightarrow> concat
     [encI32 (fst (scOld32 c)), encI32 (scAtomicity c), encI32 (scBackups c), encI32 (scMode c),
      [boolByte (scCopyOnRead c)], encOptString (scDataRegion c), [boolByte (scEagerTtl c)], [boolByte (scStats c)],
      encOptString (scGroup c), encI64 l, encI32 (scMaxAsync c), encI32 (scMaxIterators c), encOptString (scName c),
      [boolByte (scOnHeap c)], encI32 (scLoss c), encI32 (scMetrics c), encI32 (scParallelism c),
      [boolByte (scFromBackup c)], encI32 (snd (scOld32 c)), encI64 p, encI64 d, encI32 (scRebalance c),
      encI32 (scRebalanceOrder c), encI64 t, encI64 o', [boolByte (scEscapeAll c)], encI32 (scMaxInline c),
      encOptString (scSchema c), encI32 (scSync c),
      lenBytes (length (scKeys c)) @ concat (map encKeyConfig (scKeys c)),
      lenBytes (length (scEntities c)) @ concat (map (encEntity P A) (scEntities c)),
      encServerExpiry P (scExpiry c)])"

definition server_ok :: "'d apd \<Rightarrow> ('d \<Rightarrow> bool) \<Rightarrow> 'd serverConfig \<Rightarrow> bool" where
  "server_ok A fin c \<longleftrightarrow> small (length (scDataRegion c)) \<and> small (length (scGroup c)) \<and> small (length (scName c)) \<and>
     small (length (scSchema c)) \<and> small (length (scKeys c)) \<and>
     (\<forall>k \<in> set (scKeys c). small (length (keyTypeName k)) \<and> small (length (affKeyFldName k))) \<and>
     small (length (scEntities c)) \<and> (\<forall>e \<in> set (scEntities c). entity_ok A fin e)"

text \<open>A step of the reading consumes its bytes and changes the properties in a known way.\<close>

definition stepReads :: "('s, 'd) configStep \<Rightarrow> byte list \<Rightarrow> ('d CacheConfiguration \<Rightarrow> 'd CacheConfiguration) \<Rightarrow> bool" where
  "stepReads f bs g \<longleftrightarrow> (\<forall>config. mreads (f config) bs (g config))"

definition withString :: "i16 \<Rightarrow> string \<Rightarrow> 'd CacheConfiguration \<Rightarrow> 'd CacheConfiguration" where
  "withString code v config = (if length v > 0 then AList.update code (PropString v) config else config)"

lemma step_prop: "mreads r bs v \<Longrightarrow> stepReads (readProp code r) bs (AList.update code v)"
  unfolding stepReads_def readProp_def by (intro allI, rule mreads_bind_return)

lemma step_skip: "reads r bs v \<Longrightarrow> stepReads (skipField r) bs (\<lambda>config. config)"
  unfolding stepReads_def skipField_def by (intro allI, rule mreads_bind_return, rule mreads_lift)

lemma step_string: "small (length v) \<Longrightarrow> stepReads (setStringProperty code) (encOptString v) (withString code v)"
  unfolding stepReads_def setStringProperty_def withString_def
  by (intro allI, rule mreads_bind_return, rule mreads_lift, rule reads_encOptString)

lemma mreads_mapMR: "mreads r bs x \<Longrightarrow> mreads (mapMR f r) bs (f x)"
  unfolding mapMR_def by (rule mreads_bind_return)

lemma step_scalars:
  "stepReads (intProp code) (encI32 v) (AList.update code (PropInt (scast v)))"
  "stepReads (boolProp code) [boolByte b] (AList.update code (PropBool b))"
  "stepReads (enumProp code h) (encI32 v) (AList.update code (h v))"
  unfolding intProp_def boolProp_def enumProp_def
  by (rule step_prop, rule mreads_mapMR, rule mreads_lift, simp add: wire)+

definition withExpiry :: "ProtocolContext \<Rightarrow> (i64 \<times> i64 \<times> i64) option \<Rightarrow> 'd CacheConfiguration \<Rightarrow> 'd CacheConfiguration" where
  "withExpiry P e config =
     (if \<not> SupportsExpiryPolicy P then config
      else case e of None \<Rightarrow> config
        | Some (c, u, a) \<Rightarrow> AList.update expirePolicyProp
            (PropExpiry (Some \<lparr>creation = millisToDuration c, access = millisToDuration a, expUpdate = millisToDuration u\<rparr>)) config)"

lemma step_expiry: "stepReads (expiryProp P :: ('s, 'd) configStep) (encServerExpiry P e) (withExpiry P e)"
proof (cases "SupportsExpiryPolicy P")
  case True
  show ?thesis
  proof (cases e)
    case None
    have "mreads (bindMR (liftR ReadBool) (\<lambda>has. if \<not> has then returnMR config else (readExpiry :: ('s, 'd) configStep) config)) ([boolByte False] @ []) config"
      for config
      by (rule mreads_bind [OF mreads_lift [OF reads_prims(3)]]) (simp add: mreads_return)
    then show ?thesis using True None by (simp add: stepReads_def expiryProp_def encServerExpiry_def withExpiry_def)
  next
    case (Some t)
    obtain c u a where t: "t = (c, u, a)" by (cases t) auto
    let ?p = "PropExpiry (Some \<lparr>creation = millisToDuration c, access = millisToDuration a, expUpdate = millisToDuration u\<rparr>)"
    have "stepReads (readExpiry :: ('s, 'd) configStep) (encI64 c @ encI64 u @ encI64 a) (AList.update expirePolicyProp ?p)"
      unfolding readExpiry_def
      by (rule step_prop, rule mreads_bind [OF mreads_lift [OF reads_words(1)]],
          rule mreads_bind [OF mreads_lift [OF reads_words(1)]], rule mreads_bind_return [OF mreads_lift [OF reads_words(1)]])
    then have "mreads (bindMR (liftR ReadBool) (\<lambda>has. if \<not> has then returnMR config else (readExpiry :: ('s, 'd) configStep) config))
        ([boolByte True] @ encI64 c @ encI64 u @ encI64 a) (AList.update expirePolicyProp ?p config)" for config
      by (intro mreads_bind [OF mreads_lift [OF reads_prims(3)]]) (simp add: stepReads_def)
    then show ?thesis using True Some t by (simp add: stepReads_def expiryProp_def encServerExpiry_def withExpiry_def)
  qed
qed (simp add: stepReads_def expiryProp_def encServerExpiry_def withExpiry_def mreads_return)

lemma stepReadsD: "stepReads f bs g \<Longrightarrow> g config = x \<Longrightarrow> mreads (f config) bs x"
  by (auto simp: stepReads_def)

lemma steps_Nil: "stepReads (runSteps []) (concat []) (\<lambda>config. config)"
  by (simp add: stepReads_def mreads_return)

lemma steps_Cons:
  "stepReads f bs g \<Longrightarrow> stepReads (runSteps fs) (concat bss) h \<Longrightarrow> stepReads (runSteps (f # fs)) (concat (bs # bss)) (\<lambda>config. h (g config))"
  unfolding stepReads_def by (auto intro: mreads_bind)

text \<open>All the properties the server's description sets, in the order of the reading.\<close>

definition serverProps :: "ProtocolContext \<Rightarrow> 'd serverConfig \<Rightarrow> 'd CacheConfiguration" where
  "serverProps P c = fold (\<lambda>g config. g config)
     [AList.update cacheAtomicityModeProp (PropAtomicity (scAtomicity c)),
      AList.update backupsProp (PropInt (scast (scBackups c))),
      AList.update cacheModeProp (PropMode (scMode c)),
      AList.update copyOnReadProp (PropBool (scCopyOnRead c)),
      withString dataRegionNameProp (scDataRegion c),
      AList.update eagerTtlProp (PropBool (scEagerTtl c)),
      AList.update statsEnabledProp (PropBool (scStats c)),
      withString groupNameProp (scGroup c),
      AList.update maxAsyncOpsProp (PropInt (scast (scMaxAsync c))),
      AList.update maxQueryIteratorsProp (PropInt (scast (scMaxIterators c))),
      withString cacheNameProp (scName c),
      AList.update onHeapCacheEnabledProp (PropBool (scOnHeap c)),
      AList.update partitionLossPolicyProp (PropLoss (scLoss c)),
      AList.update queryDetailsMetricSizeProp (PropInt (scast (scMetrics c))),
      AList.update queryParallelismProp (PropInt (scast (scParallelism c))),
      AList.update readFromBackupProp (PropBool (scFromBackup c)),
      AList.update rebalanceModeProp (PropRebalance (scRebalance c)),
      AList.update rebalanceOrderProp (PropInt (scast (scRebalanceOrder c))),
      AList.update sqlEscapeAllProp (PropBool (scEscapeAll c)),
      AList.update sqlIndexMaxInlineSizeProp (PropInt (scast (scMaxInline c))),
      withString sqlSchemaProp (scSchema c),
      AList.update writeSyncModeProp (PropSync (scSync c)),
      AList.update cacheKeyConfigProp (PropKeys (scKeys c)),
      AList.update queryEntitiesProp (PropEntities (map (canonEntity P) (scEntities c))),
      withExpiry P (scExpiry c)] []"

lemma reads_keyConfig:
  assumes "small (length (keyTypeName k)) \<and> small (length (affKeyFldName k))"
  shows "reads unmarshalKeyConfig (encKeyConfig k) k"
proof -
  have "reads unmarshalKeyConfig (encKeyConfig k) \<lparr>keyTypeName = keyTypeName k, affKeyFldName = affKeyFldName k\<rparr>"
    unfolding unmarshalKeyConfig_def encKeyConfig_def
    by (rule reads_bind [OF reads_encString reads_bind_return [OF reads_encString]]) (use assms in simp_all)
  then show ?thesis by (cases k) simp
qed

lemma mreads_serverConfig:
  assumes "apd_ok (envApd env) fin" and "server_ok (envApd env) fin c"
  shows "mreads (unmarshalCacheConfiguration P env) (serverBytes P (envApd env) c) (serverProps P c)"
proof -
  obtain l p d t o' where old: "scOld64 c = (l, p, d, t, o')" by (cases "scOld64 c") auto
  have s: "small (length (scDataRegion c))" "small (length (scGroup c))" "small (length (scName c))" "small (length (scSchema c))"
    using assms(2) by (simp_all add: server_ok_def)
  have k: "reads (readSlice (\<lambda>_. unmarshalKeyConfig)) (lenBytes (length (scKeys c)) @ concat (map encKeyConfig (scKeys c))) (scKeys c)"
    using reads_readSlice [where canon = "\<lambda>k. k" and xs = "scKeys c", OF reads_keyConfig] assms(2) by (simp add: server_ok_def)
  have e: "mreads (readSliceM (unmarshalQueryEntity P env))
      (lenBytes (length (scEntities c)) @ concat (map (encEntity P (envApd env)) (scEntities c))) (map (canonEntity P) (scEntities c))"
    using assms by (intro mreads_readSliceM ballI mreads_entity) (auto simp: server_ok_def)
  note steps = steps_Nil steps_Cons step_scalars step_skip [OF reads_words(1)] step_skip [OF reads_words(3)] step_expiry
    step_string [OF s(1)] step_string [OF s(2)] step_string [OF s(3)] step_string [OF s(4)]
    step_prop [OF mreads_mapMR [OF mreads_lift [OF k]]] step_prop [OF mreads_mapMR [OF e]]
  show ?thesis
    unfolding unmarshalCacheConfiguration_def serverBytes_def old split_conv
    by (rule stepReadsD, (rule steps)+) (simp only: serverProps_def fold_simps)
qed

section \<open>What the getters show\<close>

text \<open>A configuration as its user sees it: the results of all getters.\<close>

record 'd configView =
  vName :: "string"
  vBackups :: "i64"
  vMode :: "i32"
  vAtomicity :: "i32"
  vCopyOnRead :: "bool"
  vDataRegion :: "string"
  vEagerTtl :: "bool"
  vGroup :: "string"
  vMaxAsync :: "i64"
  vMaxIterators :: "i64"
  vOnHeap :: "bool"
  vLoss :: "i32"
  vMetrics :: "i64"
  vParallelism :: "i64"
  vFromBackup :: "bool"
  vRebalance :: "i32"
  vRebalanceOrder :: "i64"
  vEscapeAll :: "bool"
  vStats :: "bool"
  vMaxInline :: "i64"
  vSchema :: "string"
  vSync :: "i32"
  vExpiry :: "ExpiryPolicy option"
  vKeys :: "CacheKeyConfig list"
  vEntities :: "'d QueryEntity list"

definition viewOf :: "'d CacheConfiguration \<Rightarrow> 'd configView" where
  "viewOf config = \<lparr>vName = ConfigName config, vBackups = Backups config, vMode = ConfigCacheMode config,
     vAtomicity = ConfigAtomicityMode config, vCopyOnRead = IsCopyOnRead config, vDataRegion = DataRegionName config,
     vEagerTtl = IsEagerTtl config, vGroup = CacheGroupName config, vMaxAsync = MaxConcurrentAsyncOperations config,
     vMaxIterators = MaxQueryIteratorsCount config, vOnHeap = IsOnHeapCacheEnabled config, vLoss = ConfigLossPolicy config,
     vMetrics = QueryDetailsMetricsSize config, vParallelism = QueryParallelism config, vFromBackup = IsReadFromBackup config,
     vRebalance = RebalanceMode config, vRebalanceOrder = RebalanceOrder config, vEscapeAll = IsSqlEscapeAll config,
     vStats = IsStatsEnabled config, vMaxInline = SqlIndexMaxInlineSize config, vSchema = SqlSchema config,
     vSync = WriteSynchronizationMode config, vExpiry = ConfigExpiryPolicy config, vKeys = KeyConfiguration config,
     vEntities = QueryEntities config\<rparr>"

lemmas getters = ConfigName_def Backups_def ConfigCacheMode_def ConfigAtomicityMode_def IsCopyOnRead_def DataRegionName_def IsEagerTtl_def CacheGroupName_def MaxConcurrentAsyncOperations_def MaxQueryIteratorsCount_def IsOnHeapCacheEnabled_def ConfigLossPolicy_def QueryDetailsMetricsSize_def QueryParallelism_def IsReadFromBackup_def RebalanceMode_def RebalanceOrder_def IsSqlEscapeAll_def IsStatsEnabled_def SqlIndexMaxInlineSize_def SqlSchema_def WriteSynchronizationMode_def ConfigExpiryPolicy_def KeyConfiguration_def QueryEntities_def

definition serverExpiry :: "ProtocolContext \<Rightarrow> (i64 \<times> i64 \<times> i64) option \<Rightarrow> ExpiryPolicy option" where
  "serverExpiry P e =
     (if \<not> SupportsExpiryPolicy P then None
      else map_option (\<lambda>(c, u, a). \<lparr>creation = millisToDuration c, access = millisToDuration a, expUpdate = millisToDuration u\<rparr>) e)"

definition serverView :: "ProtocolContext \<Rightarrow> 'd serverConfig \<Rightarrow> 'd configView" where
  "serverView P c = \<lparr>vName = scName c, vBackups = scast (scBackups c), vMode = scMode c,
     vAtomicity = scAtomicity c, vCopyOnRead = scCopyOnRead c, vDataRegion = scDataRegion c,
     vEagerTtl = scEagerTtl c, vGroup = scGroup c, vMaxAsync = scast (scMaxAsync c),
     vMaxIterators = scast (scMaxIterators c), vOnHeap = scOnHeap c, vLoss = scLoss c,
     vMetrics = scast (scMetrics c), vParallelism = scast (scParallelism c), vFromBackup = scFromBackup c,
     vRebalance = scRebalance c, vRebalanceOrder = scast (scRebalanceOrder c), vEscapeAll = scEscapeAll c,
     vStats = scStats c, vMaxInline = scast (scMaxInline c), vSchema = scSchema c,
     vSync = scSync c, vExpiry = serverExpiry P (scExpiry c), vKeys = scKeys c,
     vEntities = map (canonEntity P) (scEntities c)\<rparr>"

lemma map_of_steps:
  "map_of (AList.update k v config) k' = (if k' = k then Some v else map_of config k')"
  "map_of (withString k s config) k' = (if k' = k \<and> s \<noteq> [] then Some (PropString s) else map_of config k')"
  "map_of (withExpiry P e config) k' = (if k' = expirePolicyProp \<and> serverExpiry P e \<noteq> None
      then Some (PropExpiry (serverExpiry P e)) else map_of config k')"
  by (auto simp: update_alist_map_of withString_def withExpiry_def serverExpiry_def split: option.split)

lemma getProperty_simps:
  "map_of config code = Some v \<Longrightarrow> as v = Some x \<Longrightarrow> getProperty as config code d = x"
  "map_of config code = None \<Longrightarrow> getProperty as config code d = d"
  by (simp_all add: getProperty_def)

lemma viewOf_serverProps: "viewOf (serverProps P c) = serverView P c"
  unfolding viewOf_def serverView_def serverProps_def
  by (simp add: getters getProperty_def map_of_steps prop_codes as_defs fold_simps del: fold_Cons)

end
