(* ===== verification/CacheOptions.thy ===== *)
theory CacheOptions
  imports CacheConfigProps
begin

text \<open>
  The properties of cache_configuration.go: query entities survive the wire, the getters of a
  configuration the server describes, an option shows in its getter and in no other, the lists
  the options build hold no duplicates, and the bytes of a configuration sent to the server.
\<close>

declare seqW.simps [simp del] unmarshal.simps [simp del]

section \<open>Options and getters\<close>

text \<open>A kind of property: how a value is put into the configuration and how a getter takes it out.\<close>

locale config_property =
  fixes inj :: "'a \<Rightarrow> 'd propValue" and as :: "'d propValue \<Rightarrow> 'a option"
  assumes as_inj: "as (inj v) = Some v"
begin

lemma get_set: "getProperty as (setProperty code (inj v) config) code d = v"
  by (simp add: getProperty_def setProperty_def update_alist_map_of as_inj)

end

interpretation str_prop: config_property PropString asString by unfold_locales (simp add: as_defs)
interpretation bool_prop: config_property PropBool asBool by unfold_locales (simp add: as_defs)
interpretation int_prop: config_property PropInt asInt by unfold_locales (simp add: as_defs)
interpretation mode_prop: config_property PropMode asMode by unfold_locales (simp add: as_defs)
interpretation atomicity_prop: config_property PropAtomicity asAtomicity by unfold_locales (simp add: as_defs)
interpretation loss_prop: config_property PropLoss asLoss by unfold_locales (simp add: as_defs)
interpretation sync_prop: config_property PropSync asSync by unfold_locales (simp add: as_defs)
interpretation rebalance_prop: config_property PropRebalance asRebalance by unfold_locales (simp add: as_defs)
interpretation expiry_prop: config_property PropExpiry asExpiry by unfold_locales (simp add: as_defs)
interpretation keys_prop: config_property PropKeys asKeys by unfold_locales (simp add: as_defs)
interpretation entities_prop: config_property PropEntities asEntities by unfold_locales (simp add: as_defs)

lemmas get_set = str_prop.get_set bool_prop.get_set int_prop.get_set mode_prop.get_set atomicity_prop.get_set
  loss_prop.get_set sync_prop.get_set rebalance_prop.get_set expiry_prop.get_set keys_prop.get_set entities_prop.get_set

lemma get_other: "code \<noteq> code' \<Longrightarrow> getProperty as (setProperty code v config) code' d = getProperty as config code' d"
  by (simp add: getProperty_def setProperty_def update_alist_map_of)

text \<open>The values of all getters after one property is set.\<close>

lemmas option_shows = viewOf_def getters get_set get_other prop_codes

lemma name_options:
  "viewOf (WithCacheName s config) = (if TrimSpace s = [] then viewOf config else (viewOf config)\<lparr>vName := TrimSpace s\<rparr>)"
  "viewOf (WithCacheGroupName s config) = (if TrimSpace s = [] then viewOf config else (viewOf config)\<lparr>vGroup := TrimSpace s\<rparr>)"
  "viewOf (WithDataRegionName s config) = (if TrimSpace s = [] then viewOf config else (viewOf config)\<lparr>vDataRegion := TrimSpace s\<rparr>)"
  "viewOf (WithSqlSchema s config) = (if TrimSpace s = [] then viewOf config else (viewOf config)\<lparr>vSchema := TrimSpace s\<rparr>)"
  by (simp_all add: WithCacheName_def WithCacheGroupName_def WithDataRegionName_def WithSqlSchema_def setName_def Let_def option_shows)

lemma switch_options:
  "viewOf (WithCopyOnRead b config) = (viewOf config)\<lparr>vCopyOnRead := b\<rparr>"
  "viewOf (WithReadFromBackup b config) = (viewOf config)\<lparr>vFromBackup := b\<rparr>"
  "viewOf (WithOnHeapCacheEnabled b config) = (viewOf config)\<lparr>vOnHeap := b\<rparr>"
  "viewOf (WithSqlEscapeAll b config) = (viewOf config)\<lparr>vEscapeAll := b\<rparr>"
  "viewOf (WithEagerTtl b config) = (viewOf config)\<lparr>vEagerTtl := b\<rparr>"
  "viewOf (WithStatsEnabled b config) = (viewOf config)\<lparr>vStats := b\<rparr>"
  by (simp_all add: WithCopyOnRead_def WithReadFromBackup_def WithOnHeapCacheEnabled_def WithSqlEscapeAll_def
      WithEagerTtl_def WithStatsEnabled_def option_shows)

lemma number_options:
  "viewOf (WithBackupsCount n config) = (viewOf config)\<lparr>vBackups := n\<rparr>"
  "viewOf (WithQueryParallelism n config) = (viewOf config)\<lparr>vParallelism := n\<rparr>"
  "viewOf (WithQueryDetailsMetricsSize n config) = (viewOf config)\<lparr>vMetrics := n\<rparr>"
  "viewOf (WithSqlIndexMaxInlineSize n config) = (viewOf config)\<lparr>vMaxInline := n\<rparr>"
  "viewOf (WithRebalanceOrder n config) = (viewOf config)\<lparr>vRebalanceOrder := n\<rparr>"
  "viewOf (WithMaxConcurrentAsyncOperations n config) = (viewOf config)\<lparr>vMaxAsync := n\<rparr>"
  "viewOf (WithMaxQueryIteratorsCount n config) = (viewOf config)\<lparr>vMaxIterators := n\<rparr>"
  by (simp_all add: WithBackupsCount_def WithQueryParallelism_def WithQueryDetailsMetricsSize_def WithSqlIndexMaxInlineSize_def
      WithRebalanceOrder_def WithMaxConcurrentAsyncOperations_def WithMaxQueryIteratorsCount_def option_shows)

lemma mode_options:
  "viewOf (WithCacheMode m config) = (viewOf config)\<lparr>vMode := m\<rparr>"
  "viewOf (WithCacheAtomicityMode m config) = (viewOf config)\<lparr>vAtomicity := m\<rparr>"
  "viewOf (WithWriteSynchronizationMode m config) = (viewOf config)\<lparr>vSync := m\<rparr>"
  "viewOf (WithPartitionLossPolicy m config) = (viewOf config)\<lparr>vLoss := m\<rparr>"
  "viewOf (WithRebalanceMode m config) = (viewOf config)\<lparr>vRebalance := m\<rparr>"
  "viewOf (ConfigWithExpiryPolicy c a u config) = (viewOf config)\<lparr>vExpiry := Some \<lparr>creation = c, access = a, expUpdate = u\<rparr>\<rparr>"
  by (simp_all add: WithCacheMode_def WithCacheAtomicityMode_def WithWriteSynchronizationMode_def WithPartitionLossPolicy_def
      WithRebalanceMode_def ConfigWithExpiryPolicy_def option_shows)

lemma list_options:
  "viewOf (WithCacheKeyConfiguration t f config) =
    (if f \<in> affKeyFldName ` set (vKeys (viewOf config)) then viewOf config
     else (viewOf config)\<lparr>vKeys := vKeys (viewOf config) @ [\<lparr>keyTypeName = t, affKeyFldName = f\<rparr>]\<rparr>)"
  "viewOf (WithQueryEntity k v opts config) =
    (if v \<in> qeValType ` set (vEntities (viewOf config)) then viewOf config
     else (viewOf config)\<lparr>vEntities := vEntities (viewOf config) @ [fold (\<lambda>opt. opt) opts
        \<lparr>qeKeyType = k, qeValType = v, qeTblName = [], qeKeyFldName = [], qeValFldName = [],
         qeFields = [], qeAliases = [], qeIndexes = []\<rparr>]\<rparr>)"
  by (auto simp: WithCacheKeyConfiguration_def WithQueryEntity_def Let_def option_shows image_iff)

text \<open>The options as data, and what each does to the values of the getters.\<close>

datatype 'd setting =
    CName string | CGroup string | CRegion string | CSchema string | CCopyOnRead bool | CFromBackup bool | COnHeap bool | CEscapeAll bool | CEagerTtl bool | CStats bool
  | CBackups i64 | CParallelism i64 | CMetrics i64 | CMaxInline i64 | COrder i64 | CMaxAsync i64 | CMaxIterators i64 | CMode i32 | CAtomicity i32 | CSync i32 | CLoss i32 | CRebalance i32
  | CExpiry i64 i64 i64 | CKey string string | CEntity string string "('d QueryEntity \<Rightarrow> 'd QueryEntity) list"

fun settingOption :: "'d setting \<Rightarrow> 'd configOption" where
  "settingOption (CName s) = WithCacheName s"
| "settingOption (CGroup s) = WithCacheGroupName s"
| "settingOption (CRegion s) = WithDataRegionName s"
| "settingOption (CSchema s) = WithSqlSchema s"
| "settingOption (CCopyOnRead b) = WithCopyOnRead b"
| "settingOption (CFromBackup b) = WithReadFromBackup b"
| "settingOption (COnHeap b) = WithOnHeapCacheEnabled b"
| "settingOption (CEscapeAll b) = WithSqlEscapeAll b"
| "settingOption (CEagerTtl b) = WithEagerTtl b"
| "settingOption (CStats b) = WithStatsEnabled b"
| "settingOption (CBackups n) = WithBackupsCount n"
| "settingOption (CParallelism n) = WithQueryParallelism n"
| "settingOption (CMetrics n) = WithQueryDetailsMetricsSize n"
| "settingOption (CMaxInline n) = WithSqlIndexMaxInlineSize n"
| "settingOption (COrder n) = WithRebalanceOrder n"
| "settingOption (CMaxAsync n) = WithMaxConcurrentAsyncOperations n"
| "settingOption (CMaxIterators n) = WithMaxQueryIteratorsCount n"
| "settingOption (CMode m) = WithCacheMode m"
| "settingOption (CAtomicity m) = WithCacheAtomicityMode m"
| "settingOption (CSync m) = WithWriteSynchronizationMode m"
| "settingOption (CLoss m) = WithPartitionLossPolicy m"
| "settingOption (CRebalance m) = WithRebalanceMode m"
| "settingOption (CExpiry c a u) = ConfigWithExpiryPolicy c a u"
| "settingOption (CKey t f) = WithCacheKeyConfiguration t f"
| "settingOption (CEntity k v opts) = WithQueryEntity k v opts"

fun settingView :: "'d setting \<Rightarrow> 'd configView \<Rightarrow> 'd configView" where
  "settingView (CName s) w = (if TrimSpace s = [] then w else w\<lparr>vName := TrimSpace s\<rparr>)"
| "settingView (CGroup s) w = (if TrimSpace s = [] then w else w\<lparr>vGroup := TrimSpace s\<rparr>)"
| "settingView (CRegion s) w = (if TrimSpace s = [] then w else w\<lparr>vDataRegion := TrimSpace s\<rparr>)"
| "settingView (CSchema s) w = (if TrimSpace s = [] then w else w\<lparr>vSchema := TrimSpace s\<rparr>)"
| "settingView (CCopyOnRead b) w = w\<lparr>vCopyOnRead := b\<rparr>"
| "settingView (CFromBackup b) w = w\<lparr>vFromBackup := b\<rparr>"
| "settingView (COnHeap b) w = w\<lparr>vOnHeap := b\<rparr>"
| "settingView (CEscapeAll b) w = w\<lparr>vEscapeAll := b\<rparr>"
| "settingView (CEagerTtl b) w = w\<lparr>vEagerTtl := b\<rparr>"
| "settingView (CStats b) w = w\<lparr>vStats := b\<rparr>"
| "settingView (CBackups n) w = w\<lparr>vBackups := n\<rparr>"
| "settingView (CParallelism n) w = w\<lparr>vParallelism := n\<rparr>"
| "settingView (CMetrics n) w = w\<lparr>vMetrics := n\<rparr>"
| "settingView (CMaxInline n) w = w\<lparr>vMaxInline := n\<rparr>"
| "settingView (COrder n) w = w\<lparr>vRebalanceOrder := n\<rparr>"
| "settingView (CMaxAsync n) w = w\<lparr>vMaxAsync := n\<rparr>"
| "settingView (CMaxIterators n) w = w\<lparr>vMaxIterators := n\<rparr>"
| "settingView (CMode m) w = w\<lparr>vMode := m\<rparr>"
| "settingView (CAtomicity m) w = w\<lparr>vAtomicity := m\<rparr>"
| "settingView (CSync m) w = w\<lparr>vSync := m\<rparr>"
| "settingView (CLoss m) w = w\<lparr>vLoss := m\<rparr>"
| "settingView (CRebalance m) w = w\<lparr>vRebalance := m\<rparr>"
| "settingView (CExpiry c a u) w = w\<lparr>vExpiry := Some \<lparr>creation = c, access = a, expUpdate = u\<rparr>\<rparr>"
| "settingView (CKey t f) w = (if f \<in> affKeyFldName ` set (vKeys w) then w
     else w\<lparr>vKeys := vKeys w @ [\<lparr>keyTypeName = t, affKeyFldName = f\<rparr>]\<rparr>)"
| "settingView (CEntity k v opts) w = (if v \<in> qeValType ` set (vEntities w) then w
     else w\<lparr>vEntities := vEntities w @ [fold (\<lambda>opt. opt) opts
        \<lparr>qeKeyType = k, qeValType = v, qeTblName = [], qeKeyFldName = [], qeValFldName = [],
         qeFields = [], qeAliases = [], qeIndexes = []\<rparr>]\<rparr>)"

lemma viewOf_setting: "viewOf (settingOption x config) = settingView x (viewOf config)"
  by (cases x) (simp_all add: name_options switch_options number_options mode_options list_options)

definition defaultView :: "'d configView" where
  "defaultView = \<lparr>vName = [], vBackups = 0, vMode = - 1, vAtomicity = - 1, vCopyOnRead = False, vDataRegion = [],
     vEagerTtl = False, vGroup = [], vMaxAsync = 0, vMaxIterators = 0, vOnHeap = False, vLoss = - 1, vMetrics = 0,
     vParallelism = 0, vFromBackup = False, vRebalance = 0, vRebalanceOrder = 0, vEscapeAll = False, vStats = False,
     vMaxInline = 0, vSchema = [], vSync = - 1, vExpiry = None, vKeys = [], vEntities = []\<rparr>"

lemma viewOf_named: "viewOf [(cacheNameProp, PropString name)] = defaultView\<lparr>vName := name\<rparr>"
  by (simp add: viewOf_def getters getProperty_def prop_codes as_defs defaultView_def)

lemma viewOf_fold: "viewOf (fold (\<lambda>opt. opt) (map settingOption xs) config) = fold settingView xs (viewOf config)"
  by (induction xs arbitrary: config) (simp_all add: viewOf_setting)

section \<open>Well-formed configurations\<close>

text \<open>Each property has the type its getter asserts, and no two entries of a list have one name.\<close>

fun ofType :: "i16 \<Rightarrow> 'd propValue \<Rightarrow> bool" where
  "ofType code (PropString v) = (code \<in> {cacheNameProp, groupNameProp, dataRegionNameProp, sqlSchemaProp})"
| "ofType code (PropBool v) = (code \<in> {copyOnReadProp, eagerTtlProp, statsEnabledProp, onHeapCacheEnabledProp,
     readFromBackupProp, sqlEscapeAllProp})"
| "ofType code (PropInt v) = (code \<in> {backupsProp, maxAsyncOpsProp, maxQueryIteratorsProp, queryDetailsMetricSizeProp,
     queryParallelismProp, rebalanceOrderProp, sqlIndexMaxInlineSizeProp})"
| "ofType code (PropInt32 v) = False"
| "ofType code (PropInt64 v) = False"
| "ofType code (PropMode v) = (code = cacheModeProp)"
| "ofType code (PropAtomicity v) = (code = cacheAtomicityModeProp)"
| "ofType code (PropLoss v) = (code = partitionLossPolicyProp)"
| "ofType code (PropSync v) = (code = writeSyncModeProp)"
| "ofType code (PropRebalance v) = (code = rebalanceModeProp)"
| "ofType code (PropExpiry v) = (code = expirePolicyProp)"
| "ofType code (PropKeys v) = (code = cacheKeyConfigProp)"
| "ofType code (PropEntities v) = (code = queryEntitiesProp)"

definition wf_index :: "QueryIndex \<Rightarrow> bool" where
  "wf_index i \<longleftrightarrow> distinct (map ifName (qiFields i))"

definition wf_entity :: "'d QueryEntity \<Rightarrow> bool" where
  "wf_entity e \<longleftrightarrow> distinct (map fst (qeAliases e)) \<and> distinct (map qiName (qeIndexes e)) \<and> (\<forall>i \<in> set (qeIndexes e). wf_index i)"

fun wf_prop :: "'d propValue \<Rightarrow> bool" where
  "wf_prop (PropKeys ks) = distinct (map affKeyFldName ks)"
| "wf_prop (PropEntities es) = (distinct (map qeValType es) \<and> (\<forall>e \<in> set es. wf_entity e))"
| "wf_prop _ = True"

definition wf_config :: "'d CacheConfiguration \<Rightarrow> bool" where
  "wf_config config \<longleftrightarrow> distinct (map fst config) \<and> (\<forall>(code, v) \<in> set config. ofType code v \<and> wf_prop v)"

text \<open>The options the package offers.\<close>

inductive index_option :: "(QueryIndex \<Rightarrow> QueryIndex) \<Rightarrow> bool" where
  "index_option (WithIndexType t)"
| "index_option (WithInlineSize n)"
| "index_option (WithIndexField f)"

inductive entity_option :: "('d QueryEntity \<Rightarrow> 'd QueryEntity) \<Rightarrow> bool" where
  "entity_option (WithTableName s)"
| "entity_option (WithKeyFieldName s)"
| "entity_option (WithValueFieldName s)"
| "entity_option (WithQueryField s t fopts)"
| "entity_option (WithFieldAlias s t)"
| "\<forall>o' \<in> set iopts. index_option o' \<Longrightarrow> entity_option (WithIndex s iopts)"

inductive config_option :: "'d configOption \<Rightarrow> bool" where
  "config_option (WithCacheName s)"
| "config_option (WithCacheGroupName s)"
| "config_option (WithDataRegionName s)"
| "config_option (WithSqlSchema s)"
| "config_option (WithCopyOnRead b)"
| "config_option (WithReadFromBackup b)"
| "config_option (WithOnHeapCacheEnabled b)"
| "config_option (WithSqlEscapeAll b)"
| "config_option (WithEagerTtl b)"
| "config_option (WithStatsEnabled b)"
| "config_option (WithBackupsCount n)"
| "config_option (WithQueryParallelism n)"
| "config_option (WithQueryDetailsMetricsSize n)"
| "config_option (WithSqlIndexMaxInlineSize n)"
| "config_option (WithRebalanceOrder n)"
| "config_option (WithMaxConcurrentAsyncOperations n)"
| "config_option (WithMaxQueryIteratorsCount n)"
| "config_option (WithCacheMode m)"
| "config_option (WithCacheAtomicityMode m)"
| "config_option (WithWriteSynchronizationMode m)"
| "config_option (WithPartitionLossPolicy m)"
| "config_option (WithRebalanceMode m)"
| "config_option (ConfigWithExpiryPolicy c a u)"
| "config_option (WithCacheKeyConfiguration t f)"
| "\<forall>opt \<in> set eopts. entity_option opt \<Longrightarrow> config_option (WithQueryEntity k v eopts)"

lemmas plain_options = WithCopyOnRead_def WithReadFromBackup_def WithOnHeapCacheEnabled_def WithSqlEscapeAll_def
  WithEagerTtl_def WithStatsEnabled_def WithBackupsCount_def WithQueryParallelism_def WithQueryDetailsMetricsSize_def
  WithSqlIndexMaxInlineSize_def WithRebalanceOrder_def WithMaxConcurrentAsyncOperations_def WithMaxQueryIteratorsCount_def
  WithCacheMode_def WithCacheAtomicityMode_def WithWriteSynchronizationMode_def WithPartitionLossPolicy_def
  WithRebalanceMode_def ConfigWithExpiryPolicy_def

lemma fold_keeps:
  assumes "\<forall>opt \<in> set opts. good opt" and "\<And>opt x. good opt \<Longrightarrow> P x \<Longrightarrow> P (opt x)" and "P x"
  shows "P (fold (\<lambda>opt. opt) opts x)"
  using assms(1,3) by (induction opts arbitrary: x) (simp_all add: assms(2))

lemma index_option_keeps: "index_option opt \<Longrightarrow> wf_index i \<and> qiName i = n \<Longrightarrow> wf_index (opt i) \<and> qiName (opt i) = n"
  by (cases rule: index_option.cases, assumption)
     (auto simp: wf_index_def WithIndexType_def WithInlineSize_def WithIndexField_def)

lemma entity_option_keeps:
  "entity_option opt \<Longrightarrow> wf_entity e \<and> qeValType e = v \<Longrightarrow> wf_entity (opt e) \<and> qeValType (opt e) = v"
proof (cases rule: entity_option.cases, assumption)
  fix s iopts
  assume opt: "opt = WithIndex s iopts" "\<forall>opt \<in> set iopts. index_option opt" and e: "wf_entity e \<and> qeValType e = v"
  let ?i = "fold (\<lambda>opt. opt) iopts \<lparr>qiName = s, qiType = 0, qiInlineSz = - 1, qiFields = []\<rparr>"
  have "wf_index ?i \<and> qiName ?i = s"
    by (rule fold_keeps [OF opt(2) index_option_keeps]) (auto simp: wf_index_def)
  then show ?thesis using opt(1) e by (auto simp: WithIndex_def Let_def wf_entity_def)
qed (auto simp: wf_entity_def WithTableName_def WithKeyFieldName_def WithValueFieldName_def WithQueryField_def WithFieldAlias_def
      Let_def distinct_update)

lemma wf_config_lookup: "wf_config config \<longleftrightarrow> distinct (map fst config) \<and>
    (\<forall>code v. map_of config code = Some v \<longrightarrow> ofType code v \<and> wf_prop v)"
  by (auto simp: wf_config_def)

lemma wf_setProperty: "ofType code v \<Longrightarrow> wf_prop v \<Longrightarrow> wf_config config \<Longrightarrow> wf_config (setProperty code v config)"
  by (auto simp: wf_config_lookup setProperty_def distinct_update update_alist_map_of)

lemma getProperty_ind:
  "P d \<Longrightarrow> (\<And>v x. map_of config code = Some v \<Longrightarrow> as v = Some x \<Longrightarrow> P x) \<Longrightarrow> P (getProperty as config code d)"
  by (auto simp: getProperty_def split: option.split)

lemma wf_configD: "wf_config config \<Longrightarrow> map_of config code = Some v \<Longrightarrow> wf_prop v"
  by (simp add: wf_config_lookup)

lemma as_lists: "asKeys v = Some ks \<Longrightarrow> v = PropKeys ks" "asEntities v = Some es \<Longrightarrow> v = PropEntities es"
  by (cases v; simp add: as_defs)+

lemma wf_keys: "wf_config config \<Longrightarrow> distinct (map affKeyFldName (KeyConfiguration config))"
  unfolding KeyConfiguration_def by (rule getProperty_ind) (auto dest!: as_lists wf_configD)

lemma wf_entities:
  "wf_config config \<Longrightarrow> distinct (map qeValType (QueryEntities config)) \<and> (\<forall>e \<in> set (QueryEntities config). wf_entity e)"
  unfolding QueryEntities_def by (rule getProperty_ind) (auto dest!: as_lists wf_configD)

lemma wf_setName: "code \<in> {cacheNameProp, groupNameProp, dataRegionNameProp, sqlSchemaProp} \<Longrightarrow> wf_config config \<Longrightarrow> wf_config (setName code s config)"
  by (simp add: setName_def Let_def wf_setProperty)

lemma wf_keyConfiguration: "wf_config config \<Longrightarrow> wf_config (WithCacheKeyConfiguration t f config)"
  using wf_keys [of config] by (auto simp: WithCacheKeyConfiguration_def KeyConfiguration_def Let_def intro!: wf_setProperty)

lemma wf_queryEntity:
  assumes "\<forall>opt \<in> set eopts. entity_option opt" and "wf_config config"
  shows "wf_config (WithQueryEntity k v eopts config)"
proof -
  let ?e = "fold (\<lambda>opt. opt) eopts \<lparr>qeKeyType = k, qeValType = v, qeTblName = [], qeKeyFldName = [], qeValFldName = [],
         qeFields = [], qeAliases = [], qeIndexes = []\<rparr>"
  have "wf_entity ?e \<and> qeValType ?e = v"
    by (rule fold_keeps [OF assms(1) entity_option_keeps]) (auto simp: wf_entity_def)
  then show ?thesis using wf_entities [OF assms(2)] assms(2)
    by (auto simp: WithQueryEntity_def QueryEntities_def Let_def intro!: wf_setProperty)
qed

lemma wf_option: "config_option opt \<Longrightarrow> wf_config config \<Longrightarrow> wf_config (opt config)"
  by (cases rule: config_option.cases, assumption)
     (simp_all add: plain_options wf_setProperty wf_keyConfiguration wf_queryEntity wf_setName
        WithCacheName_def WithCacheGroupName_def WithDataRegionName_def WithSqlSchema_def)

section \<open>Copies\<close>

lemma copyIndex_id: "copyIndex i = i"
  by (cases i) (simp add: copyIndex_def)

lemma copyEntity_id: "copyEntity e = e"
proof -
  have "map copyIndex xs = xs" for xs by (simp add: copyIndex_id map_idI)
  then show ?thesis by (cases e) (simp add: copyEntity_def)
qed

text \<open>A copy leaves out the empty lists.\<close>

fun emptyList :: "'d propValue \<Rightarrow> bool" where
  "emptyList (PropKeys ks) = (ks = [])"
| "emptyList (PropEntities es) = (es = [])"
| "emptyList _ = False"

lemma copyProp_eq: "copyProp p = (if emptyList (snd p) then [] else [p])"
proof -
  have "map copyEntity es = es" for es by (simp add: copyEntity_id map_idI)
  then show ?thesis by (cases p; cases "snd p") (auto simp: copyProp_def)
qed

lemma copy_filter: "CopyConfiguration [] config = filter (\<lambda>p. \<not> emptyList (snd p)) config"
  by (induction config) (simp_all add: CopyConfiguration_def copyProp_eq)

lemma map_of_filter_snd:
  "distinct (map fst m) \<Longrightarrow> map_of (filter (\<lambda>p. Q (snd p)) m) k
    = (case map_of m k of None \<Rightarrow> None | Some v \<Rightarrow> if Q v then Some v else None)"
proof (induction m)
  case (Cons p m)
  have "fst p \<notin> fst ` set m \<Longrightarrow> map_of (filter (\<lambda>p. Q (snd p)) m) (fst p) = None"
    by (auto simp: map_of_eq_None_iff)
  then show ?case using Cons by (cases p) (auto split: option.split)
qed simp

lemma wf_config_copy: "wf_config config \<Longrightarrow> wf_config (CopyConfiguration [] config)"
  by (auto simp: wf_config_def copy_filter distinct_map_filter)

lemma getProperty_copy:
  assumes "wf_config config" and "\<And>v. emptyList v \<Longrightarrow> as v = None \<or> as v = Some d"
  shows "getProperty as (CopyConfiguration [] config) code d = getProperty as config code d"
proof -
  have "map_of (CopyConfiguration [] config) code
      = (case map_of config code of None \<Rightarrow> None | Some v \<Rightarrow> if \<not> emptyList v then Some v else None)"
    unfolding copy_filter by (rule map_of_filter_snd) (use assms(1) in \<open>simp add: wf_config_def\<close>)
  then show ?thesis
    using assms(2) [of "the (map_of config code)"]
    by (cases "map_of config code") (auto simp: getProperty_def split: option.split)
qed

lemma emptyList_as:
  "emptyList v \<Longrightarrow> asString v = None" "emptyList v \<Longrightarrow> asBool v = None" "emptyList v \<Longrightarrow> asInt v = None"
  "emptyList v \<Longrightarrow> asMode v = None" "emptyList v \<Longrightarrow> asAtomicity v = None" "emptyList v \<Longrightarrow> asLoss v = None"
  "emptyList v \<Longrightarrow> asSync v = None" "emptyList v \<Longrightarrow> asRebalance v = None" "emptyList v \<Longrightarrow> asExpiry v = None"
  "emptyList v \<Longrightarrow> asKeys v = None \<or> asKeys v = Some []" "emptyList v \<Longrightarrow> asEntities v = None \<or> asEntities v = Some []"
  by (cases v; simp add: as_defs)+

lemma viewOf_copy: "wf_config config \<Longrightarrow> viewOf (CopyConfiguration [] config) = viewOf config"
  by (simp add: viewOf_def getters getProperty_copy emptyList_as)

lemma copy_then_options: "CopyConfiguration opts config = fold (\<lambda>opt. opt) opts (CopyConfiguration [] config)"
  by (simp add: CopyConfiguration_def)

section \<open>The bytes of a configuration\<close>

fun encProp :: "ProtocolContext \<Rightarrow> 'd apd \<Rightarrow> 'd propValue \<Rightarrow> byte list" where
  "encProp P A (PropString v) = encString v"
| "encProp P A (PropBool v) = [boolByte v]"
| "encProp P A (PropInt v) = encI32 (ucast v)"
| "encProp P A (PropInt32 v) = encI32 v"
| "encProp P A (PropInt64 v) = encI64 v"
| "encProp P A (PropMode v) = encI32 v"
| "encProp P A (PropAtomicity v) = encI32 v"
| "encProp P A (PropLoss v) = encI32 v"
| "encProp P A (PropSync v) = encI32 v"
| "encProp P A (PropRebalance v) = encI32 v"
| "encProp P A (PropExpiry v) = (case v of None \<Rightarrow> [boolByte False] | Some e \<Rightarrow> boolByte True # expiryBytes e)"
| "encProp P A (PropKeys v) = lenBytes (length v) @ concat (map encKeyConfig v)"
| "encProp P A (PropEntities v) = lenBytes (length v) @ concat (map (encEntity P A) v)"

fun prop_ok :: "ProtocolContext \<Rightarrow> 'd apd \<Rightarrow> ('d \<Rightarrow> bool) \<Rightarrow> 'd propValue \<Rightarrow> bool" where
  "prop_ok P A fin (PropExpiry v) = SupportsExpiryPolicy P"
| "prop_ok P A fin (PropEntities v) = (\<forall>e \<in> set v. entity_ok A fin e)"
| "prop_ok P A fin _ = True"

definition encProps :: "ProtocolContext \<Rightarrow> 'd apd \<Rightarrow> 'd CacheConfiguration \<Rightarrow> byte list" where
  "encProps P A config = encI16 (word_of_nat (length config)) @ concat (map (\<lambda>p. encI16 (fst p) @ encProp P A (snd p)) config)"

definition encConfig :: "ProtocolContext \<Rightarrow> 'd apd \<Rightarrow> 'd CacheConfiguration \<Rightarrow> byte list" where
  "encConfig P A config = lenBytes (length (encProps P A config)) @ encProps P A config"

lemma writes_keyConfig: "writes (marshalKeyConfig k) (encKeyConfig k)"
  unfolding marshalKeyConfig_def encKeyConfig_def by (rule writes_two) (simp_all add: string_writes)

lemma mwrites_prop:
  assumes "apd_ok (envApd env) fin" and "prop_ok P (envApd env) fin v"
  shows "mwrites (marshalProp P env v) (encProp P (envApd env) v)"
proof (cases v)
  case (PropExpiry e)
  have "writes (thenW (WriteBool True) (writeExpiry x)) ([boolByte True] @ expiryBytes x)" for x
    by (rule writes_then [OF _ writes_expiry]) (simp add: wire)
  then show ?thesis using PropExpiry assms(2) by (cases e) (simp_all add: mwrites_lift wire)
next
  case (PropKeys ks)
  then show ?thesis
    using writes_writeSequence [where w = marshalKeyConfig and enc = encKeyConfig and xs = ks, OF writes_keyConfig]
    by (simp add: mwrites_lift)
next
  case (PropEntities es)
  then have "\<And>e. e \<in> set es \<Longrightarrow> mwrites (marshalQueryEntity P env e) (encEntity P (envApd env) e)"
    using assms(2) by (intro mwrites_entity [OF assms(1)]) simp
  then show ?thesis using PropEntities by (simp add: mwrites_listM)
qed (simp_all add: mwrites_lift string_writes writes_i32 writes_i64 wire)

lemma mwrites_config:
  assumes "apd_ok (envApd env) fin" and "\<forall>p \<in> set config. prop_ok P (envApd env) fin (snd p)"
  shows "mwrites (marshalConfig P env config) (encConfig P (envApd env) config)"
proof -
  let ?hd = "seqW [WriteInt32 0, WriteInt16 (word_of_nat (length config))]"
  have h: "writes ?hd (encI32 0 @ encI16 (word_of_nat (length config)))"
    by (rule writes_two) (simp_all add: wire)
  have "mwrites (marshalProps P env p) (encI16 (fst p) @ encProp P (envApd env) (snd p))" if "p \<in> set config" for p
    unfolding marshalProps_def using assms that
    by (intro mwrites_then mwrites_lift writes_i16(1) mwrites_prop) auto
  then have e: "mwrites (eachMW (marshalProps P env) config)
      (concat (map (\<lambda>p. encI16 (fst p) @ encProp P (envApd env) (snd p)) config))" by (rule mwrites_each)
  have "mwrites (thenMW (liftW ?hd) (eachMW (marshalProps P env) config)) (encI32 0 @ encProps P (envApd env) config)"
    unfolding encProps_def by (rule mwrites_cong [OF mwrites_then [OF mwrites_lift [OF h] e]]) simp
  from mwrites_backpatch [OF this, of "\<lambda>p q. word_of_int (int q - int p - 4)" "word_of_nat (length (encProps P (envApd env) config))"]
  show ?thesis
    unfolding marshalConfig_def encConfig_def lenBytes_def thenMW_def Let_def by (simp add: bindP_assoc encI32_def)
qed

section \<open>Properties\<close>

text \<open>C20 A query entity survives the wire: what marshalQueryEntity writes, unmarshalQueryEntity reads back
  with its fields, aliases and indexes in order, and leaves the stream right after it. Sizes are cut
  to 32 bits, default values come back in canonical form, and the precision and scale of a field are
  lost (minus one) when the protocol does not carry them.\<close>

theorem query_entity_roundtrip:
  assumes "apd_ok (envApd env) fin" and "entity_ok (envApd env) fin e"
    and "length (encEntity P (envApd env) e) \<le> maxInt32"
  shows "\<exists>bw. marshalQueryEntity P env e (NewBinaryOutputStream n) s = (Inr bw, s) \<and>
    unmarshalQueryEntity P env (NewBinaryInputStream (Data bw @ rest) 0) s
      = (Inr (canonEntity P e, \<lparr>ibuf = Data bw @ rest, ioff = 0, ipos = length (Data bw)\<rparr>), s)"
proof -
  obtain bw where "marshalQueryEntity P env e (NewBinaryOutputStream n) s = (Inr bw, s)" "Data bw = encEntity P (envApd env) e"
    using mwrites_fresh [OF mwrites_entity [OF assms(1,2)] assms(3)] by blast
  then show ?thesis
    using mreadsD [OF mreads_entity [OF assms(1,2)], of P "[]" rest 0 s] by (auto simp: NewBinaryInputStream_def)
qed

definition sampleEntity :: "(bool \<times> byte list \<times> i32) QueryEntity" where
  "sampleEntity = WithIndex ''byAge'' [WithIndexField \<lparr>ifName = ''age'', ifAsc = True\<rparr>]
     (WithFieldAlias ''name'' ''n'' (WithQueryField ''age'' ''int'' [WithNotNull, WithPrecision 3]
       \<lparr>qeKeyType = ''long'', qeValType = ''Person'', qeTblName = ''PEOPLE'', qeKeyFldName = [], qeValFldName = [],
        qeFields = [], qeAliases = [], qeIndexes = []\<rparr>))"

lemma sampleEntity_eq: "sampleEntity =
  \<lparr>qeKeyType = ''long'', qeValType = ''Person'', qeTblName = ''PEOPLE'', qeKeyFldName = [], qeValFldName = [],
   qeFields = [\<lparr>qfName = ''age'', qfTypeName = ''int'', qfIsKey = False, qfIsNotNull = True, qfPrecision = 3, qfScale = - 1, qfDfltVal = VNil\<rparr>],
   qeAliases = [(''name'', ''n'')],
   qeIndexes = [\<lparr>qiName = ''byAge'', qiType = 0, qiInlineSz = - 1, qiFields = [\<lparr>ifName = ''age'', ifAsc = True\<rparr>]\<rparr>]\<rparr>"
  by (simp add: sampleEntity_def WithIndex_def WithIndexField_def WithFieldAlias_def WithQueryField_def WithNotNull_def WithPrecision_def Let_def)

lemma sampleEntity_ok: "entity_ok plainDec fin sampleEntity"
  by (simp add: sampleEntity_eq entity_ok_def qfield_ok_def index_ok_def small_def)

definition blank :: "table registry" where
  "blank = \<lparr>regCache = newBinaryMetadataCache, world = Map.empty\<rparr>"

lemma sampleCache_env: "envApd (cacheEnv sampleCache) = plainDec"
  by (simp add: sampleCache_def cacheEnv_def Let_def)

lemma cut_minus_one: "scast (ucast (- 1 :: i64) :: i32) = (- 1 :: i64)"
  by code_simp

lemma sampleEntity_canon: "canonEntity (NewProtocolContext (ver 1 7 0) []) sampleEntity = sampleEntity"
  by (simp add: sampleEntity_eq canonEntity_eq canonQField_eq canonIndex_def cut_minus_one SupportsQueryEntityPrecisionAndScale_def Compare_def ver_def)

lemma sampleEntity_length: "length (encEntity (NewProtocolContext (ver 1 7 0) []) plainDec sampleEntity) \<le> maxInt32"
  by (simp add: sampleEntity_eq encEntity_def encQField_def encIndex_def encIndexField_def encAlias_def encStr_def encString_def encOptString_def
      SupportsQueryEntityPrecisionAndScale_def Compare_def ver_def maxInt32_def)

theorem query_entity_roundtrip_witness:
  "\<exists>bw. marshalQueryEntity (NewProtocolContext (ver 1 7 0) []) (cacheEnv sampleCache) sampleEntity (NewBinaryOutputStream 0) blank
      = (Inr bw, blank) \<and>
    unmarshalQueryEntity (NewProtocolContext (ver 1 7 0) []) (cacheEnv sampleCache) (NewBinaryInputStream (Data bw @ [7]) 0) blank
      = (Inr (sampleEntity, \<lparr>ibuf = Data bw @ [7], ioff = 0, ipos = length (Data bw)\<rparr>), blank)"
  using query_entity_roundtrip [where env = "cacheEnv sampleCache" and e = sampleEntity and n = 0 and rest = "[7]" and s = blank
      and P = "NewProtocolContext (ver 1 7 0) []" and fin = "\<lambda>d. dropWhile (\<lambda>b. b = 0) (fst (snd d)) = fst (snd d)"]
    plainDec_ok sampleEntity_ok sampleEntity_length sampleEntity_canon by (simp add: sampleCache_env)

text \<open>C32 The configuration of a cache as the server describes it: against a server that answers the
  request with a description in the order of the protocol, deprecated fields included, the getters
  of the configuration give the described values, a property the description leaves empty gives the
  default, and the expiry policy is read when the protocol has one.\<close>

theorem server_configuration_read:
  assumes "apd_ok (envApd (cacheEnv c)) fin" and "server_ok (envApd (cacheEnv c)) fin d"
    and "cacheExpiry c = None \<or> SupportsExpiryPolicy (linkProto (cacheChannel ctx c))"
    and "linkServer (cacheChannel ctx c) opCacheGetConfiguration (infoBytes ctx (cacheId c) (cacheExpiry c) False) (world s)
      = (Inr (serverBytes (linkProto (cliCh (cacheCli c))) (envApd (cacheEnv c)) d @ rest), w)"
  shows "\<exists>config. CacheGetConfiguration ctx c s = (Inr config, s\<lparr>world := w\<rparr>) \<and>
    viewOf config = serverView (linkProto (cliCh (cacheCli c))) d"
proof -
  let ?P = "linkProto (cliCh (cacheCli c))"
  have "CacheGetConfiguration ctx c s = (Inr (serverProps ?P d), s\<lparr>world := w\<rparr>)"
    unfolding CacheGetConfiguration_def cacheOp_def
  proof (rule sendOp_run)
    show "mwrites (thenMW (cacheInfo ctx c False) emptyRequest) (infoBytes ctx (cacheId c) (cacheExpiry c) False)"
      unfolding cacheInfo_def using assms(3)
      by (intro mwrites_cong [OF mwrites_then [OF mwrites_lift [OF writes_cacheInfo] mwrites_empty]]) auto
    show "length (infoBytes ctx (cacheId c) (cacheExpiry c) False) \<le> maxInt32"
      using length_info [of ctx "cacheId c" "cacheExpiry c" False] by (simp add: maxInt32_def)
    show "linkServer (cacheChannel ctx c) opCacheGetConfiguration (infoBytes ctx (cacheId c) (cacheExpiry c) False) (world s)
      = (Inr (serverBytes ?P (envApd (cacheEnv c)) d @ rest), w)" by (rule assms(4))
    show "mreads (unmarshalCacheConfiguration ?P (cacheEnv c)) (serverBytes ?P (envApd (cacheEnv c)) d) (serverProps ?P d)"
      by (rule mreads_serverConfig [OF assms(1,2)])
  qed
  then show ?thesis using viewOf_serverProps [of ?P d] by blast
qed

text \<open>A server that describes a cache with a node filter of its own choice in the deprecated fields.\<close>

definition sampleServer :: "(bool \<times> byte list \<times> i32) serverConfig" where
  "sampleServer = \<lparr>scAtomicity = 1, scBackups = 2, scMode = 2, scCopyOnRead = True, scDataRegion = [], scEagerTtl = True,
     scStats = False, scGroup = ''g'', scMaxAsync = 500, scMaxIterators = 1024, scName = ''people'', scOnHeap = False,
     scLoss = 4, scMetrics = 0, scParallelism = 1, scFromBackup = True, scRebalance = 1, scRebalanceOrder = 0,
     scEscapeAll = False, scMaxInline = - 1, scSchema = ''PUBLIC'', scSync = 2,
     scKeys = [\<lparr>keyTypeName = ''Key'', affKeyFldName = ''org''\<rparr>], scEntities = [sampleEntity],
     scExpiry = Some (5, - 1, - 2), scOld32 = (17, 18), scOld64 = (500, 1, 2, 3, 4)\<rparr>"

definition describingCache :: "(bool \<times> byte list \<times> i32, table) Cache" where
  "describingCache = sampleCache\<lparr>cacheCli :=
     \<lparr>cliCh = \<lparr>linkServer = \<lambda>_ _ t. (Inr (serverBytes (NewProtocolContext (ver 1 7 0) []) plainDec sampleServer), t),
              linkProto = NewProtocolContext (ver 1 7 0) []\<rparr>,
      cliEnv = cliEnv (cacheCli sampleCache)\<rparr>\<rparr>"

theorem server_configuration_read_witness:
  "\<exists>config. CacheGetConfiguration None describingCache blank = (Inr config, blank) \<and>
     Backups config = 2 \<and> DataRegionName config = [] \<and> QueryEntities config = [sampleEntity] \<and>
     ConfigExpiryPolicy config = Some \<lparr>creation = 5000000, access = - 2, expUpdate = - 1\<rparr>"
proof -
  have P: "linkProto (cliCh (cacheCli describingCache)) = NewProtocolContext (ver 1 7 0) []" by (simp add: describingCache_def)
  have A: "envApd (cacheEnv describingCache) = plainDec"
    using sampleCache_env by (simp add: describingCache_def cacheEnv_def)
  have ok: "server_ok plainDec fin sampleServer" for fin
    by (simp add: server_ok_def sampleServer_def small_def sampleEntity_ok)
  obtain config where c: "CacheGetConfiguration None describingCache blank = (Inr config, blank)"
      "viewOf config = serverView (NewProtocolContext (ver 1 7 0) []) sampleServer"
    using server_configuration_read [where c = describingCache and ctx = None and d = sampleServer and s = blank and rest = "[]"
        and w = "world blank", unfolded A P, OF plainDec_ok ok]
    by (auto simp: describingCache_def cacheChannel_def sampleCache_def Let_def blank_def)
  have e: "SupportsExpiryPolicy (NewProtocolContext (ver 1 7 0) [])"
    by (simp add: SupportsExpiryPolicy_def Compare_def ver_def)
  have "vBackups (viewOf config) = 2" "vDataRegion (viewOf config) = []" "vEntities (viewOf config) = [sampleEntity]"
    "vExpiry (viewOf config) = Some \<lparr>creation = 5000000, access = - 2, expUpdate = - 1\<rparr>"
    using e unfolding c(2) by (simp_all add: serverView_def sampleServer_def sampleEntity_canon serverExpiry_def
        millisToDuration_def DurationUnchanged_def)
  then show ?thesis using c(1) by (simp add: viewOf_def)
qed

text \<open>C19 Options and getters. A configuration made or copied with any sequence of options has getters
  that return what the abstract record of settings holds after the same sequence: each option shows
  in its getter and in no other, names are trimmed and blank ones ignored, the last value wins, a
  query entity or a key configuration is appended unless its value type or its affinity field is
  there already, and what is not set has the default.\<close>

theorem options_show_in_getters:
  "viewOf (CreateCacheConfiguration name (map settingOption xs)) = fold settingView xs (defaultView\<lparr>vName := name\<rparr>) \<and>
   (wf_config config \<longrightarrow>
     viewOf (CopyConfiguration (map settingOption xs) config) = fold settingView xs (viewOf config))"
proof -
  have "wf_config config \<Longrightarrow> viewOf (CopyConfiguration (map settingOption xs) config) = fold settingView xs (viewOf config)"
    unfolding copy_then_options [of "map settingOption xs"] by (simp only: viewOf_fold viewOf_copy)
  then show ?thesis by (simp add: CreateCacheConfiguration_def viewOf_fold viewOf_named)
qed

text \<open>C33 Configurations are well formed. Whatever options of the package make a configuration or change a
  copy of a well-formed one, every property has the type its getter and its option assert, so that no
  assertion fails, value types of the query entities, affinity fields of the key configurations, names
  of the indexes of an entity, names of the fields of an index and aliased names are distinct. Names of the fields of an entity are
  not among these: WithQueryField appends without looking.\<close>

theorem options_keep_types:
  assumes "\<forall>opt \<in> set opts. config_option opt"
  shows "wf_config (CreateCacheConfiguration name opts) \<and>
    (wf_config config \<longrightarrow> wf_config (CopyConfiguration opts config))"
proof -
  have "wf_config (fold (\<lambda>opt. opt) opts c)" if "wf_config c" for c
    using assms wf_option that by (rule fold_keeps)
  moreover have "wf_config [(cacheNameProp, PropString name)]" by (simp add: wf_config_def)
  ultimately show ?thesis
    unfolding CreateCacheConfiguration_def copy_then_options [of opts config] using wf_config_copy by blast
qed

text \<open>A second type with the same affinity field is dropped. WithCacheKeyConfiguration compares the
  affinity field names only, so of two key types that have an affinity field of the same name the
  second is never configured.\<close>

theorem key_configuration_drops_types:
  "WithCacheKeyConfiguration t' f (WithCacheKeyConfiguration t f config) = WithCacheKeyConfiguration t f config \<and>
   KeyConfiguration (CreateCacheConfiguration ''c'' [WithCacheKeyConfiguration ''Person'' ''org'',
      WithCacheKeyConfiguration ''Company'' ''org''] :: (bool \<times> byte list \<times> i32) CacheConfiguration)
    = [\<lparr>keyTypeName = ''Person'', affKeyFldName = ''org''\<rparr>]"
proof -
  have "WithCacheKeyConfiguration t' f (WithCacheKeyConfiguration t f config) = WithCacheKeyConfiguration t f config"
    by (simp add: WithCacheKeyConfiguration_def Let_def get_set)
  moreover have "KeyConfiguration (CreateCacheConfiguration ''c'' [WithCacheKeyConfiguration ''Person'' ''org'',
      WithCacheKeyConfiguration ''Company'' ''org''] :: (bool \<times> byte list \<times> i32) CacheConfiguration)
    = [\<lparr>keyTypeName = ''Person'', affKeyFldName = ''org''\<rparr>]"
    by (simp add: CreateCacheConfiguration_def KeyConfiguration_def WithCacheKeyConfiguration_def getProperty_def
        setProperty_def prop_codes as_defs)
  ultimately show ?thesis by blast
qed

definition personOptions :: "(bool \<times> byte list \<times> i32) configOption list" where
  "personOptions = [WithBackupsCount 2, WithCacheName ''  people '', WithBackupsCount 1,
     WithQueryEntity ''long'' ''Person'' [WithIndex ''i'' [WithIndexField \<lparr>ifName = ''a'', ifAsc = True\<rparr>]],
     WithQueryEntity ''int'' ''Person'' []]"

lemma personOptions_ok: "\<forall>opt \<in> set personOptions. config_option opt"
  by (auto simp: personOptions_def intro!: config_option.intros entity_option.intros index_option.intros)

theorem options_keep_types_witness:
  "wf_config (CreateCacheConfiguration ''c'' personOptions) \<and>
   wf_config (CopyConfiguration personOptions (CreateCacheConfiguration ''c'' []))"
proof -
  have "wf_config (CreateCacheConfiguration ''c'' [] :: (bool \<times> byte list \<times> i32) CacheConfiguration)"
    by (simp add: CreateCacheConfiguration_def wf_config_def)
  then show ?thesis using options_keep_types [OF personOptions_ok] by blast
qed

theorem options_show_in_getters_witness:
  "vBackups (viewOf (CopyConfiguration [WithBackupsCount 2, WithCacheMode 1, WithBackupsCount 1]
      (CreateCacheConfiguration ''c'' [] :: (bool \<times> byte list \<times> i32) CacheConfiguration))) = 1"
proof -
  have "wf_config (CreateCacheConfiguration ''c'' [] :: (bool \<times> byte list \<times> i32) CacheConfiguration)"
    by (simp add: CreateCacheConfiguration_def wf_config_def)
  from options_show_in_getters [of "''c''" "[CBackups 2, CMode 1, CBackups 1]"
      "CreateCacheConfiguration ''c'' [] :: (bool \<times> byte list \<times> i32) CacheConfiguration"] this
  show ?thesis by simp
qed

end
