(* ===== verification/Objects.thy ===== *)
theory Objects
  imports Ops Trim
begin

text \<open>
  Binary objects and enums as the client makes them: binary_enum.go (enum arrays, the methods of a
  binary enum, newBinaryEnum, registerEnumMeta), the options and CreateBinaryObject of client.go,
  and checkBinaryConfiguration of marshaller.go. A BinaryObject is the bytes of an object or a
  binary enum; a BinaryType is its metadata.
\<close>

declare seqW.simps [simp del] unmarshal.simps [simp del]

section \<open>Arrays of enums\<close>

datatype boValue = BoBytes "byte list" | BoEnum binary_enum

fun boIsEnum :: "boValue \<Rightarrow> bool" where
  "boIsEnum (BoBytes _) = False"
| "boIsEnum (BoEnum _) = True"

fun boGoval :: "boValue \<Rightarrow> 'd goval" where
  "boGoval (BoBytes bs) = VBinaryObject bs"
| "boGoval (BoEnum e) = VBinaryEnum e"

record BinaryEnumArray =
  arrElType :: "binaryMetadata option"
  arrData :: "binary_enum option list"
  arrNotNull :: bool

text \<open>The zero value, which is the null array.\<close>

definition nullEnumArray :: BinaryEnumArray where
  "nullEnumArray = \<lparr>arrElType = None, arrData = [], arrNotNull = False\<rparr>"

fun enumElements :: "binaryMetadata \<Rightarrow> boValue option list \<Rightarrow> gerror + binary_enum option list" where
  "enumElements elType [] = Inr []"
| "enumElements elType (None # els) = (case enumElements elType els of Inl e \<Rightarrow> Inl e | Inr es \<Rightarrow> Inr (None # es))"
| "enumElements elType (Some (BoBytes _) # els) = Inl (ErrMsg ''non enum element is inserting'')"
| "enumElements elType (Some (BoEnum el) # els) =
     (if enumTypeId el \<noteq> metaTypeId elType \<or> enumTypeName el \<noteq> metaTypeName elType
      then Inl (ErrMsg ''inserting elements with different typeId or typeName'')
      else case enumElements elType els of Inl e \<Rightarrow> Inl e | Inr es \<Rightarrow> Inr (Some el # es))"

definition NewEnumArray :: "binaryMetadata option \<Rightarrow> boValue option list \<Rightarrow> gerror + BinaryEnumArray" where
  "NewEnumArray elType elements = (case elType of
     None \<Rightarrow> Inl (ErrMsg ''NewEnumArray called with nil elType'')
   | Some t \<Rightarrow>
       if \<not> isEnum t then Inl (ErrMsg ''type is not enum, enum type is required'')
       else case enumElements t elements of Inl e \<Rightarrow> Inl e
         | Inr es \<Rightarrow> Inr \<lparr>arrElType = Some t, arrData = es, arrNotNull = True\<rparr>)"

definition arrIsNull :: "BinaryEnumArray \<Rightarrow> bool" where
  "arrIsNull arr = (\<not> arrNotNull arr)"

definition arrSize :: "BinaryEnumArray \<Rightarrow> nat" where
  "arrSize arr = length (arrData arr)"

definition arrGoval :: "BinaryEnumArray \<Rightarrow> 'd goval" where
  "arrGoval arr = VEnumArray (map_option (\<lambda>t. (metaTypeId t, metaTypeName t)) (arrElType arr)) (arrData arr) (arrNotNull arr)"

section \<open>A binary enum\<close>

definition enumTypeOf :: "('d, 'w) env \<Rightarrow> binary_enum \<Rightarrow> ('w registry, binaryMetadata) prog" where
  "enumTypeOf env b =
     bindP (getMetadata (envServer env) (enumTypeId b)) (\<lambda>meta. case meta of
       None \<Rightarrow> failP (ErrMsg ''no metadata found for typeId'') | Some m \<Rightarrow> returnP m)"

definition enumField :: "binary_enum \<Rightarrow> string \<Rightarrow> ('w registry, 'd goval) prog" where
  "enumField b fldName = failP (ErrMsg ''not supported for binary enums'')"

definition enumHashCode :: "binary_enum \<Rightarrow> i32" where
  "enumHashCode b = 31 * enumTypeId b + enumOrd b"

definition EnumOrdinal :: "binary_enum \<Rightarrow> int" where
  "EnumOrdinal b = sint (enumOrd b)"

text \<open>The checks come first, then the name is registered, then the five bytes are laid out.\<close>

definition enumBytes :: "i32 \<Rightarrow> string \<Rightarrow> i32 \<Rightarrow> byte list res" where
  "enumBytes typeId typeName ord =
     bindE (seqW [WriteType EnumType, WriteInt32 typeId,
         (if typeId = unregisteredId then writeString typeName else skipW), WriteInt32 ord] (NewBinaryOutputStream 5))
       (\<lambda>bw. Slice 0 (opos bw) bw)"

definition newBinaryEnum :: "('d, 'w) env \<Rightarrow> 'd boOptions \<Rightarrow> ('w registry, binary_enum) prog" where
  "newBinaryEnum env opts =
     (if \<not> optIsEnum opts then failP (ErrMsg ''invalid options for creating enums'')
      else
        let typeName = optTypeName opts; ord = optOrd opts; typeId = envTypeId env typeName in
        bindP (wrapP ''failed to get metadata'' (getMetadata (envServer env) typeId)) (\<lambda>meta. case meta of
          None \<Rightarrow> failP (ErrMsg ''no previous binary metadata was registered'')
        | Some m \<Rightarrow>
            if \<not> isEnum m then failP (ErrMsg ''type has been already registered as non enum'')
            else if map_of (ordToName m) ord = None then failP (ErrMsg ''invalid ordinal'')
            else
              bindP (if optSkipTypeRegistration opts then returnP unregisteredId
                     else bindP (registerClassName (envServer env) (optPlatform opts) typeId typeName) (\<lambda>_. returnP typeId))
                (\<lambda>typeId.
              bindP (liftP (enumBytes typeId (metaTypeName m) ord)) (\<lambda>data.
                returnP \<lparr>enumOrd = ord, enumValName = lookupName (ordToName m) ord, enumTypeId = typeId,
                         enumTypeName = metaTypeName m, enumData = data\<rparr>))))"

definition registerEnumMeta :: "('d, 'w) env \<Rightarrow> string \<Rightarrow> (string \<times> int) list \<Rightarrow> ('w registry, unit) prog" where
  "registerEnumMeta env typeName names =
     (let typeId = envTypeId env typeName in
      bindP (wrapP ''failed to get metadata'' (getMetadata (envServer env) typeId)) (\<lambda>oldMeta.
      case (case oldMeta of
              None \<Rightarrow> None
            | Some m \<Rightarrow>
                if typeName \<noteq> metaTypeName m then Some (ErrMsg ''types have the same typeId'')
                else if \<not> isEnum m then Some (ErrMsg ''type has been already registered as non enum'')
                else None) of
        Some e \<Rightarrow> failP e
      | None \<Rightarrow>
          bindP (putMetadata (envServer env)
              (newEnumMetadata typeId typeName (map (\<lambda>(name, ord). (name, word_of_int ord)) names)))
            (\<lambda>_. returnP ())))"

section \<open>The client\<close>

type_synonym 'd boOption = "'d boOptions \<Rightarrow> 'd boOptions"

definition WithAffinityKeyName :: "string \<Rightarrow> 'd boOption" where
  "WithAffinityKeyName name opt =
     (let name = TrimSpace name in
      if length name = 0 then opt else opt\<lparr>optAffKeyName := name\<rparr>)"

text \<open>The first field of a name wins; fields and their order are one list.\<close>

definition addOptField :: "string \<Rightarrow> i32 \<Rightarrow> 'd goval \<Rightarrow> 'd boOption" where
  "addOptField name typeId v opt =
     (let name = TrimSpace name in
      if length name = 0 then opt
      else if name \<in> fst ` set (optFields opt) then opt
      else opt\<lparr>optFields := optFields opt @ [(name, typeId, v)]\<rparr>)"

definition WithField :: "string \<Rightarrow> 'd goval \<Rightarrow> 'd boOption" where
  "WithField name v = addOptField name (- 1) v"

definition WithNullField :: "string \<Rightarrow> TypeDesc \<Rightarrow> 'd boOption" where
  "WithNullField name typeId = addOptField name (typeCode32 typeId) VNil"

definition WithMarshallerPlatform :: "MarshallerPlatform \<Rightarrow> 'd boOption" where
  "WithMarshallerPlatform platform opt = opt\<lparr>optPlatform := platform\<rparr>"

definition WithEnumOrdinal :: "i64 \<Rightarrow> 'd boOption" where
  "WithEnumOrdinal ord opt = opt\<lparr>optIsEnum := True, optOrd := ucast ord\<rparr>"

definition errTypeNameEmpty :: gerror where
  "errTypeNameEmpty = ErrMsg ''type name is empty''"

definition defaultBoOptions :: "string \<Rightarrow> 'd boOptions" where
  "defaultBoOptions typeName =
     \<lparr>optIsEnum = False, optOrd = - (2 ^ 31), optTypeName = typeName, optAffKeyName = [], optFields = [],
      optPlatform = JavaMarshaller, optSkipTypeRegistration = False\<rparr>"

definition CreateBinaryObject :: "('d, 'w) env \<Rightarrow> string \<Rightarrow> 'd boOption list \<Rightarrow> ('w registry, boValue) prog" where
  "CreateBinaryObject env typeName opts =
     (let typeName = TrimSpace typeName in
      if length typeName = 0 then failP errTypeNameEmpty
      else
        let boOpts = fold (\<lambda>opt. opt) opts (defaultBoOptions typeName) in
        if optIsEnum boOpts then bindP (newBinaryEnum env boOpts) (\<lambda>e. returnP (BoEnum e))
        else bindP (newBinaryObject env (marshal env) boOpts) (\<lambda>bs. returnP (BoBytes bs)))"

definition RegisterEnumMetadata :: "('d, 'w) env \<Rightarrow> string \<Rightarrow> (string \<times> int) list \<Rightarrow> ('w registry, unit) prog" where
  "RegisterEnumMetadata env typeName names =
     (let typeName = TrimSpace typeName in
      if length typeName = 0 then failP errTypeNameEmpty else registerEnumMeta env typeName names)"

section \<open>The binary configuration of the server\<close>

definition opGetBinaryConfiguration :: i16 where "opGetBinaryConfiguration = 3004"

definition checkBinaryConfiguration :: "'w link \<Rightarrow> ('d, 'w) env \<Rightarrow> ('w registry, ('d, 'w) env) prog" where
  "checkBinaryConfiguration ch env =
     (if SupportsAttributeFeature (linkProto ch) BinaryConfigurationFeature
      then bindP (sendOp ch opGetBinaryConfiguration emptyRequest
             (bindMR (liftR ReadBool) (\<lambda>compact. bindMR (liftR ReadInt8) (\<lambda>_. returnMR compact))))
           (\<lambda>compact. returnP (env\<lparr>envCompact := compact\<rparr>))
      else returnP env)"

end
