(* ===== verification/ObjectsProps.thy ===== *)
theory ObjectsProps
  imports Objects MarshalTotal
begin

text \<open>
  What enums promise: the elements of an enum array have the type of the array, and a binary enum
  made by the client is written and read back, except for the name of its type.
\<close>

declare seqW.simps [simp del] unmarshal.simps [simp del]

section \<open>The bytes of an enum\<close>

definition encEnum :: "i32 \<Rightarrow> i32 \<Rightarrow> byte list" where
  "encEnum typeId ord = typeCode EnumType # encI32 typeId @ encI32 ord"

lemma Slice_Data: "wf_out bw \<Longrightarrow> Slice 0 (opos bw) bw = Inr (Data bw)"
  by (simp add: Slice_def wf_out_def Data_def)

lemma enumBytes_registered:
  assumes "typeId \<noteq> unregisteredId"
  shows "enumBytes typeId typeName ord = Inr (encEnum typeId ord)"
proof -
  have "writes (seqW [WriteType EnumType, WriteInt32 typeId, skipW, WriteInt32 ord]) (encEnum typeId ord)"
    unfolding encEnum_def by (rule writes_cong, (rule writes_parts)+) simp
  moreover obtain bw where "put (encEnum typeId ord) (NewBinaryOutputStream 5) = Inr bw" "wf_out bw" "Data bw = encEnum typeId ord"
    using put_ok [OF wf_out_New, of 5 "encEnum typeId ord"]
    by (auto simp: NewBinaryOutputStream_def maxInt32_def encEnum_def Data_def)
  ultimately show ?thesis
    using assms writesD [OF _ wf_out_New] by (simp add: enumBytes_def Slice_Data)
qed

lemma readEnumBytes_run:
  "readEnumBytes (int (length pre)) \<lparr>ibuf = pre @ (b # encI32 typeId @ encI32 ord) @ post, ioff = off, ipos = length pre + 5\<rparr>
    = Inr ((ord, encEnum typeId ord), \<lparr>ibuf = pre @ (b # encI32 typeId @ encI32 ord) @ post, ioff = off, ipos = length pre + 9\<rparr>)"
proof -
  have 1: "ReadInt32 \<lparr>ibuf = (pre @ b # encI32 typeId) @ encI32 ord @ post, ioff = off, ipos = length (pre @ b # encI32 typeId)\<rparr>
      = Inr (ord, \<lparr>ibuf = (pre @ b # encI32 typeId) @ encI32 ord @ post, ioff = off, ipos = length (pre @ b # encI32 typeId) + length (encI32 ord)\<rparr>)"
    by (rule readsD [OF reads_words(3)])
  then show ?thesis
    by (simp add: readEnumBytes_def bindR_def ensureAvailable_def positionR_def SetPosition_def ReadBytes_def returnR_def encEnum_def
        Available_def size_defs)
qed

lemma getMetadata_cached: "cacheGetMetadata typeId (regCache s) = Some m \<Longrightarrow> getMetadata srv typeId s = (Inr (Some m), s)"
  by (simp add: getMetadata_def fromCache_def bindP_def)

lemma registerClassName_known:
  "cacheGetClassName platform typeId (regCache s) \<noteq> [] \<Longrightarrow> registerClassName srv platform typeId name s = (Inr (), s)"
  by (simp add: registerClassName_def fromCache_def bindP_def)

lemma mwrites_enum: "mwrites (marshal env (VBinaryEnum e)) (enumData e)"
  by (simp add: mwrites_lift wire)

lemma unmarshal_enum:
  assumes m: "cacheGetMetadata typeId (regCache s) = Some m" "isEnum m"
    and t: "typeId \<noteq> unregisteredId" and f: "envFactories env typeId = None"
  shows "unmarshal env (Suc n) \<lparr>ibuf = pre @ encEnum typeId ord @ post, ioff = off, ipos = length pre\<rparr> s
    = (Inr (VBinaryEnum \<lparr>enumOrd = ord, enumValName = lookupName (ordToName m) ord, enumTypeId = typeId,
            enumTypeName = [], enumData = encEnum typeId ord\<rparr>,
         \<lparr>ibuf = pre @ encEnum typeId ord @ post, ioff = off, ipos = length pre + 9\<rparr>), s)"
proof -
  let ?buf = "pre @ encEnum typeId ord @ post"
  have ty: "readTypeByte \<lparr>ibuf = ?buf, ioff = off, ipos = length pre\<rparr>
      = Inr (typeCode EnumType, \<lparr>ibuf = ?buf, ioff = off, ipos = length pre + 1\<rparr>)"
    using readsD [OF reads_readTypeByte, of pre "typeCode EnumType" "encI32 typeId @ encI32 ord @ post" off] by (simp add: encEnum_def)
  have cls: "readClass \<lparr>ibuf = ?buf, ioff = off, ipos = length pre + 1\<rparr>
      = Inr (\<lparr>itypeId = typeId, itypeName = []\<rparr>, \<lparr>ibuf = ?buf, ioff = off, ipos = length pre + 5\<rparr>)"
    using readsD [OF reads_readClass [of "\<lparr>itypeId = typeId, itypeName = []\<rparr>"], of "pre @ [typeCode EnumType]" "encI32 ord @ post" off] t
    by (simp add: encEnum_def encClass_def canonClass_def small_def)
  have en: "readEnumBytes (int (length pre)) \<lparr>ibuf = ?buf, ioff = off, ipos = length pre + 5\<rparr>
      = Inr ((ord, encEnum typeId ord), \<lparr>ibuf = ?buf, ioff = off, ipos = length pre + 9\<rparr>)"
    using readEnumBytes_run [of pre "typeCode EnumType" typeId ord post off] by (simp add: encEnum_def)
  have body: "unmarshalBody env um EnumType = readEnumValue env False" for um
    by (simp add: unmarshalBody_def readFlat_def orElse_def)
  show ?thesis
    using ty cls en m f
    by (simp add: unmarshal.simps bindMR_def bindP_def liftR_def liftP_def body readEnumValue_def positionR_def wrapMR_def wrapP_def
        getEnumFactory_def readBinaryEnum_def doMR_def getMetadata_cached returnMR_def returnR_def)
qed

section \<open>The elements of an array\<close>

fun ofEnumType :: "binaryMetadata \<Rightarrow> boValue option \<Rightarrow> bool" where
  "ofEnumType t None = True"
| "ofEnumType t (Some (BoBytes _)) = False"
| "ofEnumType t (Some (BoEnum e)) = (enumTypeId e = metaTypeId t \<and> enumTypeName e = metaTypeName t)"

lemma ofEnumType_iff: "ofEnumType t b \<longleftrightarrow> b = None \<or>
    (\<exists>e. b = Some (BoEnum e) \<and> enumTypeId e = metaTypeId t \<and> enumTypeName e = metaTypeName t)"
  by (cases "(t, b)" rule: ofEnumType.cases) auto

lemma map_BoEnum_inject [simp]: "map (map_option BoEnum) xs = map (map_option BoEnum) ys \<longleftrightarrow> xs = ys"
proof (rule inj_map_eq_map, rule option.inj_map)
  show "inj BoEnum" by (simp add: inj_def)
qed

lemma enumElements_Inr: "enumElements t els = Inr es \<longleftrightarrow> list_all (ofEnumType t) els \<and> map (map_option BoEnum) es = els"
proof (induction els arbitrary: es)
  case (Cons b els)
  have IH: "enumElements t els = Inr (tl es) \<longleftrightarrow> list_all (ofEnumType t) els \<and> map (map_option BoEnum) (tl es) = els"
    by (rule Cons.IH)
  show ?case
  proof (cases "enumElements t els")
    case (Inl e)
    then have "\<not> (list_all (ofEnumType t) els \<and> map (map_option BoEnum) xs = els)" for xs
      using Cons.IH [of xs] by simp
    then show ?thesis using Inl
      by (cases "(t, b)" rule: ofEnumType.cases; cases es) auto
  next
    case (Inr xs)
    then have "list_all (ofEnumType t) els \<and> map (map_option BoEnum) xs = els" using Cons.IH [of xs] by simp
    then show ?thesis using Inr
      by (cases "(t, b)" rule: ofEnumType.cases; cases es) auto
  qed
qed auto

lemma enumElements_ok: "(\<exists>es. enumElements t els = Inr es) \<longleftrightarrow> list_all (ofEnumType t) els"
proof -
  have "\<exists>es. map (map_option BoEnum) es = els" if "list_all (ofEnumType t) els"
    using that
  proof (induction els)
    case (Cons b els)
    then obtain es where "map (map_option BoEnum) es = els" by auto
    moreover obtain x where "map_option BoEnum x = b"
      using Cons.prems by (cases b) (auto simp: ofEnumType_iff)
    ultimately show ?case by (intro exI [of _ "x # es"]) simp
  qed simp
  then show ?thesis by (auto simp: enumElements_Inr)
qed

lemma NewEnumArray_Inr: "NewEnumArray elType els = Inr arr \<longleftrightarrow>
    (\<exists>t es. elType = Some t \<and> isEnum t \<and> enumElements t els = Inr es \<and> arr = \<lparr>arrElType = Some t, arrData = es, arrNotNull = True\<rparr>)"
  by (cases elType) (auto simp: NewEnumArray_def split: sum.splits)

section \<open>Properties\<close>

text \<open>Enum arrays are typed. NewEnumArray succeeds exactly when the type is an enum and every element
  that is not nil is a binary enum of that type; the array then has the elements in order, is not
  null, and all its elements have the type id and the type name of the array.\<close>

theorem enum_array_typed:
  "((\<exists>arr. NewEnumArray elType els = Inr arr) \<longleftrightarrow>
      (\<exists>t. elType = Some t \<and> isEnum t \<and> list_all (\<lambda>b. b = None \<or>
         (\<exists>e. b = Some (BoEnum e) \<and> enumTypeId e = metaTypeId t \<and> enumTypeName e = metaTypeName t)) els)) \<and>
   (NewEnumArray elType els = Inr arr \<longrightarrow>
      arrElType arr = elType \<and> \<not> arrIsNull arr \<and> map (map_option BoEnum) (arrData arr) = els \<and> arrSize arr = length els)"
proof -
  have "(\<exists>arr. NewEnumArray elType els = Inr arr) \<longleftrightarrow> (\<exists>t. elType = Some t \<and> isEnum t \<and> list_all (ofEnumType t) els)"
    using enumElements_ok [of _ els] by (simp add: NewEnumArray_Inr) blast
  moreover have "ofEnumType t = (\<lambda>b. b = None \<or>
         (\<exists>e. b = Some (BoEnum e) \<and> enumTypeId e = metaTypeId t \<and> enumTypeName e = metaTypeName t))" for t
    by (rule ext) (rule ofEnumType_iff)
  moreover have "NewEnumArray elType els = Inr arr \<Longrightarrow>
      arrElType arr = elType \<and> \<not> arrIsNull arr \<and> map (map_option BoEnum) (arrData arr) = els \<and> arrSize arr = length els"
    by (auto simp: NewEnumArray_Inr enumElements_Inr arrIsNull_def arrSize_def)
  ultimately show ?thesis by simp
qed

text \<open>C36 Binary enums on the wire. When the metadata of an enum type and the name of its class are known,
  an enum of a valid ordinal is made without a request, marshal writes its nine bytes and unmarshal reads
  it back with its ordinal, its name and its bytes, but without the name of its type: NewEnumArray refuses
  such an element, although it has the type of the array.\<close>

theorem binary_enum_wire:
  assumes "optIsEnum opts" and "\<not> optSkipTypeRegistration opts" and "envTypeId env (optTypeName opts) = typeId"
    and "typeId \<noteq> unregisteredId" and "cacheGetMetadata typeId (regCache s) = Some m" and "isEnum m"
    and "map_of (ordToName m) (optOrd opts) = Some label" and "envFactories env typeId = None"
    and "cacheGetClassName (optPlatform opts) typeId (regCache s) \<noteq> []"
  shows "\<exists>e bw. newBinaryEnum env opts s = (Inr e, s) \<and>
    e = \<lparr>enumOrd = optOrd opts, enumValName = label, enumTypeId = typeId, enumTypeName = metaTypeName m, enumData = encEnum typeId (optOrd opts)\<rparr> \<and>
    marshal env (boGoval (BoEnum e)) (NewBinaryOutputStream n) s = (Inr bw, s) \<and>
    unmarshal env (Suc k) (NewBinaryInputStream (Data bw @ rest) 0) s
      = (Inr (boGoval (BoEnum (e\<lparr>enumTypeName := []\<rparr>)), \<lparr>ibuf = Data bw @ rest, ioff = 0, ipos = length (Data bw)\<rparr>), s) \<and>
    (metaTypeName m \<noteq> [] \<longrightarrow> NewEnumArray (Some m) [Some (BoEnum (e\<lparr>enumTypeName := []\<rparr>))]
      = Inl (ErrMsg ''inserting elements with different typeId or typeName''))"
proof -
  let ?d = "encEnum typeId (optOrd opts)"
  let ?e = "\<lparr>enumOrd = optOrd opts, enumValName = label, enumTypeId = typeId, enumTypeName = metaTypeName m, enumData = ?d\<rparr>"
  have label: "lookupName (ordToName m) (optOrd opts) = label" using assms(7) by (simp add: lookupName_def)
  have new: "newBinaryEnum env opts s = (Inr ?e, s)"
    using assms label by (simp add: newBinaryEnum_def Let_def bindP_def wrapP_def getMetadata_cached registerClassName_known
        enumBytes_registered)
  have "length ?d \<le> maxInt32" by (simp add: encEnum_def maxInt32_def)
  then obtain bw where bw: "marshal env (VBinaryEnum ?e) (NewBinaryOutputStream n) s = (Inr bw, s)" "Data bw = ?d"
    using mwrites_fresh [OF mwrites_enum [of env ?e]] by auto
  have "unmarshal env (Suc k) (NewBinaryInputStream (?d @ rest) 0) s
      = (Inr (VBinaryEnum (?e\<lparr>enumTypeName := []\<rparr>), \<lparr>ibuf = ?d @ rest, ioff = 0, ipos = length ?d\<rparr>), s)"
    using unmarshal_enum [OF assms(5,6,4,8), where pre = "[]" and off = 0 and post = rest] label
    by (simp add: NewBinaryInputStream_def encEnum_def)
  then show ?thesis using new bw assms(6) by (intro exI [of _ ?e] exI [of _ bw]) (simp add: NewEnumArray_def)
qed

definition colorMeta :: binaryMetadata where
  "colorMeta = newEnumMetadata 7 ''Color'' [(''RED'', 0), (''BLUE'', 1)]"

definition colorReg :: "unit registry" where
  "colorReg = \<lparr>regCache = cacheRegisterClassName JavaMarshaller 7 ''Color''
     (newBinaryMetadataCache\<lparr>metaData := [7 \<mapsto> colorMeta]\<rparr>), world = ()\<rparr>"

definition colorEnv :: "(bool \<times> byte list \<times> i32, unit) env" where
  "colorEnv = sampleEnv\<lparr>envTypeId := \<lambda>_. 7\<rparr>"

theorem enum_array_typed_witness:
  "\<exists>arr. NewEnumArray (Some colorMeta) [None, Some (BoEnum \<lparr>enumOrd = 1, enumValName = ''BLUE'', enumTypeId = 7,
      enumTypeName = ''Color'', enumData = encEnum 7 1\<rparr>)] = Inr arr \<and> arrSize arr = 2"
proof -
  let ?els = "[None, Some (BoEnum \<lparr>enumOrd = 1, enumValName = ''BLUE'', enumTypeId = 7,
      enumTypeName = ''Color'', enumData = encEnum 7 1\<rparr>)]"
  obtain arr where "NewEnumArray (Some colorMeta) ?els = Inr arr"
    using enum_array_typed [of "Some colorMeta" ?els] by (auto simp: colorMeta_def newEnumMetadata_def)
  then show ?thesis using enum_array_typed [of "Some colorMeta" ?els arr] by simp
qed

theorem binary_enum_wire_witness:
  "\<exists>e bw. newBinaryEnum colorEnv (WithEnumOrdinal 1 (defaultBoOptions ''Color'')) colorReg = (Inr e, colorReg) \<and>
    marshal colorEnv (boGoval (BoEnum e)) (NewBinaryOutputStream 0) colorReg = (Inr bw, colorReg) \<and>
    unmarshal colorEnv 1 (NewBinaryInputStream (Data bw @ [5]) 0) colorReg
      = (Inr (boGoval (BoEnum (e\<lparr>enumTypeName := []\<rparr>)), \<lparr>ibuf = Data bw @ [5], ioff = 0, ipos = length (Data bw)\<rparr>), colorReg) \<and>
    NewEnumArray (Some colorMeta) [Some (BoEnum (e\<lparr>enumTypeName := []\<rparr>))]
      = Inl (ErrMsg ''inserting elements with different typeId or typeName'')"
  using binary_enum_wire [where opts = "WithEnumOrdinal 1 (defaultBoOptions ''Color'')" and env = colorEnv and s = colorReg
      and typeId = 7 and m = colorMeta and label = "''BLUE''" and n = 0 and k = 0 and rest = "[5]"]
  by (auto simp: WithEnumOrdinal_def defaultBoOptions_def colorEnv_def sampleEnv_def unregisteredId_def colorReg_def
      colorMeta_def newEnumMetadata_def cacheGetMetadata_def cacheRegisterClassName_def cacheGetClassName_def newBinaryMetadataCache_def copyMeta_def)

end
