(* ===== verification/Cursor.thy ===== *)
theory Cursor
  imports Cache Objects
begin

text \<open>
  Queries: the cursor of cursor_base.go with its pages, the SQL cursor and the options of
  sql_query.go with SqlQuery of client.go, and the scan cursor of scan_query.go with Scan and its
  options of cache.go.
\<close>

declare seqW.simps [simp del] unmarshal.simps [simp del]

section \<open>The cursor\<close>

record ('d, 'w) cursor =
  curCh :: "'w link"
  curMarsh :: "('d, 'w) env"
  curId :: i64
  currIdx :: int
  rowSize :: nat
  opPageNext :: i16
  curData :: "'d goval list"
  hasMore :: bool
  lastErr :: "gerror option"
  curColumns :: "string list"

definition opResourceClose :: i16 where "opResourceClose = 0"

text \<open>An error as a value, for code that keeps it in a variable and goes on.\<close>

definition tryP :: "('s, 'a) prog \<Rightarrow> ('s, gerror + 'a) prog" where
  "tryP m = (\<lambda>s. case m s of
     (Inl (Fail e), s') \<Rightarrow> (Inr (Inl e), s') | (Inl f, s') \<Rightarrow> (Inl f, s') | (Inr x, s') \<Rightarrow> (Inr (Inr x), s'))"

text \<open>The values of a page, up to the first that cannot be read.\<close>

primrec pullValues :: "nat \<Rightarrow> ('d, 'w) env \<Rightarrow> 'd goval list \<Rightarrow> in_stream \<Rightarrow>
    ('w registry, 'd goval list \<times> (gerror + in_stream)) prog" where
  "pullValues 0 env acc br = returnP (acc, Inr br)"
| "pullValues (Suc n) env acc br =
     bindP (tryP (readValue env br)) (\<lambda>r. case r of
       Inl e \<Rightarrow> returnP (acc, Inl e)
     | Inr (v, br) \<Rightarrow> pullValues n env (acc @ [v]) br)"

text \<open>A page with fewer than no rows panics in make.\<close>

definition readData :: "('d, 'w) cursor \<Rightarrow> in_stream \<Rightarrow> ('w registry, ('d, 'w) cursor \<times> gerror option) prog" where
  "readData c br =
     bindP (liftP (ReadInt32 br)) (\<lambda>(rows, br).
     let sz = sint rows * int (rowSize c) in
     if sz < 0 then liftP (Inl Panic)
     else bindP (pullValues (nat sz) (curMarsh c) [] br) (\<lambda>(vs, r).
       let c = c\<lparr>curData := vs\<rparr> in case r of
         Inl e \<Rightarrow> returnP (c, Some e)
       | Inr br \<Rightarrow> bindP (liftP (ReadBool br)) (\<lambda>(b, _). returnP (c\<lparr>hasMore := b\<rparr>, None))))"

text \<open>The handler of the response reads the page also when it is given an error; the stream is nil
  then.\<close>

definition nextPage :: "('d, 'w) cursor \<Rightarrow> ('w registry, ('d, 'w) cursor) prog" where
  "nextPage c =
     bindP (tryP (sendOp (curCh c) (opPageNext c) (liftW (WriteInt64 (curId c)))
              (\<lambda>br. bindP (readData c br) (\<lambda>r. returnP (r, br))))) (\<lambda>r. case r of
       Inl e \<Rightarrow> liftP (Inl Panic)
     | Inr (c, err) \<Rightarrow> returnP (c\<lparr>lastErr := err, currIdx := 0\<rparr>))"

definition Next :: "('d, 'w) cursor \<Rightarrow> ('w registry, bool \<times> ('d, 'w) cursor) prog" where
  "Next c =
     (if lastErr c \<noteq> None then returnP (False, c)
      else
        let c = c\<lparr>currIdx := (if currIdx c < 0 then 0 else currIdx c + int (rowSize c))\<rparr> in
        if currIdx c < int (length (curData c)) then returnP (True, c)
        else if \<not> hasMore c then returnP (False, c)
        else bindP (nextPage c) (\<lambda>c.
          returnP (lastErr c = None \<and> currIdx c < int (length (curData c)), c)))"

definition Err :: "('d, 'w) cursor \<Rightarrow> gerror option" where
  "Err c = lastErr c"

definition CursorClose :: "('d, 'w) cursor \<Rightarrow> ('w registry, gerror option \<times> ('d, 'w) cursor) prog" where
  "CursorClose c =
     (if \<not> hasMore c then returnP (None, c)
      else bindP (tryP (sendOp (curCh c) opResourceClose (liftW (WriteInt64 (curId c))) noResponse)) (\<lambda>r. case r of
        Inl e \<Rightarrow> returnP (Some e, c\<lparr>lastErr := Some e, hasMore := False\<rparr>)
      | Inr _ \<Rightarrow> returnP (None, c\<lparr>hasMore := False\<rparr>)))"

subsection \<open>Assigning the values of a row\<close>

text \<open>What a destination points to: a decimal, a pointer, or another type. A variable holds the zero
  value of its type, the value of the row, or a pointer to a new variable; reflect decides which values
  a type takes. What a destination holds after its own assignment failed is not kept.\<close>

datatype gotype = TDecimal | TPointer gotype | TOther nat

datatype 'd goslot = ZeroOf gotype | Holds "'d goval" | PointsTo "'d goslot"

datatype dest = NotAPointer | NilPointer | PointerTo gotype

fun assignTo :: "('d goval \<Rightarrow> gotype \<Rightarrow> bool) \<Rightarrow> 'd goval \<Rightarrow> gotype \<Rightarrow> gerror + 'd goslot" where
  "assignTo assignable src TDecimal =
     (case src of
        VLeaf (LDecimal d) \<Rightarrow> Inr (Holds src)
      | VNil \<Rightarrow> Inr (ZeroOf TDecimal)
      | _ \<Rightarrow> if assignable src TDecimal then Inr (Holds src) else Inl (ErrMsg ''cannot assign''))"
| "assignTo assignable src (TPointer t) =
     (if src = VNil then Inr (ZeroOf (TPointer t))
      else if assignable src (TPointer t) then Inr (Holds src)
      else case assignTo assignable src t of Inl e \<Rightarrow> Inl e | Inr x \<Rightarrow> Inr (PointsTo x))"
| "assignTo assignable src (TOther n) =
     (if src = VNil then Inr (ZeroOf (TOther n))
      else if assignable src (TOther n) then Inr (Holds src)
      else Inl (ErrMsg ''cannot assign''))"

fun convertAssign :: "('d goval \<Rightarrow> gotype \<Rightarrow> bool) \<Rightarrow> dest \<Rightarrow> 'd goval \<Rightarrow> gerror + 'd goslot" where
  "convertAssign assignable NotAPointer src = Inl (ErrMsg ''destination is not a pointer'')"
| "convertAssign assignable NilPointer src = Inl (ErrMsg ''destination is nil'')"
| "convertAssign assignable (PointerTo t) src = assignTo assignable src t"

text \<open>The variables written before an error keep their values; a position outside of the page panics.\<close>

fun scanFrom :: "('d goval \<Rightarrow> gotype \<Rightarrow> bool) \<Rightarrow> 'd goval list \<Rightarrow> int \<Rightarrow> dest list \<Rightarrow> ('d goslot list \<times> gerror option) res" where
  "scanFrom assignable data i [] = Inr ([], None)"
| "scanFrom assignable data i (d # ds) =
     (if i < 0 \<or> i \<ge> int (length data) then Inl Panic
      else case convertAssign assignable d (data ! nat i) of
        Inl e \<Rightarrow> Inr ([], Some e)
      | Inr x \<Rightarrow> bindE (scanFrom assignable data (i + 1) ds) (\<lambda>(xs, e). Inr (x # xs, e)))"

definition Scan :: "('d goval \<Rightarrow> gotype \<Rightarrow> bool) \<Rightarrow> ('d, 'w) cursor \<Rightarrow> dest list \<Rightarrow> ('d goslot list \<times> gerror option) res" where
  "Scan assignable c src =
     (if length src < rowSize c then Inr ([], Some (ErrMsg ''number of parameters less than row size''))
      else scanFrom assignable (curData c) (currIdx c) src)"

section \<open>SQL queries\<close>

definition opSqlQuery :: i16 where "opSqlQuery = 2004"
definition opSqlQueryNextPage :: i16 where "opSqlQueryNextPage = 2005"

record 'd sqlQueryOpts =
  sqlArgs :: "'d goval list"
  sqlTimeout :: i64
  sqlIsLocal :: bool
  sqlIsColocated :: bool
  sqlIsJoinOrderEnforced :: bool
  sqlIsDistributedJoins :: bool
  sqlPageSize :: i64
  sqlPartitions :: "i64 list"
  sqlSchema :: string
  sqlUpdateBatchSize :: i64

type_synonym 'd SqlQueryOption = "'d sqlQueryOpts \<Rightarrow> gerror + 'd sqlQueryOpts"

definition WithSqlQueryArguments :: "'d goval list \<Rightarrow> 'd SqlQueryOption" where
  "WithSqlQueryArguments args q = Inr (q\<lparr>sqlArgs := args\<rparr>)"

definition WithSqlQueryTimeout :: "i64 \<Rightarrow> 'd SqlQueryOption" where
  "WithSqlQueryTimeout timeout q = Inr (q\<lparr>sqlTimeout := timeout\<rparr>)"

definition WithSqlQueryLocal :: "'d SqlQueryOption" where
  "WithSqlQueryLocal q = Inr (q\<lparr>sqlIsLocal := True\<rparr>)"

definition WithSqlQueryColocated :: "'d SqlQueryOption" where
  "WithSqlQueryColocated q = Inr (q\<lparr>sqlIsColocated := True\<rparr>)"

definition WithSqlQueryJoinOrderEnforced :: "'d SqlQueryOption" where
  "WithSqlQueryJoinOrderEnforced q = Inr (q\<lparr>sqlIsJoinOrderEnforced := True\<rparr>)"

definition WithSqlQueryDistributedJoins :: "'d SqlQueryOption" where
  "WithSqlQueryDistributedJoins q = Inr (q\<lparr>sqlIsDistributedJoins := True\<rparr>)"

definition WithSqlQueryPageSize :: "i64 \<Rightarrow> 'd SqlQueryOption" where
  "WithSqlQueryPageSize pageSize q =
     (if sint pageSize \<le> 0 then Inl (ErrMsg ''page size must be greater than zero'') else Inr (q\<lparr>sqlPageSize := pageSize\<rparr>))"

definition WithSqlQueryPartitions :: "i64 list \<Rightarrow> 'd SqlQueryOption" where
  "WithSqlQueryPartitions partitions q = Inr (q\<lparr>sqlPartitions := partitions\<rparr>)"

definition WithSqlQuerySchema :: "string \<Rightarrow> 'd SqlQueryOption" where
  "WithSqlQuerySchema schema q =
     (let schema = TrimSpace schema in
      if length schema = 0 then Inl (ErrMsg ''schema cannot be empty'') else Inr (q\<lparr>sqlSchema := schema\<rparr>))"

definition WithSqlQueryUpdateBatchSize :: "i64 \<Rightarrow> 'd SqlQueryOption" where
  "WithSqlQueryUpdateBatchSize n q =
     (if sint n < 1 then Inl (ErrMsg ''update batch size must be greater than one'') else Inr (q\<lparr>sqlUpdateBatchSize := n\<rparr>))"

primrec applyOptions :: "('o \<Rightarrow> gerror + 'o) list \<Rightarrow> 'o \<Rightarrow> gerror + 'o" where
  "applyOptions [] q = Inr q"
| "applyOptions (opt # opts) q = (case opt q of Inl e \<Rightarrow> Inl e | Inr q' \<Rightarrow> applyOptions opts q')"

definition newSqlQueryCursor :: "'w link \<Rightarrow> ('d, 'w) env \<Rightarrow> i64 \<Rightarrow> ('d, 'w) cursor" where
  "newSqlQueryCursor ch marsh i =
     \<lparr>curCh = ch, curMarsh = marsh, curId = i, currIdx = - 1, rowSize = 0, opPageNext = opSqlQueryNextPage,
      curData = [], hasMore = False, lastErr = None, curColumns = []\<rparr>"

definition readDataColumns :: "('d, 'w) cursor \<Rightarrow> ('d, 'w) cursor reader" where
  "readDataColumns c = bindR (readSlice (\<lambda>_. unmarshalString)) (\<lambda>columns.
     returnR (c\<lparr>curColumns := columns, rowSize := length columns\<rparr>))"

definition writeQueryPartitions :: "i64 list \<Rightarrow> writer" where
  "writeQueryPartitions partitions =
     (if length partitions > 0
      then writeSequence (length partitions) (\<lambda>idx. WriteInt32 (ucast (partitions ! idx)))
      else WriteInt32 (- 1))"

definition writeQueryArguments :: "('d, 'w) env \<Rightarrow> 'd goval list \<Rightarrow> 'w registry mwriter" where
  "writeQueryArguments env args = writeListM (marshal env) args"

definition defaultSqlOpts :: "'d sqlQueryOpts" where
  "defaultSqlOpts = \<lparr>sqlArgs = [], sqlTimeout = - 1, sqlIsLocal = False, sqlIsColocated = False,
     sqlIsJoinOrderEnforced = False, sqlIsDistributedJoins = False, sqlPageSize = 1024, sqlPartitions = [],
     sqlSchema = [], sqlUpdateBatchSize = 1\<rparr>"

text \<open>Milliseconds of a duration in nanoseconds: division towards zero.\<close>

definition Milliseconds :: "i64 \<Rightarrow> i64" where
  "Milliseconds d = word_of_int (sint d sdiv 1000000)"

definition sqlRequest :: "'w ctx \<Rightarrow> ('d, 'w) client \<Rightarrow> string \<Rightarrow> 'd sqlQueryOpts \<Rightarrow> 'w registry mwriter" where
  "sqlRequest ctx cli sql q =
     thenMW (liftW (writeCacheInfo ctx (linkProto (cliCh cli)) 0 None True))
     (thenMW (liftW (seqW [marshalEmptyStringAsNull (sqlSchema q), WriteInt32 (ucast (sqlPageSize q)), WriteInt32 (- 1)]))
     (thenMW (marshal (cliEnv cli) (VLeaf (LString sql)))
     (thenMW (writeQueryArguments (cliEnv cli) (sqlArgs q))
       (liftW (seqW
         [WriteInt8 0,
          WriteBool (sqlIsDistributedJoins q),
          WriteBool (sqlIsLocal q),
          WriteBool False,
          WriteBool (sqlIsJoinOrderEnforced q),
          WriteBool (sqlIsColocated q),
          WriteBool True,
          WriteInt64 (Milliseconds (sqlTimeout q)),
          WriteBool True,
          (if SupportsAttributeFeature (linkProto (cliCh cli)) QueryPartitionsBatchSizeFeature
           then seqW [writeQueryPartitions (sqlPartitions q), WriteInt32 (ucast (sqlUpdateBatchSize q))]
           else skipW)])))))"

text \<open>A page that cannot be read is an error of the query.\<close>

definition firstPage :: "('d, 'w) cursor \<Rightarrow> ('w registry, ('d, 'w) cursor) mreader" where
  "firstPage c br = bindP (readData c br) (\<lambda>(c, err). case err of Some e \<Rightarrow> failP e | None \<Rightarrow> returnP (c, br))"

definition SqlQuery :: "'w ctx \<Rightarrow> ('d, 'w) client \<Rightarrow> string \<Rightarrow> 'd SqlQueryOption list \<Rightarrow>
    ('w registry, ('d, 'w) cursor) prog" where
  "SqlQuery ctx cli sql opts = (case applyOptions opts defaultSqlOpts of
     Inl e \<Rightarrow> failP e
   | Inr q \<Rightarrow> sendOp (cliCh cli) opSqlQuery (sqlRequest ctx cli sql q)
       (bindMR (liftR ReadInt64) (\<lambda>i.
        bindMR (liftR (readDataColumns (newSqlQueryCursor (cliCh cli) (cliEnv cli) i))) firstPage)))"

section \<open>Scan queries\<close>

definition opQueryScan :: i16 where "opQueryScan = 2000"
definition opQueryScanNextPage :: i16 where "opQueryScanNextPage = 2001"

datatype ServerClosurePlatform = JavaServerClosure | DotNetServerClosure

definition closureCode :: "ServerClosurePlatform \<Rightarrow> byte" where
  "closureCode p = (case p of JavaServerClosure \<Rightarrow> 1 | DotNetServerClosure \<Rightarrow> 2)"

record 'd closureOpts =
  cloCls :: string
  cloOpts :: "'d boOption list"
  cloPlatform :: ServerClosurePlatform

record 'd scanQueryOpts =
  scanPartition :: i64
  scanPageSz :: i64
  scanKeepBinary :: bool
  scanIsLocal :: bool
  scanFilter :: "'d closureOpts option"

definition makeClosureObject :: "('d, 'w) env \<Rightarrow> 'd closureOpts \<Rightarrow> ('w registry, boValue) prog" where
  "makeClosureObject env o' =
     (let platform = (case cloPlatform o' of JavaServerClosure \<Rightarrow> JavaMarshaller | DotNetServerClosure \<Rightarrow> DotNetMarshaller)
      in CreateBinaryObject env (cloCls o') (cloOpts o' @ [WithMarshallerPlatform platform]))"

definition WithClosureField :: "string \<Rightarrow> 'd goval \<Rightarrow> 'd closureOpts \<Rightarrow> 'd closureOpts" where
  "WithClosureField name v o' = o'\<lparr>cloOpts := cloOpts o' @ [WithField name v]\<rparr>"

definition WithServerClosurePlatform :: "ServerClosurePlatform \<Rightarrow> 'd closureOpts \<Rightarrow> 'd closureOpts" where
  "WithServerClosurePlatform platform o' = o'\<lparr>cloPlatform := platform\<rparr>"

definition WithScanQueryKeepBinary :: "'d scanQueryOpts \<Rightarrow> 'd scanQueryOpts" where
  "WithScanQueryKeepBinary q = q\<lparr>scanKeepBinary := True\<rparr>"

definition WithScanQueryFilter :: "string \<Rightarrow> ('d closureOpts \<Rightarrow> 'd closureOpts) list \<Rightarrow> 'd scanQueryOpts \<Rightarrow> 'd scanQueryOpts" where
  "WithScanQueryFilter clsName filterOpts q =
     q\<lparr>scanFilter := Some (fold (\<lambda>opt. opt) filterOpts
        \<lparr>cloCls = clsName, cloOpts = [], cloPlatform = JavaServerClosure\<rparr>)\<rparr>"

definition WithScanQueryPageSize :: "i64 \<Rightarrow> 'd scanQueryOpts \<Rightarrow> 'd scanQueryOpts" where
  "WithScanQueryPageSize sz q = (if sint sz > 0 then q\<lparr>scanPageSz := sz\<rparr> else q)"

definition WithScanQueryLocal :: "'d scanQueryOpts \<Rightarrow> 'd scanQueryOpts" where
  "WithScanQueryLocal q = q\<lparr>scanIsLocal := True\<rparr>"

definition WithScanQueryPartition :: "i64 \<Rightarrow> 'd scanQueryOpts \<Rightarrow> 'd scanQueryOpts" where
  "WithScanQueryPartition part q = (if sint part > 0 then q\<lparr>scanPartition := part\<rparr> else q)"

definition defaultScanOpts :: "'d scanQueryOpts" where
  "defaultScanOpts = \<lparr>scanPartition = - 1, scanPageSz = 1024, scanKeepBinary = False, scanIsLocal = False, scanFilter = None\<rparr>"

definition newScanCursor :: "'w link \<Rightarrow> ('d, 'w) env \<Rightarrow> i64 \<Rightarrow> ('d, 'w) cursor" where
  "newScanCursor ch marsh i =
     \<lparr>curCh = ch, curMarsh = marsh, curId = i, currIdx = - 1, rowSize = 2, opPageNext = opQueryScanNextPage,
      curData = [], hasMore = False, lastErr = None, curColumns = [''KEY'', ''VALUE'']\<rparr>"

definition scanRequest :: "'w ctx \<Rightarrow> ('d, 'w) Cache \<Rightarrow> 'd scanQueryOpts \<Rightarrow> (boValue \<times> ServerClosurePlatform) option \<Rightarrow>
    'w registry mwriter" where
  "scanRequest ctx c q filterObj =
     thenMW (cacheInfo ctx c (scanKeepBinary q))
     (thenMW (case filterObj of
          Some (obj, platform) \<Rightarrow> thenMW (marshal (cacheEnv c) (boGoval obj)) (liftW (WriteInt8 (closureCode platform)))
        | None \<Rightarrow> liftW (WriteType NullType))
       (liftW (seqW [WriteInt32 (ucast (scanPageSz q)), WriteInt32 (ucast (scanPartition q)), WriteBool (scanIsLocal q)])))"

definition CacheScan :: "'w ctx \<Rightarrow> ('d, 'w) Cache \<Rightarrow> ('d scanQueryOpts \<Rightarrow> 'd scanQueryOpts) list \<Rightarrow>
    ('w registry, ('d, 'w) cursor) prog" where
  "CacheScan ctx c opts =
     (let q = fold (\<lambda>opt. opt) opts defaultScanOpts in
      bindP (case scanFilter q of
          None \<Rightarrow> returnP None
        | Some f \<Rightarrow> bindP (makeClosureObject (cacheEnv c) f) (\<lambda>obj. returnP (Some (obj, cloPlatform f)))) (\<lambda>filterObj.
      sendOp (cacheChannel ctx c) opQueryScan (scanRequest ctx c q filterObj)
        (bindMR (liftR ReadInt64) (\<lambda>i. firstPage (newScanCursor (cacheChannel ctx c) (cacheEnv c) i)))))"

end
