(* ===== verification/CursorProps.thy ===== *)
theory CursorProps
  imports Cursor CacheProps
begin

text \<open>
  What cursors promise: iterating with Next over the pages of a query gives every row once and in
  order; and what they do not: Next panics when a page cannot be fetched.
\<close>

declare seqW.simps [simp del] unmarshal.simps [simp del]

section \<open>Pages\<close>

definition pageBytes :: "'d apd \<Rightarrow> 'd goval list list \<Rightarrow> bool \<Rightarrow> byte list" where
  "pageBytes A rows more' = lenBytes (length rows) @ concat (map (encode A) (concat rows)) @ [boolByte more']"

text \<open>A server that has these pages left for the cursor, each asked for by its id.\<close>

primrec serves :: "'w server \<Rightarrow> i16 \<Rightarrow> i64 \<Rightarrow> 'd apd \<Rightarrow> 'd goval list list list \<Rightarrow> 'w \<Rightarrow> bool" where
  "serves srv op i A [] w = True"
| "serves srv op i A (p # ps) w = (\<exists>w'. srv op (encI64 i) w = (Inr (pageBytes A p (ps \<noteq> [])), w') \<and> serves srv op i A ps w')"

text \<open>The loop of a client: the row after each successful Next.\<close>

primrec drainRows :: "nat \<Rightarrow> ('d, 'w) cursor \<Rightarrow> ('w registry, 'd goval list list \<times> ('d, 'w) cursor) prog" where
  "drainRows 0 c = liftP (Inl NoFuel)"
| "drainRows (Suc n) c = bindP (Next c) (\<lambda>(b, c).
     if b then bindP (drainRows n c) (\<lambda>(rows, c').
       returnP (take (rowSize c) (drop (nat (currIdx c)) (curData c)) # rows, c'))
     else returnP ([], c))"

definition rows_ok :: "'d apd \<Rightarrow> ('d \<Rightarrow> bool) \<Rightarrow> nat \<Rightarrow> 'd goval list list \<Rightarrow> bool" where
  "rows_ok A fin k rows \<longleftrightarrow> small (length rows) \<and> (\<forall>r \<in> set rows. length r = k \<and> (\<forall>v \<in> set r. plain A fin v))"

lemma pullValues_plain:
  assumes "apd_ok (envApd env) fin"
  shows "\<forall>v \<in> set vs. plain (envApd env) fin v \<Longrightarrow>
    pullValues (length vs) env acc \<lparr>ibuf = pre @ concat (map (encode (envApd env)) vs) @ post, ioff = off, ipos = length pre\<rparr> s
    = (Inr (acc @ map canon vs, Inr \<lparr>ibuf = pre @ concat (map (encode (envApd env)) vs) @ post, ioff = off,
        ipos = length pre + length (concat (map (encode (envApd env)) vs))\<rparr>), s)"
proof (induction vs arbitrary: acc pre)
  case (Cons v vs)
  let ?e = "encode (envApd env)"
  have 1: "readValue env \<lparr>ibuf = pre @ ?e v @ concat (map ?e vs) @ post, ioff = off, ipos = length pre\<rparr> s
      = (Inr (canon v, \<lparr>ibuf = pre @ ?e v @ concat (map ?e vs) @ post, ioff = off, ipos = length pre + length (?e v)\<rparr>), s)"
    using mreadsD [OF mreads_readValue [OF assms]] Cons.prems by simp
  show ?case
    using Cons.IH [of "acc @ [canon v]" "pre @ ?e v"] Cons.prems 1 by (simp add: bindP_def tryP_def add.assoc)
qed simp

lemma length_concat_rows: "\<forall>r \<in> set p. length r = k \<Longrightarrow> length (concat p) = k * length p"
  by (induction p) simp_all

lemma row_of_page: "\<forall>r \<in> set p. length r = k \<Longrightarrow> j < length p \<Longrightarrow> take k (drop (k * j) (concat p)) = p ! j"
proof (induction p arbitrary: j)
  case (Cons r p)
  then show ?case by (cases j) simp_all
qed simp

lemma readData_page:
  assumes "apd_ok (envApd (curMarsh c)) fin" and "rows_ok (envApd (curMarsh c)) fin (rowSize c) p"
  shows "readData c \<lparr>ibuf = pre @ pageBytes (envApd (curMarsh c)) p b @ post, ioff = off, ipos = length pre\<rparr> s
    = (Inr (c\<lparr>curData := map canon (concat p), hasMore := b\<rparr>, None), s)"
proof -
  let ?A = "envApd (curMarsh c)" and ?vs = "concat p"
  let ?e = "concat (map (encode ?A) ?vs)" and ?n = "lenBytes (length p)"
  have sm: "small (length p)" and pl: "\<forall>v \<in> set ?vs. plain ?A fin v" and k: "\<forall>r \<in> set p. length r = rowSize c"
    using assms(2) by (auto simp: rows_ok_def)
  have n: "ReadInt32 \<lparr>ibuf = pre @ ?n @ (?e @ [boolByte b]) @ post, ioff = off, ipos = length pre\<rparr>
      = Inr (word_of_nat (length p), \<lparr>ibuf = pre @ ?n @ (?e @ [boolByte b]) @ post, ioff = off, ipos = length pre + length ?n\<rparr>)"
    using readsD [OF reads_words(3) [of "word_of_nat (length p)"]] by (simp add: lenBytes_def encI32_def)
  have len: "nat (sint (word_of_nat (length p) :: i32) * int (rowSize c)) = length ?vs"
    "\<not> sint (word_of_nat (length p) :: i32) * int (rowSize c) < 0"
    using sm length_concat_rows [OF k] by (simp_all add: sint_small mult.commute nat_mult_distrib not_less)
  have v: "pullValues (length ?vs) (curMarsh c) [] \<lparr>ibuf = pre @ ?n @ (?e @ [boolByte b]) @ post, ioff = off, ipos = length pre + length ?n\<rparr> s
      = (Inr (map canon ?vs, Inr \<lparr>ibuf = pre @ ?n @ (?e @ [boolByte b]) @ post, ioff = off, ipos = length pre + length ?n + length ?e\<rparr>), s)"
    using pullValues_plain [OF assms(1) pl, of "[]" "pre @ ?n" "[boolByte b] @ post" off s] by simp
  have m: "ReadBool \<lparr>ibuf = pre @ ?n @ (?e @ [boolByte b]) @ post, ioff = off, ipos = length pre + length ?n + length ?e\<rparr>
      = Inr (b, \<lparr>ibuf = pre @ ?n @ (?e @ [boolByte b]) @ post, ioff = off, ipos = length pre + length ?n + length ?e + 1\<rparr>)"
    using readsD [OF reads_prims(3) [of b], of "pre @ ?n @ ?e" post off] by (simp add: add.assoc)
  show ?thesis
    unfolding readData_def pageBytes_def using n len v m by (simp add: bindP_def Let_def)
qed

lemma mwrites_id: "mwrites (liftW (WriteInt64 i)) (encI64 i)"
  by (rule mwrites_lift [OF writes_i64(1)])

lemma nextPage_page:
  assumes "apd_ok (envApd (curMarsh c)) fin" and "rows_ok (envApd (curMarsh c)) fin (rowSize c) p"
    and "linkServer (curCh c) (opPageNext c) (encI64 (curId c)) (world s) = (Inr (pageBytes (envApd (curMarsh c)) p b), w)"
  shows "nextPage c s = (Inr (c\<lparr>curData := map canon (concat p), hasMore := b, lastErr := None, currIdx := 0\<rparr>), s\<lparr>world := w\<rparr>)"
proof -
  let ?A = "envApd (curMarsh c)"
  obtain bw where bw: "liftW (WriteInt64 (curId c)) (NewBinaryOutputStream 0) s = (Inr bw, s)" "Data bw = encI64 (curId c)"
    using mwrites_fresh [OF mwrites_id [of "curId c"], of 0 s] by (auto simp: maxInt32_def)
  have "readData c (NewBinaryInputStream (pageBytes ?A p b) 0) s' = (Inr (c\<lparr>curData := map canon (concat p), hasMore := b\<rparr>, None), s')" for s'
    using readData_page [OF assms(1,2), of "[]" b "[]" 0 s'] by (simp add: NewBinaryInputStream_def)
  then show ?thesis
    using bw callLink_Inr [of "linkServer (curCh c)" "opPageNext c" "encI64 (curId c)" "world s", OF assms(3)]
    by (simp add: nextPage_def sendOp_def bindP_def tryP_def onServer_def)
qed

text \<open>The cursor shows the page \<open>p\<close> and comes to its row \<open>j\<close> next.\<close>

definition showing :: "('d, 'w) cursor \<Rightarrow> 'd goval list list \<Rightarrow> nat \<Rightarrow> bool" where
  "showing c p j \<longleftrightarrow> curData c = map canon (concat p) \<and> j \<le> length p \<and> lastErr c = None \<and>
     (if currIdx c < 0 then 0 else currIdx c + int (rowSize c)) = int (rowSize c * j)"

lemma Next_in_page:
  assumes "showing c p j" and "j < length p" and "\<forall>r \<in> set p. length r = rowSize c" and "rowSize c > 0"
  shows "\<exists>c'. Next c s = (Inr (True, c'), s) \<and> c' = c\<lparr>currIdx := int (rowSize c * j)\<rparr> \<and> showing c' p (Suc j) \<and>
    take (rowSize c') (drop (nat (currIdx c')) (curData c')) = map canon (p ! j)"
proof -
  let ?c = "c\<lparr>currIdx := int (rowSize c * j)\<rparr>"
  have "rowSize c * j < rowSize c * length p" using assms(2,4) by simp
  moreover have len: "length (curData c) = rowSize c * length p"
    using assms(1) length_concat_rows [OF assms(3)] by (simp add: showing_def)
  moreover have idx: "(if currIdx c < 0 then 0 else currIdx c + int (rowSize c)) = int (rowSize c * j)" "lastErr c = None"
    using assms(1) by (simp_all add: showing_def)
  ultimately have "Next c s = (Inr (True, ?c), s)"
    unfolding Next_def Let_def idx(1) using idx(2) by (simp del: of_nat_mult)
  moreover have "int (rowSize c * j) + int (rowSize c) = int (rowSize c * Suc j)" by simp
  then have "showing ?c p (Suc j)" using assms(1,2) by (simp add: showing_def del: of_nat_mult)
  moreover have "take (rowSize c) (drop (rowSize c * j) (curData c)) = map canon (p ! j)"
    using assms(1) row_of_page [OF assms(3,2)] by (simp add: showing_def drop_map take_map)
  ultimately show ?thesis by (simp del: of_nat_mult)
qed

lemma Next_past_page:
  assumes "showing c p (length p)" and "\<forall>r \<in> set p. length r = rowSize c" and "rowSize c > 0"
  shows "Next c s = (if hasMore c
    then bindP (nextPage (c\<lparr>currIdx := int (rowSize c * length p)\<rparr>)) (\<lambda>c.
          returnP (lastErr c = None \<and> currIdx c < int (length (curData c)), c)) s
    else (Inr (False, c\<lparr>currIdx := int (rowSize c * length p)\<rparr>), s))"
proof -
  have "length (curData c) = rowSize c * length p"
    using assms(1) length_concat_rows [OF assms(2)] by (simp add: showing_def)
  moreover have idx: "(if currIdx c < 0 then 0 else currIdx c + int (rowSize c)) = int (rowSize c * length p)" "lastErr c = None"
    using assms(1) by (simp_all add: showing_def)
  ultimately show ?thesis unfolding Next_def Let_def idx(1) using idx(2) by (simp del: of_nat_mult)
qed

lemma drain_rows:
  assumes "apd_ok A fin" and "rowSize c > 0" and "envApd (curMarsh c) = A"
    and "showing c p j" and "hasMore c = (pages \<noteq> [])"
    and "\<forall>q \<in> set (p # pages). rows_ok A fin (rowSize c) q" and "\<forall>q \<in> set pages. q \<noteq> []"
    and "serves (linkServer (curCh c)) (opPageNext c) (curId c) A pages (world s)"
    and "length (drop j p @ concat pages) < n"
  shows "\<exists>c' w. drainRows n c s = (Inr (map (map canon) (drop j p @ concat pages), c'), s\<lparr>world := w\<rparr>) \<and>
    Err c' = None \<and> \<not> hasMore c'"
  using assms(2-)
proof (induction n arbitrary: c p j pages s)
  case (Suc n)
  have rl: "\<forall>r \<in> set q. length r = rowSize c" if "q \<in> set (p # pages)" for q
    using Suc.prems(5) that by (auto simp: rows_ok_def)
  show ?case
  proof (cases "j < length p")
    case True
    obtain c' where N: "Next c s = (Inr (True, c'), s)" "c' = c\<lparr>currIdx := int (rowSize c * j)\<rparr>" "showing c' p (Suc j)"
        "take (rowSize c') (drop (nat (currIdx c')) (curData c')) = map canon (p ! j)"
      using Next_in_page [OF Suc.prems(3) True] rl Suc.prems(1) by auto
    have "length (drop (Suc j) p @ concat pages) < n" using Suc.prems(8) True by simp
    moreover have "rowSize c' > 0" "envApd (curMarsh c') = A" "hasMore c' = (pages \<noteq> [])"
      "\<forall>q \<in> set (p # pages). rows_ok A fin (rowSize c') q"
      "serves (linkServer (curCh c')) (opPageNext c') (curId c') A pages (world s)"
      using Suc.prems N(2) by simp_all
    ultimately obtain c'' w where "drainRows n c' s = (Inr (map (map canon) (drop (Suc j) p @ concat pages), c''), s\<lparr>world := w\<rparr>)"
        "Err c'' = None" "\<not> hasMore c''"
      using Suc.IH [of c' p "Suc j" pages s] N(3) Suc.prems(6) by blast
    then show ?thesis
      using N(1,4) True
      by (intro exI [of _ c''] exI [of _ w]) (simp add: bindP_def Cons_nth_drop_Suc [symmetric])
  next
    case False
    then have j: "j = length p" using Suc.prems(3) by (simp add: showing_def)
    let ?c = "c\<lparr>currIdx := int (rowSize c * length p)\<rparr>"
    note past = Next_past_page [OF Suc.prems(3) [unfolded j] rl Suc.prems(1)]
    show ?thesis
    proof (cases pages)
      case Nil
      then have "Next c s = (Inr (False, ?c), s)" using past Suc.prems(4) by simp
      moreover have "Err ?c = None" "\<not> hasMore ?c" using Suc.prems(3,4) Nil by (simp_all add: Err_def showing_def)
      moreover have "s = s\<lparr>world := world s\<rparr>" by simp
      ultimately show ?thesis using Nil j
        by (intro exI [of _ ?c] exI [of _ "world s"]) (simp add: bindP_def)
    next
      case (Cons q pages')
      obtain w' where w: "linkServer (curCh c) (opPageNext c) (encI64 (curId c)) (world s) = (Inr (pageBytes A q (pages' \<noteq> [])), w')"
          "serves (linkServer (curCh c)) (opPageNext c) (curId c) A pages' w'"
        using Suc.prems(7) Cons by auto
      let ?d = "?c\<lparr>curData := map canon (concat q), hasMore := pages' \<noteq> [], lastErr := None, currIdx := 0\<rparr>"
      have "nextPage ?c s = (Inr ?d, s\<lparr>world := w'\<rparr>)"
        using nextPage_page [of ?c fin q s "pages' \<noteq> []" w'] assms(1) Suc.prems(2,5) Cons w(1) by simp
      moreover have "length (concat q) = rowSize c * length q" by (rule length_concat_rows) (use rl [of q] Cons in simp)
      then have "0 < length (concat q)" using Suc.prems(1,6) Cons by simp
      ultimately have N: "Next c s = (Inr (True, ?d), s\<lparr>world := w'\<rparr>)"
        using past Suc.prems(4) Cons by (simp add: bindP_def del: length_concat)
      obtain r q' where q: "q = r # q'" using Suc.prems(6) Cons by (cases q) auto
      have row: "take (rowSize c) (concat q) = r" using rl [of q] q Cons by simp
      have "showing ?d q 1" using q by (simp add: showing_def)
      moreover have "length (drop 1 q @ concat pages') < n" using Suc.prems(8) Cons q j by simp
      ultimately obtain c'' w where D: "drainRows n ?d (s\<lparr>world := w'\<rparr>)
          = (Inr (map (map canon) (drop 1 q @ concat pages'), c''), s\<lparr>world := w'\<rparr>\<lparr>world := w\<rparr>)" "Err c'' = None" "\<not> hasMore c''"
        using Suc.IH [of ?d q 1 pages' "s\<lparr>world := w'\<rparr>"] Suc.prems Cons w(2) by auto
      have "take (rowSize c) (map canon (concat q)) = map canon r" using row by (simp add: take_map)
      then show ?thesis using N D q j Cons by (intro exI [of _ c''] exI [of _ w]) (simp add: bindP_def)
    qed
  qed
qed simp

text \<open>The answer to a query that opens a cursor.\<close>

lemma mreads_firstPage:
  assumes "apd_ok (envApd (curMarsh c)) fin" and "rows_ok (envApd (curMarsh c)) fin (rowSize c) p"
  shows "firstPage c \<lparr>ibuf = pre @ pageBytes (envApd (curMarsh c)) p b @ post, ioff = off, ipos = length pre\<rparr> s
    = (Inr (c\<lparr>curData := map canon (concat p), hasMore := b\<rparr>,
        \<lparr>ibuf = pre @ pageBytes (envApd (curMarsh c)) p b @ post, ioff = off, ipos = length pre\<rparr>), s)"
  using readData_page [OF assms] by (simp add: firstPage_def bindP_def)

lemma writes_scanRequest:
  assumes "cacheExpiry c \<noteq> None \<Longrightarrow> SupportsExpiryPolicy (linkProto (cacheChannel ctx c))"
  shows "mwrites (scanRequest ctx c q None) (infoBytes ctx (cacheId c) (cacheExpiry c) (scanKeepBinary q) @
    [typeCode NullType] @ encI32 (ucast (scanPageSz q)) @ encI32 (ucast (scanPartition q)) @ [boolByte (scanIsLocal q)])"
proof -
  have 1: "writes (seqW [WriteInt32 (ucast (scanPageSz q)), WriteInt32 (ucast (scanPartition q)), WriteBool (scanIsLocal q)])
      (encI32 (ucast (scanPageSz q)) @ encI32 (ucast (scanPartition q)) @ [boolByte (scanIsLocal q)])"
    by (rule writes_cong, (rule writes_parts)+) simp
  show ?thesis
    unfolding scanRequest_def cacheInfo_def option.case
    using assms by (intro mwrites_then mwrites_lift writes_cacheInfo 1 writes_type(1)) blast
qed

section \<open>Properties\<close>

text \<open>C13 A scan returns every row once. When the server answers a scan without a filter with the id of a
  cursor and its first page, and every request for the next page with the following page, the rows
  that the loop of a client sees are the rows of all pages in order, in canonical form; then Next
  returns false without an error and nothing is left to close. The pages after the first are not
  empty: Next takes an empty page for the end.\<close>

theorem scan_reads_all_rows:
  assumes "apd_ok (envApd (cacheEnv c)) fin" and "scanFilter q = None" and "q = fold (\<lambda>opt. opt) opts defaultScanOpts"
    and "cacheExpiry c = None \<or> SupportsExpiryPolicy (linkProto (cacheChannel ctx c))"
    and "linkServer (cacheChannel ctx c) opQueryScan (infoBytes ctx (cacheId c) (cacheExpiry c) (scanKeepBinary q) @
        [typeCode NullType] @ encI32 (ucast (scanPageSz q)) @ encI32 (ucast (scanPartition q)) @ [boolByte (scanIsLocal q)]) (world s)
      = (Inr (encI64 i @ pageBytes (envApd (cacheEnv c)) p (pages \<noteq> [])), w)"
    and "serves (linkServer (cacheChannel ctx c)) opQueryScanNextPage i (envApd (cacheEnv c)) pages w"
    and "\<forall>r \<in> set (p # pages). rows_ok (envApd (cacheEnv c)) fin 2 r" and "\<forall>r \<in> set pages. r \<noteq> []"
    and "length (concat (p # pages)) < n"
  shows "\<exists>cur cur' w'. CacheScan ctx c opts s = (Inr cur, s\<lparr>world := w\<rparr>) \<and>
    drainRows n cur (s\<lparr>world := w\<rparr>) = (Inr (map (map canon) (concat (p # pages)), cur'), s\<lparr>world := w'\<rparr>) \<and>
    Err cur' = None \<and> CursorClose cur' (s\<lparr>world := w'\<rparr>) = (Inr (None, cur'), s\<lparr>world := w'\<rparr>)"
proof -
  let ?A = "envApd (cacheEnv c)" and ?ch = "cacheChannel ctx c"
  let ?req = "infoBytes ctx (cacheId c) (cacheExpiry c) (scanKeepBinary q) @
        [typeCode NullType] @ encI32 (ucast (scanPageSz q)) @ encI32 (ucast (scanPartition q)) @ [boolByte (scanIsLocal q)]"
  let ?new = "newScanCursor ?ch (cacheEnv c) i"
  let ?cur = "?new\<lparr>curData := map canon (concat p), hasMore := pages \<noteq> []\<rparr>"
  have new: "curMarsh ?new = cacheEnv c" "rowSize ?new = 2" by (simp_all add: newScanCursor_def)
  have len: "length ?req \<le> maxInt32"
    using length_info [of ctx "cacheId c" "cacheExpiry c" "scanKeepBinary q"] by (simp add: maxInt32_def)
  have req: "mwrites (scanRequest ctx c q None) ?req" using assms(4) by (intro writes_scanRequest) auto
  obtain bw where bw: "scanRequest ctx c q None (NewBinaryOutputStream 0) s = (Inr bw, s)" "Data bw = ?req"
    using mwrites_fresh [OF req len] by blast
  have id: "ReadInt64 \<lparr>ibuf = encI64 i @ pageBytes ?A p (pages \<noteq> []), ioff = 0, ipos = 0\<rparr>
      = Inr (i, \<lparr>ibuf = encI64 i @ pageBytes ?A p (pages \<noteq> []), ioff = 0, ipos = length (encI64 i)\<rparr>)"
    using readsD [OF reads_words(1) [of i], of "[]" "pageBytes ?A p (pages \<noteq> [])" 0] by simp
  have first: "firstPage ?new \<lparr>ibuf = encI64 i @ pageBytes ?A p (pages \<noteq> []), ioff = 0, ipos = length (encI64 i)\<rparr> s'
      = (Inr (?cur, \<lparr>ibuf = encI64 i @ pageBytes ?A p (pages \<noteq> []), ioff = 0, ipos = length (encI64 i)\<rparr>), s')" for s'
    using mreads_firstPage [of ?new fin p "encI64 i" "pages \<noteq> []" "[]" 0 s'] assms(1,7) new by simp
  have scan: "CacheScan ctx c opts s = (Inr ?cur, s\<lparr>world := w\<rparr>)"
    using bw callLink_Inr [of "linkServer ?ch" opQueryScan ?req "world s", OF assms(5)] id first assms(2)
    unfolding CacheScan_def Let_def assms(3) [symmetric]
    by (simp add: sendOp_def bindP_def onServer_def bindMR_def liftR_def NewBinaryInputStream_def)
  have "\<exists>c' w'. drainRows n ?cur (s\<lparr>world := w\<rparr>) = (Inr (map (map canon) (drop 0 p @ concat pages), c'), s\<lparr>world := w\<rparr>\<lparr>world := w'\<rparr>) \<and>
    Err c' = None \<and> \<not> hasMore c'"
    using assms(6-9)
    by (intro drain_rows [OF assms(1)]) (simp_all add: newScanCursor_def showing_def)
  then show ?thesis using scan by (auto simp: CursorClose_def)
qed

text \<open>Next panics when a page cannot be fetched. When the server or the connection answers the request
  for the next page with an error, Next does not return false with the error in Err: the handler of the
  response goes on to read the page from a stream that is not there.\<close>

theorem next_panics_on_error:
  assumes "lastErr c = None" and "hasMore c" and "currIdx c \<ge> 0"
    and "currIdx c + int (rowSize c) \<ge> int (length (curData c))"
    and "linkServer (curCh c) (opPageNext c) (encI64 (curId c)) (world s) = (Inl e, w)"
  shows "Next c s = (Inl Panic, s\<lparr>world := w\<rparr>)"
proof -
  have "length (encI64 (curId c)) \<le> maxInt32" by (simp add: maxInt32_def)
  note refused = sendOp_error [where ch = "curCh c" and opCode = "opPageNext c", OF mwrites_id this assms(5)]
  have "nextPage (c\<lparr>currIdx := currIdx c + int (rowSize c)\<rparr>) s = (Inl Panic, s\<lparr>world := w\<rparr>)"
    by (simp add: nextPage_def bindP_def tryP_def refused)
  then show ?thesis using assms(1-4) by (simp add: Next_def Let_def bindP_def)
qed

text \<open>A server with two pages of one entry each, and one that loses the cursor.\<close>

definition pageOf :: "i32 \<Rightarrow> (bool \<times> byte list \<times> i32) goval list list" where
  "pageOf n = [[VScalar (SUint32 n), VScalar (SBool True)]]"

definition twoPages :: "unit server" where
  "twoPages op bs w = (Inr (if op = opQueryScan then encI64 5 @ pageBytes plainDec (pageOf 1) True
     else pageBytes plainDec (pageOf 2) False), w)"

definition pagedCache :: "(bool \<times> byte list \<times> i32, unit) Cache" where
  "pagedCache = \<lparr>cacheCli = \<lparr>cliCh = \<lparr>linkServer = twoPages, linkProto = NewProtocolContext (ver 1 7 0) []\<rparr>, cliEnv = sampleEnv\<rparr>,
     cacheExpiry = None, cacheName = ''people'', cacheId = 7\<rparr>"

lemma sampleReg_world [simp]: "sampleReg\<lparr>world := w\<rparr> = sampleReg"
  by (simp add: sampleReg_def)

theorem scan_reads_all_rows_witness:
  "\<exists>cur cur'. CacheScan None pagedCache [WithScanQueryPageSize 1] sampleReg = (Inr cur, sampleReg) \<and>
    drainRows 3 cur sampleReg = (Inr ([[VScalar (SInt32 1), VScalar (SBool True)], [VScalar (SInt32 2), VScalar (SBool True)]], cur'), sampleReg)"
proof -
  have "apd_ok (envApd (cacheEnv pagedCache)) (\<lambda>d. dropWhile (\<lambda>b. b = 0) (fst (snd d)) = fst (snd d))"
    using plainDec_ok by (simp add: pagedCache_def cacheEnv_def sampleEnv_def)
  then show ?thesis
    using scan_reads_all_rows [where c = pagedCache and fin = "\<lambda>d. dropWhile (\<lambda>b. b = 0) (fst (snd d)) = fst (snd d)"
        and q = "WithScanQueryPageSize 1 defaultScanOpts" and opts = "[WithScanQueryPageSize 1]" and ctx = None and s = sampleReg
        and i = 5 and p = "pageOf 1" and pages = "[pageOf 2]" and w = "()" and n = 3]
    by (auto simp: WithScanQueryPageSize_def defaultScanOpts_def pagedCache_def cacheChannel_def twoPages_def cacheEnv_def
        sampleEnv_def pageOf_def rows_ok_def small_def opQueryScan_def opQueryScanNextPage_def)
qed

definition lostCursor :: "(bool \<times> byte list \<times> i32, unit) cursor" where
  "lostCursor = newScanCursor \<lparr>linkServer = \<lambda>_ _ w. (Inl (ErrMsg ''cursor not found''), w),
     linkProto = NewProtocolContext (ver 1 7 0) []\<rparr> sampleEnv 5 \<lparr>hasMore := True, currIdx := 0\<rparr>"

theorem next_panics_on_error_witness: "Next lostCursor sampleReg = (Inl Panic, sampleReg)"
  using next_panics_on_error [of lostCursor sampleReg "ErrMsg ''cursor not found''" "()"]
  by (simp add: lostCursor_def newScanCursor_def sampleReg_def)

end
