(* ===== verification/Transactions.thy ===== *)
theory Transactions
  imports Ops
begin

text \<open>
  transactions.go: the options of a transaction, its start, its end, and RunInTransaction. The
  function of the user is a computation given the context of the transaction; a panic of it is the
  failure Panic. The default channel of the client, which the reliable channel provides, is a
  parameter, and so are the defaults of the client configuration.
\<close>

declare seqW.simps [simp del] unmarshal.simps [simp del]

section \<open>Options\<close>

datatype TransactionConcurrency = OptimisticConcurrency | PessimisticConcurrency

datatype TransactionIsolationLevel = ReadCommittedLevel | RepeatableReadLevel | SerializableLevel

definition concurrencyCode :: "TransactionConcurrency \<Rightarrow> byte" where
  "concurrencyCode c = (case c of OptimisticConcurrency \<Rightarrow> 0 | PessimisticConcurrency \<Rightarrow> 1)"

definition isolationCode :: "TransactionIsolationLevel \<Rightarrow> byte" where
  "isolationCode l = (case l of ReadCommittedLevel \<Rightarrow> 0 | RepeatableReadLevel \<Rightarrow> 1 | SerializableLevel \<Rightarrow> 2)"

definition opTxStart :: i16 where "opTxStart = 4000"
definition opTxEnd :: i16 where "opTxEnd = 4001"

record transactionOptions =
  txIsoLvl :: TransactionIsolationLevel
  txConcurrency :: TransactionConcurrency
  txLabel :: string
  txTimeout :: i64

definition WithIsolationLevel :: "TransactionIsolationLevel \<Rightarrow> transactionOptions \<Rightarrow> transactionOptions" where
  "WithIsolationLevel lvl opts = opts\<lparr>txIsoLvl := lvl\<rparr>"

definition WithConcurrency :: "TransactionConcurrency \<Rightarrow> transactionOptions \<Rightarrow> transactionOptions" where
  "WithConcurrency c opts = opts\<lparr>txConcurrency := c\<rparr>"

definition WithLabel :: "string \<Rightarrow> transactionOptions \<Rightarrow> transactionOptions" where
  "WithLabel label opts = opts\<lparr>txLabel := label\<rparr>"

definition WithTimeout :: "i64 \<Rightarrow> transactionOptions \<Rightarrow> transactionOptions" where
  "WithTimeout timeout opts = opts\<lparr>txTimeout := timeout\<rparr>"

section \<open>Start and end\<close>

text \<open>Milliseconds of a duration in nanoseconds: division towards zero.\<close>

definition txMillis :: "i64 \<Rightarrow> i64" where
  "txMillis d = word_of_int (sint d sdiv 1000000)"

definition txStartRequest :: "transactionOptions \<Rightarrow> writer" where
  "txStartRequest opts = seqW
     [WriteInt8 (concurrencyCode (txConcurrency opts)),
      WriteInt8 (isolationCode (txIsoLvl opts)),
      WriteInt64 (txMillis (txTimeout opts)),
      (if length (txLabel opts) > 0 then marshalString (txLabel opts) else WriteNull)]"

definition startTx :: "('w registry, 'w link) prog \<Rightarrow> transactionOptions \<Rightarrow> ('w registry, 'w txSession) prog" where
  "startTx defaultChannel opts =
     bindP defaultChannel (\<lambda>ch.
       sendOp ch opTxStart
         (if \<not> SupportsTransactions (linkProto ch)
          then failMW (ErrMsg ''transactions are not supported for protocol'')
          else liftW (txStartRequest opts))
         (bindMR (liftR ReadInt32) (\<lambda>i. returnMR \<lparr>txId = i, txCh = ch\<rparr>)))"

definition closeTx :: "'w txSession \<Rightarrow> bool \<Rightarrow> ('w registry, unit) prog" where
  "closeTx tx committed =
     sendOp (txCh tx) opTxEnd (liftW (seqW [WriteInt32 (txId tx), WriteBool committed])) noResponse"

text \<open>errors.As looks for a timeout through the wrapped errors; a ClientConnectionError does not unwrap.\<close>

fun isTimeoutError :: "gerror \<Rightarrow> bool" where
  "isTimeoutError (ClientTimeoutError _) = True"
| "isTimeoutError (ErrWrap _ e) = isTimeoutError e"
| "isTimeoutError _ = False"

section \<open>Running in a transaction\<close>

text \<open>The end of the transaction, tried once more after a timeout.\<close>

definition endTx :: "'w txSession \<Rightarrow> bool \<Rightarrow> ('w registry, unit) prog" where
  "endTx tx shouldCommit = (\<lambda>s. case closeTx tx shouldCommit s of
     (Inl (Fail e), s') \<Rightarrow> if isTimeoutError e then closeTx tx shouldCommit s' else (Inl (Fail e), s')
   | r \<Rightarrow> r)"

text \<open>A panic, of the function or of the end itself, makes the deferred call roll back; its own outcome is
  dropped. The error of a failed rollback wraps the error of the end and prints the cause.\<close>

definition RunInTransaction :: "('w registry, 'w link) prog \<Rightarrow> transactionOptions \<Rightarrow> ('w ctx \<Rightarrow> ('w registry, unit) prog) \<Rightarrow>
    (transactionOptions \<Rightarrow> transactionOptions) list \<Rightarrow> ('w registry, unit) prog" where
  "RunInTransaction defaultChannel dflt txFunc opts = (\<lambda>s.
     case wrapP ''failed to start transaction'' (startTx defaultChannel (fold (\<lambda>opt. opt) opts dflt)) s of
       (Inl f, s) \<Rightarrow> (Inl f, s)
     | (Inr tx, s) \<Rightarrow>
         (case txFunc (Some tx) s of
            (Inl Panic, s) \<Rightarrow> (Inl Panic, snd (closeTx tx False s))
          | (Inl NoFuel, s) \<Rightarrow> (Inl NoFuel, s)
          | (Inl (Fail txErr), s) \<Rightarrow>
              (case endTx tx False s of
                 (Inr _, s) \<Rightarrow> (Inl (Fail txErr), s)
               | (Inl (Fail e), s) \<Rightarrow> (Inl (Fail (ErrWrap ''failed to rollback transaction'' e)), s)
               | (Inl f, s) \<Rightarrow> (Inl f, snd (closeTx tx False s)))
          | (Inr _, s) \<Rightarrow>
              (case endTx tx True s of
                 (Inr _, s) \<Rightarrow> (Inr (), s)
               | (Inl (Fail e), s) \<Rightarrow> (Inl (Fail (ErrWrap ''failed to commit transaction'' e)), s)
               | (Inl f, s) \<Rightarrow> (Inl f, snd (closeTx tx False s)))))"

end
