(* ===== verification/TxProps.thy ===== *)
theory TxProps
  imports Transactions CacheProps SchemaWire
begin

text \<open>
  What transactions promise: against a server that keeps the changes of a transaction apart until
  its end, a sequence of cache operations takes effect as a whole or not at all.
\<close>

declare seqW.simps [simp del] unmarshal.simps [simp del]

section \<open>What the server promises\<close>

definition startBytes :: "transactionOptions \<Rightarrow> byte list" where
  "startBytes opts = [concurrencyCode (txConcurrency opts), isolationCode (txIsoLvl opts)] @ encI64 (txMillis (txTimeout opts)) @
     encOptString (txLabel opts)"

text \<open>A transaction works on a table of its own, which starts as the committed one and replaces it at a
  commit; it is given an id that is free, when there is one.\<close>

definition txServer :: "'w link \<Rightarrow> i32 \<Rightarrow> byte list set \<Rightarrow> ('w \<Rightarrow> table) \<Rightarrow> ('w \<Rightarrow> i32 \<Rightarrow> table option) \<Rightarrow> bool" where
  "txServer ch cId E committed open' \<longleftrightarrow>
     (\<forall>opts w. (\<exists>i. open' w i = None) \<longrightarrow> (\<exists>i w'. linkServer ch opTxStart (startBytes opts) w = (Inr (encI32 i), w') \<and>
        open' w i = None \<and> committed w' = committed w \<and> open' w' = (open' w)(i \<mapsto> committed w))) \<and>
     (\<forall>i b w t. open' w i = Some t \<longrightarrow> (\<exists>w'. linkServer ch opTxEnd (encI32 i @ [boolByte b]) w = (Inr [], w') \<and>
        committed w' = (if b then t else committed w) \<and> open' w' = (open' w)(i := None))) \<and>
     (\<forall>i c others. cacheServer (linkServer ch) (infoBytes (Some \<lparr>txId = i, txCh = ch\<rparr>) cId None False) E
        (\<lambda>w. the (open' w i)) (\<lambda>w. open' w i \<noteq> None \<and> committed w = c \<and> (open' w)(i := None) = others))"

text \<open>The function of a user: operations in order, then a decision on their results.\<close>

definition txBody :: "('d, 'w) Cache \<Rightarrow> 'd cmd list \<Rightarrow> ('d result list \<Rightarrow> failure option) \<Rightarrow> 'w ctx \<Rightarrow> ('w registry, unit) prog" where
  "txBody c cmds decide ctx = (\<lambda>s. case runAll (runCmd ctx c) cmds s of
     (rs, s') \<Rightarrow> (case decide rs of None \<Rightarrow> (Inr (), s') | Some f \<Rightarrow> (Inl f, s')))"

section \<open>Start and end\<close>

lemma writes_start: "writes (txStartRequest opts) (startBytes opts)"
proof -
  have label: "writes (if length (txLabel opts) > 0 then marshalString (txLabel opts) else WriteNull) (encOptString (txLabel opts))"
    using writes_encOptString [of "txLabel opts"] by (cases "txLabel opts") (simp_all add: marshalEmptyStringAsNull_def)
  show ?thesis
    unfolding txStartRequest_def startBytes_def by (rule writes_cong, (rule writes_parts label)+) simp
qed

lemma startTx_run:
  assumes "dc s = (Inr ch, s)" and "SupportsTransactions (linkProto ch)" and "length (startBytes opts) \<le> maxInt32"
    and "linkServer ch opTxStart (startBytes opts) (world s) = (Inr (encI32 i), w)"
  shows "startTx dc opts s = (Inr \<lparr>txId = i, txCh = ch\<rparr>, s\<lparr>world := w\<rparr>)"
proof -
  have "mreads (bindMR (liftR ReadInt32) (\<lambda>i. returnMR \<lparr>txId = i, txCh = ch\<rparr>)) (encI32 i) \<lparr>txId = i, txCh = ch\<rparr>"
    by (rule mreads_bind_return [OF mreads_lift [OF reads_words(3)]])
  then have "sendOp ch opTxStart (liftW (txStartRequest opts)) (bindMR (liftR ReadInt32) (\<lambda>i. returnMR \<lparr>txId = i, txCh = ch\<rparr>)) s
      = (Inr \<lparr>txId = i, txCh = ch\<rparr>, s\<lparr>world := w\<rparr>)"
    using assms(3,4) by (intro sendOp_run [OF mwrites_lift [OF writes_start], where rest = "[]"]) simp_all
  then show ?thesis using assms(1,2) by (simp add: startTx_def bindP_def)
qed

lemma mwrites_end: "mwrites (liftW (seqW [WriteInt32 i, WriteBool b])) (encI32 i @ [boolByte b])"
  by (rule mwrites_lift, rule writes_cong, (rule writes_parts)+) simp

lemma closeTx_run:
  assumes "linkServer (txCh tx) opTxEnd (encI32 (txId tx) @ [boolByte b]) (world s) = (Inr [], w)"
  shows "closeTx tx b s = (Inr (), s\<lparr>world := w\<rparr>)"
  unfolding closeTx_def
  by (rule sendOp_run [OF mwrites_end _ _ mreads_noResponse, where rest = "[]"]) (use assms in \<open>simp_all add: maxInt32_def\<close>)

lemma closeTx_error:
  assumes "linkServer (txCh tx) opTxEnd (encI32 (txId tx) @ [boolByte b]) (world s) = (Inl e, w)"
  shows "closeTx tx b s = (Inl (Fail e), s\<lparr>world := w\<rparr>)"
  unfolding closeTx_def by (rule sendOp_error [OF mwrites_end]) (use assms in \<open>simp_all add: maxInt32_def\<close>)

section \<open>Properties\<close>

text \<open>What ends a transaction on such a server, and what the result of a transaction is when its function
  comes back and its end succeeds.\<close>

lemma txServer_end:
  assumes "txServer ch cid enc committed open'" and "open' (world s) i = Some t" and "tx = \<lparr>txId = i, txCh = ch\<rparr>"
  shows "\<exists>w'. closeTx tx b s = (Inr (), s\<lparr>world := w'\<rparr>) \<and> committed w' = (if b then t else committed (world s)) \<and>
    open' w' = (open' (world s))(i := None)"
proof -
  obtain w' where "linkServer ch opTxEnd (encI32 i @ [boolByte b]) (world s) = (Inr [], w')"
      "committed w' = (if b then t else committed (world s))" "open' w' = (open' (world s))(i := None)"
    using assms(1,2) unfolding txServer_def by blast
  then show ?thesis using closeTx_run [of tx b s w'] assms(3) by auto
qed

lemma RunInTransaction_ends:
  assumes "startTx dc (fold (\<lambda>opt. opt) opts dflt) s = (Inr tx, s0)"
    and "f (Some tx) s0 = (case r of None \<Rightarrow> Inr () | Some e \<Rightarrow> Inl e, s1)" and "r \<noteq> Some NoFuel"
    and "closeTx tx (r = None) s1 = (Inr (), s2)"
  shows "RunInTransaction dc dflt f opts s = (case r of None \<Rightarrow> Inr () | Some e \<Rightarrow> Inl e, s2)"
proof (cases r)
  case None
  then show ?thesis using assms by (simp add: RunInTransaction_def wrapP_def endTx_def)
next
  case (Some e)
  then show ?thesis using assms by (cases e) (simp_all add: RunInTransaction_def wrapP_def endTx_def)
qed

text \<open>C5 Transactions are atomic. On a server that keeps the changes of a transaction apart until its end,
  RunInTransaction with any sequence of cache operations and any decision on their results commits
  exactly when the function returns no error: then the committed table represents the abstract map
  after the operations and the result is nil; when the function returns an error or panics, the
  committed table represents the abstract map as it was and the result is that error or panic. Inside,
  the operations see the map with the changes before them. No transaction is left open either way.\<close>

theorem transaction_is_atomic:
  assumes "apd_ok (envApd (cacheEnv c)) fin" and "A = envApd (cacheEnv c)" and "cacheExpiry c = None"
    and "dc s = (Inr ch, s)" and "SupportsTransactions (linkProto ch)"
    and "length (startBytes (fold (\<lambda>opt. opt) opts dflt)) \<le> maxInt32"
    and "txServer ch (cacheId c) (encoded A fin) committed open'"
    and "\<forall>cmd \<in> set cmds. (\<forall>v \<in> set (cmdArgs cmd). plain A fin v) \<and> fits A (cmdArgs cmd)"
    and "repr A fin (committed (world s)) m" and "decide (fst (runAll mapCmd cmds m)) \<noteq> Some NoFuel"
    and "\<exists>i. open' (world s) i = None"
  shows "\<exists>s'. RunInTransaction dc dflt (txBody c cmds decide) opts s
      = (case decide (fst (runAll mapCmd cmds m)) of None \<Rightarrow> Inr () | Some f \<Rightarrow> Inl f, s') \<and>
    repr A fin (committed (world s')) (if decide (fst (runAll mapCmd cmds m)) = None then snd (runAll mapCmd cmds m) else m) \<and>
    open' (world s') = open' (world s)"
proof -
  let ?opts = "fold (\<lambda>opt. opt) opts dflt" and ?out = "decide (fst (runAll mapCmd cmds m))"
  obtain i w where st: "linkServer ch opTxStart (startBytes ?opts) (world s) = (Inr (encI32 i), w)" "open' (world s) i = None"
      "committed w = committed (world s)" "open' w = (open' (world s))(i \<mapsto> committed (world s))"
    using assms(7,11) unfolding txServer_def by blast
  let ?tx = "\<lparr>txId = i, txCh = ch\<rparr>" and ?s = "s\<lparr>world := w\<rparr>"
  let ?I = "\<lambda>w. open' w i \<noteq> None \<and> committed w = committed (world s) \<and> (open' w)(i := None) = open' (world s)"
  have start: "startTx dc ?opts s = (Inr ?tx, ?s)"
    using assms(4-6) st(1) by (rule startTx_run)
  have "cacheServer (linkServer ch) (infoBytes (Some ?tx) (cacheId c) None False) (encoded A fin) (\<lambda>w. the (open' w i)) ?I"
    using assms(7) unfolding txServer_def by blast
  then have rdy: "ready fin (Some ?tx) c (\<lambda>w. the (open' w i)) ?I"
    using assms(1-3) by (simp add: ready_def cacheChannel_def)
  have "repr A fin (the (open' (world ?s) i)) m" "?I (world ?s)"
    using st assms(9) by (simp_all add: fun_upd_idem)
  from runAll_refines [OF rdy assms(2,8) this]
  obtain s1 where body: "runAll (runCmd (Some ?tx) c) cmds ?s = (fst (runAll mapCmd cmds m), s1)"
      "repr A fin (the (open' (world s1) i)) (snd (runAll mapCmd cmds m))" "?I (world s1)"
    by (metis prod.collapse)
  then obtain t where t: "open' (world s1) i = Some t" by blast
  obtain w' where e: "closeTx ?tx (?out = None) s1 = (Inr (), s1\<lparr>world := w'\<rparr>)"
      "committed w' = (if ?out = None then t else committed (world s1))" "open' w' = (open' (world s1))(i := None)"
    using txServer_end [OF assms(7) t refl] by blast
  have "txBody c cmds decide (Some ?tx) ?s = (case ?out of None \<Rightarrow> Inr () | Some f \<Rightarrow> Inl f, s1)"
    using body(1) by (simp add: txBody_def split: option.splits)
  with start assms(10) e(1) have "RunInTransaction dc dflt (txBody c cmds decide) opts s
      = (case ?out of None \<Rightarrow> Inr () | Some f \<Rightarrow> Inl f, s1\<lparr>world := w'\<rparr>)"
    by (intro RunInTransaction_ends [where r = ?out and tx = ?tx]) simp_all
  then show ?thesis using e body t assms(9) by auto
qed

text \<open>C34 A commit that times out is sent again. When the answer to the end of a transaction is lost to the
  timeout and the server, which has ended it, refuses the second end, RunInTransaction reports that the
  commit failed although the transaction is committed.\<close>

theorem timed_out_commit_is_sent_twice:
  assumes "dc s = (Inr ch, s)" and "SupportsTransactions (linkProto ch)"
    and "length (startBytes (fold (\<lambda>opt. opt) opts dflt)) \<le> maxInt32"
    and "linkServer ch opTxStart (startBytes (fold (\<lambda>opt. opt) opts dflt)) (world s) = (Inr (encI32 i), w)"
    and "f (Some \<lparr>txId = i, txCh = ch\<rparr>) (s\<lparr>world := w\<rparr>) = (Inr (), s1)"
    and "linkServer ch opTxEnd (encI32 i @ [boolByte True]) (world s1) = (Inl (ClientTimeoutError msg), w1)"
    and "linkServer ch opTxEnd (encI32 i @ [boolByte True]) w1 = (Inl e, w2)"
  shows "RunInTransaction dc dflt f opts s = (Inl (Fail (ErrWrap ''failed to commit transaction'' e)), s1\<lparr>world := w2\<rparr>)"
proof -
  let ?tx = "\<lparr>txId = i, txCh = ch\<rparr>"
  have "closeTx ?tx True s1 = (Inl (Fail (ClientTimeoutError msg)), s1\<lparr>world := w1\<rparr>)"
    using closeTx_error [of ?tx True s1] assms(6) by simp
  moreover have "closeTx ?tx True (s1\<lparr>world := w1\<rparr>) = (Inl (Fail e), s1\<lparr>world := w2\<rparr>)"
    using closeTx_error [of ?tx True "s1\<lparr>world := w1\<rparr>"] assms(7) by simp
  ultimately have "endTx ?tx True s1 = (Inl (Fail e), s1\<lparr>world := w2\<rparr>)" by (simp add: endTx_def)
  moreover have "startTx dc (fold (\<lambda>opt. opt) opts dflt) s = (Inr ?tx, s\<lparr>world := w\<rparr>)"
    using assms(1-4) by (rule startTx_run)
  ultimately show ?thesis using assms(5) by (simp add: RunInTransaction_def wrapP_def)
qed

section \<open>A server with transactions\<close>

type_synonym txWorld = "table \<times> (i32 \<Rightarrow> table option)"

definition freeId :: "(i32 \<Rightarrow> table option) \<Rightarrow> i32" where
  "freeId o' = (case List.find (\<lambda>n. o' (word_of_nat n) = None) [0..<2 ^ 32] of Some n \<Rightarrow> word_of_nat n | None \<Rightarrow> 0)"

definition idOf :: "byte list \<Rightarrow> i32" where
  "idOf bs = (case ReadInt32 (NewBinaryInputStream bs 0) of Inr (i, _) \<Rightarrow> i | Inl _ \<Rightarrow> 0)"

definition txTables :: "'d apd \<Rightarrow> txWorld server" where
  "txTables A op bs = (\<lambda>(c, o').
     if op = opTxStart then (Inr (encI32 (freeId o')), (c, o'(freeId o' \<mapsto> c)))
     else if op = opTxEnd then
       (Inr [], (if drop 4 bs = [boolByte True] then the (o' (idOf bs)) else c, o'(idOf bs := None)))
     else
       let i = idOf (drop 5 bs); (r, t) = tableServer A (replicate 9 0) op bs (the (o' i))
       in (r, (c, o'(i \<mapsto> t))))"

lemma idOf_enc: "idOf (encI32 i @ rest) = i"
  using readsD [OF reads_words(3) [of i], of "[]" rest 0] by (simp add: idOf_def NewBinaryInputStream_def)

lemma freeId_free: "o' i = None \<Longrightarrow> o' (freeId o') = None"
proof -
  assume f: "o' i = None"
  have "unat i < 2 ^ 32" using unsigned_less [of i] by simp
  then have "\<exists>n \<in> set [0..<2 ^ 32]. o' (word_of_nat n) = None" using f by (intro bexI [of _ "unat i"]) simp_all
  then obtain n where n: "List.find (\<lambda>n. o' (word_of_nat n) = None) [0..<2 ^ 32] = Some n"
    by (cases "List.find (\<lambda>n. o' (word_of_nat n) = None) [0..<2 ^ 32]") (auto simp: find_None_iff simp del: upt_rec_numeral)
  then obtain k where "o' (word_of_nat ([0..<2 ^ 32] ! k)) = None" "n = [0..<2 ^ 32] ! k"
    unfolding find_Some_iff by blast
  then have "o' (word_of_nat n) = None" by (simp only:)
  then show ?thesis unfolding freeId_def n by simp
qed

lemma tableServer_info: "length info = length info' \<Longrightarrow> tableServer A info = tableServer A info'"
  by (intro ext) (simp add: tableServer_def)

lemma infoBytes_tx: "infoBytes (Some tx) cId None False = encI32 cId @ [2] @ encI32 (txId tx)"
  by (simp add: infoBytes_def infoFlag_def)

lemma txTables_cache: "op \<in> cacheOps \<Longrightarrow> op \<noteq> opTxStart \<and> op \<noteq> opTxEnd"
  by (auto simp: cacheOps_def opcode_defs opTxStart_def opTxEnd_def)

lemma txTables_ok:
  assumes "apd_ok A fin" and "linkServer ch = txTables A"
  shows "txServer ch cId (encoded A fin) fst snd"
  unfolding txServer_def assms(2)
proof (intro conjI allI impI)
  fix opts and w :: txWorld
  assume "\<exists>i. snd w i = None"
  then have "snd w (freeId (snd w)) = None" using freeId_free by blast
  then show "\<exists>i w'. txTables A opTxStart (startBytes opts) w = (Inr (encI32 i), w') \<and> snd w i = None \<and> fst w' = fst w \<and>
      snd w' = (snd w)(i \<mapsto> fst w)"
    by (intro exI [of _ "freeId (snd w)"]) (simp add: txTables_def case_prod_unfold)
next
  fix i b t and w :: txWorld
  assume "snd w i = Some t"
  then show "\<exists>w'. txTables A opTxEnd (encI32 i @ [boolByte b]) w = (Inr [], w') \<and> fst w' = (if b then t else fst w) \<and>
      snd w' = (snd w)(i := None)"
    using idOf_enc [of i "[boolByte True]"] idOf_enc [of i "[boolByte False]"]
    by (cases b) (simp_all add: txTables_def case_prod_unfold opTxStart_def opTxEnd_def boolByte_def)
next
  fix i c others
  let ?info = "encI32 cId @ [2] @ encI32 i"
  show "cacheServer (txTables A) (infoBytes (Some \<lparr>txId = i, txCh = ch\<rparr>) cId None False) (encoded A fin)
      (\<lambda>w. the (snd w i)) (\<lambda>w. snd w i \<noteq> None \<and> fst w = c \<and> (snd w)(i := None) = others)"
    unfolding cacheServer_def
  proof (intro allI impI)
    fix op args and w :: txWorld
    assume op: "op \<in> cacheOps" and args: "set args \<subseteq> encoded A fin"
      and w: "snd w i \<noteq> None \<and> fst w = c \<and> (snd w)(i := None) = others"
    let ?bs = "?info @ countOf op args @ concat args" and ?t = "the (snd w i)"
    have "tableServer A ?info op ?bs ?t = (Inr (fst (tableReply op args ?t)), snd (tableReply op args ?t))"
      using tableServer_ok [OF assms(1), of ?info] op args by (auto simp: cacheServer_def)
    moreover have "tableServer A ?info = tableServer A (replicate 9 0)" by (rule tableServer_info) simp
    moreover have "idOf (drop 5 ?bs) = i" using idOf_enc [of i "countOf op args @ concat args"] by simp
    ultimately have "txTables A op ?bs w = (Inr (fst (tableReply op args ?t)), (fst w, (snd w)(i \<mapsto> snd (tableReply op args ?t))))"
      using txTables_cache [OF op] by (simp add: txTables_def case_prod_unfold Let_def del: append_assoc append.simps)
    then show "\<exists>w'. txTables A op (infoBytes (Some \<lparr>txId = i, txCh = ch\<rparr>) cId None False @ countOf op args @ concat args) w
        = (Inr (fst (tableReply op args ?t)), w') \<and> the (snd w' i) = snd (tableReply op args ?t) \<and>
        snd w' i \<noteq> None \<and> fst w' = c \<and> (snd w')(i := None) = others"
      using w by (simp add: infoBytes_tx)
  qed
qed

definition txCache :: "(bool \<times> byte list \<times> i32, txWorld) Cache" where
  "txCache =
     \<lparr>cacheCli = \<lparr>cliCh = \<lparr>linkServer = txTables plainDec, linkProto = NewProtocolContext (ver 1 7 0) []\<rparr>,
                  cliEnv = \<lparr>envApd = plainDec, envServer = txTables plainDec, envCompact = True, envTypeId = basicTypeId id,
                     envFieldId = basicFieldId id, envFactories = \<lambda>_. None\<rparr>\<rparr>,
      cacheExpiry = None, cacheName = ''accounts'', cacheId = 7\<rparr>"

definition txDefaults :: transactionOptions where
  "txDefaults = \<lparr>txIsoLvl = RepeatableReadLevel, txConcurrency = PessimisticConcurrency, txLabel = [], txTimeout = 0\<rparr>"

definition txReg :: "txWorld registry" where
  "txReg = \<lparr>regCache = newBinaryMetadataCache, world = (Map.empty, \<lambda>_. None)\<rparr>"

text \<open>A transfer that is refused because its source does not exist.\<close>

theorem transaction_is_atomic_witness:
  "\<exists>s'. RunInTransaction (returnP (cliCh (cacheCli txCache))) txDefaults
      (txBody txCache [CPut (VLeaf (LString ''b'')) (VScalar (SInt32 5)), CContainsKey (VLeaf (LString ''a''))]
        (\<lambda>rs. if rs ! 1 = RBool True then None else Some (Fail (ErrMsg ''no account'')))) [WithLabel ''transfer''] txReg
      = (Inl (Fail (ErrMsg ''no account'')), s') \<and>
    repr plainDec (\<lambda>d. dropWhile (\<lambda>b. b = 0) (fst (snd d)) = fst (snd d)) (fst (world s')) Map.empty"
proof -
  let ?fin = "\<lambda>d :: bool \<times> byte list \<times> i32. dropWhile (\<lambda>b. b = 0) (fst (snd d)) = fst (snd d)"
  let ?ch = "cliCh (cacheCli txCache)"
  let ?cmds = "[CPut (VLeaf (LString ''b'')) (VScalar (SInt32 5)), CContainsKey (VLeaf (LString ''a''))] :: (bool \<times> byte list \<times> i32) cmd list"
  have A: "envApd (cacheEnv txCache) = plainDec" by (simp add: txCache_def cacheEnv_def)
  have ap: "apd_ok (envApd (cacheEnv txCache)) ?fin" using plainDec_ok A by simp
  have srv: "txServer ?ch (cacheId txCache) (encoded plainDec ?fin) fst snd"
    by (rule txTables_ok [OF plainDec_ok]) (simp add: txCache_def)
  have sup: "SupportsTransactions (linkProto ?ch)"
    by (simp add: txCache_def SupportsTransactions_def Compare_def ver_def)
  have res: "fst (runAll mapCmd ?cmds Map.empty) = [RUnit, RBool False]"
    by (simp add: orNil_cases hasV_def updateV_def)
  have "\<exists>s'. RunInTransaction (returnP ?ch) txDefaults
      (txBody txCache ?cmds (\<lambda>rs. if rs ! 1 = RBool True then None else Some (Fail (ErrMsg ''no account'')))) [WithLabel ''transfer''] txReg
      = (Inl (Fail (ErrMsg ''no account'')), s') \<and> repr plainDec ?fin (fst (world s')) Map.empty \<and> snd (world s') = snd (world txReg)"
    using transaction_is_atomic [where dc = "returnP ?ch" and s = txReg and opts = "[WithLabel ''transfer'']" and dflt = txDefaults
        and cmds = ?cmds and m = Map.empty and A = plainDec
        and decide = "\<lambda>rs. if rs ! 1 = RBool True then None else Some (Fail (ErrMsg ''no account''))",
        OF ap _ _ _ sup _ srv] A res
    by (simp add: txReg_def txCache_def WithLabel_def txDefaults_def startBytes_def encOptString_def encString_def encStr_def maxInt32_def
        fits_def small_def repr_empty encI32_def)
  then show ?thesis by blast
qed

text \<open>A server that commits, whose first answer to the end of the transaction is lost; its world is the
  number of ends it has seen.\<close>

definition slowLink :: "nat link" where
  "slowLink = \<lparr>linkServer = \<lambda>op bs n. if op = opTxStart then (Inr (encI32 1), n)
       else if n = 0 then (Inl (ClientTimeoutError ''request cancelled''), Suc n)
       else (Inl (ClientServerError 1 ''transaction not found''), Suc n),
     linkProto = NewProtocolContext (ver 1 7 0) []\<rparr>"

theorem timed_out_commit_is_sent_twice_witness:
  "RunInTransaction (returnP slowLink) txDefaults (\<lambda>_. returnP ()) [] \<lparr>regCache = newBinaryMetadataCache, world = 0\<rparr>
    = (Inl (Fail (ErrWrap ''failed to commit transaction'' (ClientServerError 1 ''transaction not found''))),
       \<lparr>regCache = newBinaryMetadataCache, world = 2\<rparr>)"
  using timed_out_commit_is_sent_twice [where dc = "returnP slowLink" and ch = slowLink and opts = "[]" and dflt = txDefaults
      and s = "\<lparr>regCache = newBinaryMetadataCache, world = 0\<rparr>" and ?s1.0 = "\<lparr>regCache = newBinaryMetadataCache, world = 0\<rparr>"
      and f = "\<lambda>_. returnP ()" and i = 1 and w = 0 and msg = "''request cancelled''" and ?w1.0 = 1 and ?w2.0 = 2
      and e = "ClientServerError 1 ''transaction not found''"]
  by (simp add: slowLink_def SupportsTransactions_def Compare_def ver_def txDefaults_def startBytes_def encOptString_def
      maxInt32_def opTxStart_def opTxEnd_def)

end
