(* ===== verification/Cluster.thy ===== *)
theory Cluster
  imports Cache "HOL-Library.List_Lexorder" "HOL-Library.Char_ord"
begin

text \<open>
  cluster.go: nodes of the cluster, node filters with their merge, the projection of a cluster
  group, its requests with the cache of nodes it keeps, and the options that make a group. A group
  has an address: what the client changes after its construction, the cache of nodes, is kept in the
  state under it. The maps and the counter behind it are updated by one goroutine at a time; their
  synchronisation is not modelled.
\<close>

declare seqW.simps [simp del] unmarshal.simps [simp del]

section \<open>Constants and nodes\<close>

definition opClusterGetState :: i16 where "opClusterGetState = 5000"
definition opClusterChangeState :: i16 where "opClusterChangeState = 5001"
definition opClusterChangeWalState :: i16 where "opClusterChangeWalState = 5002"
definition opClusterGetWalState :: i16 where "opClusterGetWalState = 5003"
definition opClusterGroupGetNodeIds :: i16 where "opClusterGroupGetNodeIds = 5100"
definition opClusterGroupGetNodes :: i16 where "opClusterGroupGetNodes = 5101"

definition attributeFilterType :: i16 where "attributeFilterType = 1"
definition nodeTypeFilterType :: i16 where "nodeTypeFilterType = 2"

record NodeVersion =
  nvMajor :: byte
  nvMinor :: byte
  nvMaintenance :: byte
  nvStage :: string
  nvTimestamp :: i64
  nvHash :: "byte list"

record 'd ClusterNode =
  nodeId :: uuid
  nodeConsistentId :: "'d goval"
  nodeAttributes :: "(string \<times> 'd goval) list"
  nodeAddresses :: "string list"
  nodeHostNames :: "string list"
  nodeOrder :: i64
  nodeVersion :: NodeVersion
  nodeIsClient :: bool
  nodeIsLocal :: bool

definition attrMacsName :: string where "attrMacsName = ''org.apache.ignite.macs''"

section \<open>Comparing interface values\<close>

text \<open>
  Go's comparison of two interface values: values of different dynamic types differ, values of one
  type are compared if the type is comparable, and the comparison panics if it is not. Floats
  compare by value: a NaN differs from itself, the two zeros are equal. \<open>opaque\<close> compares the values
  of which the model holds less than Go does: pointers and the types of other packages.
\<close>

definition floatNaN :: "nat \<Rightarrow> nat \<Rightarrow> nat \<Rightarrow> bool" where
  "floatNaN expBits fracBits bits =
     (bits div 2 ^ fracBits mod 2 ^ expBits = 2 ^ expBits - 1 \<and> bits mod 2 ^ fracBits \<noteq> 0)"

definition floatEq :: "nat \<Rightarrow> nat \<Rightarrow> nat \<Rightarrow> nat \<Rightarrow> bool" where
  "floatEq expBits fracBits a b =
     (\<not> floatNaN expBits fracBits a \<and> \<not> floatNaN expBits fracBits b \<and>
      (a = b \<or> (a mod 2 ^ (expBits + fracBits) = 0 \<and> b mod 2 ^ (expBits + fracBits) = 0)))"

definition scalarEq :: "scalar \<Rightarrow> scalar \<Rightarrow> bool" where
  "scalarEq a b = (case (a, b) of
     (SFloat32 x, SFloat32 y) \<Rightarrow> floatEq 8 23 (unat x) (unat y)
   | (SFloat64 x, SFloat64 y) \<Rightarrow> floatEq 11 52 (unat x) (unat y)
   | _ \<Rightarrow> a = b)"

fun leafEq :: "('d goval \<Rightarrow> 'd goval \<Rightarrow> bool res) \<Rightarrow> 'd leaf \<Rightarrow> 'd leaf \<Rightarrow> bool res" where
  "leafEq opaque (LDecimal a) (LDecimal b) = opaque (VLeaf (LDecimal a)) (VLeaf (LDecimal b))"
| "leafEq opaque (LTimestamp a) (LTimestamp b) = opaque (VLeaf (LTimestamp a)) (VLeaf (LTimestamp b))"
| "leafEq opaque a b = Inr (a = b)"

fun sliceRank :: "prim_slice \<Rightarrow> nat" where
  "sliceRank (PBool _) = 0" | "sliceRank (PByte _) = 1" | "sliceRank (PInt8 _) = 2"
| "sliceRank (PUint16 _) = 3" | "sliceRank (PInt16 _) = 4" | "sliceRank (PUint32 _) = 5"
| "sliceRank (PInt32 _) = 6" | "sliceRank (PUint _) = 7" | "sliceRank (PInt _) = 8"
| "sliceRank (PUint64 _) = 9" | "sliceRank (PInt64 _) = 10" | "sliceRank (PFloat32 _) = 11"
| "sliceRank (PFloat64 _) = 12"

fun leafArrayRank :: "'d leaf_array \<Rightarrow> nat" where
  "leafArrayRank (AString _) = 0" | "leafArrayRank (AStringP _) = 1" | "leafArrayRank (AUuid _) = 2"
| "leafArrayRank (AUuidP _) = 3" | "leafArrayRank (ATime _) = 4" | "leafArrayRank (ATimeP _) = 5"
| "leafArrayRank (ADate _) = 6" | "leafArrayRank (ADateP _) = 7" | "leafArrayRank (ATimestamp _) = 8"
| "leafArrayRank (ATimestampP _) = 9" | "leafArrayRank (ADecimal _) = 10" | "leafArrayRank (ADecimalP _) = 11"

text \<open>The kinds of values that the type switch tells apart.\<close>

fun kindRank :: "'d goval \<Rightarrow> nat" where
  "kindRank VNil = 0" | "kindRank (VNilOf _) = 1" | "kindRank (VScalar _) = 2" | "kindRank (VSlice _) = 3"
| "kindRank (VLeaf _) = 4" | "kindRank (VArray _) = 5" | "kindRank (VObjects _) = 6"
| "kindRank (VCollection _ _ _) = 7" | "kindRank (VMap _ _ _) = 8" | "kindRank (VBinaryObject _) = 9"
| "kindRank (VBinaryEnum _) = 10" | "kindRank (VBinarylizable _ _ _ _ _) = 11" | "kindRank (VEnumArray _ _ _) = 12"
| "kindRank (VEnum _) = 13" | "kindRank (VOptimized _) = 14" | "kindRank (VGoMap _) = 15"
| "kindRank (VGoSlice _) = 16" | "kindRank (VEnumSlice _ _) = 17" | "kindRank (VClass _) = 18"
| "kindRank (VProxy _) = 19" | "kindRank VUnsupported = 20"

definition ifaceEq :: "('d goval \<Rightarrow> 'd goval \<Rightarrow> bool res) \<Rightarrow> 'd goval \<Rightarrow> 'd goval \<Rightarrow> bool res" where
  "ifaceEq opaque a b =
     (if kindRank a \<noteq> kindRank b then Inr False
      else case a of
        VNil \<Rightarrow> Inr True
      | VScalar x \<Rightarrow> (case b of VScalar y \<Rightarrow> Inr (scalarEq x y) | _ \<Rightarrow> Inr False)
      | VLeaf x \<Rightarrow> (case b of VLeaf y \<Rightarrow> leafEq opaque x y | _ \<Rightarrow> Inr False)
      | VSlice x \<Rightarrow> (case b of VSlice y \<Rightarrow> if sliceRank x = sliceRank y then Inl Panic else Inr False | _ \<Rightarrow> Inr False)
      | VArray x \<Rightarrow> (case b of VArray y \<Rightarrow> if leafArrayRank x = leafArrayRank y then Inl Panic else Inr False | _ \<Rightarrow> Inr False)
      | VObjects _ \<Rightarrow> Inl Panic
      | VCollection _ _ _ \<Rightarrow> Inl Panic
      | VMap _ _ _ \<Rightarrow> Inl Panic
      | _ \<Rightarrow> opaque a b)"

section \<open>Node filters\<close>

text \<open>\<open>BasicFilter\<close> is a basicClientSideFilter, a computation that may call the server;
  \<open>PredicateFilter\<close> a predicateBasedClientSideFilter with a predicate that only looks at the node;
  the others are the filters of the same names.\<close>

datatype ('d, 's) clusterNodeFilter =
    BasicFilter "'d ClusterNode list \<Rightarrow> ('s, 'd ClusterNode list) prog"
  | PredicateFilter "'d ClusterNode \<Rightarrow> bool"
  | NodeTypeFilter bool
  | NodeAttributesFilter "(string \<times> 'd goval) list"
  | NodeIdFilter "uuid set"

fun applyPredicate :: "'d ClusterNode list \<Rightarrow> ('d ClusterNode \<Rightarrow> bool res) \<Rightarrow> 'd ClusterNode list res" where
  "applyPredicate [] test = Inr []"
| "applyPredicate (node # nodes) test =
     bindE (test node) (\<lambda>ok. bindE (applyPredicate nodes test) (\<lambda>res. Inr (if ok then node # res else res)))"

text \<open>The loop over the attributes of the filter, up to the first that does not match.\<close>

fun hasAttributes :: "('d goval \<Rightarrow> 'd goval \<Rightarrow> bool res) \<Rightarrow> (string \<times> 'd goval) list \<Rightarrow> 'd ClusterNode \<Rightarrow> bool res" where
  "hasAttributes opaque [] node = Inr True"
| "hasAttributes opaque ((name, val) # attrs) node =
     (case map_of (nodeAttributes node) name of
        None \<Rightarrow> Inr False
      | Some nodeVal \<Rightarrow> bindE (ifaceEq opaque val nodeVal) (\<lambda>eq.
          if \<not> eq then Inr False else hasAttributes opaque attrs node))"

definition predicateApply :: "('d ClusterNode \<Rightarrow> bool) \<Rightarrow> 'd ClusterNode list \<Rightarrow> ('s, 'd ClusterNode list) prog" where
  [simp]: "predicateApply f nodes = liftP (applyPredicate nodes (\<lambda>node. Inr (f node)))"

definition nodeTypeApply :: "bool \<Rightarrow> 'd ClusterNode list \<Rightarrow> ('s, 'd ClusterNode list) prog" where
  [simp]: "nodeTypeApply isForClients nodes = liftP (applyPredicate nodes (\<lambda>node. Inr (nodeIsClient node = isForClients)))"

definition nodeAttributesApply :: "('d goval \<Rightarrow> 'd goval \<Rightarrow> bool res) \<Rightarrow> (string \<times> 'd goval) list \<Rightarrow>
    'd ClusterNode list \<Rightarrow> ('s, 'd ClusterNode list) prog" where
  [simp]: "nodeAttributesApply opaque attrs nodes = liftP (applyPredicate nodes (hasAttributes opaque attrs))"

definition nodeIdApply :: "uuid set \<Rightarrow> 'd ClusterNode list \<Rightarrow> ('s, 'd ClusterNode list) prog" where
  [simp]: "nodeIdApply ids nodes = liftP (applyPredicate nodes (\<lambda>node. Inr (nodeId node \<in> ids)))"

fun filterApply :: "('d goval \<Rightarrow> 'd goval \<Rightarrow> bool res) \<Rightarrow> ('d, 's) clusterNodeFilter \<Rightarrow>
    'd ClusterNode list \<Rightarrow> ('s, 'd ClusterNode list) prog" where
  "filterApply opaque (BasicFilter f) nodes = f nodes"
| "filterApply opaque (PredicateFilter f) nodes = predicateApply f nodes"
| "filterApply opaque (NodeTypeFilter isForClients) nodes = nodeTypeApply isForClients nodes"
| "filterApply opaque (NodeAttributesFilter attrs) nodes = nodeAttributesApply opaque attrs nodes"
| "filterApply opaque (NodeIdFilter ids) nodes = nodeIdApply ids nodes"

text \<open>The result of a merge: not possible, a filter that lets nothing pass, or one filter for the two.\<close>

datatype 'f merged = NotMerged | MergedEmpty | Merged 'f

fun mergeAttributes :: "('d goval \<Rightarrow> 'd goval \<Rightarrow> bool res) \<Rightarrow> (string \<times> 'd goval) list \<Rightarrow> (string \<times> 'd goval) list \<Rightarrow>
    (string \<times> 'd goval) list merged res" where
  "mergeAttributes opaque attrs [] = Inr (Merged attrs)"
| "mergeAttributes opaque attrs ((otherKey, otherVal) # others) =
     bindE (case map_of attrs otherKey of None \<Rightarrow> Inr True | Some val \<Rightarrow> ifaceEq opaque val otherVal) (\<lambda>eq.
       if \<not> eq then Inr MergedEmpty
       else mergeAttributes opaque (AList.update otherKey otherVal attrs) others)"

definition nodeTypeMerge :: "bool \<Rightarrow> bool \<Rightarrow> ('d, 's) clusterNodeFilter merged" where
  [simp]: "nodeTypeMerge a b = (if b = a then Merged (NodeTypeFilter a) else MergedEmpty)"

definition nodeAttributesMerge :: "('d goval \<Rightarrow> 'd goval \<Rightarrow> bool res) \<Rightarrow> (string \<times> 'd goval) list \<Rightarrow>
    (string \<times> 'd goval) list \<Rightarrow> ('d, 's) clusterNodeFilter merged res" where
  [simp]: "nodeAttributesMerge opaque as bs =
     bindE (mergeAttributes opaque as bs) (\<lambda>m. case m of
       Merged attrs \<Rightarrow> Inr (Merged (NodeAttributesFilter attrs))
     | MergedEmpty \<Rightarrow> Inr MergedEmpty | NotMerged \<Rightarrow> Inr NotMerged)"

definition nodeIdMerge :: "uuid set \<Rightarrow> uuid set \<Rightarrow> ('d, 's) clusterNodeFilter merged" where
  [simp]: "nodeIdMerge as bs =
     (let res = {i \<in> bs. i \<in> as} in if res = {} then MergedEmpty else Merged (NodeIdFilter res))"

fun mergeFilter :: "('d goval \<Rightarrow> 'd goval \<Rightarrow> bool res) \<Rightarrow> ('d, 's) clusterNodeFilter \<Rightarrow> ('d, 's) clusterNodeFilter \<Rightarrow>
    ('d, 's) clusterNodeFilter merged res" where
  "mergeFilter opaque (NodeTypeFilter a) (NodeTypeFilter b) = Inr (nodeTypeMerge a b)"
| "mergeFilter opaque (NodeAttributesFilter as) (NodeAttributesFilter bs) = nodeAttributesMerge opaque as bs"
| "mergeFilter opaque (NodeIdFilter as) (NodeIdFilter bs) = Inr (nodeIdMerge as bs)"
| "mergeFilter opaque f other = Inr NotMerged"

definition isReorderingAllowed :: "('d, 's) clusterNodeFilter \<Rightarrow> bool" where
  "isReorderingAllowed f = (case f of BasicFilter _ \<Rightarrow> False | _ \<Rightarrow> True)"

section \<open>Projections\<close>

text \<open>The projection emptyProjection, known by its address, or one with filters.\<close>

datatype ('d, 's) projection = EmptyProjection | Projection "('d, 's) clusterNodeFilter list"

definition projFilters :: "('d, 's) projection \<Rightarrow> ('d, 's) clusterNodeFilter list" where
  "projFilters p = (case p of EmptyProjection \<Rightarrow> [BasicFilter (\<lambda>_. returnP [])] | Projection fs \<Rightarrow> fs)"

text \<open>The search for a filter to merge with goes from the last filter back; the list here is reversed.\<close>

fun mergeBack :: "('d goval \<Rightarrow> 'd goval \<Rightarrow> bool res) \<Rightarrow> ('d, 's) clusterNodeFilter list \<Rightarrow> ('d, 's) clusterNodeFilter \<Rightarrow>
    ('d, 's) clusterNodeFilter list merged res" where
  "mergeBack opaque [] f = Inr NotMerged"
| "mergeBack opaque (prev # before) f =
     (if \<not> isReorderingAllowed prev then Inr NotMerged
      else bindE (mergeFilter opaque prev f) (\<lambda>m. case m of
        Merged g \<Rightarrow> Inr (Merged (g # before))
      | MergedEmpty \<Rightarrow> Inr MergedEmpty
      | NotMerged \<Rightarrow> bindE (mergeBack opaque before f) (\<lambda>r. case r of
          Merged fs \<Rightarrow> Inr (Merged (prev # fs)) | MergedEmpty \<Rightarrow> Inr MergedEmpty | NotMerged \<Rightarrow> Inr NotMerged)))"

definition appendFilter :: "('d goval \<Rightarrow> 'd goval \<Rightarrow> bool res) \<Rightarrow> ('d, 's) projection \<Rightarrow>
    ('d, 's) clusterNodeFilter option \<Rightarrow> ('d, 's) projection res" where
  "appendFilter opaque proj flt = (case (proj, flt) of
     (Projection fs, Some f) \<Rightarrow>
       if \<not> isReorderingAllowed f then Inr (Projection (fs @ [f]))
       else bindE (mergeBack opaque (rev fs) f) (\<lambda>m. case m of
         Merged gs \<Rightarrow> Inr (Projection (rev gs))
       | MergedEmpty \<Rightarrow> Inr EmptyProjection
       | NotMerged \<Rightarrow> Inr (Projection (fs @ [f])))
   | _ \<Rightarrow> Inr EmptyProjection)"

fun applyFilters :: "('d goval \<Rightarrow> 'd goval \<Rightarrow> bool res) \<Rightarrow> ('d, 's) clusterNodeFilter list \<Rightarrow> 'd ClusterNode list \<Rightarrow>
    ('s, 'd ClusterNode list) prog" where
  "applyFilters opaque [] nodes = returnP nodes"
| "applyFilters opaque (f # fs) nodes =
     bindP (filterApply opaque f nodes) (\<lambda>nodes. if nodes = [] then returnP nodes else applyFilters opaque fs nodes)"

definition projectionApply :: "('d goval \<Rightarrow> 'd goval \<Rightarrow> bool res) \<Rightarrow> ('d, 's) projection \<Rightarrow> 'd ClusterNode list \<Rightarrow>
    ('s, 'd ClusterNode list) prog" where
  "projectionApply opaque p nodes = (if nodes = [] then returnP nodes else applyFilters opaque (projFilters p) nodes)"

definition findSingleNodeIdFilter :: "('d, 's) projection \<Rightarrow> uuid set option" where
  "findSingleNodeIdFilter p = (case projFilters p of [NodeIdFilter ids] \<Rightarrow> Some ids | _ \<Rightarrow> None)"

definition isExcludedByFilters :: "('d, 's) projection \<Rightarrow> uuid \<Rightarrow> bool" where
  "isExcludedByFilters p i = (case findSingleNodeIdFilter p of Some ids \<Rightarrow> i \<notin> ids | None \<Rightarrow> False)"

section \<open>Filters on the wire\<close>

definition writeAttribute :: "('d, 'w) env \<Rightarrow> string \<times> 'd goval \<Rightarrow> 'w registry mwriter" where
  "writeAttribute env p =
     thenMW (liftW (seqW [WriteInt16 attributeFilterType, marshalString (fst p)])) (marshal env (snd p))"

definition nodeTypeWrite :: "bool \<Rightarrow> 'w registry mwriter" where
  [simp]: "nodeTypeWrite isForClients = liftW (seqW [WriteInt16 nodeTypeFilterType, WriteBool (\<not> isForClients)])"

definition nodeAttributesWrite :: "('d, 'w) env \<Rightarrow> (string \<times> 'd goval) list \<Rightarrow> 'w registry mwriter" where
  [simp]: "nodeAttributesWrite env attrs = eachMW (writeAttribute env) attrs"

text \<open>The write method, for the filters that have one.\<close>

definition writeFilter :: "('d, 'w) env \<Rightarrow> ('d, 's) clusterNodeFilter \<Rightarrow> 'w registry mwriter option" where
  "writeFilter env f = (case f of
     NodeTypeFilter isForClients \<Rightarrow> Some (nodeTypeWrite isForClients)
   | NodeAttributesFilter attrs \<Rightarrow> Some (nodeAttributesWrite env attrs)
   | _ \<Rightarrow> None)"

text \<open>The filters up to the first that must keep its place, with the number of filters written.\<close>

fun writeFilters :: "('d, 'w) env \<Rightarrow> ('d, 's) clusterNodeFilter list \<Rightarrow> nat \<Rightarrow> out_stream \<Rightarrow>
    ('w registry, nat \<times> out_stream) prog" where
  "writeFilters env [] cnt bw = returnP (cnt, bw)"
| "writeFilters env (f # fs) cnt bw =
     (if \<not> isReorderingAllowed f then returnP (cnt, bw)
      else case writeFilter env f of
        None \<Rightarrow> writeFilters env fs cnt bw
      | Some w \<Rightarrow> bindP (w bw) (\<lambda>bw. writeFilters env fs (Suc cnt) bw))"

definition writeServerSideFilters :: "('d, 'w) env \<Rightarrow> ('d, 's) projection \<Rightarrow> 'w registry mwriter" where
  "writeServerSideFilters env p = (\<lambda>bw.
     let startPos = opos bw in
     bindP (liftW (seqW [EnsureAvailable intBytes, SetPositionO (startPos + intBytes)]) bw) (\<lambda>bw.
     bindP (writeFilters env (projFilters p) 0 bw) (\<lambda>(filtersCnt, bw).
     let retPos = opos bw in
     liftW (seqW [SetPositionO startPos, WriteInt32 (word_of_nat filtersCnt), SetPositionO retPos]) bw)))"

section \<open>Reading nodes\<close>

text \<open>convertAssign into a variable of type string.\<close>

definition stringConv :: "'d goval \<Rightarrow> gerror + string" where
  "stringConv v = (case v of
     VNil \<Rightarrow> Inr []
   | VLeaf (LString s) \<Rightarrow> Inr s
   | _ \<Rightarrow> Inl (ErrMsg ''cannot assign''))"

text \<open>A nil slice is the empty list.\<close>

definition readStrings :: "('d, 'w) env \<Rightarrow> ('w registry, string list) mreader" where
  "readStrings env = bindMR (readValue env) (\<lambda>val. case val of
     VCollection kind vs isNotNull \<Rightarrow>
       (case ToSlice stringConv vs isNotNull of
          Inl e \<Rightarrow> failMR e
        | Inr xs \<Rightarrow> returnMR (case xs of None \<Rightarrow> [] | Some ss \<Rightarrow> ss))
   | _ \<Rightarrow> failMR (ErrMsg ''unexpected value type''))"

definition readNodeVersion :: "NodeVersion reader" where
  "readNodeVersion =
     bindR ReadInt8 (\<lambda>mj.
     bindR ReadInt8 (\<lambda>mi.
     bindR ReadInt8 (\<lambda>mt.
     bindR unmarshalString (\<lambda>stage.
     bindR ReadInt64 (\<lambda>ts.
     bindR unmarshalByteArray (\<lambda>h.
       returnR \<lparr>nvMajor = mj, nvMinor = mi, nvMaintenance = mt, nvStage = stage, nvTimestamp = ts,
                nvHash = (case h of None \<Rightarrow> [] | Some bs \<Rightarrow> bs)\<rparr>))))))"

definition readNodeAttributes :: "('d, 'w) env \<Rightarrow> ('w registry, (string \<times> 'd goval) list) mreader" where
  "readNodeAttributes env =
     bindMR (liftR ReadInt32) (\<lambda>len.
     bindMR (readManyM (nat (sint len))
         (bindMR (liftR unmarshalString) (\<lambda>key. bindMR (readValue env) (\<lambda>val. returnMR (key, val))))) (\<lambda>es.
       returnMR (fold (\<lambda>(key, val). AList.update key val) es [])))"

text \<open>The obsolete daemon flag is skipped; addresses and host names come sorted.\<close>

definition readClusterNode :: "('d, 'w) env \<Rightarrow> ('w registry, 'd ClusterNode) mreader" where
  "readClusterNode env =
     bindMR (liftR unmarshalUuid) (\<lambda>i.
     bindMR (readNodeAttributes env) (\<lambda>attributes.
     bindMR (readStrings env) (\<lambda>addresses.
     bindMR (readStrings env) (\<lambda>hostNames.
     bindMR (liftR ReadInt64) (\<lambda>ord.
     bindMR (liftR ReadBool) (\<lambda>isLocal.
     bindMR (liftR ReadBool) (\<lambda>_.
     bindMR (liftR ReadBool) (\<lambda>isClient.
     bindMR (readValue env) (\<lambda>consistentId.
     bindMR (liftR readNodeVersion) (\<lambda>v.
       returnMR \<lparr>nodeId = i, nodeConsistentId = consistentId, nodeAttributes = attributes,
         nodeAddresses = sort addresses, nodeHostNames = sort hostNames, nodeOrder = ord,
         nodeVersion = v, nodeIsClient = isClient, nodeIsLocal = isLocal\<rparr>))))))))))"

section \<open>Cluster groups\<close>

record 'd groupCache =
  topVer :: i64
  cachedNodes :: "(uuid \<times> 'd ClusterNode) list"

record ('d, 'w) cstate =
  cReg :: "'w registry"
  cGroups :: "nat \<Rightarrow> 'd groupCache"
  cNew :: nat

record ('d, 'w) ClusterGroup =
  grpCh :: "'w link"
  grpMarsh :: "('d, 'w) env"
  grpProjection :: "('d, ('d, 'w) cstate) projection"
  grpAddr :: nat

definition onReg :: "('w registry, 'a) prog \<Rightarrow> (('d, 'w) cstate, 'a) prog" where
  "onReg m = (\<lambda>s. case m (cReg s) of (r, reg) \<Rightarrow> (r, s\<lparr>cReg := reg\<rparr>))"

definition groupCacheOf :: "('d, 'w) ClusterGroup \<Rightarrow> ('d, 'w) cstate \<Rightarrow> 'd groupCache" where
  "groupCacheOf g s = cGroups s (grpAddr g)"

definition updGroup :: "('d, 'w) ClusterGroup \<Rightarrow> ('d groupCache \<Rightarrow> 'd groupCache) \<Rightarrow> (('d, 'w) cstate, unit) prog" where
  "updGroup g f = (\<lambda>s. (Inr (), s\<lparr>cGroups := (cGroups s)(grpAddr g := f (cGroups s (grpAddr g)))\<rparr>))"

definition storeNodes :: "'d ClusterNode list \<Rightarrow> 'd groupCache \<Rightarrow> 'd groupCache" where
  "storeNodes nodes c = c\<lparr>cachedNodes := fold (\<lambda>node. AList.update (nodeId node) node) nodes (cachedNodes c)\<rparr>"

definition groupsUnsupported :: gerror where
  "groupsUnsupported = ErrMsg ''cluster groups feature is not supported by the server''"

text \<open>The compare-and-swap of the topology version always succeeds when no other goroutine writes it.\<close>

definition nodeIdsRequest :: "('d, 'w) ClusterGroup \<Rightarrow> 'w registry mwriter" where
  "nodeIdsRequest g =
     (if \<not> SupportsAttributeFeature (linkProto (grpCh g)) ClusterGroupsFeature then failMW groupsUnsupported
      else thenMW (liftW (WriteInt64 (- 1))) (writeServerSideFilters (grpMarsh g) (grpProjection g)))"

definition nodeIdsResponse :: "(i64 \<times> uuid list) reader" where
  "nodeIdsResponse =
     bindR (ensureAvailable (int (boolBytes + longBytes))) (\<lambda>_.
     bindR ReadBool (\<lambda>ok.
       if \<not> ok then failR (ErrMsg ''unexpected server response for topology node IDs request'')
       else bindR ReadInt64 (\<lambda>v. bindR (readSlice (\<lambda>_. readUuid)) (\<lambda>ids. returnR (v, ids)))))"

definition requestNodeIds :: "('d, 'w) ClusterGroup \<Rightarrow> (('d, 'w) cstate, uuid list) prog" where
  "requestNodeIds g =
     bindP (onReg (sendOp (grpCh g) opClusterGroupGetNodeIds (nodeIdsRequest g) (liftR nodeIdsResponse))) (\<lambda>(v, ids).
     bindP (updGroup g (\<lambda>c. c\<lparr>topVer := v,
         cachedNodes := filter (\<lambda>p. fst p \<in> ToSet ids) (cachedNodes c)\<rparr>)) (\<lambda>_.
       returnP ids))"

definition requestNodes :: "('d, 'w) ClusterGroup \<Rightarrow> uuid list \<Rightarrow> (('d, 'w) cstate, 'd ClusterNode list) prog" where
  "requestNodes g ids =
     bindP (onReg (sendOp (grpCh g) opClusterGroupGetNodes
         (if \<not> SupportsAttributeFeature (linkProto (grpCh g)) ClusterGroupsFeature then failMW groupsUnsupported
          else liftW (writeSequence (length ids) (\<lambda>idx. writeUuid (ids ! idx))))
         (readSliceM (readClusterNode (grpMarsh g))))) (\<lambda>nodes.
     bindP (updGroup g (storeNodes nodes)) (\<lambda>_. returnP nodes))"

definition getOrRequestNodes :: "('d, 'w) ClusterGroup \<Rightarrow> uuid list \<Rightarrow> (('d, 'w) cstate, 'd ClusterNode list) prog" where
  "getOrRequestNodes g ids = (\<lambda>s.
     let nodes = map_of (cachedNodes (groupCacheOf g s));
         res = List.map_filter nodes ids;
         missing = filter (\<lambda>i. nodes i = None) ids
     in if missing \<noteq> [] then bindP (requestNodes g missing) (\<lambda>ns. returnP (res @ ns)) s
        else (Inr res, s))"

definition groupNodes :: "('d goval \<Rightarrow> 'd goval \<Rightarrow> bool res) \<Rightarrow> ('d, 'w) ClusterGroup \<Rightarrow>
    (('d, 'w) cstate, 'd ClusterNode list) prog" where
  "groupNodes opaque g =
     bindP (requestNodeIds g) (\<lambda>ids.
     bindP (getOrRequestNodes g ids) (\<lambda>nodes.
       projectionApply opaque (grpProjection g) nodes))"

definition groupNode :: "('d goval \<Rightarrow> 'd goval \<Rightarrow> bool res) \<Rightarrow> ('d, 'w) ClusterGroup \<Rightarrow> uuid \<Rightarrow>
    (('d, 'w) cstate, 'd ClusterNode option) prog" where
  "groupNode opaque g i =
     (if isExcludedByFilters (grpProjection g) i then returnP None
      else bindP (requestNodeIds g) (\<lambda>ids.
        if i \<notin> ToSet ids then returnP None
        else bindP (getOrRequestNodes g [i]) (\<lambda>nodes.
        bindP (projectionApply opaque (grpProjection g) nodes) (\<lambda>res.
          returnP (case res of [] \<Rightarrow> None | node # _ \<Rightarrow> Some node)))))"

section \<open>The options of a group\<close>

type_synonym ('d, 'w) groupOption = "('d, 'w) ClusterGroup \<Rightarrow> (('d, 'w) cstate, ('d, 'w) ClusterGroup) prog"

text \<open>A nil filter lets nothing pass.\<close>

definition addProjectionFilter :: "('d goval \<Rightarrow> 'd goval \<Rightarrow> bool res) \<Rightarrow> ('d, ('d, 'w) cstate) clusterNodeFilter option \<Rightarrow>
    ('d, 'w) groupOption" where
  "addProjectionFilter opaque f g =
     bindP (liftP (appendFilter opaque (grpProjection g) f)) (\<lambda>p. returnP (g\<lparr>grpProjection := p\<rparr>))"

definition ForNodeIds :: "('d goval \<Rightarrow> 'd goval \<Rightarrow> bool res) \<Rightarrow> uuid list \<Rightarrow> ('d, 'w) groupOption" where
  "ForNodeIds opaque ids =
     addProjectionFilter opaque (if length ids = 0 then None else Some (NodeIdFilter (ToSet ids)))"

definition ForAttribute :: "('d goval \<Rightarrow> 'd goval \<Rightarrow> bool res) \<Rightarrow> string \<Rightarrow> 'd goval \<Rightarrow> ('d, 'w) groupOption" where
  "ForAttribute opaque name val = addProjectionFilter opaque (Some (NodeAttributesFilter [(name, val)]))"

definition ForClients :: "('d goval \<Rightarrow> 'd goval \<Rightarrow> bool res) \<Rightarrow> ('d, 'w) groupOption" where
  "ForClients opaque = addProjectionFilter opaque (Some (NodeTypeFilter True))"

definition ForServers :: "('d goval \<Rightarrow> 'd goval \<Rightarrow> bool res) \<Rightarrow> ('d, 'w) groupOption" where
  "ForServers opaque = addProjectionFilter opaque (Some (NodeTypeFilter False))"

definition ForPredicate :: "('d goval \<Rightarrow> 'd goval \<Rightarrow> bool res) \<Rightarrow> ('d ClusterNode \<Rightarrow> bool) \<Rightarrow> ('d, 'w) groupOption" where
  "ForPredicate opaque test = addProjectionFilter opaque (Some (PredicateFilter test))"

text \<open>\<open>intn\<close> is rand.Intn of a generator seeded with the clock.\<close>

definition randomNode :: "(nat \<Rightarrow> nat) \<Rightarrow> 'd ClusterNode list \<Rightarrow> 'd ClusterNode list" where
  "randomNode intn nodes = (if length nodes < 2 then nodes else [nodes ! intn (length nodes)])"

definition ForRandom :: "('d goval \<Rightarrow> 'd goval \<Rightarrow> bool res) \<Rightarrow> (nat \<Rightarrow> nat) \<Rightarrow> ('d, 'w) groupOption" where
  "ForRandom opaque intn = addProjectionFilter opaque (Some (BasicFilter (\<lambda>nodes. returnP (randomNode intn nodes))))"

text \<open>The index of the first node that \<open>better\<close> prefers to all before it.\<close>

fun bestIdx :: "('d ClusterNode \<Rightarrow> 'd ClusterNode \<Rightarrow> bool) \<Rightarrow> 'd ClusterNode list \<Rightarrow> nat \<Rightarrow> nat \<Rightarrow> 'd ClusterNode list \<Rightarrow> nat" where
  "bestIdx better nodes best idx [] = best"
| "bestIdx better nodes best idx (node # rest) =
     bestIdx better nodes (if better node (nodes ! best) then idx else best) (Suc idx) rest"

definition youngestNode :: "'d ClusterNode list \<Rightarrow> 'd ClusterNode list" where
  "youngestNode nodes = (if length nodes < 2 then nodes
     else [nodes ! bestIdx (\<lambda>n b. sint (nodeOrder n) > sint (nodeOrder b)) nodes 0 0 nodes])"

definition oldestNode :: "'d ClusterNode list \<Rightarrow> 'd ClusterNode list" where
  "oldestNode nodes = (if length nodes < 2 then nodes
     else [nodes ! bestIdx (\<lambda>n b. sint (nodeOrder n) < sint (nodeOrder b)) nodes 0 0 nodes])"

definition ForYoungest :: "('d goval \<Rightarrow> 'd goval \<Rightarrow> bool res) \<Rightarrow> ('d, 'w) groupOption" where
  "ForYoungest opaque = addProjectionFilter opaque (Some (BasicFilter (\<lambda>nodes. returnP (youngestNode nodes))))"

definition ForOldest :: "('d goval \<Rightarrow> 'd goval \<Rightarrow> bool res) \<Rightarrow> ('d, 'w) groupOption" where
  "ForOldest opaque = addProjectionFilter opaque (Some (BasicFilter (\<lambda>nodes. returnP (oldestNode nodes))))"

fun nodeIdsOf :: "'d ClusterNode option list \<Rightarrow> gerror + uuid list" where
  "nodeIdsOf [] = Inr []"
| "nodeIdsOf (None # nodes) = Inl (ErrMsg ''nil node'')"
| "nodeIdsOf (Some node # nodes) = bindE (nodeIdsOf nodes) (\<lambda>ids. Inr (nodeId node # ids))"

definition ForClusterNodes :: "('d goval \<Rightarrow> 'd goval \<Rightarrow> bool res) \<Rightarrow> 'd ClusterNode option list \<Rightarrow> ('d, 'w) groupOption" where
  "ForClusterNodes opaque nodes g = (case nodeIdsOf nodes of
     Inl e \<Rightarrow> failP e
   | Inr ids \<Rightarrow> bindP (ForNodeIds opaque ids g) (\<lambda>g'.
       bindP (updGroup g (storeNodes (List.map_filter id nodes))) (\<lambda>_. returnP g')))"

definition ExceptNodes :: "('d goval \<Rightarrow> 'd goval \<Rightarrow> bool res) \<Rightarrow> 'd ClusterNode option list \<Rightarrow> ('d, 'w) groupOption" where
  "ExceptNodes opaque nodes g =
     (case ToSetWithTransformer nodes (\<lambda>node. case node of None \<Rightarrow> Inl (ErrMsg ''nil node'') | Some n \<Rightarrow> Inr (nodeId n)) of
        Inl e \<Rightarrow> failP e
      | Inr filtered \<Rightarrow> addProjectionFilter opaque (Some (PredicateFilter (\<lambda>node. nodeId node \<notin> filtered))) g)"

definition ExceptGroupNodes :: "('d goval \<Rightarrow> 'd goval \<Rightarrow> bool res) \<Rightarrow> ('d, 'w) ClusterGroup option \<Rightarrow> ('d, 'w) groupOption" where
  "ExceptGroupNodes opaque grp g = (case grp of
     None \<Rightarrow> failP (ErrMsg ''nil cluster group'')
   | Some grp \<Rightarrow> addProjectionFilter opaque (Some (BasicFilter (\<lambda>nodes.
       bindP (groupNodes opaque grp) (\<lambda>grpNodes.
       let filtered = ToSet (map nodeId grpNodes)
       in liftP (applyPredicate nodes (\<lambda>node. Inr (nodeId node \<notin> filtered))))))) g)"

text \<open>A missing attribute reads as nil; the message about a nil node is the one of the code.\<close>

definition ForHost :: "('d goval \<Rightarrow> 'd goval \<Rightarrow> bool res) \<Rightarrow> 'd ClusterNode option \<Rightarrow> ('d, 'w) groupOption" where
  "ForHost opaque node g = (case node of
     None \<Rightarrow> failP (ErrMsg ''nil cluster group'')
   | Some n \<Rightarrow> ForAttribute opaque attrMacsName
       (case map_of (nodeAttributes n) attrMacsName of None \<Rightarrow> VNil | Some v \<Rightarrow> v) g)"

definition ForHostNames :: "('d goval \<Rightarrow> 'd goval \<Rightarrow> bool res) \<Rightarrow> string list \<Rightarrow> ('d, 'w) groupOption" where
  "ForHostNames opaque hosts =
     (let filteredHosts = ToSet hosts in
      addProjectionFilter opaque
        (if filteredHosts = {} then None
         else Some (PredicateFilter (\<lambda>node. list_ex (\<lambda>h. h \<in> filteredHosts) (nodeHostNames node)))))"

section \<open>Making a group\<close>

fun applyGroupOptions :: "('d, 'w) groupOption list \<Rightarrow> ('d, 'w) groupOption" where
  "applyGroupOptions [] g = returnP g"
| "applyGroupOptions (opt # opts) g = bindP (opt g) (applyGroupOptions opts)"

definition newGroupState :: "(('d, 'w) cstate, nat) prog" where
  "newGroupState = (\<lambda>s. (Inr (cNew s),
     s\<lparr>cGroups := (cGroups s)(cNew s := \<lparr>topVer = 0, cachedNodes = []\<rparr>), cNew := Suc (cNew s)\<rparr>))"

definition GetClusterGroup :: "('d, 'w) client \<Rightarrow> ('d, 'w) groupOption list \<Rightarrow>
    (('d, 'w) cstate, ('d, 'w) ClusterGroup) prog" where
  "GetClusterGroup cli opts =
     bindP newGroupState (\<lambda>addr.
       applyGroupOptions opts
         \<lparr>grpCh = cliCh cli, grpMarsh = cliEnv cli, grpProjection = Projection [], grpAddr = addr\<rparr>)"

text \<open>The condition is the one of the code.\<close>

definition checkClusterApiSupportedByServer :: "ProtocolContext \<Rightarrow> writer" where
  "checkClusterApiSupportedByServer protoCtx =
     (if \<not> SupportsClusterApi protoCtx \<and> SupportsAttributeFeature protoCtx ClusterStatesFeature
      then failW (ErrMsg ''cluster API is not supported by the server'') else skipW)"

end
