(* ===== verification/ClusterProps.thy ===== *)
theory ClusterProps
  imports Cluster
begin

text \<open>
  What a projection means. Filters of a projection that may be reordered only look at one node at a
  time, so a merged list of filters lets the same nodes pass as the filters applied one by one, in
  the order of the options. The comparison of attribute values is an equivalence on the values that
  Go can compare, apart from a NaN.
\<close>

declare seqW.simps [simp del] unmarshal.simps [simp del]

section \<open>Comparable values\<close>

text \<open>Values of the basic types that fit the wire: comparing them to any value neither panics nor follows
  a pointer.\<close>

fun basicLeaf :: "'d leaf \<Rightarrow> bool" where
  "basicLeaf (LDecimal _) = False" | "basicLeaf (LTimestamp _) = False"
| "basicLeaf (LString s) = small (length s)" | "basicLeaf (LUuid u) = (length u = 16)"
| "basicLeaf (LTime _) = True" | "basicLeaf (LDate _) = True"

definition comparable :: "'d goval \<Rightarrow> bool" where
  "comparable v = (case v of VNil \<Rightarrow> True | VScalar _ \<Rightarrow> True | VLeaf l \<Rightarrow> basicLeaf l | _ \<Rightarrow> False)"

definition sameValue :: "('d goval \<Rightarrow> 'd goval \<Rightarrow> bool res) \<Rightarrow> 'd goval \<Rightarrow> 'd goval \<Rightarrow> bool" where
  "sameValue opaque a b \<longleftrightarrow> ifaceEq opaque a b = Inr True"

lemma comparable_cases:
  assumes "comparable v"
  obtains "v = VNil" | x where "v = VScalar x" | l where "v = VLeaf l" "basicLeaf l"
  using assms by (cases v) (auto simp: comparable_def)

lemma floatEq_sym: "floatEq e f a b \<Longrightarrow> floatEq e f b a"
  by (auto simp: floatEq_def)

lemma floatEq_trans: "floatEq e f a b \<Longrightarrow> floatEq e f b c \<Longrightarrow> floatEq e f a c"
  by (auto simp: floatEq_def)

lemma scalarEq_sym: "scalarEq a b \<Longrightarrow> scalarEq b a"
  by (cases a; cases b) (auto simp: scalarEq_def floatEq_sym)

lemma scalarEq_trans: "scalarEq a b \<Longrightarrow> scalarEq b c \<Longrightarrow> scalarEq a c"
  by (cases a; cases b; simp add: scalarEq_def) (cases c; auto simp: scalarEq_def intro: floatEq_trans)+

lemma leafEq_basic: "basicLeaf a \<Longrightarrow> leafEq opaque a b = Inr (a = b)"
  by (cases a; cases b) auto

lemma ifaceEq_total: "comparable a \<Longrightarrow> ifaceEq opaque a b = Inr (sameValue opaque a b)"
  unfolding sameValue_def
  by (erule comparable_cases; cases b) (auto simp: ifaceEq_def leafEq_basic)

lemma sameValue_comparable: "comparable a \<Longrightarrow> sameValue opaque a b \<Longrightarrow> comparable b"
  unfolding sameValue_def
  by (erule comparable_cases; cases b) (auto simp: ifaceEq_def leafEq_basic comparable_def)

lemma sameValue_sym: "comparable a \<Longrightarrow> sameValue opaque a b \<Longrightarrow> sameValue opaque b a"
  unfolding sameValue_def
  by (erule comparable_cases; cases b) (auto simp: ifaceEq_def leafEq_basic scalarEq_sym)

lemma sameValue_trans:
  "comparable a \<Longrightarrow> sameValue opaque a b \<Longrightarrow> sameValue opaque b c \<Longrightarrow> sameValue opaque a c"
  unfolding sameValue_def
  by (erule comparable_cases; cases b; cases c)
     (auto simp: ifaceEq_def leafEq_basic dest: scalarEq_trans)

section \<open>What a filter lets pass\<close>

definition attrIs :: "('d goval \<Rightarrow> 'd goval \<Rightarrow> bool res) \<Rightarrow> 'd ClusterNode \<Rightarrow> string \<Rightarrow> 'd goval \<Rightarrow> bool" where
  "attrIs opaque n name val \<longleftrightarrow> (case map_of (nodeAttributes n) name of None \<Rightarrow> False | Some v \<Rightarrow> sameValue opaque val v)"

definition hasAttrs :: "('d goval \<Rightarrow> 'd goval \<Rightarrow> bool res) \<Rightarrow> (string \<times> 'd goval) list \<Rightarrow> 'd ClusterNode \<Rightarrow> bool" where
  "hasAttrs opaque attrs n \<longleftrightarrow> (\<forall>(name, val) \<in> set attrs. attrIs opaque n name val)"

definition passes :: "('d goval \<Rightarrow> 'd goval \<Rightarrow> bool res) \<Rightarrow> ('d, 's) clusterNodeFilter \<Rightarrow> 'd ClusterNode \<Rightarrow> bool" where
  "passes opaque f n = (case f of
     BasicFilter _ \<Rightarrow> True
   | PredicateFilter test \<Rightarrow> test n
   | NodeTypeFilter isForClients \<Rightarrow> nodeIsClient n = isForClients
   | NodeAttributesFilter attrs \<Rightarrow> hasAttrs opaque attrs n
   | NodeIdFilter ids \<Rightarrow> nodeId n \<in> ids)"

text \<open>Attributes of a filter are a map, its values comparable.\<close>

definition okAttr :: "string \<times> 'd goval \<Rightarrow> bool" where
  "okAttr p \<longleftrightarrow> small (length (fst p)) \<and> comparable (snd p)"

definition okFilter :: "('d, 's) clusterNodeFilter \<Rightarrow> bool" where
  "okFilter f = (case f of
     NodeAttributesFilter attrs \<Rightarrow> distinct (map fst attrs) \<and> list_all okAttr attrs
   | _ \<Rightarrow> True)"

lemma applyPredicate_Inr: "applyPredicate nodes (\<lambda>n. Inr (P n)) = Inr (filter P nodes)"
  by (induction nodes) auto

lemma hasAttributes_total:
  "list_all okAttr attrs \<Longrightarrow> hasAttributes opaque attrs = (\<lambda>n. Inr (hasAttrs opaque attrs n))"
  by (induction attrs) (auto simp: hasAttrs_def attrIs_def okAttr_def ifaceEq_total fun_eq_iff split: option.split)

lemma passes_simps:
  "passes opaque (PredicateFilter test) = test"
  "passes opaque (NodeTypeFilter c) = (\<lambda>n. nodeIsClient n = c)"
  "passes opaque (NodeAttributesFilter attrs) = hasAttrs opaque attrs"
  "passes opaque (NodeIdFilter ids) = (\<lambda>n. nodeId n \<in> ids)"
  by (simp_all add: passes_def fun_eq_iff)

lemma filterApply_passes:
  "okFilter f \<Longrightarrow> isReorderingAllowed f \<Longrightarrow>
    filterApply opaque f nodes = returnP (filter (passes opaque f) nodes)"
  by (cases f) (simp_all add: passes_simps okFilter_def isReorderingAllowed_def hasAttributes_total
      applyPredicate_Inr returnP_def)

section \<open>Merging\<close>

lemma hasAttrs_map:
  "distinct (map fst attrs) \<Longrightarrow>
    hasAttrs opaque attrs n \<longleftrightarrow> (\<forall>name val. map_of attrs name = Some val \<longrightarrow> attrIs opaque n name val)"
  by (auto simp: hasAttrs_def)

lemma hasAttrs_simps [simp]:
  "hasAttrs opaque [] n"
  "hasAttrs opaque ((k, v) # attrs) n \<longleftrightarrow> attrIs opaque n k v \<and> hasAttrs opaque attrs n"
  by (auto simp: hasAttrs_def)

lemma attrIs_same:
  assumes "comparable v" and "comparable w" and "sameValue opaque v w"
  shows "attrIs opaque n k v \<longleftrightarrow> attrIs opaque n k w"
proof -
  have "sameValue opaque v x \<longleftrightarrow> sameValue opaque w x" for x
    using sameValue_trans [OF assms(2) sameValue_sym [OF assms(1,3)]] sameValue_trans [OF assms(1,3)] by blast
  then show ?thesis by (simp add: attrIs_def split: option.split)
qed

lemma attrIs_unique:
  assumes "comparable v" and "comparable w" and "attrIs opaque n k v" and "attrIs opaque n k w"
  shows "sameValue opaque v w"
proof -
  obtain x where "sameValue opaque v x" "sameValue opaque w x"
    using assms(3,4) by (auto simp: attrIs_def split: option.splits)
  then show ?thesis by (blast intro: sameValue_trans [OF assms(1)] sameValue_sym [OF assms(2)])
qed

lemma hasAttrs_update:
  assumes "distinct (map fst attrs)" and "list_all okAttr attrs" and "comparable w"
    and "case map_of attrs k of None \<Rightarrow> True | Some v \<Rightarrow> sameValue opaque v w"
  shows "hasAttrs opaque (AList.update k w attrs) n \<longleftrightarrow> hasAttrs opaque attrs n \<and> attrIs opaque n k w"
proof -
  have d: "distinct (map fst (AList.update k w attrs))" using assms(1) by (rule distinct_update)
  show ?thesis
  proof (cases "map_of attrs k")
    case None
    then show ?thesis unfolding hasAttrs_map [OF d] hasAttrs_map [OF assms(1)] update_conv' by (auto split: if_splits)
  next
    case (Some v)
    then have "comparable v" using map_of_SomeD [OF Some] assms(2) by (auto simp: list_all_iff okAttr_def)
    then have "attrIs opaque n k v \<longleftrightarrow> attrIs opaque n k w" using assms(3,4) Some by (simp add: attrIs_same)
    then show ?thesis unfolding hasAttrs_map [OF d] hasAttrs_map [OF assms(1)] update_conv'
      using Some by (auto split: if_splits)
  qed
qed

lemma list_all_update: "list_all P xs \<Longrightarrow> P (k, w) \<Longrightarrow> list_all P (AList.update k w xs)"
  by (induction xs) auto

definition merges :: "('f \<Rightarrow> bool) \<Rightarrow> ('f \<Rightarrow> 'd ClusterNode \<Rightarrow> bool) \<Rightarrow> 'f \<Rightarrow> 'f \<Rightarrow> 'f merged \<Rightarrow> bool" where
  "merges ok pass f g m = (case m of
     NotMerged \<Rightarrow> True
   | MergedEmpty \<Rightarrow> (\<forall>n. \<not> (pass f n \<and> pass g n))
   | Merged h \<Rightarrow> ok h \<and> (\<forall>n. pass h n \<longleftrightarrow> pass f n \<and> pass g n))"

abbreviation okAttrs :: "(string \<times> 'd goval) list \<Rightarrow> bool" where
  "okAttrs attrs \<equiv> distinct (map fst attrs) \<and> list_all okAttr attrs"

lemma mergeAttributes_merges:
  "okAttrs attrs \<Longrightarrow> list_all okAttr others \<Longrightarrow>
    \<exists>m. mergeAttributes opaque attrs others = Inr m \<and> m \<noteq> NotMerged \<and>
      merges okAttrs (hasAttrs opaque) attrs others m"
proof (induction opaque attrs others rule: mergeAttributes.induct)
  case (1 opaque attrs)
  then show ?case by (simp add: merges_def)
next
  case (2 opaque attrs k w others)
  have kw: "okAttr (k, w)" and oth: "list_all okAttr others" using 2(3) by simp_all
  then have w: "comparable w" by (simp add: okAttr_def)
  have c: "comparable v" if "map_of attrs k = Some v" for v
    using map_of_SomeD [OF that] 2(2) by (auto simp: list_all_iff okAttr_def)
  let ?eq = "case map_of attrs k of None \<Rightarrow> True | Some v \<Rightarrow> sameValue opaque v w"
  have e: "(case map_of attrs k of None \<Rightarrow> Inr True | Some val \<Rightarrow> ifaceEq opaque val w) = Inr ?eq"
    using c by (auto simp: ifaceEq_total split: option.split)
  show ?case
  proof (cases ?eq)
    case True
    have ok: "okAttrs (AList.update k w attrs)" using 2(2) kw by (simp add: distinct_update list_all_update)
    obtain m where m: "mergeAttributes opaque (AList.update k w attrs) others = Inr m" "m \<noteq> NotMerged"
      "merges okAttrs (hasAttrs opaque) (AList.update k w attrs) others m"
      using 2(1) [of True, OF _ ok oth] by auto
    have "hasAttrs opaque (AList.update k w attrs) n \<longleftrightarrow> hasAttrs opaque attrs n \<and> attrIs opaque n k w" for n
      by (rule hasAttrs_update) (use 2(2) w True in auto)
    then have "merges okAttrs (hasAttrs opaque) attrs ((k, w) # others) m"
      using m(3) by (auto simp: merges_def split: merged.splits)
    then show ?thesis using m e True by simp
  next
    case False
    then obtain v where v: "map_of attrs k = Some v" "\<not> sameValue opaque v w" by (auto split: option.splits)
    have "attrIs opaque n k v" if "hasAttrs opaque attrs n" for n
      using that map_of_SomeD [OF v(1)] by (auto simp: hasAttrs_def)
    then have "\<not> (hasAttrs opaque attrs n \<and> hasAttrs opaque ((k, w) # others) n)" for n
      using attrIs_unique [OF c [OF v(1)] w] v(2) by auto
    then show ?thesis using e False by (simp add: merges_def)
  qed
qed

lemma mergeFilter_merges:
  assumes "okFilter f" and "okFilter g"
  shows "\<exists>m. mergeFilter opaque f g = Inr m \<and> merges (\<lambda>h. okFilter h \<and> isReorderingAllowed h) (passes opaque) f g m"
proof (cases "\<exists>xs ys. f = NodeAttributesFilter xs \<and> g = NodeAttributesFilter ys")
  case True
  then obtain xs ys where fg: "f = NodeAttributesFilter xs" "g = NodeAttributesFilter ys" by blast
  obtain m where "mergeAttributes opaque xs ys = Inr m" "m \<noteq> NotMerged" "merges okAttrs (hasAttrs opaque) xs ys m"
    using mergeAttributes_merges [of xs ys opaque] assms fg by (auto simp: okFilter_def)
  then show ?thesis
    unfolding fg by (cases m) (auto simp: merges_def passes_def okFilter_def isReorderingAllowed_def)
next
  case False
  then show ?thesis
    by (cases f; cases g) (auto simp: merges_def passes_def okFilter_def isReorderingAllowed_def Let_def)
qed

section \<open>Filters one by one\<close>

text \<open>The reference: each filter of the options applied in turn, while there are nodes left. A nil filter
  lets nothing pass.\<close>

fun applyEach :: "('d goval \<Rightarrow> 'd goval \<Rightarrow> bool res) \<Rightarrow> ('d, 's) clusterNodeFilter option list \<Rightarrow>
    'd ClusterNode list \<Rightarrow> ('s, 'd ClusterNode list) prog" where
  "applyEach opaque [] nodes = returnP nodes"
| "applyEach opaque (None # flts) nodes = returnP []"
| "applyEach opaque (Some f # flts) nodes =
     (if nodes = [] then returnP [] else bindP (filterApply opaque f nodes) (applyEach opaque flts))"

definition runFilters :: "('d goval \<Rightarrow> 'd goval \<Rightarrow> bool res) \<Rightarrow> ('d, 's) clusterNodeFilter list \<Rightarrow>
    'd ClusterNode list \<Rightarrow> ('s, 'd ClusterNode list) prog" where
  "runFilters opaque fs = applyEach opaque (map Some fs)"

lemma runFilters_simps [simp]:
  "runFilters opaque [] nodes = returnP nodes"
  "runFilters opaque (f # fs) nodes =
     (if nodes = [] then returnP [] else bindP (filterApply opaque f nodes) (runFilters opaque fs))"
  by (simp_all add: runFilters_def [abs_def])

lemma applyEach_empty: "applyEach opaque flts [] = returnP []"
  by (cases flts; cases "hd flts") auto

lemma runFilters_empty [simp]: "runFilters opaque fs [] = returnP []"
  by (simp add: runFilters_def applyEach_empty)

lemma applyFilters_run: "nodes \<noteq> [] \<Longrightarrow> applyFilters opaque fs nodes = runFilters opaque fs nodes"
proof (induction fs arbitrary: nodes)
  case (Cons f fs)
  have "(\<lambda>nodes. if nodes = [] then returnP nodes else applyFilters opaque fs nodes) = runFilters opaque fs"
    using Cons.IH by (intro ext) simp
  then show ?case using Cons.prems by simp
qed simp

lemma projectionApply_run: "projectionApply opaque p nodes = runFilters opaque (projFilters p) nodes"
  by (simp add: projectionApply_def applyFilters_run)

lemma applyEach_append:
  "applyEach opaque (xs @ ys) nodes = bindP (applyEach opaque xs nodes) (applyEach opaque ys)"
proof (induction opaque xs nodes rule: applyEach.induct)
  case (3 opaque f xs nodes)
  have "applyEach opaque (xs @ ys) = (\<lambda>ns. bindP (applyEach opaque xs ns) (applyEach opaque ys))" if "nodes \<noteq> []"
    by (rule ext) (rule 3 [OF that])
  then show ?case by (cases "nodes = []") (simp_all add: bindP_assoc applyEach_empty del: runP_simps)
qed (simp_all add: applyEach_empty del: runP_simps)

lemma runFilters_append:
  "runFilters opaque (xs @ ys) nodes = bindP (runFilters opaque xs nodes) (runFilters opaque ys)"
  by (simp add: runFilters_def [abs_def] applyEach_append)

text \<open>A stretch of filters that may be reordered selects nodes, in their order.\<close>

definition movable :: "('d, 's) clusterNodeFilter \<Rightarrow> bool" where
  "movable f \<longleftrightarrow> okFilter f \<and> isReorderingAllowed f"

lemma run_movable:
  "list_all movable fs \<Longrightarrow>
    runFilters opaque fs nodes = returnP (filter (\<lambda>n. \<forall>f \<in> set fs. passes opaque f n) nodes)"
  by (induction fs arbitrary: nodes)
     (auto simp: movable_def filterApply_passes filter_filter conj_commute intro!: arg_cong [where f = returnP] filter_cong)

text \<open>Where the search back puts the new filter: into one that may be reordered, past others of the kind.\<close>

definition mergedAt :: "('d goval \<Rightarrow> 'd goval \<Rightarrow> bool res) \<Rightarrow> ('d, 's) clusterNodeFilter list \<Rightarrow> ('d, 's) clusterNodeFilter \<Rightarrow>
    ('d, 's) clusterNodeFilter list merged \<Rightarrow> bool" where
  "mergedAt opaque fs f m = (case m of
     NotMerged \<Rightarrow> True
   | MergedEmpty \<Rightarrow> \<exists>xs p ys. fs = xs @ p # ys \<and> list_all movable (p # xs) \<and>
       (\<forall>n. \<not> (passes opaque p n \<and> passes opaque f n))
   | Merged gs \<Rightarrow> \<exists>xs p ys h. fs = xs @ p # ys \<and> gs = xs @ h # ys \<and> list_all movable (p # h # xs) \<and>
       (\<forall>n. passes opaque h n \<longleftrightarrow> passes opaque p n \<and> passes opaque f n))"

lemma mergedAt_head:
  assumes "movable p" and "merges (\<lambda>h. okFilter h \<and> isReorderingAllowed h) (passes opaque) p f m"
  shows "m = MergedEmpty \<Longrightarrow> mergedAt opaque (p # before) f MergedEmpty"
    and "m = Merged h \<Longrightarrow> mergedAt opaque (p # before) f (Merged (h # before))"
  unfolding mergedAt_def using assms
  by (auto simp: merges_def movable_def intro!: exI [of _ "[]"])

lemma mergedAt_Cons:
  assumes "movable p"
  shows "mergedAt opaque before f MergedEmpty \<Longrightarrow> mergedAt opaque (p # before) f MergedEmpty"
    and "mergedAt opaque before f (Merged gs) \<Longrightarrow> mergedAt opaque (p # before) f (Merged (p # gs))"
proof -
  assume "mergedAt opaque before f MergedEmpty"
  then obtain xs q ys where "before = xs @ q # ys" "list_all movable (q # xs)"
    "\<forall>n. \<not> (passes opaque q n \<and> passes opaque f n)" by (auto simp: mergedAt_def)
  with assms show "mergedAt opaque (p # before) f MergedEmpty"
    unfolding mergedAt_def merged.case by (intro exI [of _ "p # xs"] exI [of _ q] exI [of _ ys]) simp
next
  assume "mergedAt opaque before f (Merged gs)"
  then obtain xs q ys h where "before = xs @ q # ys" "gs = xs @ h # ys" "list_all movable (q # h # xs)"
    "\<forall>n. passes opaque h n \<longleftrightarrow> passes opaque q n \<and> passes opaque f n" by (auto simp: mergedAt_def)
  with assms show "mergedAt opaque (p # before) f (Merged (p # gs))"
    unfolding mergedAt_def merged.case
    by (intro exI [of _ "p # xs"] exI [of _ q] exI [of _ ys] exI [of _ h]) simp
qed

lemma mergeBack_mergedAt:
  "list_all okFilter fs \<Longrightarrow> okFilter f \<Longrightarrow> \<exists>m. mergeBack opaque fs f = Inr m \<and> mergedAt opaque fs f m"
proof (induction fs)
  case (Cons p before)
  show ?case
  proof (cases "isReorderingAllowed p")
    case True
    obtain m where m: "mergeFilter opaque p f = Inr m"
      "merges (\<lambda>h. okFilter h \<and> isReorderingAllowed h) (passes opaque) p f m"
      using mergeFilter_merges [of p f opaque] Cons.prems by auto
    have p: "movable p" using True Cons.prems by (simp add: movable_def)
    obtain m' where m': "mergeBack opaque before f = Inr m'" "mergedAt opaque before f m'" using Cons by auto
    show ?thesis
    proof (cases m)
      case NotMerged
      then show ?thesis using m(1) m' True mergedAt_Cons [OF p]
        by (cases m') (simp_all add: mergedAt_def [of _ _ _ NotMerged])
    qed (use m True mergedAt_head [OF p m(2)] in simp_all)
  qed (simp add: mergedAt_def)
qed (simp add: mergedAt_def)

text \<open>A projection stands for the options it was made from.\<close>

definition represents :: "('d goval \<Rightarrow> 'd goval \<Rightarrow> bool res) \<Rightarrow> ('d, 's) projection \<Rightarrow>
    ('d, 's) clusterNodeFilter option list \<Rightarrow> bool" where
  "represents opaque p flts = (case p of
     Projection fs \<Rightarrow> list_all okFilter fs \<and> (\<forall>nodes. runFilters opaque fs nodes = applyEach opaque flts nodes)
   | EmptyProjection \<Rightarrow> \<forall>nodes s r s'. applyEach opaque flts nodes s = (Inr r, s') \<longrightarrow> r = [])"

lemma run_merged:
  assumes "list_all movable (p # h # xs)" and "movable f"
    and "\<forall>n. passes opaque h n \<longleftrightarrow> passes opaque p n \<and> passes opaque f n"
  shows "runFilters opaque (ys @ h # xs) nodes = runFilters opaque (ys @ p # xs @ [f]) nodes"
proof -
  have h: "list_all movable (h # xs)" and p: "list_all movable (p # xs @ [f])" using assms by simp_all
  have "runFilters opaque (h # xs) = runFilters opaque (p # xs @ [f])"
    unfolding fun_eq_iff run_movable [OF h] run_movable [OF p] using assms(3)
    by (auto intro!: arg_cong [where f = "\<lambda>ns. returnP ns _"] filter_cong)
  then show ?thesis by (simp add: runFilters_append)
qed

lemma run_contradiction:
  assumes "list_all movable (p # xs)" and "movable f" and "\<forall>n. \<not> (passes opaque p n \<and> passes opaque f n)"
  shows "runFilters opaque (p # xs @ [f]) nodes = returnP []"
proof -
  have "list_all movable (p # xs @ [f])" using assms by simp
  moreover have "filter (\<lambda>n. \<forall>g \<in> set (p # xs @ [f]). passes opaque g n) nodes = []"
    using assms(3) by (auto simp: filter_empty_conv)
  ultimately show ?thesis by (simp only: run_movable)
qed

lemma appendFilter_represents:
  assumes "represents opaque p flts" and "case flt of None \<Rightarrow> True | Some f \<Rightarrow> okFilter f"
  shows "\<exists>p'. appendFilter opaque p flt = Inr p' \<and> represents opaque p' (flts @ [flt])"
proof (cases p)
  case EmptyProjection
  then have "r = []" if "applyEach opaque (flts @ [flt]) nodes s = (Inr r, s')" for nodes s r s'
    using that assms(1) unfolding applyEach_append bindP_Inr_iff represents_def
    by (fastforce simp: applyEach_empty)
  then show ?thesis using EmptyProjection by (simp add: appendFilter_def represents_def)
next
  case (Projection fs)
  have fs: "list_all okFilter fs" and run: "runFilters opaque fs nodes = applyEach opaque flts nodes" for nodes
    using assms(1) Projection by (auto simp: represents_def)
  have app: "applyEach opaque (flts @ [Some f]) nodes = runFilters opaque (fs @ [f]) nodes" for f nodes
    unfolding applyEach_append runFilters_append run by (simp add: runFilters_def)
  show ?thesis
  proof (cases flt)
    case None
    have "r = []" if "applyEach opaque (flts @ [None]) nodes s = (Inr r, s')" for nodes s r s'
      using that unfolding applyEach_append bindP_Inr_iff by auto
    then show ?thesis using Projection None by (simp add: appendFilter_def represents_def)
  next
    case (Some f)
    have f: "okFilter f" using assms(2) Some by simp
    have plainly: "represents opaque (Projection (fs @ [f])) (flts @ [Some f])"
      using fs f app by (simp add: represents_def)
    show ?thesis
    proof (cases "isReorderingAllowed f")
      case True
      have mf: "movable f" using True f by (simp add: movable_def)
      obtain m where m: "mergeBack opaque (rev fs) f = Inr m" "mergedAt opaque (rev fs) f m"
        using mergeBack_mergedAt [of "rev fs" f opaque] fs f by auto
      show ?thesis
      proof (cases m)
        case NotMerged
        then show ?thesis using Projection Some True m(1) plainly by (simp add: appendFilter_def)
      next
        case MergedEmpty
        then obtain xs q ys where d: "rev fs = xs @ q # ys" "list_all movable (q # xs)"
          "\<forall>n. \<not> (passes opaque q n \<and> passes opaque f n)" using m(2) by (auto simp: mergedAt_def)
        have fs': "fs = rev ys @ q # rev xs" using d(1) by (metis rev_rev_ident rev_append rev.simps(2) append.assoc append_Cons append_Nil)
        have "r = []" if "applyEach opaque (flts @ [Some f]) nodes s = (Inr r, s')" for nodes s r s'
        proof -
          have "runFilters opaque (rev ys @ q # rev xs @ [f]) nodes s = (Inr r, s')"
            using that unfolding app fs' by simp
          moreover have "runFilters opaque (q # rev xs @ [f]) = (\<lambda>nodes. returnP [])"
            by (rule ext, rule run_contradiction) (use d mf in auto)
          ultimately show ?thesis unfolding runFilters_append by (auto simp: bindP_Inr_iff)
        qed
        then show ?thesis using Projection Some True m(1) MergedEmpty by (simp add: appendFilter_def represents_def)
      next
        case (Merged gs)
        then obtain xs q ys h where d: "rev fs = xs @ q # ys" "gs = xs @ h # ys" "list_all movable (q # h # xs)"
          "\<forall>n. passes opaque h n \<longleftrightarrow> passes opaque q n \<and> passes opaque f n" using m(2) by (auto simp: mergedAt_def)
        have fs': "fs = rev ys @ q # rev xs" using d(1) by (metis rev_rev_ident rev_append rev.simps(2) append.assoc append_Cons append_Nil)
        have "runFilters opaque (rev gs) nodes = runFilters opaque (fs @ [f]) nodes" for nodes
          unfolding fs' d(2) using run_merged [of q h "rev xs" f opaque "rev ys" nodes] d(3,4) mf by simp
        moreover have "list_all okFilter (rev gs)" using fs d by (auto simp: fs' movable_def)
        ultimately show ?thesis
          using Projection Some True m(1) Merged app by (simp add: appendFilter_def represents_def)
      qed
    qed (use Projection Some plainly in \<open>simp add: appendFilter_def\<close>)
  qed
qed

end
