(* ===== verification/ClusterWire.thy ===== *)
theory ClusterWire
  imports ClusterProps CacheConfigProps
begin

text \<open>
  The bytes of the cluster group requests and of the nodes in their responses: what the request for
  node ids says of the filters, and that a node on the wire is read back in canonical form.
\<close>

declare seqW.simps [simp del] unmarshal.simps [simp del]

section \<open>Filters\<close>

definition attrBytes :: "'d apd \<Rightarrow> string \<times> 'd goval \<Rightarrow> byte list" where
  "attrBytes A p = encI16 attributeFilterType @ encString (fst p) @ encode A (snd p)"

definition filterBytes :: "'d apd \<Rightarrow> ('d, 's) clusterNodeFilter \<Rightarrow> byte list" where
  "filterBytes A f = (case f of
     NodeTypeFilter c \<Rightarrow> encI16 nodeTypeFilterType @ [boolByte (\<not> c)]
   | NodeAttributesFilter attrs \<Rightarrow> concat (map (attrBytes A) attrs)
   | _ \<Rightarrow> [])"

definition onServerSide :: "('d, 's) clusterNodeFilter \<Rightarrow> bool" where
  "onServerSide f = (case f of NodeTypeFilter _ \<Rightarrow> True | NodeAttributesFilter _ \<Rightarrow> True | _ \<Rightarrow> False)"

text \<open>The filters the request carries: those of the kinds the server knows, before the first that
  must keep its place.\<close>

definition sentFilters :: "('d, 's) projection \<Rightarrow> ('d, 's) clusterNodeFilter list" where
  "sentFilters p = filter onServerSide (takeWhile isReorderingAllowed (projFilters p))"

definition plainFilter :: "'d apd \<Rightarrow> ('d \<Rightarrow> bool) \<Rightarrow> ('d, 's) clusterNodeFilter \<Rightarrow> bool" where
  "plainFilter A fin f = (case f of
     NodeAttributesFilter attrs \<Rightarrow> list_all (\<lambda>p. small (length (fst p)) \<and> plain A fin (snd p)) attrs
   | _ \<Rightarrow> True)"

lemma writeFilter_bytes:
  assumes "apd_ok (envApd env) fin" and "plainFilter (envApd env) fin f" and "onServerSide f"
  shows "\<exists>w. writeFilter env f = Some w \<and> mwrites w (filterBytes (envApd env) f)"
proof (cases f)
  case (NodeTypeFilter c)
  have "writes (seqW [WriteInt16 nodeTypeFilterType, WriteBool (\<not> c)])
      (encI16 nodeTypeFilterType @ [boolByte (\<not> c)])"
    by (rule writes_two) (simp_all add: wire writes_i16)
  then show ?thesis using NodeTypeFilter by (simp add: writeFilter_def filterBytes_def mwrites_lift)
next
  case (NodeAttributesFilter attrs)
  have "mwrites (writeAttribute env p) (attrBytes (envApd env) p)" if "p \<in> set attrs" for p
  proof -
    have h: "writes (seqW [WriteInt16 attributeFilterType, marshalString (fst p)])
        (encI16 attributeFilterType @ encString (fst p))"
      unfolding encString_def by (rule writes_two) (simp_all add: wire writes_i16)
    have "mwrites (marshal env (snd p)) (encode (envApd env) (snd p))"
      using assms that NodeAttributesFilter by (intro mwrites_marshal) (auto simp: plainFilter_def list_all_iff)
    from mwrites_then [OF mwrites_lift [OF h] this] show ?thesis
      unfolding writeAttribute_def attrBytes_def by simp
  qed
  then show ?thesis using NodeAttributesFilter by (simp add: writeFilter_def filterBytes_def mwrites_each)
qed (use assms in \<open>simp_all add: onServerSide_def\<close>)

lemma writeFilter_None: "\<not> onServerSide f \<Longrightarrow> writeFilter env f = None"
  by (cases f) (simp_all add: onServerSide_def writeFilter_def)

lemma writeFilters_run:
  assumes "apd_ok (envApd env) fin" and "list_all (plainFilter (envApd env) fin) fs" and "wf_out bw"
  shows "writeFilters env fs cnt bw s =
    (let ws = filter onServerSide (takeWhile isReorderingAllowed fs)
     in (bindE (put (concat (map (filterBytes (envApd env)) ws)) bw) (\<lambda>bw'. Inr (cnt + length ws, bw')), s))"
  using assms(2,3)
proof (induction fs arbitrary: cnt bw)
  case Nil
  then show ?case by (simp add: put_Nil)
next
  case (Cons f fs)
  show ?case
  proof (cases "isReorderingAllowed f \<and> onServerSide f")
    case True
    obtain w where w: "writeFilter env f = Some w" "mwrites w (filterBytes (envApd env) f)"
      using writeFilter_bytes [OF assms(1)] True Cons.prems by auto
    let ?ws = "filter onServerSide (takeWhile isReorderingAllowed fs)"
    let ?rest = "concat (map (filterBytes (envApd env)) ?ws)"
    have app: "bindE (put (filterBytes (envApd env) f) bw) (put ?rest) = put (filterBytes (envApd env) f @ ?rest) bw"
      by (rule put_append [OF Cons.prems(2)])
    show ?thesis
    proof (cases "put (filterBytes (envApd env) f) bw")
      case (Inl e)
      then show ?thesis using True w mwritesD [OF w(2) Cons.prems(2)] app [symmetric] by (simp add: bindP_def)
    next
      case (Inr bw')
      have "wf_out bw'" by (rule wf_out_put [OF Cons.prems(2) Inr])
      with Inr show ?thesis
        using True w mwritesD [OF w(2) Cons.prems(2)] app [symmetric] Cons.IH [of bw' "Suc cnt"] Cons.prems(1)
        by (simp add: bindP_def Let_def)
    qed
  next
    case False
    then show ?thesis using Cons.prems Cons.IH by (auto simp: writeFilter_None put_Nil)
  qed
qed

text \<open>The count is that of the filters; an attribute filter writes one entry for each of its attributes.\<close>

definition filtersBytes :: "'d apd \<Rightarrow> ('d, 's) projection \<Rightarrow> byte list" where
  "filtersBytes A p = lenBytes (length (sentFilters p)) @ concat (map (filterBytes A) (sentFilters p))"

lemma mwrites_serverSideFilters:
  assumes "apd_ok (envApd env) fin" and "list_all (plainFilter (envApd env) fin) (projFilters p)"
  shows "mwrites (writeServerSideFilters env p) (filtersBytes (envApd env) p)"
  unfolding mwrites_def
proof (intro allI impI)
  fix bw s assume wf: "wf_out bw"
  obtain h0 where h0: "length h0 = 4" "seqW [EnsureAvailable 4, SetPositionO (opos bw + 4)] bw = put h0 bw"
    by (rule reserve_four [OF wf])
  let ?ws = "sentFilters p" and ?body = "concat (map (filterBytes (envApd env)) (sentFilters p))"
  let ?f = "\<lambda>bw. bindP (liftW (seqW [EnsureAvailable intBytes, SetPositionO (opos bw + intBytes)]) bw)
      (\<lambda>bw. bindP (writeFilters env (projFilters p) 0 bw) (\<lambda>(cnt, bw'). returnP bw'))"
  have run: "writeFilters env (projFilters p) 0 b s =
      (bindE (put ?body b) (\<lambda>b'. Inr (length ?ws, b')), s)" if "wf_out b" for b
    using writeFilters_run [OF assms that, of 0 s] by (simp add: Let_def sentFilters_def)
  have f: "?f bw s = (put (h0 @ ?body) bw, s)"
  proof (cases "put h0 bw")
    case (Inl e)
    then have "put (h0 @ ?body) bw = Inl e" using put_append [OF wf, of h0 ?body] by simp
    then show ?thesis by (simp add: bindP_def liftW_def size_defs h0(2) Inl)
  next
    case (Inr b)
    have "bindE (put ?body b) (\<lambda>b'. Inr b') = put ?body b" by (cases "put ?body b") simp_all
    moreover have "put (h0 @ ?body) bw = put ?body b" using put_append [OF wf, of h0 ?body] Inr by simp
    ultimately show ?thesis
      using run [OF wf_out_put [OF wf Inr]]
      by (cases "put ?body b") (simp_all add: bindP_def liftW_def size_defs h0(2) Inr)
  qed
  have "writeServerSideFilters env p bw s =
      bindP (?f bw) (\<lambda>bw'. liftW (seqW [SetPositionO (opos bw), WriteInt32 (word_of_nat (length ?ws)), SetPositionO (opos bw')]) bw') s"
  proof (cases "put h0 bw")
    case (Inl e)
    then show ?thesis using h0(2) by (simp add: writeServerSideFilters_def bindP_def liftW_def size_defs Let_def)
  next
    case (Inr b)
    then show ?thesis
      using h0(2) run [OF wf_out_put [OF wf Inr]]
      by (cases "put ?body b") (simp_all add: writeServerSideFilters_def bindP_def liftW_def size_defs Let_def)
  qed
  also have "\<dots> = (put (encI32 (word_of_nat (length ?ws)) @ ?body) bw, s)"
    by (rule backpatch_run [where f = ?f and g = "\<lambda>_. word_of_nat (length ?ws)", OF wf f h0(1) refl])
  finally show "writeServerSideFilters env p bw s = (put (filtersBytes (envApd env) p) bw, s)"
    by (simp add: filtersBytes_def lenBytes_def encI32_def)
qed

section \<open>Nodes\<close>

definition versionBytes :: "NodeVersion \<Rightarrow> byte list" where
  "versionBytes v = [nvMajor v, nvMinor v, nvMaintenance v] @ encString (nvStage v) @ encI64 (nvTimestamp v) @
     typeCode ByteArrayType # encBytes (nvHash v)"

definition stringsBytes :: "byte \<Rightarrow> string list \<Rightarrow> byte list" where
  "stringsBytes kind xs = kindHeadBytes CollectionType (length xs) kind @ concat (map encString xs)"

text \<open>A node as a server writes it; the collections have some kind, the daemon flag some value.\<close>

definition nodeBytes :: "'d apd \<Rightarrow> byte \<Rightarrow> bool \<Rightarrow> 'd ClusterNode \<Rightarrow> byte list" where
  "nodeBytes A kind daemon n =
     (typeCode UuidType # encUuid (nodeId n)) @
     (lenBytes (length (nodeAttributes n)) @ concat (map (\<lambda>p. encString (fst p) @ encode A (snd p)) (nodeAttributes n))) @
     stringsBytes kind (nodeAddresses n) @ stringsBytes kind (nodeHostNames n) @
     encI64 (nodeOrder n) @ [boolByte (nodeIsLocal n)] @ [boolByte daemon] @ [boolByte (nodeIsClient n)] @
     encode A (nodeConsistentId n) @ versionBytes (nodeVersion n)"

definition okStrings :: "string list \<Rightarrow> bool" where
  "okStrings xs \<longleftrightarrow> small (length xs) \<and> list_all (\<lambda>s. small (length s)) xs"

definition okNode :: "'d apd \<Rightarrow> ('d \<Rightarrow> bool) \<Rightarrow> 'd ClusterNode \<Rightarrow> bool" where
  "okNode A fin n \<longleftrightarrow> length (nodeId n) = 16 \<and> distinct (map fst (nodeAttributes n)) \<and> small (length (nodeAttributes n)) \<and>
     list_all (\<lambda>p. small (length (fst p)) \<and> plain A fin (snd p)) (nodeAttributes n) \<and>
     okStrings (nodeAddresses n) \<and> okStrings (nodeHostNames n) \<and> plain A fin (nodeConsistentId n) \<and>
     small (length (nvStage (nodeVersion n))) \<and> small (length (nvHash (nodeVersion n)))"

text \<open>What the client makes of it.\<close>

definition canonNode :: "'d ClusterNode \<Rightarrow> 'd ClusterNode" where
  "canonNode n = n\<lparr>nodeConsistentId := canon (nodeConsistentId n),
     nodeAttributes := map (\<lambda>p. (fst p, canon (snd p))) (nodeAttributes n),
     nodeAddresses := sort (nodeAddresses n), nodeHostNames := sort (nodeHostNames n)\<rparr>"

lemma assignAll_strings: "assignAll stringConv (map (\<lambda>s. VLeaf (LString s)) xs) = Inr xs"
  by (induction xs) (simp_all add: stringConv_def)

lemma mreads_readStrings:
  assumes "apd_ok (envApd env) fin" and "okStrings xs"
  shows "mreads (readStrings env) (stringsBytes kind xs) xs"
proof -
  let ?v = "VCollection kind (map (\<lambda>s. VLeaf (LString s)) xs) True"
  have p: "plain (envApd env) fin ?v"
    using assms(2) by (simp add: okStrings_def list_all_iff comp_def)
  have e: "encode (envApd env) ?v = stringsBytes kind xs"
    by (simp add: stringsBytes_def comp_def encString_def [abs_def])
  have c: "canon ?v = ?v" by (simp add: comp_def)
  have "mreads (readStrings env) (encode (envApd env) ?v @ []) xs"
    unfolding readStrings_def
    by (rule mreads_bind [OF mreads_readValue [OF assms(1) p]])
       (simp only: c goval.case ToSlice_def assignAll_strings, simp add: mreads_return)
  then show ?thesis unfolding e by simp
qed

lemma mreads_readNodeAttributes:
  assumes "apd_ok (envApd env) fin" and "distinct (map fst as')" and "small (length as')"
    and "list_all (\<lambda>p. small (length (fst p)) \<and> plain (envApd env) fin (snd p)) as'"
  shows "mreads (readNodeAttributes env)
    (lenBytes (length as') @ concat (map (\<lambda>p. encString (fst p) @ encode (envApd env) (snd p)) as'))
    (map (\<lambda>p. (fst p, canon (snd p))) as')"
proof -
  have 1: "mreads (bindMR (liftR unmarshalString) (\<lambda>key. bindMR (readValue env) (\<lambda>val. returnMR (key, val))))
      (encString (fst p) @ encode (envApd env) (snd p)) (fst p, canon (snd p))" if "p \<in> set as'" for p
    by (rule mreads_bind [OF mreads_lift [OF reads_encString] mreads_bind_return [OF mreads_readValue [OF assms(1)]]])
       (use assms(4) that in \<open>auto simp: list_all_iff\<close>)
  let ?es = "map (\<lambda>p. (fst p, canon (snd p))) as'"
  have 2: "fold (\<lambda>(k, v). AList.update k v) ?es [] = ?es"
    using assms(2) by (subst fold_update_distinct) (simp_all add: comp_def)
  have "mreads (readNodeAttributes env)
      (lenBytes (length as') @ concat (map (\<lambda>p. encString (fst p) @ encode (envApd env) (snd p)) as'))
      (fold (\<lambda>(k, v). AList.update k v) ?es [])"
    unfolding readNodeAttributes_def
    by (rule mreads_bind [OF mreads_lift [OF reads_len]], rule mreads_bind_return)
       (simp add: sint_small assms(3) mreads_many 1)
  then show ?thesis unfolding 2 .
qed

lemma reads_readNodeVersion:
  "small (length (nvStage v)) \<Longrightarrow> small (length (nvHash v)) \<Longrightarrow> reads readNodeVersion (versionBytes v) v"
  unfolding readNodeVersion_def versionBytes_def
  by (rule reads_cong,
      rule reads_bind [OF reads_prims(2)], rule reads_bind [OF reads_prims(2)], rule reads_bind [OF reads_prims(2)],
      rule reads_bind [OF reads_encString], assumption, rule reads_bind [OF reads_words(1)],
      rule reads_bind_return [OF reads_unmarshalByteArray], assumption) (simp, cases v, simp)

lemma mreads_readClusterNode:
  assumes "apd_ok (envApd env) fin" and "okNode (envApd env) fin n"
  shows "mreads (readClusterNode env) (nodeBytes (envApd env) kind daemon n) (canonNode n)"
proof -
  have ok: "length (nodeId n) = 16" "okStrings (nodeAddresses n)" "okStrings (nodeHostNames n)"
    "plain (envApd env) fin (nodeConsistentId n)" "small (length (nvStage (nodeVersion n)))"
    "small (length (nvHash (nodeVersion n)))" using assms(2) by (simp_all add: okNode_def)
  have a: "mreads (readNodeAttributes env)
      (lenBytes (length (nodeAttributes n)) @
       concat (map (\<lambda>p. encString (fst p) @ encode (envApd env) (snd p)) (nodeAttributes n)))
      (map (\<lambda>p. (fst p, canon (snd p))) (nodeAttributes n))"
    using assms(2) by (intro mreads_readNodeAttributes [OF assms(1)]) (simp_all add: okNode_def)
  show ?thesis
    unfolding readClusterNode_def nodeBytes_def
    by (rule mreads_cong,
        rule mreads_bind [OF mreads_lift [OF reads_unmarshalUuid [OF ok(1)]]], rule mreads_bind [OF a],
        rule mreads_bind [OF mreads_readStrings [OF assms(1) ok(2)]], rule mreads_bind [OF mreads_readStrings [OF assms(1) ok(3)]],
        rule mreads_bind [OF mreads_lift [OF reads_words(1)]], rule mreads_bind [OF mreads_lift [OF reads_prims(3)]],
        rule mreads_bind [OF mreads_lift [OF reads_prims(3)]], rule mreads_bind [OF mreads_lift [OF reads_prims(3)]],
        rule mreads_bind [OF mreads_readValue [OF assms(1) ok(4)]],
        rule mreads_bind_return [OF mreads_lift [OF reads_readNodeVersion [OF ok(5,6)]]])
       (simp, cases n, simp add: canonNode_def)
qed

end
