(* ===== verification/ClusterGroups.thy ===== *)
theory ClusterGroups
  imports ClusterWire
begin

text \<open>
  Cluster groups over a server: the nodes a group returns are the nodes of the topology that pass its
  filters, whatever the filters the server applies itself, and the cache of nodes stays in step with
  the topology. The server is a parameter; \<open>servesTopology\<close> states what it answers.
\<close>

declare seqW.simps [simp del] unmarshal.simps [simp del]

section \<open>What the server answers\<close>

definition idsBytes :: "uuid list \<Rightarrow> byte list" where
  "idsBytes ids = lenBytes (length ids) @ concat (map encUuid ids)"

definition nodeIds :: "'d ClusterNode list \<Rightarrow> uuid set" where
  "nodeIds ns = nodeId ` set ns"

definition passesSent :: "('d goval \<Rightarrow> 'd goval \<Rightarrow> bool res) \<Rightarrow> ('d, 's) projection \<Rightarrow> 'd ClusterNode \<Rightarrow> bool" where
  "passesSent opaque p n \<longleftrightarrow> (\<forall>f \<in> set (sentFilters p). passes opaque f n)"

text \<open>A topology: nodes that can be sent, each with an id of its own.\<close>

definition okTopology :: "'d apd \<Rightarrow> ('d \<Rightarrow> bool) \<Rightarrow> 'd ClusterNode list \<Rightarrow> bool" where
  "okTopology A fin ns \<longleftrightarrow> (\<forall>n \<in> set ns. okNode A fin n) \<and> distinct (map nodeId ns) \<and> 16 * length ns + 4 \<le> maxInt32"

text \<open>The answer for node ids: ids of nodes of the topology, and of each node that passes the filters sent.\<close>

definition answersIds :: "('d goval \<Rightarrow> 'd goval \<Rightarrow> bool res) \<Rightarrow> ('w \<Rightarrow> 'd ClusterNode list) \<Rightarrow> ('d, 'w) ClusterGroup \<Rightarrow> bool" where
  "answersIds opaque topo g \<longleftrightarrow> (\<forall>w. \<exists>v ids w'.
     linkServer (grpCh g) opClusterGroupGetNodeIds
         (encI64 (- 1) @ filtersBytes (envApd (grpMarsh g)) (grpProjection g)) w
       = (Inr (1 # encI64 v @ idsBytes ids), w') \<and>
     topo w' = topo w \<and> distinct ids \<and> set ids \<subseteq> nodeIds (topo w) \<and>
     (\<forall>n \<in> set (topo w). passesSent opaque (grpProjection g) (canonNode n) \<longrightarrow> nodeId n \<in> set ids))"

text \<open>The answer for nodes: the nodes with the ids asked for, in some order.\<close>

definition answersNodes :: "('w \<Rightarrow> 'd ClusterNode list) \<Rightarrow> ('d, 'w) ClusterGroup \<Rightarrow> bool" where
  "answersNodes topo g \<longleftrightarrow> (\<forall>ids w. distinct ids \<longrightarrow> set ids \<subseteq> nodeIds (topo w) \<longrightarrow>
     (\<exists>ns kind daemon w'. linkServer (grpCh g) opClusterGroupGetNodes (idsBytes ids) w
       = (Inr (lenBytes (length ns) @ concat (map (nodeBytes (envApd (grpMarsh g)) kind daemon) ns)), w') \<and>
     topo w' = topo w \<and> distinct (map nodeId ns) \<and> set ns = {n \<in> set (topo w). nodeId n \<in> set ids}))"

definition servesTopology :: "('d goval \<Rightarrow> 'd goval \<Rightarrow> bool res) \<Rightarrow> ('d \<Rightarrow> bool) \<Rightarrow> ('w \<Rightarrow> 'd ClusterNode list) \<Rightarrow>
    ('d, 'w) ClusterGroup \<Rightarrow> bool" where
  "servesTopology opaque fin topo g \<longleftrightarrow>
     apd_ok (envApd (grpMarsh g)) fin \<and> SupportsAttributeFeature (linkProto (grpCh g)) ClusterGroupsFeature \<and>
     answersIds opaque topo g \<and> answersNodes topo g \<and> (\<forall>w. okTopology (envApd (grpMarsh g)) fin (topo w))"

text \<open>Every node the group keeps stands under its id, and is the one of the topology if that has the id.\<close>

definition cacheInStep :: "'d ClusterNode list \<Rightarrow> 'd groupCache \<Rightarrow> bool" where
  "cacheInStep ns c \<longleftrightarrow> (\<forall>i n. map_of (cachedNodes c) i = Some n \<longrightarrow>
     nodeId n = i \<and> (i \<in> nodeIds ns \<longrightarrow> n \<in> canonNode ` set ns))"

section \<open>The requests\<close>

lemma canonNode_id [simp]: "nodeId (canonNode n) = nodeId n"
  by (simp add: canonNode_def)

lemma node_of_id:
  "distinct (map nodeId ns) \<Longrightarrow> n \<in> set ns \<Longrightarrow> m \<in> set ns \<Longrightarrow> nodeId n = nodeId m \<Longrightarrow> n = m"
  by (auto simp: distinct_map inj_on_def)

lemma length_encUuid: "length (encUuid u) = length u"
  by (simp add: encUuid_def)

lemma topology_ids:
  assumes "okTopology A fin ns" and "set ids \<subseteq> nodeIds ns"
  shows "i \<in> set ids \<Longrightarrow> length i = 16" and "distinct ids \<Longrightarrow> small (length ids)"
    and "distinct ids \<Longrightarrow> length (idsBytes ids) \<le> maxInt32"
proof -
  show l: "length i = 16" if "i \<in> set ids" for i
    using assms that by (auto simp: okTopology_def nodeIds_def okNode_def)
  have n: "length ids \<le> length ns" if "distinct ids"
  proof -
    have "length ids = card (set ids)" using that by (simp add: distinct_card)
    also have "\<dots> \<le> card (nodeIds ns)" using assms(2) by (intro card_mono) (simp_all add: nodeIds_def)
    also have "\<dots> \<le> length ns" unfolding nodeIds_def by (metis card_length length_map list.set_map)
    finally show ?thesis .
  qed
  then show "small (length ids)" if "distinct ids"
    using assms(1) that by (auto simp: okTopology_def small_def maxInt32_def)
  have "length (concat (map encUuid ids)) = 16 * length ids"
    using l by (induction ids) (auto simp: length_encUuid)
  then show "length (idsBytes ids) \<le> maxInt32" if "distinct ids"
    using assms(1) n that by (auto simp: okTopology_def idsBytes_def lenBytes_def)
qed

lemma reads_ids: "(\<And>i. i \<in> set ids \<Longrightarrow> length i = 16) \<Longrightarrow> small (length ids) \<Longrightarrow>
    reads nodeIdsResponse (1 # encI64 v @ idsBytes ids) (v, ids)"
proof -
  assume l: "\<And>i. i \<in> set ids \<Longrightarrow> length i = 16" and s: "small (length ids)"
  have ids: "reads (readSlice (\<lambda>_. readUuid)) (idsBytes ids) ids"
    using reads_readSlice [where canon = "\<lambda>i. i" and xs = ids, OF reads_readUuid, OF l s]
    by (simp add: idsBytes_def)
  have "reads (bindR ReadBool (\<lambda>ok. if \<not> ok then failR (ErrMsg ''unexpected server response for topology node IDs request'')
      else bindR ReadInt64 (\<lambda>v. bindR (readSlice (\<lambda>_. readUuid)) (\<lambda>ids. returnR (v, ids)))))
      ([boolByte True] @ encI64 v @ idsBytes ids) (v, ids)"
    by (rule reads_bind [OF reads_prims(3)], simp only: not_True_eq_False if_False,
        rule reads_bind [OF reads_words(1)], rule reads_bind_return [OF ids])
  then show ?thesis
    unfolding nodeIdsResponse_def
    by (intro reads_ensure) (simp_all add: size_defs boolByte_def encI64_def)
qed

lemma mwrites_nodeIdsRequest:
  assumes "servesTopology opaque fin topo g"
    and "list_all (plainFilter (envApd (grpMarsh g)) fin) (projFilters (grpProjection g))"
  shows "mwrites (nodeIdsRequest g) (encI64 (- 1) @ filtersBytes (envApd (grpMarsh g)) (grpProjection g))"
  using assms
  by (auto simp: nodeIdsRequest_def servesTopology_def
      intro!: mwrites_then mwrites_lift writes_i64 mwrites_serverSideFilters)

lemma requestNodeIds_run:
  assumes srv: "servesTopology opaque fin topo g"
    and pf: "list_all (plainFilter (envApd (grpMarsh g)) fin) (projFilters (grpProjection g))"
    and len: "8 + length (filtersBytes (envApd (grpMarsh g)) (grpProjection g)) \<le> maxInt32"
    and ok: "cacheInStep (topo (world (cReg s))) (groupCacheOf g s)"
  obtains ids s' where "requestNodeIds g s = (Inr ids, s')" "distinct ids"
    "set ids \<subseteq> nodeIds (topo (world (cReg s)))"
    "\<forall>n \<in> set (topo (world (cReg s))). passesSent opaque (grpProjection g) (canonNode n) \<longrightarrow> nodeId n \<in> set ids"
    "topo (world (cReg s')) = topo (world (cReg s))"
    "cacheInStep (topo (world (cReg s'))) (groupCacheOf g s')"
proof -
  let ?bs = "encI64 (- 1) @ filtersBytes (envApd (grpMarsh g)) (grpProjection g)"
  obtain v ids w' where a: "linkServer (grpCh g) opClusterGroupGetNodeIds ?bs (world (cReg s))
        = (Inr (1 # encI64 v @ idsBytes ids), w')"
    "topo w' = topo (world (cReg s))" "distinct ids" "set ids \<subseteq> nodeIds (topo (world (cReg s)))"
    "\<forall>n \<in> set (topo (world (cReg s))). passesSent opaque (grpProjection g) (canonNode n) \<longrightarrow> nodeId n \<in> set ids"
    using srv unfolding servesTopology_def answersIds_def by blast
  have top: "okTopology (envApd (grpMarsh g)) fin (topo (world (cReg s)))" using srv by (simp add: servesTopology_def)
  have r: "mreads (liftR nodeIdsResponse) (1 # encI64 v @ idsBytes ids) (v, ids)"
    by (rule mreads_lift [OF reads_ids]) (use topology_ids [OF top a(4)] a(3) in auto)
  have "sendOp (grpCh g) opClusterGroupGetNodeIds (nodeIdsRequest g) (liftR nodeIdsResponse) (cReg s)
      = (Inr (v, ids), (cReg s)\<lparr>world := w'\<rparr>)"
    by (rule sendOp_run [OF mwrites_nodeIdsRequest [OF srv pf] _ _ r, where rest = "[]"])
       (use len a(1) in \<open>simp_all add: encI64_def\<close>)
  then have run: "onReg (sendOp (grpCh g) opClusterGroupGetNodeIds (nodeIdsRequest g) (liftR nodeIdsResponse)) s
      = (Inr (v, ids), s\<lparr>cReg := (cReg s)\<lparr>world := w'\<rparr>\<rparr>)" by (simp add: onReg_def)
  let ?s = "s\<lparr>cReg := (cReg s)\<lparr>world := w'\<rparr>,
      cGroups := (cGroups s)(grpAddr g := (cGroups s (grpAddr g))\<lparr>topVer := v,
        cachedNodes := filter (\<lambda>p. fst p \<in> set ids) (cachedNodes (cGroups s (grpAddr g)))\<rparr>)\<rparr>"
  have e: "requestNodeIds g s = (Inr ids, ?s)"
    by (simp add: requestNodeIds_def bindP_def run updGroup_def ToSet_def)
  have m: "map_of (filter (\<lambda>p. fst p \<in> set ids) xs) i = (if i \<in> set ids then map_of xs i else None)"
    for xs :: "(uuid \<times> 'a ClusterNode) list" and i by (induction xs) auto
  have "cacheInStep (topo (world (cReg ?s))) (groupCacheOf g ?s)"
    using ok a(2) by (auto simp: cacheInStep_def groupCacheOf_def m split: if_splits)
  then show ?thesis using that [OF e a(3,4,5)] a(2) by simp
qed

lemma requestNodes_run:
  assumes srv: "servesTopology opaque fin topo g"
    and ids: "distinct ids" "set ids \<subseteq> nodeIds (topo (world (cReg s)))"
  obtains ns w' where
    "requestNodes g ids s = (Inr (map canonNode ns), s\<lparr>cReg := (cReg s)\<lparr>world := w'\<rparr>,
       cGroups := (cGroups s)(grpAddr g := storeNodes (map canonNode ns) (cGroups s (grpAddr g)))\<rparr>)"
    "topo w' = topo (world (cReg s))" "distinct (map nodeId ns)"
    "set ns = {n \<in> set (topo (world (cReg s))). nodeId n \<in> set ids}"
proof -
  let ?A = "envApd (grpMarsh g)"
  obtain ns kind daemon w' where a: "linkServer (grpCh g) opClusterGroupGetNodes (idsBytes ids) (world (cReg s))
        = (Inr (lenBytes (length ns) @ concat (map (nodeBytes ?A kind daemon) ns)), w')"
    "topo w' = topo (world (cReg s))" "distinct (map nodeId ns)"
    "set ns = {n \<in> set (topo (world (cReg s))). nodeId n \<in> set ids}"
    using srv ids unfolding servesTopology_def answersNodes_def by blast
  have top: "okTopology ?A fin (topo (world (cReg s)))" and A: "apd_ok ?A fin"
    and feat: "SupportsAttributeFeature (linkProto (grpCh g)) ClusterGroupsFeature"
    using srv by (simp_all add: servesTopology_def)
  have sm: "small (length ns)"
    using topology_ids(2) [OF top _ a(3)] a(4) by (auto simp: nodeIds_def)
  have ok: "\<forall>n \<in> set ns. okNode ?A fin n" using top a(4) by (auto simp: okTopology_def)
  have r: "mreads (readSliceM (readClusterNode (grpMarsh g)))
      (lenBytes (length ns) @ concat (map (nodeBytes ?A kind daemon) ns)) (map canonNode ns)"
    using ok sm by (intro mreads_readSliceM ballI mreads_readClusterNode [OF A]) auto
  have w: "mwrites (liftW (writeSequence (length ids) (\<lambda>idx. writeUuid (ids ! idx)))) (idsBytes ids)"
    unfolding idsBytes_def
    by (rule mwrites_lift, rule writes_writeSequence, rule writes_writeUuid, rule topology_ids(1) [OF top ids(2)])
  have "sendOp (grpCh g) opClusterGroupGetNodes (liftW (writeSequence (length ids) (\<lambda>idx. writeUuid (ids ! idx))))
      (readSliceM (readClusterNode (grpMarsh g))) (cReg s) = (Inr (map canonNode ns), (cReg s)\<lparr>world := w'\<rparr>)"
    by (rule sendOp_run [OF w topology_ids(3) [OF top ids(2,1)] _ r, where rest = "[]"]) (simp add: a(1))
  then show ?thesis using feat
    by (intro that [OF _ a(2,3,4)]) (simp add: requestNodes_def bindP_def onReg_def updGroup_def)
qed

lemma map_of_fold_update:
  "distinct (map key xs) \<Longrightarrow> map_of (fold (\<lambda>x. AList.update (key x) x) xs acc) i =
    (case map_of (map (\<lambda>x. (key x, x)) xs) i of Some x \<Rightarrow> Some x | None \<Rightarrow> map_of acc i)"
proof (induction xs arbitrary: acc)
  case (Cons x xs)
  have "map_of (map (\<lambda>x. (key x, x)) xs) (key x) = None"
    using Cons.prems by (auto simp: map_of_eq_None_iff)
  then show ?case using Cons by (auto simp: update_alist_map_of split: option.splits)
qed simp

lemma map_of_storeNodes:
  "distinct (map nodeId ns) \<Longrightarrow> map_of (cachedNodes (storeNodes ns c)) i =
    (case map_of (map (\<lambda>n. (nodeId n, n)) ns) i of Some n \<Rightarrow> Some n | None \<Rightarrow> map_of (cachedNodes c) i)"
  by (simp add: storeNodes_def map_of_fold_update)

lemma storeNodes_inStep:
  assumes "cacheInStep ns c" and "distinct (map nodeId ms)" and "set ms \<subseteq> canonNode ` set ns"
  shows "cacheInStep ns (storeNodes ms c)"
  using assms unfolding cacheInStep_def map_of_storeNodes [OF assms(2)]
  by (auto dest!: map_of_SomeD split: option.splits)

text \<open>The nodes with the ids, those the group keeps first, the others from the server.\<close>

lemma getOrRequestNodes_run:
  assumes srv: "servesTopology opaque fin topo g"
    and ids: "distinct ids" "set ids \<subseteq> nodeIds (topo (world (cReg s)))"
    and ok: "cacheInStep (topo (world (cReg s))) (groupCacheOf g s)"
  obtains ns s' where "getOrRequestNodes g ids s = (Inr ns, s')" "distinct (map nodeId ns)"
    "set ns = {n \<in> canonNode ` set (topo (world (cReg s))). nodeId n \<in> set ids}"
    "topo (world (cReg s')) = topo (world (cReg s))"
    "cacheInStep (topo (world (cReg s'))) (groupCacheOf g s')"
proof -
  let ?T = "topo (world (cReg s))" and ?kept = "map_of (cachedNodes (groupCacheOf g s))"
  let ?miss = "filter (\<lambda>i. ?kept i = None) ids" and ?res = "List.map_filter ?kept ids"
  have dT: "distinct (map nodeId ?T)" using srv by (simp add: servesTopology_def okTopology_def)
  have kept: "nodeId n = i \<and> n \<in> canonNode ` set ?T" if "?kept i = Some n" "i \<in> set ids" for i n
    using ok ids(2) that by (auto simp: cacheInStep_def)
  have res_id: "map nodeId ?res = filter (\<lambda>i. ?kept i \<noteq> None) ids"
    using kept by (induction ids) (auto simp: List.map_filter_def)
  have uniq: "n = m" if "n \<in> canonNode ` set ?T" "m \<in> canonNode ` set ?T" "nodeId n = nodeId m" for n m
  proof -
    obtain x y where x: "n = canonNode x" "x \<in> set ?T" and y: "m = canonNode y" "y \<in> set ?T"
      using \<open>n \<in> canonNode ` set ?T\<close> \<open>m \<in> canonNode ` set ?T\<close> by auto
    have "x = y" by (rule node_of_id [OF dT x(2) y(2)]) (use \<open>nodeId n = nodeId m\<close> x y in simp)
    then show ?thesis using x y by simp
  qed
  have res: "set ?res = {n \<in> canonNode ` set ?T. nodeId n \<in> set ids \<and> ?kept (nodeId n) \<noteq> None}"
    (is "_ = ?R")
  proof (rule set_eqI, rule iffI)
    fix n assume "n \<in> set ?res"
    then obtain i where "i \<in> set ids" "?kept i = Some n" by (auto simp: List.map_filter_def)
    then show "n \<in> ?R" using kept by auto
  next
    fix n assume n: "n \<in> ?R"
    then obtain m where m: "?kept (nodeId n) = Some m" by auto
    then have "n = m" using kept [OF m] n by (intro uniq) auto
    then show "n \<in> set ?res" using n m by (force simp: List.map_filter_def)
  qed
  have dres: "distinct (map nodeId ?res)" unfolding res_id using ids(1) by simp
  show ?thesis
  proof (cases "?miss = []")
    case True
    then have "getOrRequestNodes g ids s = (Inr ?res, s)" by (simp add: getOrRequestNodes_def Let_def)
    moreover have "set ?res = {n \<in> canonNode ` set ?T. nodeId n \<in> set ids}"
      unfolding res using True by (auto simp: filter_empty_conv)
    ultimately show ?thesis using that dres ok by blast
  next
    case False
    have miss: "distinct ?miss" "set ?miss \<subseteq> nodeIds ?T" using ids by auto
    obtain ns w' where r: "requestNodes g ?miss s = (Inr (map canonNode ns), s\<lparr>cReg := (cReg s)\<lparr>world := w'\<rparr>,
        cGroups := (cGroups s)(grpAddr g := storeNodes (map canonNode ns) (cGroups s (grpAddr g)))\<rparr>)"
      (is "_ = (_, ?s')")
      and w': "topo w' = ?T" and ns: "distinct (map nodeId ns)" "set ns = {n \<in> set ?T. nodeId n \<in> set ?miss}"
      by (rule requestNodes_run [OF srv miss])
    have "getOrRequestNodes g ids s = (Inr (?res @ map canonNode ns), ?s')"
      using False r by (simp add: getOrRequestNodes_def Let_def bindP_def)
    moreover have dns: "distinct (map nodeId (map canonNode ns))" using ns(1) by (simp add: comp_def)
    have "nodeId ` set ?res \<inter> nodeId ` set ns = {}" unfolding res ns(2) by auto
    then have "distinct (map nodeId (?res @ map canonNode ns))" using dres dns by (auto simp: comp_def)
    moreover have "set (?res @ map canonNode ns) = {n \<in> canonNode ` set ?T. nodeId n \<in> set ids}"
      unfolding set_append res set_map ns(2) by auto
    moreover have "cacheInStep (topo (world (cReg ?s'))) (groupCacheOf g ?s')"
      using storeNodes_inStep [OF ok dns] ns(2) w' by (auto simp: groupCacheOf_def)
    ultimately show ?thesis using that w' by simp
  qed
qed

section \<open>Nodes\<close>

lemma okFilter_plain: "okFilter f \<Longrightarrow> plainFilter A fin f"
proof -
  have "plain A fin v" if "comparable v" for v
    using that by (rule comparable_cases) (simp, simp, case_tac l, auto)
  then show "okFilter f \<Longrightarrow> plainFilter A fin f"
    by (auto simp: okFilter_def plainFilter_def okAttr_def list_all_iff split: clusterNodeFilter.splits)
qed

lemma represents_plain:
  "represents opaque p flts \<Longrightarrow> list_all (plainFilter A fin) (projFilters p)"
proof (cases p)
  case EmptyProjection
  then show ?thesis by (simp add: projFilters_def plainFilter_def)
qed (auto simp: represents_def projFilters_def list_all_iff intro: okFilter_plain)

text \<open>The nodes of a group: the filters of the options, in turn, on nodes of the topology among which are
  all that pass the filters sent.\<close>

lemma groupNodes_run:
  assumes srv: "servesTopology opaque fin topo g" and rep: "represents opaque (grpProjection g) flts"
    and len: "8 + length (filtersBytes (envApd (grpMarsh g)) (grpProjection g)) \<le> maxInt32"
    and ok: "cacheInStep (topo (world (cReg s))) (groupCacheOf g s)"
  obtains nodes s' where "groupNodes opaque g s = projectionApply opaque (grpProjection g) nodes s'"
    "distinct nodes" "set nodes \<subseteq> canonNode ` set (topo (world (cReg s)))"
    "\<forall>n \<in> canonNode ` set (topo (world (cReg s))). passesSent opaque (grpProjection g) n \<longrightarrow> n \<in> set nodes"
    "topo (world (cReg s')) = topo (world (cReg s))" "cacheInStep (topo (world (cReg s'))) (groupCacheOf g s')"
proof -
  obtain ids s1 where 1: "requestNodeIds g s = (Inr ids, s1)" "distinct ids" "set ids \<subseteq> nodeIds (topo (world (cReg s)))"
    "\<forall>n \<in> set (topo (world (cReg s))). passesSent opaque (grpProjection g) (canonNode n) \<longrightarrow> nodeId n \<in> set ids"
    "topo (world (cReg s1)) = topo (world (cReg s))" "cacheInStep (topo (world (cReg s1))) (groupCacheOf g s1)"
    by (rule requestNodeIds_run [OF srv represents_plain [OF rep] len ok])
  obtain nodes s2 where 2: "getOrRequestNodes g ids s1 = (Inr nodes, s2)" "distinct (map nodeId nodes)"
    "set nodes = {n \<in> canonNode ` set (topo (world (cReg s1))). nodeId n \<in> set ids}"
    "topo (world (cReg s2)) = topo (world (cReg s1))" "cacheInStep (topo (world (cReg s2))) (groupCacheOf g s2)"
    by (rule getOrRequestNodes_run [OF srv 1(2) _ 1(6)]) (use 1(3,5) in auto)
  have "groupNodes opaque g s = projectionApply opaque (grpProjection g) nodes s2"
    by (simp add: groupNodes_def bindP_def 1(1) 2(1))
  then show ?thesis using that 1 2 by (auto simp: distinct_map)
qed

lemma applyEach_movable:
  "list_all movable flts \<Longrightarrow> applyEach opaque (map Some flts) nodes
    = returnP (filter (\<lambda>n. \<forall>f \<in> set flts. passes opaque f n) nodes)"
  using run_movable [of flts opaque nodes] by (simp only: runFilters_def)

lemma appendFilter_movable:
  assumes "list_all movable fs" and "movable f" and "appendFilter opaque (Projection fs) (Some f) = Inr (Projection gs)"
  shows "list_all movable gs"
proof -
  obtain m where m: "mergeBack opaque (rev fs) f = Inr m" "mergedAt opaque (rev fs) f m"
    using mergeBack_mergedAt [of "rev fs" f opaque] assms by (auto simp: movable_def list_all_iff)
  show ?thesis
  proof (cases m)
    case (Merged hs)
    then obtain xs q ys h where "rev fs = xs @ q # ys" "hs = xs @ h # ys" "movable h"
      using m(2) by (auto simp: mergedAt_def)
    moreover have "list_all movable (rev fs)" using assms(1) by simp
    ultimately have "list_all movable (rev hs)" by simp
    then show ?thesis using assms m(1) Merged by (auto simp: appendFilter_def movable_def)
  qed (use assms m in \<open>auto simp: appendFilter_def movable_def\<close>)
qed

text \<open>What the options make of a group.\<close>

definition madeFrom :: "('d goval \<Rightarrow> 'd goval \<Rightarrow> bool res) \<Rightarrow> ('d, 's) projection \<Rightarrow> ('d, 's) clusterNodeFilter option list \<Rightarrow> bool" where
  "madeFrom opaque p flts \<longleftrightarrow> represents opaque p flts \<and>
     (\<forall>fs. p = Projection fs \<longrightarrow> list_all (\<lambda>x. case x of None \<Rightarrow> False | Some f \<Rightarrow> movable f) flts \<longrightarrow> list_all movable fs)"

lemma options_run:
  assumes "madeFrom opaque (grpProjection g) done" and "list_all (\<lambda>x. case x of None \<Rightarrow> True | Some f \<Rightarrow> okFilter f) flts"
  shows "\<exists>p. applyGroupOptions (map (addProjectionFilter opaque) flts) g s = (Inr (g\<lparr>grpProjection := p\<rparr>), s) \<and>
    madeFrom opaque p (done @ flts)"
  using assms
proof (induction flts arbitrary: g "done")
  case Nil
  then show ?case by (intro exI [of _ "grpProjection g"]) simp
next
  case (Cons x flts)
  obtain p where p: "appendFilter opaque (grpProjection g) x = Inr p" "represents opaque p (done @ [x])"
    using appendFilter_represents [of opaque "grpProjection g" "done" x] Cons.prems by (auto simp: madeFrom_def)
  have "madeFrom opaque p (done @ [x])"
    unfolding madeFrom_def
  proof (intro conjI p(2) allI impI)
    fix gs assume gs: "p = Projection gs"
      "list_all (\<lambda>x. case x of None \<Rightarrow> False | Some f \<Rightarrow> movable f) (done @ [x])"
    then obtain fs f where "grpProjection g = Projection fs" "x = Some f" "movable f"
      using p(1) by (auto simp: appendFilter_def split: projection.splits option.splits)
    then show "list_all movable gs"
      using appendFilter_movable [of fs f opaque gs] Cons.prems(1) p(1) gs by (simp add: madeFrom_def)
  qed
  from Cons.IH [of "g\<lparr>grpProjection := p\<rparr>", OF _ _] this Cons.prems(2)
  obtain q where "applyGroupOptions (map (addProjectionFilter opaque) flts) (g\<lparr>grpProjection := p\<rparr>) s
      = (Inr (g\<lparr>grpProjection := q\<rparr>), s)" "madeFrom opaque q ((done @ [x]) @ flts)"
    by fastforce
  then show ?case using p(1) by (intro exI [of _ q]) (simp add: addProjectionFilter_def [of opaque x] bindP_def)
qed

lemma madeFrom_start: "madeFrom opaque (Projection []) []"
  by (simp add: madeFrom_def represents_def)

definition newGroup :: "('d, 'w) client \<Rightarrow> ('d, ('d, 'w) cstate) projection \<Rightarrow> ('d, 'w) cstate \<Rightarrow> ('d, 'w) ClusterGroup" where
  "newGroup cli p s = \<lparr>grpCh = cliCh cli, grpMarsh = cliEnv cli, grpProjection = p, grpAddr = cNew s\<rparr>"

lemma GetClusterGroup_run:
  assumes "list_all (\<lambda>x. case x of None \<Rightarrow> True | Some f \<Rightarrow> okFilter f) flts"
  obtains p where "GetClusterGroup cli (map (addProjectionFilter opaque) flts) s = (Inr (newGroup cli p s), snd (newGroupState s))"
    "madeFrom opaque p flts"
proof -
  obtain p where "applyGroupOptions (map (addProjectionFilter opaque) flts) (newGroup cli (Projection []) s) (snd (newGroupState s))
      = (Inr (newGroup cli p s), snd (newGroupState s))" "madeFrom opaque p flts"
    using options_run [OF _ assms, of opaque "newGroup cli (Projection []) s" "[]" "snd (newGroupState s)"] madeFrom_start
    by (fastforce simp: newGroup_def)
  then show ?thesis by (intro that) (simp_all add: GetClusterGroup_def bindP_def newGroupState_def newGroup_def)
qed

section \<open>The nodes that pass\<close>

text \<open>The nodes of a topology that pass all the filters, in the form the client reads them.\<close>

definition selected :: "('d goval \<Rightarrow> 'd goval \<Rightarrow> bool res) \<Rightarrow> ('d, 's) clusterNodeFilter list \<Rightarrow>
    'd ClusterNode list \<Rightarrow> 'd ClusterNode set" where
  "selected opaque flts ns = {n \<in> canonNode ` set ns. \<forall>f \<in> set flts. passes opaque f n}"

text \<open>The projection made from filters that look at one node at a time selects the nodes that pass them
  all, the filters sent let all these pass, and so does the test of an id alone.\<close>

lemma projection_selects:
  assumes flts: "list_all movable flts" and p: "madeFrom opaque p (map Some flts)"
  shows "projectionApply opaque p nodes t = (Inr (filter (\<lambda>n. \<forall>f \<in> set flts. passes opaque f n) nodes), t)"
    and "\<forall>f \<in> set flts. passes opaque f n \<Longrightarrow> passesSent opaque p n"
    and "\<forall>f \<in> set flts. passes opaque f n \<Longrightarrow> \<not> isExcludedByFilters p (nodeId n)"
proof -
  have rep: "represents opaque p (map Some flts)" using p by (simp add: madeFrom_def)
  have each: "applyEach opaque (map Some flts) ns
      = returnP (filter (\<lambda>n. \<forall>f \<in> set flts. passes opaque f n) ns)" for ns
    by (rule applyEach_movable [OF flts])
  have "projectionApply opaque p nodes t = (Inr (filter (\<lambda>n. \<forall>f \<in> set flts. passes opaque f n) nodes), t) \<and>
    ((\<forall>f \<in> set flts. passes opaque f n) \<longrightarrow> passesSent opaque p n \<and> \<not> isExcludedByFilters p (nodeId n))"
  proof (cases p)
    case (Projection fs)
    have fs: "list_all movable fs" using p flts Projection by (auto simp: madeFrom_def list_all_iff)
    have eq: "runFilters opaque fs ns = applyEach opaque (map Some flts) ns" for ns
      using rep Projection by (simp add: represents_def)
    have pass: "(\<forall>f \<in> set flts. passes opaque f n) \<longleftrightarrow> (\<forall>f \<in> set fs. passes opaque f n)"
      using fun_cong [OF eq [of "[n]"]] unfolding run_movable [OF fs] each by (auto split: if_splits)
    have "passesSent opaque p n" if "\<forall>f \<in> set fs. passes opaque f n"
      using that Projection by (auto simp: passesSent_def sentFilters_def projFilters_def dest: set_takeWhileD)
    moreover have "\<not> isExcludedByFilters p (nodeId n)" if "\<forall>f \<in> set fs. passes opaque f n"
    proof (cases "findSingleNodeIdFilter p")
      case (Some ids)
      then have "fs = [NodeIdFilter ids]"
        using Projection
        by (simp add: findSingleNodeIdFilter_def projFilters_def split: list.splits clusterNodeFilter.splits)
      then show ?thesis using that Some by (simp add: isExcludedByFilters_def passes_def)
    qed (simp add: isExcludedByFilters_def)
    moreover have "projectionApply opaque p nodes t = (Inr (filter (\<lambda>n. \<forall>f \<in> set flts. passes opaque f n) nodes), t)"
      using Projection eq each by (simp add: projectionApply_run projFilters_def)
    ultimately show ?thesis using pass by simp
  next
    case EmptyProjection
    then have none: "\<not> (\<forall>f \<in> set flts. passes opaque f m)" for m
      using rep fun_cong [OF each [of "[m]"], of t] by (auto simp: represents_def split: if_splits)
    then have "filter (\<lambda>n. \<forall>f \<in> set flts. passes opaque f n) nodes = []" using none by simp
    then show ?thesis
      using EmptyProjection none [of n] by (auto simp: projectionApply_run projFilters_def bindP_def)
  qed
  then show "projectionApply opaque p nodes t = (Inr (filter (\<lambda>n. \<forall>f \<in> set flts. passes opaque f n) nodes), t)"
    and "\<forall>f \<in> set flts. passes opaque f n \<Longrightarrow> passesSent opaque p n"
    and "\<forall>f \<in> set flts. passes opaque f n \<Longrightarrow> \<not> isExcludedByFilters p (nodeId n)"
    by auto
qed

lemma selected_groupNodes:
  assumes flts: "list_all movable flts" and p: "madeFrom opaque (grpProjection g) (map Some flts)"
    and srv: "servesTopology opaque fin topo g"
    and len: "8 + length (filtersBytes (envApd (grpMarsh g)) (grpProjection g)) \<le> maxInt32"
    and ok: "cacheInStep (topo (world (cReg s))) (groupCacheOf g s)"
  shows "\<exists>ns s'. groupNodes opaque g s = (Inr ns, s') \<and> distinct ns \<and>
    set ns = selected opaque flts (topo (world (cReg s))) \<and>
    topo (world (cReg s')) = topo (world (cReg s)) \<and> cacheInStep (topo (world (cReg s'))) (groupCacheOf g s')"
proof -
  have rep: "represents opaque (grpProjection g) (map Some flts)" using p by (simp add: madeFrom_def)
  show ?thesis
    by (rule groupNodes_run [OF srv rep len ok])
      (use projection_selects(1,2) [OF flts p] in \<open>auto simp: selected_def\<close>)
qed

text \<open>Among elements of one key, with distinct keys, the first is the only one.\<close>

lemma single_found:
  "\<forall>x \<in> set xs. key x = k \<Longrightarrow> distinct (map key xs) \<Longrightarrow>
    (case xs of [] \<Rightarrow> None | x # _ \<Rightarrow> Some x) = Some n \<longleftrightarrow> n \<in> set xs"
  by (cases xs) auto

lemma selected_groupNode:
  assumes flts: "list_all movable flts" and p: "madeFrom opaque (grpProjection g) (map Some flts)"
    and srv: "servesTopology opaque fin topo g"
    and len: "8 + length (filtersBytes (envApd (grpMarsh g)) (grpProjection g)) \<le> maxInt32"
    and ok: "cacheInStep (topo (world (cReg s))) (groupCacheOf g s)"
  shows "\<exists>r s'. groupNode opaque g i s = (Inr r, s') \<and>
    (\<forall>n. r = Some n \<longleftrightarrow> n \<in> selected opaque flts (topo (world (cReg s))) \<and> nodeId n = i) \<and>
    topo (world (cReg s')) = topo (world (cReg s)) \<and> cacheInStep (topo (world (cReg s'))) (groupCacheOf g s')"
proof (cases "isExcludedByFilters (grpProjection g) i")
  case True
  then show ?thesis
    using ok projection_selects(3) [OF flts p] by (auto simp: groupNode_def selected_def returnP_def)
next
  case False
  let ?T = "topo (world (cReg s))"
  have rep: "represents opaque (grpProjection g) (map Some flts)" using p by (simp add: madeFrom_def)
  obtain ids s1 where 1: "requestNodeIds g s = (Inr ids, s1)" "set ids \<subseteq> nodeIds ?T"
    "\<forall>n \<in> set ?T. passesSent opaque (grpProjection g) (canonNode n) \<longrightarrow> nodeId n \<in> set ids"
    "topo (world (cReg s1)) = ?T" "cacheInStep (topo (world (cReg s1))) (groupCacheOf g s1)"
    by (rule requestNodeIds_run [OF srv represents_plain [OF rep] len ok])
  have found: "i \<in> set ids" if "n \<in> selected opaque flts ?T" "nodeId n = i" for n
    using that 1(3) projection_selects(2) [OF flts p] by (auto simp: selected_def)
  show ?thesis
  proof (cases "i \<in> set ids")
    case False
    then show ?thesis
      using found 1(1,4,5) \<open>\<not> isExcludedByFilters (grpProjection g) i\<close>
      by (auto simp: groupNode_def bindP_def returnP_def ToSet_def)
  next
    case True
    obtain nodes s2 where 2: "getOrRequestNodes g [i] s1 = (Inr nodes, s2)" "distinct (map nodeId nodes)"
      "set nodes = {n \<in> canonNode ` set (topo (world (cReg s1))). nodeId n \<in> set [i]}"
      "topo (world (cReg s2)) = topo (world (cReg s1))" "cacheInStep (topo (world (cReg s2))) (groupCacheOf g s2)"
      by (rule getOrRequestNodes_run [OF srv _ _ 1(5), of "[i]"]) (use 1(2,4) True in auto)
    let ?res = "filter (\<lambda>n. \<forall>f \<in> set flts. passes opaque f n) nodes"
    have run: "groupNode opaque g i s = (Inr (case ?res of [] \<Rightarrow> None | node # _ \<Rightarrow> Some node), s2)"
      using False True by (simp add: groupNode_def bindP_def 1(1) 2(1) ToSet_def projection_selects(1) [OF flts p])
    have res: "set ?res = {n \<in> selected opaque flts ?T. nodeId n = i}" "distinct (map nodeId ?res)"
      using 2(2,3) 1(4) by (auto simp: selected_def distinct_map_filter)
    have "(case ?res of [] \<Rightarrow> None | node # _ \<Rightarrow> Some node) = Some n \<longleftrightarrow>
        n \<in> selected opaque flts ?T \<and> nodeId n = i" for n
      using single_found [of ?res nodeId i n] res by auto
    then show ?thesis using run 1(4) 2(4,5) by auto
  qed
qed

section \<open>A server that applies no filter\<close>

definition chunks16 :: "byte list \<Rightarrow> byte list list" where
  "chunks16 bs = map (\<lambda>i. take 16 (drop (16 * i) bs)) [0..<length bs div 16]"

definition fixedTopology :: "'d apd \<Rightarrow> 'd ClusterNode list \<Rightarrow> unit server" where
  "fixedTopology A ns op bs = (\<lambda>w.
     if op = opClusterGroupGetNodeIds then (Inr (1 # encI64 1 @ idsBytes (map nodeId ns)), w)
     else let found = filter (\<lambda>n. encUuid (nodeId n) \<in> set (chunks16 (drop 4 bs))) ns
       in (Inr (lenBytes (length found) @ concat (map (nodeBytes A ArrayList False) found)), w))"

lemma chunks16_concat:
  "(\<And>x. x \<in> set xs \<Longrightarrow> length x = 16) \<Longrightarrow> chunks16 (concat xs) = xs"
proof (induction xs)
  case (Cons x xs)
  have l: "length (concat xs) = 16 * length xs" using Cons.prems by (induction xs) auto
  have x: "length x = 16" using Cons.prems by simp
  have "chunks16 (concat (x # xs)) = x # map (\<lambda>i. take 16 (drop (16 * Suc i) (x @ concat xs))) [0..<length xs]"
    using l x by (simp add: chunks16_def upt_conv_Cons map_Suc_upt [symmetric] comp_def del: upt_Suc)
  also have "\<dots> = x # chunks16 (concat xs)" using l x by (simp add: chunks16_def)
  finally show ?case using Cons by simp
qed (simp add: chunks16_def)

lemma encUuid_inj: "length u = 16 \<Longrightarrow> length v = 16 \<Longrightarrow> encUuid u = encUuid v \<longleftrightarrow> u = v"
  by (auto simp: encUuid_def append_eq_append_conv) (metis append_take_drop_id)

lemma fixedTopology_serves:
  assumes "apd_ok A fin" and "okTopology A fin ns"
    and "grpCh g = \<lparr>linkServer = fixedTopology A ns, linkProto = P\<rparr>" and "SupportsAttributeFeature P ClusterGroupsFeature"
    and "envApd (grpMarsh g) = A"
  shows "servesTopology opaque fin (\<lambda>_. ns) g"
  unfolding servesTopology_def
proof (intro conjI allI)
  show "answersIds opaque (\<lambda>_. ns) g"
    unfolding answersIds_def
    by (intro allI exI [of _ 1] exI [of _ "map nodeId ns"] exI [of _ "()"])
       (use assms(2,3) in \<open>auto simp: fixedTopology_def nodeIds_def okTopology_def\<close>)
  show "answersNodes (\<lambda>_. ns) g"
    unfolding answersNodes_def
  proof (intro allI impI)
    fix ids :: "uuid list" and w :: unit
    assume ids: "distinct ids" "set ids \<subseteq> nodeIds ns"
    have l: "length i = 16" if "i \<in> set ids" for i by (rule topology_ids(1) [OF assms(2) ids(2) that])
    have c: "chunks16 (drop 4 (idsBytes ids)) = map encUuid ids"
    proof -
      have "chunks16 (concat (map encUuid ids)) = map encUuid ids"
        by (rule chunks16_concat) (use l in \<open>auto simp: length_encUuid\<close>)
      then show ?thesis by (simp add: idsBytes_def lenBytes_def)
    qed
    let ?found = "filter (\<lambda>n. encUuid (nodeId n) \<in> set (map encUuid ids)) ns"
    have "set ?found = {n \<in> set ns. nodeId n \<in> set ids}"
      using assms(2) l encUuid_inj by (fastforce simp: okTopology_def okNode_def)
    moreover have "distinct (map nodeId ?found)"
      using assms(2) by (simp add: okTopology_def distinct_map_filter)
    ultimately show "\<exists>ms kind daemon w'. linkServer (grpCh g) opClusterGroupGetNodes (idsBytes ids) w
        = (Inr (lenBytes (length ms) @ concat (map (nodeBytes (envApd (grpMarsh g)) kind daemon) ms)), w') \<and>
      ns = ns \<and> distinct (map nodeId ms) \<and> set ms = {n \<in> set ns. nodeId n \<in> set ids}"
      using assms(3,5)
      by (intro exI [of _ ?found] exI [of _ ArrayList] exI [of _ False] exI [of _ "()"])
         (simp add: fixedTopology_def c Let_def opClusterGroupGetNodes_def opClusterGroupGetNodeIds_def)
  qed
qed (use assms in simp_all)

definition sampleNode :: "byte \<Rightarrow> bool \<Rightarrow> string \<Rightarrow> i64 \<Rightarrow> (bool \<times> byte list \<times> i32) ClusterNode" where
  "sampleNode i isClient zone ord = \<lparr>nodeId = replicate 15 0 @ [i], nodeConsistentId = VNil,
     nodeAttributes = [(''zone'', VLeaf (LString zone))], nodeAddresses = [''127.0.0.1''], nodeHostNames = [''host''],
     nodeOrder = ord, nodeVersion = \<lparr>nvMajor = 2, nvMinor = 16, nvMaintenance = 0, nvStage = [], nvTimestamp = 0, nvHash = []\<rparr>,
     nodeIsClient = isClient, nodeIsLocal = False\<rparr>"

definition sampleTopology :: "(bool \<times> byte list \<times> i32) ClusterNode list" where
  "sampleTopology = [sampleNode 1 False ''a'' 1, sampleNode 2 False ''b'' 2, sampleNode 3 True ''a'' 3]"

definition sampleCluster :: "(bool \<times> byte list \<times> i32, unit) client" where
  "sampleCluster = \<lparr>cliCh = \<lparr>linkServer = fixedTopology plainDec sampleTopology,
       linkProto = NewProtocolContext (ver 1 7 0) [ClusterGroupsFeature]\<rparr>, cliEnv = sampleEnv\<rparr>"

definition plainDecFin :: "bool \<times> byte list \<times> i32 \<Rightarrow> bool" where
  "plainDecFin d \<longleftrightarrow> dropWhile (\<lambda>b. b = 0) (fst (snd d)) = fst (snd d)"

definition noOpaque :: "'d goval \<Rightarrow> 'd goval \<Rightarrow> bool res" where
  "noOpaque a b = Inr False"

definition sampleFilters :: "(bool \<times> byte list \<times> i32, (bool \<times> byte list \<times> i32, unit) cstate) clusterNodeFilter list" where
  "sampleFilters = [NodeTypeFilter False, PredicateFilter (\<lambda>n. sint (nodeOrder n) < 3), NodeTypeFilter False,
     NodeAttributesFilter [(''zone'', VLeaf (LString ''a''))]]"

lemma sampleTopology_ok: "okTopology plainDec plainDecFin sampleTopology"
  by (simp add: okTopology_def sampleTopology_def sampleNode_def okNode_def okStrings_def small_def maxInt32_def)

lemma sampleFilters_ok: "list_all movable sampleFilters"
  by (simp add: sampleFilters_def movable_def okFilter_def isReorderingAllowed_def okAttr_def comparable_def small_def maxInt32_def)

section \<open>Properties\<close>

text \<open>C7 The filters of a cluster group act in the order of its options: making a group never fails over
  comparable attribute values, and its projection, with filters merged and reordered, is the filters
  applied one by one; when the merge finds that nothing can pass, applying them leaves no node.\<close>

theorem group_filters_in_order:
  assumes "list_all (\<lambda>x. case x of None \<Rightarrow> True | Some f \<Rightarrow> okFilter f) flts"
  shows "\<exists>g s'. GetClusterGroup cli (map (addProjectionFilter opaque) flts) s = (Inr g, s') \<and> cReg s' = cReg s \<and>
    (case grpProjection g of
       Projection fs \<Rightarrow> \<forall>nodes. projectionApply opaque (Projection fs) nodes = applyEach opaque flts nodes
     | EmptyProjection \<Rightarrow> \<forall>nodes t r t'. projectionApply opaque EmptyProjection nodes t = (Inr [], t) \<and>
         (applyEach opaque flts nodes t = (Inr r, t') \<longrightarrow> r = []))"
proof -
  obtain p where p: "GetClusterGroup cli (map (addProjectionFilter opaque) flts) s = (Inr (newGroup cli p s), snd (newGroupState s))"
    "madeFrom opaque p flts"
    by (rule GetClusterGroup_run [OF assms])
  moreover have "cReg (snd (newGroupState s)) = cReg s" by (simp add: newGroupState_def)
  ultimately show ?thesis
    by (intro exI [of _ "newGroup cli p s"] exI [of _ "snd (newGroupState s)"])
      ((auto simp: newGroup_def madeFrom_def represents_def projectionApply_run projFilters_def bindP_def split: projection.split); blast)
qed

theorem group_filters_in_order_witness:
  "\<forall>s. \<exists>g s'. GetClusterGroup sampleCluster (map (addProjectionFilter noOpaque) (map Some sampleFilters @ [None])) s = (Inr g, s')"
proof
  fix s
  show "\<exists>g s'. GetClusterGroup sampleCluster (map (addProjectionFilter noOpaque) (map Some sampleFilters @ [None])) s = (Inr g, s')"
    using group_filters_in_order [of "map Some sampleFilters @ [None]" sampleCluster noOpaque s] sampleFilters_ok
    by (fastforce simp: list_all_iff movable_def)
qed

text \<open>C6 Over filters that look at one node at a time (not ForRandom, ForYoungest, ForOldest and
  ExceptGroupNodes), Nodes returns the nodes of the topology that pass every filter, each once, in the
  form the client reads them, and Node with an id finds the one of these that has it, and none when
  none has it; in every later state in which the group's cache of nodes is in step with the topology,
  as it is at first; and it stays in step. The server may apply the filters it is sent or not, as long
  as it leaves out no node that passes them.\<close>

theorem group_nodes:
  assumes flts: "list_all movable flts"
    and made: "GetClusterGroup cli (map (\<lambda>f. addProjectionFilter opaque (Some f)) flts) s0 = (Inr g, s1)"
    and srv: "servesTopology opaque fin topo g"
    and len: "8 + length (filtersBytes (envApd (grpMarsh g)) (grpProjection g)) \<le> maxInt32"
    and ok: "s = s1 \<or> cacheInStep (topo (world (cReg s))) (groupCacheOf g s)"
  shows "(\<exists>ns s'. groupNodes opaque g s = (Inr ns, s') \<and> distinct ns \<and>
      set ns = selected opaque flts (topo (world (cReg s))) \<and>
      topo (world (cReg s')) = topo (world (cReg s)) \<and> cacheInStep (topo (world (cReg s'))) (groupCacheOf g s')) \<and>
    (\<forall>i. \<exists>r s'. groupNode opaque g i s = (Inr r, s') \<and>
      (\<forall>n. r = Some n \<longleftrightarrow> n \<in> selected opaque flts (topo (world (cReg s))) \<and> nodeId n = i) \<and>
      topo (world (cReg s')) = topo (world (cReg s)) \<and> cacheInStep (topo (world (cReg s'))) (groupCacheOf g s'))"
proof -
  have okf: "list_all (\<lambda>x. case x of None \<Rightarrow> True | Some f \<Rightarrow> okFilter f) (map Some flts)"
    using flts by (auto simp: list_all_iff movable_def)
  obtain p where "GetClusterGroup cli (map (addProjectionFilter opaque) (map Some flts)) s0
      = (Inr (newGroup cli p s0), snd (newGroupState s0))" "madeFrom opaque p (map Some flts)"
    by (rule GetClusterGroup_run [OF okf])
  then have g: "g = newGroup cli p s0" "s1 = snd (newGroupState s0)"
    and p: "madeFrom opaque (grpProjection g) (map Some flts)"
    using made by (auto simp: comp_def newGroup_def)
  have "cacheInStep (topo (world (cReg s1))) (groupCacheOf g s1)"
    by (simp add: g newGroup_def cacheInStep_def groupCacheOf_def newGroupState_def)
  then have ok': "cacheInStep (topo (world (cReg s))) (groupCacheOf g s)" using ok by auto
  show ?thesis
    using selected_groupNodes [OF flts p srv len ok'] selected_groupNode [OF flts p srv len ok'] by blast
qed

definition sampleState :: "(bool \<times> byte list \<times> i32, unit) cstate" where
  "sampleState = \<lparr>cReg = sampleReg, cGroups = (\<lambda>_. \<lparr>topVer = 0, cachedNodes = []\<rparr>), cNew = 0\<rparr>"

lemma sampleGroup:
  "GetClusterGroup sampleCluster (map (\<lambda>f. addProjectionFilter noOpaque (Some f)) sampleFilters) sampleState
    = (Inr (newGroup sampleCluster (Projection [NodeTypeFilter False, PredicateFilter (\<lambda>n. sint (nodeOrder n) < 3),
         NodeAttributesFilter [(''zone'', VLeaf (LString ''a''))]]) sampleState), snd (newGroupState sampleState))"
  by (simp add: GetClusterGroup_def newGroupState_def sampleFilters_def addProjectionFilter_def appendFilter_def
      isReorderingAllowed_def bindP_def newGroup_def sampleState_def)

theorem group_nodes_witness:
  "\<exists>g s1 ns s'. GetClusterGroup sampleCluster (map (\<lambda>f. addProjectionFilter noOpaque (Some f)) sampleFilters) sampleState = (Inr g, s1) \<and>
    groupNodes noOpaque g s1 = (Inr ns, s') \<and> nodeId ` set ns = {replicate 15 0 @ [1]} \<and>
    (\<exists>n s'. groupNode noOpaque g (replicate 15 0 @ [1]) s1 = (Inr (Some n), s') \<and> nodeId n = replicate 15 0 @ [1]) \<and>
    (\<exists>s'. groupNode noOpaque g (replicate 15 0 @ [2]) s1 = (Inr None, s'))"
proof -
  let ?p = "Projection [NodeTypeFilter False, PredicateFilter (\<lambda>n. sint (nodeOrder n) < 3),
         NodeAttributesFilter [(''zone'', VLeaf (LString ''a''))]]"
  let ?g = "newGroup sampleCluster ?p sampleState" and ?s = "snd (newGroupState sampleState)"
  have "SupportsAttributeFeature (NewProtocolContext (ver 1 7 0) [ClusterGroupsFeature]) ClusterGroupsFeature"
    by code_simp
  then have srv: "servesTopology noOpaque plainDecFin (\<lambda>_. sampleTopology) ?g"
    by (intro fixedTopology_serves [OF _ sampleTopology_ok])
       (simp_all add: newGroup_def sampleCluster_def sampleEnv_def plainDec_ok [folded plainDecFin_def [abs_def]])
  have len: "8 + length (filtersBytes (envApd (grpMarsh ?g)) (grpProjection ?g)) \<le> maxInt32"
    by (simp add: newGroup_def filtersBytes_def sentFilters_def projFilters_def onServerSide_def isReorderingAllowed_def
        filterBytes_def attrBytes_def lenBytes_def encI16_def encString_def encStr_def maxInt32_def)
  let ?N = "selected noOpaque sampleFilters sampleTopology"
  have N: "nodeId ` ?N = {replicate 15 0 @ [1]}"
    by (auto simp: selected_def sampleTopology_def sampleNode_def sampleFilters_def passes_def attrIs_def canonNode_def
        sameValue_def ifaceEq_def image_iff conj_disj_distribR ex_disj_distrib)
  note all = group_nodes [OF sampleFilters_ok sampleGroup srv len, of ?s, simplified]
  from all obtain ns s' where "groupNodes noOpaque ?g ?s = (Inr ns, s')" "set ns = ?N" by blast
  moreover obtain r s1 where 1: "groupNode noOpaque ?g (replicate 15 0 @ [1]) ?s = (Inr r, s1)"
    "\<forall>n. r = Some n \<longleftrightarrow> n \<in> ?N \<and> nodeId n = replicate 15 0 @ [1]" using all by blast
  moreover obtain q s2 where 2: "groupNode noOpaque ?g (replicate 15 0 @ [2]) ?s = (Inr q, s2)"
    "\<forall>n. q = Some n \<longleftrightarrow> n \<in> ?N \<and> nodeId n = replicate 15 0 @ [2]" using all by blast
  moreover have "\<exists>n. r = Some n \<and> nodeId n = replicate 15 0 @ [1]"
    using N 1(2) by (metis (no_types, lifting) image_iff insertI1)
  moreover have "q = None"
  proof (cases q)
    case (Some n)
    then have "replicate 15 0 @ [2] \<in> nodeId ` ?N" using 2(2) by (metis imageI)
    then show ?thesis unfolding N by simp
  qed
  ultimately show ?thesis using sampleGroup N by (metis (no_types, lifting))
qed

end
