(* ===== verification/ClusterOptions.thy ===== *)
theory ClusterOptions
  imports ClusterGroups
begin

text \<open>
  Single options of cluster groups: the youngest and the oldest node, and two places where the code
  does not do what it means to, the attributes of type int and the count of the filters sent.
\<close>

declare seqW.simps [simp del] unmarshal.simps [simp del]

section \<open>Youngest and oldest\<close>

text \<open>The element at the index the search ends with: greater than all before it, and no less than those after.\<close>

definition firstBest :: "('a \<Rightarrow> int) \<Rightarrow> 'a list \<Rightarrow> 'a \<Rightarrow> bool" where
  "firstBest key xs y \<longleftrightarrow> (\<exists>pre post. xs = pre @ y # post \<and> (\<forall>x \<in> set pre. key x < key y) \<and> (\<forall>x \<in> set post. key x \<le> key y))"

lemma firstBestI: "xs = pre @ y # post \<Longrightarrow> \<forall>x \<in> set pre. key x < key y \<Longrightarrow> \<forall>x \<in> set post. key x \<le> key y \<Longrightarrow>
    firstBest key xs y"
  unfolding firstBest_def by blast

lemma firstBest_single [simp]: "firstBest key [x] x"
  by (rule firstBestI [of _ "[]" _ "[]"]) simp_all

lemma bestIdx_first:
  fixes key :: "'d ClusterNode \<Rightarrow> int"
  assumes "firstBest key pre (nodes ! best)" and "nodes = pre @ rest"
  shows "firstBest key nodes (nodes ! bestIdx (\<lambda>n b. key n > key b) nodes best (length pre) rest)"
  using assms
proof (induction rest arbitrary: pre best)
  case (Cons x rest)
  let ?best = "if key x > key (nodes ! best) then length pre else best"
  obtain xs ys where pre: "pre = xs @ nodes ! best # ys" "\<forall>z \<in> set xs. key z < key (nodes ! best)"
    "\<forall>z \<in> set ys. key z \<le> key (nodes ! best)" using Cons.prems(1) by (auto simp: firstBest_def)
  have "firstBest key (pre @ [x]) (nodes ! ?best)"
  proof (cases "key x > key (nodes ! best)")
    case True
    moreover have "nodes ! length pre = x" using Cons.prems(2) by simp
    moreover have "\<forall>z \<in> set pre. key z < key x" using pre(2,3) True unfolding pre(1) by fastforce
    ultimately show ?thesis using True by (intro firstBestI [of _ pre _ "[]"]) simp_all
  next
    case False
    then show ?thesis
      using pre(2,3) by (intro firstBestI [of _ xs _ "ys @ [x]"]) (auto simp: pre(1))
  qed
  with Cons.IH [of "pre @ [x]" ?best] Cons.prems(2) show ?case by simp
qed simp

lemma bestIdx_all:
  fixes key :: "'d ClusterNode \<Rightarrow> int"
  shows "nodes \<noteq> [] \<Longrightarrow> firstBest key nodes (nodes ! bestIdx (\<lambda>n b. key n > key b) nodes 0 0 nodes)"
proof (cases nodes)
  case (Cons x rest)
  then show ?thesis
    using bestIdx_first [of key "[x]" nodes 0 rest] by simp
qed simp

lemma youngestNode_first: "nodes \<noteq> [] \<Longrightarrow>
    \<exists>y. youngestNode nodes = [y] \<and> firstBest (\<lambda>n. sint (nodeOrder n)) nodes y"
proof (cases "length nodes < 2")
  case True
  then show "nodes \<noteq> [] \<Longrightarrow> ?thesis" by (cases nodes; cases "tl nodes") (auto simp: youngestNode_def)
next
  case False
  then show "nodes \<noteq> [] \<Longrightarrow> ?thesis"
    using bestIdx_all [of nodes "\<lambda>n. sint (nodeOrder n)"] by (simp add: youngestNode_def)
qed

lemma oldestNode_first: "nodes \<noteq> [] \<Longrightarrow>
    \<exists>y. oldestNode nodes = [y] \<and> firstBest (\<lambda>n. - sint (nodeOrder n)) nodes y"
proof (cases "length nodes < 2")
  case True
  then show "nodes \<noteq> [] \<Longrightarrow> ?thesis" by (cases nodes; cases "tl nodes") (auto simp: oldestNode_def)
next
  case False
  then show "nodes \<noteq> [] \<Longrightarrow> ?thesis"
    using bestIdx_all [of nodes "\<lambda>n. - sint (nodeOrder n)"] by (simp add: oldestNode_def)
qed

text \<open>An option that keeps its place sends nothing of its own and works on the nodes of the group without it.\<close>

lemma writeFilters_basic: "writeFilters env (fs @ [BasicFilter f]) cnt bw = writeFilters env fs cnt bw"
  by (induction fs arbitrary: cnt bw) (auto simp: isReorderingAllowed_def writeFilter_def fun_eq_iff bindP_def split: option.split prod.split sum.split)

lemma groupNodes_picked:
  assumes "groupNodes opaque g s = (Inr nodes, s')" and "pick [] = []"
  obtains g' where "\<And>t. addProjectionFilter opaque (Some (BasicFilter (\<lambda>ns. returnP (pick ns)))) g t = (Inr g', t)"
    and "groupNodes opaque g' s = (Inr (pick nodes), s')"
proof (cases "grpProjection g")
  case EmptyProjection
  then have "nodes = []"
    using assms(1) by (auto simp: groupNodes_def projectionApply_run projFilters_def bindP_def
        split: prod.splits sum.splits if_splits)
  then show ?thesis
    using that [of g] assms EmptyProjection
    by (simp add: addProjectionFilter_def appendFilter_def bindP_def)
next
  case (Projection fs)
  let ?f = "BasicFilter (\<lambda>ns. returnP (pick ns))"
  let ?g = "g\<lparr>grpProjection := Projection (fs @ [?f])\<rparr>"
  have 1: "addProjectionFilter opaque (Some ?f) g t = (Inr ?g, t)" for t
    using Projection by (simp add: addProjectionFilter_def appendFilter_def isReorderingAllowed_def bindP_def)
  have ids: "requestNodeIds ?g = requestNodeIds g"
    using Projection
    by (simp add: requestNodeIds_def nodeIdsRequest_def writeServerSideFilters_def projFilters_def writeFilters_basic updGroup_def
        cong: if_cong)
  have nodes: "getOrRequestNodes ?g = getOrRequestNodes g"
  proof -
    have "requestNodes ?g i = requestNodes g i" for i by (simp add: requestNodes_def updGroup_def)
    then show ?thesis by (intro ext) (simp add: getOrRequestNodes_def groupCacheOf_def Let_def)
  qed
  have run: "projectionApply opaque (Projection (fs @ [?f])) ns
      = bindP (projectionApply opaque (Projection fs) ns) (\<lambda>r. returnP (pick r))" for ns
    using assms(2) by (auto simp: projectionApply_run projFilters_def runFilters_append bindP_def split: prod.splits sum.splits)
  have "groupNodes opaque ?g s = bindP (groupNodes opaque g) (\<lambda>r. returnP (pick r)) s"
    using Projection by (simp add: groupNodes_def ids nodes run bindP_assoc)
  then show ?thesis using that [OF 1] assms(1) by (simp add: bindP_def)
qed

text \<open>C39 The option ForYoungest leaves of the nodes that a group returns without it the first with the
  greatest order: each node before it has a smaller order, no node after it a greater one; ForOldest
  the first with the least order. No node is left only when there was none.\<close>

theorem youngest_and_oldest:
  assumes "groupNodes opaque g s = (Inr nodes, s')"
  shows "\<exists>g1 g2. ForYoungest opaque g t = (Inr g1, t) \<and> ForOldest opaque g t = (Inr g2, t) \<and>
    (if nodes = [] then groupNodes opaque g1 s = (Inr [], s') \<and> groupNodes opaque g2 s = (Inr [], s')
     else (\<exists>pre y post. nodes = pre @ y # post \<and> groupNodes opaque g1 s = (Inr [y], s') \<and>
         (\<forall>n \<in> set pre. sint (nodeOrder n) < sint (nodeOrder y)) \<and>
         (\<forall>n \<in> set post. sint (nodeOrder n) \<le> sint (nodeOrder y))) \<and>
       (\<exists>pre y post. nodes = pre @ y # post \<and> groupNodes opaque g2 s = (Inr [y], s') \<and>
         (\<forall>n \<in> set pre. sint (nodeOrder y) < sint (nodeOrder n)) \<and>
         (\<forall>n \<in> set post. sint (nodeOrder y) \<le> sint (nodeOrder n))))"
proof -
  obtain g1 where 1: "ForYoungest opaque g t = (Inr g1, t)" "groupNodes opaque g1 s = (Inr (youngestNode nodes), s')"
    unfolding ForYoungest_def by (rule groupNodes_picked [OF assms, of youngestNode]) (simp_all add: youngestNode_def)
  obtain g2 where 2: "ForOldest opaque g t = (Inr g2, t)" "groupNodes opaque g2 s = (Inr (oldestNode nodes), s')"
    unfolding ForOldest_def by (rule groupNodes_picked [OF assms, of oldestNode]) (simp_all add: oldestNode_def)
  show ?thesis
  proof (cases "nodes = []")
    case True
    then show ?thesis using 1 2 by (simp add: youngestNode_def oldestNode_def)
  next
    case False
    then show ?thesis
      using 1 2 youngestNode_first [OF False] oldestNode_first [OF False]
      by (fastforce simp: firstBest_def)
  qed
qed

theorem youngest_and_oldest_witness:
  "\<exists>g1 y s'. ForYoungest noOpaque (newGroup sampleCluster (Projection []) sampleState) sampleState = (Inr g1, sampleState) \<and>
    groupNodes noOpaque g1 (snd (newGroupState sampleState)) = (Inr [y], s') \<and> nodeOrder y = 3"
proof -
  let ?g = "newGroup sampleCluster (Projection []) sampleState" and ?s = "snd (newGroupState sampleState)"
  have "SupportsAttributeFeature (NewProtocolContext (ver 1 7 0) [ClusterGroupsFeature]) ClusterGroupsFeature"
    by code_simp
  then have srv: "servesTopology noOpaque plainDecFin (\<lambda>_. sampleTopology) ?g"
    by (intro fixedTopology_serves [OF _ sampleTopology_ok])
       (simp_all add: newGroup_def sampleCluster_def sampleEnv_def plainDec_ok [folded plainDecFin_def [abs_def]])
  have p: "madeFrom noOpaque (grpProjection ?g) (map Some [])" by (simp add: newGroup_def madeFrom_start)
  obtain ns s' where r: "groupNodes noOpaque ?g ?s = (Inr ns, s')" and ns: "set ns = canonNode ` set sampleTopology"
    using selected_groupNodes [OF _ p srv, of ?s]
    by (auto simp: newGroup_def filtersBytes_def sentFilters_def projFilters_def lenBytes_def maxInt32_def cacheInStep_def
        groupCacheOf_def newGroupState_def selected_def)
  have "ns \<noteq> []" using ns by (auto simp: sampleTopology_def)
  with youngest_and_oldest [OF r, of sampleState]
  obtain g1 y pre post where y: "ForYoungest noOpaque ?g sampleState = (Inr g1, sampleState)"
    "groupNodes noOpaque g1 ?s = (Inr [y], s')" "ns = pre @ y # post"
    "\<forall>n \<in> set pre. sint (nodeOrder n) < sint (nodeOrder y)" "\<forall>n \<in> set post. sint (nodeOrder n) \<le> sint (nodeOrder y)"
    by auto
  have "\<forall>n \<in> set ns. sint (nodeOrder n) \<le> sint (nodeOrder y)" "y \<in> set ns" using y(3-5) by (auto intro: less_imp_le)
  then have "nodeOrder y = 3"
    unfolding ns by (auto simp: sampleTopology_def sampleNode_def canonNode_def)
  then show ?thesis using y by blast
qed

section \<open>Attributes of type int\<close>

lemma canon_not_int: "canon v \<noteq> VScalar (SInt w)"
proof (cases v)
  case (VScalar s)
  then show ?thesis by (cases s) auto
qed auto

text \<open>ForAttribute with a value of Go's type int lets no node pass, although the server is asked for
  the same bytes as for an int64: the client reads the attribute back as an int64 and compares the
  dynamic types.\<close>

theorem int_attribute_matches_no_node:
  "filterApply opaque (NodeAttributesFilter [(name, VScalar (SInt v))]) (map canonNode nodes) = returnP [] \<and>
   attrBytes A (name, VScalar (SInt v)) = attrBytes A (name, VScalar (SInt64 v))"
proof -
  have "hasAttributes opaque [(name, VScalar (SInt v))] (canonNode n) = Inr False" for n
  proof (cases "map_of (nodeAttributes (canonNode n)) name")
    case (Some x)
    then obtain y where x: "x = canon y" by (auto simp: canonNode_def dest!: map_of_SomeD)
    have "ifaceEq opaque (VScalar (SInt v)) (canon y) = Inr False"
      using canon_not_int [of y v] by (cases "canon y") (auto simp: ifaceEq_def scalarEq_def split: scalar.split)
    then show ?thesis using Some x by simp
  qed simp
  then have "applyPredicate (map canonNode nodes) (hasAttributes opaque [(name, VScalar (SInt v))]) = Inr []"
    by (induction nodes) auto
  then show ?thesis by (simp add: returnP_def attrBytes_def)
qed

section \<open>The count of the filters\<close>

text \<open>Two options ForAttribute are merged into one filter. The request then announces one filter and
  writes two entries, so that a server that reads as many entries as announced takes the first
  attribute only.\<close>

theorem attribute_filters_undercounted:
  fixes g :: "('d, 'w) ClusterGroup"
  assumes "apd_ok (envApd (grpMarsh g)) fin" and "SupportsAttributeFeature (linkProto (grpCh g)) ClusterGroupsFeature"
    and "grpProjection g = Projection []" and "a \<noteq> b" and "small (length a)" and "small (length b)"
    and "plain (envApd (grpMarsh g)) fin x" and "plain (envApd (grpMarsh g)) fin y"
    and "12 + length (attrBytes (envApd (grpMarsh g)) (a, x) @ attrBytes (envApd (grpMarsh g)) (b, y)) \<le> maxInt32"
  shows "\<exists>g' bw. applyGroupOptions [ForAttribute opaque a x, ForAttribute opaque b y] g s = (Inr g', s) \<and>
    nodeIdsRequest g' (NewBinaryOutputStream 0) r = (Inr bw, r) \<and>
    Data bw = encI64 (- 1) @ lenBytes 1 @ attrBytes (envApd (grpMarsh g)) (a, x) @ attrBytes (envApd (grpMarsh g)) (b, y)"
proof -
  let ?p = "Projection [NodeAttributesFilter [(a, x), (b, y)]] :: ('d, ('d, 'w) cstate) projection" and ?A = "envApd (grpMarsh g)"
  let ?g = "g\<lparr>grpProjection := ?p\<rparr>"
  have g: "applyGroupOptions [ForAttribute opaque a x, ForAttribute opaque b y] g s = (Inr ?g, s)"
    using assms(3,4)
    by (simp add: ForAttribute_def addProjectionFilter_def appendFilter_def isReorderingAllowed_def bindP_def)
  have sent: "filtersBytes ?A ?p = lenBytes 1 @ attrBytes ?A (a, x) @ attrBytes ?A (b, y)"
    by (simp add: filtersBytes_def sentFilters_def projFilters_def onServerSide_def isReorderingAllowed_def filterBytes_def)
  have "mwrites (writeServerSideFilters (grpMarsh g) ?p) (filtersBytes ?A ?p)"
    using assms by (intro mwrites_serverSideFilters [of _ fin]) (simp_all add: projFilters_def plainFilter_def)
  then have "mwrites (nodeIdsRequest ?g) (encI64 (- 1) @ filtersBytes ?A ?p)"
    using assms(2) by (auto simp: nodeIdsRequest_def intro!: mwrites_then mwrites_lift writes_i64)
  from mwrites_fresh [OF this, of 0 r] assms(9) show ?thesis
    using g by (auto simp: sent lenBytes_def encI64_def)
qed

theorem attribute_filters_undercounted_witness:
  "\<exists>g' bw. applyGroupOptions [ForAttribute noOpaque ''zone'' (VLeaf (LString ''a'')), ForAttribute noOpaque ''rack'' (VScalar (SInt32 1))]
      (newGroup sampleCluster (Projection []) sampleState) sampleState = (Inr g', sampleState) \<and>
    nodeIdsRequest g' (NewBinaryOutputStream 0) sampleReg = (Inr bw, sampleReg) \<and> take 4 (drop 8 (Data bw)) = lenBytes 1"
proof -
  have "SupportsAttributeFeature (NewProtocolContext (ver 1 7 0) [ClusterGroupsFeature]) ClusterGroupsFeature"
    by code_simp
  then show ?thesis
    using attribute_filters_undercounted [of "newGroup sampleCluster (Projection []) sampleState" plainDecFin "''zone''" "''rack''"
        "VLeaf (LString ''a'')" "VScalar (SInt32 1)" noOpaque sampleState sampleReg]
    by (fastforce simp: newGroup_def sampleCluster_def sampleEnv_def plainDec_ok [folded plainDecFin_def [abs_def]]
        small_def maxInt32_def attrBytes_def encI16_def encI32_def encI64_def encString_def encStr_def lenBytes_def)
qed

end
