(* ===== verification/Client.thy ===== *)
theory Client
  imports Cluster CacheConfig Cursor Transactions
begin

text \<open>
  client.go: the caches of the cluster, the state of the cluster and of its write-ahead log, the
  registration of types, the options of the client and Start. Dialing and the channels behind a
  client are parameters, as in Reliable; so are the logger and the decimal package.
\<close>

declare seqW.simps [simp del] unmarshal.simps [simp del]

section \<open>Caches\<close>

definition opCacheGetNames :: i16 where "opCacheGetNames = 1050"
definition opCacheCreateWithName :: i16 where "opCacheCreateWithName = 1051"
definition opCacheGetOrCreateWithName :: i16 where "opCacheGetOrCreateWithName = 1052"
definition opCacheCreateWithConfig :: i16 where "opCacheCreateWithConfig = 1053"
definition opCacheGetOrCreateWithConfig :: i16 where "opCacheGetOrCreateWithConfig = 1054"
definition opCacheDestroy :: i16 where "opCacheDestroy = 1056"

text \<open>A negative count makes \<open>make\<close> panic.\<close>

definition readNames :: "string list reader" where
  "readNames = bindR ReadInt32 (\<lambda>sz. if sint sz < 0 then panicR else readN (nat (sint sz)) unmarshalString)"

definition CacheNames :: "('d, 'w) client \<Rightarrow> ('w registry, string list) prog" where
  "CacheNames cli = sendOp (cliCh cli) opCacheGetNames emptyRequest (liftR readNames)"

definition emptyCacheName :: gerror where
  "emptyCacheName = ErrMsg ''cache name is empty''"

definition CreateCache :: "('d, 'w) client \<Rightarrow> string \<Rightarrow> ('w registry, ('d, 'w) Cache) prog" where
  "CreateCache cli name =
     (let name = TrimSpace name in
      if length name = 0 then failP emptyCacheName
      else bindP (sendOp (cliCh cli) opCacheCreateWithName (liftW (marshalString name)) noResponse)
             (\<lambda>_. returnP (newCache cli name)))"

definition CreateCacheWithConfiguration :: "('d, 'w) client \<Rightarrow> 'd CacheConfiguration \<Rightarrow> ('w registry, ('d, 'w) Cache) prog" where
  "CreateCacheWithConfiguration cli config =
     bindP (sendOp (cliCh cli) opCacheCreateWithConfig (marshalConfig (linkProto (cliCh cli)) (cliEnv cli) config) noResponse)
       (\<lambda>_. returnP (newCache cli (ConfigName config)))"

definition GetOrCreateCache :: "('d, 'w) client \<Rightarrow> string \<Rightarrow> ('w registry, ('d, 'w) Cache) prog" where
  "GetOrCreateCache cli name =
     (let name = TrimSpace name in
      if length name = 0 then failP emptyCacheName
      else bindP (sendOp (cliCh cli) opCacheGetOrCreateWithName (marshal (cliEnv cli) (VLeaf (LString name))) noResponse)
             (\<lambda>_. returnP (newCache cli name)))"

definition GetOrCreateCacheWithConfiguration :: "('d, 'w) client \<Rightarrow> 'd CacheConfiguration \<Rightarrow> ('w registry, ('d, 'w) Cache) prog" where
  "GetOrCreateCacheWithConfiguration cli config =
     bindP (sendOp (cliCh cli) opCacheGetOrCreateWithConfig (marshalConfig (linkProto (cliCh cli)) (cliEnv cli) config) noResponse)
       (\<lambda>_. returnP (newCache cli (ConfigName config)))"

text \<open>The name is hashed as it is given, not trimmed.\<close>

definition DestroyCache :: "('d, 'w) client \<Rightarrow> string \<Rightarrow> ('w registry, unit) prog" where
  "DestroyCache cli name = sendOp (cliCh cli) opCacheDestroy (liftW (WriteInt32 (HashCode name))) noResponse"

section \<open>The state of the cluster\<close>

text \<open>A cluster state is its code; Inactive, Active and ActiveReadOnly are 0, 1 and 2.\<close>

type_synonym ClusterState = byte

definition Inactive :: ClusterState where "Inactive = 0"
definition Active :: ClusterState where "Active = 1"
definition ActiveReadOnly :: ClusterState where "ActiveReadOnly = 2"

definition GetClusterState :: "('d, 'w) client \<Rightarrow> ('w registry, ClusterState) prog" where
  "GetClusterState cli =
     sendOp (cliCh cli) opClusterGetState (liftW (checkClusterApiSupportedByServer (linkProto (cliCh cli)))) (liftR ReadInt8)"

definition ChangeClusterState :: "('d, 'w) client \<Rightarrow> ClusterState \<Rightarrow> ('w registry, unit) prog" where
  "ChangeClusterState cli state =
     sendOp (cliCh cli) opClusterChangeState
       (liftW (seqW
         [checkClusterApiSupportedByServer (linkProto (cliCh cli)),
          (if sint state > 1 \<and> \<not> SupportsAttributeFeature (linkProto (cliCh cli)) ClusterStatesFeature
           then failW (ErrMsg ''cluster state is not supported by the server'') else WriteInt8 state)])) noResponse"

definition IsWalEnabled :: "('d, 'w) client \<Rightarrow> string \<Rightarrow> ('w registry, bool) prog" where
  "IsWalEnabled cli cName =
     sendOp (cliCh cli) opClusterGetWalState
       (liftW (seqW [checkClusterApiSupportedByServer (linkProto (cliCh cli)), marshalString cName])) (liftR ReadBool)"

definition changeWalState :: "('d, 'w) client \<Rightarrow> string \<Rightarrow> bool \<Rightarrow> ('w registry, bool) prog" where
  "changeWalState cli cName isEnabled =
     sendOp (cliCh cli) opClusterChangeWalState
       (liftW (seqW [checkClusterApiSupportedByServer (linkProto (cliCh cli)), marshalString cName, WriteBool isEnabled]))
       (liftR ReadBool)"

definition EnableWal :: "('d, 'w) client \<Rightarrow> string \<Rightarrow> ('w registry, bool) prog" where
  "EnableWal cli cName = changeWalState cli cName True"

definition DisableWal :: "('d, 'w) client \<Rightarrow> string \<Rightarrow> ('w registry, bool) prog" where
  "DisableWal cli cName = changeWalState cli cName False"

section \<open>Registration of types\<close>

text \<open>What reflection says of the type parameter, whether it is a pointer, whether an int converts to
  it, and its name, is given.\<close>

definition RegisterType :: "bool \<Rightarrow> gerror + string \<Rightarrow> ((string \<Rightarrow> ('w registry, 'd goval) prog) \<Rightarrow> ('w registry, 'd goval) prog) \<Rightarrow>
    ('d, 'w) client \<Rightarrow> ('d, 'w) client res" where
  "RegisterType isPointer typeName f cli =
     (if \<not> isPointer then Inl (Fail (ErrMsg ''failed to register type: type must be a pointer''))
      else bindE (registerTypeFactory typeName (BinFactory f) (cliEnv cli)) (\<lambda>env. Inr (cli\<lparr>cliEnv := env\<rparr>)))"

definition RegisterEnum :: "bool \<Rightarrow> gerror + string \<Rightarrow> (int \<Rightarrow> 'd goval) \<Rightarrow> ('d, 'w) client \<Rightarrow> ('d, 'w) client res" where
  "RegisterEnum isConvertible typeName f cli =
     (if \<not> isConvertible then Inl (Fail (ErrMsg ''failed to register type: type must be a convertable to int''))
      else bindE (registerTypeFactory typeName (EnumFactory f (f 0) typeName) (cliEnv cli)) (\<lambda>env. Inr (cli\<lparr>cliEnv := env\<rparr>)))"

definition ClientVersion :: "('d, 'w) client \<Rightarrow> string" where
  "ClientVersion cli = versionString (version (linkProto (cliCh cli)))"

section \<open>Addresses\<close>

text \<open>net.SplitHostPort and net.JoinHostPort of the Go library.\<close>

fun indexOf :: "char \<Rightarrow> string \<Rightarrow> nat option" where
  "indexOf c [] = None"
| "indexOf c (x # xs) = (if x = c then Some 0 else map_option Suc (indexOf c xs))"

definition lastIndexOf :: "char \<Rightarrow> string \<Rightarrow> nat option" where
  "lastIndexOf c s = map_option (\<lambda>i. length s - 1 - i) (indexOf c (rev s))"

definition addrErr :: "string \<Rightarrow> gerror" where
  "addrErr why = ErrMsg why"

definition SplitHostPort :: "string \<Rightarrow> gerror + string \<times> string" where
  "SplitHostPort hostport = (case lastIndexOf CHR '':'' hostport of
     None \<Rightarrow> Inl (addrErr ''missing port in address'')
   | Some i \<Rightarrow>
       bindE (if hostport ! 0 = CHR ''['' then
                (case indexOf CHR '']'' hostport of
                   None \<Rightarrow> Inl (addrErr ''missing bracket in address'')
                 | Some e \<Rightarrow>
                     if Suc e = length hostport then Inl (addrErr ''missing port in address'')
                     else if Suc e = i then Inr (drop 1 (take e hostport), 1, Suc e)
                     else if hostport ! Suc e = CHR '':'' then Inl (addrErr ''too many colons in address'')
                     else Inl (addrErr ''missing port in address''))
              else if indexOf CHR '':'' (take i hostport) \<noteq> None then Inl (addrErr ''too many colons in address'')
              else Inr (take i hostport, 0, 0)) (\<lambda>(host, j, k).
       if indexOf CHR ''['' (drop j hostport) \<noteq> None then Inl (addrErr ''unexpected bracket in address'')
       else if indexOf CHR '']'' (drop k hostport) \<noteq> None then Inl (addrErr ''unexpected bracket in address'')
       else Inr (host, drop (Suc i) hostport)))"

definition JoinHostPort :: "string \<Rightarrow> string \<Rightarrow> string" where
  "JoinHostPort host port =
     (if indexOf CHR '':'' host \<noteq> None then ''['' @ host @ '']:'' @ port else host @ '':'' @ port)"

definition defaultPort :: string where "defaultPort = ''10800''"

definition prepareAddress :: "string \<Rightarrow> gerror + string" where
  "prepareAddress addr =
     (let addr = (case SplitHostPort addr of Inl _ \<Rightarrow> JoinHostPort addr defaultPort | Inr _ \<Rightarrow> addr)
      in case SplitHostPort addr of Inl e \<Rightarrow> Inl e | Inr _ \<Rightarrow> Inr addr)"

fun prepareAddresses :: "string list \<Rightarrow> gerror + string list" where
  "prepareAddresses [] = Inr []"
| "prepareAddresses (a # as') = bindE (prepareAddress a) (\<lambda>p. bindE (prepareAddresses as') (\<lambda>ps. Inr (p # ps)))"

section \<open>Configuration\<close>

record idMapper =
  mapTypeId :: "string \<Rightarrow> i32"
  mapFieldId :: "i32 \<Rightarrow> string \<Rightarrow> i32"

text \<open>Suppliers of TLS configurations and loggers are values of other packages.\<close>

record ('w, 't, 'l) clientConfiguration =
  ccAddresses :: "('w \<Rightarrow> (gerror + string list) \<times> 'w) option"
  ccShuffle :: bool
  ccUser :: string
  ccPassword :: string
  ccAttrs :: "(string \<times> string) list"
  ccTls :: "'t option"
  ccRequestTimeout :: i64
  ccRetryLimit :: int
  ccLogger :: "'l option"
  ccProtocol :: ProtocolContext
  ccAutoBinaryConfig :: bool
  ccCompactFooter :: bool
  ccIdMapper :: "idMapper option"
  ccTxTimeout :: i64
  ccTxIsolation :: TransactionIsolationLevel
  ccTxConcurrency :: TransactionConcurrency

type_synonym ('w, 't, 'l) ClientOption = "('w, 't, 'l) clientConfiguration \<Rightarrow> gerror + ('w, 't, 'l) clientConfiguration"

definition WithAddressSupplier :: "('w \<Rightarrow> (gerror + string list) \<times> 'w) option \<Rightarrow> ('w, 't, 'l) ClientOption" where
  "WithAddressSupplier supplier c =
     (if supplier = None then Inl (ErrMsg ''nil address supplier'') else Inr (c\<lparr>ccAddresses := supplier\<rparr>))"

definition WithShuffleAddresses :: "bool \<Rightarrow> ('w, 't, 'l) ClientOption" where
  "WithShuffleAddresses shuffle c = Inr (c\<lparr>ccShuffle := shuffle\<rparr>)"

definition WithAddresses :: "string list \<Rightarrow> ('w, 't, 'l) ClientOption" where
  "WithAddresses addresses c =
     (if length addresses = 0 then Inl (ErrMsg ''empty addressed supplied'')
      else case prepareAddresses addresses of
        Inl e \<Rightarrow> Inl e
      | Inr preparedAddrs \<Rightarrow> Inr (c\<lparr>ccAddresses := Some (\<lambda>w. (Inr preparedAddrs, w))\<rparr>))"

definition WithCredentials :: "string \<Rightarrow> string \<Rightarrow> ('w, 't, 'l) ClientOption" where
  "WithCredentials username password c =
     Inr (if length username \<noteq> 0 \<and> length password \<noteq> 0 then c\<lparr>ccUser := username, ccPassword := password\<rparr> else c)"

definition WithTls :: "'t option \<Rightarrow> ('w, 't, 'l) ClientOption" where
  "WithTls supplier c =
     (if supplier = None then Inl (ErrMsg ''nil tls configuration supplier'') else Inr (c\<lparr>ccTls := supplier\<rparr>))"

definition WithRequestTimeout :: "i64 \<Rightarrow> ('w, 't, 'l) ClientOption" where
  "WithRequestTimeout timeout c = Inr (c\<lparr>ccRequestTimeout := (if sint timeout \<le> 0 then 0 else timeout)\<rparr>)"

definition WithClientAttribute :: "string \<Rightarrow> string \<Rightarrow> ('w, 't, 'l) ClientOption" where
  "WithClientAttribute key val c =
     Inr (if length key \<noteq> 0 \<and> length val \<noteq> 0 then c\<lparr>ccAttrs := AList.update key val (ccAttrs c)\<rparr> else c)"

definition WithLoggingSink :: "'l option \<Rightarrow> ('w, 't, 'l) ClientOption" where
  "WithLoggingSink sink c = Inr (if sink = None then c else c\<lparr>ccLogger := sink\<rparr>)"

definition WithProtocolContext :: "ProtocolVersion \<Rightarrow> AttributeFeature list \<Rightarrow> ('w, 't, 'l) ClientOption" where
  "WithProtocolContext v fs c = Inr (c\<lparr>ccProtocol := NewProtocolContext v fs\<rparr>)"

definition WithDisabledAutoBinaryConfiguration :: "('w, 't, 'l) ClientOption" where
  "WithDisabledAutoBinaryConfiguration c = Inr (c\<lparr>ccAutoBinaryConfig := False\<rparr>)"

definition WithBinaryCompactFooter :: "bool \<Rightarrow> ('w, 't, 'l) ClientOption" where
  "WithBinaryCompactFooter isCompact c = Inr (c\<lparr>ccCompactFooter := isCompact\<rparr>)"

definition WithBinaryIdMapper :: "idMapper option \<Rightarrow> ('w, 't, 'l) ClientOption" where
  "WithBinaryIdMapper m c = Inr (c\<lparr>ccIdMapper := m\<rparr>)"

definition WithDefaultTransactionIsolationLevel :: "TransactionIsolationLevel \<Rightarrow> ('w, 't, 'l) ClientOption" where
  "WithDefaultTransactionIsolationLevel lvl c = Inr (c\<lparr>ccTxIsolation := lvl\<rparr>)"

definition WithDefaultTransactionConcurrency :: "TransactionConcurrency \<Rightarrow> ('w, 't, 'l) ClientOption" where
  "WithDefaultTransactionConcurrency concurrency c = Inr (c\<lparr>ccTxConcurrency := concurrency\<rparr>)"

definition WithDefaultTransactionTimeout :: "i64 \<Rightarrow> ('w, 't, 'l) ClientOption" where
  "WithDefaultTransactionTimeout timeout c = Inr (c\<lparr>ccTxTimeout := timeout\<rparr>)"

section \<open>Starting a client\<close>

definition defaultConfig :: "('w, 't, 'l) clientConfiguration" where
  "defaultConfig = \<lparr>ccAddresses = None, ccShuffle = True, ccUser = [], ccPassword = [], ccAttrs = [], ccTls = None,
     ccRequestTimeout = 0, ccRetryLimit = 0, ccLogger = None,
     ccProtocol = NewProtocolContext (ver 1 7 0)
       [UserAttributesFeature, BinaryConfigurationFeature, DefaultQueryTimeoutFeature, QueryPartitionsBatchSizeFeature,
        ClusterStatesFeature, ClusterGroupsFeature],
     ccAutoBinaryConfig = True, ccCompactFooter = True, ccIdMapper = None,
     ccTxTimeout = 0, ccTxIsolation = RepeatableReadLevel, ccTxConcurrency = PessimisticConcurrency\<rparr>"

definition basicMapper :: "(string \<Rightarrow> string) \<Rightarrow> idMapper" where
  "basicMapper unicode = \<lparr>mapTypeId = basicTypeId unicode, mapFieldId = basicFieldId unicode\<rparr>"

definition fillDefaults :: "(string \<Rightarrow> string) \<Rightarrow> 'l \<Rightarrow> ('w, 't, 'l) clientConfiguration \<Rightarrow> ('w, 't, 'l) clientConfiguration" where
  "fillDefaults unicode dfltLogger c =
     (let c = (if ccLogger c = None then c\<lparr>ccLogger := Some dfltLogger\<rparr> else c)
      in if ccIdMapper c = None then c\<lparr>ccIdMapper := Some (basicMapper unicode)\<rparr> else c)"

definition newClient :: "'d apd \<Rightarrow> ('w, 't, 'l) clientConfiguration \<Rightarrow> 'w link \<Rightarrow> ('d, 'w) client" where
  "newClient A c ch = \<lparr>cliCh = ch, cliEnv = \<lparr>envApd = A, envServer = linkServer ch, envCompact = ccCompactFooter c,
     envTypeId = mapTypeId (the (ccIdMapper c)), envFieldId = mapFieldId (the (ccIdMapper c)), envFactories = \<lambda>_. None\<rparr>\<rparr>"

text \<open>\<open>connect\<close> makes the channel of a configuration: createReliableChannel with its connections. The
  client comes back also beside the error of the last step.\<close>

definition Start :: "'d apd \<Rightarrow> (string \<Rightarrow> string) \<Rightarrow> 'l \<Rightarrow> (('w, 't, 'l) clientConfiguration \<Rightarrow> ('w registry, 'w link) prog) \<Rightarrow>
    ('w, 't, 'l) ClientOption list \<Rightarrow> ('w registry, ('d, 'w) client \<times> gerror option) prog" where
  "Start A unicode dfltLogger connect opts = (case applyOptions opts defaultConfig of
     Inl e \<Rightarrow> failP e
   | Inr c \<Rightarrow>
     let c = fillDefaults unicode dfltLogger c in
     if ccAddresses c = None then failP (ErrMsg ''address supplier is nil'')
     else bindP (connect c) (\<lambda>ch. \<lambda>s.
       (let s = s\<lparr>regCache := newBinaryMetadataCache\<rparr>; cli = newClient A c ch in
        if \<not> ccAutoBinaryConfig c then (Inr (cli, None), s)
        else bindP (tryP (checkBinaryConfiguration ch (cliEnv cli))) (\<lambda>r. case r of
          Inl e \<Rightarrow> returnP (cli, Some e)
        | Inr env \<Rightarrow> returnP (cli\<lparr>cliEnv := env\<rparr>, None)) s)))"

text \<open>The defaults of the options of a transaction.\<close>

definition txDefaultsOf :: "('w, 't, 'l) clientConfiguration \<Rightarrow> transactionOptions" where
  "txDefaultsOf c = \<lparr>txIsoLvl = ccTxIsolation c, txConcurrency = ccTxConcurrency c, txLabel = [], txTimeout = ccTxTimeout c\<rparr>"

end
