(* ===== verification/ClientProps.thy ===== *)
theory ClientProps
  imports Client ClusterGroups Handshake
begin

text \<open>
  Properties of the client: the caches of a cluster over a server that keeps a set of names, the
  addresses it connects to, how it starts, and the check of the cluster API.
\<close>

declare seqW.simps [simp del] unmarshal.simps [simp del]

section \<open>The caches of the cluster\<close>

datatype adminCmd = ACreate string | AGetOrCreate string | ADestroy string | ANames

datatype answer = AnsCache string | AnsDone | AnsNames "string list"

definition adminOp :: "('d, 'w) client \<Rightarrow> adminCmd \<Rightarrow> ('w registry, answer) prog" where
  "adminOp cli c = (case c of
     ACreate n \<Rightarrow> bindP (CreateCache cli n) (\<lambda>c. returnP (AnsCache (cacheName c)))
   | AGetOrCreate n \<Rightarrow> bindP (GetOrCreateCache cli n) (\<lambda>c. returnP (AnsCache (cacheName c)))
   | ADestroy n \<Rightarrow> bindP (DestroyCache cli n) (\<lambda>_. returnP AnsDone)
   | ANames \<Rightarrow> bindP (CacheNames cli) (\<lambda>ns. returnP (AnsNames ns)))"

primrec adminRun :: "('d, 'w) client \<Rightarrow> adminCmd list \<Rightarrow> ('w registry, (gerror + answer) list) prog" where
  "adminRun cli [] = returnP []"
| "adminRun cli (c # cs) = bindP (tryP (adminOp cli c)) (\<lambda>r. bindP (adminRun cli cs) (\<lambda>rs. returnP (r # rs)))"

text \<open>The specification: what a command answers, none being an error, and the names after it.\<close>

datatype specAnswer = SErr | SCache string | SDone | SNames "string set"

fun adminSpec :: "adminCmd \<Rightarrow> string set \<Rightarrow> specAnswer \<times> string set" where
  "adminSpec (ACreate n) S =
     (let t = TrimSpace n in if t = [] \<or> t \<in> S then (SErr, S) else (SCache t, insert t S))"
| "adminSpec (AGetOrCreate n) S =
     (let t = TrimSpace n in if t = [] then (SErr, S) else (SCache t, insert t S))"
| "adminSpec (ADestroy n) S =
     (if \<exists>t \<in> S. HashCode t = HashCode n then (SDone, {t \<in> S. HashCode t \<noteq> HashCode n}) else (SErr, S))"
| "adminSpec ANames S = (SNames S, S)"

fun answers :: "gerror + answer \<Rightarrow> specAnswer \<Rightarrow> bool" where
  "answers (Inl e) a = (a = SErr)"
| "answers (Inr (AnsCache n)) a = (a = SCache n)"
| "answers (Inr AnsDone) a = (a = SDone)"
| "answers (Inr (AnsNames ns)) a = (a = SNames (set ns) \<and> distinct ns)"

fun specRun :: "adminCmd list \<Rightarrow> string set \<Rightarrow> specAnswer list \<times> string set" where
  "specRun [] S = ([], S)"
| "specRun (c # cs) S = (case adminSpec c S of (a, S') \<Rightarrow> case specRun cs S' of (as', T) \<Rightarrow> (a # as', T))"

text \<open>A server that keeps the names of the caches, all of them from a set of names that fit the wire.\<close>

definition namesServer :: "string set \<Rightarrow> 'w server \<Rightarrow> ('w \<Rightarrow> string set) \<Rightarrow> bool" where
  "namesServer U srv view \<longleftrightarrow>
     (\<forall>w. \<exists>ns w'. srv opCacheGetNames [] w = (Inr (lenBytes (length ns) @ concat (map encString ns)), w') \<and>
        set ns = view w \<and> distinct ns \<and> small (length ns) \<and> view w' = view w \<and> (\<forall>n \<in> set ns. small (length n))) \<and>
     (\<forall>w. \<forall>t \<in> U. \<exists>r w'. srv opCacheCreateWithName (encString t) w = (r, w') \<and>
        (if t \<in> view w then (\<exists>e. r = Inl e) \<and> view w' = view w else r = Inr [] \<and> view w' = insert t (view w))) \<and>
     (\<forall>w. \<forall>t \<in> U. \<exists>w'. srv opCacheGetOrCreateWithName (encString t) w = (Inr [], w') \<and> view w' = insert t (view w)) \<and>
     (\<forall>w h. \<exists>r w'. srv opCacheDestroy (encI32 h) w = (r, w') \<and>
        (if \<exists>t \<in> view w. HashCode t = h then r = Inr [] \<and> view w' = {t \<in> view w. HashCode t \<noteq> h}
         else (\<exists>e. r = Inl e) \<and> view w' = view w))"

definition nameFits :: "string set \<Rightarrow> string \<Rightarrow> bool" where
  "nameFits U n \<longleftrightarrow> TrimSpace n = [] \<or> (TrimSpace n \<in> U \<and> length (TrimSpace n) + 5 \<le> maxInt32)"

fun cmdFits :: "string set \<Rightarrow> adminCmd \<Rightarrow> bool" where
  "cmdFits U (ACreate n) = nameFits U n"
| "cmdFits U (AGetOrCreate n) = nameFits U n"
| "cmdFits U _ = True"

lemma reads_readNames:
  assumes "\<forall>n \<in> set ns. small (length n)" and "small (length ns)"
  shows "reads readNames (lenBytes (length ns) @ concat (map encString ns)) ns"
proof -
  have "reads (readN (length ns) unmarshalString) (concat (map encString ns)) ns"
    using assms(1) reads_readN [of ns unmarshalString encString "\<lambda>n. n"] by (simp add: reads_encString)
  then show ?thesis
    unfolding readNames_def by (intro reads_bind [OF reads_len]) (simp add: sint_small assms(2))
qed

text \<open>A request whose response is empty: it succeeds or fails as the server says.\<close>

lemma sendOp_plain:
  assumes "mwrites req bs" and "length bs \<le> maxInt32" and "linkServer ch opc bs (world s) = (r, w)" and "\<forall>x. r = Inr x \<longrightarrow> x = []"
  shows "sendOp ch opc req noResponse s = (case r of Inl e \<Rightarrow> Inl (Fail e) | Inr _ \<Rightarrow> Inr (), s\<lparr>world := w\<rparr>)"
proof (cases r)
  case (Inl e)
  then show ?thesis using sendOp_error [OF assms(1,2)] assms(3) by simp
next
  case (Inr x)
  then show ?thesis using sendOp_run [OF assms(1,2) _ mreads_noResponse, of ch opc s "[]" w] assms(3,4) by simp
qed

lemma encString_length: "length (encString t) = length t + 5"
  by (simp add: encString_def encStr_def lenBytes_def)

lemma adminOp_run:
  assumes srv: "namesServer U (linkServer (cliCh cli)) view" and A: "apd_ok (envApd (cliEnv cli)) fin" and fits: "cmdFits U c"
  shows "\<exists>r s'. tryP (adminOp cli c) s = (Inr r, s') \<and> answers r (fst (adminSpec c (view (world s)))) \<and>
    view (world s') = snd (adminSpec c (view (world s)))"
proof (cases c)
  case (ACreate n)
  let ?t = "TrimSpace n"
  show ?thesis
  proof (cases "?t = []")
    case True
    then show ?thesis using ACreate by (simp add: adminOp_def CreateCache_def Let_def tryP_def bindP_def)
  next
    case False
    then have t: "?t \<in> U" "length ?t + 5 \<le> maxInt32" using fits ACreate by (auto simp: nameFits_def)
    obtain r w where w: "linkServer (cliCh cli) opCacheCreateWithName (encString ?t) (world s) = (r, w)"
      "if ?t \<in> view (world s) then (\<exists>e. r = Inl e) \<and> view w = view (world s) else r = Inr [] \<and> view w = insert ?t (view (world s))"
      using srv t(1) unfolding namesServer_def by blast
    have m: "mwrites (liftW (marshalString ?t)) (encString ?t)"
      unfolding encString_def by (rule mwrites_lift [OF writes_marshalString])
    have "sendOp (cliCh cli) opCacheCreateWithName (liftW (marshalString ?t)) noResponse s
        = (case r of Inl e \<Rightarrow> Inl (Fail e) | Inr _ \<Rightarrow> Inr (), s\<lparr>world := w\<rparr>)"
      by (rule sendOp_plain [OF m _ w(1)]) (use t(2) w(2) in \<open>auto simp: encString_length split: if_splits\<close>)
    then show ?thesis using ACreate w(2) False
      by (auto simp: adminOp_def CreateCache_def Let_def tryP_def bindP_def newCache_def split: if_splits)
  qed
next
  case (AGetOrCreate n)
  let ?t = "TrimSpace n"
  show ?thesis
  proof (cases "?t = []")
    case True
    then show ?thesis using AGetOrCreate by (simp add: adminOp_def GetOrCreateCache_def Let_def tryP_def bindP_def)
  next
    case False
    then have t: "?t \<in> U" "length ?t + 5 \<le> maxInt32" using fits AGetOrCreate by (auto simp: nameFits_def)
    obtain w where w: "linkServer (cliCh cli) opCacheGetOrCreateWithName (encString ?t) (world s) = (Inr [], w)"
      "view w = insert ?t (view (world s))" using srv t(1) unfolding namesServer_def by blast
    have "small (length ?t)" using t(2) by (simp add: small_def maxInt32_def)
    then have m: "mwrites (marshal (cliEnv cli) (VLeaf (LString ?t))) (encString ?t)"
      using mwrites_marshal [OF A, of "VLeaf (LString ?t)"] by (simp add: encString_def)
    have "sendOp (cliCh cli) opCacheGetOrCreateWithName (marshal (cliEnv cli) (VLeaf (LString ?t))) noResponse s
        = (Inr (), s\<lparr>world := w\<rparr>)"
      using sendOp_plain [OF m _ w(1)] t(2) by (simp add: encString_length)
    then show ?thesis using AGetOrCreate w(2) False
      by (auto simp: adminOp_def GetOrCreateCache_def Let_def tryP_def bindP_def newCache_def split: if_splits)
  qed
next
  case (ADestroy n)
  obtain r w where w: "linkServer (cliCh cli) opCacheDestroy (encI32 (HashCode n)) (world s) = (r, w)"
    "if \<exists>t \<in> view (world s). HashCode t = HashCode n
     then r = Inr [] \<and> view w = {t \<in> view (world s). HashCode t \<noteq> HashCode n}
     else (\<exists>e. r = Inl e) \<and> view w = view (world s)"
    using srv unfolding namesServer_def by blast
  have "sendOp (cliCh cli) opCacheDestroy (liftW (WriteInt32 (HashCode n))) noResponse s
      = (case r of Inl e \<Rightarrow> Inl (Fail e) | Inr _ \<Rightarrow> Inr (), s\<lparr>world := w\<rparr>)"
    by (rule sendOp_plain [OF mwrites_lift [OF writes_i32(1)] _ w(1)])
       (use w(2) in \<open>auto simp: encI32_def maxInt32_def split: if_splits\<close>)
  then show ?thesis using ADestroy w(2)
    by (cases r) (auto simp: adminOp_def DestroyCache_def tryP_def bindP_def split: if_splits)
next
  case ANames
  obtain ns w where w: "linkServer (cliCh cli) opCacheGetNames [] (world s) = (Inr (lenBytes (length ns) @ concat (map encString ns)), w)"
    "set ns = view (world s)" "distinct ns" "small (length ns)" "view w = view (world s)" "\<forall>n \<in> set ns. small (length n)"
    using srv unfolding namesServer_def by blast
  have "CacheNames cli s = (Inr ns, s\<lparr>world := w\<rparr>)"
    unfolding CacheNames_def
    by (rule sendOp_run [OF mwrites_empty _ _ mreads_lift [OF reads_readNames [OF w(6,4)]], where rest = "[]"]) (simp_all add: w(1))
  then show ?thesis using ANames w(2,3,5) by (simp add: adminOp_def tryP_def bindP_def)
qed

text \<open>C10 The caches of a cluster, as a client sees them, are a set of names: any sequence of creating,
  getting or creating, destroying and listing answers as the set does and leaves the server with the
  names of the set. Names are trimmed when a cache is made, and hashed as given when it is destroyed.\<close>

theorem caches_refine_names:
  assumes "namesServer U (linkServer (cliCh cli)) view" and "apd_ok (envApd (cliEnv cli)) fin" and "list_all (cmdFits U) cmds"
  shows "\<exists>rs s'. adminRun cli cmds s = (Inr rs, s') \<and> list_all2 answers rs (fst (specRun cmds (view (world s)))) \<and>
    view (world s') = snd (specRun cmds (view (world s)))"
  using assms(3)
proof (induction cmds arbitrary: s)
  case (Cons c cs)
  obtain r s1 where 1: "tryP (adminOp cli c) s = (Inr r, s1)" "answers r (fst (adminSpec c (view (world s))))"
    "view (world s1) = snd (adminSpec c (view (world s)))"
    using adminOp_run [OF assms(1,2)] Cons.prems by fastforce
  obtain rs s2 where "adminRun cli cs s1 = (Inr rs, s2)" "list_all2 answers rs (fst (specRun cs (view (world s1))))"
    "view (world s2) = snd (specRun cs (view (world s1)))"
    using Cons by fastforce
  with 1 show ?case by (auto simp: bindP_def case_prod_unfold)
qed simp

definition sampleNames :: "string list" where "sampleNames = [''a'', ''b'']"

definition namesTable :: "string list server" where
  "namesTable op bs = (\<lambda>w.
     if op = opCacheGetNames then
       (let ns = filter (\<lambda>t. t \<in> set w) sampleNames in (Inr (lenBytes (length ns) @ concat (map encString ns)), w))
     else if op = opCacheDestroy then
       (if \<exists>t \<in> set w \<inter> set sampleNames. encI32 (HashCode t) = bs then (Inr [], filter (\<lambda>t. encI32 (HashCode t) \<noteq> bs) w)
        else (Inl (ErrMsg ''no cache''), w))
     else
       (case find (\<lambda>t. encString t = bs) sampleNames of
          None \<Rightarrow> (Inl (ErrMsg ''name''), w)
        | Some t \<Rightarrow> if op = opCacheCreateWithName \<and> t \<in> set w then (Inl (ErrMsg ''cache exists''), w) else (Inr [], t # w)))"

lemma encI32_inj: "encI32 a = encI32 b \<longleftrightarrow> a = b"
  unfolding encI32_def by (metis word_of_le_32)

lemma namesTable_ok: "namesServer (set sampleNames) namesTable (\<lambda>w. set w \<inter> set sampleNames)"
  unfolding namesServer_def
proof (intro conjI allI ballI)
  fix w
  show "\<exists>ns w'. namesTable opCacheGetNames [] w = (Inr (lenBytes (length ns) @ concat (map encString ns)), w') \<and>
      set ns = set w \<inter> set sampleNames \<and> distinct ns \<and> small (length ns) \<and>
      set w' \<inter> set sampleNames = set w \<inter> set sampleNames \<and> (\<forall>n \<in> set ns. small (length n))"
    by (intro exI [of _ "filter (\<lambda>t. t \<in> set w) sampleNames"] exI [of _ w])
       (auto simp: namesTable_def Let_def sampleNames_def small_def maxInt32_def)
next
  fix w t assume "t \<in> set sampleNames"
  then show "\<exists>r w'. namesTable opCacheCreateWithName (encString t) w = (r, w') \<and>
      (if t \<in> set w \<inter> set sampleNames then (\<exists>e. r = Inl e) \<and> set w' \<inter> set sampleNames = set w \<inter> set sampleNames
       else r = Inr [] \<and> set w' \<inter> set sampleNames = insert t (set w \<inter> set sampleNames))"
    by (auto simp: namesTable_def sampleNames_def opCacheCreateWithName_def opCacheGetNames_def opCacheDestroy_def
        encString_def encStr_def bytes_of_string_def)
next
  fix w t assume "t \<in> set sampleNames"
  then show "\<exists>w'. namesTable opCacheGetOrCreateWithName (encString t) w = (Inr [], w') \<and>
      set w' \<inter> set sampleNames = insert t (set w \<inter> set sampleNames)"
    by (auto simp: namesTable_def sampleNames_def opCacheCreateWithName_def opCacheGetNames_def opCacheDestroy_def
        opCacheGetOrCreateWithName_def encString_def encStr_def bytes_of_string_def)
next
  fix w h
  show "\<exists>r w'. namesTable opCacheDestroy (encI32 h) w = (r, w') \<and>
      (if \<exists>t \<in> set w \<inter> set sampleNames. HashCode t = h
       then r = Inr [] \<and> set w' \<inter> set sampleNames = {t \<in> set w \<inter> set sampleNames. HashCode t \<noteq> h}
       else (\<exists>e. r = Inl e) \<and> set w' \<inter> set sampleNames = set w \<inter> set sampleNames)"
    by (auto simp: namesTable_def encI32_inj opCacheGetNames_def opCacheDestroy_def)
qed

definition namesClient :: "(bool \<times> byte list \<times> i32, string list) client" where
  "namesClient = \<lparr>cliCh = \<lparr>linkServer = namesTable, linkProto = NewProtocolContext (ver 1 7 0) []\<rparr>,
     cliEnv = \<lparr>envApd = plainDec, envServer = namesTable, envCompact = True, envTypeId = basicTypeId id,
       envFieldId = basicFieldId id, envFactories = \<lambda>_. None\<rparr>\<rparr>"

theorem caches_refine_names_witness:
  "\<exists>rs s'. adminRun namesClient [ACreate '' a '', ACreate ''a'', AGetOrCreate ''b'', ADestroy ''a'', ANames]
      \<lparr>regCache = newBinaryMetadataCache, world = []\<rparr> = (Inr rs, s') \<and>
    list_all2 answers rs [SCache ''a'', SErr, SCache ''b'', SDone, SNames {''b''}]"
proof -
  let ?s = "\<lparr>regCache = newBinaryMetadataCache, world = []\<rparr> :: string list registry"
  let ?cmds = "[ACreate '' a '', ACreate ''a'', AGetOrCreate ''b'', ADestroy ''a'', ANames]"
  have t: "TrimSpace '' a '' = ''a''" "TrimSpace ''a'' = ''a''" "TrimSpace ''b'' = ''b''"
    by (simp_all add: TrimSpace_def isSpace_def spaceRunes_def)
  have h: "HashCode ''a'' \<noteq> HashCode ''b''" by (simp add: hash_eval)
  have spec: "fst (specRun ?cmds {}) = [SCache ''a'', SErr, SCache ''b'', SDone, SNames {''b''}]"
    using h by (auto simp: t Let_def)
  have n: "namesServer (set sampleNames) (linkServer (cliCh namesClient)) (\<lambda>w. set w \<inter> set sampleNames)"
    using namesTable_ok by (simp add: namesClient_def)
  have A: "apd_ok (envApd (cliEnv namesClient)) plainDecFin"
    using plainDec_ok by (simp add: namesClient_def plainDecFin_def [abs_def])
  have f: "list_all (cmdFits (set sampleNames)) ?cmds"
    by (simp add: nameFits_def t sampleNames_def maxInt32_def)
  have v: "set (world ?s) \<inter> set sampleNames = {}" by simp
  from caches_refine_names [OF n A f, of ?s] show ?thesis unfolding v spec by blast
qed

section \<open>Addresses\<close>

lemma indexOf_None: "indexOf c s = None \<longleftrightarrow> c \<notin> set s"
  by (induction s) auto

lemma indexOf_first: "c \<notin> set p \<Longrightarrow> indexOf c (p @ c # q) = Some (length p)"
  by (induction p) auto

lemma lastIndexOf_last: "c \<notin> set q \<Longrightarrow> lastIndexOf c (p @ c # q) = Some (length p)"
  using indexOf_first [of c "rev q" "rev p"] by (simp add: lastIndexOf_def)

lemma lastIndexOf_None: "lastIndexOf c s = None \<longleftrightarrow> c \<notin> set s"
  by (simp add: lastIndexOf_def indexOf_None)

text \<open>Addresses without brackets, by the number of their colons.\<close>

definition withPort :: "string \<Rightarrow> string" where
  "withPort a = (if CHR '':'' \<notin> set a then a @ '':10800''
     else if count_list a CHR '':'' = 1 then a else ''['' @ a @ '']:10800'')"

definition bracketless :: "string \<Rightarrow> bool" where
  "bracketless a \<longleftrightarrow> CHR ''['' \<notin> set a \<and> CHR '']'' \<notin> set a"

lemma split_one_colon:
  assumes "bracketless (h @ CHR '':'' # p)" and "CHR '':'' \<notin> set h" and "CHR '':'' \<notin> set p"
  shows "SplitHostPort (h @ CHR '':'' # p) = Inr (h, p)"
proof -
  have "(h @ CHR '':'' # p) ! 0 \<noteq> CHR ''[''" using assms(1) by (cases h) (auto simp: bracketless_def)
  then show ?thesis using assms
    by (simp add: SplitHostPort_def lastIndexOf_last indexOf_None bracketless_def)
qed

lemma split_many_colons:
  assumes "bracketless (h @ CHR '':'' # p)" and "CHR '':'' \<in> set h" and "CHR '':'' \<notin> set p"
  shows "\<exists>e. SplitHostPort (h @ CHR '':'' # p) = Inl e"
proof -
  have "(h @ CHR '':'' # p) ! 0 \<noteq> CHR ''[''" using assms(1) by (cases h) (auto simp: bracketless_def)
  then show ?thesis using assms
    by (simp add: SplitHostPort_def lastIndexOf_last indexOf_None)
qed

lemma split_bracketed:
  assumes "bracketless a" and "CHR '':'' \<notin> set p" and "bracketless p"
  shows "SplitHostPort (''['' @ a @ '']:'' @ p) = Inr (a, p)"
proof -
  have i: "lastIndexOf CHR '':'' ((''['' @ a @ '']'') @ CHR '':'' # p) = Some (length (''['' @ a @ '']''))"
    by (rule lastIndexOf_last) (rule assms(2))
  have e: "indexOf CHR '']'' ((''['' @ a) @ CHR '']'' # ('':'' @ p)) = Some (length (''['' @ a))"
    by (rule indexOf_first) (use assms(1) in \<open>simp add: bracketless_def\<close>)
  show ?thesis using i e assms by (simp add: SplitHostPort_def indexOf_None bracketless_def)
qed

text \<open>C37 An address without brackets is always accepted: without a colon it is a host and gets the default
  port, with one it has its port already, with more it is an address of version 6 and is put in
  brackets. What is dialed can be split into a host and a port again.\<close>

theorem prepared_addresses:
  assumes "list_all bracketless addrs" and "addrs \<noteq> []"
  shows "\<exists>c'. WithAddresses addrs c = Inr c' \<and> ccAddresses c' = Some (\<lambda>w. (Inr (map withPort addrs), w)) \<and>
    (\<forall>a \<in> set addrs. \<exists>h p. SplitHostPort (withPort a) = Inr (h, p))"
proof -
  have one: "prepareAddress a = Inr (withPort a) \<and> (\<exists>h p. SplitHostPort (withPort a) = Inr (h, p))" if a: "bracketless a" for a
  proof (cases "CHR '':'' \<in> set a")
    case False
    then have "lastIndexOf CHR '':'' a = None" by (simp add: lastIndexOf_None)
    then have "SplitHostPort a = Inl (addrErr ''missing port in address'')" by (simp add: SplitHostPort_def)
    moreover have "SplitHostPort (a @ CHR '':'' # ''10800'') = Inr (a, ''10800'')"
      using a False by (intro split_one_colon) (simp_all add: bracketless_def)
    ultimately show ?thesis using False by (simp add: prepareAddress_def withPort_def JoinHostPort_def indexOf_None defaultPort_def)
  next
    case True
    then obtain h p where hp: "a = h @ CHR '':'' # p" "CHR '':'' \<notin> set p" by (meson split_list_last)
    show ?thesis
    proof (cases "CHR '':'' \<in> set h")
      case False
      then have "SplitHostPort a = Inr (h, p)" using split_one_colon [of h p] a hp by simp
      moreover have "withPort a = a" using hp False by (simp add: withPort_def count_list_0_iff)
      ultimately show ?thesis by (simp add: prepareAddress_def)
    next
      case m: True
      then obtain e where e: "SplitHostPort a = Inl e" using split_many_colons [of h p] a hp by auto
      have "count_list a CHR '':'' \<noteq> 1" using hp m by (simp add: count_list_0_iff)
      then have w: "withPort a = ''['' @ a @ '']:'' @ ''10800''" using True by (simp add: withPort_def)
      have "SplitHostPort (withPort a) = Inr (a, ''10800'')"
        unfolding w by (rule split_bracketed [OF a]) (simp_all add: bracketless_def)
      then show ?thesis
        using e True by (simp add: prepareAddress_def JoinHostPort_def indexOf_None defaultPort_def w)
    qed
  qed
  then have "prepareAddresses addrs = Inr (map withPort addrs)" using assms(1) by (induction addrs) simp_all
  then show ?thesis using assms one by (auto simp: WithAddresses_def list_all_iff)
qed

theorem prepared_addresses_witness:
  "\<exists>c'. WithAddresses [''localhost'', ''10.0.0.1:10801'', ''::1''] defaultConfig = Inr c' \<and>
    ccAddresses c' = Some (\<lambda>w. (Inr [''localhost:10800'', ''10.0.0.1:10801'', ''[::1]:10800''], w))"
proof -
  obtain c' :: "('a, 'b, 'c) clientConfiguration" where "WithAddresses [''localhost'', ''10.0.0.1:10801'', ''::1''] defaultConfig = Inr c'"
    and "ccAddresses c' = Some (\<lambda>w. (Inr (map withPort [''localhost'', ''10.0.0.1:10801'', ''::1'']), w))"
    using prepared_addresses [of "[''localhost'', ''10.0.0.1:10801'', ''::1'']" defaultConfig] by (auto simp: bracketless_def)
  then show ?thesis by (intro exI [of _ c'] conjI) (simp_all add: withPort_def)
qed

text \<open>An address of version 6 in brackets and without a port is refused: the default port is added to
  the text with its brackets, in a second pair of brackets, which cannot be split.\<close>

theorem bracketed_address_refused:
  assumes "bracketless a" and "CHR '':'' \<in> set a"
  shows "\<exists>e. WithAddresses [''['' @ a @ '']''] c = Inl e"
proof -
  obtain h p where hp: "a = h @ CHR '':'' # p" "CHR '':'' \<notin> set p" using assms(2) by (meson split_list_last)
  have i: "lastIndexOf CHR '':'' ((''['' @ h) @ CHR '':'' # (p @ '']'')) = Some (length (''['' @ h))"
    by (rule lastIndexOf_last) (use hp in simp)
  have e: "indexOf CHR '']'' ((''['' @ a) @ CHR '']'' # []) = Some (length (''['' @ a))"
    by (rule indexOf_first) (use assms in \<open>simp add: bracketless_def\<close>)
  have 1: "\<exists>e. SplitHostPort (''['' @ a @ '']'') = Inl e"
    using i e by (simp add: SplitHostPort_def hp(1))
  have j: "JoinHostPort (''['' @ a @ '']'') defaultPort = ''[['' @ a @ '']]:10800''"
    using assms(2) by (simp add: JoinHostPort_def indexOf_None defaultPort_def)
  have i': "lastIndexOf CHR '':'' ((''[['' @ a @ '']]'') @ CHR '':'' # ''10800'') = Some (length (''[['' @ a @ '']]''))"
    by (rule lastIndexOf_last) simp
  have e': "indexOf CHR '']'' ((''[['' @ a) @ CHR '']'' # '']:10800'') = Some (length (''[['' @ a))"
    by (rule indexOf_first) (use assms in \<open>simp add: bracketless_def\<close>)
  have n: "(CHR ''['' # CHR ''['' # a @ '']]:10800'') ! Suc (length (''[['' @ a)) = CHR '']''" by (simp add: nth_append)
  have "\<exists>e. SplitHostPort (''[['' @ a @ '']]:10800'') = Inl e"
    using i' e' n by (simp add: SplitHostPort_def)
  then show ?thesis using 1 j by (auto simp: WithAddresses_def prepareAddress_def)
qed

theorem bracketed_address_refused_witness: "\<exists>e. WithAddresses [''[::1]''] defaultConfig = Inl e"
  using bracketed_address_refused [of "''::1''" defaultConfig] by (simp add: bracketless_def)

section \<open>Starting\<close>

text \<open>C38 Starting a client asks a server that has the feature for its binary configuration. The footer form
  of the server replaces the one of the options; when the request fails, the client comes back beside
  the error, with the form of the options.\<close>

theorem start_takes_footer_of_server:
  assumes "applyOptions opts defaultConfig = Inr c" and "ccAddresses c \<noteq> None" and "ccAutoBinaryConfig c"
    and "connect (fillDefaults unicode lg c) s = (Inr ch, s')"
    and "SupportsAttributeFeature (linkProto ch) BinaryConfigurationFeature"
    and "linkServer ch opGetBinaryConfiguration [] (world s') = (r, w)"
  shows "(r = Inr (boolByte b # m # rest) \<longrightarrow>
      (\<exists>cli t. Start A unicode lg connect opts s = (Inr (cli, None), t) \<and> envCompact (cliEnv cli) = b \<and> cliCh cli = ch)) \<and>
    (r = Inl e \<longrightarrow>
      (\<exists>cli t. Start A unicode lg connect opts s = (Inr (cli, Some e), t) \<and> envCompact (cliEnv cli) = ccCompactFooter c \<and> cliCh cli = ch))"
proof (intro conjI impI)
  let ?c = "fillDefaults unicode lg c" and ?s = "s'\<lparr>regCache := newBinaryMetadataCache\<rparr>"
  let ?read = "bindMR (liftR ReadBool) (\<lambda>compact. bindMR (liftR ReadInt8) (\<lambda>_. returnMR compact))"
  have c: "ccAddresses ?c = ccAddresses c" "ccAutoBinaryConfig ?c = ccAutoBinaryConfig c" "ccCompactFooter ?c = ccCompactFooter c"
    by (simp_all add: fillDefaults_def Let_def)
  obtain sup where addr: "ccAddresses c = Some sup" using assms(2) by blast
  have start: "Start A unicode lg connect opts s = bindP (tryP (checkBinaryConfiguration ch (cliEnv (newClient A ?c ch)))) (\<lambda>r. case r of
      Inl e \<Rightarrow> returnP (newClient A ?c ch, Some e) | Inr env \<Rightarrow> returnP ((newClient A ?c ch)\<lparr>cliEnv := env\<rparr>, None)) ?s"
    using assms(1,4) addr c assms(3) by (simp add: Start_def bindP_def Let_def split: prod.splits)
  {
    assume r: "r = Inr (boolByte b # m # rest)"
    have rd: "mreads ?read [boolByte b, m] b"
      by (rule mreads_cong [OF mreads_bind [OF mreads_lift [OF reads_prims(3)] mreads_bind_return [OF mreads_lift [OF reads_prims(2)]]]])
         simp_all
    have "sendOp ch opGetBinaryConfiguration emptyRequest ?read ?s = (Inr b, ?s\<lparr>world := w\<rparr>)"
      by (rule sendOp_run [OF mwrites_empty _ _ rd, where rest = rest]) (use assms(6) r in simp_all)
    then show "\<exists>cli t. Start A unicode lg connect opts s = (Inr (cli, None), t) \<and> envCompact (cliEnv cli) = b \<and> cliCh cli = ch"
      unfolding start checkBinaryConfiguration_def using assms(5)
      by (auto simp: tryP_def bindP_def newClient_def)
  next
    assume r: "r = Inl e"
    have "sendOp ch opGetBinaryConfiguration emptyRequest ?read ?s = (Inl (Fail e), ?s\<lparr>world := w\<rparr>)"
      by (rule sendOp_error [OF mwrites_empty]) (use assms(6) r in simp_all)
    then show "\<exists>cli t. Start A unicode lg connect opts s = (Inr (cli, Some e), t) \<and> envCompact (cliEnv cli) = ccCompactFooter c \<and> cliCh cli = ch"
      unfolding start checkBinaryConfiguration_def using assms(5) c
      by (auto simp: tryP_def bindP_def newClient_def)
  }
qed

text \<open>A server whose binary configuration asks for the full footer, in every state.\<close>

definition footerServer :: "unit server" where
  "footerServer = (\<lambda>op request w. if op = opGetBinaryConfiguration then (Inr [0, 0], w) else (Inr [], w))"

definition footerLink :: "unit link" where
  "footerLink = \<lparr>linkServer = footerServer, linkProto = NewProtocolContext (ver 1 7 0) [BinaryConfigurationFeature]\<rparr>"

lemma footerLink_feature: "SupportsAttributeFeature (linkProto footerLink) BinaryConfigurationFeature"
  by code_simp

theorem start_takes_footer_of_server_witness:
  "\<exists>cli t. Start plainDec id () (\<lambda>_ s. (Inr footerLink, s)) [WithAddresses [''localhost'']] \<lparr>regCache = newBinaryMetadataCache, world = ()\<rparr>
     = (Inr (cli, None), t) \<and> \<not> envCompact (cliEnv cli)"
proof -
  have p: "prepareAddress ''localhost'' = Inr ''localhost:10800''" by code_simp
  show ?thesis
    using start_takes_footer_of_server [where opts = "[WithAddresses [''localhost'']]" and unicode = id and lg = "()"
        and connect = "\<lambda>_ s. (Inr footerLink, s)" and s = "\<lparr>regCache = newBinaryMetadataCache, world = ()\<rparr>"
        and ch = footerLink and r = "Inr [0, 0]" and b = False and m = 0 and rest = "[]" and A = plainDec,
        OF _ _ _ refl footerLink_feature, of _ "()"] p
    by (auto simp: WithAddresses_def defaultConfig_def footerLink_def footerServer_def boolByte_def)
qed

section \<open>The check of the cluster API\<close>

text \<open>The check that the server supports the cluster API passes for every version of the protocol the
  client can speak, also for those before the cluster API: the versions without it have no features
  either, and the check asks for a feature.\<close>

theorem cluster_check_never_fails:
  assumes "v \<in> set supportedVersions"
  shows "checkClusterApiSupportedByServer (NewProtocolContext v fs) = skipW"
proof -
  have "SupportsBitmapFeatures \<lparr>version = v, features = None\<rparr> \<longrightarrow> SupportsClusterApi \<lparr>version = v, features = None\<rparr>"
    using assms by (auto simp: supportedVersions_def SupportsBitmapFeatures_def SupportsClusterApi_def Compare_def ver_def)
  then show ?thesis
    by (auto simp: checkClusterApiSupportedByServer_def NewProtocolContext_def SupportsAttributeFeature_def SupportsClusterApi_def Let_def)
qed

theorem cluster_check_never_fails_witness:
  "checkClusterApiSupportedByServer (NewProtocolContext (ver 1 0 0) []) = skipW \<and>
   \<not> SupportsClusterApi (NewProtocolContext (ver 1 0 0) [])"
  using cluster_check_never_fails [of "ver 1 0 0" "[]"]
  by (simp add: supportedVersions_def SupportsClusterApi_def NewProtocolContext_def SupportsBitmapFeatures_def Compare_def ver_def Let_def)

end
