(* ===== verification/GenText.thy ===== *)
theory GenText
  imports Trim Proto "HOL-Library.Char_ord"
begin

text \<open>
  The functions on text of Go's library that the code generator uses: prefixes and suffixes, quoted
  literals (strconv), the tags of struct fields (reflect.StructTag), the text of a group of comments
  (go/ast), and the one shape of regular expression it has. Strings are the bytes of source files.
\<close>

section \<open>Searching\<close>

definition nl :: string where "nl = [CHR 0x0A]"
definition qt :: string where "qt = [CHR 0x22]"
definition bq :: char where "bq = CHR 0x60"

definition quoted :: "string \<Rightarrow> string" where "quoted s = qt @ s @ qt"

fun hasPrefix :: "string \<Rightarrow> string \<Rightarrow> bool" where
  "hasPrefix s [] = True"
| "hasPrefix [] (c # p) = False"
| "hasPrefix (x # s) (c # p) = (x = c \<and> hasPrefix s p)"

definition hasSuffix :: "string \<Rightarrow> string \<Rightarrow> bool" where
  "hasSuffix s p = hasPrefix (rev s) (rev p)"

fun containsText :: "string \<Rightarrow> string \<Rightarrow> bool" where
  "containsText [] p = (p = [])"
| "containsText (x # s) p = (hasPrefix (x # s) p \<or> containsText s p)"

definition trimChar :: "char \<Rightarrow> string \<Rightarrow> string" where
  "trimChar c s = rev (dropWhile (\<lambda>x. x = c) (rev (dropWhile (\<lambda>x. x = c) s)))"

definition trimSuffix :: "string \<Rightarrow> string \<Rightarrow> string" where
  "trimSuffix s p = (if hasSuffix s p then take (length s - length p) s else s)"

text \<open>The leftmost match of a regular expression that is a key, an equals sign and a quotation with at
  least one character, and what is in the quotation.\<close>

fun findQuoted :: "string \<Rightarrow> string \<Rightarrow> string option" where
  "findQuoted key [] = None"
| "findQuoted key (x # s) =
     (let rest = drop (length key + 2) (x # s); v = takeWhile (\<lambda>c. c \<noteq> CHR 0x22) rest in
      if hasPrefix (x # s) (key @ ''='' @ qt) \<and> v \<noteq> [] \<and> length v < length rest then Some v
      else findQuoted key s)"

section \<open>Literals\<close>

definition hexDigit :: "char \<Rightarrow> nat option" where
  "hexDigit c = (let n = of_char c :: nat in
     if 48 \<le> n \<and> n \<le> 57 then Some (n - 48)
     else if 97 \<le> n \<and> n \<le> 102 then Some (n - 87)
     else if 65 \<le> n \<and> n \<le> 70 then Some (n - 55) else None)"

fun digitsValue :: "nat \<Rightarrow> nat \<Rightarrow> string \<Rightarrow> nat option" where
  "digitsValue base acc [] = Some acc"
| "digitsValue base acc (c # cs) = (case hexDigit c of
     Some d \<Rightarrow> if d < base then digitsValue base (base * acc + d) cs else None | None \<Rightarrow> None)"

definition appendRune :: "nat \<Rightarrow> string" where
  "appendRune r = map char_of
     (if r < 128 then [r]
      else if r < 2048 then [192 + r div 64, 128 + r mod 64]
      else if r < 65536 then [224 + r div 4096, 128 + r div 64 mod 64, 128 + r mod 64]
      else [240 + r div 262144, 128 + r div 4096 mod 64, 128 + r div 64 mod 64, 128 + r mod 64])"

definition validRune :: "nat \<Rightarrow> bool" where
  "validRune r \<longleftrightarrow> r < 55296 \<or> (57343 < r \<and> r \<le> 1114111)"

text \<open>What an escape stands for and what is left after it; the argument starts after the backslash.\<close>

definition numericEscape :: "nat \<Rightarrow> nat \<Rightarrow> string \<Rightarrow> (nat \<times> string) option" where
  "numericEscape base n s = (if length s < n then None
     else case digitsValue base 0 (take n s) of None \<Rightarrow> None | Some v \<Rightarrow> Some (v, drop n s))"

fun unescape :: "string \<Rightarrow> (string \<times> string) option" where
  "unescape [] = None"
| "unescape (c # s) =
     (if c = CHR ''a'' then Some ([CHR 0x07], s) else if c = CHR ''b'' then Some ([CHR 0x08], s)
      else if c = CHR ''f'' then Some ([CHR 0x0C], s) else if c = CHR ''n'' then Some (nl, s)
      else if c = CHR ''r'' then Some ([CHR 0x0D], s) else if c = CHR ''t'' then Some ([CHR 0x09], s)
      else if c = CHR ''v'' then Some ([CHR 0x0B], s)
      else if c = CHR 0x5C \<or> c = CHR 0x22 then Some ([c], s)
      else if c = CHR ''x'' then map_option (\<lambda>(v, t). ([char_of v], t)) (numericEscape 16 2 s)
      else if c = CHR ''u'' \<or> c = CHR ''U'' then
        (case numericEscape 16 (if c = CHR ''u'' then 4 else 8) s of
           None \<Rightarrow> None | Some (v, t) \<Rightarrow> if validRune v then Some (appendRune v, t) else None)
      else if c \<in> set ''01234567'' then
        (case numericEscape 8 3 (c # s) of
           None \<Rightarrow> None | Some (v, t) \<Rightarrow> if v > 255 then None else Some ([char_of v], t))
      else None)"

lemma numericEscape_length: "numericEscape base n s = Some (v, t) \<Longrightarrow> length t + n = length s"
  by (auto simp: numericEscape_def split: if_split_asm option.split_asm)

lemma unescape_shorter: "unescape s = Some (b, t) \<Longrightarrow> length t < length s"
  by (cases s; simp split: if_split_asm option.split_asm prod.split_asm;
      (elim exE conjE)?; (drule numericEscape_length)?; simp)

text \<open>The bytes of a quotation up to the quotation mark that ends it, which must be the last byte.\<close>

function unquoteBytes :: "string \<Rightarrow> string option" where
  "unquoteBytes s = (case s of
     [] \<Rightarrow> None
   | c # r \<Rightarrow>
       if c = CHR 0x22 then (if r = [] then Some [] else None)
       else if c = CHR 0x0A then None
       else if c = CHR 0x5C then
         (case unescape r of None \<Rightarrow> None | Some (b, t) \<Rightarrow> map_option (\<lambda>u. b @ u) (unquoteBytes t))
       else map_option (\<lambda>u. c # u) (unquoteBytes r))"
  by pat_completeness auto
termination by (relation "measure length") (auto dest: unescape_shorter)

declare unquoteBytes.simps [simp del]

text \<open>A raw literal loses its carriage returns.\<close>

definition Unquote :: "string \<Rightarrow> string option" where
  "Unquote s = (case s of
     [] \<Rightarrow> None
   | c # r \<Rightarrow>
       if c = bq then
         (if r \<noteq> [] \<and> last r = bq \<and> bq \<notin> set (butlast r) then Some (filter (\<lambda>x. x \<noteq> CHR 0x0D) (butlast r)) else None)
       else if c = CHR 0x22 then unquoteBytes r else None)"

section \<open>Tags of fields\<close>

text \<open>The length of a quotation without the quotation mark in front, up to the mark that ends it.\<close>

fun quotedLen :: "string \<Rightarrow> nat option" where
  "quotedLen [] = None"
| "quotedLen (c # s) =
     (if c = CHR 0x22 then Some 0
      else if c = CHR 0x5C then (case s of [] \<Rightarrow> None | _ # t \<Rightarrow> map_option (\<lambda>n. n + 2) (quotedLen t))
      else map_option Suc (quotedLen s))"

definition tagNameChar :: "char \<Rightarrow> bool" where
  "tagNameChar c \<longleftrightarrow> of_char c > (32::nat) \<and> c \<noteq> CHR '':'' \<and> c \<noteq> CHR 0x22 \<and> c \<noteq> CHR 0x7F"

function tagLookup :: "string \<Rightarrow> string \<Rightarrow> string" where
  "tagLookup key tag =
     (let tag = dropWhile (\<lambda>c. c = CHR '' '') tag;
          name = takeWhile tagNameChar tag; rest = dropWhile tagNameChar tag in
      if tag = [] \<or> name = [] then []
      else case rest of
        colon # quo # value \<Rightarrow>
          if colon \<noteq> CHR '':'' \<or> quo \<noteq> CHR 0x22 then []
          else (case quotedLen value of
             None \<Rightarrow> []
           | Some n \<Rightarrow>
               if key = name then (case Unquote (qt @ take (Suc n) value) of None \<Rightarrow> [] | Some v \<Rightarrow> v)
               else tagLookup key (drop (Suc n) value))
      | _ \<Rightarrow> [])"
  by pat_completeness auto
termination
proof (relation "measure (length \<circ> snd)", goal_cases)
  case (2 key tag tag' name rest colon s quo vl n)
  then have "rest = colon # quo # vl" by metis
  moreover have "length rest \<le> length tag"
    unfolding 2 by (meson length_dropWhile_le order_trans)
  ultimately show ?case by simp
qed simp

declare tagLookup.simps [simp del]

section \<open>Comments\<close>

fun joinLines :: "string list \<Rightarrow> string" where
  "joinLines [] = []"
| "joinLines [l] = l"
| "joinLines (l # ls) = l @ nl @ joinLines ls"

definition stripTrailing :: "string \<Rightarrow> string" where
  "stripTrailing l = rev (dropWhile (\<lambda>c. c \<in> {CHR '' '', CHR 0x09, CHR 0x0A, CHR 0x0D}) (rev l))"

definition directiveChar :: "char \<Rightarrow> bool" where
  "directiveChar c \<longleftrightarrow> (CHR ''a'' \<le> c \<and> c \<le> CHR ''z'') \<or> (CHR ''0'' \<le> c \<and> c \<le> CHR ''9'')"

text \<open>A comment without a space after its marker that starts with a word, a colon and a character is a
  directive and is not part of the text.\<close>

definition isDirective :: "string \<Rightarrow> bool" where
  "isDirective c =
     (if hasPrefix c ''line '' \<or> hasPrefix c ''extern '' \<or> hasPrefix c ''export '' then True
      else let w = takeWhile (\<lambda>x. x \<noteq> CHR '':'') c; rest = dropWhile (\<lambda>x. x \<noteq> CHR '':'') c in
        w \<noteq> [] \<and> list_all directiveChar w \<and> (case rest of _ # d # _ \<Rightarrow> directiveChar d | _ \<Rightarrow> False))"

definition commentLines :: "string \<Rightarrow> string list" where
  "commentLines c = (case c of
     _ # m # body \<Rightarrow>
       if m = CHR ''/'' then
         (case body of
            [] \<Rightarrow> split (CHR 0x0A) []
          | x # r \<Rightarrow> if x = CHR '' '' then split (CHR 0x0A) r
                  else if isDirective body then [] else split (CHR 0x0A) body)
       else if m = CHR ''*'' then split (CHR 0x0A) (take (length body - 2) body)
       else split (CHR 0x0A) c
   | _ \<Rightarrow> [])"

fun squeezeBlank :: "bool \<Rightarrow> string list \<Rightarrow> string list" where
  "squeezeBlank keep [] = []"
| "squeezeBlank keep (l # ls) =
     (if l \<noteq> [] \<or> keep then l # squeezeBlank (l \<noteq> []) ls else squeezeBlank keep ls)"

definition commentText :: "string list \<Rightarrow> string" where
  "commentText cs =
     (let ls = squeezeBlank False (map stripTrailing (concat (map commentLines cs))) in
      joinLines (if ls \<noteq> [] \<and> last ls \<noteq> [] then ls @ [[]] else ls))"

end
