(* ===== verification/Names.thy ===== *)
theory Names
  imports Client
begin

text \<open>
  The names of the constants (clusterstate_string.go, collectionkind_string.go, errorcode_string.go,
  typedesc_string.go: one table of names with the offsets in it per run of constants, and a number for
  every other value) and the texts of the errors of client.go.
\<close>

section \<open>The tables\<close>

definition nameAt :: "string \<Rightarrow> nat list \<Rightarrow> nat \<Rightarrow> string" where
  "nameAt name idx i = drop (idx ! i) (take (idx ! Suc i) name)"

definition numbered :: "string \<Rightarrow> 'a::len word \<Rightarrow> string" where
  "numbered ty i = ty @ ''('' @ showInt (sint i) @ '')''"

definition ClusterState_name :: string where
  "ClusterState_name = ''InactiveActiveActiveReadOnly''"

definition ClusterState_index :: "nat list" where
  "ClusterState_index = [0, 8, 14, 28]"

definition ClusterStateString :: "ClusterState \<Rightarrow> string" where
  "ClusterStateString i =
     (if sint i < 0 \<or> sint i \<ge> int (length ClusterState_index - 1) then numbered ''ClusterState'' i
      else nameAt ClusterState_name ClusterState_index (unat i))"

definition CollectionKind_name :: string where
  "CollectionKind_name = ''UserSetUserCollectionArrayListLinkedListHashSetLinkedHashSetSingletonList''"

definition CollectionKind_index :: "nat list" where
  "CollectionKind_index = [0, 7, 21, 30, 40, 47, 60, 73]"

definition CollectionKindString :: "byte \<Rightarrow> string" where
  "CollectionKindString i = (let i = i - (- 1) in
     if sint i < 0 \<or> sint i \<ge> int (length CollectionKind_index - 1) then numbered ''CollectionKind'' (i + - 1)
     else nameAt CollectionKind_name CollectionKind_index (unat i))"

definition MapKind_name :: string where
  "MapKind_name = ''UserMapHashMapLinkedHashMap''"

definition MapKind_index :: "nat list" where
  "MapKind_index = [0, 7, 14, 27]"

definition MapKindString :: "byte \<Rightarrow> string" where
  "MapKindString i =
     (if sint i < 0 \<or> sint i \<ge> int (length MapKind_index - 1) then numbered ''MapKind'' i
      else nameAt MapKind_name MapKind_index (unat i))"

text \<open>An error code is an unsigned integer of the width of a machine word.\<close>

definition ErrorCode_name_0 :: string where
  "ErrorCode_name_0 = ''SuccessFailedInvalidOpCode''"

definition ErrorCode_name_3 :: string where
  "ErrorCode_name_3 = ''CacheDoesNotExistsCacheExistsCacheConfigInvalid''"

definition ErrorCode_name_4 :: string where
  "ErrorCode_name_4 = ''TooManyCursorsResourceDoesNotExistsSecurityViolation''"

definition ErrorCode_name_5 :: string where
  "ErrorCode_name_5 = ''TxLimitExceededTxNotFound''"

definition ErrorCode_index_0 :: "nat list" where "ErrorCode_index_0 = [0, 7, 13, 26]"
definition ErrorCode_index_3 :: "nat list" where "ErrorCode_index_3 = [0, 18, 29, 47]"
definition ErrorCode_index_4 :: "nat list" where "ErrorCode_index_4 = [0, 14, 35, 52]"
definition ErrorCode_index_5 :: "nat list" where "ErrorCode_index_5 = [0, 15, 25]"

definition ErrorCodeString :: "64 word \<Rightarrow> string" where
  "ErrorCodeString i =
     (if i \<le> 2 then nameAt ErrorCode_name_0 ErrorCode_index_0 (unat i)
      else if i = 10 then ''InvalidNodeState''
      else if i = 100 then ''FunctionalityDisabled''
      else if 1000 \<le> i \<and> i \<le> 1002 then nameAt ErrorCode_name_3 ErrorCode_index_3 (unat (i - 1000))
      else if 1010 \<le> i \<and> i \<le> 1012 then nameAt ErrorCode_name_4 ErrorCode_index_4 (unat (i - 1010))
      else if 1020 \<le> i \<and> i \<le> 1021 then nameAt ErrorCode_name_5 ErrorCode_index_5 (unat (i - 1020))
      else if i = 1030 then ''TooManyComputeTasks''
      else if i = 2000 then ''AuthFailed''
      else numbered ''ErrorCode'' i)"

definition TypeDesc_name_0 :: string where
  "TypeDesc_name_0 = ''optimizedMarshallerObjectTypeobjectTypeunregisteredTypeByteTypeShortTypeIntTypeLongType''
     @ ''FloatTypeDoubleTypeCharTypeBoolTypeStringTypeUuidTypeDateTypeByteArrayTypeShortArrayTypeIntArrayType''
     @ ''LongArrayTypeFloatArrayTypeDoubleArrayTypeCharArrayTypeBoolArrayTypeStringArrayTypeUuidArrayType''
     @ ''DateArrayTypeObjectArrayTypeCollectionTypeMapType''"

definition TypeDesc_name_1 :: string where
  "TypeDesc_name_1 = ''wrappedObjectTypeEnumTypeEnumArrayTypeDecimalTypeDecimalArrayTypeClassTypeTimestampType''
     @ ''TimestampArrayTypeproxyTypeTimeTypeTimeArrayTypeBinaryEnumType''"

definition TypeDesc_name_2 :: string where
  "TypeDesc_name_2 = ''NullTypehandleTypeBinaryObjectType''"

definition TypeDesc_index_0 :: "nat list" where
  "TypeDesc_index_0 = [0, 29, 39, 55, 63, 72, 79, 87, 96, 106, 114, 122, 132, 140, 148, 161, 175, 187, 200, 214, 229,
     242, 255, 270, 283, 296, 311, 325, 332]"

definition TypeDesc_index_1 :: "nat list" where
  "TypeDesc_index_1 = [0, 17, 25, 38, 49, 65, 74, 87, 105, 114, 122, 135, 149]"

definition TypeDesc_index_2 :: "nat list" where
  "TypeDesc_index_2 = [0, 8, 18, 34]"

definition TypeDescString :: "byte \<Rightarrow> string" where
  "TypeDescString i =
     (if - 2 \<le> sint i \<and> sint i \<le> 25 then nameAt TypeDesc_name_0 TypeDesc_index_0 (unat (i - (- 2)))
      else if 27 \<le> sint i \<and> sint i \<le> 38 then nameAt TypeDesc_name_1 TypeDesc_index_1 (unat (i - 27))
      else if 101 \<le> sint i \<and> sint i \<le> 103 then nameAt TypeDesc_name_2 TypeDesc_index_2 (unat (i - 101))
      else numbered ''TypeDesc'' i)"

section \<open>The texts of errors\<close>

text \<open>The code of an error of the server is read as a signed number of 32 bits and widened with its
  sign. The texts of errors of other packages are theirs.\<close>

fun errorText :: "gerror \<Rightarrow> string" where
  "errorText (ErrMsg m) = m"
| "errorText (ErrWrap m e) = m @ '': '' @ errorText e"
| "errorText (ClientError m) = m"
| "errorText (ClientTimeoutError m) = m"
| "errorText (ClientConnectionError m e) =
     (let msg = (if length m = 0 then ''connection failed'' else m)
      in case e of Some e \<Rightarrow> msg @ '': '' @ errorText e | None \<Rightarrow> msg)"
| "errorText (ClientProtocolError m) = m"
| "errorText (ClientAuthenticationError m) = m"
| "errorText (ClientServerError code m) = ErrorCodeString (scast code) @ '': '' @ m"

section \<open>Names are distinct\<close>

lemma showNat_inj: "showNat m = showNat n \<longleftrightarrow> m = n"
  by (metis parseDigits_showNat option.inject)

lemma showInt_inj: "showInt i = showInt j \<longleftrightarrow> i = j"
proof -
  have m: "CHR ''-'' # s \<noteq> showNat n" for s n using char_not_digit [of "CHR ''-''" n] by (metis list.set_intros(1))
  show ?thesis by (auto simp add: showInt_def showNat_inj m m [symmetric])
qed

text \<open>A printer that gives distinct names without brackets to some values and their numbers to the
  others, gives no text to two values.\<close>

lemma names_inj:
  assumes "distinct (map f known)" and "list_all (\<lambda>s. CHR ''('' \<notin> set s) (map f known)"
    and "\<And>w. w \<notin> set known \<Longrightarrow> f w = numbered ty w"
  shows "inj f"
proof (rule injI)
  fix a b assume e: "f a = f b"
  have n: "w \<in> set known \<longleftrightarrow> CHR ''('' \<notin> set (f w)" for w
    using assms(2) assms(3) [of w] by (cases "w \<in> set known") (auto simp: numbered_def list_all_iff)
  consider "a \<in> set known" "b \<in> set known" | "a \<notin> set known" "b \<notin> set known" using n e by metis
  then show "a = b"
  proof cases
    case 1
    then show ?thesis using assms(1) e by (auto simp: distinct_map dest: inj_onD)
  next
    case 2
    then show ?thesis using assms(3) e by (auto simp: numbered_def showInt_inj intro: signed_word_eqI)
  qed
qed

lemma in_ints: "sint w \<in> set is' \<Longrightarrow> w \<in> set (map word_of_int is')"
  using image_eqI [of w word_of_int "sint w" "set is'"] by simp

lemma in_nats: "unat w \<in> set ns \<Longrightarrow> w \<in> set (map word_of_nat ns)"
  using image_eqI [of w word_of_nat "unat w" "set ns"] by simp

definition errorCodes :: "nat list" where
  "errorCodes = [0, 1, 2, 10, 100, 1000, 1001, 1002, 1010, 1011, 1012, 1020, 1021, 1030, 2000]"

lemma ErrorCode_other:
  assumes "w \<notin> set (map word_of_nat errorCodes)"
  shows "ErrorCodeString w = numbered ''ErrorCode'' w"
proof -
  have n: "unat w \<notin> set errorCodes" using assms in_nats by blast
  have r: "\<not> unat w \<le> 2" "\<not> (1000 \<le> unat w \<and> unat w \<le> 1002)" "\<not> (1010 \<le> unat w \<and> unat w \<le> 1012)"
    "\<not> (1020 \<le> unat w \<and> unat w \<le> 1021)"
    using n by (auto simp: errorCodes_def)
  show ?thesis using n r by (auto simp: ErrorCodeString_def word_le_nat_alt errorCodes_def)
qed

lemma TypeDesc_other:
  assumes "w \<notin> set (map word_of_int ([- 2..25] @ [27..38] @ [101..103]))"
  shows "TypeDescString w = numbered ''TypeDesc'' w"
proof -
  have "sint w \<notin> set ([- 2..25] @ [27..38] @ [101..103])" using assms in_ints by blast
  then have "\<not> (- 2 \<le> sint w \<and> sint w \<le> 25)" "\<not> (27 \<le> sint w \<and> sint w \<le> 38)" "\<not> (101 \<le> sint w \<and> sint w \<le> 103)"
    by (simp_all only: set_append set_upto Un_iff atLeastAtMost_iff de_Morgan_disj not_False_eq_True)
  then show ?thesis unfolding TypeDescString_def by (simp only: if_False)
qed

lemma ClusterState_other: "w \<notin> set (map word_of_int [0..2]) \<Longrightarrow> ClusterStateString w = numbered ''ClusterState'' w"
  using in_ints [of w "[0..2]"] by (auto simp: ClusterStateString_def ClusterState_index_def)

lemma MapKind_other: "w \<notin> set (map word_of_int [0..2]) \<Longrightarrow> MapKindString w = numbered ''MapKind'' w"
  using in_ints [of w "[0..2]"] by (auto simp: MapKindString_def MapKind_index_def)

lemma CollectionKind_other: "w \<notin> set (map (\<lambda>i. i - 1) (map word_of_int [0..6])) \<Longrightarrow> CollectionKindString w = numbered ''CollectionKind'' w"
  using in_ints [of "w + 1" "[0..6]"] image_eqI [of w "\<lambda>i. i - 1" "w + 1" "set (map word_of_int [0..6])"]
  by (auto simp: CollectionKindString_def CollectionKind_index_def Let_def)

text \<open>The names of the constants, in the order of their values.\<close>

lemma ErrorCode_names: "map ErrorCodeString (map word_of_nat errorCodes) =
    [''Success'', ''Failed'', ''InvalidOpCode'', ''InvalidNodeState'', ''FunctionalityDisabled'',
     ''CacheDoesNotExists'', ''CacheExists'', ''CacheConfigInvalid'', ''TooManyCursors'',
     ''ResourceDoesNotExists'', ''SecurityViolation'', ''TxLimitExceeded'', ''TxNotFound'',
     ''TooManyComputeTasks'', ''AuthFailed'']"
  by (simp add: errorCodes_def ErrorCodeString_def nameAt_def ErrorCode_name_0_def ErrorCode_index_0_def
      ErrorCode_name_3_def ErrorCode_index_3_def ErrorCode_name_4_def ErrorCode_index_4_def ErrorCode_name_5_def ErrorCode_index_5_def)

lemma TypeDesc_names: "map TypeDescString (map word_of_int ([- 2..25] @ [27..38] @ [101..103])) =
    [''optimizedMarshallerObjectType'', ''objectType'', ''unregisteredType'', ''ByteType'', ''ShortType'',
     ''IntType'', ''LongType'', ''FloatType'', ''DoubleType'', ''CharType'', ''BoolType'', ''StringType'',
     ''UuidType'', ''DateType'', ''ByteArrayType'', ''ShortArrayType'', ''IntArrayType'', ''LongArrayType'',
     ''FloatArrayType'', ''DoubleArrayType'', ''CharArrayType'', ''BoolArrayType'', ''StringArrayType'',
     ''UuidArrayType'', ''DateArrayType'', ''ObjectArrayType'', ''CollectionType'', ''MapType'',
     ''wrappedObjectType'', ''EnumType'', ''EnumArrayType'', ''DecimalType'', ''DecimalArrayType'',
     ''ClassType'', ''TimestampType'', ''TimestampArrayType'', ''proxyType'', ''TimeType'',
     ''TimeArrayType'', ''BinaryEnumType'', ''NullType'', ''handleType'', ''BinaryObjectType'']"
  by code_simp

lemma ClusterState_names: "map ClusterStateString [Inactive, Active, ActiveReadOnly] = [''Inactive'', ''Active'', ''ActiveReadOnly'']"
  by code_simp

lemma CollectionKind_names: "map CollectionKindString
    [UserSet, UserCollection, ArrayList, LinkedList, HashSet, LinkedHashSet, SingletonList] =
    [''UserSet'', ''UserCollection'', ''ArrayList'', ''LinkedList'', ''HashSet'', ''LinkedHashSet'', ''SingletonList'']"
  by code_simp

lemma MapKind_names: "map MapKindString [UserMap, HashMap, LinkedHashMap] = [''UserMap'', ''HashMap'', ''LinkedHashMap'']"
  by code_simp

section \<open>Properties\<close>

text \<open>The constants of the source with their names; the names are those of the declarations.\<close>

definition errorCodeNames :: "(64 word \<times> string) list" where
  "errorCodeNames = [(0, ''Success''), (1, ''Failed''), (2, ''InvalidOpCode''), (10, ''InvalidNodeState''),
     (100, ''FunctionalityDisabled''), (1000, ''CacheDoesNotExists''), (1001, ''CacheExists''), (1002, ''CacheConfigInvalid''),
     (1010, ''TooManyCursors''), (1011, ''ResourceDoesNotExists''), (1012, ''SecurityViolation''), (1020, ''TxLimitExceeded''),
     (1021, ''TxNotFound''), (1030, ''TooManyComputeTasks''), (2000, ''AuthFailed'')]"

definition typeDescNames :: "(byte \<times> string) list" where
  "typeDescNames = [(- 2, ''optimizedMarshallerObjectType''), (- 1, ''objectType''), (0, ''unregisteredType''), (1, ''ByteType''),
     (2, ''ShortType''), (3, ''IntType''), (4, ''LongType''), (5, ''FloatType''), (6, ''DoubleType''), (7, ''CharType''),
     (8, ''BoolType''), (9, ''StringType''), (10, ''UuidType''), (11, ''DateType''), (12, ''ByteArrayType''),
     (13, ''ShortArrayType''), (14, ''IntArrayType''), (15, ''LongArrayType''), (16, ''FloatArrayType''),
     (17, ''DoubleArrayType''), (18, ''CharArrayType''), (19, ''BoolArrayType''), (20, ''StringArrayType''),
     (21, ''UuidArrayType''), (22, ''DateArrayType''), (23, ''ObjectArrayType''), (24, ''CollectionType''), (25, ''MapType''),
     (27, ''wrappedObjectType''), (28, ''EnumType''), (29, ''EnumArrayType''), (30, ''DecimalType''), (31, ''DecimalArrayType''),
     (32, ''ClassType''), (33, ''TimestampType''), (34, ''TimestampArrayType''), (35, ''proxyType''), (36, ''TimeType''),
     (37, ''TimeArrayType''), (38, ''BinaryEnumType''), (101, ''NullType''), (102, ''handleType''), (103, ''BinaryObjectType'')]"

definition clusterStateNames :: "(ClusterState \<times> string) list" where
  "clusterStateNames = [(Inactive, ''Inactive''), (Active, ''Active''), (ActiveReadOnly, ''ActiveReadOnly'')]"

definition collectionKindNames :: "(byte \<times> string) list" where
  "collectionKindNames = [(UserSet, ''UserSet''), (UserCollection, ''UserCollection''), (ArrayList, ''ArrayList''),
     (LinkedList, ''LinkedList''), (HashSet, ''HashSet''), (LinkedHashSet, ''LinkedHashSet''), (SingletonList, ''SingletonList'')]"

definition mapKindNames :: "(byte \<times> string) list" where
  "mapKindNames = [(UserMap, ''UserMap''), (HashMap, ''HashMap''), (LinkedHashMap, ''LinkedHashMap'')]"

definition nameOr :: "('a::len word \<times> string) list \<Rightarrow> string \<Rightarrow> 'a word \<Rightarrow> string" where
  "nameOr names ty w = (case map_of names w of Some n \<Rightarrow> n | None \<Rightarrow> ty @ ''('' @ showInt (sint w) @ '')'')"

lemma nameOrI:
  assumes "map f (map fst names) = map snd names" and "\<And>w. w \<notin> set (map fst names) \<Longrightarrow> f w = numbered ty w"
  shows "f w = nameOr names ty w"
proof (cases "map_of names w")
  case None
  then have "w \<notin> set (map fst names)" by (simp add: map_of_eq_None_iff)
  then show ?thesis using assms(2) [of w] None by (simp add: nameOr_def numbered_def)
next
  case (Some n)
  then have "(w, n) \<in> set names" by (rule map_of_SomeD)
  moreover have "list_all (\<lambda>p. f (fst p) = snd p) names" using assms(1) by (induction names) auto
  ultimately show ?thesis using Some by (auto simp: nameOr_def list_all_iff)
qed

lemma table_keys:
  "map fst errorCodeNames = map word_of_nat errorCodes"
  "map fst typeDescNames = map word_of_int ([- 2..25] @ [27..38] @ [101..103])"
  "map fst clusterStateNames = map word_of_int [0..2]"
  "map fst collectionKindNames = map (\<lambda>i. i - 1) (map word_of_int [0..6])"
  "map fst mapKindNames = map word_of_int [0..2]"
  by code_simp+

text \<open>C40 The String methods print the name of every constant, as it is declared, and for every other value
  the type with the number: the tables of the generated files hold the names and the offsets of all
  constants in their runs. So two values of an enumeration never print the same text.\<close>

theorem names_of_constants:
  "(\<forall>w. ErrorCodeString w = nameOr errorCodeNames ''ErrorCode'' w) \<and> (\<forall>w. TypeDescString w = nameOr typeDescNames ''TypeDesc'' w) \<and>
   (\<forall>w. ClusterStateString w = nameOr clusterStateNames ''ClusterState'' w) \<and>
   (\<forall>w. CollectionKindString w = nameOr collectionKindNames ''CollectionKind'' w) \<and>
   (\<forall>w. MapKindString w = nameOr mapKindNames ''MapKind'' w) \<and>
   inj ErrorCodeString \<and> inj TypeDescString \<and> inj ClusterStateString \<and> inj CollectionKindString \<and> inj MapKindString"
proof (intro conjI allI)
  show "ErrorCodeString w = nameOr errorCodeNames ''ErrorCode'' w" for w
    by (rule nameOrI; simp only: table_keys ErrorCode_other ErrorCode_names not_False_eq_True) (simp add: errorCodeNames_def)
  show "TypeDescString w = nameOr typeDescNames ''TypeDesc'' w" for w
    by (rule nameOrI; simp only: table_keys TypeDesc_other TypeDesc_names not_False_eq_True) (simp add: typeDescNames_def)
  show "ClusterStateString w = nameOr clusterStateNames ''ClusterState'' w" for w
    by (rule nameOrI; simp only: table_keys ClusterState_other not_False_eq_True) code_simp
  show "CollectionKindString w = nameOr collectionKindNames ''CollectionKind'' w" for w
    by (rule nameOrI; simp only: table_keys CollectionKind_other not_False_eq_True) code_simp
  show "MapKindString w = nameOr mapKindNames ''MapKind'' w" for w
    by (rule nameOrI; simp only: table_keys MapKind_other not_False_eq_True) code_simp
  show "inj ErrorCodeString"
    by (rule names_inj [OF _ _ ErrorCode_other]; (assumption | simp only: ErrorCode_names, simp))
  show "inj TypeDescString"
    by (rule names_inj [OF _ _ TypeDesc_other]; (assumption | simp only: TypeDesc_names, simp))
  show "inj ClusterStateString"
    by (rule names_inj [OF _ _ ClusterState_other]; (assumption | code_simp))
  show "inj CollectionKindString"
    by (rule names_inj [OF _ _ CollectionKind_other]; (assumption | code_simp))
  show "inj MapKindString"
    by (rule names_inj [OF _ _ MapKind_other]; (assumption | code_simp))
qed

end
