(* ===== verification/GenParser.thy ===== *)
theory GenParser
  imports GenText Names
begin

text \<open>
  The parser of the code generator (tools/generator/parser.go): the types of fields, the annotations, and
  the walk over the syntax tree of a file. The tree is the one go/parser makes, cut down to the nodes and
  attributes the generator looks at; the order of the files of a package is the order of the list. What the
  generator prints to the standard error is left out.
\<close>

section \<open>The syntax tree\<close>

text \<open>Type expressions. Of an array the length is kept, empty for a slice; a struct has its fields, each with
  names, type and tag (the literal as it stands).\<close>

datatype expr =
    Ident string
  | MapExpr expr expr
  | ArrayExpr string expr
  | StarExpr expr
  | SelectorExpr expr string
  | InterfaceExpr
  | StructExpr "(string list \<times> expr \<times> string option) list"
  | OtherExpr

text \<open>A group of comments is the list of its comments with their markers; no group is the empty list.\<close>

record importSpec =
  impName :: "string option"
  impPath :: string

datatype spec =
    ImportDecl
  | TypeSpec "string list" string expr
  | ValueSpec "string list" "expr option" "string list"

datatype decl =
    GenDecl "string list" "spec list"
  | OtherDecl

record astFile =
  astName :: string
  astImports :: "importSpec list"
  astDecls :: "decl list"

section \<open>Types of fields\<close>

datatype genType =
    IdentType TypeDesc string string
  | PtrType genType
  | ArrayOf TypeDesc genType
  | AnyType
  | MapOf genType genType

definition isScalarType :: "TypeDesc \<Rightarrow> bool" where
  "isScalarType t \<longleftrightarrow> t \<in> {ByteType, BoolType, ShortType, CharType, IntType, LongType, FloatType, DoubleType,
     StringType, UuidType, TimeType, DateType, TimestampType, DecimalType}"

definition isPrimitiveType :: "TypeDesc \<Rightarrow> bool" where
  "isPrimitiveType t \<longleftrightarrow> t \<in> {ByteType, BoolType, ShortType, CharType, IntType, LongType, FloatType, DoubleType}"

definition isPointerArray :: "TypeDesc \<Rightarrow> bool" where
  "isPointerArray t \<longleftrightarrow> t \<in> {StringArrayType, UuidArrayType, DateArrayType, TimeArrayType, TimestampArrayType, DecimalArrayType}"

definition isPrimitiveArray :: "TypeDesc \<Rightarrow> bool" where
  "isPrimitiveArray t \<longleftrightarrow> t \<in> {BoolArrayType, ByteArrayType, ShortArrayType, CharArrayType, IntArrayType, LongArrayType,
     FloatArrayType, DoubleArrayType}"

text \<open>The methods of the interface IgniteType, with one table for each of its implementations; a nil
  result of a method is None.\<close>

record typeMethods =
  mIgniteType :: TypeDesc
  mIsPointer :: bool
  mIsInterface :: bool
  mIsPrimitive :: bool
  mIsIdent :: bool
  mIsScalar :: bool
  mIsArray :: bool
  mIsMap :: bool
  mElementType :: "genType option"
  mElementKeyType :: "genType option"
  mGoType :: string
  mOriginalGoType :: string

definition identMethods :: "TypeDesc \<Rightarrow> string \<Rightarrow> string \<Rightarrow> typeMethods" where
  "identMethods t g orig = \<lparr>mIgniteType = t, mIsPointer = False, mIsInterface = False, mIsPrimitive = isPrimitiveType t,
     mIsIdent = True, mIsScalar = isScalarType t, mIsArray = False, mIsMap = False,
     mElementType = Some (IdentType t g orig), mElementKeyType = None, mGoType = g, mOriginalGoType = orig\<rparr>"

definition ptrMethods :: "genType \<Rightarrow> typeMethods \<Rightarrow> typeMethods" where
  "ptrMethods elem m = \<lparr>mIgniteType = mIgniteType m, mIsPointer = True, mIsInterface = False, mIsPrimitive = mIsPrimitive m,
     mIsIdent = False, mIsScalar = mIsScalar m, mIsArray = False, mIsMap = False,
     mElementType = Some elem, mElementKeyType = None,
     mGoType = ''*'' @ mGoType m, mOriginalGoType = ''*'' @ mOriginalGoType m\<rparr>"

definition arrayMethods :: "TypeDesc \<Rightarrow> genType \<Rightarrow> typeMethods \<Rightarrow> typeMethods" where
  "arrayMethods t elem m = \<lparr>mIgniteType = t, mIsPointer = False, mIsInterface = False, mIsPrimitive = False,
     mIsIdent = False, mIsScalar = False, mIsArray = True, mIsMap = False,
     mElementType = Some elem, mElementKeyType = None,
     mGoType = ''[]'' @ mGoType m, mOriginalGoType = ''[]'' @ mOriginalGoType m\<rparr>"

definition interfaceMethods :: typeMethods where
  "interfaceMethods = \<lparr>mIgniteType = objectType, mIsPointer = False, mIsInterface = True, mIsPrimitive = False,
     mIsIdent = False, mIsScalar = False, mIsArray = False, mIsMap = False,
     mElementType = None, mElementKeyType = None, mGoType = ''interface{}'', mOriginalGoType = ''interface{}''\<rparr>"

definition mapMethods :: "genType \<Rightarrow> genType \<Rightarrow> typeMethods \<Rightarrow> typeMethods \<Rightarrow> typeMethods" where
  "mapMethods k v km vm =
     (let goType = ''map['' @ mOriginalGoType km @ '']'' @ mOriginalGoType vm in
      \<lparr>mIgniteType = MapType, mIsPointer = False, mIsInterface = False, mIsPrimitive = False,
       mIsIdent = False, mIsScalar = False, mIsArray = False, mIsMap = True,
       mElementType = Some v, mElementKeyType = Some k, mGoType = goType, mOriginalGoType = goType\<rparr>)"

primrec methods :: "genType \<Rightarrow> typeMethods" where
  "methods (IdentType t g orig) = identMethods t g orig"
| "methods (PtrType elem) = ptrMethods elem (methods elem)"
| "methods (ArrayOf t elem) = arrayMethods t elem (methods elem)"
| "methods AnyType = interfaceMethods"
| "methods (MapOf k v) = mapMethods k v (methods k) (methods v)"

section \<open>State\<close>

record igniteField =
  gfName :: string
  gfAlias :: string
  gfIsAffinityKey :: bool
  gfType :: genType

record igniteStruct =
  gsFields :: "igniteField list"
  gsName :: string
  gsTypeName :: string
  gsPlatform :: MarshallerPlatform

record enumValue =
  evName :: string
  evGoName :: string

record igniteEnum =
  geName :: string
  geTypeName :: string
  gePlatform :: MarshallerPlatform
  geValues :: "(string \<times> enumValue) list"

record genParser =
  pkgName :: string
  buildTags :: string
  gpStructs :: "igniteStruct list"
  gpEnums :: "(string \<times> igniteEnum) list"
  gpImports :: "importSpec list"
  gpAliases :: "(string \<times> string) list"
  reverseAliases :: "(string \<times> string) list"
  gpFileName :: string
  gpIsDir :: bool

text \<open>A visitor has the name of the declaration it is in; the parser it points to is part of the state.\<close>

record visitor = genParser +
  vName :: string
  vTypeName :: string
  vPlatform :: MarshallerPlatform

record typeInfo =
  tiTypeName :: string
  tiPlatform :: MarshallerPlatform
  tiIsEnum :: bool

definition wellKnownPackages :: "(string \<times> string) list" where
  "wellKnownPackages = [(''gitverse.ru/sbertech/ignite-go-client'', ''ignite''), (''github.com/cockroachdb/apd/v3'', ''apd''),
     (''github.com/google/uuid'', ''uuid''), (''time'', ''time''), (''context'', ''context''), (''fmt'', ''fmt'')]"

section \<open>Parsing types\<close>

definition getAliasedGoType :: "('a genParser_scheme) \<Rightarrow> string \<Rightarrow> string \<Rightarrow> string" where
  "getAliasedGoType p pkg t = (case map_of (reverseAliases p) pkg of
     Some a \<Rightarrow> a @ ''.'' @ t | None \<Rightarrow> pkg @ ''.'' @ t)"

definition parseIgniteIdentType :: "('a genParser_scheme) \<Rightarrow> string \<Rightarrow> genType" where
  "parseIgniteIdentType p t =
     (let aliased = (\<lambda>d pkg n. let t = getAliasedGoType p pkg n in IdentType d t t) in
      if t = ''any'' then AnyType
      else if t = ''bool'' then IdentType BoolType t t
      else if t = ''uint8'' \<or> t = ''byte'' then IdentType ByteType ''int8'' t
      else if t = ''int8'' then IdentType ByteType t t
      else if t = ''uint16'' then IdentType CharType t t
      else if t = ''int16'' then IdentType ShortType t t
      else if t = ''uint32'' \<or> t = ''int32'' then IdentType IntType ''int32'' t
      else if t = ''uint64'' \<or> t = ''int64'' \<or> t = ''uint'' \<or> t = ''int'' then IdentType LongType ''int64'' t
      else if t = ''float32'' then IdentType FloatType t t
      else if t = ''float64'' then IdentType DoubleType t t
      else if t = ''string'' then IdentType StringType t t
      else if t = ''uuid.UUID'' then aliased UuidType ''uuid'' ''UUID''
      else if t = ''apd.Decimal'' then aliased DecimalType ''apd'' ''Decimal''
      else if t = ''ignite.Time'' then aliased TimeType ''ignite'' ''Time''
      else if t = ''ignite.Date'' then aliased DateType ''ignite'' ''Date''
      else if t = ''time.Time'' then aliased TimestampType ''time'' ''Time''
      else if t = ''ignite.BinaryObject'' then aliased BinaryObjectType ''ignite'' ''BinaryObject''
      else if t = ''ignite.Binarylizable'' then aliased BinaryObjectType ''ignite'' ''Binarylizable''
      else if t = ''ignite.Collection'' then aliased CollectionType ''ignite'' ''Collection''
      else if t = ''ignite.Map'' then aliased MapType ''ignite'' ''Map''
      else IdentType optimizedMarshallerObjectType t t)"

definition getArrayType :: "genType \<Rightarrow> TypeDesc option" where
  "getArrayType t =
     (let m = methods t in
      if mIsInterface m \<or> mIgniteType m = BinaryObjectType then Some ObjectArrayType
      else case mIgniteType m of
        BoolType \<Rightarrow> Some BoolArrayType | ByteType \<Rightarrow> Some ByteArrayType | ShortType \<Rightarrow> Some ShortArrayType
      | CharType \<Rightarrow> Some CharArrayType | IntType \<Rightarrow> Some IntArrayType | LongType \<Rightarrow> Some LongArrayType
      | FloatType \<Rightarrow> Some FloatArrayType | DoubleType \<Rightarrow> Some DoubleArrayType | StringType \<Rightarrow> Some StringArrayType
      | UuidType \<Rightarrow> Some UuidArrayType | TimeType \<Rightarrow> Some TimeArrayType | DateType \<Rightarrow> Some DateArrayType
      | TimestampType \<Rightarrow> Some TimestampArrayType | DecimalType \<Rightarrow> Some DecimalArrayType
      | _ \<Rightarrow> None)"

text \<open>The elements of an array of bytes are bytes of Go, or int8 where the source says so.\<close>

definition byteElement :: "genType \<Rightarrow> genType" where
  "byteElement elt =
     IdentType ByteType ''byte'' (if mOriginalGoType (methods elt) = ''int8'' then ''int8'' else ''byte'')"

definition makeArray :: "genType \<Rightarrow> genType option" where
  "makeArray elt = (case getArrayType elt of
     Some arrType \<Rightarrow>
       if isPrimitiveArray arrType \<and> mIsPointer (methods elt) then None
       else Some (ArrayOf arrType (if arrType = ByteArrayType then byteElement elt else elt))
   | None \<Rightarrow> Some (ArrayOf (if mIsPointer (methods elt) then ObjectArrayType else EnumArrayType) elt))"

definition qualifiedPackage :: "('a genParser_scheme) \<Rightarrow> string \<Rightarrow> string" where
  "qualifiedPackage p pkg = (case map_of (gpAliases p) pkg of
     None \<Rightarrow> pkg | Some path \<Rightarrow> (case map_of wellKnownPackages path of Some n \<Rightarrow> n | None \<Rightarrow> path))"

fun parseType :: "('a genParser_scheme) \<Rightarrow> expr \<Rightarrow> genType option" where
  "parseType p (Ident name) = Some (parseIgniteIdentType p name)"
| "parseType p (MapExpr k v) = (case parseType p k of
     Some kElt \<Rightarrow>
       if mIsScalar (methods kElt) \<and> \<not> mIsPointer (methods kElt)
       then (case parseType p v of Some vElt \<Rightarrow> Some (MapOf kElt vElt) | None \<Rightarrow> None) else None
   | None \<Rightarrow> None)"
| "parseType p (ArrayExpr len e) = (case parseType p e of Some elt \<Rightarrow> makeArray elt | None \<Rightarrow> None)"
| "parseType p (StarExpr x) = (case parseType p x of
     Some elType \<Rightarrow>
       (let m = methods elType in
        if \<not> mIsArray m \<and> \<not> mIsInterface m \<and> \<not> mIsPointer m then Some (PtrType elType) else None)
   | None \<Rightarrow> None)"
| "parseType p (SelectorExpr (Ident pkg) sel) = Some (parseIgniteIdentType p (qualifiedPackage p pkg @ ''.'' @ sel))"
| "parseType p (SelectorExpr _ sel) = None"
| "parseType p InterfaceExpr = Some AnyType"
| "parseType p (StructExpr fs) = None"
| "parseType p OtherExpr = None"

section \<open>Annotations\<close>

definition structComment :: string where "structComment = ''ignite:binarylizable''"
definition enumComment :: string where "enumComment = ''ignite:enum''"

definition platformOf :: "string \<Rightarrow> MarshallerPlatform option" where
  "platformOf name = (let n = map asciiLower name in
     if n = ''dotnet'' then Some DotNetMarshaller else if n = ''java'' then Some JavaMarshaller else None)"

text \<open>One line of a comment.\<close>

definition readAnnotation :: "string \<Rightarrow> bool \<times> typeInfo \<Rightarrow> bool \<times> typeInfo" where
  "readAnnotation line acc = (case acc of (skip, t) \<Rightarrow>
     (let comment = TrimSpace line in
      if hasPrefix comment structComment \<or> hasPrefix comment enumComment then
        let t = t\<lparr>tiIsEnum := hasPrefix comment enumComment\<rparr>;
            t = (case findQuoted ''typename'' comment of Some n \<Rightarrow> t\<lparr>tiTypeName := n\<rparr> | None \<Rightarrow> t);
            t = (case findQuoted ''platform'' comment of
                   Some n \<Rightarrow> (case platformOf n of Some pl \<Rightarrow> t\<lparr>tiPlatform := pl\<rparr> | None \<Rightarrow> t) | None \<Rightarrow> t)
        in (False, t)
      else (skip, t)))"

definition stripMarkers :: "string \<Rightarrow> string" where
  "stripMarkers comment =
     (if length comment > 2 then
        (if comment ! 1 = CHR ''/'' then drop 2 comment
         else if comment ! 1 = CHR ''*'' then drop 2 (take (length comment - 2) comment) else comment)
      else comment)"

definition shouldSkip :: "string list \<Rightarrow> bool \<times> typeInfo" where
  "shouldSkip comments =
     fold (\<lambda>c acc. fold readAnnotation (split (CHR 0x0A) (stripMarkers c)) acc) comments
       (True, \<lparr>tiTypeName = [], tiPlatform = JavaMarshaller, tiIsEnum = False\<rparr>)"

definition getEnumName :: "string \<Rightarrow> string" where
  "getEnumName constComment = (case findQuoted ''name'' (TrimSpace constComment) of Some n \<Rightarrow> n | None \<Rightarrow> [])"

section \<open>Fields\<close>

text \<open>A field without names whose type is refused makes the code read the first of its names.\<close>

definition getField :: "('a genParser_scheme) \<Rightarrow> string list \<times> expr \<times> string option \<Rightarrow> igniteField list res" where
  "getField p f = (case f of (names, t, tag) \<Rightarrow>
     (let tags = (case tag of
            None \<Rightarrow> None
          | Some lit \<Rightarrow>
              (let body = tagLookup ''ign'' (trimChar bq lit);
                   body = (if body = [] then tagLookup ''ignite'' (trimChar bq lit) else body)
               in Some (split (CHR '','') body)));
          aff = (case tags of None \<Rightarrow> False | Some ts \<Rightarrow>
            (length ts \<ge> 2 \<and> ts ! 1 = ''affinityKey'') \<or> hd ts = ''affinityKey'');
          alias = (case tags of None \<Rightarrow> [] | Some ts \<Rightarrow> if hd ts = ''affinityKey'' then [] else hd ts)
      in if (case tags of None \<Rightarrow> False | Some ts \<Rightarrow> hd ts = ''-'') then Inr []
         else case parseType p t of
           None \<Rightarrow> if names = [] then Inl Panic else Inr []
         | Some ignTyp \<Rightarrow> (case names of
             [] \<Rightarrow> Inr []
           | [n] \<Rightarrow> Inr [\<lparr>gfName = n, gfAlias = alias, gfIsAffinityKey = aff, gfType = ignTyp\<rparr>]
           | ns \<Rightarrow> Inr (map (\<lambda>n. \<lparr>gfName = n, gfAlias = [], gfIsAffinityKey = False, gfType = ignTyp\<rparr>) ns))))"

fun parseFieldList :: "('a genParser_scheme) \<Rightarrow> (string list \<times> expr \<times> string option) list \<Rightarrow> igniteField list res" where
  "parseFieldList p [] = Inr []"
| "parseFieldList p (f # fs) = bindE (getField p f) (\<lambda>fds. bindE (parseFieldList p fs) (\<lambda>out. Inr (fds @ out)))"

section \<open>The walk\<close>

definition visitType :: "expr \<Rightarrow> visitor \<Rightarrow> visitor res" where
  "visitType t v = (case t of
     StructExpr fs \<Rightarrow> bindE (parseFieldList v fs) (\<lambda>fields.
       Inr (v\<lparr>gpStructs := gpStructs v @ [\<lparr>gsFields = fields, gsName = vName v, gsTypeName = vTypeName v, gsPlatform = vPlatform v\<rparr>]\<rparr>))
   | _ \<Rightarrow> Inr v)"

text \<open>An annotated enum whose type is not a name: the message about it reads a nil pointer.\<close>

definition visitTypeSpec :: "string list \<Rightarrow> string \<Rightarrow> expr \<Rightarrow> visitor \<Rightarrow> visitor res" where
  "visitTypeSpec doc name t v = (case shouldSkip doc of (skip, info) \<Rightarrow>
     if skip then Inr v
     else
       let v = v\<lparr>vName := name, vTypeName := (if length (tiTypeName info) > 0 then tiTypeName info else name),
               vPlatform := tiPlatform info\<rparr>
       in bindE (if \<not> tiIsEnum info then Inr v
                 else case t of
                   Ident typ' \<Rightarrow>
                     Inr (if containsText typ' ''int''
                          then v\<lparr>gpEnums := AList.update name \<lparr>geName = name, geTypeName = vTypeName v, gePlatform = vPlatform v,
                                 geValues = []\<rparr> (gpEnums v)\<rparr>
                          else v)
                 | _ \<Rightarrow> Inl Panic) (visitType t))"

definition visitValueSpec :: "string list \<Rightarrow> expr option \<Rightarrow> string list \<Rightarrow> visitor \<Rightarrow> visitor" where
  "visitValueSpec names t comment v =
     (let v = (case t of Some (Ident n) \<Rightarrow> v\<lparr>vName := n\<rparr> | _ \<Rightarrow> v) in
      case map_of (gpEnums v) (vName v) of
        None \<Rightarrow> v
      | Some enum \<Rightarrow>
          let add = (\<lambda>name vals.
                if name = ''_'' then vals
                else let commentName = (if comment = [] then [] else getEnumName (commentText comment));
                         enumName = (if length commentName > 0 then commentName else name)
                     in AList.update name \<lparr>evName = enumName, evGoName = name\<rparr> vals)
          in v\<lparr>gpEnums := AList.update (vName v) (enum\<lparr>geValues := fold add names (geValues enum)\<rparr>) (gpEnums v)\<rparr>)"

fun visitSpec :: "string list \<Rightarrow> spec \<Rightarrow> visitor \<Rightarrow> visitor res" where
  "visitSpec doc ImportDecl v = Inr v"
| "visitSpec doc (TypeSpec own name t) v = visitTypeSpec (if fst (shouldSkip doc) then own else doc) name t v"
| "visitSpec doc (ValueSpec names t comment) v = Inr (visitValueSpec names t comment v)"

fun visitAll :: "('x \<Rightarrow> visitor \<Rightarrow> visitor res) \<Rightarrow> 'x list \<Rightarrow> visitor \<Rightarrow> visitor res" where
  "visitAll f [] v = Inr v"
| "visitAll f (x # xs) v = bindE (f x v) (visitAll f xs)"

fun visitDecl :: "decl \<Rightarrow> visitor \<Rightarrow> visitor res" where
  "visitDecl (GenDecl doc specs) v = visitAll (visitSpec doc) specs v"
| "visitDecl OtherDecl v = Inr v"

definition visitImport :: "importSpec \<Rightarrow> visitor \<Rightarrow> visitor" where
  "visitImport imp v = (case impName imp of
     None \<Rightarrow> v
   | Some name \<Rightarrow>
       let path = (case Unquote (impPath imp) of Some u \<Rightarrow> u | None \<Rightarrow> impPath imp);
           v = v\<lparr>gpAliases := AList.update name path (gpAliases v)\<rparr>
       in case map_of wellKnownPackages path of
            None \<Rightarrow> v | Some pkg \<Rightarrow> v\<lparr>reverseAliases := AList.update pkg name (reverseAliases v)\<rparr>)"

definition visitFile :: "astFile \<Rightarrow> visitor \<Rightarrow> visitor res" where
  "visitFile f v =
     (let v = v\<lparr>pkgName := astName f\<rparr>;
          v = fold visitImport (astImports f) v;
          v = v\<lparr>gpImports := gpImports v @ astImports f\<rparr>
      in visitAll visitDecl (astDecls f) v)"

text \<open>A package is the list of its files; each package has a visitor of its own over the same parser.\<close>

definition newVisitor :: "genParser \<Rightarrow> visitor" where
  "newVisitor p = genParser.extend p \<lparr>vName = [], vTypeName = [], vPlatform = JavaMarshaller\<rparr>"

fun parsePackages :: "astFile list list \<Rightarrow> genParser \<Rightarrow> genParser res" where
  "parsePackages [] p = Inr p"
| "parsePackages (files # pkgs) p =
     bindE (visitAll visitFile files (newVisitor p)) (\<lambda>v. parsePackages pkgs (genParser.truncate v))"

definition newParser :: "string \<Rightarrow> bool \<Rightarrow> genParser" where
  "newParser fname isDir = \<lparr>pkgName = [], buildTags = [], gpStructs = [], gpEnums = [], gpImports = [], gpAliases = [],
     reverseAliases = [], gpFileName = fname, gpIsDir = isDir\<rparr>"

end
