(* ===== verification/Generator.thy ===== *)
theory Generator
  imports GenParser "HOL-Library.List_Lexorder"
begin

text \<open>
  The printer of the code generator (tools/generator/generator.go): the text of the generated file before
  it is formatted. Every function returns what it appends to the buffer. The flags of the command line are
  arguments; the map of enums is visited in the order of its list.
\<close>

definition ignPackage :: string where "ignPackage = ''gitverse.ru/sbertech/ignite-go-client''"

definition line :: "string \<Rightarrow> string" where "line s = s @ nl"

definition writeErrorCheck :: "string \<Rightarrow> string" where
  "writeErrorCheck expr = line (''if err := '' @ expr @ ''; err != nil {'') @ line '' return err '' @ line ''}''"

section \<open>Headers\<close>

definition writePkgHeader :: "('a genParser_scheme) \<Rightarrow> string" where
  "writePkgHeader g =
     (if length (buildTags g) > 0 then line (''// go:build '' @ buildTags g) else []) @ ''package '' @ line (pkgName g) @
     line ''// Code generated by gitverse.ru/sbertech/ignite-go-client/tools/generator DO NOT EDIT.'' @ nl"

text \<open>An import path has neither quotation marks nor backslashes, so the quoting verb puts marks around it.\<close>

definition writeImportHeader :: "string list \<Rightarrow> string" where
  "writeImportHeader imports =
     line ''import ('' @
     concat (map (\<lambda>im. if last im = CHR 0x22 then line ([CHR 0x09] @ im) else line ([CHR 0x09] @ quoted im)) imports) @
     line '')'' @ nl"

definition writeTypeNameAware :: "string \<Rightarrow> string \<Rightarrow> string \<Rightarrow> string" where
  "writeTypeNameAware receiverName receiverType typeName =
     line (''func ('' @ receiverName @ '' '' @ receiverType @ '') TypeName() string {'') @
     line (''return '' @ quoted typeName) @ line ''}'' @ nl"

definition writePlatformAware :: "('a genParser_scheme) \<Rightarrow> string \<Rightarrow> string \<Rightarrow> MarshallerPlatform \<Rightarrow> string" where
  "writePlatformAware g receiverName receiverType platform =
     line (''func ('' @ receiverName @ '' '' @ receiverType @ '') Platform() '' @ getAliasedGoType g ''ignite'' ''MarshallerPlatform'' @ ''{'') @
     line (''return '' @ (case platform of
         DotNetMarshaller \<Rightarrow> getAliasedGoType g ''ignite'' ''DotNetMarshaller''
       | JavaMarshaller \<Rightarrow> getAliasedGoType g ''ignite'' ''JavaMarshaller'')) @
     line ''}'' @ nl"

section \<open>Structs\<close>

definition aliasOf :: "igniteField \<Rightarrow> string" where
  "aliasOf field = (if length (gfAlias field) = 0 then gfName field else gfAlias field)"

definition writeField :: "('a genParser_scheme) \<Rightarrow> igniteField \<Rightarrow> string" where
  "writeField g field =
     (let alias = aliasOf field; m = methods (gfType field); checkForNil = mIsPointer m \<and> mIsScalar m in
      (if checkForNil then
         line (''if o.'' @ gfName field @ '' == nil {'') @
         writeErrorCheck (''writer.WriteNullField(ctx, '' @ quoted alias @ '', '' @
           getAliasedGoType g ''ignite'' (TypeDescString (typeCode (mIgniteType m))) @ '')'') @
         line ''} else {'' else []) @
      (if checkForNil \<and> mIgniteType m \<noteq> DecimalType
       then writeErrorCheck (''writer.WriteField(ctx, '' @ quoted alias @ '', *o.'' @ gfName field @ '')'')
       else writeErrorCheck (''writer.WriteField(ctx, '' @ quoted alias @ '', o.'' @ gfName field @ '')'')) @
      (if checkForNil then line ''}'' else []))"

definition affinityKeyOf :: "igniteField list \<Rightarrow> string" where
  "affinityKeyOf fs = fold (\<lambda>f acc. if gfIsAffinityKey f then aliasOf f else acc) fs []"

definition writeWriter :: "('a genParser_scheme) \<Rightarrow> igniteStruct \<Rightarrow> string" where
  "writeWriter g strct =
     line (''func (o * '' @ gsName strct @ '') Write(ctx '' @ getAliasedGoType g ''context'' ''Context'' @ '', writer '' @
       getAliasedGoType g ''ignite'' ''BinaryWriter'' @ '') error {'') @
     concat (map (writeField g) (gsFields strct)) @
     line ''return nil'' @ line ''}'' @ nl @
     (let affinityKey = affinityKeyOf (gsFields strct) in
      if length affinityKey > 0 then
        line (''func (o *'' @ gsName strct @ '') AffinityKeyName() string {'') @
        line (''return '' @ quoted affinityKey) @ line ''}'' @ nl
      else [])"

definition readCall :: "igniteField \<Rightarrow> string \<Rightarrow> string" where
  "readCall field dest = writeErrorCheck (''reader.ReadField(ctx, '' @ quoted (aliasOf field) @ '', &'' @ dest @ '')'')"

text \<open>The three ways to read an array whose elements have another type on the wire, and the ways to read
  a number of another type and a map; the last way reads into the field itself. An element type is there
  for every array and pointer.\<close>

definition readPointerArray :: "igniteField \<Rightarrow> typeMethods \<Rightarrow> string" where
  "readPointerArray field el = line ''{'' @
     line (''var tmp []*'' @ mGoType el) @ readCall field ''tmp'' @
     line ''if tmp != nil {'' @
     line (''o.'' @ gfName field @ '' = make([]'' @ mGoType el @ '', 0, len(tmp))'') @
     line ''for _, pel := range tmp {'' @
     line (''var el '' @ mGoType el) @
     line ''if pel != nil {'' @ line '' el = *pel '' @ line '' }'' @
     line (''o.'' @ gfName field @ '' = append(o.'' @ gfName field @ '', el)'') @
     line ''}'' @ line ''}'' @ line ''}''"

definition readPrimitiveArray :: "igniteField \<Rightarrow> typeMethods \<Rightarrow> string" where
  "readPrimitiveArray field el = line ''{'' @
     line (''var tmp []'' @ mGoType el) @ readCall field ''tmp'' @
     line ''if tmp != nil {'' @
     line (''o.'' @ gfName field @ '' = make([]'' @ mOriginalGoType el @ '', 0, len(tmp))'') @
     line ''for _, el := range tmp {'' @
     line (''o.'' @ gfName field @ '' = append(o.'' @ gfName field @ '', '' @ mOriginalGoType el @ ''(el))'') @
     nl @ line ''}'' @ line ''} else {'' @ line ('' o.'' @ gfName field @ '' = nil '') @ line ''}'' @ line ''}''"

definition readObjectArray :: "('a genParser_scheme) \<Rightarrow> igniteField \<Rightarrow> typeMethods \<Rightarrow> string" where
  "readObjectArray g field el = line ''{'' @
     line ''var tmp []interface{}'' @ readCall field ''tmp'' @
     line ''if tmp != nil {'' @
     line (''o.'' @ gfName field @ '' = make([]'' @ mOriginalGoType el @ '', 0, len(tmp))'') @
     line ''for _, el0 := range tmp {'' @
     line (''var el '' @ mOriginalGoType el @ '' = nil'') @
     line ''if el0 != nil {'' @ line ''var ok bool'' @
     line (''el, ok = el0.('' @ mGoType el @ '')'') @
     line ''if !ok {'' @
     line ('' return '' @ getAliasedGoType g ''fmt'' ''Errorf'' @ ''('' @ quoted (''failed to convert %v to '' @ mOriginalGoType el) @ '', el0) '') @
     line ''}'' @ line ''}'' @
     line (''o.'' @ gfName field @ '' = append(o.'' @ gfName field @ '', el)'') @
     line ''}'' @ line ''}'' @ line ''}''"

definition readConverted :: "igniteField \<Rightarrow> typeMethods \<Rightarrow> string" where
  "readConverted field m = line ''{'' @
     line (''var tmp '' @ mGoType m) @ readCall field ''tmp'' @
     (if mIsPointer m then
        line ''if tmp != nil {'' @
        line (''tmp0 := '' @ mOriginalGoType (methods (the (mElementType m))) @ ''(*tmp)'') @
        line (''o.'' @ gfName field @ '' = &tmp0'') @
        line ''} else {'' @ line ('' o.'' @ gfName field @ '' = nil '') @ line ''}''
      else line (''o.'' @ gfName field @ '' = '' @ mOriginalGoType m @ ''(tmp)'')) @
     line ''}''"

definition readMapField :: "('a genParser_scheme) \<Rightarrow> igniteField \<Rightarrow> typeMethods \<Rightarrow> string" where
  "readMapField g field m = line ''{'' @
     line ''var tmp ignite.Map'' @ readCall field ''tmp'' @
     line ''if !tmp.IsNull() {'' @ line ''var err error'' @
     line (''o.'' @ gfName field @ '', err = '' @ getAliasedGoType g ''ignite'' ''ToMap'' @ ''['' @
       mOriginalGoType (methods (the (mElementKeyType m))) @ '', '' @ mOriginalGoType (methods (the (mElementType m))) @ ''](tmp)'') @
     line ''if err != nil {'' @ line '' return err '' @ line ''}'' @
     line ''} else {'' @ line ('' o.'' @ gfName field @ '' = nil '') @ line ''}'' @ line ''}''"

definition writeReadField :: "('a genParser_scheme) \<Rightarrow> igniteField \<Rightarrow> string" where
  "writeReadField g field =
     (let m = methods (gfType field); el = methods (the (mElementType m)) in
      if mIsArray m \<and> isPointerArray (mIgniteType m) \<and> \<not> mIsPointer el then readPointerArray field el
      else if mIsArray m \<and> isPrimitiveArray (mIgniteType m) \<and> mGoType el \<noteq> mOriginalGoType el then readPrimitiveArray field el
      else if mIsArray m \<and> mIgniteType m = ObjectArrayType \<and> \<not> mIsInterface el then readObjectArray g field el
      else if mIsPrimitive m \<and> mGoType m \<noteq> mOriginalGoType m then readConverted field m
      else if mIsMap m then readMapField g field m
      else readCall field (''o.'' @ gfName field))"

definition writeReader :: "('a genParser_scheme) \<Rightarrow> igniteStruct \<Rightarrow> string" where
  "writeReader g strct =
     line (''func (o *'' @ gsName strct @ '') Read(ctx '' @ getAliasedGoType g ''context'' ''Context'' @ '', reader '' @
       getAliasedGoType g ''ignite'' ''BinaryReader'' @ '') error {'') @
     concat (map (writeReadField g) (gsFields strct)) @
     line ''return nil'' @ line ''}'' @ nl"

definition writeStruct :: "('a genParser_scheme) \<Rightarrow> igniteStruct \<Rightarrow> string" where
  "writeStruct g strct =
     (if gsTypeName strct \<noteq> gsName strct then writeTypeNameAware ''o'' (''*'' @ gsName strct) (gsTypeName strct) else []) @
     writePlatformAware g ''o'' (''*'' @ gsName strct) (gsPlatform strct) @
     writeWriter g strct @ writeReader g strct"

section \<open>Enums\<close>

text \<open>The table of an enum: all names in one text, and for every name where it starts and ends.\<close>

fun enumSlices :: "enumValue list \<Rightarrow> nat \<Rightarrow> (string \<times> string) list \<Rightarrow> (string \<times> string) list" where
  "enumSlices [] startIdx m = m"
| "enumSlices (val # vals) startIdx m =
     (let endIdx = startIdx + length (evName val)
      in enumSlices vals endIdx (AList.update (evName val) (showNat startIdx @ '':'' @ showNat endIdx) m))"

definition enumNames :: "enumValue list \<Rightarrow> string" where
  "enumNames vals = concat (map evName vals)"

definition sortedValues :: "igniteEnum \<Rightarrow> enumValue list" where
  "sortedValues enum = sort_key evName (map snd (geValues enum))"

definition indexOr :: "(string \<times> string) list \<Rightarrow> string \<Rightarrow> string" where
  "indexOr m k = (case map_of m k of Some v \<Rightarrow> v | None \<Rightarrow> [])"

definition writeEnum :: "('a genParser_scheme) \<Rightarrow> igniteEnum \<Rightarrow> string" where
  "writeEnum g enum =
     (let n = geName enum; vals = sortedValues enum; ord2name = enumSlices vals 0 []; ifc = getAliasedGoType g ''ignite'' ''Enum'' in
      if length (geValues enum) = 0 then []
      else (if n \<noteq> geTypeName enum then writeTypeNameAware ''e'' n (geTypeName enum) else []) @
        writePlatformAware g ''e'' n (gePlatform enum) @
        line (''func (e '' @ n @ '') Ordinal() int {'') @ line ''return int(e)'' @ line ''}'' @ nl @
        line (''func (e '' @ n @ '') Name() string {'') @ line (''return _'' @ n @ ''_ord2name[e]'') @ line ''}'' @ nl @
        line (''func (e '' @ n @ '') Values() []'' @ ifc @ '' {'') @ line (''return _'' @ n @ ''_values'') @ line ''}'' @ nl @
        line (''const _'' @ n @ ''_names = '' @ quoted (enumNames vals)) @
        line (''var _'' @ n @ ''_ord2name = map['' @ n @ '']string{'') @
        concat (map (\<lambda>v. line (evGoName v @ '': _'' @ n @ ''_names['' @ indexOr ord2name (evName v) @ ''], '')) vals) @
        line ''}'' @ nl @
        line (''var _'' @ n @ ''_values = []'' @ ifc @ ''{'') @
        concat (map (\<lambda>v. line (evGoName v @ '','')) vals) @
        line ''}'')"

section \<open>The register function\<close>

definition isUpper :: "char \<Rightarrow> bool" where "isUpper c \<longleftrightarrow> CHR ''A'' \<le> c \<and> c \<le> CHR ''Z''"
definition isLower :: "char \<Rightarrow> bool" where "isLower c \<longleftrightarrow> CHR ''a'' \<le> c \<and> c \<le> CHR ''z''"
definition isNumber :: "char \<Rightarrow> bool" where "isNumber c \<longleftrightarrow> CHR ''0'' \<le> c \<and> c \<le> CHR ''9''"

definition shiftCase :: "bool \<Rightarrow> bool \<Rightarrow> char \<Rightarrow> char" where
  "shiftCase capNext prevIsCap c =
     (if capNext then (if isLower c then char_of (of_char c - 32 :: nat) else c)
      else if prevIsCap \<and> isUpper c then char_of (of_char c + 32 :: nat) else c)"

fun camelLoop :: "bool \<Rightarrow> bool \<Rightarrow> string \<Rightarrow> string" where
  "camelLoop capNext prevIsCap [] = []"
| "camelLoop capNext prevIsCap (v # vs) =
     (if isUpper v \<or> isLower v then shiftCase capNext prevIsCap v # camelLoop False (isUpper v) vs
      else if isNumber v then v # camelLoop True (isUpper v) vs
      else camelLoop (v \<in> {CHR ''_'', CHR '' '', CHR ''-'', CHR ''.'', CHR ''/'', CHR 0x5C}) (isUpper v) vs)"

definition toCamelCase :: "string \<Rightarrow> string" where
  "toCamelCase s = (let s = TrimSpace s in if s = [] then s else camelLoop True False s)"

definition registerName :: "('a genParser_scheme) \<Rightarrow> string option" where
  "registerName g =
     (let structs = gpStructs g; enums = map snd (gpEnums g) in
      if length structs + length enums = 1 then
        (if length structs = 1 then Some (''Register'' @ toCamelCase (gsName (hd structs)))
         else if length (geValues (hd enums)) = 0 then None
         else Some (''Register'' @ toCamelCase (geName (hd enums))))
      else
        let funcName = (if \<not> gpIsDir g then trimSuffix (gpFileName g) ''.go'' else pkgName g)
        in Some (''Register'' @ toCamelCase funcName @ ''IgniteTypes''))"

definition writeRegisterFunction :: "('a genParser_scheme) \<Rightarrow> string" where
  "writeRegisterFunction g =
     (let structs = gpStructs g; enums = map snd (gpEnums g) in
      if length structs = 0 \<and> length enums = 0 then []
      else case registerName g of
        None \<Rightarrow> []
      | Some funcName \<Rightarrow>
          line (''func '' @ funcName @ ''(cli *'' @ getAliasedGoType g ''ignite'' ''Client'' @ '') error {'') @
          concat (map (\<lambda>s. writeErrorCheck (getAliasedGoType g ''ignite'' ''RegisterType'' @ ''[*'' @ gsName s @ ''](cli)'')) structs) @
          concat (map (\<lambda>n. writeErrorCheck (getAliasedGoType g ''ignite'' ''RegisterEnum'' @ ''['' @ n @ ''](cli)'')) (sort (map geName enums))) @
          line ''return nil'' @ line ''}'')"

section \<open>The file\<close>

definition importLines :: "importSpec list \<Rightarrow> string list" where
  "importLines imps =
     map (\<lambda>imp. (case impName imp of Some n \<Rightarrow> n @ '' '' | None \<Rightarrow> []) @ impPath imp) imps @
     (if \<exists>imp \<in> set imps. Unquote (impPath imp) = Some ignPackage then [] else [ignPackage])"

definition printStructs :: "bool \<Rightarrow> ('a genParser_scheme) \<Rightarrow> string" where
  "printStructs withRegister g =
     writePkgHeader g @ writeImportHeader (importLines (gpImports g)) @
     concat (map (writeStruct g) (gpStructs g)) @
     concat (map (\<lambda>p. writeEnum g (snd p)) (gpEnums g)) @
     (if withRegister then writeRegisterFunction g else [])"

text \<open>The name of the file that is written; what joins a directory and a name is path/filepath.\<close>

definition outputName :: "(string \<Rightarrow> string \<Rightarrow> string) \<Rightarrow> string \<Rightarrow> ('a genParser_scheme) \<Rightarrow> gerror + string" where
  "outputName join specifiedName p =
     (if specifiedName \<noteq> [] then Inr specifiedName
      else if gpIsDir p then Inr (join (gpFileName p) (pkgName p @ ''_binarylizable.go''))
      else if trimSuffix (gpFileName p) ''.go'' = gpFileName p then Inl (ErrMsg (''filename must end in '' @ CHR 0x27 # ''.go'' @ [CHR 0x27]))
      else Inr (trimSuffix (gpFileName p) ''.go'' @ ''_binarylizable.go''))"

definition generateText :: "string \<Rightarrow> bool \<Rightarrow> string \<Rightarrow> bool \<Rightarrow> astFile list list \<Rightarrow> string res" where
  "generateText fname isDir tags withRegister pkgs =
     bindE (parsePackages pkgs (newParser fname isDir)) (\<lambda>p.
       Inr (printStructs withRegister (if tags \<noteq> [] then p\<lparr>buildTags := TrimSpace tags\<rparr> else p)))"

end
