(* ===== verification/GeneratorProps.thy ===== *)
theory GeneratorProps
  imports Generator
begin

text \<open>
  Properties of the code generator: the calls of the serializers it prints, the tables of enums, the
  annotations, and the names of register functions.
\<close>

section \<open>The calls of a serializer\<close>

text \<open>The names of the fields that the lines of a text pass to a function, in order.\<close>

definition callIn :: "string \<Rightarrow> string \<Rightarrow> string list" where
  "callIn f l = (let start = ''if err := '' @ f @ ''(ctx, '' @ qt in
     if hasPrefix l start then [takeWhile (\<lambda>c. c \<noteq> CHR 0x22) (drop (length start) l)] else [])"

definition callsIn :: "string \<Rightarrow> string \<Rightarrow> string list" where
  "callsIn f text = concat (map (callIn f) (split (CHR 0x0A) text))"

definition oneLine :: "string \<Rightarrow> bool" where
  "oneLine s \<longleftrightarrow> CHR 0x0A \<notin> set s"

lemma oneLine_simps [simp]:
  "oneLine []" "oneLine (c # s) \<longleftrightarrow> c \<noteq> CHR 0x0A \<and> oneLine s" "oneLine (s @ t) \<longleftrightarrow> oneLine s \<and> oneLine t"
  by (auto simp: oneLine_def)

lemma callsIn_Nil [simp]: "callsIn f [] = []"
  by (simp add: callsIn_def callIn_def Let_def)

lemma callsIn_line [simp]: "oneLine l \<Longrightarrow> callsIn f (line l @ t) = callIn f l @ callsIn f t"
  by (simp add: callsIn_def line_def nl_def oneLine_def split_append)

lemma callsIn_nl [simp]: "callsIn f (nl @ t) = callsIn f t"
  by (simp add: callsIn_def nl_def callIn_def Let_def)

lemma callsIn_last [simp]: "oneLine l \<Longrightarrow> callsIn f (line l) = callIn f l" "callsIn f nl = []"
  using callsIn_line [of l f "[]"] callsIn_nl [of f "[]"] by simp_all

lemma hasPrefix_appendD: "hasPrefix s (p @ q) \<Longrightarrow> hasPrefix s p"
  by (induction s p rule: hasPrefix.induct) auto

lemma callIn_other [simp]: "\<not> hasPrefix l ''if err := '' \<Longrightarrow> callIn f l = []"
  using hasPrefix_appendD [of l "''if err := ''" "f @ ''(ctx, '' @ qt"] by (auto simp: callIn_def Let_def)

lemma takeWhile_quote [simp]: "CHR 0x22 \<notin> set s \<Longrightarrow> takeWhile (\<lambda>c. c \<noteq> CHR 0x22) (s @ CHR 0x22 # t) = s"
  by (induction s) auto

text \<open>Names and types that are pieces of one line, as those that a parser of Go makes are.\<close>

definition cleanMethods :: "typeMethods \<Rightarrow> bool" where
  "cleanMethods m \<longleftrightarrow> oneLine (mGoType m) \<and> oneLine (mOriginalGoType m)"

definition cleanField :: "igniteField \<Rightarrow> bool" where
  "cleanField f \<longleftrightarrow> oneLine (gfName f) \<and> oneLine (aliasOf f) \<and> CHR 0x22 \<notin> set (aliasOf f) \<and>
     cleanMethods (methods (gfType f)) \<and>
     (\<forall>e. mElementType (methods (gfType f)) = Some e \<longrightarrow> cleanMethods (methods e)) \<and>
     (\<forall>e. mElementKeyType (methods (gfType f)) = Some e \<longrightarrow> cleanMethods (methods e))"

definition cleanParser :: "('a genParser_scheme) \<Rightarrow> bool" where
  "cleanParser g \<longleftrightarrow> list_all (\<lambda>p. oneLine (snd p)) (reverseAliases g)"

lemma oneLine_aliased: "cleanParser g \<Longrightarrow> oneLine pkg \<Longrightarrow> oneLine t \<Longrightarrow> oneLine (getAliasedGoType g pkg t)"
  by (auto simp: getAliasedGoType_def cleanParser_def list_all_iff split: option.splits dest!: map_of_SomeD)

lemma callsIn_check: "oneLine e \<Longrightarrow> callsIn f (writeErrorCheck e @ t) = callIn f (''if err := '' @ e @ ''; err != nil {'') @ callsIn f t"
  by (simp add: writeErrorCheck_def)

abbreviation reads :: "string \<Rightarrow> string list" where "reads \<equiv> callsIn ''reader.ReadField''"
abbreviation writes' :: "string \<Rightarrow> string list" where "writes' \<equiv> callsIn ''writer.WriteField''"
abbreviation nulls :: "string \<Rightarrow> string list" where "nulls \<equiv> callsIn ''writer.WriteNullField''"

lemma reads_call [simp]:
  assumes "oneLine (aliasOf f)" and "CHR 0x22 \<notin> set (aliasOf f)" and "oneLine dest"
  shows "reads (readCall f dest @ t) = aliasOf f # reads t"
  using assms by (simp add: readCall_def callsIn_check quoted_def qt_def) (simp add: callIn_def Let_def qt_def)

lemma reads_call_last [simp]:
  assumes "oneLine (aliasOf f)" and "CHR 0x22 \<notin> set (aliasOf f)" and "oneLine dest"
  shows "reads (readCall f dest) = [aliasOf f]"
  using reads_call [OF assms, of "[]"] by simp

lemma reads_arrays:
  assumes "oneLine (gfName f)" and "oneLine (aliasOf f)" and "CHR 0x22 \<notin> set (aliasOf f)" and "cleanMethods el" and "cleanParser g"
  shows "reads (readPointerArray f el @ t) = aliasOf f # reads t"
    and "reads (readPrimitiveArray f el @ t) = aliasOf f # reads t"
    and "reads (readObjectArray g f el @ t) = aliasOf f # reads t"
  using assms oneLine_aliased [of g "''fmt''" "''Errorf''"]
  by (simp_all add: readPointerArray_def readPrimitiveArray_def readObjectArray_def cleanMethods_def quoted_def qt_def)

lemma reads_converted:
  assumes "oneLine (gfName f)" and "oneLine (aliasOf f)" and "CHR 0x22 \<notin> set (aliasOf f)" and "cleanMethods m"
    and "mIsPointer m \<longrightarrow> cleanMethods (methods (the (mElementType m)))"
  shows "reads (readConverted f m @ t) = aliasOf f # reads t"
  using assms by (simp add: readConverted_def cleanMethods_def)

lemma reads_map:
  assumes "oneLine (gfName f)" and "oneLine (aliasOf f)" and "CHR 0x22 \<notin> set (aliasOf f)" and "cleanParser g"
    and "cleanMethods (methods (the (mElementType m)))" and "cleanMethods (methods (the (mElementKeyType m)))"
  shows "reads (readMapField g f m @ t) = aliasOf f # reads t"
  using assms oneLine_aliased [of g "''ignite''" "''ToMap''"] by (simp add: readMapField_def cleanMethods_def)

lemma parts_there:
  "mIsArray (methods e) \<or> mIsPointer (methods e) \<or> mIsMap (methods e) \<Longrightarrow> \<exists>x. mElementType (methods e) = Some x"
  "mIsMap (methods e) \<Longrightarrow> \<exists>x. mElementKeyType (methods e) = Some x"
  by (cases e; simp add: identMethods_def ptrMethods_def arrayMethods_def interfaceMethods_def mapMethods_def Let_def)+

lemma reads_printed:
  assumes "cleanParser g" and "cleanField f"
  shows "reads (writeReadField g f @ t) = aliasOf f # reads t"
proof -
  have f: "oneLine (gfName f)" "oneLine (aliasOf f)" "CHR 0x22 \<notin> set (aliasOf f)" "cleanMethods (methods (gfType f))"
    using assms(2) by (simp_all add: cleanField_def)
  have el: "mIsArray (methods (gfType f)) \<or> mIsPointer (methods (gfType f)) \<or> mIsMap (methods (gfType f)) \<Longrightarrow>
      cleanMethods (methods (the (mElementType (methods (gfType f)))))"
    using parts_there(1) assms(2) by (fastforce simp: cleanField_def)
  have key: "mIsMap (methods (gfType f)) \<Longrightarrow> cleanMethods (methods (the (mElementKeyType (methods (gfType f)))))"
    using parts_there(2) assms(2) by (fastforce simp: cleanField_def)
  show ?thesis unfolding writeReadField_def Let_def
    using f el key assms(1) by (simp add: reads_arrays reads_converted reads_map)
qed

definition nullable :: "igniteField \<Rightarrow> bool" where
  "nullable f \<longleftrightarrow> mIsPointer (methods (gfType f)) \<and> mIsScalar (methods (gfType f))"

lemma oneLine_showNat: "oneLine (showNat n)"
  using showNat_digits [of "CHR 0x0A" n] by (auto simp: oneLine_def)

lemma oneLine_nameAt: "oneLine s \<Longrightarrow> oneLine (nameAt s idx i)"
  by (auto simp: oneLine_def nameAt_def dest: in_set_dropD in_set_takeD)

lemma oneLine_name: "oneLine (TypeDescString b)"
  by (auto simp: TypeDescString_def numbered_def showInt_def oneLine_showNat TypeDesc_name_0_def TypeDesc_name_1_def
      TypeDesc_name_2_def intro!: oneLine_nameAt)

lemma writes_printed:
  assumes "cleanParser g" and "cleanField f"
  shows "writes' (writeField g f @ t) = aliasOf f # writes' t"
    and "nulls (writeField g f @ t) = (if nullable f then aliasOf f # nulls t else nulls t)"
proof -
  have f: "oneLine (gfName f)" "oneLine (aliasOf f)" "CHR 0x22 \<notin> set (aliasOf f)" using assms(2) by (simp_all add: cleanField_def)
  have n: "oneLine (getAliasedGoType g ''ignite'' (TypeDescString (typeCode (mIgniteType (methods (gfType f))))))"
    using assms(1) by (intro oneLine_aliased) (simp_all add: oneLine_name)
  show "writes' (writeField g f @ t) = aliasOf f # writes' t"
    using f n by (simp add: writeField_def Let_def callsIn_check quoted_def qt_def) (simp add: callIn_def Let_def qt_def)
  show "nulls (writeField g f @ t) = (if nullable f then aliasOf f # nulls t else nulls t)"
    using f n by (simp add: writeField_def nullable_def Let_def callsIn_check quoted_def qt_def) (simp add: callIn_def Let_def qt_def)
qed

lemma concat_fields:
  assumes "\<And>f t. f \<in> set fs \<Longrightarrow> callsIn c (print f @ t) = calls f @ callsIn c t"
  shows "callsIn c (concat (map print fs) @ t) = concat (map calls fs) @ callsIn c t"
  using assms by (induction fs) simp_all

lemma affinityKey_clean: "list_all cleanField fs \<Longrightarrow> oneLine (affinityKeyOf fs)"
proof -
  have "oneLine acc \<Longrightarrow> list_all cleanField fs \<Longrightarrow> oneLine (fold (\<lambda>f acc. if gfIsAffinityKey f then aliasOf f else acc) fs acc)" for acc
    by (induction fs arbitrary: acc) (auto simp: cleanField_def)
  then show "list_all cleanField fs \<Longrightarrow> oneLine (affinityKeyOf fs)" by (simp add: affinityKeyOf_def)
qed

text \<open>C23 The serializer that the generator prints for a struct reads the fields that it writes: the lines of
  Write that write a field and the lines of Read that read one name the fields of the struct, each once
  and in their order, whatever their types; and those written as null instead are the fields with a
  pointer to a scalar.\<close>

theorem serializer_reads_what_it_writes:
  assumes "cleanParser g" and "list_all cleanField (gsFields s)" and "oneLine (gsName s)"
  shows "callsIn ''reader.ReadField'' (writeReader g s) = map aliasOf (gsFields s) \<and>
    callsIn ''writer.WriteField'' (writeWriter g s) = map aliasOf (gsFields s) \<and>
    callsIn ''writer.WriteNullField'' (writeWriter g s) = map aliasOf (filter nullable (gsFields s))"
proof -
  have f: "f \<in> set (gsFields s) \<Longrightarrow> cleanField f" for f using assms(2) by (simp add: list_all_iff)
  have o: "oneLine (getAliasedGoType g ''context'' ''Context'')" "oneLine (getAliasedGoType g ''ignite'' ''BinaryReader'')"
    "oneLine (getAliasedGoType g ''ignite'' ''BinaryWriter'')" using assms(1) by (intro oneLine_aliased; simp)+
  have sing: "concat (map (\<lambda>f. [aliasOf f]) fs) = map aliasOf fs" for fs by (induction fs) simp_all
  have nul: "concat (map (\<lambda>f. if nullable f then [aliasOf f] else []) fs) = map aliasOf (filter nullable fs)" for fs
    by (induction fs) simp_all
  have "reads (concat (map (writeReadField g) (gsFields s)) @ t) = map aliasOf (gsFields s) @ reads t" for t
    by (subst concat_fields [where calls = "\<lambda>f. [aliasOf f]"]) (simp_all add: reads_printed assms(1) f sing)
  moreover have "writes' (concat (map (writeField g) (gsFields s)) @ t) = map aliasOf (gsFields s) @ writes' t" for t
    by (subst concat_fields [where calls = "\<lambda>f. [aliasOf f]"]) (simp_all add: writes_printed assms(1) f sing)
  moreover have "nulls (concat (map (writeField g) (gsFields s)) @ t) = map aliasOf (filter nullable (gsFields s)) @ nulls t" for t
    by (subst concat_fields [where calls = "\<lambda>f. if nullable f then [aliasOf f] else []"]) (simp_all add: writes_printed assms(1) f nul)
  ultimately show ?thesis using o assms(3) affinityKey_clean [OF assms(2)]
    by (simp add: writeReader_def writeWriter_def Let_def quoted_def qt_def)
qed

text \<open>The struct of a file with a converted number, a pointer, an array of pointers and a map.\<close>

definition sampleStruct :: igniteStruct where
  "sampleStruct = \<lparr>gsFields =
     [\<lparr>gfName = ''id'', gfAlias = ''key'', gfIsAffinityKey = True, gfType = IdentType LongType ''int64'' ''int''\<rparr>,
      \<lparr>gfName = ''name'', gfAlias = [], gfIsAffinityKey = False, gfType = PtrType (IdentType StringType ''string'' ''string'')\<rparr>,
      \<lparr>gfName = ''tags'', gfAlias = [], gfIsAffinityKey = False, gfType = ArrayOf StringArrayType (IdentType StringType ''string'' ''string'')\<rparr>,
      \<lparr>gfName = ''m'', gfAlias = [], gfIsAffinityKey = False,
        gfType = MapOf (IdentType StringType ''string'' ''string'') AnyType\<rparr>],
     gsName = ''Sample'', gsTypeName = ''Sample'', gsPlatform = JavaMarshaller\<rparr>"

theorem serializer_reads_what_it_writes_witness:
  "callsIn ''reader.ReadField'' (writeReader (newParser ''a.go'' False) sampleStruct) = [''key'', ''name'', ''tags'', ''m''] \<and>
   callsIn ''writer.WriteNullField'' (writeWriter (newParser ''a.go'' False) sampleStruct) = [''name'']"
proof -
  have "cleanParser (newParser ''a.go'' False)" by (simp add: cleanParser_def newParser_def)
  moreover have "list_all cleanField (gsFields sampleStruct)" "oneLine (gsName sampleStruct)"
    by (simp_all add: sampleStruct_def cleanField_def cleanMethods_def aliasOf_def identMethods_def ptrMethods_def
        arrayMethods_def mapMethods_def interfaceMethods_def Let_def)
  ultimately show ?thesis
    using serializer_reads_what_it_writes [of "newParser ''a.go'' False" sampleStruct]
    by (simp add: sampleStruct_def aliasOf_def nullable_def identMethods_def ptrMethods_def arrayMethods_def mapMethods_def
        isScalarType_def Let_def)
qed

section \<open>Tables of enums\<close>

lemma enumSlices_other: "k \<notin> evName ` set vals \<Longrightarrow> map_of (enumSlices vals i m) k = map_of m k"
  by (induction vals i m rule: enumSlices.induct) (auto simp: update_conv' Let_def)

lemma enumSlices_cut:
  assumes "n \<in> evName ` set vals"
  shows "\<exists>a b. map_of (enumSlices vals i m) n = Some (showNat a @ '':'' @ showNat b) \<and> i \<le> a \<and> a \<le> b \<and>
    b \<le> i + length (enumNames vals) \<and> drop (a - i) (take (b - i) (enumNames vals)) = n"
  using assms
proof (induction vals i m rule: enumSlices.induct)
  case (2 w vals i m)
  let ?i = "i + length (evName w)" and ?m = "AList.update (evName w) (showNat i @ '':'' @ showNat (i + length (evName w))) m"
  show ?case
  proof (cases "n \<in> evName ` set vals")
    case True
    obtain a b where ab: "map_of (enumSlices vals ?i ?m) n = Some (showNat a @ '':'' @ showNat b)" "?i \<le> a" "a \<le> b"
        "b \<le> ?i + length (enumNames vals)" "drop (a - ?i) (take (b - ?i) (enumNames vals)) = n"
      using 2(1) [OF refl True] by blast
    moreover have "drop (a - i) (take (b - i) (enumNames (w # vals))) = n"
      using ab by (simp add: enumNames_def)
    ultimately show ?thesis by (intro exI [of _ a] exI [of _ b]) (simp add: enumNames_def Let_def)
  next
    case False
    then show ?thesis using 2(2) enumSlices_other [OF False, of ?i ?m]
      by (intro exI [of _ i] exI [of _ "?i"]) (auto simp: enumNames_def update_conv' Let_def)
  qed
qed simp

text \<open>C25 The table of names of an enum is right: for every constant of the enum, the slice that the generator
  prints for it cuts the constant's name out of the text of all names, also when constants share a name
  and whatever order the values are sorted in.\<close>

theorem enum_table_cuts_names:
  assumes "v \<in> set (map snd (geValues enum))"
  shows "\<exists>a b. indexOr (enumSlices (sortedValues enum) 0 []) (evName v) = showNat a @ '':'' @ showNat b \<and>
    a \<le> b \<and> b \<le> length (enumNames (sortedValues enum)) \<and> drop a (take b (enumNames (sortedValues enum))) = evName v"
proof -
  have "evName v \<in> evName ` set (sortedValues enum)" using assms by (simp add: sortedValues_def)
  from enumSlices_cut [OF this, of 0 "[]"]
  obtain a b where "map_of (enumSlices (sortedValues enum) 0 []) (evName v) = Some (showNat a @ '':'' @ showNat b)" "a \<le> b"
      "b \<le> length (enumNames (sortedValues enum))" "drop a (take b (enumNames (sortedValues enum))) = evName v"
    by auto
  then show ?thesis by (intro exI [of _ a] exI [of _ b]) (simp add: indexOr_def)
qed

definition sampleEnum :: igniteEnum where
  "sampleEnum = \<lparr>geName = ''Color'', geTypeName = ''Color'', gePlatform = JavaMarshaller,
     geValues = [(''Red'', \<lparr>evName = ''RED'', evGoName = ''Red''\<rparr>), (''Blue'', \<lparr>evName = ''BLUE'', evGoName = ''Blue''\<rparr>)]\<rparr>"

theorem enum_table_cuts_names_witness:
  "\<exists>a b. indexOr (enumSlices (sortedValues sampleEnum) 0 []) ''RED'' = showNat a @ '':'' @ showNat b \<and>
    drop a (take b (enumNames (sortedValues sampleEnum))) = ''RED''"
  using enum_table_cuts_names [of "\<lparr>evName = ''RED'', evGoName = ''Red''\<rparr>" sampleEnum]
  by (auto simp: sampleEnum_def)

section \<open>Annotations\<close>

lemma directive_chars: "list_all directiveChar ''ignite''" "directiveChar CHR ''e''"
  by code_simp+

lemma trim_annotation: "TrimSpace ('' ignite:enum'') = ''ignite:enum''" "TrimSpace ''ignite:enum'' = ''ignite:enum''"
  by (simp_all add: TrimSpace_def isSpace_def spaceRunes_def)

lemma annotated_enum: "shouldSkip [''// ignite:enum''] = (False, \<lparr>tiTypeName = [], tiPlatform = JavaMarshaller, tiIsEnum = True\<rparr>)"
  "shouldSkip [''//ignite:enum''] = (False, \<lparr>tiTypeName = [], tiPlatform = JavaMarshaller, tiIsEnum = True\<rparr>)"
  using trim_annotation
  by (simp_all add: shouldSkip_def stripMarkers_def readAnnotation_def structComment_def enumComment_def qt_def)

lemma trim_constant: "TrimSpace (''ignite:enum,name='' @ quoted ''RED'' @ nl) = ''ignite:enum,name='' @ quoted ''RED''"
  by (simp add: TrimSpace_def isSpace_def spaceRunes_def quoted_def qt_def nl_def)

text \<open>The name of an enum constant is lost when its comment has no space after the marker: go/ast takes such a
  comment for a directive and leaves it out of the text, while the same form of annotation is accepted
  in front of a type.\<close>

theorem constant_annotation_needs_space:
  "getEnumName (commentText [''//ignite:enum,name='' @ quoted n]) = [] \<and>
   shouldSkip [''//ignite:enum''] = shouldSkip [''// ignite:enum''] \<and>
   getEnumName (commentText [''// ignite:enum,name='' @ quoted ''RED'']) = ''RED''"
proof (intro conjI)
  have "isDirective (''ignite:enum,name='' @ quoted n)"
    using directive_chars by (simp add: isDirective_def)
  then show "getEnumName (commentText [''//ignite:enum,name='' @ quoted n]) = []"
    by (simp add: commentText_def commentLines_def getEnumName_def TrimSpace_def Let_def)
  show "shouldSkip [''//ignite:enum''] = shouldSkip [''// ignite:enum'']" by (simp only: annotated_enum)
  show "getEnumName (commentText [''// ignite:enum,name='' @ quoted ''RED'']) = ''RED''"
    using trim_constant
    by (simp add: getEnumName_def commentText_def commentLines_def stripTrailing_def quoted_def qt_def nl_def)
qed

text \<open>A constant without a type that follows the declaration of an enum joins the enum: the visitor keeps the
  name of the last type it saw, so the generator counts the constant among the values of the enum.\<close>

theorem untyped_constant_joins_enum:
  assumes "c \<noteq> ''_''"
  shows "\<exists>v' enum. visitAll visitDecl [GenDecl [''// ignite:enum''] [TypeSpec [] e (Ident ''int'')], GenDecl [] [ValueSpec [c] None []]] v = Inr v' \<and>
    map_of (gpEnums v') e = Some enum \<and> map_of (geValues enum) c = Some \<lparr>evName = c, evGoName = c\<rparr>"
  using assms by (simp add: visitTypeSpec_def visitValueSpec_def visitType_def annotated_enum update_conv' Let_def)

theorem untyped_constant_joins_enum_witness:
  "\<exists>v' enum. visitAll visitDecl [GenDecl [''// ignite:enum''] [TypeSpec [] ''Color'' (Ident ''int'')], GenDecl [] [ValueSpec [''max''] None []]]
      (newVisitor (newParser ''a.go'' False)) = Inr v' \<and> map_of (gpEnums v') ''Color'' = Some enum \<and> geValues enum \<noteq> []"
  using untyped_constant_joins_enum [of "''max''" "''Color''" "newVisitor (newParser ''a.go'' False)"] by fastforce

section \<open>Names of register functions\<close>

lemma shiftCase_letter: "isUpper c \<or> isLower c \<Longrightarrow> isUpper (shiftCase a b c) \<or> isLower (shiftCase a b c)"
  by (cases "isLower c") (auto simp: shiftCase_def isUpper_def isLower_def less_eq_char_def)

lemma camelLoop_letters: "list_all (\<lambda>c. isUpper c \<or> isLower c \<or> isNumber c) (camelLoop a b s)"
  using shiftCase_letter by (induction a b s rule: camelLoop.induct) auto

text \<open>The function that registers the types of a file has an identifier for a name, whatever the name of the
  file, the package, the struct or the enum: Register and nothing but letters and digits after it.\<close>

theorem register_name_is_identifier:
  assumes "registerName g = Some n"
  shows "\<exists>s. n = ''Register'' @ s \<and> list_all (\<lambda>c. isUpper c \<or> isLower c \<or> isNumber c) s"
proof -
  have c: "list_all (\<lambda>c. isUpper c \<or> isLower c \<or> isNumber c) (toCamelCase s)" for s
    by (simp add: toCamelCase_def camelLoop_letters Let_def)
  have i: "list_all (\<lambda>c. isUpper c \<or> isLower c \<or> isNumber c) ''IgniteTypes''" by code_simp
  have "\<exists>a. n = ''Register'' @ toCamelCase a \<or> n = ''Register'' @ (toCamelCase a @ ''IgniteTypes'')"
    using assms unfolding registerName_def Let_def
    by (simp only: option.inject option.distinct split: if_split_asm; iprover)
  then show ?thesis
  proof (elim exE disjE)
    fix a assume "n = ''Register'' @ toCamelCase a"
    then show ?thesis using c [of a] by (rule exI [of _ "toCamelCase a", OF conjI])
  next
    fix a assume "n = ''Register'' @ (toCamelCase a @ ''IgniteTypes'')"
    moreover have "list_all (\<lambda>c. isUpper c \<or> isLower c \<or> isNumber c) (toCamelCase a @ ''IgniteTypes'')"
      by (simp only: list_all_append c i)
    ultimately show ?thesis by (rule exI [of _ "toCamelCase a @ ''IgniteTypes''", OF conjI])
  qed
qed

theorem register_name_is_identifier_witness:
  "\<exists>s. registerName (newParser ''my-types.go'' False) = Some (''Register'' @ s) \<and>
    list_all (\<lambda>c. isUpper c \<or> isLower c \<or> isNumber c) s"
  using register_name_is_identifier [of "newParser ''my-types.go'' False"]
  by (simp add: registerName_def newParser_def)

end
