(* ===== verification/ObjectBuild.thy ===== *)
theory ObjectBuild
  imports ObjectsProps SchemaWire SchemaStore
begin

text \<open>
  The bytes that newBinaryObject makes: a header, the fields one after the other, and a footer with the
  places of the fields; and that their schema is in the cache afterwards.
\<close>

declare seqW.simps [simp del] unmarshal.simps [simp del]

section \<open>Layout\<close>

text \<open>Where the parts of a sequence of encodings start, from a position on.\<close>

fun placesFrom :: "nat \<Rightarrow> byte list list \<Rightarrow> nat list" where
  "placesFrom p [] = []"
| "placesFrom p (e # es) = p # placesFrom (p + length e) es"

lemma length_placesFrom [simp]: "length (placesFrom p es) = length es"
  by (induction p es rule: placesFrom.induct) simp_all

lemma placesFrom_nth: "i < length es \<Longrightarrow> placesFrom p es ! i = p + length (concat (take i es))"
proof (induction p es arbitrary: i rule: placesFrom.induct)
  case (2 p e es)
  then show ?case by (cases i) simp_all
qed simp

text \<open>The bytes at a place are the part, and the rest follows.\<close>

lemma drop_place:
  assumes "i < length es"
  shows "drop (length (concat (take i es))) (concat es @ post) = es ! i @ concat (drop (Suc i) es) @ post"
proof -
  have "concat es = concat (take i es) @ es ! i @ concat (drop (Suc i) es)"
    using id_take_nth_drop [OF assms] by (metis concat.simps(2) concat_append)
  then show ?thesis by simp
qed

lemma placesFrom_le: "i < length es \<Longrightarrow> placesFrom p es ! i \<le> p + length (concat es)"
  using drop_place [of i es "[]"] placesFrom_nth [of i es p]
  by (metis add_le_cancel_left append_Nil2 append_take_drop_id concat_append le_add1 length_append)

lemma placesFrom_mono: "i < length es \<Longrightarrow> j < length es \<Longrightarrow> i \<le> j \<Longrightarrow> placesFrom p es ! i \<le> placesFrom p es ! j"
proof -
  assume "i < length es" "j < length es" "i \<le> j"
  moreover from \<open>i \<le> j\<close> have "take i es = take i (take j es)" by (simp add: min_def)
  then have "length (concat (take i es)) \<le> length (concat (take j es))"
    by (metis append_take_drop_id concat_append le_add1 length_append)
  ultimately show ?thesis by (simp add: placesFrom_nth)
qed

section \<open>Writing the fields\<close>

definition boTypeOf :: "('d, 'w) env \<Rightarrow> 'd boOptions \<Rightarrow> i32" where
  "boTypeOf env opts = envTypeId env (optTypeName opts)"

type_synonym 'd field = "string \<times> i32 \<times> 'd goval"

definition idOf :: "('d, 'w) env \<Rightarrow> i32 \<Rightarrow> 'd field \<Rightarrow> i32" where
  "idOf env typeId f = envFieldId env typeId (fst f)"

definition valueOf :: "'d field \<Rightarrow> 'd goval" where
  "valueOf f = snd (snd f)"

definition entriesOf :: "i32 list \<Rightarrow> nat \<Rightarrow> byte list list \<Rightarrow> (i32 \<times> i32) list" where
  "entriesOf ids p es = zip ids (map word_of_nat (placesFrom p es))"

definition withEntries :: "(i32 \<times> i32) list \<Rightarrow> binarySchemaBuilder \<Rightarrow> binarySchemaBuilder" where
  "withEntries = fold (\<lambda>(fid, off). AddField fid off)"

text \<open>What stays of the metadata of a writer while fields are added.\<close>

definition sameType :: "binaryMetadata \<Rightarrow> binaryMetadata \<Rightarrow> bool" where
  "sameType m m' \<longleftrightarrow> metaTypeId m' = metaTypeId m \<and> metaTypeName m' = metaTypeName m \<and> isEnum m' = isEnum m \<and> schemas m' = schemas m"

definition ofObject :: "bin_writer \<Rightarrow> bin_writer \<Rightarrow> bool" where
  "ofObject wr wr' \<longleftrightarrow> sameType (bwNewMeta wr) (bwNewMeta wr') \<and> bwStartPos wr' = bwStartPos wr \<and> bwOffset wr' = bwOffset wr"

lemma writeField0_run:
  assumes "mwrites marshalled e" and "wf_out bw"
    and "writeField0 env n t v marshalled wr bw s = (Inr (wr1, bw1), s1)"
  shows "s1 = s \<and> put e bw = Inr bw1 \<and> ofObject wr wr1 \<and> bwFlags wr1 = bwFlags wr OR flagHasSchema \<and>
    bwSchemaBld wr1 = AddField (envFieldId env (metaTypeId (bwNewMeta wr)) n)
      (word_of_int (int (opos bw) - int (bwStartPos wr))) (bwSchemaBld wr)"
  using assms(3) mwritesD [OF assms(1,2)]
  by (auto simp: writeField0_def Let_def bindP_Inr_iff wrapP_def mapErr_def ofObject_def sameType_def addField_def
      split: sum.splits if_splits failure.splits)

lemma writeFields_run:
  assumes "\<And>f. f \<in> set fs \<Longrightarrow> mwrites (marsh (valueOf f)) (enc (valueOf f))" and "wf_out bw"
    and "writeFields env marsh fs wr bw s = (Inr (wr', bw'), s')" and "bwStartPos wr \<le> opos bw"
  shows "s' = s \<and> put (concat (map (\<lambda>f. enc (valueOf f)) fs)) bw = Inr bw' \<and> ofObject wr wr' \<and>
    bwFlags wr' = (if fs = [] then bwFlags wr else bwFlags wr OR flagHasSchema) \<and>
    bwSchemaBld wr' = withEntries (entriesOf (map (idOf env (metaTypeId (bwNewMeta wr))) fs) (opos bw - bwStartPos wr)
      (map (\<lambda>f. enc (valueOf f)) fs)) (bwSchemaBld wr)"
  using assms
proof (induction fs arbitrary: wr bw s)
  case Nil
  then show ?case by (simp add: put_Nil ofObject_def sameType_def withEntries_def entriesOf_def)
next
  case (Cons f fs)
  obtain n t v where f: "f = (n, t, v)" by (cases f)
  obtain wr1 bw1 s1 where 1: "writeField0 env n t v (marsh v) wr bw s = (Inr (wr1, bw1), s1)"
    and 2: "writeFields env marsh fs wr1 bw1 s1 = (Inr (wr', bw'), s')"
    using Cons.prems(3) unfolding f by (auto simp: bindP_Inr_iff)
  have "mwrites (marsh v) (enc v)" using Cons.prems(1) [of f] f by (simp add: valueOf_def)
  note F = writeField0_run [OF this Cons.prems(2) 1]
  have wf: "wf_out bw1" using wf_out_put [OF Cons.prems(2)] F by blast
  have o1: "opos bw1 = opos bw + length (enc v)" using F by (auto simp: put_def split: if_splits)
  have start: "bwStartPos wr1 = bwStartPos wr" using F by (simp add: ofObject_def)
  then have le: "bwStartPos wr1 \<le> opos bw1" using Cons.prems(4) o1 by simp
  note I = Cons.IH [OF _ wf 2 le]
  have i: "put (concat (map (\<lambda>f. enc (valueOf f)) fs)) bw1 = Inr bw'" "ofObject wr1 wr'" "s' = s1"
    "bwFlags wr' = (if fs = [] then bwFlags wr1 else bwFlags wr1 OR flagHasSchema)"
    "bwSchemaBld wr' = withEntries (entriesOf (map (idOf env (metaTypeId (bwNewMeta wr1))) fs) (opos bw1 - bwStartPos wr1)
      (map (\<lambda>f. enc (valueOf f)) fs)) (bwSchemaBld wr1)"
    using I Cons.prems(1) by simp_all
  have "put (enc v @ concat (map (\<lambda>f. enc (valueOf f)) fs)) bw = Inr bw'"
    using put_append [OF Cons.prems(2), of "enc v" "concat (map (\<lambda>f. enc (valueOf f)) fs)"] F i(1) by simp
  moreover have "ofObject wr wr'" using F i(2) by (simp add: ofObject_def sameType_def)
  moreover have "metaTypeId (bwNewMeta wr1) = metaTypeId (bwNewMeta wr)" using F by (simp add: ofObject_def sameType_def)
  moreover have "bwFlags wr' = bwFlags wr OR flagHasSchema" using F i(4) by (simp add: or.assoc)
  moreover have "s' = s" using F i(3) by simp
  moreover have "opos bw1 - bwStartPos wr = opos bw - bwStartPos wr + length (enc v)"
    "word_of_int (int (opos bw) - int (bwStartPos wr)) = (word_of_nat (opos bw - bwStartPos wr) :: i32)"
    using o1 Cons.prems(4) by (simp_all add: of_nat_diff)
  ultimately show ?case using F i(5) start
    by (simp add: f valueOf_def idOf_def [abs_def] withEntries_def entriesOf_def)
qed

section \<open>The footer\<close>

definition footEntry :: "nat \<Rightarrow> bool \<Rightarrow> i32 \<times> i32 \<Rightarrow> byte list" where
  "footEntry sz compact p = (if compact then [] else encI32 (fst p)) @ to_le sz (unat (snd p))"

lemma bldData_withEntries: "bldData (withEntries es bld) = bldData bld @ concat (map (\<lambda>p. [fst p, snd p]) es)"
  unfolding withEntries_def by (induction es arbitrary: bld) (auto simp: AddField_def)

lemma to_le_mod: "to_le k (n mod 256 ^ k) = to_le k n"
  using to_le_of_le [of "to_le k n"] by (simp add: of_le_to_le)

lemma writes_offset:
  assumes "sz = 1 \<or> sz = 2 \<or> sz = 4"
  shows "writes (writeOffset sz o') (to_le sz (unat o'))"
proof -
  have "to_le 1 (unat o') = [ucast o']" by (simp add: to_le_numeral)
  moreover have "writes (WriteInt16 (ucast o')) (to_le 2 (unat o'))"
    by (rule writes_cong [OF writes_prims(4)]) (use to_le_mod [of 2 "unat o'"] in \<open>simp add: unsigned_ucast_eq take_bit_eq_mod\<close>)
  ultimately show ?thesis using assms by (auto simp: writeOffset_def wire)
qed

lemma writes_footerFrom:
  assumes "sz = 1 \<or> sz = 2 \<or> sz = 4"
  shows "writes (writeFooterFrom sz compact (concat (map (\<lambda>p. [fst p, snd p]) es))) (concat (map (footEntry sz compact) es))"
proof (induction es)
  case Nil
  then show ?case by (simp add: wire)
next
  case (Cons p es)
  have "writes (seqW [(if \<not> compact then WriteInt32 (fst p) else skipW), writeOffset sz (snd p),
      writeFooterFrom sz compact (concat (map (\<lambda>p. [fst p, snd p]) es))])
    ((if \<not> compact then encI32 (fst p) else []) @ to_le sz (unat (snd p)) @ concat (map (footEntry sz compact) es) @ [])"
    by (intro writes_seq_Cons writes_seq_Nil writes_if writes_i32 writes_skip writes_offset assms Cons.IH)
  moreover have "footEntry sz compact p = (if \<not> compact then encI32 (fst p) else []) @ to_le sz (unat (snd p))"
    by (simp add: footEntry_def)
  ultimately show ?case by simp
qed

lemma offsetSize_cases: "offsetSize l = 1 \<or> offsetSize l = 2 \<or> offsetSize l = 4"
  by (simp add: offsetSize_def)

text \<open>The size of the offsets fits all of them, because they grow.\<close>

lemma offsetSize_fits:
  assumes "p \<le> maxInt32" and "q \<le> p"
  shows "q < 256 ^ offsetSize (word_of_nat p)"
proof -
  have "sint (word_of_nat p :: i32) = int p" using assms(1) by (intro sint_small) (simp add: small_def maxInt32_def)
  then show ?thesis using assms by (auto simp: offsetSize_def maxOffset1_def maxOffset2_def maxInt32_def)
qed

lemma WriteFooter_run:
  assumes "bldData bld = concat (map (\<lambda>p. [fst p, snd p]) es)" and "es \<noteq> []" and "wf_out bw"
    and "sz = offsetSize (snd (last es))"
  shows "WriteFooter compact bld bw = bindE (put (concat (map (footEntry sz compact) es)) bw) (\<lambda>bw. Inr (sz, bw))"
proof -
  have l: "length (concat (map (\<lambda>p. [fst p, snd p]) es)) = 2 * length es" by (induction es) simp_all
  have "last (concat (map (\<lambda>p. [fst p, snd p]) es)) = snd (last es)"
    using assms(2) by (induction es rule: rev_induct) simp_all
  moreover have "sz = 1 \<or> sz = 2 \<or> sz = 4" unfolding assms(4) by (rule offsetSize_cases)
  ultimately show ?thesis
    using writesD [OF writes_footerFrom assms(3)] assms(2) l unfolding WriteFooter_def assms(1) by (simp add: assms(4) Let_def)
qed

section \<open>The whole object\<close>

definition objectFlags :: "bool \<Rightarrow> (i32 \<times> i32) list \<Rightarrow> i16" where
  "objectFlags compact es =
     (let flags = (if compact then flagUserType OR flagCompactFooter else flagUserType);
          sz = offsetSize (snd (last es))
      in if es = [] then flags
         else if sz = 1 then flags OR flagHasSchema OR flagOffsetOneByte
         else if sz = 2 then flags OR flagHasSchema OR flagOffsetTwoBytes else flags OR flagHasSchema)"

definition footerOf :: "bool \<Rightarrow> (i32 \<times> i32) list \<Rightarrow> byte list" where
  "footerOf compact es = concat (map (footEntry (offsetSize (snd (last es))) compact) es)"

definition headStart :: "i16 \<Rightarrow> i32 \<Rightarrow> byte list" where
  "headStart flags typeId = [typeCode BinaryObjectType, protoVersion] @ encI16 flags @ encI32 typeId"

definition headEnd :: "nat \<Rightarrow> i32 \<Rightarrow> nat \<Rightarrow> byte list" where
  "headEnd len sid off = lenBytes len @ encI32 sid @ lenBytes off"

definition schemaIdOf :: "i32 list \<Rightarrow> i32" where
  "schemaIdOf ids = fnv1a (concat (map encI32 ids)) fnv1OffsetBasis"

text \<open>An object, from its type, the ids of its fields and the encodings of their values.\<close>

definition objectBytes :: "bool \<Rightarrow> i32 \<Rightarrow> i32 list \<Rightarrow> byte list list \<Rightarrow> byte list" where
  "objectBytes compact typeId ids encs =
     (let es = entriesOf ids headerLength encs; body = concat encs; foot = footerOf compact es in
      headStart (objectFlags compact es) typeId @ encI32 (SliceHashCode body) @
      headEnd (headerLength + length body + length foot) (schemaIdOf ids) (headerLength + length body) @ body @ foot)"

lemma length_head [simp]: "length (headStart flags typeId) = 8" "length (headEnd len sid off) = 12"
  by (simp_all add: headStart_def headEnd_def)

lemma seqW_append: "seqW (fs @ gs) bw = bindE (seqW fs bw) (seqW gs)"
  by (induction fs arbitrary: bw) (simp_all add: seqW.simps skipW_def thenW_def bindE_def split: sum.split)

text \<open>A second write into bytes that were written at a position.\<close>

lemma overwrite_inside:
  assumes "p \<le> length buf" and "k + length bs \<le> length xs"
  shows "overwrite (p + k) bs (overwrite p xs buf) = overwrite p (take k xs @ bs @ drop (k + length bs) xs) buf"
proof -
  let ?d = "drop (p + length xs) buf"
  have "overwrite (p + k) bs (take p buf @ xs @ ?d) = take p buf @ (take k xs @ bs @ drop (k + length bs) xs) @ ?d"
    using assms by (simp add: overwrite_def)
  then show ?thesis using assms by (simp add: overwrite_def)
qed

lemma place_run:
  assumes "writes (seqW fs) bs" and "obuf bw = overwrite p xs buf" and "p \<le> length buf" and "k + length bs \<le> length xs"
    and "p + length xs \<le> maxInt32"
  shows "seqW (SetPositionO (p + k) # fs) bw = Inr \<lparr>obuf = overwrite p (take k xs @ bs @ drop (k + length bs) xs) buf, opos = p + k + length bs\<rparr>"
proof -
  have "wf_out (bw\<lparr>opos := p + k\<rparr>)" using assms(2-5) by (simp add: wf_out_def length_overwrite)
  then have "seqW (SetPositionO (p + k) # fs) bw = put bs (bw\<lparr>opos := p + k\<rparr>)"
    using writesD [OF assms(1)] by (simp add: seqW.simps thenW_def SetPositionO_def)
  then show ?thesis using assms(2-5) by (simp add: put_def overwrite_inside)
qed

lemma writes_headStart: "writes (seqW [WriteType BinaryObjectType, WriteInt8 protoVersion, WriteUInt16 flags, WriteInt32 typeId]) (headStart flags typeId)"
  unfolding headStart_def by (rule writes_cong, (rule writes_parts)+) simp

lemma writes_headEnd: "writes (seqW [WriteInt32 (word_of_nat len), WriteInt32 sid, WriteInt32 (word_of_nat off)]) (headEnd len sid off)"
  unfolding headEnd_def by (rule writes_cong, (rule writes_seq_Cons writes_seq_Nil writes_len writes_i32(1))+) simp

lemma head_run:
  fixes bw :: out_stream
  assumes bw: "obuf bw = overwrite p xs buf" "p \<le> length buf" and "24 \<le> length xs" and "p + length xs \<le> maxInt32"
    and ys: "ys = headStart flags typeId @ take 4 (drop 8 xs) @ headEnd len sid off @ drop 24 xs"
  shows "seqW [SetPositionO p, WriteType BinaryObjectType, WriteInt8 protoVersion, WriteUInt16 flags, WriteInt32 typeId,
      SetPositionO (p + lenPos), WriteInt32 (word_of_nat len), WriteInt32 sid, WriteInt32 (word_of_nat off)] bw
    = Inr \<lparr>obuf = overwrite p ys buf, opos = p + 24\<rparr>"
proof -
  let ?xs1 = "headStart flags typeId @ drop 8 xs"
  have 1: "seqW [SetPositionO p, WriteType BinaryObjectType, WriteInt8 protoVersion, WriteUInt16 flags, WriteInt32 typeId] bw
      = Inr \<lparr>obuf = overwrite p ?xs1 buf, opos = p + 8\<rparr>"
    using place_run [OF writes_headStart bw, of 0 flags typeId] assms(3,4) by simp
  have "take 12 ?xs1 @ headEnd len sid off @ drop (12 + length (headEnd len sid off)) ?xs1 = ys"
    using assms(3) by (simp add: ys)
  then have 2: "seqW [SetPositionO (p + lenPos), WriteInt32 (word_of_nat len), WriteInt32 sid, WriteInt32 (word_of_nat off)]
      \<lparr>obuf = overwrite p ?xs1 buf, opos = p + 8\<rparr> = Inr \<lparr>obuf = overwrite p ys buf, opos = p + 24\<rparr>"
    using place_run [OF writes_headEnd, of "\<lparr>obuf = overwrite p ?xs1 buf, opos = p + 8\<rparr>" p ?xs1 buf 12 len sid off] assms(2-4)
    by (simp add: lenPos_def)
  show ?thesis
    using seqW_append [of "[SetPositionO p, WriteType BinaryObjectType, WriteInt8 protoVersion, WriteUInt16 flags, WriteInt32 typeId]"
        "[SetPositionO (p + lenPos), WriteInt32 (word_of_nat len), WriteInt32 sid, WriteInt32 (word_of_nat off)]" bw] 1 2
    by simp
qed

lemma hash_run:
  assumes "24 \<le> length ys" and "p \<le> length buf" and "p + length ys \<le> maxInt32"
  shows "seqW [SetPositionO (p + hashCodePos), WriteInt32 h, SetPositionO ret] \<lparr>obuf = overwrite p ys buf, opos = q\<rparr>
    = Inr \<lparr>obuf = overwrite p (take 8 ys @ encI32 h @ drop 12 ys) buf, opos = ret\<rparr>"
proof -
  have "writes (seqW [WriteInt32 h]) (encI32 h)" by (rule writes_cong, (rule writes_parts)+) simp
  then have 1: "seqW [SetPositionO (p + hashCodePos), WriteInt32 h] \<lparr>obuf = overwrite p ys buf, opos = q\<rparr>
      = Inr \<lparr>obuf = overwrite p (take 8 ys @ encI32 h @ drop 12 ys) buf, opos = p + 12\<rparr>"
    using place_run [of "[WriteInt32 h]" "encI32 h" "\<lparr>obuf = overwrite p ys buf, opos = q\<rparr>" p ys buf 8] assms
    by (simp add: hashCodePos_def)
  show ?thesis
    using seqW_append [of "[SetPositionO (p + hashCodePos), WriteInt32 h]" "[SetPositionO ret]" "\<lparr>obuf = overwrite p ys buf, opos = q\<rparr>"] 1
    by (simp add: seqW.simps thenW_def skipW_def SetPositionO_def)
qed

lemma hash_body:
  assumes "24 + length body \<le> length ys" and "take (24 + length body) ys = front @ body" and "length front = 24" and "p \<le> length buf"
  shows "HashCodeO (int (p + 24)) (int (p + (24 + length body))) \<lparr>obuf = overwrite p ys buf, opos = q\<rparr> = Inr (SliceHashCode body)"
proof -
  have "take (p + (24 + length body)) (overwrite p ys buf) = take p buf @ front @ body"
    using assms by (simp add: overwrite_def min_def)
  then have "drop (p + 24) (take (p + (24 + length body)) (overwrite p ys buf)) = body" using assms by simp
  moreover have "p + (24 + length body) \<le> length (overwrite p ys buf)" using assms by (simp add: length_overwrite)
  ultimately show ?thesis unfolding HashCodeO_def Let_def nat_int by simp
qed

definition schemaOf :: "i32 list \<Rightarrow> binarySchema" where
  "schemaOf ids = \<lparr>schemaId = schemaIdOf ids, schFieldIds = ids\<rparr>"

lemma BuildSchema_entries:
  assumes "length ids = length encs"
  shows "BuildSchema (withEntries (entriesOf ids p encs) newBinarySchemaBuilder) = schemaOf ids"
proof -
  have "map fst (entriesOf ids p encs) = ids" using assms by (simp add: entriesOf_def)
  moreover have "map (\<lambda>p. encI32 (fst p)) (entriesOf ids p encs) = map encI32 (map fst (entriesOf ids p encs))" by simp
  ultimately show ?thesis
    unfolding withEntries_def
    by (simp add: BuildSchema_fold newBinarySchemaBuilder_def schemaOf_def schemaIdOf_def)
qed

text \<open>The footer that finalize writes, with the offset and the flags it keeps.\<close>

definition finished :: "bool \<Rightarrow> (i32 \<times> i32) list \<Rightarrow> nat \<Rightarrow> bin_writer \<Rightarrow> bin_writer" where
  "finished compact es off wr = wr\<lparr>bwOffset := (if es = [] then bwOffset wr else off), bwFlags := objectFlags compact es\<rparr>"

lemma footer_run:
  assumes "wf_out bw" and "bwFlags wr = (if es = [] then flags else flags OR flagHasSchema)"
    and "hasFlag (bwFlags wr) flagHasSchema \<longleftrightarrow> es \<noteq> []"
    and "flags = (if compact then flagUserType OR flagCompactFooter else flagUserType)"
    and "bwSchemaBld wr = withEntries es newBinarySchemaBuilder"
  shows "(if hasFlag (bwFlags wr) flagHasSchema
        then bindE (WriteFooter compact (bwSchemaBld wr) bw) (\<lambda>(fldSize, bw').
          Inr (wr\<lparr>bwOffset := opos bw - bwStartPos wr,
                  bwFlags := (if fldSize = 1 then bwFlags wr OR flagOffsetOneByte
                              else if fldSize = 2 then bwFlags wr OR flagOffsetTwoBytes else bwFlags wr)\<rparr>, bw'))
        else Inr (wr, bw))
    = bindE (put (footerOf compact es) bw) (\<lambda>bw1. Inr (finished compact es (opos bw - bwStartPos wr) wr, bw1))"
proof (cases "es = []")
  case True
  then show ?thesis using assms by (simp add: footerOf_def put_Nil objectFlags_def finished_def)
next
  case False
  have d: "bldData (bwSchemaBld wr) = concat (map (\<lambda>p. [fst p, snd p]) es)"
    by (simp add: assms(5) bldData_withEntries) (simp add: newBinarySchemaBuilder_def)
  have "(if offsetSize (snd (last es)) = 1 then bwFlags wr OR flagOffsetOneByte
      else if offsetSize (snd (last es)) = 2 then bwFlags wr OR flagOffsetTwoBytes else bwFlags wr) = objectFlags compact es"
    using assms(2,4) False by (simp add: objectFlags_def or.assoc)
  then show ?thesis using False assms(3) WriteFooter_run [OF d False assms(1) refl]
    by (simp add: footerOf_def finished_def bindE_assoc)
qed

lemma returnP_Pair: "returnP x = Pair (Inr x)"
  by (rule ext) simp

text \<open>What finalize does: the footer, unless it does not fit, the header over the reserved bytes, and the metadata.\<close>

lemma finalize_run:
  assumes es: "es = entriesOf ids headerLength encs" and len: "length ids = length encs" and body: "body = concat encs"
    and wr: "bwStartPos wr = p" "bwOffset wr = headerLength" "bwSchemaBld wr = withEntries es newBinarySchemaBuilder"
      "bwFlags wr = (if es = [] then flags else flags OR flagHasSchema)"
    and flags: "flags = (if envCompact env then flagUserType OR flagCompactFooter else flagUserType)"
    and T: "metaTypeId (bwNewMeta wr) = typeId" "typeId \<noteq> unregisteredId"
    and bw: "obuf bw = overwrite p (zs @ body) buf" "length zs = 24" "opos bw = p + (24 + length body)" "opos bw \<le> maxInt32" "p \<le> length buf"
  defines "data \<equiv> objectBytes (envCompact env) typeId ids encs"
  shows "finalize env wr bw s =
    (if p + length data \<le> maxInt32
     then bindP (putMetadata (envServer env) (addSchema (schemaOf ids) (bwNewMeta wr)))
       (\<lambda>_. returnP \<lparr>obuf = overwrite p data buf, opos = p + length data\<rparr>) s
     else (Inl Panic, s))"
proof -
  have wf: "wf_out bw" using bw by (simp add: wf_out_def length_overwrite)
  have hs: "hasFlag (bwFlags wr) flagHasSchema \<longleftrightarrow> es \<noteq> []"
    unfolding wr(4) flags by (simp add: hasFlag_def flagHasSchema_def flagUserType_def flagCompactFooter_def)
  let ?foot = "footerOf (envCompact env) es"
  have ld: "length data = 24 + length body + length ?foot" by (simp add: data_def objectBytes_def es body Let_def)
  define wr1 where "wr1 = finished (envCompact env) es (opos bw - bwStartPos wr) wr"
  have e: "es = [] \<longleftrightarrow> encs = []" using len by (cases encs; cases ids) (simp_all add: es entriesOf_def)
  have K: "bwStartPos wr1 = p" "bwNewMeta wr1 = bwNewMeta wr" "bwFlags wr1 = objectFlags (envCompact env) es"
    "bwOffset wr1 = 24 + length body" "BuildSchema (bwSchemaBld wr1) = schemaOf ids"
    using wr bw(3) e BuildSchema_entries [OF len] es by (simp_all add: wr1_def finished_def body headerLength_def)
  show ?thesis
  proof (cases "p + length data \<le> maxInt32")
    case False
    then have "put ?foot bw = Inl Panic" using bw ld by (simp add: put_def)
    then show ?thesis using False unfolding finalize_def footer_run [OF wf wr(4) hs flags wr(3)] by simp
  next
    case True
    let ?xs = "zs @ body @ ?foot"
    define bw1 :: out_stream where "bw1 = \<lparr>obuf = overwrite p ?xs buf, opos = p + length data\<rparr>"
    have "overwrite (p + length (zs @ body)) ?foot (overwrite p (zs @ body) buf) = overwrite p ?xs buf"
      using overwrite_overwrite [OF bw(5), of "zs @ body" ?foot] by simp
    then have p: "put ?foot bw = Inr bw1" using True bw ld by (simp add: put_def bw1_def)
    let ?ys = "headStart (objectFlags (envCompact env) es) typeId @ take 4 (drop 8 zs) @
      headEnd (length data) (schemaIdOf ids) (24 + length body) @ body @ ?foot"
    have hd: "seqW [SetPositionO p, WriteType BinaryObjectType, WriteInt8 protoVersion, WriteUInt16 (objectFlags (envCompact env) es),
        WriteInt32 typeId, SetPositionO (p + lenPos), WriteInt32 (word_of_nat (length data)), WriteInt32 (schemaIdOf ids),
        WriteInt32 (word_of_nat (24 + length body))] bw1 = Inr \<lparr>obuf = overwrite p ?ys buf, opos = p + 24\<rparr>"
      by (rule head_run [where xs = ?xs]) (use True ld bw(2,5) in \<open>simp_all add: bw1_def\<close>)
    have hc: "HashCodeO (int (p + 24)) (int (p + (24 + length body))) \<lparr>obuf = overwrite p ?ys buf, opos = p + 24\<rparr> = Inr (SliceHashCode body)"
      using bw(2,5) by (intro hash_body [where front = "take 24 ?ys"]) simp_all
    have hw: "seqW [SetPositionO (p + hashCodePos), WriteInt32 (SliceHashCode body), SetPositionO (p + length data)] \<lparr>obuf = overwrite p ?ys buf, opos = p + 24\<rparr>
        = Inr \<lparr>obuf = overwrite p data buf, opos = p + length data\<rparr>"
      using hash_run [of ?ys p buf "SliceHashCode body" "p + length data" "p + 24"] bw(2,5) ld True
      by (simp add: data_def objectBytes_def es body headerLength_def Let_def add.assoc)
    have len1: "word_of_int (int (p + length data) - int p) = (word_of_nat (length data) :: i32)" by simp
    show ?thesis
      using hd hc hw True
      unfolding finalize_def footer_run [OF wf wr(4) hs flags wr(3)] p wr1_def [symmetric]
      by (simp add: K T schemaOf_def addSchema_def bw1_def headerLength_def returnP_Pair Let_def)
  qed
qed

section \<open>The schema in the cache\<close>

definition hasSchema :: "i32 \<Rightarrow> i32 \<Rightarrow> metaCache \<Rightarrow> bool" where
  "hasSchema typeId sid c \<longleftrightarrow> cacheGetSchema typeId sid c \<noteq> None"

lemma merge_has_schema:
  assumes "mergeMetadata old m = Inr (ch, m')" and "\<not> isEnum m" and "map_of (schemas m) sid \<noteq> None"
  shows "\<not> isEnum m'" "metaTypeId m' = metaTypeId m" "map_of (schemas m') sid \<noteq> None"
    "\<not> ch \<Longrightarrow> old = Some o' \<Longrightarrow> map_of (schemas o') sid \<noteq> None"
proof -
  have sid: "sid \<in> dom (map_of (schemas m))" using assms(3) by auto
  have "\<not> isEnum m' \<and> metaTypeId m' = metaTypeId m \<and> sid \<in> dom (map_of (schemas m')) \<and>
      (\<not> ch \<longrightarrow> (\<forall>o'. old = Some o' \<longrightarrow> sid \<in> dom (map_of (schemas o'))))"
  proof (cases old)
    case None
    then show ?thesis using assms sid by (auto simp: mergeMetadata_def)
  next
    case (Some o1)
    obtain ch2 ms where ms: "mergeSchemas o1 m = (ch2, ms)" by (cases "mergeSchemas o1 m")
    note S = mergeSchemas_spec(2,3) [OF ms]
    have "\<exists>y. map_of ms sid = Some y" "\<not> ch2 \<Longrightarrow> \<exists>y. map_of (schemas o1) sid = Some y" using S sid by blast+
    then show ?thesis using assms(1,2) sid
      by (auto simp: Some mergeMetadata_def ms Let_def bindE_Inr_iff simp del: domIff split: if_splits)
  qed
  then show "\<not> isEnum m'" "metaTypeId m' = metaTypeId m" "map_of (schemas m') sid \<noteq> None"
    "\<not> ch \<Longrightarrow> old = Some o' \<Longrightarrow> map_of (schemas o') sid \<noteq> None" by auto
qed

lemma put_has_schema:
  assumes "cachePutMetadata m c = Inr (m', c')" and "\<not> isEnum m" and "map_of (schemas m) sid \<noteq> None"
  shows "hasSchema (metaTypeId m) sid c'"
proof -
  obtain ch where me: "mergeMetadata (metaData c (metaTypeId m)) m = Inr (ch, m')"
    and c': "c' = (if ch then c\<lparr>metaData := (metaData c)(metaTypeId m' \<mapsto> m')\<rparr> else c)"
    using assms(1) by (auto simp: cachePutMetadata_def bindE_Inr_iff)
  note M = merge_has_schema [OF me assms(2,3)]
  show ?thesis
  proof (cases ch)
    case True
    then show ?thesis using c' M by (simp add: hasSchema_def cacheGetSchema_def)
  next
    case False
    then obtain o' where "metaData c (metaTypeId m) = Some o'" using me by (cases "metaData c (metaTypeId m)") (auto simp: mergeMetadata_def)
    then show ?thesis using False M(4) c' by (simp add: hasSchema_def cacheGetSchema_def)
  qed
qed

lemma putMetadata_has_schema:
  assumes "putMetadata srv m s = (Inr m', s')" and "\<not> isEnum m" and "map_of (schemas m) sid \<noteq> None"
  shows "hasSchema (metaTypeId m) sid (regCache s')"
proof -
  obtain ch m1 s1 u where me: "mergeMetadata (cacheGetMetadata (metaTypeId m) (regCache s)) m = Inr (ch, m1)"
    and p: "cachePut m1 s1 = (Inr m', s')"
    using assms(1) by (auto simp: putMetadata_def fromCache_def bindP_Inr_iff split: sum.splits)
  obtain c' where c: "cachePutMetadata m1 (regCache s1) = Inr (m', c')" "s' = s1\<lparr>regCache := c'\<rparr>"
    using p by (auto simp: cachePut_def split: sum.splits)
  note M = merge_has_schema [OF me assms(2,3)]
  show ?thesis using put_has_schema [OF c(1) M(1,3)] M(2) c(2) by simp
qed

lemma registerClassName_keeps:
  assumes "registerClassName srv platform typeId name s = (x, s')"
  shows "metaData (regCache s') = metaData (regCache s)"
  using assms
  by (auto simp: registerClassName_def sendClassName_def fromCache_def onServer_def onCache_def cacheRegisterClassName_def
      bindP_def split: prod.splits sum.splits if_splits)

section \<open>A whole object\<close>

text \<open>The writer starts an object by reserving the header, wherever the stream stands.\<close>

lemma newBinaryWriter_run:
  assumes "wf_out bw" and "metaTypeId meta \<noteq> unregisteredId"
  obtains h0 where "length h0 = 24"
    "newBinaryWriter env meta old bw = bindE (put h0 bw) (\<lambda>bw1. Inr (\<lparr>bwNewMeta = meta, bwOldMeta = old, bwSchemaBld = newBinarySchemaBuilder,
       bwStartPos = opos bw, bwOffset = headerLength,
       bwFlags = (if envCompact env then flagUserType OR flagCompactFooter else flagUserType)\<rparr>, bw1))"
proof -
  obtain h0 where h: "length h0 = 24" "bindE (EnsureAvailable 24 bw) (SetPositionO (opos bw + 24)) = put h0 bw"
    using reserve_run [OF assms(1), of 24] by blast
  have pos: "EnsureAvailable headerLength bw = Inr b \<Longrightarrow> opos b = opos bw" for b
    by (auto simp: EnsureAvailable_def split: if_splits)
  have "newBinaryWriter env meta old bw = bindE (bindE (EnsureAvailable 24 bw) (SetPositionO (opos bw + 24))) (\<lambda>bw1.
      Inr (\<lparr>bwNewMeta = meta, bwOldMeta = old, bwSchemaBld = newBinarySchemaBuilder, bwStartPos = opos bw, bwOffset = headerLength,
        bwFlags = (if envCompact env then flagUserType OR flagCompactFooter else flagUserType)\<rparr>, bw1))"
    using assms(2) pos by (cases "EnsureAvailable headerLength bw") (simp_all add: newBinaryWriter_def SetPositionO_def headerLength_def Let_def)
  then show ?thesis using h by (intro that) simp_all
qed

lemma objectParts:
  "entriesOf (map g fs) headerLength (map h fs) = [] \<longleftrightarrow> fs = []"
  by (cases fs) (simp_all add: entriesOf_def)

text \<open>What the three steps did, when they came to an end.\<close>

lemma object_run:
  assumes enc: "\<And>f. f \<in> set fs \<Longrightarrow> mwrites (marsh (valueOf f)) (enc (valueOf f))" and wf: "wf_out bw" and T: "typeId \<noteq> unregisteredId"
    and w0: "newBinaryWriter env (newBinaryMetadata typeId name aff) old bw = Inr (wr, bw1)"
    and w1: "writeFields env marsh fs wr bw1 s = (Inr (wr1, bw2), s1)"
  defines "ids \<equiv> map (idOf env typeId) fs" and "encs \<equiv> map (\<lambda>f. enc (valueOf f)) fs"
  defines "data \<equiv> objectBytes (envCompact env) typeId ids encs"
  shows "s1 = s" "bwStartPos wr1 = opos bw" "sameType (newBinaryMetadata typeId name aff) (bwNewMeta wr1)"
    "finalize env wr1 bw2 s = (if opos bw + length data \<le> maxInt32
     then bindP (putMetadata (envServer env) (addSchema (schemaOf ids) (bwNewMeta wr1)))
       (\<lambda>_. returnP \<lparr>obuf = overwrite (opos bw) data (obuf bw), opos = opos bw + length data\<rparr>) s
     else (Inl Panic, s))"
proof -
  let ?meta = "newBinaryMetadata typeId name aff"
  let ?flags = "if envCompact env then flagUserType OR flagCompactFooter else flagUserType"
  have t: "metaTypeId ?meta = typeId" by (simp add: newBinaryMetadata_def)
  obtain h0 where h0: "length h0 = 24" "newBinaryWriter env ?meta old bw = bindE (put h0 bw) (\<lambda>bw1. Inr (\<lparr>bwNewMeta = ?meta, bwOldMeta = old,
      bwSchemaBld = newBinarySchemaBuilder, bwStartPos = opos bw, bwOffset = headerLength, bwFlags = ?flags\<rparr>, bw1))"
    using newBinaryWriter_run [OF wf, of ?meta env old] T unfolding t by blast
  have wr: "wr = \<lparr>bwNewMeta = ?meta, bwOldMeta = old, bwSchemaBld = newBinarySchemaBuilder, bwStartPos = opos bw,
      bwOffset = headerLength, bwFlags = ?flags\<rparr>" and p0: "put h0 bw = Inr bw1"
    using w0 h0(2) by (auto simp: bindE_Inr_iff)
  have wf1: "wf_out bw1" by (rule wf_out_put [OF wf p0])
  have o1: "opos bw1 = opos bw + 24" using p0 h0(1) by (auto simp: put_def split: if_splits)
  have le: "bwStartPos wr \<le> opos bw1" using o1 by (simp add: wr)
  note W = writeFields_run [OF enc wf1 w1 le]
  show "s1 = s" "bwStartPos wr1 = opos bw" "sameType ?meta (bwNewMeta wr1)"
    using W by (simp_all add: ofObject_def wr)
  have p1: "put (concat encs) bw1 = Inr bw2" using W by (simp add: encs_def)
  have p2: "put (h0 @ concat encs) bw = Inr bw2" using put_append [OF wf, of h0 "concat encs"] p0 p1 by simp
  have "bwSchemaBld wr1 = withEntries (entriesOf ids headerLength encs) newBinarySchemaBuilder"
    "bwOffset wr1 = headerLength" "bwFlags wr1 = (if entriesOf ids headerLength encs = [] then ?flags else ?flags OR flagHasSchema)"
    "metaTypeId (bwNewMeta wr1) = typeId"
    using W objectParts [where fs = fs] by (simp_all add: wr ids_def encs_def o1 headerLength_def ofObject_def sameType_def t)
  moreover have "length ids = length encs" by (simp add: ids_def encs_def)
  moreover have "obuf bw2 = overwrite (opos bw) (h0 @ concat encs) (obuf bw)" "opos bw2 = opos bw + (24 + length (concat encs))" "opos bw2 \<le> maxInt32"
    using p2 h0(1) by (auto simp: put_def split: if_splits)
  ultimately show "finalize env wr1 bw2 s = (if opos bw + length data \<le> maxInt32
     then bindP (putMetadata (envServer env) (addSchema (schemaOf ids) (bwNewMeta wr1)))
       (\<lambda>_. returnP \<lparr>obuf = overwrite (opos bw) data (obuf bw), opos = opos bw + length data\<rparr>) s
     else (Inl Panic, s))"
    unfolding data_def using \<open>bwStartPos wr1 = opos bw\<close> h0(1) T wf
    by (intro finalize_run [OF refl _ refl _ _ _ _ refl]) (simp_all add: wf_out_def)
qed

section \<open>Objects of known types\<close>

text \<open>The cache knows the type with its name, the fields with their types, the schema and the class name.\<close>

definition knownField :: "binaryMetadata \<Rightarrow> 'd field \<Rightarrow> bool" where
  "knownField m f \<longleftrightarrow> (\<exists>x. map_of (metaFields m) (fst f) = Some x \<and> fieldType (fst (snd f)) (valueOf f) (Some x) = Inr (fldTypeId x))"

definition knownType :: "('d, 'w) env \<Rightarrow> string \<Rightarrow> string \<Rightarrow> MarshallerPlatform \<Rightarrow> 'd field list \<Rightarrow> metaCache \<Rightarrow> bool" where
  "knownType env name aff platform fs c \<longleftrightarrow> (let typeId = envTypeId env name in case metaData c typeId of
     None \<Rightarrow> False
   | Some m \<Rightarrow> metaTypeId m = typeId \<and> metaTypeName m = name \<and> affKeyName m = aff \<and> \<not> isEnum m \<and>
       list_all (knownField m) fs \<and> map_of (schemas m) (schemaIdOf (map (idOf env typeId) fs)) \<noteq> None \<and>
       cacheGetClassName platform typeId c \<noteq> [])"

lemma writeFields_known:
  assumes "\<And>f. f \<in> set fs \<Longrightarrow> mwrites (marsh (valueOf f)) (enc (valueOf f)) \<and> knownField m f" and "bwOldMeta wr = Some m" and "wf_out bw"
    and "opos bw + length (concat (map (\<lambda>f. enc (valueOf f)) fs)) \<le> maxInt32"
  shows "\<exists>wr' bw'. writeFields env marsh fs wr bw s = (Inr (wr', bw'), s) \<and> bwNewMeta wr' = bwNewMeta wr"
  using assms
proof (induction fs arbitrary: wr bw)
  case (Cons f fs)
  obtain n t v where f: "f = (n, t, v)" by (cases f)
  have w: "mwrites (marsh v) (enc v)" and k: "knownField m f" using Cons.prems(1) [of f] f by (simp_all add: valueOf_def)
  obtain x where x: "map_of (metaFields m) n = Some x" "fieldType t v (Some x) = Inr (fldTypeId x)"
    using k by (auto simp: knownField_def f valueOf_def)
  have fits: "opos bw + length (enc v) \<le> maxInt32" using Cons.prems(4) by (simp add: f valueOf_def)
  obtain bw1 where bw1: "put (enc v) bw = Inr bw1" "wf_out bw1" "opos bw1 = opos bw + length (enc v)"
    using put_ok [OF Cons.prems(3) fits] by blast
  let ?wr1 = "wr\<lparr>bwFlags := bwFlags wr OR flagHasSchema, bwSchemaBld := AddField (envFieldId env (metaTypeId (bwNewMeta wr)) n)
      (word_of_int (int (opos bw) - int (bwStartPos wr))) (bwSchemaBld wr)\<rparr>"
  have "writeField0 env n t v (marsh v) wr bw s = (Inr (?wr1, bw1), s)"
    using x Cons.prems(2) mwritesD [OF w Cons.prems(3)] bw1(1)
    by (simp add: writeField0_def oldFieldMeta_def bindP_def wrapP_def Let_def)
  moreover obtain wr' bw' where "writeFields env marsh fs ?wr1 bw1 s = (Inr (wr', bw'), s)" "bwNewMeta wr' = bwNewMeta ?wr1"
    using Cons.IH [of ?wr1 bw1] Cons.prems bw1 by (auto simp: f valueOf_def)
  ultimately show ?case by (simp add: f bindP_def)
qed simp

lemma merge_no_change:
  assumes "\<not> isEnum m" and "map_of (schemas m) (schemaId sch) \<noteq> None"
    and "meta = addSchema sch (newBinaryMetadata (metaTypeId m) (metaTypeName m) (affKeyName m))"
  shows "mergeMetadata (Some m) meta = Inr (False, meta)"
proof -
  obtain ch ms where ms: "mergeSchemas m meta = (ch, ms)" by (cases "mergeSchemas m meta")
  have "dom (map_of (schemas meta)) = {schemaId sch}" by (auto simp: assms(3) addSchema_def newBinaryMetadata_def)
  then have "\<not> ch" using mergeSchemas_spec(3) [OF ms] assms(2) by auto
  then show ?thesis using ms assms(1) by (simp add: mergeMetadata_def assms(3) addSchema_def newBinaryMetadata_def Let_def)
qed

lemma putMetadata_known:
  assumes "metaData (regCache s) typeId = Some m" and "metaTypeId m = typeId" and "\<not> isEnum m" and "map_of (schemas m) (schemaId sch) \<noteq> None"
  shows "putMetadata srv (addSchema sch (newBinaryMetadata typeId (metaTypeName m) (affKeyName m))) s
    = (Inr (addSchema sch (newBinaryMetadata typeId (metaTypeName m) (affKeyName m))), s)"
proof -
  let ?meta = "addSchema sch (newBinaryMetadata typeId (metaTypeName m) (affKeyName m))"
  have "mergeMetadata (Some (copyMeta m)) ?meta = Inr (False, ?meta)"
    using assms(2-4) by (intro merge_no_change) (simp_all add: copyMeta_def)
  moreover have "mergeMetadata (Some m) ?meta = Inr (False, ?meta)"
    using assms(2-4) by (intro merge_no_change) simp_all
  moreover have "metaTypeId ?meta = typeId" by (simp add: addSchema_def newBinaryMetadata_def)
  ultimately show ?thesis using assms(1)
    by (simp add: putMetadata_def fromCache_def cacheGetMetadata_def cachePut_def cachePutMetadata_def bindP_def)
qed

text \<open>The three steps over a cache that knows everything: they succeed when the object fits, and ask nothing.\<close>

lemma object_known:
  assumes enc: "\<And>f. f \<in> set fs \<Longrightarrow> mwrites (marsh (valueOf f)) (enc (valueOf f))" and wf: "wf_out bw" and T: "envTypeId env name \<noteq> unregisteredId"
    and known: "knownType env name aff platform fs (regCache s)"
  defines "typeId \<equiv> envTypeId env name"
  defines "data \<equiv> objectBytes (envCompact env) typeId (map (idOf env typeId) fs) (map (\<lambda>f. enc (valueOf f)) fs)"
  assumes fits: "opos bw + length data \<le> maxInt32"
  obtains m wr bw1 wr1 bw2 where "getMetadata (envServer env) typeId s = (Inr (Some m), s)" "checkOldMeta name aff (Some m) = None"
    "newBinaryWriter env (newBinaryMetadata typeId name aff) (Some m) bw = Inr (wr, bw1)"
    "writeFields env marsh fs wr bw1 s = (Inr (wr1, bw2), s)" "bwStartPos wr1 = opos bw" "bwNewMeta wr1 = newBinaryMetadata typeId name aff"
    "finalize env wr1 bw2 s = (Inr \<lparr>obuf = overwrite (opos bw) data (obuf bw), opos = opos bw + length data\<rparr>, s)"
    "registerClassName (envServer env) platform typeId name s = (Inr (), s)"
proof -
  let ?meta = "newBinaryMetadata typeId name aff"
  let ?body = "concat (map (\<lambda>f. enc (valueOf f)) fs)"
  obtain m where m: "metaData (regCache s) typeId = Some m" "metaTypeId m = typeId" "metaTypeName m = name"
    "affKeyName m = aff" "\<not> isEnum m" "list_all (knownField m) fs"
    "map_of (schemas m) (schemaIdOf (map (idOf env typeId) fs)) \<noteq> None" "cacheGetClassName platform typeId (regCache s) \<noteq> []"
    using known by (auto simp: knownType_def typeId_def Let_def split: option.splits)
  let ?m = "copyMeta m"
  have g: "getMetadata (envServer env) typeId s = (Inr (Some ?m), s)"
    by (rule getMetadata_cached) (simp add: cacheGetMetadata_def m(1))
  have chk: "checkOldMeta name aff (Some ?m) = None" using m(3-5) by (simp add: checkOldMeta_def copyMeta_def)
  have t: "metaTypeId ?meta \<noteq> unregisteredId" using T by (simp add: newBinaryMetadata_def typeId_def)
  obtain h0 where h0: "length h0 = 24" "newBinaryWriter env ?meta (Some ?m) bw = bindE (put h0 bw) (\<lambda>bw1. Inr (\<lparr>bwNewMeta = ?meta, bwOldMeta = Some ?m,
      bwSchemaBld = newBinarySchemaBuilder, bwStartPos = opos bw, bwOffset = headerLength,
      bwFlags = (if envCompact env then flagUserType OR flagCompactFooter else flagUserType)\<rparr>, bw1))"
    using newBinaryWriter_run [OF wf t, of env "Some ?m"] by blast
  have "length data \<ge> 24 + length ?body" by (simp add: data_def objectBytes_def Let_def)
  then have l: "opos bw + (length h0 + length ?body) \<le> maxInt32" using fits h0(1) by simp
  then obtain bw1 where p0: "put h0 bw = Inr bw1" and wf1: "wf_out bw1" and o1: "opos bw1 = opos bw + 24"
    using put_ok [OF wf, of h0] h0(1) by auto
  define wr where "wr = \<lparr>bwNewMeta = ?meta, bwOldMeta = Some ?m, bwSchemaBld = newBinarySchemaBuilder, bwStartPos = opos bw,
    bwOffset = headerLength, bwFlags = (if envCompact env then flagUserType OR flagCompactFooter else flagUserType)\<rparr>"
  have w0: "newBinaryWriter env ?meta (Some ?m) bw = Inr (wr, bw1)" using h0(2) p0 by (simp add: wr_def)
  have "\<And>f. f \<in> set fs \<Longrightarrow> mwrites (marsh (valueOf f)) (enc (valueOf f)) \<and> knownField ?m f"
    using enc m(5,6) by (simp add: list_all_iff copyMeta_def knownField_def)
  moreover have "opos bw1 + length ?body \<le> maxInt32" using l o1 h0(1) by simp
  ultimately obtain wr1 bw2 where w1: "writeFields env marsh fs wr bw1 s = (Inr (wr1, bw2), s)" and nm: "bwNewMeta wr1 = ?meta"
    using writeFields_known [of fs marsh enc ?m wr bw1 env s] wf1 by (auto simp: wr_def)
  have ids: "typeId \<noteq> unregisteredId" using T by (simp add: typeId_def)
  note R = object_run [OF enc wf ids w0 w1, folded data_def]
  have "putMetadata (envServer env) (addSchema (schemaOf (map (idOf env typeId) fs)) ?meta) s
      = (Inr (addSchema (schemaOf (map (idOf env typeId) fs)) ?meta), s)"
    using putMetadata_known [OF m(1,2,5), of "schemaOf (map (idOf env typeId) fs)"] m(3,4,7) by (simp add: schemaOf_def)
  then have "finalize env wr1 bw2 s = (Inr \<lparr>obuf = overwrite (opos bw) data (obuf bw), opos = opos bw + length data\<rparr>, s)"
    using R(4) fits nm by (simp add: bindP_def)
  then show ?thesis using g chk w0 w1 R(2) nm registerClassName_known [OF m(8)] by (intro that) simp_all
qed

section \<open>Objects of options and of user types\<close>

lemma Slice_whole: "obuf bw = overwrite 0 data buf \<Longrightarrow> Slice 0 (length data) bw = Inr data"
  by (simp add: Slice_def overwrite_def)

lemma newBinaryObject_run:
  assumes enc: "\<And>f. f \<in> set (optFields opts) \<Longrightarrow> mwrites (marsh (valueOf f)) (enc (valueOf f))"
    and T: "\<not> optSkipTypeRegistration opts" "boTypeOf env opts \<noteq> unregisteredId"
    and run: "newBinaryObject env marsh opts s = (Inr data, s')"
  defines "ids \<equiv> map (idOf env (boTypeOf env opts)) (optFields opts)"
    and "encs \<equiv> map (\<lambda>f. enc (valueOf f)) (optFields opts)"
  shows "data = objectBytes (envCompact env) (boTypeOf env opts) ids encs \<and> length data \<le> maxInt32 \<and>
    hasSchema (boTypeOf env opts) (schemaIdOf ids) (regCache s')"
proof -
  let ?T = "boTypeOf env opts"
  let ?data = "objectBytes (envCompact env) ?T ids encs"
  obtain oldMeta s1 wr bw wr1 bw1 bw2 s2 s3 u where
    w0: "newBinaryWriter env (newBinaryMetadata ?T (optTypeName opts) (optAffKeyName opts)) oldMeta (NewBinaryOutputStream headerLength) = Inr (wr, bw)"
    and w1: "writeFields env marsh (optFields opts) wr bw s1 = (Inr (wr1, bw1), s2)"
    and w2: "finalize env wr1 bw1 s2 = (Inr bw2, s3)"
    and w3: "registerClassName (envServer env) (optPlatform opts) ?T (optTypeName opts) s3 = (Inr u, s')"
    and w4: "Slice (bwStartPos wr1) (opos bw2) bw2 = Inr data"
    using run T unfolding newBinaryObject_def boTypeOf_def
    by (auto simp: Let_def bindP_Inr_iff split: option.splits)
  note R = object_run [OF enc wf_out_New T(2) w0 w1, folded ids_def encs_def]
  have n: "opos (NewBinaryOutputStream headerLength) = 0" by (simp add: NewBinaryOutputStream_def)
  obtain m where F: "obuf bw2 = overwrite 0 ?data (obuf (NewBinaryOutputStream headerLength))" "opos bw2 = length ?data" "length ?data \<le> maxInt32"
    "putMetadata (envServer env) (addSchema (schemaOf ids) (bwNewMeta wr1)) s2 = (Inr m, s3)"
    using w2 R(1,4) n by (auto simp: bindP_Inr_iff split: if_splits)
  have T1: "metaTypeId (bwNewMeta wr1) = ?T" "\<not> isEnum (bwNewMeta wr1)" "schemas (bwNewMeta wr1) = []"
    using R(3) by (simp_all add: sameType_def newBinaryMetadata_def)
  have "data = ?data" using w4 R(2) n F(1,2) Slice_whole [OF F(1)] by simp
  moreover have "hasSchema ?T (schemaIdOf ids) (regCache s3)"
    using putMetadata_has_schema [OF F(4), of "schemaIdOf ids"] T1 by (simp add: addSchema_def schemaOf_def)
  then have "hasSchema ?T (schemaIdOf ids) (regCache s')"
    using registerClassName_keeps [OF w3] by (simp add: hasSchema_def cacheGetSchema_def)
  ultimately show ?thesis using F(3) by simp
qed

abbreviation knownObject :: "('d, 'w) env \<Rightarrow> 'd boOptions \<Rightarrow> metaCache \<Rightarrow> bool" where
  "knownObject env opts \<equiv> knownType env (optTypeName opts) (optAffKeyName opts) (optPlatform opts) (optFields opts)"

lemma newBinaryObject_known:
  assumes enc: "\<And>f. f \<in> set (optFields opts) \<Longrightarrow> mwrites (marsh (valueOf f)) (enc (valueOf f))"
    and T: "\<not> optSkipTypeRegistration opts" "boTypeOf env opts \<noteq> unregisteredId"
    and known: "knownObject env opts (regCache s)"
  defines "data \<equiv> objectBytes (envCompact env) (boTypeOf env opts) (map (idOf env (boTypeOf env opts)) (optFields opts))
    (map (\<lambda>f. enc (valueOf f)) (optFields opts))"
  assumes fits: "length data \<le> maxInt32"
  shows "newBinaryObject env marsh opts s = (Inr data, s)"
proof -
  have n: "opos (NewBinaryOutputStream headerLength) = 0" by (simp add: NewBinaryOutputStream_def)
  have fits': "opos (NewBinaryOutputStream headerLength) + length data \<le> maxInt32" using fits n by simp
  obtain m wr bw1 wr1 bw2 where R: "getMetadata (envServer env) (boTypeOf env opts) s = (Inr (Some m), s)"
    "checkOldMeta (optTypeName opts) (optAffKeyName opts) (Some m) = None"
    "newBinaryWriter env (newBinaryMetadata (boTypeOf env opts) (optTypeName opts) (optAffKeyName opts)) (Some m) (NewBinaryOutputStream headerLength) = Inr (wr, bw1)"
    "writeFields env marsh (optFields opts) wr bw1 s = (Inr (wr1, bw2), s)" "bwStartPos wr1 = 0"
    "finalize env wr1 bw2 s = (Inr \<lparr>obuf = overwrite 0 data (obuf (NewBinaryOutputStream headerLength)), opos = length data\<rparr>, s)"
    "registerClassName (envServer env) (optPlatform opts) (boTypeOf env opts) (optTypeName opts) s = (Inr (), s)"
    by (rule object_known [where fs = "optFields opts" and marsh = marsh and enc = enc and bw = "NewBinaryOutputStream headerLength" and env = env
        and name = "optTypeName opts" and aff = "optAffKeyName opts" and platform = "optPlatform opts" and s = s,
        folded boTypeOf_def, folded data_def, OF enc wf_out_New T(2) known fits', unfolded n add_0]) blast
  show ?thesis
    using R T Slice_whole [of "\<lparr>obuf = overwrite 0 data (obuf (NewBinaryOutputStream headerLength)), opos = length data\<rparr>" data]
    by (simp add: newBinaryObject_def boTypeOf_def bindP_def wrapP_def Let_def)
qed

end
