(* ===== verification/ObjectFields.thy ===== *)
theory ObjectFields
  imports ObjectBuild Canon
begin

text \<open>
  A binary object read back: the header, the footer, and the value of every field through the footer.
\<close>

declare seqW.simps [simp del] unmarshal.simps [simp del]

section \<open>The header\<close>

lemma leAt_part: "length pre = pos \<Longrightarrow> length b = n \<Longrightarrow> leAt (pre @ b @ post) pos n = of_le b"
  by (simp add: leAt_def)

text \<open>The parts of an object, as the properties below refer to them.\<close>

definition bodyEnd :: "byte list list \<Rightarrow> nat" where
  "bodyEnd encs = headerLength + length (concat encs)"

lemma objectBytes_parts:
  assumes "es = entriesOf ids headerLength encs"
  shows "objectBytes compact typeId ids encs = [typeCode BinaryObjectType, protoVersion] @ encI16 (objectFlags compact es) @ encI32 typeId @
    encI32 (SliceHashCode (concat encs)) @ lenBytes (length (objectBytes compact typeId ids encs)) @ encI32 (schemaIdOf ids) @
    lenBytes (bodyEnd encs) @ concat encs @ footerOf compact es"
proof -
  have "length (objectBytes compact typeId ids encs) = headerLength + length (concat encs) + length (footerOf compact es)"
    by (simp add: objectBytes_def assms Let_def headerLength_def)
  then show ?thesis
    by (simp add: objectBytes_def headStart_def headEnd_def assms bodyEnd_def Let_def add.assoc del: length_concat)
qed

lemma of_lenBytes: "n \<le> maxInt32 \<Longrightarrow> of_le (lenBytes n) = n"
  by (simp add: lenBytes_def of_le_to_le maxInt32_def unat_of_nat)

lemma of_encs [simp]: "of_le (encI16 v) = unat v" "of_le (encI32 w) = unat w"
  using unat_bound [of v] unat_bound [of w] by (simp_all add: encI16_def encI32_def of_le_to_le)

lemma header_read:
  assumes "es = entriesOf ids headerLength encs" and "data = objectBytes compact typeId ids encs" and "length data \<le> maxInt32"
  shows "headerLength \<le> length data" "boFlags data = objectFlags compact es" "boRawTypeId data = typeId"
    "boHashCode data = SliceHashCode (concat encs)" "leAt data lenPos intBytes = length data" "boSchemaId data = schemaIdOf ids"
    "leAt data schemaOffsetPos intBytes = bodyEnd encs" "bodyEnd encs \<le> length data" "drop (bodyEnd encs) data = footerOf compact es"
proof -
  note P = objectBytes_parts [OF assms(1), of compact typeId, folded assms(2)]
  have l: "length data = bodyEnd encs + length (footerOf compact es)"
    by (subst P) (simp add: bodyEnd_def headerLength_def)
  then show h: "headerLength \<le> length data" "bodyEnd encs \<le> length data" by (simp_all add: bodyEnd_def)
  then have b: "bodyEnd encs \<le> maxInt32" using assms(3) by simp
  let ?a = "[typeCode BinaryObjectType, protoVersion]"
  let ?h = "encI32 (SliceHashCode (concat encs))" and ?l = "lenBytes (length data)" and ?s = "encI32 (schemaIdOf ids)"
  let ?r = "concat encs @ footerOf compact es"
  have 2: "leAt data 2 2 = unat (objectFlags compact es)"
    by (subst P, subst leAt_part) simp_all
  have 4: "leAt data 4 4 = unat typeId"
    using leAt_part [of "?a @ encI16 (objectFlags compact es)" 4 "encI32 typeId" 4] by (subst P) simp
  have 8: "leAt data 8 4 = unat (SliceHashCode (concat encs))"
    using leAt_part [of "?a @ encI16 (objectFlags compact es) @ encI32 typeId" 8 ?h 4] by (subst P) simp
  have 12: "leAt data 12 4 = length data"
    using leAt_part [of "?a @ encI16 (objectFlags compact es) @ encI32 typeId @ ?h" 12 ?l 4] of_lenBytes [OF assms(3)]
    by (subst P) simp
  have 16: "leAt data 16 4 = unat (schemaIdOf ids)"
    using leAt_part [of "?a @ encI16 (objectFlags compact es) @ encI32 typeId @ ?h @ ?l" 16 ?s 4] by (subst P) simp
  have 20: "leAt data 20 4 = bodyEnd encs"
    using leAt_part [of "?a @ encI16 (objectFlags compact es) @ encI32 typeId @ ?h @ ?l @ ?s" 20 "lenBytes (bodyEnd encs)" 4] of_lenBytes [OF b]
    by (subst P) simp
  show "boFlags data = objectFlags compact es" using 2 h by (simp add: boFlags_def flagsPos_def size_defs)
  show "boRawTypeId data = typeId" using 4 by (simp add: boRawTypeId_def typeIdPos_def size_defs)
  show "boHashCode data = SliceHashCode (concat encs)" using 8 h by (simp add: boHashCode_def hashCodePos_def size_defs)
  show "leAt data lenPos intBytes = length data" using 12 by (simp add: lenPos_def size_defs)
  show "boSchemaId data = schemaIdOf ids" using 16 h by (simp add: boSchemaId_def schemaIdPos_def size_defs)
  show "leAt data schemaOffsetPos intBytes = bodyEnd encs" using 20 by (simp add: schemaOffsetPos_def size_defs)
  let ?pre = "?a @ encI16 (objectFlags compact es) @ encI32 typeId @ ?h @ ?l @ ?s @ lenBytes (bodyEnd encs) @ concat encs"
  have "data = ?pre @ footerOf compact es" by (rule trans [OF P]) simp
  moreover have "length ?pre = bodyEnd encs" by (simp add: bodyEnd_def headerLength_def)
  ultimately show "drop (bodyEnd encs) data = footerOf compact es" by (metis append_eq_conv_conj)
qed

section \<open>The footer\<close>

lemma objectFlags_has:
  assumes "es \<noteq> []"
  shows "hasFlag (objectFlags compact es) flagHasSchema" "\<not> hasFlag (objectFlags compact es) flagHasRaw"
    "hasFlag (objectFlags compact es) flagCompactFooter \<longleftrightarrow> compact"
    "hasFlag (objectFlags compact es) flagOffsetOneByte \<longleftrightarrow> offsetSize (snd (last es)) = 1"
    "hasFlag (objectFlags compact es) flagOffsetTwoBytes \<longleftrightarrow> offsetSize (snd (last es)) = 2"
  using offsetSize_cases [of "snd (last es)"] assms
  by (cases compact; fastforce simp: objectFlags_def hasFlag_def flagHasSchema_def flagHasRaw_def flagCompactFooter_def flagUserType_def
      flagOffsetOneByte_def flagOffsetTwoBytes_def Let_def)+

lemma objectFlags_none: "\<not> hasFlag (objectFlags compact []) flagHasSchema"
  by (simp add: objectFlags_def hasFlag_def flagHasSchema_def flagCompactFooter_def flagUserType_def Let_def)

lemma footer_read:
  assumes "es = entriesOf ids headerLength encs" and "data = objectBytes compact typeId ids encs" and "length data \<le> maxInt32" and "es \<noteq> []"
  shows "boFooter data = Inr (footerOf compact es, offsetSize (snd (last es)))"
  using header_read [OF assms(1-3)] objectFlags_has [OF assms(4)] offsetSize_cases [of "snd (last es)"]
  by (auto simp: boFooter_def Let_def)

lemma lastIndex_absent: "x \<notin> set ids \<Longrightarrow> lastIndex k x ids found = found"
  by (induction ids arbitrary: k found) auto

lemma lastIndex_nth: "distinct ids \<Longrightarrow> i < length ids \<Longrightarrow> lastIndex k (ids ! i) ids found = int (k + i)"
proof (induction ids arbitrary: i k found)
  case (Cons x ids)
  then show ?case by (cases i) (auto simp: lastIndex_absent)
qed simp

lemma length_footEntry [simp]: "length (footEntry sz compact e) = (if compact then sz else 4 + sz)"
  by (simp add: footEntry_def)

text \<open>The scan of a full footer finds the first entry of an id.\<close>

lemma scan_found:
  assumes "distinct (map fst es)" and "i < length es"
  shows "scanFooter (pre @ concat (map (footEntry sz False) es)) sz (fst (es ! i)) (length pre)
    = Inr (Some (length pre + i * (4 + sz) + 4))"
  using assms
proof (induction es arbitrary: pre i)
  case (Cons e es)
  have len: "length pre < length (pre @ concat (map (footEntry sz False) (e # es)))"
    "length pre + intBytes \<le> length (pre @ concat (map (footEntry sz False) (e # es)))" by (simp_all add: size_defs)
  have "footEntry sz False e = encI32 (fst e) @ to_le sz (unat (snd e))" by (simp add: footEntry_def)
  then have at: "(word_of_nat (leAt (pre @ concat (map (footEntry sz False) (e # es))) (length pre) intBytes) :: i32) = fst e"
    using leAt_part [of pre "length pre" "encI32 (fst e)" 4] by (simp add: size_defs)
  show ?case
  proof (cases i)
    case 0
    then show ?thesis using len at by (subst scanFooter.simps) (simp add: size_defs)
  next
    case (Suc j)
    then have ne: "fst e \<noteq> fst ((e # es) ! i)" using Cons.prems by (auto simp: image_iff)
    have "scanFooter ((pre @ footEntry sz False e) @ concat (map (footEntry sz False) es)) sz (fst (es ! j)) (length (pre @ footEntry sz False e))
      = Inr (Some (length (pre @ footEntry sz False e) + j * (4 + sz) + 4))"
      using Cons.IH [of j "pre @ footEntry sz False e"] Cons.prems Suc by simp
    then show ?thesis using len at ne Suc by (subst scanFooter.simps) (simp add: add.assoc)
  qed
qed simp

lemma scan_absent:
  assumes "x \<notin> fst ` set es"
  shows "scanFooter (pre @ concat (map (footEntry sz False) es)) sz x (length pre) = Inr None"
  using assms
proof (induction es arbitrary: pre)
  case Nil
  then show ?case by (subst scanFooter.simps) simp
next
  case (Cons e es)
  have len: "length pre < length (pre @ concat (map (footEntry sz False) (e # es)))"
    "length pre + intBytes \<le> length (pre @ concat (map (footEntry sz False) (e # es)))" by (simp_all add: size_defs)
  have "footEntry sz False e = encI32 (fst e) @ to_le sz (unat (snd e))" by (simp add: footEntry_def)
  then have at: "(word_of_nat (leAt (pre @ concat (map (footEntry sz False) (e # es))) (length pre) intBytes) :: i32) = fst e"
    using leAt_part [of pre "length pre" "encI32 (fst e)" 4] by (simp add: size_defs)
  have "scanFooter ((pre @ footEntry sz False e) @ concat (map (footEntry sz False) es)) sz x (length (pre @ footEntry sz False e)) = Inr None"
    using Cons.IH [of "pre @ footEntry sz False e"] Cons.prems by simp
  then show ?case using len at Cons.prems by (subst scanFooter.simps) (auto simp: add.assoc)
qed

section \<open>The place of a field\<close>

lemma drop_chunks:
  assumes "\<And>x. x \<in> set xs \<Longrightarrow> length (f x) = k" and "i < length xs"
  shows "drop (i * k) (concat (map f xs)) = f (xs ! i) @ concat (map f (drop (Suc i) xs))"
proof -
  have l: "\<And>ys. set ys \<subseteq> set xs \<Longrightarrow> length (concat (map f ys)) = length ys * k"
  proof -
    fix ys show "set ys \<subseteq> set xs \<Longrightarrow> length (concat (map f ys)) = length ys * k"
      using assms(1) by (induction ys) auto
  qed
  have "map f xs = map f (take i xs) @ map f (drop i xs)" by (simp flip: map_append)
  moreover have "drop i xs = xs ! i # drop (Suc i) xs" using assms(2) by (rule Cons_nth_drop_Suc [symmetric])
  ultimately have "concat (map f xs) = concat (map f (take i xs)) @ f (xs ! i) @ concat (map f (drop (Suc i) xs))" by simp
  moreover have "length (concat (map f (take i xs))) = i * k"
    using l [of "take i xs"] set_take_subset [of i xs] assms(2) by (simp add: min_def del: length_concat)
  ultimately show ?thesis by simp
qed

lemma unat_small: "n \<le> maxInt32 \<Longrightarrow> unat (word_of_nat n :: i32) = n"
  by (simp add: unat_of_nat maxInt32_def)

lemma entries_nth:
  assumes "length ids = length encs" and "i < length ids" and "bodyEnd encs \<le> maxInt32"
  shows "fst (entriesOf ids headerLength encs ! i) = ids ! i"
    "unat (snd (entriesOf ids headerLength encs ! i)) = headerLength + length (concat (take i encs))"
proof -
  show "fst (entriesOf ids headerLength encs ! i) = ids ! i" using assms by (simp add: entriesOf_def)
  have "placesFrom headerLength encs ! i \<le> maxInt32" using placesFrom_le [of i encs headerLength] assms by (simp add: bodyEnd_def)
  then show "unat (snd (entriesOf ids headerLength encs ! i)) = headerLength + length (concat (take i encs))"
    using assms(1,2) placesFrom_nth [of i encs headerLength] unat_small by (simp add: entriesOf_def del: of_nat_add)
qed

text \<open>Offsets grow, so the size taken for the last of them holds each.\<close>

lemma entry_fits:
  assumes "es = entriesOf ids headerLength encs" and "length ids = length encs" and "i < length ids" and "bodyEnd encs \<le> maxInt32"
  shows "unat (snd (es ! i)) < 256 ^ offsetSize (snd (last es))"
proof -
  let ?k = "length encs - 1"
  have k: "?k < length encs" "i \<le> ?k" using assms(2,3) by simp_all
  have "length es = length ids" using assms(2) by (simp add: assms(1) entriesOf_def)
  then have "es \<noteq> []" using assms(3) by auto
  then have "last es = es ! ?k" using assms(2) by (simp add: last_conv_nth assms(1) entriesOf_def)
  then have l: "snd (last es) = word_of_nat (placesFrom headerLength encs ! ?k)" using k assms(2) by (simp add: assms(1) entriesOf_def)
  have "placesFrom headerLength encs ! ?k \<le> maxInt32"
    using placesFrom_le [OF k(1), of headerLength] assms(4) by (simp add: bodyEnd_def)
  moreover have "placesFrom headerLength encs ! i \<le> placesFrom headerLength encs ! ?k"
    using placesFrom_mono [of i encs ?k] k assms(2,3) by simp
  ultimately have "placesFrom headerLength encs ! i < 256 ^ offsetSize (snd (last es))"
    unfolding l by (rule offsetSize_fits)
  then show ?thesis
    using entries_nth(2) [OF assms(2-4)] placesFrom_nth [of i encs headerLength] assms by simp
qed

lemma footerOffset_entry:
  assumes "es = entriesOf ids headerLength encs" and "length ids = length encs" and "i < length ids" and "bodyEnd encs \<le> maxInt32"
    and "sz = offsetSize (snd (last es))"
  shows "footerOffset (footerOf True es) sz (i * sz) = Inr (headerLength + length (concat (take i encs)))"
    and "footerOffset (footerOf False es) sz (i * (4 + sz) + 4) = Inr (headerLength + length (concat (take i encs)))"
proof -
  have i: "i < length es" using assms(2,3) by (simp add: assms(1) entriesOf_def)
  note E = entries_nth(2) [OF assms(2-4), folded assms(1)]
  have v: "of_le (to_le sz (unat (snd (es ! i)))) = headerLength + length (concat (take i encs))"
    using entry_fits [OF assms(1-4)] E by (simp add: of_le_to_le assms(5))
  have c: "drop (i * sz) (footerOf True es) = to_le sz (unat (snd (es ! i))) @ concat (map (footEntry sz True) (drop (Suc i) es))"
    using drop_chunks [of es "footEntry sz True" sz i] i by (simp add: footerOf_def assms(5) footEntry_def)
  have f: "drop (i * (4 + sz)) (footerOf False es) = (encI32 (fst (es ! i)) @ to_le sz (unat (snd (es ! i)))) @ concat (map (footEntry sz False) (drop (Suc i) es))"
    using drop_chunks [of es "footEntry sz False" "4 + sz" i] i by (simp add: footerOf_def assms(5) footEntry_def)
  have "drop (4 + i * (4 + sz)) (footerOf False es) = to_le sz (unat (snd (es ! i))) @ concat (map (footEntry sz False) (drop (Suc i) es))"
    using arg_cong [where f = "drop 4", OF f] by simp
  then show "footerOffset (footerOf False es) sz (i * (4 + sz) + 4) = Inr (headerLength + length (concat (take i encs)))"
    using v arg_cong [where f = length, OF f] by (simp add: footerOffset_def leAt_def add.commute)
  have "length (drop (i * sz) (footerOf True es)) = sz + length (concat (map (footEntry sz True) (drop (Suc i) es)))"
    by (subst c) simp
  then have "i * sz + sz \<le> length (footerOf True es)"
    using offsetSize_cases [of "snd (last es)", folded assms(5)] unfolding length_drop by linarith
  then show "footerOffset (footerOf True es) sz (i * sz) = Inr (headerLength + length (concat (take i encs)))"
    using c v by (simp add: footerOffset_def leAt_def)
qed

lemma fieldOffset_run:
  assumes data: "data = objectBytes (envCompact env) typeId ids encs" "length data \<le> maxInt32"
    and ids: "length ids = length encs" "distinct ids" and T: "typeId \<noteq> unregisteredId"
    and sch: "hasSchema typeId (schemaIdOf ids) (regCache s)"
      "\<And>sch. envCompact env \<Longrightarrow> cacheGetSchema typeId (schemaIdOf ids) (regCache s) = Some sch \<Longrightarrow> schFieldIds sch = ids"
  shows "i < length ids \<Longrightarrow> ids ! i = envFieldId env typeId n \<Longrightarrow>
      fieldOffset env data n s = (Inr (Some (headerLength + length (concat (take i encs)))), s)"
    and "envFieldId env typeId n \<notin> set ids \<Longrightarrow> fieldOffset env data n s = (Inr None, s)"
proof -
  let ?es = "entriesOf ids headerLength encs"
  let ?sz = "offsetSize (snd (last ?es))"
  note H = header_read [OF refl data]
  have b: "bodyEnd encs \<le> maxInt32" using H(8) data(2) by simp
  have t: "boTypeId env data = Inr typeId" using H(1,3) T by (simp add: boTypeId_def)
  have e: "?es = [] \<longleftrightarrow> ids = []" using ids(1) by (cases ids; cases encs) (simp_all add: entriesOf_def)
  have fsts: "map fst ?es = ids" using ids(1) by (simp add: entriesOf_def)
  have les: "length ?es = length ids" using ids(1) by (simp add: entriesOf_def)
  have none: "ids = [] \<Longrightarrow> fieldOffset env data n s = (Inr None, s)"
    using H(2) e objectFlags_none by (simp add: fieldOffset_def)
  have gs: "getSchema (envServer env) typeId (schemaIdOf ids) s = (Inr (Some sc), s) \<and> schFieldIds sc = ids"
    if "envCompact env" "cacheGetSchema typeId (schemaIdOf ids) (regCache s) = Some sc" for sc
    using that sch(2) by (simp add: getSchema_def fromCache_def bindP_def)
  obtain sc where sc: "cacheGetSchema typeId (schemaIdOf ids) (regCache s) = Some sc" using sch(1) by (auto simp: hasSchema_def)
  have run: "fieldOffset env data n s = (case (if envCompact env
        then Inr (let k = lastIndex 0 (envFieldId env typeId n) ids (- 1) in if k = - 1 then None else Some (nat k * ?sz))
        else scanFooter (footerOf False ?es) ?sz (envFieldId env typeId n) 0) of
      Inl x \<Rightarrow> (Inl x, s) | Inr None \<Rightarrow> (Inr None, s)
    | Inr (Some j) \<Rightarrow> (bindE (footerOffset (footerOf (envCompact env) ?es) ?sz j) (\<lambda>o'. Inr (Some o')), s))" if ne: "ids \<noteq> []"
  proof (cases "envCompact env")
    case True
    then show ?thesis
      using H(2,6) objectFlags_has [of ?es True] e ne t footer_read [OF refl data] gs [OF True sc]
      by (simp add: fieldOffset_def bindP_def Let_def split: sum.split)
  next
    case False
    then show ?thesis
      using H(2,6) objectFlags_has [of ?es False] e ne t footer_read [OF refl data]
      by (auto simp: fieldOffset_def bindP_def Let_def split: sum.split option.split)
  qed
  show "fieldOffset env data n s = (Inr (Some (headerLength + length (concat (take i encs)))), s)"
    if i: "i < length ids" "ids ! i = envFieldId env typeId n"
  proof -
    have ne: "ids \<noteq> []" using i(1) by auto
    have l: "lastIndex 0 (envFieldId env typeId n) ids (- 1) = int i" using lastIndex_nth [OF ids(2) i(1), of 0] i(2) by simp
    have "fst (?es ! i) = ids ! i" using entries_nth(1) [OF ids(1) i(1) b] .
    then have s: "scanFooter (footerOf False ?es) ?sz (envFieldId env typeId n) 0 = Inr (Some (i * (4 + ?sz) + 4))"
      using scan_found [of ?es i "[]" ?sz] fsts ids(2) les i by (simp add: footerOf_def)
    show ?thesis using run [OF ne] l s footerOffset_entry [OF refl ids(1) i(1) b refl] by simp
  qed
  show "fieldOffset env data n s = (Inr None, s)" if n: "envFieldId env typeId n \<notin> set ids"
  proof (cases "ids = []")
    case True
    then show ?thesis by (rule none)
  next
    case False
    have "envFieldId env typeId n \<notin> fst ` set ?es" using n fsts by (metis image_set)
    then have "scanFooter (footerOf False ?es) ?sz (envFieldId env typeId n) 0 = Inr None"
      using scan_absent [of _ ?es "[]" ?sz] by (simp add: footerOf_def)
    then show ?thesis using run [OF False] lastIndex_absent [OF n] by simp
  qed
qed

section \<open>The values of the fields\<close>

abbreviation bytesOf :: "('d, 'w) env \<Rightarrow> 'd field list \<Rightarrow> byte list list" where
  "bytesOf env fs \<equiv> map (\<lambda>f. encode (envApd env) (valueOf f)) fs"

definition plainFields :: "('d, 'w) env \<Rightarrow> ('d \<Rightarrow> bool) \<Rightarrow> 'd field list \<Rightarrow> bool" where
  "plainFields env fin fs \<longleftrightarrow> list_all (\<lambda>f. plain (envApd env) fin (valueOf f)) fs"

lemma mwrites_fieldValue:
  "apd_ok (envApd env) fin \<Longrightarrow> plainFields env fin fs \<Longrightarrow> f \<in> set fs \<Longrightarrow>
    mwrites (marshal env (valueOf f)) (encode (envApd env) (valueOf f))"
  by (rule mwrites_marshal [where fin = fin]) (simp_all add: plainFields_def list_all_iff)

text \<open>The stream at a place of the object, and the value there.\<close>

lemma unmarshal_place:
  assumes "apd_ok (envApd env) fin" and "plainFields env fin fs" and "i < length fs"
    and "data = objectBytes compact typeId ids (bytesOf env fs)" and "length data \<le> n"
  shows "\<exists>br. unmarshal env n (NewBinaryInputStream data (headerLength + length (concat (take i (bytesOf env fs))))) s
    = (Inr (canon (valueOf (fs ! i)), br), s)"
proof -
  let ?v = "valueOf (fs ! i)" and ?encs = "bytesOf env fs"
  let ?p = "headerLength + length (concat (take i ?encs))"
  have i: "i < length ?encs" using assms(3) by simp
  obtain hd where hd: "data = hd @ concat ?encs @ footerOf compact (entriesOf ids headerLength ?encs)" "length hd = headerLength"
    by (simp add: assms(4) objectBytes_def Let_def headerLength_def)
  have "drop ?p data = ?encs ! i @ concat (drop (Suc i) ?encs) @ footerOf compact (entriesOf ids headerLength ?encs)"
    using drop_place [OF i] hd by simp
  then obtain post where post: "drop ?p data = encode (envApd env) ?v @ post" using i by simp
  then have d: "data = take ?p data @ encode (envApd env) ?v @ post" by (metis append_take_drop_id)
  have v: "plain (envApd env) fin ?v" using assms(2,3) by (simp add: plainFields_def list_all_length)
  have ne: "encode (envApd env) ?v \<noteq> []" by (rule encode_nonempty [OF v])
  have lp: "length (take ?p data) = ?p"
  proof -
    have "drop ?p data \<noteq> []" using post ne by simp
    then show ?thesis by simp
  qed
  have "length (encode (envApd env) ?v) \<le> n" using arg_cong [where f = length, OF post] assms(5) by simp
  then have "mreads (unmarshal env n) (encode (envApd env) ?v) (canon ?v)"
    by (rule mreads_unmarshal [OF assms(1) v])
  from mreadsD [OF this, of "take ?p data" post ?p s]
  show ?thesis by (simp add: NewBinaryInputStream_def d [symmetric] lp del: length_take)
qed

lemma object_fields:
  assumes "apd_ok (envApd env) fin" and "plainFields env fin fs" and "typeId \<noteq> unregisteredId" and "distinct (map (idOf env typeId) fs)"
    and data: "data = objectBytes (envCompact env) typeId (map (idOf env typeId) fs) (bytesOf env fs)" "length data \<le> maxInt32" "length data \<le> n"
    and sch: "hasSchema typeId (schemaIdOf (map (idOf env typeId) fs)) (regCache s)"
      "\<And>sch. envCompact env \<Longrightarrow> cacheGetSchema typeId (schemaIdOf (map (idOf env typeId) fs)) (regCache s) = Some sch \<Longrightarrow>
        schFieldIds sch = map (idOf env typeId) fs"
  shows "list_all (\<lambda>f. boField env (unmarshal env n) data (fst f) s = (Inr (canon (valueOf f)), s)) fs"
    and "envFieldId env typeId m \<notin> set (map (idOf env typeId) fs) \<Longrightarrow> boField env (unmarshal env n) data m s = (Inr VNil, s)"
proof -
  have l: "length (map (idOf env typeId) fs) = length (bytesOf env fs)" by simp
  note O = fieldOffset_run [OF data(1,2) l assms(4,3) sch]
  show "list_all (\<lambda>f. boField env (unmarshal env n) data (fst f) s = (Inr (canon (valueOf f)), s)) fs"
    unfolding list_all_length
  proof (intro allI impI)
    fix i assume i: "i < length fs"
    obtain br where "unmarshal env n (NewBinaryInputStream data (headerLength + length (concat (take i (bytesOf env fs))))) s
        = (Inr (canon (valueOf (fs ! i)), br), s)"
      using unmarshal_place [OF assms(1,2) i data(1,3)] by blast
    moreover have "fieldOffset env data (fst (fs ! i)) s = (Inr (Some (headerLength + length (concat (take i (bytesOf env fs))))), s)"
      by (rule O(1)) (use i in \<open>simp_all add: idOf_def\<close>)
    ultimately show "boField env (unmarshal env n) data (fst (fs ! i)) s = (Inr (canon (valueOf (fs ! i))), s)"
      by (simp add: boField_def bindP_def)
  qed
  assume m: "envFieldId env typeId m \<notin> set (map (idOf env typeId) fs)"
  have "fieldOffset env data m s = (Inr None, s)" by (rule O(2)) (use m in simp_all)
  then show "boField env (unmarshal env n) data m s = (Inr VNil, s)"
    by (simp add: boField_def bindP_def)
qed

section \<open>Properties\<close>

abbreviation fieldIds :: "('d, 'w) env \<Rightarrow> 'd boOptions \<Rightarrow> i32 list" where
  "fieldIds env opts \<equiv> map (idOf env (boTypeOf env opts)) (optFields opts)"

abbreviation fieldBytes :: "('d, 'w) env \<Rightarrow> 'd boOptions \<Rightarrow> byte list list" where
  "fieldBytes env opts \<equiv> bytesOf env (optFields opts)"

text \<open>C2 A binary object made of options gives back what it was made of: once newBinaryObject returned bytes, the
  field of every name in the options, found through the footer, is the canonical form of its value, and a
  field whose id was not written is nil; this holds for compact and full footers and offsets of every
  size, without a request to the server. The field ids are distinct and, where the footer is compact, the
  cache has no other fields under the id of the schema.\<close>

theorem object_fields_roundtrip:
  assumes "apd_ok (envApd env) fin" and "plainFields env fin (optFields opts)"
    and "\<not> optSkipTypeRegistration opts" and "boTypeOf env opts \<noteq> unregisteredId" and "distinct (fieldIds env opts)"
    and "newBinaryObject env (marshal env) opts s = (Inr data, s')"
    and "\<And>sch. envCompact env \<Longrightarrow> cacheGetSchema (boTypeOf env opts) (boSchemaId data) (regCache s') = Some sch \<Longrightarrow>
      schFieldIds sch = fieldIds env opts"
  shows "list_all (\<lambda>f. boField env (unmarshal env (length data)) data (fst f) s' = (Inr (canon (valueOf f)), s')) (optFields opts) \<and>
    (\<forall>n. envFieldId env (boTypeOf env opts) n \<notin> set (fieldIds env opts) \<longrightarrow>
      boField env (unmarshal env (length data)) data n s' = (Inr VNil, s'))"
proof -
  have R: "data = objectBytes (envCompact env) (boTypeOf env opts) (fieldIds env opts) (fieldBytes env opts)" "length data \<le> maxInt32"
    "hasSchema (boTypeOf env opts) (schemaIdOf (fieldIds env opts)) (regCache s')"
    using newBinaryObject_run [OF mwrites_fieldValue [OF assms(1,2)] assms(3,4,6)] by blast+
  have "boSchemaId data = schemaIdOf (fieldIds env opts)" by (rule header_read(6) [OF refl R(1,2)])
  then have "envCompact env \<Longrightarrow> cacheGetSchema (boTypeOf env opts) (schemaIdOf (fieldIds env opts)) (regCache s') = Some sch \<Longrightarrow>
      schFieldIds sch = fieldIds env opts" for sch using assms(7) by simp
  then show ?thesis using object_fields [OF assms(1,2,4,5) R(1,2) order_refl R(3)] by blast
qed

text \<open>C22 An object of a type, fields, schema and class name that the cache knows is made without a request: the
  result is the layout of the binary protocol (header, fields in the order of the options, footer), the
  registry is as before, and the header tells the type, the hash of the bytes of the fields and the length.\<close>

theorem known_object_bytes:
  assumes "apd_ok (envApd env) fin" and "plainFields env fin (optFields opts)"
    and "\<not> optSkipTypeRegistration opts" and "boTypeOf env opts \<noteq> unregisteredId" and "knownObject env opts (regCache s)"
    and "length (objectBytes (envCompact env) (boTypeOf env opts) (fieldIds env opts) (fieldBytes env opts)) \<le> maxInt32"
  shows "\<exists>data. newBinaryObject env (marshal env) opts s = (Inr data, s) \<and>
    data = objectBytes (envCompact env) (boTypeOf env opts) (fieldIds env opts) (fieldBytes env opts) \<and>
    boTypeId env data = Inr (boTypeOf env opts) \<and> boHashCode data = SliceHashCode (concat (fieldBytes env opts)) \<and>
    leAt data lenPos intBytes = length data"
proof -
  note H = header_read [OF refl refl assms(6)]
  show ?thesis
    using newBinaryObject_known [OF mwrites_fieldValue [OF assms(1,2)] assms(3-6)] H(1,3-5) assms(4)
    by (simp add: boTypeId_def)
qed

text \<open>A type with an int and a text, known to the registry.\<close>

definition sampleObject :: "(bool \<times> byte list \<times> i32) boOptions" where
  "sampleObject = \<lparr>optIsEnum = False, optOrd = 0, optTypeName = ''P'', optAffKeyName = [],
     optFields = [(''a'', -1, VScalar (SUint32 7)), (''b'', -1, VLeaf (LString ''x''))], optPlatform = JavaMarshaller,
     optSkipTypeRegistration = False\<rparr>"

definition sampleMeta :: binaryMetadata where
  "sampleMeta = addSchema (schemaOf [97, 98])
     (addField ''b'' (typeCode32 StringType) 98 (addField ''a'' (typeCode32 IntType) 97 (newBinaryMetadata 112 ''P'' [])))"

definition knownReg :: "unit registry" where
  "knownReg = \<lparr>regCache = \<lparr>metaData = [112 \<mapsto> sampleMeta], nameMapping = [(112, JavaMarshaller) \<mapsto> ''P'']\<rparr>, world = ()\<rparr>"

lemma sample_ids: "basicTypeId id ''P'' = 112" "basicFieldId id t ''a'' = 97" "basicFieldId id t ''b'' = 98" "basicFieldId id t ''c'' = 99"
  by (simp_all add: basicTypeId_def basicFieldId_def toLower_def asciiLower_def hash_eval)

lemma sample_object:
  "apd_ok (envApd sampleEnv) (\<lambda>d. dropWhile (\<lambda>b. b = 0) (fst (snd d)) = fst (snd d))"
  "plainFields sampleEnv fin (optFields sampleObject)" "\<not> optSkipTypeRegistration sampleObject"
  "boTypeOf sampleEnv sampleObject = 112" "map (idOf sampleEnv 112) (optFields sampleObject) = [97, 98]"
  "knownObject sampleEnv sampleObject (regCache knownReg)"
  "length (objectBytes (envCompact sampleEnv) 112 [97, 98] (fieldBytes sampleEnv sampleObject)) \<le> maxInt32"
proof -
  show "apd_ok (envApd sampleEnv) (\<lambda>d. dropWhile (\<lambda>b. b = 0) (fst (snd d)) = fst (snd d))"
    using plainDec_ok by (simp add: sampleEnv_def)
  show "plainFields sampleEnv fin (optFields sampleObject)" "\<not> optSkipTypeRegistration sampleObject"
    by (simp_all add: sampleObject_def plainFields_def valueOf_def small_def)
  show t: "boTypeOf sampleEnv sampleObject = 112" and i: "map (idOf sampleEnv 112) (optFields sampleObject) = [97, 98]"
    by (simp_all add: boTypeOf_def idOf_def sampleObject_def sampleEnv_def sample_ids)
  show "knownObject sampleEnv sampleObject (regCache knownReg)"
    unfolding knownType_def boTypeOf_def [symmetric] t i Let_def
    by (simp add: knownReg_def sampleMeta_def sampleObject_def addSchema_def addField_def newBinaryMetadata_def schemaOf_def
        knownField_def fieldType_def valueOf_def cacheGetClassName_def)
  have "length (footerOf True (entriesOf [97, 98] headerLength (fieldBytes sampleEnv sampleObject))) \<le> 8"
    using offsetSize_cases [of "snd (last (entriesOf [97, 98] headerLength (fieldBytes sampleEnv sampleObject)))"]
    by (auto simp: footerOf_def sampleObject_def entriesOf_def)
  then show "length (objectBytes (envCompact sampleEnv) 112 [97, 98] (fieldBytes sampleEnv sampleObject)) \<le> maxInt32"
    by (simp add: objectBytes_def sampleEnv_def Let_def maxInt32_def del: length_concat)
      (simp add: sampleObject_def valueOf_def maxInt32_def encStr_def)
qed

theorem known_object_bytes_witness:
  "\<exists>data. newBinaryObject sampleEnv (marshal sampleEnv) sampleObject knownReg = (Inr data, knownReg) \<and>
    boTypeId sampleEnv data = Inr 112 \<and> leAt data lenPos intBytes = length data"
  using known_object_bytes [OF sample_object(1,2,3), of knownReg, unfolded sample_object(4,5)] sample_object(6,7)
  by (auto simp: unregisteredId_def)

theorem object_fields_roundtrip_witness:
  "\<exists>data. newBinaryObject sampleEnv (marshal sampleEnv) sampleObject knownReg = (Inr data, knownReg) \<and>
    boField sampleEnv (unmarshal sampleEnv (length data)) data ''a'' knownReg = (Inr (VScalar (SInt32 7)), knownReg) \<and>
    boField sampleEnv (unmarshal sampleEnv (length data)) data ''b'' knownReg = (Inr (VLeaf (LString ''x'')), knownReg) \<and>
    boField sampleEnv (unmarshal sampleEnv (length data)) data ''c'' knownReg = (Inr VNil, knownReg)"
proof -
  define data where "data = objectBytes (envCompact sampleEnv) 112 [97, 98] (fieldBytes sampleEnv sampleObject)"
  have r: "newBinaryObject sampleEnv (marshal sampleEnv) sampleObject knownReg = (Inr data, knownReg)"
    using newBinaryObject_known [where env = sampleEnv and opts = sampleObject and s = knownReg and marsh = "marshal sampleEnv"
        and enc = "encode (envApd sampleEnv)", unfolded sample_object(4,5)] mwrites_fieldValue [OF sample_object(1,2)] sample_object(3,6,7)
    by (simp add: unregisteredId_def data_def)
  have "cacheGetSchema 112 (boSchemaId data) (regCache knownReg) = Some sch \<Longrightarrow> schFieldIds sch = [97, 98]" for sch
    using header_read(6) [OF refl data_def] sample_object(7)
    by (auto simp: data_def cacheGetSchema_def knownReg_def sampleMeta_def addSchema_def addField_def newBinaryMetadata_def schemaOf_def)
  then have "list_all (\<lambda>f. boField sampleEnv (unmarshal sampleEnv (length data)) data (fst f) knownReg = (Inr (canon (valueOf f)), knownReg)) (optFields sampleObject) \<and>
    (\<forall>n. envFieldId sampleEnv 112 n \<notin> set [97, 98] \<longrightarrow>
      boField sampleEnv (unmarshal sampleEnv (length data)) data n knownReg = (Inr VNil, knownReg))"
    by (intro object_fields_roundtrip [OF sample_object(1,2,3), where s = knownReg, unfolded sample_object(4,5)] r)
      (simp_all add: unregisteredId_def)
  then show ?thesis using r
    by (intro exI [of _ data]) (auto simp: sampleObject_def valueOf_def sampleEnv_def sample_ids)
qed

end
