(* ===== verification/UserTypes.thy ===== *)
theory UserTypes
  imports ObjectFields
begin

text \<open>
  Values of user types: what Marshal writes for a Binarylizable of a known type, anywhere in a stream, and
  what unmarshal makes of it; objects without fields at the end of a stream.
\<close>

declare seqW.simps [simp del] unmarshal.simps [simp del]

section \<open>Writing\<close>

lemma marshalWrites_fields: "marshalWrites env ws wr bw = writeFields env (marshal env) ws wr bw"
proof (induction ws arbitrary: wr bw)
  case (Cons w ws)
  obtain n t v where w: "w = (n, t, v)" by (cases w)
  show ?case unfolding w marshalWrites.simps writeFields.simps
    by (rule ext) (simp add: bindP_def Cons.IH split: prod.split sum.split)
qed simp

definition userBytes :: "('d, 'w) env \<Rightarrow> string \<Rightarrow> 'd field list \<Rightarrow> byte list" where
  "userBytes env name ws = objectBytes (envCompact env) (envTypeId env name) (map (idOf env (envTypeId env name)) ws)
     (bytesOf env ws)"

lemma marshal_user_known:
  assumes "apd_ok (envApd env) fin" and "plainFields env fin ws"
    and "envTypeId env name \<noteq> unregisteredId" and "knownType env name aff platform ws (regCache s)" and "wf_out bw"
    and "opos bw + length (userBytes env name ws) \<le> maxInt32"
  shows "marshal env (VBinarylizable (Inr name) aff platform ws None) bw s = (put (userBytes env name ws) bw, s)"
proof -
  note enc = mwrites_fieldValue [OF assms(1,2)]
  obtain m wr bw1 wr1 bw2 where R: "getMetadata (envServer env) (envTypeId env name) s = (Inr (Some m), s)" "checkOldMeta name aff (Some m) = None"
    "newBinaryWriter env (newBinaryMetadata (envTypeId env name) name aff) (Some m) bw = Inr (wr, bw1)"
    "writeFields env (marshal env) ws wr bw1 s = (Inr (wr1, bw2), s)" "bwNewMeta wr1 = newBinaryMetadata (envTypeId env name) name aff"
    "finalize env wr1 bw2 s = (Inr \<lparr>obuf = overwrite (opos bw) (userBytes env name ws) (obuf bw),
      opos = opos bw + length (userBytes env name ws)\<rparr>, s)"
    "registerClassName (envServer env) platform (envTypeId env name) name s = (Inr (), s)"
    by (rule object_known [where fs = ws and marsh = "marshal env" and enc = "encode (envApd env)" and bw = bw and env = env
        and name = name and aff = aff and platform = platform and s = s, folded userBytes_def, OF enc assms(5,3,4,6)]) blast
  have p: "put (userBytes env name ws) bw = Inr \<lparr>obuf = overwrite (opos bw) (userBytes env name ws) (obuf bw),
      opos = opos bw + length (userBytes env name ws)\<rparr>"
    using assms(6) by (simp add: put_def)
  show ?thesis
    using R p by (simp add: startBinarylizable_def finishBinarylizable_def marshalWrites_fields newBinaryMetadata_def bindP_def wrapP_def Let_def)
qed

section \<open>Reading\<close>

lemma readBinaryObject_run:
  assumes data: "data = h12 @ lenBytes (length data) @ rest" "length h12 = 12" and len: "length data \<le> maxInt32"
  shows "readBinaryObject False \<lparr>ibuf = pre @ data @ post, ioff = off, ipos = length pre + 1\<rparr> =
    (if length data + length post < 25 then Inl (Fail (ErrMsg ''invalid binary stream''))
     else Inr (data, \<lparr>ibuf = pre @ data @ post, ioff = off, ipos = length pre + length data\<rparr>))"
proof -
  have ge: "16 \<le> length data" using arg_cong [where f = length, OF data(1)] data(2) by simp
  have sz: "sint (word_of_nat (length data) :: i32) = int (length data)"
    using len by (intro sint_small) (simp add: small_def maxInt32_def)
  have e: "(pre @ h12) @ lenBytes (length data) @ rest @ post = pre @ data @ post" using data(1) by simp
  have r: "ReadInt32 \<lparr>ibuf = pre @ data @ post, ioff = off, ipos = length pre + 12\<rparr>
      = Inr (word_of_nat (length data), \<lparr>ibuf = pre @ data @ post, ioff = off, ipos = length pre + 16\<rparr>)"
    using readsD [OF reads_len, of "pre @ h12" "length data" "rest @ post" off] data(2) unfolding e by simp
  have b: "ReadBytes (int (length data)) \<lparr>ibuf = pre @ data @ post, ioff = off, ipos = length pre\<rparr>
      = Inr (data, \<lparr>ibuf = pre @ data @ post, ioff = off, ipos = length pre + length data\<rparr>)"
    using readsD [OF reads_ReadBytes [of "int (length data)" data, OF refl]] .
  show ?thesis
  proof (cases "length data + length post < 25")
    case True
    then show ?thesis using ge
      by (simp add: readBinaryObject_def bindR_def ensureAvailable_def Available_def headerLength_def)
  next
    case False
    have n: "nat (int (length pre) + 12) = length pre + 12" "nat (int (Suc (length pre)) - 1) = length pre" by simp_all
    show ?thesis using False ge r b sz
      by (simp add: n readBinaryObject_def bindR_def ensureAvailable_def Available_def headerLength_def positionR_def
          SetPosition_def lenPos_def Let_def)
  qed
qed

lemma userBytes_head:
  assumes "length (userBytes env name ws) \<le> maxInt32"
  shows "\<exists>rest. userBytes env name ws = typeCode BinaryObjectType # rest"
    "\<exists>h12 rest. userBytes env name ws = h12 @ lenBytes (length (userBytes env name ws)) @ rest \<and> length h12 = 12"
proof -
  let ?ids = "map (idOf env (envTypeId env name)) ws" and ?encs = "bytesOf env ws"
  let ?es = "entriesOf ?ids headerLength ?encs"
  note P = objectBytes_parts [OF refl, of "envCompact env" "envTypeId env name" ?ids ?encs, folded userBytes_def]
  show "\<exists>rest. userBytes env name ws = typeCode BinaryObjectType # rest"
    by (rule exI, rule trans [OF P]) simp
  let ?h = "[typeCode BinaryObjectType, protoVersion] @ encI16 (objectFlags (envCompact env) ?es) @ encI32 (envTypeId env name) @
    encI32 (SliceHashCode (concat ?encs))"
  have "userBytes env name ws = ?h @ lenBytes (length (userBytes env name ws)) @ encI32 (schemaIdOf ?ids) @ lenBytes (bodyEnd ?encs) @
      concat ?encs @ footerOf (envCompact env) ?es" by (rule trans [OF P]) simp
  moreover have "length ?h = 12" by simp
  ultimately show "\<exists>h12 rest. userBytes env name ws = h12 @ lenBytes (length (userBytes env name ws)) @ rest \<and> length h12 = 12"
    by blast
qed

text \<open>An object at a place of a stream: refused when fewer than 25 bytes are left, else handed to the factory.\<close>

lemma unmarshal_object:
  assumes head: "data = typeCode BinaryObjectType # rest0" and len: "data = h12 @ lenBytes (length data) @ rest" "length h12 = 12"
    and small: "length data \<le> maxInt32" and br: "br = \<lparr>ibuf = pre @ data @ post, ioff = off, ipos = length pre\<rparr>"
  shows "unmarshal env (Suc n) br s =
    (if length data + length post < 25 then (Inl (Fail (ErrMsg ''invalid binary stream'')), s)
     else bindP (tryConvertToBinarylizable env (unmarshal env n) data)
       (\<lambda>v. returnP (v, br\<lparr>ipos := length pre + length data\<rparr>)) s)"
proof -
  have "readTypeByte \<lparr>ibuf = pre @ (typeCode BinaryObjectType # rest0) @ post, ioff = off, ipos = length pre\<rparr>
      = Inr (typeCode BinaryObjectType, \<lparr>ibuf = pre @ (typeCode BinaryObjectType # rest0) @ post, ioff = off, ipos = length pre + 1\<rparr>)"
    using readsD [OF reads_readTypeByte [of "typeCode BinaryObjectType"], of pre "rest0 @ post" off] by simp
  then have t: "readTypeByte br = Inr (typeCode BinaryObjectType, br\<lparr>ipos := length pre + 1\<rparr>)"
    unfolding head [symmetric] by (simp add: br)
  show ?thesis
    using t readBinaryObject_run [OF len small, of pre post off]
    by (simp add: unmarshal.simps unmarshalBody_def br bindMR_def doMR_def liftR_def returnMR_def returnR_def bindP_def
        readFlat_def orElse_def split: prod.split sum.split)
qed

lemma unmarshal_user:
  assumes "length (userBytes env name ws) \<le> maxInt32" and "br = \<lparr>ibuf = pre @ userBytes env name ws @ post, ioff = off, ipos = length pre\<rparr>"
  shows "unmarshal env (Suc n) br s =
    (if length (userBytes env name ws) + length post < 25 then (Inl (Fail (ErrMsg ''invalid binary stream'')), s)
     else bindP (tryConvertToBinarylizable env (unmarshal env n) (userBytes env name ws))
       (\<lambda>v. returnP (v, br\<lparr>ipos := length pre + length (userBytes env name ws)\<rparr>)) s)"
proof -
  obtain rest where d: "userBytes env name ws = typeCode BinaryObjectType # rest" using userBytes_head(1) [OF assms(1)] by blast
  obtain h12 rest' where h: "userBytes env name ws = h12 @ lenBytes (length (userBytes env name ws)) @ rest'" "length h12 = 12"
    using userBytes_head(2) [OF assms(1)] by blast
  show ?thesis by (rule unmarshal_object [OF d h assms])
qed

lemma length_userBytes:
  "length (userBytes env name ws) = 24 + length (concat (bytesOf env ws)) +
    length (footerOf (envCompact env) (entriesOf (map (idOf env (envTypeId env name)) ws) headerLength (bytesOf env ws)))"
  by (simp add: userBytes_def objectBytes_def Let_def)

lemma userBytes_field:
  assumes "plainFields env fin ws" and "ws \<noteq> []"
  shows "25 \<le> length (userBytes env name ws)"
proof -
  obtain f fs where ws: "ws = f # fs" using assms(2) by (cases ws) auto
  then have "encode (envApd env) (valueOf f) \<noteq> []" using assms(1) encode_nonempty [of "envApd env" fin "valueOf f"] by (simp add: plainFields_def)
  then have "1 \<le> length (encode (envApd env) (valueOf f))" by (cases "encode (envApd env) (valueOf f)") simp_all
  then show ?thesis unfolding length_userBytes by (simp add: ws)
qed

section \<open>Properties\<close>

text \<open>The accessor that the Read method of a factory gets gives the value of every field.\<close>

definition readsFields :: "(string \<Rightarrow> ('w registry, 'd goval) prog) \<Rightarrow> 'd field list \<Rightarrow> 'w registry \<Rightarrow> bool" where
  "readsFields rd ws s \<longleftrightarrow> list_all (\<lambda>f. rd (fst f) s = (Inr (canon (valueOf f)), s)) ws"

text \<open>C3 A value of a user type survives the wire: wherever the stream stands, Marshal writes the object of its Write
  method as one block of bytes and asks the server nothing, and unmarshal, wherever it meets the block,
  runs the Read method of the registered factory with an accessor that gives for every field written the
  canonical form of its value, and stops right after the block. The type is known to the cache, the field
  ids are distinct, and the block is not a bare header at the end of the stream.\<close>

theorem user_type_roundtrip:
  assumes "apd_ok (envApd env) fin" and "plainFields env fin ws" and "envTypeId env name \<noteq> unregisteredId"
    and "distinct (map (idOf env (envTypeId env name)) ws)" and "wf_cache (regCache s)" and "knownType env name aff platform ws (regCache s)"
    and "\<And>sch. envCompact env \<Longrightarrow> cacheGetSchema (envTypeId env name) (schemaIdOf (map (idOf env (envTypeId env name)) ws)) (regCache s) = Some sch \<Longrightarrow>
      schFieldIds sch = map (idOf env (envTypeId env name)) ws"
    and "wf_out bw" and "opos bw + length (userBytes env name ws) \<le> maxInt32" and "ws \<noteq> [] \<or> post \<noteq> []"
    and "getBinarylizableFactory env (envTypeId env name) = Some readObj"
  shows "marshal env (VBinarylizable (Inr name) aff platform ws None) bw s = (put (userBytes env name ws) bw, s) \<and>
    (\<exists>rd. readsFields rd ws s \<and>
      unmarshal env (Suc (length (userBytes env name ws))) \<lparr>ibuf = pre @ userBytes env name ws @ post, ioff = off, ipos = length pre\<rparr> s =
      bindP (wrapP ''failed to read object'' (readObj rd))
        (\<lambda>v. returnP (v, \<lparr>ibuf = pre @ userBytes env name ws @ post, ioff = off, ipos = length pre + length (userBytes env name ws)\<rparr>)) s)"
proof
  let ?T = "envTypeId env name" and ?d = "userBytes env name ws" and ?ids = "map (idOf env (envTypeId env name)) ws"
  let ?um = "unmarshal env (length ?d)"
  show "marshal env (VBinarylizable (Inr name) aff platform ws None) bw s = (put ?d bw, s)"
    by (rule marshal_user_known [OF assms(1-3,6,8,9)])
  obtain m where m: "metaData (regCache s) ?T = Some m" "\<not> isEnum m" "list_all (knownField m) ws" "map_of (schemas m) (schemaIdOf ?ids) \<noteq> None"
    using assms(6) by (auto simp: knownType_def Let_def split: option.splits)
  have len: "length ?d \<le> maxInt32" using assms(9) by simp
  have has: "hasSchema ?T (schemaIdOf ?ids) (regCache s)" using m(1,4) by (simp add: hasSchema_def cacheGetSchema_def)
  note F = object_fields(1) [OF assms(1-4) userBytes_def len order_refl has assms(7)]
  have "wf_meta m" using assms(5) m(1) by (simp add: wf_cache_def)
  then have "f \<in> set ws \<Longrightarrow> fst f \<in> set (fieldsOrder (copyMeta m))" for f
    using m(2,3) by (auto simp: wf_meta_def copyMeta_def list_all_iff knownField_def)
  then have rd: "readsFields (readField env ?um ?d (copyMeta m)) ws s"
    using F by (simp add: readsFields_def readField_def list_all_iff)
  have t: "boTypeId env ?d = Inr ?T"
    using header_read(1,3) [OF refl userBytes_def len] assms(3) by (simp add: boTypeId_def)
  have g: "getMetadata (envServer env) ?T s = (Inr (Some (copyMeta m)), s)"
    by (rule getMetadata_cached) (simp add: cacheGetMetadata_def m(1))
  have "tryConvertToBinarylizable env ?um ?d s = wrapP ''failed to read object'' (readObj (readField env ?um ?d (copyMeta m))) s"
    using t g assms(11) by (simp add: tryConvertToBinarylizable_def bindP_def wrapP_def)
  moreover have "24 \<le> length ?d" unfolding length_userBytes by linarith
  then have "\<not> length ?d + length post < 25"
    using assms(10) userBytes_field [OF assms(2), of name] by (cases post) auto
  ultimately show "\<exists>rd. readsFields rd ws s \<and> unmarshal env (Suc (length ?d)) \<lparr>ibuf = pre @ ?d @ post, ioff = off, ipos = length pre\<rparr> s =
      bindP (wrapP ''failed to read object'' (readObj rd))
        (\<lambda>v. returnP (v, \<lparr>ibuf = pre @ ?d @ post, ioff = off, ipos = length pre + length ?d\<rparr>)) s"
    using rd unmarshal_user [OF len refl, where pre = pre and post = post and off = off and n = "length ?d" and s = s]
    by (intro exI [of _ "readField env ?um ?d (copyMeta m)"]) (simp add: bindP_def)
qed

text \<open>An object of 29 bytes whose one field, with the given id, starts at the start of the object.\<close>

definition selfObject :: "i32 \<Rightarrow> i32 \<Rightarrow> byte list" where
  "selfObject typeId fieldId = [typeCode BinaryObjectType, protoVersion] @ encI16 11 @ encI32 typeId @ encI32 0 @ lenBytes 29 @
     encI32 0 @ lenBytes 24 @ encI32 fieldId @ [0]"

lemma selfObject_read:
  "length (selfObject T f) = 29" "T \<noteq> unregisteredId \<Longrightarrow> boTypeId env (selfObject T f) = Inr T"
  "boFlags (selfObject T f) = 11" "boFooter (selfObject T f) = Inr (encI32 f @ [0], 1)"
proof -
  let ?d = "selfObject T f" and ?a = "[typeCode BinaryObjectType, protoVersion]"
  have P: "?d = ?a @ encI16 11 @ encI32 T @ encI32 0 @ lenBytes 29 @ encI32 0 @ lenBytes 24 @ encI32 f @ [0]"
    by (simp add: selfObject_def)
  show l: "length ?d = 29" unfolding P by simp
  have 2: "leAt ?d 2 2 = 11" by (subst P, subst leAt_part) simp_all
  have 4: "leAt ?d 4 4 = unat T" using leAt_part [of "?a @ encI16 11" 4 "encI32 T" 4] by (subst P) simp
  have 20: "leAt ?d 20 4 = 24"
    using leAt_part [of "?a @ encI16 11 @ encI32 T @ encI32 0 @ lenBytes 29 @ encI32 0" 20 "lenBytes 24" 4] of_lenBytes [of 24]
    by (subst P) (simp add: small_def maxInt32_def)
  show f: "boFlags ?d = 11" using l 2 by (simp add: boFlags_def layout_defs size_defs)
  show "boTypeId env ?d = Inr T" if "T \<noteq> unregisteredId"
    using that l 4 by (simp add: boTypeId_def boRawTypeId_def layout_defs size_defs)
  have "drop 24 ?d = encI32 f @ [0]" unfolding P by simp
  then show "boFooter ?d = Inr (encI32 f @ [0], 1)"
    using l 20 by (simp add: boFooter_def f layout_defs size_defs hasFlag_def flagHasSchema_def flagOffsetOneByte_def flagHasRaw_def Let_def)
qed

lemma selfObject_field:
  assumes "T \<noteq> unregisteredId"
  shows "boField env unmarsh (selfObject T (envFieldId env T name)) name
    = bindP (unmarsh (NewBinaryInputStream (selfObject T (envFieldId env T name)) 0)) (\<lambda>(v, _). returnP v)"
proof -
  let ?f = "envFieldId env T name"
  have "scanFooter (encI32 ?f @ [0]) 1 ?f 0 = Inr (Some 4)"
    using leAt_part [of "[]" 0 "encI32 ?f" 4 "[0]"] by (subst scanFooter.simps) (simp add: size_defs)
  moreover have "footerOffset (encI32 ?f @ [0]) 1 4 = Inr 0" by (simp add: footerOffset_def leAt_def)
  ultimately have "fieldOffset env (selfObject T ?f) name = returnP (Some 0)"
    using assms by (simp add: fun_eq_iff fieldOffset_def selfObject_read hasFlag_def flagHasSchema_def flagCompactFooter_def bindP_def)
  then show ?thesis by (simp add: boField_def fun_eq_iff bindP_def)
qed

text \<open>C24 With a factory registered whose Read method starts with a field, reading does not end on every
  input: on an object of 29 bytes of that type whose footer places the field at the start of the
  object itself, no budget of nested calls is enough, wherever the object stands in the stream and
  whatever Read does after. Nothing is asked of the server.\<close>

theorem self_reference_never_ends:
  assumes "getBinarylizableFactory env T = Some (\<lambda>rd. bindP (rd name) (k rd))" and "T \<noteq> unregisteredId"
    and "cacheGetMetadata T (regCache s) = Some m" and "name \<in> set (fieldsOrder m)"
  shows "length (selfObject T (envFieldId env T name)) = 29 \<and>
    unmarshal env n \<lparr>ibuf = pre @ selfObject T (envFieldId env T name) @ post, ioff = off, ipos = length pre\<rparr> s = (Inl NoFuel, s)"
proof (rule conjI [OF selfObject_read(1)], induction n arbitrary: pre post off)
  case 0
  then show ?case by (simp add: unmarshal.simps)
next
  case (Suc n)
  let ?d = "selfObject T (envFieldId env T name)"
  have head: "?d = typeCode BinaryObjectType # tl ?d" by (simp add: selfObject_def)
  have len: "?d = take 12 ?d @ lenBytes (length ?d) @ drop 16 ?d"
    unfolding selfObject_read(1) by (simp add: selfObject_def)
  have self: "unmarshal env n (NewBinaryInputStream ?d 0) s = (Inl NoFuel, s)"
    using Suc.IH [of "[]" "[]" 0] by (simp add: NewBinaryInputStream_def)
  have meta: "getMetadata (envServer env) T s = (Inr (Some m), s)" by (rule getMetadata_cached [OF assms(3)])
  have "tryConvertToBinarylizable env (unmarshal env n) ?d s = (Inl NoFuel, s)"
    using assms(1,2,4) meta self
    by (simp add: tryConvertToBinarylizable_def selfObject_read selfObject_field readField_def bindP_def wrapP_def mapErr_def)
  then show ?case
    using unmarshal_object [OF head len _ _ refl, where pre = pre and post = post and off = off and env = env and n = n and s = s] selfObject_read(1) [of T "envFieldId env T name"]
    by (simp add: bindP_def maxInt32_def)
qed

text \<open>C35 An object without fields cannot be read at the end of a stream: its 24 bytes are a header, but the check
  before the header is read asks for 24 bytes after the type byte, so the value that Marshal wrote last is
  refused.\<close>

theorem fieldless_object_unreadable:
  "length (userBytes env name []) = 24 \<and>
   unmarshal env (Suc n) \<lparr>ibuf = pre @ userBytes env name [], ioff = off, ipos = length pre\<rparr> s
     = (Inl (Fail (ErrMsg ''invalid binary stream'')), s)"
proof -
  have l: "length (userBytes env name []) = 24" by (simp add: length_userBytes entriesOf_def footerOf_def)
  then have len: "length (userBytes env name []) \<le> maxInt32" by (simp add: maxInt32_def)
  show ?thesis
    using l unmarshal_user [OF len refl, where pre = pre and post = "[]" and off = off and n = n and s = s] by simp
qed

text \<open>The type of the sample object with a factory whose Read takes both fields.\<close>

definition userEnv :: "(bool \<times> byte list \<times> i32, unit) env" where
  "userEnv = sampleEnv\<lparr>envFactories := [112 \<mapsto> BinFactory (\<lambda>rd. bindP (rd ''a'') (\<lambda>a. bindP (rd ''b'') (\<lambda>b. returnP (VObjects [a, b]))))]\<rparr>"

theorem self_reference_never_ends_witness:
  "\<forall>n. unmarshal userEnv n (NewBinaryInputStream (selfObject 112 97) 0) knownReg = (Inl NoFuel, knownReg)"
proof
  fix n
  have m: "cacheGetMetadata 112 (regCache knownReg) = Some (copyMeta sampleMeta)" by (simp add: cacheGetMetadata_def knownReg_def)
  have g: "getBinarylizableFactory userEnv 112
      = Some (\<lambda>rd. bindP (rd ''a'') (\<lambda>a. bindP (rd ''b'') (\<lambda>b. returnP (VObjects [a, b]))))"
    by (simp add: userEnv_def getBinarylizableFactory_def)
  have f: "envFieldId userEnv 112 ''a'' = 97" by (simp add: userEnv_def sampleEnv_def sample_ids)
  have n: "''a'' \<in> set (fieldsOrder (copyMeta sampleMeta))"
    by (simp add: copyMeta_def sampleMeta_def addSchema_def addField_def newBinaryMetadata_def)
  show "unmarshal userEnv n (NewBinaryInputStream (selfObject 112 97) 0) knownReg = (Inl NoFuel, knownReg)"
    using self_reference_never_ends [OF g _ m n, of n "[]" "[]" 0, unfolded f]
    by (simp add: NewBinaryInputStream_def unregisteredId_def)
qed

theorem user_type_roundtrip_witness:
  "marshal userEnv (VBinarylizable (Inr ''P'') [] JavaMarshaller (optFields sampleObject) None) (NewBinaryOutputStream 0) knownReg
     = (put (userBytes userEnv ''P'' (optFields sampleObject)) (NewBinaryOutputStream 0), knownReg) \<and>
   unmarshal userEnv (Suc (length (userBytes userEnv ''P'' (optFields sampleObject))))
     \<lparr>ibuf = [1] @ userBytes userEnv ''P'' (optFields sampleObject) @ [], ioff = 0, ipos = length [1 :: byte]\<rparr> knownReg
     = (Inr (VObjects [VScalar (SInt32 7), VLeaf (LString ''x'')],
         \<lparr>ibuf = [1] @ userBytes userEnv ''P'' (optFields sampleObject) @ [], ioff = 0,
          ipos = length [1 :: byte] + length (userBytes userEnv ''P'' (optFields sampleObject))\<rparr>), knownReg)"
proof -
  have T: "envTypeId userEnv ''P'' = 112" by (simp add: userEnv_def sampleEnv_def sample_ids)
  have ids: "map (idOf userEnv 112) (optFields sampleObject) = [97, 98]"
    by (simp add: userEnv_def sampleEnv_def sampleObject_def idOf_def sample_ids)
  have d: "userBytes userEnv ''P'' (optFields sampleObject) = objectBytes (envCompact sampleEnv) 112 [97, 98] (fieldBytes sampleEnv sampleObject)"
    unfolding userBytes_def T ids by (simp add: userEnv_def)
  have A: "apd_ok (envApd userEnv) (\<lambda>d. dropWhile (\<lambda>b. b = 0) (fst (snd d)) = fst (snd d))" using sample_object(1) by (simp add: userEnv_def)
  have P: "plainFields userEnv (\<lambda>d. dropWhile (\<lambda>b. b = 0) (fst (snd d)) = fst (snd d)) (optFields sampleObject)"
    using sample_object(2) by (simp add: userEnv_def plainFields_def)
  have W: "wf_cache (regCache knownReg)"
    by (auto simp: wf_cache_def knownReg_def sampleMeta_def wf_meta_def addSchema_def addField_def newBinaryMetadata_def split: if_splits)
  have K: "knownType userEnv ''P'' [] JavaMarshaller (optFields sampleObject) (regCache knownReg)"
  proof -
    have e: "idOf userEnv = idOf sampleEnv" "envTypeId userEnv = envTypeId sampleEnv"
      by (intro ext; simp add: idOf_def userEnv_def)+
    have "knownType userEnv = knownType sampleEnv" unfolding knownType_def [abs_def] e by (rule refl)
    moreover have "optTypeName sampleObject = ''P''" "optAffKeyName sampleObject = []" "optPlatform sampleObject = JavaMarshaller"
      by (simp_all add: sampleObject_def)
    ultimately show ?thesis using sample_object(6) by simp
  qed
  have S: "cacheGetSchema 112 (schemaIdOf [97, 98]) (regCache knownReg) = Some sch \<Longrightarrow> schFieldIds sch = [97, 98]" for sch
    by (auto simp: cacheGetSchema_def knownReg_def sampleMeta_def addSchema_def addField_def newBinaryMetadata_def schemaOf_def)
  have F: "getBinarylizableFactory userEnv 112 = Some (\<lambda>rd. bindP (rd ''a'') (\<lambda>a. bindP (rd ''b'') (\<lambda>b. returnP (VObjects [a, b]))))"
    by (simp add: getBinarylizableFactory_def userEnv_def)
  have L: "opos (NewBinaryOutputStream 0) + length (userBytes userEnv ''P'' (optFields sampleObject)) \<le> maxInt32"
    using sample_object(7) by (simp add: d NewBinaryOutputStream_def)
  note U = user_type_roundtrip [OF A P _ _ W K _ wf_out_New L, unfolded T ids,
      where pre = "[1]" and post = "[]" and off = 0, OF _ _ S _ F]
  obtain rd where rd: "readsFields rd (optFields sampleObject) knownReg"
    and M: "marshal userEnv (VBinarylizable (Inr ''P'') [] JavaMarshaller (optFields sampleObject) None) (NewBinaryOutputStream 0) knownReg
       = (put (userBytes userEnv ''P'' (optFields sampleObject)) (NewBinaryOutputStream 0), knownReg)"
    and R: "unmarshal userEnv (Suc (length (userBytes userEnv ''P'' (optFields sampleObject))))
     \<lparr>ibuf = [1] @ userBytes userEnv ''P'' (optFields sampleObject) @ [], ioff = 0, ipos = length [1 :: byte]\<rparr> knownReg =
      bindP (wrapP ''failed to read object'' (bindP (rd ''a'') (\<lambda>a. bindP (rd ''b'') (\<lambda>b. returnP (VObjects [a, b])))))
        (\<lambda>v. returnP (v, \<lparr>ibuf = [1] @ userBytes userEnv ''P'' (optFields sampleObject) @ [], ioff = 0,
          ipos = length [1 :: byte] + length (userBytes userEnv ''P'' (optFields sampleObject))\<rparr>)) knownReg"
    using U by (auto simp: unregisteredId_def sampleObject_def)
  have "rd ''a'' knownReg = (Inr (VScalar (SInt32 7)), knownReg)" "rd ''b'' knownReg = (Inr (VLeaf (LString ''x'')), knownReg)"
    using rd by (simp_all add: readsFields_def sampleObject_def valueOf_def)
  then have "bindP (rd ''a'') (\<lambda>a. bindP (rd ''b'') (\<lambda>b. returnP (VObjects [a, b]))) knownReg
      = (Inr (VObjects [VScalar (SInt32 7), VLeaf (LString ''x'')]), knownReg)" by (simp add: bindP_def)
  then show ?thesis by (intro conjI [OF M] trans [OF R]) (simp add: bindP_def wrapP_def)
qed

end
