(* ===== verification/ObjectAccess.thy ===== *)
theory ObjectAccess
  imports UserTypes ObjectsProps Cursor
begin

text \<open>
  The methods of the interface BinaryObject, over its two implementations, the bytes of an object and a
  binary enum: size, data, hash, the value of an enum, Field, and ScanField with its assignment; the
  getters of collections, maps and opaque objects of ignite_types.go.
\<close>

declare seqW.simps [simp del] unmarshal.simps [simp del]

section \<open>Binary objects\<close>

fun boData :: "boValue \<Rightarrow> byte list" where
  "boData (BoBytes data) = data"
| "boData (BoEnum e) = enumData e"

definition boSize :: "boValue \<Rightarrow> nat" where
  "boSize b = length (boData b)"

fun boHash :: "boValue \<Rightarrow> i32" where
  "boHash (BoBytes data) = boHashCode data"
| "boHash (BoEnum e) = enumHashCode e"

fun boEnumOrdinal :: "boValue \<Rightarrow> int" where
  "boEnumOrdinal (BoBytes _) = 0"
| "boEnumOrdinal (BoEnum e) = EnumOrdinal e"

fun boEnumName :: "boValue \<Rightarrow> string" where
  "boEnumName (BoBytes _) = []"
| "boEnumName (BoEnum e) = enumValName e"

fun Field :: "('d, 'w) env \<Rightarrow> ('w registry, 'd goval) mreader \<Rightarrow> boValue \<Rightarrow> string \<Rightarrow> ('w registry, 'd goval) prog" where
  "Field env unmarsh (BoBytes data) fldName = boField env unmarsh data fldName"
| "Field env unmarsh (BoEnum e) fldName = enumField e fldName"

text \<open>ScanField of a binary object; the one of an enum fails as its Field does.\<close>

fun ScanField :: "('d, 'w) env \<Rightarrow> ('d goval \<Rightarrow> gotype \<Rightarrow> bool) \<Rightarrow> ('w registry, 'd goval) mreader \<Rightarrow> boValue \<Rightarrow>
    string \<Rightarrow> dest \<Rightarrow> ('w registry, 'd goslot) prog" where
  "ScanField env assignable unmarsh (BoBytes data) fldName dst =
     bindP (boField env unmarsh data fldName) (\<lambda>src.
       case convertAssign assignable dst src of Inl e \<Rightarrow> failP e | Inr x \<Rightarrow> returnP x)"
| "ScanField env assignable unmarsh (BoEnum e) fldName dst = failP (ErrMsg ''not supported for binary enums'')"

text \<open>Whatever the object, scanning a field is reading it and then assigning what was read.\<close>

lemma ScanField_Field: "ScanField env assignable unmarsh b fldName dst s =
    bindP (Field env unmarsh b fldName) (\<lambda>src.
      case convertAssign assignable dst src of Inl e \<Rightarrow> failP e | Inr x \<Rightarrow> returnP x) s"
  by (cases b) (simp_all add: enumField_def bindP_def)

text \<open>A field of the bytes of a user type is scanned as its value; a name that no field has leaves the
  zero value in the variable.\<close>

lemma scan_user_field:
  assumes "apd_ok (envApd env) fin" and "plainFields env fin ws" and "envTypeId env name \<noteq> unregisteredId"
    and "distinct (map (idOf env (envTypeId env name)) ws)" and "length (userBytes env name ws) \<le> maxInt32"
    and "hasSchema (envTypeId env name) (schemaIdOf (map (idOf env (envTypeId env name)) ws)) (regCache s)"
    and "\<And>sch. envCompact env \<Longrightarrow> cacheGetSchema (envTypeId env name) (schemaIdOf (map (idOf env (envTypeId env name)) ws)) (regCache s) = Some sch \<Longrightarrow>
      schFieldIds sch = map (idOf env (envTypeId env name)) ws"
  shows "f \<in> set ws \<Longrightarrow> ScanField env assignable (unmarshal env (length (userBytes env name ws))) (BoBytes (userBytes env name ws)) (fst f) (PointerTo t) s =
    (case assignTo assignable (canon (valueOf f)) t of Inl e \<Rightarrow> (Inl (Fail e), s) | Inr x \<Rightarrow> (Inr x, s))"
    and "envFieldId env (envTypeId env name) m \<notin> set (map (idOf env (envTypeId env name)) ws) \<Longrightarrow>
      ScanField env assignable (unmarshal env (length (userBytes env name ws))) (BoBytes (userBytes env name ws)) m (PointerTo t) s = (Inr (ZeroOf t), s)"
proof -
  note F = object_fields [OF assms(1-4) userBytes_def assms(5) order_refl assms(6,7)]
  show "f \<in> set ws \<Longrightarrow> ScanField env assignable (unmarshal env (length (userBytes env name ws))) (BoBytes (userBytes env name ws)) (fst f) (PointerTo t) s =
    (case assignTo assignable (canon (valueOf f)) t of Inl e \<Rightarrow> (Inl (Fail e), s) | Inr x \<Rightarrow> (Inr x, s))" using F(1) by (simp add: bindP_def list_all_iff split: sum.splits)
  have "assignTo assignable VNil t = Inr (ZeroOf t)" by (cases t) simp_all
  then show "envFieldId env (envTypeId env name) m \<notin> set (map (idOf env (envTypeId env name)) ws) \<Longrightarrow> ScanField env assignable (unmarshal env (length (userBytes env name ws))) (BoBytes (userBytes env name ws)) m (PointerTo t) s = (Inr (ZeroOf t), s)"
    using F(2) [of m] by (simp add: bindP_def)
qed

section \<open>Collections, maps and opaque objects\<close>

text \<open>A collection is its kind, its values and whether it is not null, a map the same with its entries.\<close>

type_synonym 'd collection = "byte \<times> 'd goval list \<times> bool"
type_synonym 'd gomap = "byte \<times> ('d goval \<times> 'd goval) list \<times> bool"

definition colKind :: "'d collection \<Rightarrow> byte" where "colKind col = fst col"
definition colValues :: "'d collection \<Rightarrow> 'd goval list" where "colValues col = fst (snd col)"
definition colSize :: "'d collection \<Rightarrow> nat" where "colSize col = length (colValues col)"
definition colIsNull :: "'d collection \<Rightarrow> bool" where "colIsNull col = (\<not> snd (snd col))"

definition mapKindOf :: "'d gomap \<Rightarrow> byte" where "mapKindOf m = fst m"
definition mapEntries :: "'d gomap \<Rightarrow> ('d goval \<times> 'd goval) list" where "mapEntries m = fst (snd m)"
definition mapSize :: "'d gomap \<Rightarrow> nat" where "mapSize m = length (mapEntries m)"
definition mapIsNull :: "'d gomap \<Rightarrow> bool" where "mapIsNull m = (\<not> snd (snd m))"

end
