(* ===== verification/Connect.thy ===== *)
theory Connect
  imports Handshake Reliable
begin

text \<open>
  channel.go, createTcpChannel with the deadline of its context, and what reliable_channel.go makes of it:
  dialing an address, the TLS layer, the handshake, and the first connection of a client. Dialing, the
  clock, TLS and the other side of a connection are parameters over a world that is threaded. The context
  of the protocol in the configuration is shared by reference with the handshake, which changes it: it is
  part of the state here. What a panic leaves in it is not kept.
\<close>

section \<open>State\<close>

record ('k, 't, 'w) dialer =
  dial :: "int option \<Rightarrow> string \<Rightarrow> 'w \<Rightarrow> (gerror + 'k) \<times> 'w"
  clock :: "'w \<Rightarrow> int"
  tlsClient :: "int option \<Rightarrow> 't \<Rightarrow> 'k \<Rightarrow> 'w \<Rightarrow> (gerror + 'k) \<times> 'w"
  peerOn :: "'k \<Rightarrow> 'w peer"

text \<open>Times and durations are in nanoseconds.\<close>

record ('t, 'w) dialConfig =
  requestTimeout :: int
  tlsConfigSupplier :: "('w \<Rightarrow> (gerror + 't) \<times> 'w) option"
  hsConfig :: hs_config

record 'w dialState =
  cfgContext :: "ProtocolContext option"
  world :: 'w

record 'k tcpConn =
  connAddr :: string
  connSocket :: 'k
  connContext :: ProtocolContext
  connServerId :: "uuid option"

section \<open>Operations\<close>

text \<open>A context is its deadline; a nil context has none.\<close>

definition setContextDeadline :: "int \<Rightarrow> int option \<Rightarrow> int \<Rightarrow> int option" where
  "setContextDeadline now ctx defaultTimeout =
     (if ctx = None \<and> defaultTimeout > 0 then Some (now + defaultTimeout) else ctx)"

text \<open>The handshake of a connection: its first round works on the context of the configuration, any
  other on a new one.\<close>

definition connectionHandshake :: "nat \<Rightarrow> hs_config \<Rightarrow> 'w peer \<Rightarrow> ProtocolContext \<Rightarrow>
    ('w dialState, ProtocolContext \<times> uuid option) prog" where
  "connectionHandshake n cfg srv c = (\<lambda>s. case handshakeRound cfg srv c (world s) of
     (Inl f, w) \<Rightarrow> (Inl f, s\<lparr>world := w\<rparr>)
   | (Inr (r, c'), w) \<Rightarrow>
       (let s = s\<lparr>cfgContext := Some c', world := w\<rparr>
        in case r of
             Inl e \<Rightarrow> (Inl (Fail e), s)
           | Inr (Agreed serverId) \<Rightarrow> (Inr (c', serverId), s)
           | Inr (TryVersion srvCtx) \<Rightarrow> (case handshake n cfg srv srvCtx w of
               (Inl f, w) \<Rightarrow> (Inl f, s\<lparr>world := w\<rparr>)
             | (Inr (Inl e), w) \<Rightarrow> (Inl (Fail e), s\<lparr>world := w\<rparr>)
             | (Inr (Inr x), w) \<Rightarrow> (Inr x, s\<lparr>world := w\<rparr>))))"

definition withTls :: "('k, 't, 'w) dialer \<Rightarrow> ('t, 'w) dialConfig \<Rightarrow> int option \<Rightarrow> 'k \<Rightarrow> ('w, 'k) prog" where
  "withTls d cfg ctx conn = (\<lambda>w. case tlsConfigSupplier cfg of
     None \<Rightarrow> (Inr conn, w)
   | Some supplier \<Rightarrow> (case supplier w of
       (Inl e, w) \<Rightarrow> (Inl (Fail (ErrWrap ''failed to obtain tls config'' e)), w)
     | (Inr tlsCfg, w) \<Rightarrow> (case tlsClient d ctx tlsCfg conn w of
         (Inl e, w) \<Rightarrow> (Inl (Fail (ErrWrap ''tls handshake failed'' e)), w)
       | (Inr conn, w) \<Rightarrow> (Inr conn, w))))"

definition createTcpChannel :: "nat \<Rightarrow> ('k, 't, 'w) dialer \<Rightarrow> ('t, 'w) dialConfig \<Rightarrow> int option \<Rightarrow> string \<Rightarrow>
    ('w dialState, 'k tcpConn) prog" where
  "createTcpChannel n d cfg ctx addr = (\<lambda>s.
     let ctx = setContextDeadline (clock d (world s)) ctx (requestTimeout cfg)
     in case checkVersion (cfgContext s) of
          Some e \<Rightarrow> (Inl (Fail e), s)
        | None \<Rightarrow> (case dial d ctx addr (world s) of
            (Inl e, w) \<Rightarrow> (Inl (Fail (ClientConnectionError (''failed to connect to '' @ addr) (Some e))), s\<lparr>world := w\<rparr>)
          | (Inr conn, w) \<Rightarrow> (case withTls d cfg ctx conn w of
              (Inl f, w) \<Rightarrow> (Inl f, s\<lparr>world := w\<rparr>)
            | (Inr conn, w) \<Rightarrow>
                bindP (connectionHandshake n (hsConfig cfg) (peerOn d conn) (the (cfgContext s))) (\<lambda>(c, serverId).
                  returnP \<lparr>connAddr = addr, connSocket = conn, connContext = c, connServerId = serverId\<rparr>)
                  (s\<lparr>world := w\<rparr>))))"

section \<open>One connection\<close>

text \<open>The handshake is that of channel.go, with a budget of one more round.\<close>

lemma connectionHandshake_handshake:
  "(case connectionHandshake n cfg srv c s of (r, s') \<Rightarrow> (r, world s')) =
   (case handshake (Suc n) cfg srv c (world s) of
      (Inl f, w) \<Rightarrow> (Inl f, w) | (Inr (Inl e), w) \<Rightarrow> (Inl (Fail e), w) | (Inr (Inr x), w) \<Rightarrow> (Inr x, w))"
  by (auto simp: connectionHandshake_def bindP_def returnP_def liftP_def Let_def split: prod.splits sum.splits round.splits)

text \<open>A server of one version, as a client of this configuration meets it.\<close>

definition servesOne :: "hs_config \<Rightarrow> ProtocolContext \<Rightarrow> (ProtocolVersion \<Rightarrow> byte list) \<Rightarrow> ProtocolVersion \<Rightarrow> byte list \<Rightarrow> uuid \<Rightarrow> bool" where
  "servesOne cfg c f v feats u \<longleftrightarrow>
     ready c \<and> (cfgUser cfg = [] \<or> SupportsAuthorization c) \<and> small (length (encHandshake cfg c) + 4) \<and>
     natural v \<and> small (length (encHandshake cfg (NewProtocolContext v [])) + 4) \<and>
     f v = acceptBytes v feats u \<and> small (length feats) \<and> length u = 16 \<and>
     (version c = v \<or> (\<exists>msg. small (length msg) \<and> f (version c) = rejectBytes v msg))"

definition agreedContext :: "ProtocolContext \<Rightarrow> ProtocolVersion \<Rightarrow> byte list \<Rightarrow> ProtocolContext" where
  "agreedContext c v feats = negotiated feats (if version c = v then c else NewProtocolContext v [])"

definition keptContext :: "ProtocolContext \<Rightarrow> ProtocolVersion \<Rightarrow> byte list \<Rightarrow> ProtocolContext" where
  "keptContext c v feats = (if version c = v then negotiated feats c else c)"

lemma connectionHandshake_one:
  assumes "servesOne cfg c f v feats u" and "version c \<in> set supportedVersions" and "0 < n"
  shows "connectionHandshake n cfg (peerOf f) c s =
    (Inr (agreedContext c v feats, toldServer u (agreedContext c v feats)), s\<lparr>cfgContext := Some (keptContext c v feats)\<rparr>)"
proof -
  obtain m where n: "n = Suc m" using assms(3) by (cases n) auto
  have z: "small (length ([] :: string))" by (simp add: small_def maxInt32_def)
  note A = assms(1) [unfolded servesOne_def]
  obtain msg where msg: "small (length msg)" "version c \<noteq> v \<Longrightarrow> f (version c) = rejectBytes v msg"
    using A z by blast
  note R = one_version_rounds [where c = c and cfg = cfg and f = f and s = v and feats = feats and u = u and msg = msg
      and w = "world s", OF _ assms(2) _ _ _ _ _ _ _ msg(2,1)]
  show ?thesis
  proof (cases "version c = v")
    case True
    then show ?thesis using R(1) A by (simp add: connectionHandshake_def agreedContext_def keptContext_def Let_def)
  next
    case False
    then show ?thesis using R(2,3) A
      by (simp add: connectionHandshake_def agreedContext_def keptContext_def Let_def n bindP_def returnP_def liftP_def)
  qed
qed

text \<open>What dialing an address comes to, whatever the deadline.\<close>

definition unreachable :: "('k, 't, 'w) dialer \<Rightarrow> string \<Rightarrow> bool" where
  "unreachable d a \<longleftrightarrow> (\<forall>ctx w. \<exists>e. dial d ctx a w = (Inl e, w))"

definition reachesAt :: "('k, 't, 'w) dialer \<Rightarrow> string \<Rightarrow> 'k \<Rightarrow> bool" where
  "reachesAt d a k \<longleftrightarrow> (\<forall>ctx w. dial d ctx a w = (Inr k, w))"

lemma createTcpChannel_unreachable:
  assumes "unreachable d a" and "cfgContext s = Some c" and "version c \<in> set supportedVersions"
  shows "\<exists>e. createTcpChannel n d cfg ctx a s = (Inl (Fail (ClientConnectionError (''failed to connect to '' @ a) (Some e))), s)"
proof -
  obtain e where "dial d (setContextDeadline (clock d (world s)) ctx (requestTimeout cfg)) a (world s) = (Inl e, world s)"
    using assms(1) by (auto simp: unreachable_def)
  then show ?thesis using assms(2,3) by (intro exI [of _ e]) (simp add: createTcpChannel_def checkVersion_def)
qed

definition agreedConn :: "string \<Rightarrow> 'k \<Rightarrow> ProtocolContext \<Rightarrow> ProtocolVersion \<Rightarrow> byte list \<Rightarrow> uuid \<Rightarrow> 'k tcpConn" where
  "agreedConn a k c v feats u = \<lparr>connAddr = a, connSocket = k, connContext = agreedContext c v feats,
     connServerId = toldServer u (agreedContext c v feats)\<rparr>"

lemma createTcpChannel_reaches:
  assumes "reachesAt d a k" and "cfgContext s = Some c" and "version c \<in> set supportedVersions"
    and "tlsConfigSupplier cfg = None" and "peerOn d k = peerOf f" and "servesOne (hsConfig cfg) c f v feats u" and "0 < n"
  shows "createTcpChannel n d cfg ctx a s = (Inr (agreedConn a k c v feats u), s\<lparr>cfgContext := Some (keptContext c v feats)\<rparr>)"
  using assms(1-5) connectionHandshake_one [OF assms(6,3,7), of s]
  by (simp add: createTcpChannel_def checkVersion_def reachesAt_def withTls_def bindP_def agreedConn_def returnP_def liftP_def)

section \<open>The connections of a client\<close>

text \<open>The connections of the reliable channel are those of createTcpChannel. Where it panics, so does the
  code; that model has no panic, and keeps its parameter there.\<close>

definition tcpNet :: "nat \<Rightarrow> ('k, 't, 'w) dialer \<Rightarrow> ('t, 'w) dialConfig \<Rightarrow> ('k tcpConn, 'w dialState, 'q) net \<Rightarrow>
    ('k tcpConn, 'w dialState, 'q) net" where
  "tcpNet n d cfg net = net\<lparr>addrOfCh := connAddr,
     connectTo := (\<lambda>a s. case createTcpChannel n d cfg None a s of
        (Inr ch, s) \<Rightarrow> (Inr ch, s)
      | (Inl (Fail e), s) \<Rightarrow> (Inl e, s)
      | (Inl f, s) \<Rightarrow> connectTo net a s)\<rparr>"

lemma tcpNet_simps [simp]:
  "addressesOf (tcpNet n d cfg net) = addressesOf net" "chClosed (tcpNet n d cfg net) = chClosed net"
  "shuffleAddresses (tcpNet n d cfg net) = shuffleAddresses net" "limitFor (tcpNet n d cfg net) addrs = limitFor net addrs"
  "addrOfCh (tcpNet n d cfg net) = connAddr"
  by (simp_all add: tcpNet_def limitFor_def)

text \<open>An address that the loop passes over: that of the old connection, or one that cannot be dialed.\<close>

definition passedOver :: "('k, 't, 'w) dialer \<Rightarrow> 'k tcpConn option \<Rightarrow> string \<Rightarrow> bool" where
  "passedOver d old b \<longleftrightarrow> map_option connAddr old = Some b \<or> unreachable d b"

lemma tryAddresses_reaches:
  assumes "reachesAt d a k" and "cfgContext (outside s) = Some c" and "version c \<in> set supportedVersions"
    and "tlsConfigSupplier cfg = None" and "peerOn d k = peerOf f" and "servesOne (hsConfig cfg) c f v feats u" and "0 < n"
    and "list_all (passedOver d old) bs" and "map_option connAddr old \<noteq> Some a"
  shows "tryAddresses (tcpNet n d cfg net) limit old (bs @ a # cs) err s =
    (None, s\<lparr>attemptsLimit := limit, currCh := Some (agreedConn a k c v feats u),
             outside := (outside s)\<lparr>cfgContext := Some (keptContext c v feats)\<rparr>\<rparr>)"
  using assms(8)
proof (induction bs arbitrary: err)
  case Nil
  then show ?case using assms(9) createTcpChannel_reaches [OF assms(1-7)] by (auto simp: tcpNet_def)
next
  case (Cons b bs)
  show ?case
  proof (cases "map_option connAddr old = Some b")
    case True
    then show ?thesis using Cons by auto
  next
    case False
    then have "unreachable d b" using Cons.prems by (auto simp: passedOver_def)
    then obtain e where "createTcpChannel n d cfg None b (outside s) = (Inl (Fail (ClientConnectionError (''failed to connect to '' @ b) (Some e))), outside s)"
      using createTcpChannel_unreachable [OF _ assms(2,3)] by blast
    then have "connectTo (tcpNet n d cfg net) b (outside s) = (Inl (ClientConnectionError (''failed to connect to '' @ b) (Some e)), outside s)"
      by (simp add: tcpNet_def)
    then show ?thesis using Cons False by auto
  qed
qed

section \<open>Properties\<close>

text \<open>C16 A client without an open connection gets one to the first address that can be dialed: the addresses
  before it are passed over, the handshake ends with the version, the features and the id of the server
  there, and the limit of attempts follows the addresses. The servers keep to one version each, the address
  is not that of the connection that was lost, and the addresses are not shuffled.\<close>

theorem client_connects_to_first_reachable:
  assumes "currCh s \<noteq> None \<Longrightarrow> chClosed net (the (currCh s)) (outside s)"
    and "addressesOf net (outside s) = (Inr (bs @ a # cs), outside s)" and "\<not> shuffleAddresses net"
    and "list_all (passedOver d (currCh s)) bs" and "map_option connAddr (currCh s) \<noteq> Some a"
    and "reachesAt d a k" and "cfgContext (outside s) = Some c" and "version c \<in> set supportedVersions"
    and "tlsConfigSupplier cfg = None" and "peerOn d k = peerOf f" and "servesOne (hsConfig cfg) c f v feats u" and "0 < n"
  shows "\<exists>conn t. initConnection (tcpNet n d cfg net) s = (None, t) \<and> currCh t = Some conn \<and> connAddr conn = a \<and> connSocket conn = k \<and>
    version (connContext conn) = v \<and> (SupportsBitmapFeatures (connContext conn) \<longrightarrow> features (connContext conn) = Some (FromBytes feats)) \<and>
    connServerId conn = toldServer u (connContext conn) \<and> attemptsLimit t = limitFor net (bs @ a # cs)"
proof -
  let ?t = "s\<lparr>attemptsLimit := limitFor net (bs @ a # cs), currCh := Some (agreedConn a k c v feats u),
             outside := (outside s)\<lparr>cfgContext := Some (keptContext c v feats)\<rparr>\<rparr>"
  have "initConnection (tcpNet n d cfg net) s = (None, ?t)"
    using assms(1-3) tryAddresses_reaches [OF assms(6-12,4,5), of net "limitFor net (bs @ a # cs)" cs None]
    by (auto simp: initConnection_def)
  moreover have "version (agreedContext c v feats) = v"
    by (simp add: agreedContext_def) (simp add: NewProtocolContext_def Let_def)
  moreover have "SupportsBitmapFeatures (agreedContext c v feats) \<longrightarrow> features (agreedContext c v feats) = Some (FromBytes feats)"
    by (auto simp: agreedContext_def features_negotiated)
  ultimately show ?thesis
    by (intro exI [of _ "agreedConn a k c v feats u"] exI [of _ ?t]) (simp add: agreedConn_def)
qed

text \<open>C30 A connection overwrites the features in the configuration: the handshake works on the context of the
  configuration itself, so once a server of the configured version has accepted, the client announces to
  the next server the features of that server in place of those it was configured with.\<close>

theorem server_features_replace_configured:
  assumes "reachesAt d a k" and "cfgContext s = Some c" and "version c \<in> set supportedVersions"
    and "tlsConfigSupplier cfg = None" and "peerOn d k = peerOf f" and "servesOne (hsConfig cfg) c f (version c) feats u" and "0 < n"
    and "SupportsBitmapFeatures c"
  shows "\<exists>c'. cfgContext (snd (createTcpChannel n d cfg ctx a s)) = Some c' \<and>
    encFeatures c' = typeCode ByteArrayType # encBytes (Bytes (FromBytes feats))"
  using createTcpChannel_reaches [OF assms(1-7)] assms(8)
  by (simp add: keptContext_def encFeatures_def features_negotiated)

text \<open>
  Three addresses: the first is that of a connection that was lost, the second cannot be dialed, at the
  third there is a server of version 1.7.0 with the features of its one byte.
\<close>

definition sampleDialer :: "(nat, unit, unit) dialer" where
  "sampleDialer = \<lparr>dial = (\<lambda>ctx a w. if length a = 2 then (Inl (ErrMsg ''refused''), w) else (Inr (length a), w)),
     clock = (\<lambda>w. 0), tlsClient = (\<lambda>ctx t k w. (Inr k, w)),
     peerOn = (\<lambda>k. peerOf (\<lambda>v. acceptBytes (ver 1 7 0) [2] (replicate 16 7)))\<rparr>"

definition sampleDialConfig :: "(unit, unit) dialConfig" where
  "sampleDialConfig = \<lparr>requestTimeout = 0, tlsConfigSupplier = None, hsConfig = \<lparr>cfgAttrs = [], cfgUser = [], cfgPassword = []\<rparr>\<rparr>"

definition sampleDialState :: "unit dialState" where
  "sampleDialState = \<lparr>cfgContext = Some (NewProtocolContext (ver 1 7 0) []), world = ()\<rparr>"

definition threeAddresses :: "(nat tcpConn, unit dialState, unit) net" where
  "threeAddresses = \<lparr>connectTo = (\<lambda>a s. (Inl (ErrMsg ''panic''), s)), addrOfCh = connAddr, chClosed = (\<lambda>ch s. connAddr ch = ''a''),
     sendOn = (\<lambda>ch q s. (Inr [], s)), addressesOf = (\<lambda>s. (Inr [''a'', ''aa'', ''aaa''], s)), shuffled = (\<lambda>as. as),
     closeCh = (\<lambda>ch s. s), retryLimit = 0, shuffleAddresses = False\<rparr>"

definition lostClient :: "(nat tcpConn, unit dialState) reliableChannel" where
  "lostClient = \<lparr>currCh = Some \<lparr>connAddr = ''a'', connSocket = 1, connContext = NewProtocolContext (ver 1 7 0) [], connServerId = None\<rparr>,
     attemptsLimit = 3, relClosed = False, sentOn = [], outside = sampleDialState\<rparr>"

lemma sample_serves:
  "servesOne (hsConfig sampleDialConfig) (NewProtocolContext (ver 1 7 0) []) (\<lambda>v. acceptBytes (ver 1 7 0) [2] (replicate 16 7)) (ver 1 7 0) [2] (replicate 16 7)"
  using plain_handshake_small [of "ver 1 7 0"]
  by (simp add: servesOne_def sampleDialConfig_def ready_New natural_def small_def maxInt32_def)
     (simp add: NewProtocolContext_def Let_def ver_def)

lemma sample_supported: "version (NewProtocolContext (ver 1 7 0) []) \<in> set supportedVersions"
  by (simp add: NewProtocolContext_def Let_def supportedVersions_def)

theorem client_connects_to_first_reachable_witness:
  "\<exists>conn t. initConnection (tcpNet 1 sampleDialer sampleDialConfig threeAddresses) lostClient = (None, t) \<and>
    currCh t = Some conn \<and> connAddr conn = ''aaa'' \<and> version (connContext conn) = ver 1 7 0 \<and> attemptsLimit t = 3"
proof -
  have "\<exists>conn t. initConnection (tcpNet 1 sampleDialer sampleDialConfig threeAddresses) lostClient = (None, t) \<and>
    currCh t = Some conn \<and> connAddr conn = ''aaa'' \<and> connSocket conn = 3 \<and>
    version (connContext conn) = ver 1 7 0 \<and> (SupportsBitmapFeatures (connContext conn) \<longrightarrow> features (connContext conn) = Some (FromBytes [2])) \<and>
    connServerId conn = toldServer (replicate 16 7) (connContext conn) \<and> attemptsLimit t = limitFor threeAddresses ([''a'', ''aa''] @ ''aaa'' # [])"
    by (rule client_connects_to_first_reachable [OF _ _ _ _ _ _ _ sample_supported _ _ sample_serves])
       (simp_all add: threeAddresses_def lostClient_def sampleDialer_def sampleDialConfig_def sampleDialState_def passedOver_def
          unreachable_def reachesAt_def)
  then show ?thesis by (auto simp: limitFor_def threeAddresses_def)
qed

theorem server_features_replace_configured_witness:
  "\<exists>c'. cfgContext (snd (createTcpChannel 1 sampleDialer sampleDialConfig None ''aaa'' sampleDialState)) = Some c' \<and>
    encFeatures c' = typeCode ByteArrayType # encBytes (Bytes (FromBytes [2]))"
proof -
  have v: "version (NewProtocolContext (ver 1 7 0) []) = ver 1 7 0" by (simp add: NewProtocolContext_def Let_def)
  show ?thesis
    by (rule server_features_replace_configured [OF _ _ sample_supported, where k = 3 and f = "\<lambda>v. acceptBytes (ver 1 7 0) [2] (replicate 16 7)"
          and u = "replicate 16 7", unfolded v])
       (use sample_serves in \<open>simp_all add: sampleDialer_def sampleDialConfig_def sampleDialState_def reachesAt_def,
         simp add: SupportsBitmapFeatures_def NewProtocolContext_def Let_def Compare_def ver_def\<close>)
qed

end
