(* ===== verification/Spec2Isabelle.thy ===== *)
theory Spec2Isabelle
  imports PrimCodecs Proto MarshalRT MarshalTotal SchemaStore SchemaWire ChannelProps Handshake Reliable CacheProps
    CacheOptions ObjectsProps CursorProps TxProps ClusterOptions ClientProps GeneratorProps ObjectAccess Connect
begin

text \<open>
  A verification development for the thin client of Apache Ignite in Go (the package at the root of the
  repository, internal/ and the code generator under tools/).

  The program. A caller holds a Client (client.go) with a cache handle (cache.go), a cursor
  (cursor_base.go, sql_query.go, scan_query.go), a transaction (transactions.go) or a group of nodes
  (cluster.go). Every operation writes a request with the marshaller (marshaller.go over the streams of
  buffer.go), hands it to the channel and reads the response. The channel of a client is the
  reliableChannel (reliable_channel.go), which connects to one address after the other and repeats
  requests after a failure of the connection; under it a tcpChannel (channel.go) negotiates the protocol
  (protocol_context.go), numbers the requests, and matches responses to them, with one goroutine that
  writes and one that reads. Values of user types are binary objects (binary_object.go, binary_enum.go),
  whose schemas are kept in the metadata of a registry (binary_schema.go).

  Theories and sources.
    Prelude, Effects: failures, computations that read and write streams and change a state, lists and words.
    Bitset: internal/bitset/bitset.go. Utils: internal/utils.go (hash codes, sets, UTF-8). Trim: strings.TrimSpace.
    Buffer, Wire: buffer.go, the streams and the bytes of what is written.
    Primitives, PrimCodecs: the primitive types of marshaller.go and their codecs.
    Values: ignite_types.go and the type of Go values the marshaller takes.
    Schema, SchemaMerge, SchemaStore, SchemaWire: binary_schema.go, its merge, its cache, its wire form.
    BinObj: binary_object.go. Marshaller, MarshalRT, MarshalTotal: marshaller.go, round trips, termination.
    Canon: the values a round trip returns. Ops: sending one operation over a channel.
    Packet, Channel, ChannelProps, Handshake: channel.go. Proto: protocol_context.go. Reliable: reliable_channel.go.
    Connect: createTcpChannel of channel.go, composed with the handshake and the reliable channel.
    Cache, CacheProps: cache.go. CacheConfig, CacheConfigProps, CacheOptions: cache_configuration.go.
    Objects, ObjectsProps: binary_enum.go and the options of binary objects in client.go.
    Cursor, CursorProps: the cursors and queries. Transactions, TxProps: transactions.go.
    Cluster, ClusterProps, ClusterWire, ClusterGroups, ClusterOptions: cluster.go.
    ObjectBuild, ObjectFields: the bytes of binary objects and the access to their fields (binary_object.go).
    UserTypes, ObjectAccess: values of user types on the wire, and the interface of binary objects with ScanField.
    Client, ClientProps: client.go. GenText: what the generator uses of Go's strings, strconv, reflect and go/ast.
    GenParser: tools/generator/parser.go. Generator, GeneratorProps: tools/generator/generator.go. Names: the files generated by stringer and the texts of errors.

  State and operations. A stream is a record with its bytes and its position; a writer is a function from
  an output stream to a failure or a stream, a reader one from an input stream to a failure or a value and
  a stream. A failure is an error value, a panic or, where the model has a budget of steps, its end. An
  operation that talks to the server has the type of a state transformer over \<open>registry\<close>, the metadata the
  client has with the world behind the connection; the server is a function from an operation code, the
  bytes of the request and the world to an error or the bytes of the response, with the new world. A struct
  is a record, an enumeration its code or a datatype, a Go map an association list, a string a list of
  bytes as characters, a float its bits. Code of other packages is a parameter: decimals, the mapping of
  Unicode strings to lower case, reflection, the connection made by dialing. Words keep their widths.
  The channel is a step relation over a record of its tables, queue and the program points of its
  goroutines; the invariants of its reachable states are proved by induction on the steps.

  What the lemmas show. Codecs: what is written is read back and the bytes are the ones of the protocol.
  Marshaller: every value that fits the wire comes back in the form the reader gives it; with no factory of
  user types registered reading ends on every input, and with one an object whose field is the object
  itself keeps it from ending. Schemas: a merged description holds field by field and schema by schema what
  the old one held and of the new one what was missing, so that of all descriptions put into the cache the
  first to tell something is kept. Channel: responses reach their requests, the table of pending requests
  holds exactly the requests that are not completed and still waited for, the steps of the closing goroutine
  alone complete every pending request and release the callers, and where a caller can wait for ever. These
  hold for any requests, those with an empty body and those whose writer fails included. Handshake and
  reliable channel: negotiation ends, attempts are bounded, and a client that lost its connection gets one
  to the first address that can be dialed. Caches: any sequence of operations over a server that keeps a table behaves as the same operations on an abstract map.
  Binary objects: the bytes of a new object in closed form, and every field read back through its footer;
  values of user types reach the Read method of their factory with every field that was written.
  Transactions: all or nothing over such a server. Cursors: every row once. Cache configuration: options
  show in the getters and survive the wire. Groups: however filters are merged, the nodes are those that
  pass every filter in order, Node finds one of these by its id, and ForYoungest and ForOldest leave the
  first of the nodes with the greatest or the least order. Generator: the printed serializers read what they
  write, the tables of enums cut the right names. Client: the names of the caches as a set, addresses, the
  start. Names: the texts of the enumerations of the library are those of their constants. The theorems
  that show a flaw say so in their texts.

  Budgets. \<open>unmarshal\<close> takes a number of nested values: MarshalTotal proves that the number of bytes left is
  enough for every input when no factory of user types is registered; the reading of a user type goes through
  its Read method, for which UserTypes shows an input that no budget is enough for. \<open>handshake\<close> and
  \<open>sendLoop\<close> take a number of rounds; Handshake proves that two rounds are enough for a server that keeps to its version,
  Reliable that the number of addresses bounds the attempts.

  Not modelled. Dialing, TLS and the clock, which are parameters, and what a deadline interrupts; logging (logger/), which is output; memory that runs
  out; the order in which Go visits a map, which is the order of the association list; data races, since
  each access to a shared table is one step; reflection, which is part of the type of values; String
  methods that only print for a log; examples, benchmarks and the servers the tests start; of the generator go/parser (the
  model starts from the syntax tree), the formatting of the printed text, flags, files and messages; the
  generated serializers under tools/test_binarylizable, which the model of the generator prints, and the
  data of their tests.
\<close>

end
